(* ===== verification/Prelude.thy ===== *)
theory Prelude
  imports Main "HOL-Library.AList"
begin

text \<open>
  What the components share: asynchronous computations over an explicit state that may reject,
  the three ways the program combines promises (a \<open>reduce\<close> chain, \<open>Promise.all\<close>,
  \<open>Promise.allSettled\<close>), JavaScript \<open>Map\<close>s and plain objects as association lists in
  insertion order, and the collection \<open>keeps\<close> of preservation rules that the component
  theories extend with one rule per operation.
\<close>

named_theorems keeps \<open>preservation rules for computations and loops\<close>
named_theorems js_map \<open>lookup laws of JavaScript maps\<close>

section \<open>Computations\<close>

text \<open>
  An \<open>async\<close> function of the program is a computation: it takes the state and returns a
  rejection (\<open>Inl\<close>) or a value (\<open>Inr\<close>) and the state it leaves.
\<close>

type_synonym ('s, 'e, 'a) comp = "'s \<Rightarrow> ('e + 'a) \<times> 's"

definition returnC :: "'a \<Rightarrow> ('s, 'e, 'a) comp" where
  "returnC x = (\<lambda>s. (Inr x, s))"

definition throwC :: "'e \<Rightarrow> ('s, 'e, 'a) comp" where
  "throwC e = (\<lambda>s. (Inl e, s))"

definition bindC :: "('s, 'e, 'a) comp \<Rightarrow> ('a \<Rightarrow> ('s, 'e, 'b) comp) \<Rightarrow> ('s, 'e, 'b) comp" where
  "bindC m f = (\<lambda>s. case m s of (Inl e, s') \<Rightarrow> (Inl e, s') | (Inr x, s') \<Rightarrow> f x s')"

definition liftC :: "'e + 'a \<Rightarrow> ('s, 'e, 'a) comp" where
  "liftC r = (\<lambda>s. (r, s))"

definition mapresC :: "('a \<Rightarrow> 'b) \<Rightarrow> ('s, 'e, 'a) comp \<Rightarrow> ('s, 'e, 'b) comp" where
  "mapresC f m = bindC m (\<lambda>x. returnC (f x))"

lemma returnC_apply [simp]: "returnC x s = (Inr x, s)"
  by (simp add: returnC_def)

lemma throwC_apply [simp]: "throwC e s = (Inl e, s)"
  by (simp add: throwC_def)

lemma liftC_apply [simp]: "liftC r s = (r, s)"
  by (simp add: liftC_def)

lemma bindC_Inl [simp]: "m s = (Inl e, s') \<Longrightarrow> bindC m f s = (Inl e, s')"
  by (simp add: bindC_def)

lemma bindC_Inr [simp]: "m s = (Inr x, s') \<Longrightarrow> bindC m f s = f x s'"
  by (simp add: bindC_def)

lemma bindC_InrE:
  assumes "bindC m f s = (Inr y, t)"
  obtains x s' where "m s = (Inr x, s')" "f x s' = (Inr y, t)"
  using assms by (auto simp: bindC_def split: prod.splits sum.splits)

lemma bindC_assoc: "bindC (bindC m f) g = bindC m (\<lambda>x. bindC (f x) g)"
  by (auto simp: bindC_def fun_eq_iff split: prod.splits sum.splits)

lemma mapresC_cases:
  "mapresC f m s = (case m s of (Inl e, s') \<Rightarrow> (Inl e, s') | (Inr x, s') \<Rightarrow> (Inr (f x), s'))"
  by (simp add: mapresC_def bindC_def returnC_def split: prod.splits sum.splits)

section \<open>Combining promises\<close>

text \<open>
  \<open>xs.reduce(async (chain, x) => { await chain; ... }, Promise.resolve())\<close>: strictly in order,
  and a rejection keeps every later element from starting.
\<close>

fun seqC :: "('a \<Rightarrow> ('s, 'e, 'b) comp) \<Rightarrow> 'a list \<Rightarrow> ('s, 'e, 'b list) comp" where
  "seqC f [] s = (Inr [], s)"
| "seqC f (x # xs) s =
     (case f x s of
        (Inl e, s1) \<Rightarrow> (Inl e, s1)
      | (Inr y, s1) \<Rightarrow>
          (case seqC f xs s1 of (Inl e, s2) \<Rightarrow> (Inl e, s2) | (Inr ys, s2) \<Rightarrow> (Inr (y # ys), s2)))"

text \<open>
  \<open>Promise.allSettled(xs.map(f))\<close>: every call is started, in list order; each outcome is
  recorded. The model runs each call to its end before the next (the schedule in which no call
  yields to a later one).
\<close>

fun settledC :: "('a \<Rightarrow> ('s, 'e, 'b) comp) \<Rightarrow> 'a list \<Rightarrow> 's \<Rightarrow> ('e + 'b) list \<times> 's" where
  "settledC f [] s = ([], s)"
| "settledC f (x # xs) s =
     (let (r, s1) = f x s; (rs, s2) = settledC f xs s1 in (r # rs, s2))"

fun collect_results :: "('e + 'b) list \<Rightarrow> 'e + 'b list" where
  "collect_results [] = Inr []"
| "collect_results (Inl e # rs) = Inl e"
| "collect_results (Inr y # rs) =
     (case collect_results rs of Inl e \<Rightarrow> Inl e | Inr ys \<Rightarrow> Inr (y # ys))"

text \<open>\<open>Promise.all(xs.map(f))\<close>: every call runs; the first rejection, if any, is the result.\<close>

definition allC :: "('a \<Rightarrow> ('s, 'e, 'b) comp) \<Rightarrow> 'a list \<Rightarrow> ('s, 'e, 'b list) comp" where
  "allC f xs s = (let (rs, s') = settledC f xs s in (collect_results rs, s'))"

lemma settledC_length: "length (fst (settledC f xs s)) = length xs"
  by (induction xs arbitrary: s) (auto simp: Let_def split: prod.splits, metis fst_conv)

lemma collect_results_Inrs [simp]: "collect_results (map Inr ys) = Inr ys"
  by (induction ys) auto

lemma collect_results_Inr: "collect_results rs = Inr ys \<longleftrightarrow> rs = map Inr ys"
proof
  show "collect_results rs = Inr ys \<Longrightarrow> rs = map Inr ys"
    by (induction rs arbitrary: ys rule: collect_results.induct) (auto split: sum.splits)
qed simp

lemma collect_results_Inl: "collect_results rs = Inl e \<Longrightarrow> Inl e \<in> set rs"
  by (induction rs rule: collect_results.induct) (auto split: sum.splits)

lemma collect_results_map_Inr [simp]: "collect_results (map (\<lambda>x. Inr (g x)) xs) = Inr (map g xs)"
  by (induction xs) auto

text \<open>
  A computation that succeeds without changing the state, at every element of a list, gives the
  same result under the chain and under \<open>Promise.all\<close>: for such calls the program's
  \<open>parallelRead\<close> switch is not observable.
\<close>

lemma seqC_pure: "(\<And>x. x \<in> set xs \<Longrightarrow> f x s = (Inr (g x), s)) \<Longrightarrow> seqC f xs s = (Inr (map g xs), s)"
  by (induction xs) auto

lemma settledC_pure:
  "(\<And>x. x \<in> set xs \<Longrightarrow> f x s = (r x, s)) \<Longrightarrow> settledC f xs s = (map r xs, s)"
  by (induction xs) auto

lemma allC_pure: "(\<And>x. x \<in> set xs \<Longrightarrow> f x s = (Inr (g x), s)) \<Longrightarrow> allC f xs s = (Inr (map g xs), s)"
  by (simp add: allC_def settledC_pure)

section \<open>Preservation\<close>

definition keepsC :: "('s \<Rightarrow> bool) \<Rightarrow> ('s, 'e, 'a) comp \<Rightarrow> bool" where
  "keepsC I m \<longleftrightarrow> (\<forall>s. I s \<longrightarrow> I (snd (m s)))"

lemma keepsCI: "(\<And>s. I s \<Longrightarrow> I (snd (m s))) \<Longrightarrow> keepsC I m"
  by (simp add: keepsC_def)

lemma keepsCD: "keepsC I m \<Longrightarrow> I s \<Longrightarrow> I (snd (m s))"
  by (simp add: keepsC_def)

lemma keepsC_result: "keepsC I m \<Longrightarrow> I s \<Longrightarrow> m s = (r, s') \<Longrightarrow> I s'"
  by (metis keepsC_def snd_conv)

lemma keeps_return [keeps]: "keepsC I (returnC x)"
  by (simp add: keepsC_def)

lemma keeps_throw [keeps]: "keepsC I (throwC e)"
  by (simp add: keepsC_def)

lemma keeps_lift [keeps]: "keepsC I (liftC r)"
  by (simp add: keepsC_def)

lemma keeps_bind [keeps]: "keepsC I m \<Longrightarrow> (\<And>x. keepsC I (f x)) \<Longrightarrow> keepsC I (bindC m f)"
  by (auto simp: keepsC_def bindC_def split: prod.splits sum.splits)

lemma keeps_if [keeps]: "keepsC I m \<Longrightarrow> keepsC I n \<Longrightarrow> keepsC I (if b then m else n)"
  by simp

lemma keeps_seq [keeps]:
  assumes "\<And>x. x \<in> set xs \<Longrightarrow> keepsC I (f x)"
  shows "keepsC I (seqC f xs)"
proof (rule keepsCI)
  fix s assume "I s"
  with assms show "I (snd (seqC f xs s))"
  proof (induction xs arbitrary: s)
    case (Cons x xs)
    obtain r s1 where r: "f x s = (r, s1)" by (cases "f x s")
    with Cons.prems have "I s1" by (metis keepsC_result list.set_intros(1))
    then have "I (snd (seqC f xs s1))" using Cons by simp
    with r \<open>I s1\<close> show ?case by (auto split: sum.splits prod.splits)
  qed simp
qed

lemma keeps_settled:
  assumes "\<And>x. x \<in> set xs \<Longrightarrow> keepsC I (f x)" and "I s"
  shows "I (snd (settledC f xs s))"
  using assms
proof (induction xs arbitrary: s)
  case (Cons x xs)
  obtain r s1 where r: "f x s = (r, s1)" by (cases "f x s")
  with Cons.prems have "I s1" by (metis keepsC_result list.set_intros(1))
  then have "I (snd (settledC f xs s1))" using Cons by simp
  with r show ?case by (auto split: prod.splits)
qed simp

lemma keeps_all [keeps]:
  "(\<And>x. x \<in> set xs \<Longrightarrow> keepsC I (f x)) \<Longrightarrow> keepsC I (allC f xs)"
  by (rule keepsCI) (simp add: allC_def case_prod_beta Let_def keeps_settled)

section \<open>JavaScript maps and objects\<close>

text \<open>
  A \<open>Map\<close> keeps its keys in insertion order and \<open>set\<close> on a present key keeps the key's
  place: \<open>AList.update\<close> does both. A plain object used as a record of strings is the same.
\<close>

type_synonym ('k, 'v) jsmap = "('k \<times> 'v) list"

abbreviation js_get :: "('k, 'v) jsmap \<Rightarrow> 'k \<Rightarrow> 'v option" where
  "js_get m k \<equiv> map_of m k"

definition js_set :: "'k \<Rightarrow> 'v \<Rightarrow> ('k, 'v) jsmap \<Rightarrow> ('k, 'v) jsmap" where
  "js_set k v m = AList.update k v m"

definition js_delete :: "'k \<Rightarrow> ('k, 'v) jsmap \<Rightarrow> ('k, 'v) jsmap" where
  "js_delete k m = AList.delete k m"

definition js_has :: "('k, 'v) jsmap \<Rightarrow> 'k \<Rightarrow> bool" where
  "js_has m k \<longleftrightarrow> map_of m k \<noteq> None"

text \<open>Object spread \<open>{...a, ...b}\<close>: later entries win.\<close>

definition js_spread :: "('k, 'v) jsmap \<Rightarrow> ('k, 'v) jsmap \<Rightarrow> ('k, 'v) jsmap" where
  "js_spread a b = fold (\<lambda>(k, v) m. js_set k v m) b a"

definition wf_map :: "('k, 'v) jsmap \<Rightarrow> bool" where
  "wf_map m \<longleftrightarrow> distinct (map fst m)"

lemma js_get_set [js_map, simp]: "js_get (js_set k v m) k' = (if k' = k then Some v else js_get m k')"
  by (simp add: js_set_def update_conv')

lemma js_get_delete [js_map, simp]: "js_get (js_delete k m) k' = (if k' = k then None else js_get m k')"
  by (simp add: js_delete_def delete_conv')

lemma js_has_set [js_map, simp]: "js_has (js_set k v m) k' \<longleftrightarrow> k' = k \<or> js_has m k'"
  by (simp add: js_has_def)

lemma js_has_delete [js_map, simp]: "js_has (js_delete k m) k' \<longleftrightarrow> k' \<noteq> k \<and> js_has m k'"
  by (simp add: js_has_def)

lemma wf_map_Nil [simp]: "wf_map []"
  by (simp add: wf_map_def)

lemma wf_map_set [simp, intro]: "wf_map m \<Longrightarrow> wf_map (js_set k v m)"
  by (simp add: wf_map_def js_set_def distinct_update)

lemma wf_map_delete [simp, intro]: "wf_map m \<Longrightarrow> wf_map (js_delete k m)"
  by (simp add: wf_map_def js_delete_def distinct_delete)

lemma wf_map_filter [simp, intro]: "wf_map m \<Longrightarrow> wf_map (filter P m)"
  by (simp add: wf_map_def distinct_map_filter)

lemma keys_js_set: "fst ` set (js_set k v m) = insert k (fst ` set m)"
  by (simp add: js_set_def dom_update)

lemma js_has_keys: "js_has m k \<longleftrightarrow> k \<in> fst ` set m"
  by (simp add: js_has_def map_of_eq_None_iff)

lemma js_get_filter:
  "wf_map m \<Longrightarrow>
   js_get (filter (\<lambda>(k, v). P k v) m) k = (case js_get m k of Some v \<Rightarrow> if P k v then Some v else None | None \<Rightarrow> None)"
proof (induction m)
  case (Cons a m)
  then show ?case
    by (cases a) (auto simp: wf_map_def split: option.splits dest: map_of_SomeD, force+)
qed (simp add: wf_map_def)

lemma js_get_in_set: "wf_map m \<Longrightarrow> js_get m k = Some v \<longleftrightarrow> (k, v) \<in> set m"
  by (simp add: wf_map_def)

lemma length_js_set: "length (js_set k v m) = (if js_has m k then length m else Suc (length m))"
  by (induction m) (auto simp: js_set_def js_has_def)

lemma js_get_spread: "js_get (js_spread a b) k = (case js_get (rev b) k of Some v \<Rightarrow> Some v | None \<Rightarrow> js_get a k)"
  by (induction b arbitrary: a)
     (auto simp: js_spread_def map_add_def split: option.splits)

section \<open>Lists\<close>

text \<open>A loop over a list whose body may throw.\<close>

fun fold_res :: "('a \<Rightarrow> 's \<Rightarrow> 'e + 's) \<Rightarrow> 'a list \<Rightarrow> 's \<Rightarrow> 'e + 's" where
  "fold_res f [] s = Inr s"
| "fold_res f (x # xs) s = (case f x s of Inl e \<Rightarrow> Inl e | Inr s' \<Rightarrow> fold_res f xs s')"

text \<open>\<open>for (let i = 0; i < n; i += k)\<close>.\<close>

definition stepped :: "nat \<Rightarrow> nat \<Rightarrow> nat list" where
  "stepped k n = map (\<lambda>j. k * j) [0..<(n + k - 1) div k]"

fun find_first :: "('a \<Rightarrow> bool) \<Rightarrow> 'a list \<Rightarrow> 'a option" where
  "find_first P [] = None"
| "find_first P (x # xs) = (if P x then Some x else find_first P xs)"

lemma find_first_Some: "find_first P xs = Some x \<Longrightarrow> x \<in> set xs \<and> P x"
  by (induction xs) (auto split: if_splits)

lemma find_first_None: "find_first P xs = None \<longleftrightarrow> (\<forall>x \<in> set xs. \<not> P x)"
  by (induction xs) auto

end
