(* ===== verification/Js_Number.thy ===== *)
theory Js_Number
  imports Complex_Main Prelude "HOL-Library.Word"
begin

text \<open>
  JavaScript numbers: IEEE 754 doubles with round-to-nearest-even, computed exactly over the
  rationals. A finite double is the rational it denotes; the two zeros are one value (no
  modelled operation distinguishes them other than division by zero, which takes the sign of the
  dividend). The same rounding with 24 bits of precision gives the single-precision values that
  \<open>writeFloatBE\<close> stores. Then JavaScript values (\<open>jsval\<close>) with \<open>ToNumber\<close>, strict
  equality and the arithmetic of the language.
\<close>

section \<open>Binary logarithm and rounding\<close>

fun nlog2 :: "nat \<Rightarrow> nat" where
  "nlog2 n = (if n < 2 then 0 else Suc (nlog2 (n div 2)))"

declare nlog2.simps [simp del]

lemma nlog2_bounds: "0 < n \<Longrightarrow> 2 ^ nlog2 n \<le> n \<and> n < 2 ^ Suc (nlog2 n)"
proof (induction n rule: nlog2.induct)
  case (1 n)
  show ?case
  proof (cases "n < 2")
    case True
    with 1 show ?thesis by (simp add: nlog2.simps)
  next
    case False
    then have "0 < n div 2" by simp
    with 1 False have IH: "2 ^ nlog2 (n div 2) \<le> n div 2" "n div 2 < 2 ^ Suc (nlog2 (n div 2))" by auto
    have "nlog2 n = Suc (nlog2 (n div 2))" using False by (simp add: nlog2.simps)
    moreover have "2 * 2 ^ nlog2 (n div 2) \<le> n" using IH(1) by linarith
    moreover have "n < 2 * 2 ^ Suc (nlog2 (n div 2))" using IH(2) by linarith
    ultimately show ?thesis by simp
  qed
qed

text \<open>The exponent of a positive rational: \<open>2 ^ e \<le> x < 2 ^ (e + 1)\<close>.\<close>

definition ilog2 :: "rat \<Rightarrow> int" where
  "ilog2 x =
     (let (n, d) = quotient_of x;
          k = int (nlog2 (nat n)) - int (nlog2 (nat d))
      in if 2 powi k \<le> x then k else k - 1)"

lemma ilog2_bounds:
  assumes "0 < x"
  shows "2 powi ilog2 x \<le> x" "x < 2 powi (ilog2 x + 1)"
proof -
  obtain n d where q: "quotient_of x = (n, d)" by (cases "quotient_of x")
  have d: "0 < d" using quotient_of_denom_pos [OF q] .
  have x: "x = of_int n / of_int d" using quotient_of_div [OF q] .
  have n: "0 < n" using assms d by (simp add: x zero_less_divide_iff)
  define a b where "a = nlog2 (nat n)" and "b = nlog2 (nat d)"
  have nb: "(2::int) ^ a \<le> n" "n < 2 ^ Suc a"
    using nlog2_bounds [of "nat n"] n unfolding a_def
    by (metis nat_less_iff of_nat_le_iff of_nat_power of_nat_numeral int_nat_eq less_le zero_less_nat_eq)
       (metis nlog2_bounds nat_less_iff of_nat_power of_nat_numeral less_le n zero_less_nat_eq a_def)
  have db: "(2::int) ^ b \<le> d" "d < 2 ^ Suc b"
    using nlog2_bounds [of "nat d"] d unfolding b_def
    by (metis nat_less_iff of_nat_le_iff of_nat_power of_nat_numeral int_nat_eq less_le zero_less_nat_eq)
       (metis nlog2_bounds nat_less_iff of_nat_power of_nat_numeral less_le d zero_less_nat_eq b_def)
  have rn: "(2::rat) ^ a \<le> of_int n" "of_int n < (2::rat) ^ Suc a"
    using nb by (metis of_int_le_iff of_int_numeral of_int_power, metis of_int_less_iff of_int_numeral of_int_power)
  have rd: "(2::rat) ^ b \<le> of_int d" "of_int d < (2::rat) ^ Suc b"
    using db by (metis of_int_le_iff of_int_numeral of_int_power, metis of_int_less_iff of_int_numeral of_int_power)
  have dpos: "(0::rat) < of_int d" using d by simp
  define k where "k = int a - int b"
  have pk: "(2::rat) powi k = 2 ^ a / 2 ^ b"
    by (simp add: k_def power_int_diff)
  have upper: "x < 2 powi (k + 1)"
  proof -
    have "x * of_int d = of_int n" using dpos by (simp add: x)
    also have "\<dots> < 2 * 2 ^ a" using rn(2) by simp
    also have "\<dots> = (2 * 2 ^ a / 2 ^ b) * 2 ^ b" by simp
    also have "\<dots> \<le> (2 * 2 ^ a / 2 ^ b) * of_int d"
      by (rule mult_left_mono [OF rd(1)]) simp
    finally have "x * of_int d < (2 * 2 ^ a / 2 ^ b) * of_int d" .
    then have "x < 2 * 2 ^ a / 2 ^ b"
      using dpos by (rule mult_right_less_imp_less [OF _ less_imp_le])
    then show ?thesis using pk by (simp add: power_int_add mult.commute)
  qed
  have lower: "2 powi (k - 1) \<le> x"
  proof -
    have "((2::rat) ^ a / (2 * 2 ^ b)) * of_int d \<le> (2 ^ a / (2 * 2 ^ b)) * (2 * 2 ^ b)"
      using rd(2) by (intro mult_left_mono) auto
    also have "\<dots> = 2 ^ a" by simp
    also have "\<dots> \<le> of_int n" by (rule rn(1))
    also have "\<dots> = x * of_int d" using dpos by (simp add: x)
    finally have "2 ^ a / (2 * 2 ^ b) * of_int d \<le> x * of_int d" .
    then have "2 ^ a / (2 * 2 ^ b) \<le> x" using dpos by (rule mult_right_le_imp_le)
    then show ?thesis by (simp add: power_int_diff pk)
  qed
  have i: "ilog2 x = (if 2 powi k \<le> x then k else k - 1)"
    by (simp add: ilog2_def q k_def a_def b_def)
  show "2 powi ilog2 x \<le> x" using lower i by simp
  show "x < 2 powi (ilog2 x + 1)" using upper i by auto
qed

text \<open>Round half to even, and its distance.\<close>

definition round_half_even :: "rat \<Rightarrow> int" where
  "round_half_even x =
     (let f = \<lfloor>x\<rfloor>; r = x - of_int f
      in if r < 1/2 then f else if r > 1/2 then f + 1 else if even f then f else f + 1)"

lemma round_half_even_error: "\<bar>of_int (round_half_even x) - x\<bar> \<le> 1/2"
proof -
  have "of_int \<lfloor>x\<rfloor> \<le> x" "x < of_int \<lfloor>x\<rfloor> + 1" by linarith+
  then show ?thesis by (auto simp: round_half_even_def Let_def abs_le_iff)
qed

lemma round_half_even_int [simp]: "round_half_even (of_int n) = n"
  by (simp add: round_half_even_def)

lemma round_half_even_mono_int: "of_int n \<le> x \<Longrightarrow> n \<le> round_half_even x"
  using round_half_even_error [of x] by (auto simp: round_half_even_def Let_def) linarith+

lemma round_half_even_le_int: "x \<le> of_int n \<Longrightarrow> round_half_even x \<le> n"
proof -
  assume "x \<le> of_int n"
  then have "\<lfloor>x\<rfloor> \<le> n" by linarith
  moreover have "\<lfloor>x\<rfloor> = n \<Longrightarrow> x = of_int n" using \<open>x \<le> of_int n\<close> by linarith
  ultimately show ?thesis by (auto simp: round_half_even_def Let_def le_less)
qed

section \<open>Doubles\<close>

datatype jsnum = NaN | Infinity | NegInfinity | Fin rat

text \<open>The spacing of the format's values near \<open>x\<close> (precision \<open>p\<close>, least exponent \<open>emin\<close>).\<close>

definition ulp_exp :: "nat \<Rightarrow> int \<Rightarrow> rat \<Rightarrow> int" where
  "ulp_exp p emin x = max (ilog2 \<bar>x\<bar> - (int p - 1)) emin"

definition round_to :: "nat \<Rightarrow> int \<Rightarrow> rat \<Rightarrow> rat" where
  "round_to p emin x =
     (if x = 0 then 0
      else let e = ulp_exp p emin x in of_int (round_half_even (x / 2 powi e)) * 2 powi e)"

definition to_format :: "nat \<Rightarrow> int \<Rightarrow> int \<Rightarrow> rat \<Rightarrow> jsnum" where
  "to_format p emin emax x =
     (let y = round_to p emin x
      in if 2 powi emax \<le> y then Infinity else if y \<le> - (2 powi emax) then NegInfinity else Fin y)"

definition fl64 :: "rat \<Rightarrow> jsnum" where
  "fl64 x = to_format 53 (-1074) 1024 x"

definition fl32 :: "rat \<Rightarrow> jsnum" where
  "fl32 x = to_format 24 (-149) 128 x"

lemma round_to_error:
  "\<bar>round_to p emin x - x\<bar> \<le> \<bar>x\<bar> / 2 ^ p + 2 powi (emin - 1)"
proof (cases "x = 0")
  case False
  define e where "e = ulp_exp p emin x"
  have P: "(0::rat) < 2 powi e" by simp
  have "round_to p emin x - x = (of_int (round_half_even (x / 2 powi e)) - x / 2 powi e) * 2 powi e"
    using P False by (simp add: round_to_def e_def [symmetric] algebra_simps Let_def)
  then have "\<bar>round_to p emin x - x\<bar> = \<bar>of_int (round_half_even (x / 2 powi e)) - x / 2 powi e\<bar> * 2 powi e"
    using P by (simp add: abs_mult)
  also have "\<dots> \<le> 1/2 * 2 powi e"
    by (rule mult_right_mono [OF round_half_even_error]) (use P in simp)
  finally have half: "\<bar>round_to p emin x - x\<bar> \<le> 2 powi e / 2" by simp
  show ?thesis
  proof (cases "e = emin")
    case True
    then have "2 powi e / 2 = (2::rat) powi (emin - 1)" by (simp add: power_int_diff)
    with half show ?thesis by (simp add: add_increasing)
  next
    case False
    then have "e = ilog2 \<bar>x\<bar> - (int p - 1)" by (simp add: e_def ulp_exp_def)
    then have "(2::rat) powi e / 2 = 2 powi ilog2 \<bar>x\<bar> / 2 ^ p"
      by (simp add: power_int_diff)
    also have "\<dots> \<le> \<bar>x\<bar> / 2 ^ p"
      using ilog2_bounds(1) [of "\<bar>x\<bar>"] \<open>x \<noteq> 0\<close> by (intro divide_right_mono) auto
    finally have "2 powi e / 2 \<le> \<bar>x\<bar> / 2 ^ p" .
    moreover have "(0::rat) \<le> 2 powi (emin - 1)" by simp
    ultimately show ?thesis using half by linarith
  qed
qed (simp add: round_to_def)

text \<open>A value with enough trailing room is stored exactly.\<close>

lemma round_to_exact:
  assumes "ulp_exp p emin x \<le> k" and "x = of_int m * 2 powi k"
  shows "round_to p emin x = x"
proof (cases "x = 0")
  case False
  define e where "e = ulp_exp p emin x"
  have "x / 2 powi e = of_int m * 2 powi (k - e)"
    using assms(2) by (simp add: power_int_diff)
  also have "\<dots> = of_int (m * 2 ^ nat (k - e))"
    using assms(1) by (simp add: e_def power_int_def)
  finally have "x / 2 powi e = of_int (m * 2 ^ nat (k - e))" .
  then have "of_int (round_half_even (x / 2 powi e)) = x / 2 powi e"
    by (metis round_half_even_int)
  then show ?thesis using False by (simp add: round_to_def e_def [symmetric] Let_def)
qed (simp add: round_to_def)

lemma ilog2_less: "0 < x \<Longrightarrow> x < 2 powi k \<Longrightarrow> ilog2 x < k"
proof (rule ccontr)
  assume x: "0 < x" "x < 2 powi k" and "\<not> ilog2 x < k"
  then have "(2::rat) powi k \<le> 2 powi ilog2 x" by (intro power_int_increasing) auto
  with ilog2_bounds(1) [OF x(1)] x(2) show False by linarith
qed

lemma fl64_int [simp]:
  assumes "\<bar>n\<bar> < 2 ^ 53"
  shows "fl64 (of_int n) = Fin (of_int n)"
proof -
  have n: "\<bar>of_int n\<bar> < (2::rat) ^ 53"
    using assms by (metis of_int_abs of_int_less_iff of_int_numeral of_int_power)
  have "round_to 53 (-1074) (of_int n) = of_int n"
  proof (cases "n = 0")
    case False
    have "ilog2 \<bar>of_int n\<bar> < 53"
      by (rule ilog2_less) (use n False in auto)
    then have "ulp_exp 53 (-1074) (of_int n) \<le> 0" by (simp add: ulp_exp_def)
    then show ?thesis by (rule round_to_exact [where m = n]) simp
  qed (simp add: round_to_def)
  moreover have "(2::rat) ^ 53 \<le> 2 powi 1024" by simp
  ultimately show ?thesis using n by (auto simp: fl64_def to_format_def Let_def abs_less_iff)
qed

lemma fl64_0 [simp]: "fl64 0 = Fin 0"
  using fl64_int [of 0] by simp

lemma fl64_numeral [simp]:
  "(numeral k :: int) < 2 ^ 53 \<Longrightarrow> fl64 (numeral k) = Fin (numeral k)"
  "(numeral k :: int) < 2 ^ 53 \<Longrightarrow> fl64 (- numeral k) = Fin (- numeral k)"
  "fl64 1 = Fin 1"
  using fl64_int [of "numeral k"] fl64_int [of "- numeral k"] fl64_int [of 1] by simp_all

text \<open>Away from overflow, rounding moves a value by at most half a unit in the last place.\<close>

lemma fl64_approx:
  assumes "\<bar>x\<bar> \<le> 2 powi 1000"
  obtains y where "fl64 x = Fin y" "\<bar>y - x\<bar> \<le> \<bar>x\<bar> / 2 ^ 53 + 2 powi (-1075)"
proof -
  define y where "y = round_to 53 (-1074) x"
  have err: "\<bar>y - x\<bar> \<le> \<bar>x\<bar> / 2 ^ 53 + 2 powi (-1075)"
    using round_to_error [of 53 "-1074" x] by (simp add: y_def)
  have "\<bar>x\<bar> / 2 ^ 53 \<le> \<bar>x\<bar>" by (simp add: divide_le_eq mult_left_le)
  moreover have "(2::rat) powi (-1075) \<le> 2 powi 0" by (rule power_int_increasing) auto
  then have "(2::rat) powi (-1075) \<le> 1" by (simp only: power_int_0_right)
  moreover have "\<bar>y\<bar> \<le> \<bar>y - x\<bar> + \<bar>x\<bar>" by linarith
  ultimately have "\<bar>y\<bar> \<le> 2 * \<bar>x\<bar> + 1" using err by linarith
  also have "\<dots> \<le> 2 * 2 powi 1000 + 1" using assms by simp
  also have "\<dots> < 2 powi 1024" by simp
  finally have "\<bar>y\<bar> < 2 powi 1024" .
  then have "fl64 x = Fin y"
    by (auto simp: fl64_def to_format_def y_def [symmetric] Let_def abs_less_iff)
  with err show ?thesis using that by blast
qed

section \<open>Arithmetic of the language\<close>

fun js_neg :: "jsnum \<Rightarrow> jsnum" where
  "js_neg NaN = NaN"
| "js_neg Infinity = NegInfinity"
| "js_neg NegInfinity = Infinity"
| "js_neg (Fin x) = Fin (- x)"

fun js_add :: "jsnum \<Rightarrow> jsnum \<Rightarrow> jsnum" where
  "js_add (Fin x) (Fin y) = fl64 (x + y)"
| "js_add NaN b = NaN"
| "js_add a NaN = NaN"
| "js_add Infinity NegInfinity = NaN"
| "js_add NegInfinity Infinity = NaN"
| "js_add Infinity b = Infinity"
| "js_add NegInfinity b = NegInfinity"
| "js_add a Infinity = Infinity"
| "js_add a NegInfinity = NegInfinity"

definition js_sub :: "jsnum \<Rightarrow> jsnum \<Rightarrow> jsnum" where
  "js_sub a b = js_add a (js_neg b)"

text \<open>An infinity times or over a value of sign \<open>s\<close>.\<close>

definition inf_signed :: "rat \<Rightarrow> jsnum" where
  "inf_signed s = (if 0 < s then Infinity else if s < 0 then NegInfinity else NaN)"

fun js_sign :: "jsnum \<Rightarrow> rat" where
  "js_sign NaN = 0"
| "js_sign Infinity = 1"
| "js_sign NegInfinity = -1"
| "js_sign (Fin x) = sgn x"

fun js_mul :: "jsnum \<Rightarrow> jsnum \<Rightarrow> jsnum" where
  "js_mul (Fin x) (Fin y) = fl64 (x * y)"
| "js_mul NaN b = NaN"
| "js_mul a NaN = NaN"
| "js_mul a b = inf_signed (js_sign a * js_sign b)"

fun js_div :: "jsnum \<Rightarrow> jsnum \<Rightarrow> jsnum" where
  "js_div (Fin x) (Fin y) = (if y = 0 then inf_signed x else fl64 (x / y))"
| "js_div NaN b = NaN"
| "js_div a NaN = NaN"
| "js_div (Fin x) b = Fin 0"
| "js_div a (Fin y) = inf_signed (js_sign a * (if y = 0 then 1 else sgn y))"
| "js_div a b = NaN"

fun js_less :: "jsnum \<Rightarrow> jsnum \<Rightarrow> bool" where
  "js_less (Fin x) (Fin y) = (x < y)"
| "js_less NaN b = False"
| "js_less a NaN = False"
| "js_less Infinity b = False"
| "js_less a NegInfinity = False"
| "js_less a b = True"

definition js_num_eq :: "jsnum \<Rightarrow> jsnum \<Rightarrow> bool" where
  "js_num_eq a b \<longleftrightarrow> a = b \<and> a \<noteq> NaN"

definition js_le :: "jsnum \<Rightarrow> jsnum \<Rightarrow> bool" where
  "js_le a b \<longleftrightarrow> js_less a b \<or> js_num_eq a b"

text \<open>\<open>Math.round\<close> rounds halves up; \<open>Math.floor\<close>, \<open>Math.abs\<close>, \<open>Number.isFinite\<close>.\<close>

fun js_round :: "jsnum \<Rightarrow> jsnum" where
  "js_round (Fin x) = Fin (of_int \<lfloor>x + 1/2\<rfloor>)"
| "js_round a = a"

fun js_floor :: "jsnum \<Rightarrow> jsnum" where
  "js_floor (Fin x) = Fin (of_int \<lfloor>x\<rfloor>)"
| "js_floor a = a"

fun js_abs :: "jsnum \<Rightarrow> jsnum" where
  "js_abs (Fin x) = Fin \<bar>x\<bar>"
| "js_abs NegInfinity = Infinity"
| "js_abs a = a"

fun is_finite :: "jsnum \<Rightarrow> bool" where
  "is_finite (Fin x) = True"
| "is_finite a = False"

definition js_int :: "int \<Rightarrow> jsnum" where
  "js_int n = Fin (of_int n)"

lemma js_int_inject [simp]: "js_int m = js_int n \<longleftrightarrow> m = n"
  by (simp add: js_int_def)

lemma js_int_finite [simp]: "is_finite (js_int n)" "js_int n \<noteq> NaN"
  by (simp_all add: js_int_def)

lemma js_round_int [simp]: "js_round (js_int n) = js_int n"
proof -
  have "\<lfloor>(of_int n :: rat) + 1/2\<rfloor> = n" by linarith
  then show ?thesis by (simp add: js_int_def)
qed

lemma js_round_near:
  assumes "\<bar>y - of_int n\<bar> < 1/2"
  shows "js_round (Fin y) = js_int n"
proof -
  have "\<lfloor>y + 1/2\<rfloor> = n" using assms by linarith
  then show ?thesis by (simp add: js_int_def)
qed

end
