(* ===== verification/Js_Value.thy ===== *)
theory Js_Value
  imports Js_Number
begin

text \<open>
  The error of the scaling \<open>raw * scale + offset\<close> and of its inverse in doubles, JavaScript
  values (\<open>jsval\<close>) with \<open>ToNumber\<close> (and the string grammar it uses), strict equality and
  truthiness. Strings are lists of 8-bit characters.
\<close>

section \<open>Scaling and its inverse\<close>

text \<open>\<open>raw * scale + offset\<close>, the value published for a raw register value.\<close>

definition js_scale :: "jsnum \<Rightarrow> jsnum \<Rightarrow> jsnum \<Rightarrow> jsnum" where
  "js_scale scale offset raw = js_add (js_mul raw scale) offset"

text \<open>\<open>(value - offset) / scale\<close>, the raw value written for a value.\<close>

definition js_unscale :: "jsnum \<Rightarrow> jsnum \<Rightarrow> jsnum \<Rightarrow> jsnum" where
  "js_unscale scale offset v = js_div (js_sub v offset) scale"

lemma js_sub_Fin: "js_sub (Fin x) (Fin y) = fl64 (x - y)"
  by (simp add: js_sub_def)

text \<open>One rounding step, with its error bounded by a multiple of the scale.\<close>

lemma tiny_error:
  assumes "2 powi (-900) \<le> (S::rat)"
  shows "2 powi (-1075) \<le> S / 2 ^ 60"
proof -
  have "(2::rat) powi (-1075) \<le> 2 powi (-900 - int 60)" by (rule power_int_increasing) auto
  also have "\<dots> = 2 powi (-900) / 2 powi int 60" by (rule power_int_diff) simp
  also have "\<dots> = 2 powi (-900) / 2 ^ 60" by (simp only: power_int_of_nat)
  also have "\<dots> \<le> S / 2 ^ 60" using assms by (rule divide_right_mono) (rule zero_le_power, rule zero_le_numeral)
  finally show ?thesis .
qed

lemma large_bound: "2 ^ 40 * 2 powi 900 \<le> (2::rat) powi 1000"
proof -
  have "(2::rat) ^ 40 * 2 powi 900 = 2 powi int 40 * 2 powi 900" by (simp only: power_int_of_nat)
  also have "\<dots> = 2 powi (int 40 + 900)" by (rule power_int_add [symmetric]) simp
  also have "\<dots> \<le> 2 powi 1000" by (rule power_int_increasing) auto
  finally show ?thesis .
qed

lemma fl64_step:
  fixes S :: rat
  assumes S: "2 powi (-900) \<le> S" "S \<le> 2 powi 900" and x: "\<bar>x\<bar> \<le> 2 ^ 40 * S"
  obtains y where "fl64 x = Fin y" "\<bar>y - x\<bar> \<le> \<bar>x\<bar> / 2 ^ 53 + S / 2 ^ 60"
proof -
  have "2 ^ 40 * S \<le> 2 ^ 40 * 2 powi 900" by (rule mult_left_mono [OF S(2)]) (rule zero_le_power, rule zero_le_numeral)
  with x large_bound have "\<bar>x\<bar> \<le> 2 powi 1000" by (meson order_trans)
  then obtain y where y: "fl64 x = Fin y" "\<bar>y - x\<bar> \<le> \<bar>x\<bar> / 2 ^ 53 + 2 powi (-1075)"
    using fl64_approx by blast
  then have "\<bar>y - x\<bar> \<le> \<bar>x\<bar> / 2 ^ 53 + S / 2 ^ 60"
    using add_left_mono [OF tiny_error [OF S(1)], of "\<bar>x\<bar> / 2 ^ 53"] by (meson order_trans)
  with y(1) that show ?thesis by blast
qed

lemma unscale_scale:
  assumes s: "2 powi (-900) \<le> \<bar>s\<bar>" "\<bar>s\<bar> \<le> 2 powi 900"
    and n: "\<bar>n\<bar> \<le> 2 ^ 32" and b: "\<bar>b\<bar> \<le> 2 ^ 32 * \<bar>s\<bar>"
  shows "js_round (js_unscale (Fin s) (Fin b) (js_scale (Fin s) (Fin b) (js_int n))) = js_int n"
proof -
  define S where "S = \<bar>s\<bar>"
  have S0: "0 < S" using s(1) unfolding S_def by (meson less_le_trans zero_less_numeral zero_less_power_int)
  then have s0: "s \<noteq> 0" by (auto simp: S_def)
  note SS = s [folded S_def]
  have nr: "\<bar>of_int n\<bar> \<le> (2::rat) ^ 32"
    using n by (metis of_int_abs of_int_le_iff of_int_numeral of_int_power)
  have ns: "\<bar>of_int n * s\<bar> \<le> 2 ^ 32 * S"
    using mult_right_mono [OF nr, of S] S0 by (simp add: abs_mult S_def)
  have bS: "\<bar>b\<bar> \<le> 2 ^ 32 * S" using b by (simp add: S_def)
  have "\<bar>of_int n * s\<bar> \<le> 2 ^ 40 * S" using ns S0 by simp
  from fl64_step [OF SS this] obtain p where
    p: "fl64 (of_int n * s) = Fin p" "\<bar>p - of_int n * s\<bar> \<le> \<bar>of_int n * s\<bar> / 2 ^ 53 + S / 2 ^ 60" .
  have e1: "\<bar>p - of_int n * s\<bar> \<le> S / 2 ^ 20" using p(2) ns S0 by simp
  have pb: "\<bar>p + b\<bar> \<le> 2 ^ 34 * S" using e1 ns bS S0 abs_triangle_ineq [of p b] abs_triangle_ineq2 [of p "of_int n * s"] by simp
  then have "\<bar>p + b\<bar> \<le> 2 ^ 40 * S" using S0 by simp
  from fl64_step [OF SS this] obtain v where
    v: "fl64 (p + b) = Fin v" "\<bar>v - (p + b)\<bar> \<le> \<bar>p + b\<bar> / 2 ^ 53 + S / 2 ^ 60" .
  have e2: "\<bar>v - (p + b)\<bar> \<le> S / 2 ^ 18" using v(2) pb S0 by simp
  have vb: "\<bar>v - b\<bar> \<le> 2 ^ 33 * S" using e1 e2 ns S0 abs_triangle_ineq [of "v - (p + b)" p] abs_triangle_ineq2 [of p "of_int n * s"]
    by simp
  then have "\<bar>v - b\<bar> \<le> 2 ^ 40 * S" using S0 by simp
  from fl64_step [OF SS this] obtain d where
    d: "fl64 (v - b) = Fin d" "\<bar>d - (v - b)\<bar> \<le> \<bar>v - b\<bar> / 2 ^ 53 + S / 2 ^ 60" .
  have e3: "\<bar>d - (v - b)\<bar> \<le> S / 2 ^ 19" using d(2) vb S0 by simp
  have dn: "\<bar>d - of_int n * s\<bar> \<le> S / 2 ^ 16" using e1 e2 e3 S0
      abs_triangle_ineq [of "d - (v - b)" "v - (p + b) + (p - of_int n * s)"]
      abs_triangle_ineq [of "v - (p + b)" "p - of_int n * s"]
    by simp
  have "d / s - of_int n = (d - of_int n * s) / s" using s0 by (simp add: diff_divide_distrib)
  then have q: "\<bar>d / s - of_int n\<bar> \<le> 1 / 2 ^ 16"
    using dn S0 by (simp add: S_def [symmetric] divide_le_eq mult.commute)
  then have dq: "\<bar>d / s\<bar> \<le> 2 ^ 33" using nr abs_triangle_ineq2 [of "d / s" "of_int n"] by simp
  then have "\<bar>d / s\<bar> \<le> 2 ^ 40 * 1" by simp
  moreover have "(2::rat) powi (-900) \<le> 1" by (simp add: power_int_minus divide_simps)
  moreover have "(1::rat) \<le> 2 powi 900" by simp
  ultimately obtain z where
    z: "fl64 (d / s) = Fin z" "\<bar>z - d / s\<bar> \<le> \<bar>d / s\<bar> / 2 ^ 53 + 1 / 2 ^ 60"
    using fl64_step [of 1 "d / s"] by blast
  have "\<bar>z - of_int n\<bar> < 1 / 2" using z(2) dq q abs_triangle_ineq [of "z - d / s" "d / s - of_int n"] by simp
  then have "js_round (Fin z) = js_int n" by (rule js_round_near)
  then show ?thesis
    using p(1) v(1) d(1) z(1) s0 by (simp add: js_unscale_def js_scale_def js_sub_Fin js_int_def)
qed

section \<open>Values\<close>

datatype jsval = JUndefined | JNull | JNum jsnum | JStr string | JBool bool

definition is_ws :: "char \<Rightarrow> bool" where
  "is_ws c \<longleftrightarrow> (of_char c :: nat) \<in> {9, 10, 11, 12, 13, 32, 160}"

definition js_trim :: "string \<Rightarrow> string" where
  "js_trim s = rev (dropWhile is_ws (rev (dropWhile is_ws s)))"

definition digit_val :: "char \<Rightarrow> nat option" where
  "digit_val c =
     (let n = (of_char c :: nat)
      in if 48 \<le> n \<and> n \<le> 57 then Some (n - 48)
         else if 65 \<le> n \<and> n \<le> 70 then Some (n - 55)
         else if 97 \<le> n \<and> n \<le> 102 then Some (n - 87)
         else None)"

text \<open>The leading digits of a base: their value, how many there are, and the rest.\<close>

fun read_digits :: "nat \<Rightarrow> nat \<Rightarrow> nat \<Rightarrow> string \<Rightarrow> nat \<times> nat \<times> string" where
  "read_digits base acc k [] = (acc, k, [])"
| "read_digits base acc k (c # cs) =
     (case digit_val c of
        Some d \<Rightarrow> if d < base then read_digits base (acc * base + d) (Suc k) cs else (acc, k, c # cs)
      | None \<Rightarrow> (acc, k, c # cs))"

definition read_radix :: "nat \<Rightarrow> string \<Rightarrow> jsnum" where
  "read_radix base s =
     (case read_digits base 0 0 s of
        (n, k, rest) \<Rightarrow> if k > 0 \<and> rest = [] then fl64 (of_nat n) else NaN)"

fun read_sign :: "string \<Rightarrow> rat \<times> string" where
  "read_sign (c # cs) = (if c = CHR ''-'' then (-1, cs) else if c = CHR ''+'' then (1, cs) else (1, c # cs))"
| "read_sign [] = (1, [])"

definition read_exponent :: "string \<Rightarrow> int option" where
  "read_exponent s =
     (case s of
        [] \<Rightarrow> Some 0
      | c # cs \<Rightarrow>
          if c = CHR ''e'' \<or> c = CHR ''E''
          then (case read_sign cs of
                  (sg, ds) \<Rightarrow>
                    (case read_digits 10 0 0 ds of
                       (n, k, rest) \<Rightarrow> if k > 0 \<and> rest = [] then Some (\<lfloor>sg\<rfloor> * int n) else None))
          else None)"

definition read_decimal :: "string \<Rightarrow> jsnum" where
  "read_decimal s0 =
     (let (sg, s) = read_sign s0
      in if s = ''Infinity'' then (if sg < 0 then NegInfinity else Infinity)
         else
           let (n, k, r1) = read_digits 10 0 0 s;
               (m, j, r2) = (case r1 of c # cs \<Rightarrow> if c = CHR ''.'' then read_digits 10 n 0 cs else (n, 0, r1)
                                      | [] \<Rightarrow> (n, 0, r1))
           in if k + j = 0 then NaN
              else case read_exponent r2 of
                     Some e \<Rightarrow> fl64 (sg * of_nat m * 10 powi (e - int j))
                   | None \<Rightarrow> NaN)"

text \<open>\<open>Number(string)\<close>.\<close>

definition string_to_number :: "string \<Rightarrow> jsnum" where
  "string_to_number s0 =
     (let s = js_trim s0
      in case s of
           [] \<Rightarrow> Fin 0
         | [c] \<Rightarrow> read_decimal s
         | c # p # cs \<Rightarrow>
             if c = CHR ''0'' \<and> (p = CHR ''x'' \<or> p = CHR ''X'') then read_radix 16 cs
             else if c = CHR ''0'' \<and> (p = CHR ''o'' \<or> p = CHR ''O'') then read_radix 8 cs
             else if c = CHR ''0'' \<and> (p = CHR ''b'' \<or> p = CHR ''B'') then read_radix 2 cs
             else read_decimal s)"

fun to_number :: "jsval \<Rightarrow> jsnum" where
  "to_number JUndefined = NaN"
| "to_number JNull = Fin 0"
| "to_number (JNum x) = x"
| "to_number (JStr s) = string_to_number s"
| "to_number (JBool b) = (if b then Fin 1 else Fin 0)"

text \<open>\<open>===\<close> on primitive values.\<close>

fun js_strict_eq :: "jsval \<Rightarrow> jsval \<Rightarrow> bool" where
  "js_strict_eq (JNum a) (JNum b) = js_num_eq a b"
| "js_strict_eq a b = (a = b)"

fun js_truthy :: "jsval \<Rightarrow> bool" where
  "js_truthy JUndefined = False"
| "js_truthy JNull = False"
| "js_truthy (JNum x) = (x \<noteq> NaN \<and> x \<noteq> Fin 0)"
| "js_truthy (JStr s) = (s \<noteq> [])"
| "js_truthy (JBool b) = b"

lemma js_strict_eq_sym: "js_strict_eq a b = js_strict_eq b a"
  by (cases a; cases b) (auto simp: js_num_eq_def)

lemma js_strict_eq_imp: "js_strict_eq a b \<Longrightarrow> a = b"
  by (cases a; cases b) (auto simp: js_num_eq_def)

text \<open>Decimal notation of integers, ASCII lower case.\<close>

fun show_nat :: "nat \<Rightarrow> string" where
  "show_nat n = (if n < 10 then [char_of (48 + n)] else show_nat (n div 10) @ [char_of (48 + n mod 10)])"

declare show_nat.simps [simp del]

definition show_int :: "int \<Rightarrow> string" where
  "show_int i = (if i < 0 then CHR ''-'' # show_nat (nat (- i)) else show_nat (nat i))"

definition to_lower :: "string \<Rightarrow> string" where
  "to_lower s = map (\<lambda>c. let n = (of_char c :: nat) in if 65 \<le> n \<and> n \<le> 90 then char_of (n + 32) else c) s"

text \<open>\<open>a ?? b\<close> on optional values.\<close>

definition or_else :: "'a option \<Rightarrow> 'a \<Rightarrow> 'a" where
  "or_else a b = (case a of Some x \<Rightarrow> x | None \<Rightarrow> b)"

lemma or_else_simps [simp]: "or_else (Some x) b = x" "or_else None b = b"
  by (simp_all add: or_else_def)

end
