(* ===== verification/Js_Buffer.thy ===== *)
theory Js_Buffer
  imports Js_Value
begin

text \<open>
  Byte buffers: big-endian unsigned and signed integers of any width, IEEE 754 single and double
  values, and the bounds-checked reads and range-checked writes of the runtime's \<open>Buffer\<close>.
  Writing stores \<open>NaN\<close> as zero in an integer field and rejects every value outside the field's
  range, the infinities included.
\<close>

type_synonym byte = "8 word"

datatype buffer_error = ERR_OUT_OF_RANGE

section \<open>Big-endian integers\<close>

definition be_nat :: "byte list \<Rightarrow> nat" where
  "be_nat bs = foldl (\<lambda>a b. a * 256 + unat b) 0 bs"

fun be_bytes :: "nat \<Rightarrow> nat \<Rightarrow> byte list" where
  "be_bytes 0 n = []"
| "be_bytes (Suc k) n = be_bytes k (n div 256) @ [word_of_nat n]"

lemma length_be_bytes [simp]: "length (be_bytes k n) = k"
  by (induction k arbitrary: n) auto

lemma be_nat_Nil [simp]: "be_nat [] = 0"
  by (simp add: be_nat_def)

lemma be_nat_snoc [simp]: "be_nat (bs @ [b]) = be_nat bs * 256 + unat b"
  by (simp add: be_nat_def)

lemma unat_byte: "unat (word_of_nat n :: byte) = n mod 256"
  by (simp add: unat_of_nat)

lemma unat_less_256: "unat (b :: byte) < 256"
  using unsigned_less [of b] by simp

lemma be_nat_bytes: "be_nat (be_bytes k n) = n mod 256 ^ k"
proof (induction k arbitrary: n)
  case (Suc k)
  have "be_nat (be_bytes (Suc k) n) = (n div 256 mod 256 ^ k) * 256 + n mod 256"
    using Suc by (simp add: unat_byte)
  also have "\<dots> = n mod (256 * 256 ^ k)" by (simp add: mod_mult2_eq)
  finally show ?case by simp
qed simp

lemma be_bytes_nat: "be_bytes (length bs) (be_nat bs) = bs"
proof (induction bs rule: rev_induct)
  case (snoc b bs)
  have b: "unat b < 256" using unat_less_256 .
  then have "(be_nat bs * 256 + unat b) div 256 = be_nat bs" by simp
  moreover have z: "(256 :: byte) = 0" by simp
  moreover have "(word_of_nat (be_nat bs * 256 + unat b) :: byte) = b"
    by (simp add: z)
  ultimately show ?case using snoc by simp
qed simp

lemma be_nat_less: "be_nat bs < 256 ^ length bs"
proof (induction bs rule: rev_induct)
  case (snoc b bs)
  have "unat b < 256" using unat_less_256 .
  then have "be_nat bs * 256 + unat b < (be_nat bs + 1) * 256" by simp
  also have "\<dots> \<le> 256 ^ length bs * 256" using snoc by (intro mult_right_mono) auto
  finally show ?case by (simp add: mult.commute)
qed simp

text \<open>Two's complement on \<open>k\<close> bytes.\<close>

definition to_signed :: "nat \<Rightarrow> nat \<Rightarrow> int" where
  "to_signed k n = (if 2 * int n < 256 ^ k then int n else int n - 256 ^ k)"

definition of_signed :: "nat \<Rightarrow> int \<Rightarrow> nat" where
  "of_signed k i = nat (i mod 256 ^ k)"

lemma to_of_signed:
  assumes "- (256 ^ k) \<le> 2 * i" "2 * i < 256 ^ k"
  shows "to_signed k (of_signed k i mod 256 ^ k) = i"
proof -
  define m :: int where "m = 256 ^ k"
  have m: "0 < m" by (simp add: m_def)
  have n: "int (of_signed k i mod 256 ^ k) = i mod m"
    by (simp add: of_signed_def m_def zmod_int)
  show ?thesis
  proof (cases "0 \<le> i")
    case True
    then have "i mod m = i" using assms m by (simp add: m_def)
    with n assms True show ?thesis unfolding to_signed_def by (auto simp: m_def)
  next
    case False
    have "i mod m = (i + m) mod m" by simp
    also have "\<dots> = i + m" using assms m False by (intro mod_pos_pos_trivial) (auto simp: m_def)
    finally have r: "int (of_signed k i mod 256 ^ k) = i + m" using n by simp
    have "\<not> 2 * int (of_signed k i mod 256 ^ k) < m"
      unfolding r using assms by (simp add: m_def)
    with r show ?thesis by (simp add: to_signed_def m_def)
  qed
qed

section \<open>Reads and writes\<close>

definition read_uint :: "nat \<Rightarrow> byte list \<Rightarrow> nat \<Rightarrow> buffer_error + nat" where
  "read_uint k buf i =
     (if i + k \<le> length buf then Inr (be_nat (take k (drop i buf))) else Inl ERR_OUT_OF_RANGE)"

definition read_int :: "nat \<Rightarrow> byte list \<Rightarrow> nat \<Rightarrow> buffer_error + int" where
  "read_int k buf i = (case read_uint k buf i of Inr n \<Rightarrow> Inr (to_signed k n) | Inl e \<Rightarrow> Inl e)"

text \<open>Overwrite \<open>length bs\<close> bytes at \<open>i\<close> (the caller has room).\<close>

definition splice :: "nat \<Rightarrow> 'a list \<Rightarrow> 'a list \<Rightarrow> 'a list" where
  "splice i bs buf = take i buf @ bs @ drop (i + length bs) buf"

lemma length_splice: "i + length bs \<le> length buf \<Longrightarrow> length (splice i bs buf) = length buf"
  by (simp add: splice_def)

fun write_uint :: "nat \<Rightarrow> jsnum \<Rightarrow> byte list \<Rightarrow> nat \<Rightarrow> buffer_error + byte list" where
  "write_uint k (Fin x) buf i =
     (if x < 0 \<or> 256 ^ k - 1 < x \<or> length buf < i + k then Inl ERR_OUT_OF_RANGE
      else Inr (splice i (be_bytes k (nat \<lfloor>x\<rfloor>)) buf))"
| "write_uint k NaN buf i =
     (if length buf < i + k then Inl ERR_OUT_OF_RANGE else Inr (splice i (be_bytes k 0) buf))"
| "write_uint k x buf i = Inl ERR_OUT_OF_RANGE"

fun write_int :: "nat \<Rightarrow> jsnum \<Rightarrow> byte list \<Rightarrow> nat \<Rightarrow> buffer_error + byte list" where
  "write_int k (Fin x) buf i =
     (if 2 * x < - (256 ^ k) \<or> 256 ^ k - 2 < 2 * x \<or> length buf < i + k then Inl ERR_OUT_OF_RANGE
      else Inr (splice i (be_bytes k (of_signed k \<lfloor>x\<rfloor>)) buf))"
| "write_int k NaN buf i =
     (if length buf < i + k then Inl ERR_OUT_OF_RANGE else Inr (splice i (be_bytes k 0) buf))"
| "write_int k x buf i = Inl ERR_OUT_OF_RANGE"

section \<open>IEEE 754 fields\<close>

text \<open>
  A format has precision \<open>p\<close> (hidden bit included) and an exponent field of \<open>eb\<close> bits;
  \<open>least_exp p eb\<close> is the exponent of the unit of its subnormals.
\<close>

definition least_exp :: "nat \<Rightarrow> nat \<Rightarrow> int" where
  "least_exp p eb = 3 - 2 ^ (eb - 1) - int p"

definition float_of_bits :: "nat \<Rightarrow> nat \<Rightarrow> nat \<Rightarrow> jsnum" where
  "float_of_bits p eb n =
     (let frac = n mod 2 ^ (p - 1);
          ex = n div 2 ^ (p - 1) mod 2 ^ eb;
          neg = odd (n div 2 ^ (p - 1 + eb));
          sg = (if neg then -1 else 1)
      in if ex = 2 ^ eb - 1 then (if frac \<noteq> 0 then NaN else if neg then NegInfinity else Infinity)
         else if ex = 0 then Fin (sg * of_nat frac * 2 powi least_exp p eb)
         else Fin (sg * of_nat (2 ^ (p - 1) + frac) * 2 powi (int ex - 1 + least_exp p eb)))"

fun bits_of_float :: "nat \<Rightarrow> nat \<Rightarrow> jsnum \<Rightarrow> nat" where
  "bits_of_float p eb NaN = (2 ^ eb - 1) * 2 ^ (p - 1) + 2 ^ (p - 2)"
| "bits_of_float p eb Infinity = (2 ^ eb - 1) * 2 ^ (p - 1)"
| "bits_of_float p eb NegInfinity = 2 ^ (p - 1 + eb) + (2 ^ eb - 1) * 2 ^ (p - 1)"
| "bits_of_float p eb (Fin y) =
     (if y = 0 then 0
      else let e = ulp_exp p (least_exp p eb) y;
               m = nat \<lfloor>\<bar>y\<bar> / 2 powi e\<rfloor>;
               ex = (if m < 2 ^ (p - 1) then 0 else nat (e - least_exp p eb) + 1)
           in (if y < 0 then 2 ^ (p - 1 + eb) else 0) + ex * 2 ^ (p - 1) + m mod 2 ^ (p - 1))"

text \<open>\<open>Math.fround\<close>: the single-precision value nearest to a double.\<close>

fun js_fround :: "jsnum \<Rightarrow> jsnum" where
  "js_fround (Fin x) = fl32 x"
| "js_fround a = a"

definition write_float :: "jsnum \<Rightarrow> byte list \<Rightarrow> nat \<Rightarrow> buffer_error + byte list" where
  "write_float x buf i =
     (if length buf < i + 4 then Inl ERR_OUT_OF_RANGE
      else Inr (splice i (be_bytes 4 (bits_of_float 24 8 (js_fround x))) buf))"

definition write_double :: "jsnum \<Rightarrow> byte list \<Rightarrow> nat \<Rightarrow> buffer_error + byte list" where
  "write_double x buf i =
     (if length buf < i + 8 then Inl ERR_OUT_OF_RANGE
      else Inr (splice i (be_bytes 8 (bits_of_float 53 11 x)) buf))"

definition read_float :: "byte list \<Rightarrow> nat \<Rightarrow> buffer_error + jsnum" where
  "read_float buf i = (case read_uint 4 buf i of Inr n \<Rightarrow> Inr (float_of_bits 24 8 n) | Inl e \<Rightarrow> Inl e)"

definition read_double :: "byte list \<Rightarrow> nat \<Rightarrow> buffer_error + jsnum" where
  "read_double buf i = (case read_uint 8 buf i of Inr n \<Rightarrow> Inr (float_of_bits 53 11 n) | Inl e \<Rightarrow> Inl e)"

end
