(* ===== verification/Js_Float.thy ===== *)
theory Js_Float
  imports Js_Buffer
begin

text \<open>
  The IEEE 754 fields of a value that the format holds decode to that value: the lemmas on the
  significand of a rounded value, the layout of the bit fields, and the round trip of single and
  double precision fields.
\<close>

lemma power_int_less_cancel: "(2::rat) powi a < 2 powi b \<Longrightarrow> a < b"
proof (rule ccontr)
  assume l: "(2::rat) powi a < 2 powi b" and "\<not> a < b"
  then have "(2::rat) powi b \<le> 2 powi a" by (intro power_int_increasing) auto
  with l show False by simp
qed

lemma ilog2_unique: "2 powi k \<le> x \<Longrightarrow> x < 2 powi (k + 1) \<Longrightarrow> ilog2 x = k"
proof -
  assume k: "2 powi k \<le> x" "x < 2 powi (k + 1)"
  have "(0::rat) < 2 powi k" by simp
  then have x: "0 < x" using k(1) by (rule less_le_trans)
  have "(2::rat) powi k < 2 powi (ilog2 x + 1)" using k(1) ilog2_bounds(2) [OF x] by (rule le_less_trans)
  moreover have "(2::rat) powi ilog2 x < 2 powi (k + 1)" using ilog2_bounds(1) [OF x] k(2) by (rule le_less_trans)
  ultimately have "k < ilog2 x + 1" "ilog2 x < k + 1" by (auto dest: power_int_less_cancel)
  then show ?thesis by simp
qed

text \<open>A value of the format is a whole number of its own unit, with at most \<open>p\<close> bits.\<close>

lemma ulp_exp_ge: "emin \<le> ulp_exp p emin y"
  by (simp add: ulp_exp_def)

lemma significand_bounds:
  assumes "y \<noteq> 0" and p: "0 < p"
  shows "\<bar>y\<bar> / 2 powi ulp_exp p emin y < 2 ^ p"
    and "\<bar>y\<bar> / 2 powi ulp_exp p emin y < 2 ^ (p - 1) \<Longrightarrow> ulp_exp p emin y = emin"
proof -
  define e where "e = ulp_exp p emin y"
  have y: "0 < \<bar>y\<bar>" using assms by simp
  have "\<bar>y\<bar> < 2 powi (ilog2 \<bar>y\<bar> + 1)" by (rule ilog2_bounds(2) [OF y])
  also have "\<dots> \<le> 2 powi (int p + e)"
    by (rule power_int_increasing) (auto simp: e_def ulp_exp_def)
  also have "\<dots> = 2 ^ p * 2 powi e" by (simp add: power_int_add)
  finally show "\<bar>y\<bar> / 2 powi ulp_exp p emin y < 2 ^ p"
    by (simp add: e_def [symmetric] divide_less_eq)
  show "ulp_exp p emin y = emin" if less: "\<bar>y\<bar> / 2 powi ulp_exp p emin y < 2 ^ (p - 1)"
  proof (rule ccontr)
    assume "ulp_exp p emin y \<noteq> emin"
    then have e: "e = ilog2 \<bar>y\<bar> - (int p - 1)" by (simp add: e_def ulp_exp_def)
    have "\<bar>y\<bar> < 2 ^ (p - 1) * 2 powi e"
      using less by (simp add: e_def [symmetric] divide_less_eq)
    also have "\<dots> = 2 powi (int (p - 1) + e)" by (simp add: power_int_add)
    also have "int (p - 1) + e = ilog2 \<bar>y\<bar>" using p by (simp add: e of_nat_diff)
    finally show False using ilog2_bounds(1) [OF y] by simp
  qed
qed

lemma significand_whole:
  assumes y: "y = of_int m * 2 powi e" "y \<noteq> 0" and m: "\<bar>m\<bar> \<le> 2 ^ p" and e: "emin \<le> e" and p: "0 < p"
  shows "\<exists>k. \<bar>y\<bar> / 2 powi ulp_exp p emin y = of_nat k"
proof -
  define e' where "e' = ulp_exp p emin y"
  have ay: "\<bar>y\<bar> = of_int \<bar>m\<bar> * 2 powi e" using y by (simp add: abs_mult)
  have whole: "\<exists>k. \<bar>y\<bar> / 2 powi e' = of_nat k" if "\<bar>y\<bar> = of_nat n * 2 powi d" "e' \<le> d" for n d
  proof -
    have "\<bar>y\<bar> / 2 powi e' = of_nat n * 2 powi (d - e')"
      using that(1) by (simp add: power_int_diff)
    also have "\<dots> = of_nat n * 2 powi int (nat (d - e'))" using that(2) by simp
    also have "\<dots> = of_nat (n * 2 ^ nat (d - e'))" by (simp only: power_int_of_nat of_nat_mult of_nat_power of_nat_numeral)
    finally show ?thesis by blast
  qed
  show ?thesis
  proof (cases "\<bar>m\<bar> = 2 ^ p")
    case True
    then have "\<bar>y\<bar> = 2 powi (int p + e)" using ay by (simp add: power_int_add)
    then have i: "ilog2 \<bar>y\<bar> = int p + e"
      by (intro ilog2_unique) (auto intro: power_int_strict_increasing)
    have "\<bar>y\<bar> = of_nat (2 ^ p) * 2 powi e" using True ay by simp
    have le: "e' \<le> e + 1" using e i by (simp add: e'_def ulp_exp_def)
    have "\<bar>y\<bar> = of_nat (2 ^ (p - 1)) * 2 powi (e + 1)"
      using \<open>\<bar>y\<bar> = of_nat (2 ^ p) * 2 powi e\<close> p by (cases p) (simp_all add: power_int_add)
    with le whole show ?thesis unfolding e'_def by blast
  next
    case False
    then have "\<bar>m\<bar> < 2 ^ p" using m by simp
    then have "(of_int \<bar>m\<bar> :: rat) < 2 ^ p" by (metis of_int_less_iff of_int_numeral of_int_power)
    then have "\<bar>y\<bar> < 2 ^ p * 2 powi e" unfolding ay by (intro mult_strict_right_mono) auto
    also have "\<dots> = 2 powi (int p + e)" by (simp add: power_int_add)
    finally have "ilog2 \<bar>y\<bar> < int p + e" using y(2) by (intro ilog2_less) auto
    then have "e' \<le> e" using e by (simp add: e'_def ulp_exp_def)
    moreover have "\<bar>y\<bar> = of_nat (nat \<bar>m\<bar>) * 2 powi e" using ay by simp
    ultimately show ?thesis using whole unfolding e'_def by blast
  qed
qed

lemma round_to_form:
  assumes "x \<noteq> 0" "0 < p"
  shows "\<exists>m e. round_to p emin x = of_int m * 2 powi e \<and> \<bar>m\<bar> \<le> 2 ^ p \<and> emin \<le> e"
proof -
  define e where "e = ulp_exp p emin x"
  define m where "m = round_half_even (x / 2 powi e)"
  have "\<bar>x / 2 powi e\<bar> < 2 ^ p"
    using significand_bounds(1) [OF assms, of emin] by (simp add: e_def)
  then have "x / 2 powi e \<le> 2 ^ p" "- (2 ^ p) \<le> x / 2 powi e" by linarith+
  then have "x / 2 powi e \<le> of_int (2 ^ p)" "of_int (- (2 ^ p)) \<le> x / 2 powi e"
    by (simp_all only: of_int_power of_int_numeral of_int_minus)
  then have "m \<le> 2 ^ p" "- (2 ^ p) \<le> m"
    unfolding m_def by (blast intro: round_half_even_le_int round_half_even_mono_int)+
  then show ?thesis
    using assms ulp_exp_ge [of emin p x]
    by (intro exI [of _ m] exI [of _ e]) (auto simp: round_to_def m_def e_def Let_def)
qed

lemma bits_layout:
  fixes h :: nat
  assumes "f < h" "ex < E" "s < 2"
  shows "(s * (h * E) + ex * h + f) mod h = f"
    and "(s * (h * E) + ex * h + f) div h mod E = ex"
    and "(s * (h * E) + ex * h + f) div (h * E) = s"
proof -
  have eq: "s * (h * E) + ex * h + f = f + h * (s * E + ex)" by (simp add: algebra_simps)
  have d: "(s * (h * E) + ex * h + f) div h = s * E + ex" using assms(1) unfolding eq by simp
  show "(s * (h * E) + ex * h + f) mod h = f" using assms(1) unfolding eq by simp
  show "(s * (h * E) + ex * h + f) div h mod E = ex" unfolding d using assms(2) by simp
  show "(s * (h * E) + ex * h + f) div (h * E) = s" unfolding div_mult2_eq d using assms(2) by simp
qed

lemma float_bits_roundtrip:
  assumes p: "2 \<le> p" and eb: "2 \<le> eb"
    and y: "y = round_to p (least_exp p eb) x" and fin: "\<bar>y\<bar> < 2 powi (2 ^ (eb - 1))"
  shows "float_of_bits p eb (bits_of_float p eb (Fin y)) = Fin y \<and> bits_of_float p eb (Fin y) < 2 ^ (p + eb)"
proof (cases "y = 0")
  case True
  have "(2::nat) ^ 2 \<le> 2 ^ eb" using eb by (intro power_increasing) auto
  then have "(0::nat) \<noteq> 2 ^ eb - 1" by simp
  with True show ?thesis by (simp add: float_of_bits_def)
next
  case False
  define emin where "emin = least_exp p eb"
  define e where "e = ulp_exp p emin y"
  have "x \<noteq> 0" using y False by (auto simp: round_to_def)
  then obtain m d where m: "y = of_int m * 2 powi d" "\<bar>m\<bar> \<le> 2 ^ p" "emin \<le> d"
    using round_to_form [of x p emin] p y by (auto simp: emin_def)
  then obtain k where k: "\<bar>y\<bar> / 2 powi e = of_nat k"
    using significand_whole [OF m(1) False m(2,3)] p unfolding e_def by auto
  have yk: "\<bar>y\<bar> = of_nat k * 2 powi e" using k by (simp add: divide_eq_eq)
  define h :: nat where "h = 2 ^ (p - 1)"
  define E :: nat where "E = 2 ^ eb"
  have "(of_nat k :: rat) < 2 ^ p"
    using significand_bounds(1) [OF False, of p emin] p k by (simp add: e_def)
  then have kp: "k < 2 ^ p" by (metis of_nat_less_iff of_nat_numeral of_nat_power)
  have h2: "2 ^ p = 2 * h" using p by (cases p) (auto simp: h_def)
  have sub: "e = emin" if "k < h"
  proof -
    have "(of_nat k :: rat) < 2 ^ (p - 1)"
      using that unfolding h_def by (metis of_nat_less_iff of_nat_numeral of_nat_power)
    then show ?thesis using significand_bounds(2) [OF False, of p emin] p k by (simp add: e_def)
  qed
  have ee: "emin \<le> e" by (simp add: e_def ulp_exp_ge)
  define ex where "ex = (if k < h then 0 else nat (e - emin) + 1)"
  have exE: "ex < E - 1"
  proof (cases "k < h")
    case True
    have "2 ^ 2 \<le> E" unfolding E_def using eb by (intro power_increasing) auto
    with True show ?thesis by (simp add: ex_def)
  next
    case False
    then have "(of_nat h :: rat) \<le> of_nat k" by simp
    then have "of_nat h * 2 powi e \<le> \<bar>y\<bar>" unfolding yk by (intro mult_right_mono) auto
    moreover have "of_nat h * (2::rat) powi e = 2 powi (int (p - 1) + e)"
      by (simp add: h_def power_int_add)
    ultimately have "(2::rat) powi (int (p - 1) + e) < 2 powi (2 ^ (eb - 1))" using fin by linarith
    then have "int (p - 1) + e < 2 ^ (eb - 1)" by (rule power_int_less_cancel)
    then have "e - emin + 1 < 2 * 2 ^ (eb - 1) - 1" using p by (simp add: emin_def least_exp_def of_nat_diff)
    moreover have "int E = 2 * 2 ^ (eb - 1)" using eb by (cases eb) (auto simp: E_def)
    ultimately show ?thesis using False ee by (simp add: ex_def)
  qed
  define s :: nat where "s = (if y < 0 then 1 else 0)"
  have fl: "nat \<lfloor>\<bar>y\<bar> / 2 powi e\<rfloor> = k" using k by simp
  have bits: "bits_of_float p eb (Fin y) = s * (h * E) + ex * h + k mod h"
    unfolding bits_of_float.simps Let_def emin_def [symmetric] e_def [symmetric] fl
      h_def [symmetric] power_add E_def [symmetric]
    using False by (simp add: ex_def s_def)
  have hpos: "0 < h" by (simp add: h_def)
  note lay = bits_layout [of "k mod h" h ex E s, folded bits]
  have l: "bits_of_float p eb (Fin y) mod 2 ^ (p - 1) = k mod h"
    "bits_of_float p eb (Fin y) div 2 ^ (p - 1) mod 2 ^ eb = ex"
    "bits_of_float p eb (Fin y) div 2 ^ (p - 1 + eb) = s"
    using lay exE hpos by (auto simp: h_def E_def power_add s_def)
  have sg: "y = (if odd s then -1 else 1) * \<bar>y\<bar>" by (simp add: s_def)
  have "ex * h + k mod h < (ex + 1) * h" using hpos by simp
  also have "\<dots> \<le> E * h" using exE by (intro mult_right_mono) auto
  finally have "bits_of_float p eb (Fin y) < 2 * (h * E)"
    unfolding bits by (simp add: s_def mult.commute)
  also have "\<dots> = 2 ^ (p + eb)" using h2 by (simp add: power_add E_def)
  finally have "bits_of_float p eb (Fin y) < 2 ^ (p + eb)" .
  moreover have "float_of_bits p eb (bits_of_float p eb (Fin y)) = Fin y"
  proof (cases "k < h")
    case True
    then have "ex = 0" "k mod h = k" "e = emin" using sub by (auto simp: ex_def)
    then show ?thesis
      using exE sg yk unfolding float_of_bits_def l by (simp add: E_def [symmetric] emin_def Let_def)
  next
    case False
    then have "k mod h = k - h" using kp h2 by (simp add: mod_if)
    then have kh: "2 ^ (p - 1) + k mod h = k" using False unfolding h_def [symmetric] by simp
    have "2 ^ (p - Suc 0) + rat_of_nat (k mod h) = rat_of_nat k"
      using arg_cong [OF kh, of rat_of_nat] by simp
    moreover have "int ex - 1 + least_exp p eb = e" "ex \<noteq> 0" using False ee by (auto simp: ex_def emin_def)
    ultimately show ?thesis
      using exE sg yk unfolding float_of_bits_def l kh by (simp add: E_def [symmetric] Let_def kh)
  qed
ultimately show ?thesis by blast
qed

lemma to_format_cases:
  obtains "to_format p emin emax x = Infinity" | "to_format p emin emax x = NegInfinity"
  | "to_format p emin emax x = Fin (round_to p emin x)" "\<bar>round_to p emin x\<bar> < 2 powi emax"
proof (cases "2 powi emax \<le> round_to p emin x \<or> round_to p emin x \<le> - (2 powi emax)")
  case True
  then have "to_format p emin emax x = Infinity \<or> to_format p emin emax x = NegInfinity"
    by (auto simp: to_format_def Let_def)
  then show ?thesis using that(1,2) by blast
next
  case False
  then show ?thesis using that(3) by (auto simp: to_format_def Let_def abs_less_iff)
qed

definition stored_in :: "nat \<Rightarrow> nat \<Rightarrow> jsnum \<Rightarrow> bool" where
  "stored_in p eb v \<longleftrightarrow>
     float_of_bits p eb (bits_of_float p eb v) = v \<and> bits_of_float p eb v < 2 ^ (p + eb)"

lemma stored_in_special:
  assumes "2 \<le> p" "2 \<le> eb"
  shows "stored_in p eb NaN" "stored_in p eb Infinity" "stored_in p eb NegInfinity"
proof -
  define h :: nat where "h = 2 ^ (p - 1)"
  define E :: nat where "E = 2 ^ eb"
  have "(2::nat) ^ 2 \<le> E" unfolding E_def using assms by (intro power_increasing) auto
  then have E: "E - 1 < E" "E - 1 \<noteq> 0" by auto
  have q: "2 ^ (p - 2) < h" "0 < h" "(2::nat) ^ (p - 2) \<noteq> 0"
    using assms by (auto simp: h_def)
  have top: "(E - 1) * h + f < h * E" if "f < h" for f
  proof -
    have "(E - 1) * h + f < (E - 1) * h + h" using that by simp
    also have "\<dots> = (E - 1 + 1) * h" by simp
    also have "\<dots> = h * E" using E by (simp add: mult.commute)
    finally show ?thesis .
  qed
  have pe: "2 ^ (p + eb) = 2 * (h * E)" using assms by (cases p) (auto simp: h_def E_def power_add)
  have fold_p: "2 ^ (p - 1) = h" "2 ^ (p - 1 + eb) = h * E" "2 ^ eb = E"
    by (simp_all add: h_def E_def power_add)
  note lay = bits_layout [where h = h and E = E and ex = "E - 1", OF _ E(1)]
  show "stored_in p eb NaN" "stored_in p eb Infinity" "stored_in p eb NegInfinity"
    unfolding stored_in_def bits_of_float.simps float_of_bits_def Let_def fold_p pe
    using lay [of "2 ^ (p - 2)" 0] lay [of 0 0] lay [of 0 1] top [of "2 ^ (p - 2)"] top [of 0] q E
    by simp_all
qed

lemma stored_in_format:
  assumes "2 \<le> p" "2 \<le> eb"
  shows "stored_in p eb (to_format p (least_exp p eb) (2 ^ (eb - 1)) x)"
  by (cases p "least_exp p eb" "2 ^ (eb - 1) :: int" x rule: to_format_cases)
     (use stored_in_special [OF assms] float_bits_roundtrip [OF assms] in \<open>auto simp: stored_in_def\<close>)

lemma stored_single: "stored_in 24 8 (js_fround x)"
  using stored_in_format [of 24 8] stored_in_special [of 24 8]
  by (cases x) (auto simp: fl32_def least_exp_def)

lemma stored_double: "x \<in> {NaN, Infinity, NegInfinity} \<or> x \<in> range fl64 \<Longrightarrow> stored_in 53 11 x"
  using stored_in_format [of 53 11] stored_in_special [of 53 11]
  by (auto simp: fl64_def least_exp_def)

lemma read_float_stored:
  assumes "stored_in 24 8 v"
  shows "read_float (be_bytes 4 (bits_of_float 24 8 v)) 0 = Inr v"
  using assms by (simp add: read_float_def read_uint_def be_nat_bytes stored_in_def)

lemma read_double_stored:
  assumes "stored_in 53 11 v"
  shows "read_double (be_bytes 8 (bits_of_float 53 11 v)) 0 = Inr v"
  using assms by (simp add: read_double_def read_uint_def be_nat_bytes stored_in_def)

end
