(* ===== verification/Telemetry.thy ===== *)
theory Telemetry
  imports Modbus_Codec
begin

text \<open>
  The data contract of packages/shared-types: telemetry values with their tags, the Modbus
  description of a telemetry point, and bit fields of status registers. An optional field is an
  \<open>option\<close>; a tag object is an association list.
\<close>

type_synonym tags = "(string, string) jsmap"

record telemetry =
  t_name :: string
  t_description :: string
  t_value :: jsval
  t_unit :: string
  t_timestamp :: string
  t_deviceId :: string
  t_tags :: "tags option"

record modbus_telemetry = telemetry +
  registerAddress :: nat
  registerTableType :: table_type
  registerDataType :: register_data_type
  t_scale :: jsnum
  t_offset :: jsnum
  t_priority :: "int option"
  t_byteOrder :: byte_order

record bitfield_field =
  bitStart :: int
  bitEnd :: int
  f_name :: string
  f_description :: string
  f_unit :: string
  f_scale :: "jsnum option"
  f_offset :: "jsnum option"
  f_tags :: "tags option"
  f_canonical :: "string option"

record bitfield_config =
  b_registerAddress :: nat
  b_registerType :: table_type
  b_fields :: "bitfield_field list"
  b_tags :: "tags option"

text \<open>\<open>Object.keys(wanted).every(key => has[key] === wanted[key])\<close>.\<close>

definition tags_include :: "tags \<Rightarrow> tags \<Rightarrow> bool" where
  "tags_include has wanted \<longleftrightarrow> list_all (\<lambda>(k, v). js_get has k = Some v) wanted"

end
