(* ===== verification/Modbus_Transport.thy ===== *)
theory Modbus_Transport
  imports Telemetry
begin

text \<open>
  \<open>IModbusTransport\<close> (packages/core/src/modbus/transport/interface.ts) as a record of computations
  over the transport's state, the locales that state what a device relies on, and the real
  transport: \<open>ModbusTcpClient\<close> (client.ts) behind \<open>ModbusClientTransport\<close>. The jsmodbus library and
  the network under the client are a parameter \<open>wire\<close>: a request and the state of the far end
  give a response, or none (timeout, broken connection, Modbus exception), and its next state.
\<close>

section \<open>The interface\<close>

record 's transport =
  isConnected :: "'s \<Rightarrow> bool"
  reconnect :: "('s, modbus_error, unit) comp"
  readHoldingRegisters :: "nat \<Rightarrow> nat \<Rightarrow> ('s, modbus_error, register list) comp"
  writeHoldingRegisters :: "nat \<Rightarrow> register list \<Rightarrow> ('s, modbus_error, unit) comp"
  readInputRegisters :: "nat \<Rightarrow> nat \<Rightarrow> ('s, modbus_error, register list) comp"
  readCoils :: "nat \<Rightarrow> nat \<Rightarrow> ('s, modbus_error, bool list) comp"
  writeCoils :: "nat \<Rightarrow> bool list \<Rightarrow> ('s, modbus_error, unit) comp"
  readDiscreteInputs :: "nat \<Rightarrow> nat \<Rightarrow> ('s, modbus_error, bool list) comp"

text \<open>
  What a device relies on: behind the transport there is a memory of holding registers that reads
  report, that a successful write updates at the addresses the device implements, and that nothing
  else changes. A failed write may have reached the device: it may have changed its own range.
\<close>

locale register_memory =
  fixes T :: "'s transport" and hold :: "'s \<Rightarrow> nat \<Rightarrow> register" and implemented :: "nat \<Rightarrow> bool"
  assumes read_reports: "readHoldingRegisters T a n s = (Inr vs, s') \<Longrightarrow> vs = map (hold s) [a..<a + n]"
    and read_keeps: "hold (snd (readHoldingRegisters T a n s)) = hold s"
    and write_updates: "writeHoldingRegisters T a vs s = (Inr u, s') \<Longrightarrow>
      hold s' x = (if a \<le> x \<and> x < a + length vs \<and> implemented x then vs ! (x - a) else hold s x)"
    and write_failed: "writeHoldingRegisters T a vs s = (Inl e, s') \<Longrightarrow>
      \<not> (a \<le> x \<and> x < a + length vs \<and> implemented x) \<Longrightarrow> hold s' x = hold s x"
    and readCoils_keeps: "hold (snd (readCoils T a n s)) = hold s"
    and writeCoils_keeps: "hold (snd (writeCoils T a bs s)) = hold s"

text \<open>A transport on which a rejected write did not happen.\<close>

locale rejecting_memory = register_memory +
  assumes write_rejected: "writeHoldingRegisters T a vs s = (Inl e, s') \<Longrightarrow> hold s' = hold s"

text \<open>A transport whose reads, in good states, succeed and change nothing.\<close>

locale readable_memory =
  fixes T :: "'s transport" and good :: "'s \<Rightarrow> bool"
    and hold :: "'s \<Rightarrow> nat \<Rightarrow> register" and inp :: "'s \<Rightarrow> nat \<Rightarrow> register"
    and coil :: "'s \<Rightarrow> nat \<Rightarrow> bool" and disc :: "'s \<Rightarrow> nat \<Rightarrow> bool"
  assumes connected: "good s \<Longrightarrow> isConnected T s"
    and reads_holding: "good s \<Longrightarrow> readHoldingRegisters T a n s = (Inr (map (hold s) [a..<a + n]), s)"
    and reads_input: "good s \<Longrightarrow> readInputRegisters T a n s = (Inr (map (inp s) [a..<a + n]), s)"
    and reads_coils: "good s \<Longrightarrow> readCoils T a n s = (Inr (map (coil s) [a..<a + n]), s)"
    and reads_discrete: "good s \<Longrightarrow> readDiscreteInputs T a n s = (Inr (map (disc s) [a..<a + n]), s)"

section \<open>The TCP client\<close>

datatype modbus_request =
    ReadCoils nat nat
  | ReadDiscreteInputs nat nat
  | ReadHoldingRegisters nat nat
  | ReadInputRegisters nat nat
  | WriteSingleCoil nat bool
  | WriteSingleRegister nat register
  | WriteMultipleCoils nat "bool list"
  | WriteMultipleRegisters nat "register list"

datatype modbus_response = Words "register list" | Bits "bool list" | Written

fun function_code :: "modbus_request \<Rightarrow> nat" where
  "function_code (ReadCoils a n) = 1"
| "function_code (ReadDiscreteInputs a n) = 2"
| "function_code (ReadHoldingRegisters a n) = 3"
| "function_code (ReadInputRegisters a n) = 4"
| "function_code (WriteSingleCoil a b) = 5"
| "function_code (WriteSingleRegister a v) = 6"
| "function_code (WriteMultipleCoils a bs) = 15"
| "function_code (WriteMultipleRegisters a vs) = 16"

type_synonym 'n wire = "modbus_request \<Rightarrow> 'n \<Rightarrow> modbus_response option \<times> 'n"

text \<open>
  The state of \<open>ModbusTcpClient\<close>: the connected flag, the attempts since the last success, and the
  far end. \<open>dial\<close> says whether a connection attempt succeeds.
\<close>

record 'n client =
  c_connected :: bool
  reconnectAttempts :: nat
  far_end :: 'n

definition client_connect :: "('n \<Rightarrow> bool) \<Rightarrow> ('n client, modbus_error, unit) comp" where
  "client_connect dial c =
     (if dial (far_end c) then (Inr (), c\<lparr>c_connected := True, reconnectAttempts := 0\<rparr>)
      else (Inl Connection_failed, c))"

text \<open>The wait before an attempt in milliseconds, before the jitter of up to 30%.\<close>

definition reconnect_wait :: "'n client \<Rightarrow> nat" where
  "reconnect_wait c = min (1000 * 2 ^ reconnectAttempts c) 30000"

definition cleanupSocket :: "'n client \<Rightarrow> 'n client" where
  "cleanupSocket c = c\<lparr>c_connected := False\<rparr>"

definition client_reconnect :: "('n \<Rightarrow> bool) \<Rightarrow> ('n client, modbus_error, unit) comp" where
  "client_reconnect dial c =
     (let c1 = cleanupSocket c
      in client_connect dial (c1\<lparr>reconnectAttempts := reconnectAttempts c1 + 1\<rparr>))"

definition client_disconnect :: "'n client \<Rightarrow> 'n client" where
  "client_disconnect c = cleanupSocket (c\<lparr>reconnectAttempts := 0\<rparr>)"

text \<open>The \<open>close\<close> and \<open>error\<close> listeners of the socket.\<close>

definition client_dropped :: "'n client \<Rightarrow> 'n client" where
  "client_dropped c = c\<lparr>c_connected := False\<rparr>"

definition client_request :: "'n wire \<Rightarrow> modbus_request \<Rightarrow> ('n client, modbus_error, modbus_response) comp" where
  "client_request w req c =
     (if \<not> c_connected c then (Inl Not_connected, c)
      else case w req (far_end c) of
             (Some r, n) \<Rightarrow> (Inr r, c\<lparr>far_end := n\<rparr>)
           | (None, n) \<Rightarrow> (Inl (Request_failed (function_code req)), c\<lparr>far_end := n\<rparr>))"

fun words_of :: "modbus_response \<Rightarrow> register list" where
  "words_of (Words vs) = vs" | "words_of _ = []"

fun bits_of :: "modbus_response \<Rightarrow> bool list" where
  "bits_of (Bits bs) = bs" | "bits_of _ = []"

definition client_readHoldingRegisters :: "'n wire \<Rightarrow> nat \<Rightarrow> nat \<Rightarrow> ('n client, modbus_error, register list) comp" where
  "client_readHoldingRegisters w a n = mapresC words_of (client_request w (ReadHoldingRegisters a n))"

definition client_readInputRegisters :: "'n wire \<Rightarrow> nat \<Rightarrow> nat \<Rightarrow> ('n client, modbus_error, register list) comp" where
  "client_readInputRegisters w a n = mapresC words_of (client_request w (ReadInputRegisters a n))"

definition client_readCoils :: "'n wire \<Rightarrow> nat \<Rightarrow> nat \<Rightarrow> ('n client, modbus_error, bool list) comp" where
  "client_readCoils w a n = mapresC bits_of (client_request w (ReadCoils a n))"

definition client_readDiscreteInputs :: "'n wire \<Rightarrow> nat \<Rightarrow> nat \<Rightarrow> ('n client, modbus_error, bool list) comp" where
  "client_readDiscreteInputs w a n = mapresC bits_of (client_request w (ReadDiscreteInputs a n))"

definition writeSingleRegister :: "'n wire \<Rightarrow> nat \<Rightarrow> register \<Rightarrow> ('n client, modbus_error, unit) comp" where
  "writeSingleRegister w a v = mapresC (\<lambda>_. ()) (client_request w (WriteSingleRegister a v))"

definition writeMultipleRegisters :: "'n wire \<Rightarrow> nat \<Rightarrow> register list \<Rightarrow> ('n client, modbus_error, unit) comp" where
  "writeMultipleRegisters w a vs = mapresC (\<lambda>_. ()) (client_request w (WriteMultipleRegisters a vs))"

definition writeSingleCoil :: "'n wire \<Rightarrow> nat \<Rightarrow> bool \<Rightarrow> ('n client, modbus_error, unit) comp" where
  "writeSingleCoil w a b = mapresC (\<lambda>_. ()) (client_request w (WriteSingleCoil a b))"

definition writeMultipleCoils :: "'n wire \<Rightarrow> nat \<Rightarrow> bool list \<Rightarrow> ('n client, modbus_error, unit) comp" where
  "writeMultipleCoils w a bs = mapresC (\<lambda>_. ()) (client_request w (WriteMultipleCoils a bs))"

section \<open>The transport over the client\<close>

text \<open>A single value goes out as function code 5 or 6, several as 15 or 16.\<close>

definition transport_writeHoldingRegisters :: "'n wire \<Rightarrow> nat \<Rightarrow> register list \<Rightarrow> ('n client, modbus_error, unit) comp" where
  "transport_writeHoldingRegisters w a vs =
     (case vs of [v] \<Rightarrow> writeSingleRegister w a v | _ \<Rightarrow> writeMultipleRegisters w a vs)"

definition transport_writeCoils :: "'n wire \<Rightarrow> nat \<Rightarrow> bool list \<Rightarrow> ('n client, modbus_error, unit) comp" where
  "transport_writeCoils w a bs =
     (case bs of [b] \<Rightarrow> writeSingleCoil w a b | _ \<Rightarrow> writeMultipleCoils w a bs)"

definition client_transport :: "'n wire \<Rightarrow> ('n \<Rightarrow> bool) \<Rightarrow> 'n client transport" where
  "client_transport w dial =
     \<lparr>isConnected = c_connected,
      reconnect = client_reconnect dial,
      readHoldingRegisters = client_readHoldingRegisters w,
      writeHoldingRegisters = transport_writeHoldingRegisters w,
      readInputRegisters = client_readInputRegisters w,
      readCoils = client_readCoils w,
      writeCoils = transport_writeCoils w,
      readDiscreteInputs = client_readDiscreteInputs w\<rparr>"

section \<open>Facts\<close>

lemma client_not_connected [simp]: "\<not> c_connected c \<Longrightarrow> client_request w req c = (Inl Not_connected, c)"
  by (simp add: client_request_def)

lemma client_request_keeps_flags:
  "client_request w req c = (r, c') \<Longrightarrow>
   c_connected c' = c_connected c \<and> reconnectAttempts c' = reconnectAttempts c"
  by (auto simp: client_request_def split: if_splits prod.splits option.splits)

lemma reconnect_wait_bounds: "1000 \<le> reconnect_wait c \<and> reconnect_wait c \<le> 30000"
  by (auto simp: reconnect_wait_def)

lemma client_reconnect_result:
  "client_reconnect dial c = (r, c') \<Longrightarrow>
   c_connected c' = dial (far_end c) \<and> (r = Inr () \<longleftrightarrow> dial (far_end c)) \<and> far_end c' = far_end c"
  by (auto simp: client_reconnect_def client_connect_def cleanupSocket_def Let_def split: if_splits)

end
