(* ===== verification/Modbus_Device.thy ===== *)
theory Modbus_Device
  imports Modbus_Transport
begin

text \<open>
  \<open>ModbusDevice\<close> (packages/core/src/modbus/device.ts): configuration checks, name lookup, sorting
  and grouping, batched reads, bit fields, writes and the atomic write with its rollback. The
  operations are computations over the state of a transport \<open>T\<close>; only the reconnect cooldown keeps
  state of its own, so \<open>device_state\<close> wraps the transport's state. \<open>Date.now()\<close> and the ISO time
  stamp are arguments. Calls combined with \<open>Promise.all\<close> run one after the other.
\<close>

section \<open>Configuration\<close>

record device_config =
  dev_id :: string
  telemetryList :: "modbus_telemetry list"
  bitfieldConfigs :: "bitfield_config list option"
  parallelRead :: "bool option"
  parallelWrite :: "bool option"

definition MAX_REGISTERS_PER_REQUEST :: nat where
  "MAX_REGISTERS_PER_REQUEST = 125"

definition field_valid :: "bitfield_field \<Rightarrow> bool" where
  "field_valid f \<longleftrightarrow> 0 \<le> bitStart f \<and> bitEnd f \<le> 31 \<and> bitStart f \<le> bitEnd f"

definition validate_config :: "bitfield_config \<Rightarrow> modbus_error option" where
  "validate_config cfg =
     (if b_registerType cfg \<noteq> HOLDING_REGISTER \<and> b_registerType cfg \<noteq> INPUT_REGISTER
      then Some (Invalid_bitfield ''registerType'')
      else case find_first (\<lambda>f. \<not> field_valid f) (b_fields cfg) of
             Some f \<Rightarrow> Some (Invalid_bitfield (f_name f))
           | None \<Rightarrow> None)"

fun validateBitfieldConfigs :: "bitfield_config list option \<Rightarrow> modbus_error option" where
  "validateBitfieldConfigs None = None"
| "validateBitfieldConfigs (Some []) = None"
| "validateBitfieldConfigs (Some (cfg # cfgs)) =
     (case validate_config cfg of Some e \<Rightarrow> Some e | None \<Rightarrow> validateBitfieldConfigs (Some cfgs))"

text \<open>The index by name; entries of one name keep their configuration order.\<close>

definition index_entry :: "modbus_telemetry \<Rightarrow> (string, modbus_telemetry list) jsmap \<Rightarrow> (string, modbus_telemetry list) jsmap" where
  "index_entry entry index =
     (case js_get index (t_name entry) of
        Some bucket \<Rightarrow> js_set (t_name entry) (bucket @ [entry]) index
      | None \<Rightarrow> js_set (t_name entry) [entry] index)"

definition buildTelemetryIndex :: "modbus_telemetry list \<Rightarrow> (string, modbus_telemetry list) jsmap" where
  "buildTelemetryIndex entries = fold index_entry entries []"

text \<open>The constructor: a configuration it rejects, or the device with no attempt made yet.\<close>

record 's device_state =
  lastReconnectAttempt :: int
  tstate :: 's

definition new_device :: "device_config \<Rightarrow> 's \<Rightarrow> modbus_error + 's device_state" where
  "new_device cfg s =
     (case validateBitfieldConfigs (bitfieldConfigs cfg) of
        Some e \<Rightarrow> Inl e
      | None \<Rightarrow> Inr \<lparr>lastReconnectAttempt = 0, tstate = s\<rparr>)"

section \<open>Lookup, sorting, grouping\<close>

definition pick_candidate :: "tags option \<Rightarrow> modbus_telemetry list \<Rightarrow> modbus_telemetry option" where
  "pick_candidate tTags candidates =
     (case tTags of
        Some (kv # kvs) \<Rightarrow>
          find_first (\<lambda>mt. case t_tags mt of None \<Rightarrow> False | Some mtTags \<Rightarrow> tags_include mtTags (kv # kvs)) candidates
      | _ \<Rightarrow> (case candidates of [] \<Rightarrow> None | c # _ \<Rightarrow> Some c))"

definition with_value :: "jsval \<Rightarrow> modbus_telemetry \<Rightarrow> modbus_telemetry" where
  "with_value v mt = (if v = JUndefined \<or> v = JNull then mt else mt\<lparr>t_value := v\<rparr>)"

definition lookup_telemetry :: "(string, modbus_telemetry list) jsmap \<Rightarrow> 'x telemetry_scheme \<Rightarrow> modbus_telemetry option" where
  "lookup_telemetry index t =
     (case js_get index (t_name t) of
        None \<Rightarrow> None
      | Some candidates \<Rightarrow>
          (case pick_candidate (t_tags t) candidates of
             None \<Rightarrow> None
           | Some found \<Rightarrow> Some (with_value (t_value t) found)))"

definition toModbusTelemetryList :: "device_config \<Rightarrow> 'x telemetry_scheme list \<Rightarrow> modbus_telemetry list" where
  "toModbusTelemetryList cfg ts = List.map_filter (lookup_telemetry (buildTelemetryIndex (telemetryList cfg))) ts"

definition sortByPriority :: "modbus_telemetry list \<Rightarrow> modbus_telemetry list" where
  "sortByPriority ts = sort_key (\<lambda>t. - or_else (t_priority t) 0) ts"

definition sortByAddress :: "modbus_telemetry list \<Rightarrow> modbus_telemetry list" where
  "sortByAddress ts = sort_key registerAddress ts"

definition register_count :: "modbus_telemetry \<Rightarrow> nat" where
  "register_count t = getRegisterCount (registerDataType t)"

text \<open>The loop of \<open>groupByAddress\<close> with the finished groups and the current one (never empty).\<close>

fun group_loop :: "modbus_telemetry list list \<Rightarrow> modbus_telemetry list \<Rightarrow> modbus_telemetry list \<Rightarrow> modbus_telemetry list list" where
  "group_loop groups current [] = (if current = [] then groups else groups @ [current])"
| "group_loop groups current (t # ts) =
     (if current = [] then group_loop groups [t] ts
      else if registerAddress t = registerAddress (last current) + register_count (last current)
      then group_loop groups (current @ [t]) ts
      else group_loop (groups @ [current]) [t] ts)"

definition groupByAddress :: "modbus_telemetry list \<Rightarrow> modbus_telemetry list list" where
  "groupByAddress ts = group_loop [] [] ts"

section \<open>Reading\<close>

definition toTelemetryData :: "device_config \<Rightarrow> modbus_telemetry \<Rightarrow> jsnum \<Rightarrow> string \<Rightarrow> telemetry" where
  "toTelemetryData cfg t value timestamp =
     \<lparr>t_name = t_name t, t_description = t_description t, t_value = JNum value, t_unit = t_unit t,
      t_timestamp = timestamp, t_deviceId = dev_id cfg, t_tags = t_tags t\<rparr>"

text \<open>The decoding loop of \<open>_readGroupByType\<close> over the registers of one request.\<close>

fun decode_group :: "device_config \<Rightarrow> string \<Rightarrow> register list \<Rightarrow> nat \<Rightarrow> modbus_telemetry list \<Rightarrow> modbus_error + telemetry list" where
  "decode_group cfg ts registers offset [] = Inr []"
| "decode_group cfg ts registers offset (t # rest) =
     (let count = register_count t in
      case decodeRegisters (take count (drop offset registers)) (t_byteOrder t) (registerDataType t) of
        Inl e \<Rightarrow> Inl e
      | Inr rawValue \<Rightarrow>
          (case decode_group cfg ts registers (offset + count) rest of
             Inl e \<Rightarrow> Inl e
           | Inr results \<Rightarrow>
               Inr (if isInvalidValue rawValue (registerDataType t) then results
                    else toTelemetryData cfg t (js_scale (t_scale t) (t_offset t) rawValue) ts # results)))"

definition readGroupByType ::
  "'s transport \<Rightarrow> device_config \<Rightarrow> table_type \<Rightarrow> string \<Rightarrow> modbus_telemetry list \<Rightarrow> ('s, modbus_error, telemetry list) comp" where
  "readGroupByType T cfg type ts telemetries =
     (if telemetries = [] then returnC []
      else
        let startAddress = registerAddress (hd telemetries);
            lastTelemetry = last telemetries;
            totalRegisters = registerAddress lastTelemetry + register_count lastTelemetry - startAddress
        in if totalRegisters > MAX_REGISTERS_PER_REQUEST then throwC (Batch_too_large totalRegisters)
           else bindC ((if type = HOLDING_REGISTER then readHoldingRegisters T else readInputRegisters T)
                         startAddress totalRegisters)
                  (\<lambda>registers. liftC (decode_group cfg ts registers 0 telemetries)))"

definition readBatchByType ::
  "'s transport \<Rightarrow> device_config \<Rightarrow> table_type \<Rightarrow> string \<Rightarrow> modbus_telemetry list \<Rightarrow> ('s, modbus_error, telemetry list) comp" where
  "readBatchByType T cfg type ts telemetries =
     (let groups = groupByAddress telemetries in
      if parallelRead cfg \<noteq> Some False
      then mapresC concat (allC (readGroupByType T cfg type ts) groups)
      else mapresC concat (seqC (readGroupByType T cfg type ts) groups))"

definition bit_value :: "bool list \<Rightarrow> jsnum" where
  "bit_value values = (case values of [] \<Rightarrow> js_int 0 | v # _ \<Rightarrow> if v then js_int 1 else js_int 0)"

definition readCoilBatch ::
  "'s transport \<Rightarrow> device_config \<Rightarrow> string \<Rightarrow> modbus_telemetry list \<Rightarrow> ('s, modbus_error, telemetry list) comp" where
  "readCoilBatch T cfg ts telemetries =
     allC (\<lambda>t. mapresC (\<lambda>values. toTelemetryData cfg t (bit_value values) ts) (readCoils T (registerAddress t) 1)) telemetries"

definition readDiscreteBatch ::
  "'s transport \<Rightarrow> device_config \<Rightarrow> string \<Rightarrow> modbus_telemetry list \<Rightarrow> ('s, modbus_error, telemetry list) comp" where
  "readDiscreteBatch T cfg ts telemetries =
     allC (\<lambda>t. mapresC (\<lambda>values. toTelemetryData cfg t (bit_value values) ts)
       (readDiscreteInputs T (registerAddress t) 1)) telemetries"

section \<open>Bit fields\<close>

text \<open>\<open>(combined & mask) >>> bitStart\<close> on 32-bit integers; shift counts are taken modulo 32.\<close>

definition shift_count :: "int \<Rightarrow> nat" where
  "shift_count n = nat (n mod 32)"

definition extract_bits :: "32 word \<Rightarrow> bitfield_field \<Rightarrow> 32 word" where
  "extract_bits combined f =
     (let width = bitEnd f - bitStart f + 1 in
      if width = 32 then combined
      else
        let mask = push_bit (shift_count (bitStart f)) (push_bit (shift_count width) 1 - 1)
        in drop_bit (shift_count (bitStart f)) (and combined mask))"

definition combine_words :: "register list \<Rightarrow> 32 word" where
  "combine_words rawValues =
     or (case rawValues of v # _ \<Rightarrow> ucast v | [] \<Rightarrow> 0)
        (push_bit 16 (case rawValues of _ # v # _ \<Rightarrow> ucast v | _ \<Rightarrow> 0))"

definition field_telemetry :: "device_config \<Rightarrow> string \<Rightarrow> 32 word \<Rightarrow> bitfield_config \<Rightarrow> bitfield_field \<Rightarrow> telemetry" where
  "field_telemetry cfg now combined bcfg f =
     \<lparr>t_name = f_name f, t_description = f_description f,
      t_value = JNum (js_scale (or_else (f_scale f) (js_int 1)) (or_else (f_offset f) (js_int 0))
                        (js_int (uint (extract_bits combined f)))),
      t_unit = f_unit f, t_timestamp = now, t_deviceId = dev_id cfg,
      t_tags = Some (js_spread (js_spread
                 (case f_canonical f of Some (c # cs) \<Rightarrow> [(''canonical'', c # cs)] | _ \<Rightarrow> [])
                 (or_else (b_tags bcfg) [])) (or_else (f_tags f) []))\<rparr>"

definition group_width :: "bitfield_config list \<Rightarrow> nat" where
  "group_width grp = (if list_ex (\<lambda>c. list_ex (\<lambda>f. 16 \<le> bitEnd f) (b_fields c)) grp then 2 else 1)"

definition readBitfieldGroup ::
  "'s transport \<Rightarrow> device_config \<Rightarrow> string \<Rightarrow> bitfield_config list \<Rightarrow> ('s, modbus_error, telemetry list) comp" where
  "readBitfieldGroup T cfg now grp =
     (let first = hd grp in
      bindC ((if b_registerType first = HOLDING_REGISTER then readHoldingRegisters T else readInputRegisters T)
               (b_registerAddress first) (group_width grp))
        (\<lambda>rawValues.
           returnC (concat (map (\<lambda>c. map (field_telemetry cfg now (combine_words rawValues) c) (b_fields c)) grp))))"

text \<open>Configurations of one register, in order of first appearance.\<close>

definition by_address :: "bitfield_config list \<Rightarrow> (table_type \<times> nat, bitfield_config list) jsmap" where
  "by_address configs =
     fold (\<lambda>c m. let key = (b_registerType c, b_registerAddress c)
                 in js_set key (or_else (js_get m key) [] @ [c]) m) configs []"

definition readBitfieldTelemetry ::
  "'s transport \<Rightarrow> device_config \<Rightarrow> string \<Rightarrow> ('s, modbus_error, telemetry list) comp" where
  "readBitfieldTelemetry T cfg now =
     (case bitfieldConfigs cfg of
        None \<Rightarrow> returnC []
      | Some configs \<Rightarrow>
          if configs = [] then returnC []
          else mapresC concat (allC (readBitfieldGroup T cfg now) (map snd (by_address configs))))"

section \<open>The read operation\<close>

definition of_table :: "table_type \<Rightarrow> modbus_telemetry list \<Rightarrow> modbus_telemetry list" where
  "of_table type ts = filter (\<lambda>t. registerTableType t = type) ts"

definition read_parts ::
  "'s transport \<Rightarrow> device_config \<Rightarrow> string \<Rightarrow> modbus_telemetry list \<Rightarrow> ('s, modbus_error, telemetry list) comp list" where
  "read_parts T cfg timestamp mts =
     (let holdingList = sortByAddress (of_table HOLDING_REGISTER mts);
          inputList = sortByAddress (of_table INPUT_REGISTER mts);
          coilList = sortByAddress (of_table COIL mts);
          discreteList = sortByAddress (of_table DISCRETE_INPUT mts)
      in [if holdingList \<noteq> [] then readBatchByType T cfg HOLDING_REGISTER timestamp holdingList else returnC [],
          if inputList \<noteq> [] then readBatchByType T cfg INPUT_REGISTER timestamp inputList else returnC [],
          if coilList \<noteq> [] then readCoilBatch T cfg timestamp coilList else returnC [],
          if discreteList \<noteq> [] then readDiscreteBatch T cfg timestamp discreteList else returnC [],
          readBitfieldTelemetry T cfg timestamp])"

definition ensureConnected :: "'s transport \<Rightarrow> int \<Rightarrow> ('s device_state, modbus_error, unit) comp" where
  "ensureConnected T now d =
     (if isConnected T (tstate d) then (Inr (), d)
      else if now - lastReconnectAttempt d < 10000 then (Inl Reconnect_cooldown_active, d)
      else (case reconnect T (tstate d) of
              (r, s) \<Rightarrow> (r, d\<lparr>lastReconnectAttempt := now, tstate := s\<rparr>)))"

text \<open>A computation of the transport, run inside the device.\<close>

definition on_transport :: "('s, modbus_error, 'a) comp \<Rightarrow> ('s device_state, modbus_error, 'a) comp" where
  "on_transport m d = (case m (tstate d) of (r, s) \<Rightarrow> (r, d\<lparr>tstate := s\<rparr>))"

definition items_to_read :: "device_config \<Rightarrow> telemetry list option \<Rightarrow> modbus_telemetry list" where
  "items_to_read cfg telemetries =
     (case telemetries of
        Some (t # ts) \<Rightarrow> toModbusTelemetryList cfg (t # ts)
      | _ \<Rightarrow> toModbusTelemetryList cfg (telemetryList cfg))"

definition device_read ::
  "'s transport \<Rightarrow> device_config \<Rightarrow> int \<Rightarrow> string \<Rightarrow> telemetry list option \<Rightarrow> ('s device_state, modbus_error, telemetry list) comp" where
  "device_read T cfg now timestamp telemetries =
     bindC (ensureConnected T now)
       (\<lambda>_. on_transport (mapresC concat (allC id (read_parts T cfg timestamp (items_to_read cfg telemetries)))))"

section \<open>Writing\<close>

definition raw_value :: "modbus_telemetry \<Rightarrow> jsnum" where
  "raw_value t = js_unscale (t_scale t) (t_offset t) (to_number (t_value t))"

fun encode_loop :: "modbus_telemetry list \<Rightarrow> modbus_error + register list" where
  "encode_loop [] = Inr []"
| "encode_loop (t # ts) =
     (case encodeRegisters (raw_value t) (t_byteOrder t) (registerDataType t) of
        Inl e \<Rightarrow> Inl e
      | Inr regs \<Rightarrow> (case encode_loop ts of Inl e \<Rightarrow> Inl e | Inr rest \<Rightarrow> Inr (regs @ rest)))"

text \<open>The group is never empty where \<open>encodeGroup\<close> is called.\<close>

definition encodeGroup :: "modbus_telemetry list \<Rightarrow> modbus_error + nat \<times> register list" where
  "encodeGroup ts =
     (case encode_loop ts of
        Inl e \<Rightarrow> Inl e
      | Inr registers \<Rightarrow>
          if length registers > MAX_REGISTERS_PER_REQUEST then Inl (Batch_too_large (length registers))
          else Inr (registerAddress (hd ts), registers))"

definition writeHoldingGroup :: "'s transport \<Rightarrow> modbus_telemetry list \<Rightarrow> ('s, modbus_error, unit) comp" where
  "writeHoldingGroup T ts =
     (if ts = [] then returnC ()
      else case encodeGroup ts of
             Inl e \<Rightarrow> throwC e
           | Inr (address, registers) \<Rightarrow> writeHoldingRegisters T address registers)"

definition writeBatchByType :: "'s transport \<Rightarrow> device_config \<Rightarrow> modbus_telemetry list \<Rightarrow> ('s, modbus_error, unit) comp" where
  "writeBatchByType T cfg ts =
     (let groups = groupByAddress ts in
      if parallelWrite cfg = Some True
      then mapresC (\<lambda>_. ()) (allC (writeHoldingGroup T) groups)
      else mapresC (\<lambda>_. ()) (seqC (writeHoldingGroup T) groups))"

definition coil_bit :: "modbus_telemetry \<Rightarrow> bool" where
  "coil_bit t \<longleftrightarrow> \<not> js_num_eq (raw_value t) (js_int 0)"

definition device_write :: "'s transport \<Rightarrow> device_config \<Rightarrow> telemetry list \<Rightarrow> ('s, modbus_error, unit) comp" where
  "device_write T cfg telemetries =
     (let ts = sortByPriority (toModbusTelemetryList cfg telemetries);
          holdingList = of_table HOLDING_REGISTER ts;
          coilList = of_table COIL ts
      in bindC (if holdingList \<noteq> [] then writeBatchByType T cfg holdingList else returnC ())
           (\<lambda>_. mapresC (\<lambda>_. ()) (seqC (\<lambda>t. writeCoils T (registerAddress t) [coil_bit t]) coilList)))"

section \<open>The atomic write\<close>

record planned_write =
  pw_coil :: bool
  pw_address :: nat
  pw_registers :: "register list"

definition plan_coil :: "modbus_telemetry \<Rightarrow> planned_write" where
  "plan_coil t = \<lparr>pw_coil = True, pw_address = registerAddress t, pw_registers = [if coil_bit t then 1 else 0]\<rparr>"

fun plan_groups :: "modbus_telemetry list list \<Rightarrow> modbus_error + planned_write list" where
  "plan_groups [] = Inr []"
| "plan_groups (g # gs) =
     (case encodeGroup g of
        Inl e \<Rightarrow> Inl e
      | Inr (address, registers) \<Rightarrow>
          (case plan_groups gs of
             Inl e \<Rightarrow> Inl e
           | Inr ps \<Rightarrow> Inr (\<lparr>pw_coil = False, pw_address = address, pw_registers = registers\<rparr> # ps)))"

definition plan_writes :: "modbus_telemetry list \<Rightarrow> modbus_error + planned_write list" where
  "plan_writes ts =
     (case plan_groups (groupByAddress (of_table HOLDING_REGISTER ts)) of
        Inl e \<Rightarrow> Inl e
      | Inr ps \<Rightarrow> Inr (map plan_coil (of_table COIL ts) @ ps))"

definition backup_one :: "'s transport \<Rightarrow> planned_write \<Rightarrow> ('s, modbus_error, register list) comp" where
  "backup_one T w =
     (if pw_coil w
      then mapresC (\<lambda>values. [case values of v # _ \<Rightarrow> (if v then 1 else 0) | [] \<Rightarrow> 0]) (readCoils T (pw_address w) 1)
      else readHoldingRegisters T (pw_address w) (length (pw_registers w)))"

definition put_registers :: "'s transport \<Rightarrow> bool \<Rightarrow> nat \<Rightarrow> register list \<Rightarrow> ('s, modbus_error, unit) comp" where
  "put_registers T coil address registers =
     (if coil then writeCoils T address [registers \<noteq> [] \<and> hd registers = 1]
      else writeHoldingRegisters T address registers)"

text \<open>The write loop: how many of the planned writes were executed, and the error that stopped it.\<close>

fun execute_plan :: "'s transport \<Rightarrow> planned_write list \<Rightarrow> 's \<Rightarrow> (nat \<times> modbus_error option) \<times> 's" where
  "execute_plan T [] s = ((0, None), s)"
| "execute_plan T (w # ws) s =
     (case put_registers T (pw_coil w) (pw_address w) (pw_registers w) s of
        (Inl e, s') \<Rightarrow> ((0, Some e), s')
      | (Inr _, s') \<Rightarrow> (case execute_plan T ws s' of ((n, r), s'') \<Rightarrow> ((Suc n, r), s'')))"

text \<open>
  The rollback over the executed writes with their backups, in execution order; an error of the
  rollback itself is swallowed and its address logged.
\<close>

fun rollback :: "'s transport \<Rightarrow> (planned_write \<times> register list) list \<Rightarrow> 's \<Rightarrow> nat list \<times> 's" where
  "rollback T [] s = ([], s)"
| "rollback T ((w, raw) # rest) s =
     (case put_registers T (pw_coil w) (pw_address w) raw s of
        (Inl e, s') \<Rightarrow> (case rollback T rest s' of (lost, s'') \<Rightarrow> (pw_address w # lost, s''))
      | (Inr _, s') \<Rightarrow> rollback T rest s')"

text \<open>The result, the addresses logged by a failed rollback, and the state.\<close>

definition run_atomic :: "'s transport \<Rightarrow> planned_write list \<Rightarrow> 's \<Rightarrow> ((modbus_error + unit) \<times> nat list) \<times> 's" where
  "run_atomic T planned s =
     (case allC (backup_one T) planned s of
        (Inl e, s1) \<Rightarrow> ((Inl e, []), s1)
      | (Inr backups, s1) \<Rightarrow>
          (case execute_plan T planned s1 of
             ((n, None), s2) \<Rightarrow> ((Inr (), []), s2)
           | ((n, Some e), s2) \<Rightarrow>
               (case rollback T (take n (zip planned backups)) s2 of (lost, s3) \<Rightarrow> ((Inl e, lost), s3))))"

definition writeAtomic ::
  "'s transport \<Rightarrow> device_config \<Rightarrow> telemetry list \<Rightarrow> 's \<Rightarrow> ((modbus_error + unit) \<times> nat list) \<times> 's" where
  "writeAtomic T cfg telemetries s =
     (case plan_writes (sortByPriority (toModbusTelemetryList cfg telemetries)) of
        Inl e \<Rightarrow> ((Inl e, []), s)
      | Inr planned \<Rightarrow> run_atomic T planned s)"

end
