(* ===== verification/Modbus_Server.thy ===== *)
theory Modbus_Server
  imports Modbus_Transport
begin

text \<open>
  The far end: \<open>ModbusServerBridge\<close> (packages/simulators/src/server/modbus-server-bridge.ts)
  publishing a simulator's register port, with the DC output simulator (dc-output/simulator.ts)
  and the DC breaker (cb/cb-simulator.ts) behind it through their adapters. The response bodies of
  jsmodbus are a parameter \<open>enc\<close> (numbers to register words, none when the library throws).
  The DC output simulator behind the client transport gives the interpretations of the memory
  interfaces of Modbus_Transport.
\<close>

section \<open>Adapter port\<close>

record 'm adapter =
  ad_readHolding :: "nat \<Rightarrow> 'm \<Rightarrow> jsnum"
  ad_writeHolding :: "nat \<Rightarrow> register \<Rightarrow> 'm \<Rightarrow> 'm"
  ad_readInput :: "nat \<Rightarrow> 'm \<Rightarrow> jsnum"
  ad_readCoil :: "nat \<Rightarrow> 'm \<Rightarrow> bool"
  ad_writeCoil :: "nat \<Rightarrow> bool \<Rightarrow> 'm \<Rightarrow> 'm"
  ad_readDiscrete :: "nat \<Rightarrow> 'm \<Rightarrow> bool"

text \<open>The adapters' loops over consecutive addresses.\<close>

definition readMany :: "(nat \<Rightarrow> 'm \<Rightarrow> 'a) \<Rightarrow> nat \<Rightarrow> nat \<Rightarrow> 'm \<Rightarrow> 'a list" where
  "readMany rd address count m = map (\<lambda>i. rd (address + i) m) [0..<count]"

definition writeMany :: "(nat \<Rightarrow> 'a \<Rightarrow> 'm \<Rightarrow> 'm) \<Rightarrow> nat \<Rightarrow> 'a list \<Rightarrow> 'm \<Rightarrow> 'm" where
  "writeMany wr address vs m = fold (\<lambda>i. wr (address + i) (vs ! i)) [0..<length vs] m"

section \<open>The bridge\<close>

record protection =
  p_table :: table_type
  p_ranges :: "(nat \<times> nat) list option"

definition isWithin :: "protection option \<Rightarrow> table_type \<Rightarrow> int \<Rightarrow> int \<Rightarrow> bool" where
  "isWithin protection table lo hi =
     (case protection of
        None \<Rightarrow> False
      | Some p \<Rightarrow>
          if p_table p \<noteq> table then False
          else case p_ranges p of
                 None \<Rightarrow> True
               | Some [] \<Rightarrow> True
               | Some rs \<Rightarrow> list_ex (\<lambda>(low, high). lo \<le> int high \<and> int low \<le> hi) rs)"

datatype server_reply = Reply modbus_response | Exception nat nat

definition words_reply :: "(jsnum list \<Rightarrow> register list option) \<Rightarrow> nat \<Rightarrow> jsnum list \<Rightarrow> server_reply" where
  "words_reply enc fc values = (case enc values of Some ws \<Rightarrow> Reply (Words ws) | None \<Rightarrow> Exception fc 4)"

fun bridge_handle ::
  "(jsnum list \<Rightarrow> register list option) \<Rightarrow> 'm adapter \<Rightarrow> protection option \<Rightarrow> protection option \<Rightarrow>
   modbus_request \<Rightarrow> 'm \<Rightarrow> server_reply \<times> 'm" where
  "bridge_handle enc ad wp rp (ReadCoils start count) m =
     (if isWithin rp COIL (int start) (int start + int count - 1) then (Exception 1 2, m)
      else (Reply (Bits (readMany (ad_readCoil ad) start count m)), m))"
| "bridge_handle enc ad wp rp (ReadDiscreteInputs start count) m =
     (if isWithin rp DISCRETE_INPUT (int start) (int start + int count - 1) then (Exception 2 2, m)
      else (Reply (Bits (readMany (ad_readDiscrete ad) start count m)), m))"
| "bridge_handle enc ad wp rp (ReadHoldingRegisters start count) m =
     (if isWithin rp HOLDING_REGISTER (int start) (int start + int count - 1) then (Exception 3 2, m)
      else (words_reply enc 3 (readMany (ad_readHolding ad) start count m), m))"
| "bridge_handle enc ad wp rp (ReadInputRegisters start count) m =
     (if isWithin rp INPUT_REGISTER (int start) (int start + int count - 1) then (Exception 4 2, m)
      else (words_reply enc 4 (readMany (ad_readInput ad) start count m), m))"
| "bridge_handle enc ad wp rp (WriteSingleCoil a b) m =
     (if isWithin wp COIL (int a) (int a) then (Exception 5 2, m)
      else (Reply Written, ad_writeCoil ad a b m))"
| "bridge_handle enc ad wp rp (WriteSingleRegister a v) m =
     (if isWithin wp HOLDING_REGISTER (int a) (int a) then (Exception 6 2, m)
      else (Reply Written, ad_writeHolding ad a v m))"
| "bridge_handle enc ad wp rp (WriteMultipleCoils a bs) m =
     (if isWithin wp COIL (int a) (int a + int (length bs) - 1) then (Exception 15 2, m)
      else (Reply Written, writeMany (ad_writeCoil ad) a bs m))"
| "bridge_handle enc ad wp rp (WriteMultipleRegisters a vs) m =
     (if isWithin wp HOLDING_REGISTER (int a) (int a + int (length vs) - 1) then (Exception 16 2, m)
      else (Reply Written, writeMany (ad_writeHolding ad) a vs m))"

section \<open>DC output simulator\<close>

record dc_state =
  outputOn :: bool
  fault :: bool
  voltageSetpoint :: register
  actualVoltage :: jsnum
  currentLimit :: register
  actualCurrent :: jsnum
  temperature :: jsnum
  energyCounterKwh :: jsnum
  ovThreshold :: register
  ocThreshold :: register
  pendingOn :: bool
  pendingOff :: bool

definition dc_defaultState :: dc_state where
  "dc_defaultState =
     \<lparr>outputOn = True, fault = False, voltageSetpoint = 480, actualVoltage = js_int 480,
      currentLimit = 1000, actualCurrent = js_int 500, temperature = js_int 400,
      energyCounterKwh = js_int 0, ovThreshold = 550, ocThreshold = 1100,
      pendingOn = False, pendingOff = False\<rparr>"

definition num :: "register \<Rightarrow> jsnum" where
  "num r = js_int (uint r)"

definition js_word32 :: "jsnum \<Rightarrow> 32 word" where
  "js_word32 x = (case x of Fin q \<Rightarrow> word_of_int (if 0 \<le> q then \<lfloor>q\<rfloor> else \<lceil>q\<rceil>) | _ \<Rightarrow> 0)"

text \<open>\<open>x += (target - x) * rate * seconds\<close>.\<close>

definition drift :: "jsnum \<Rightarrow> jsnum \<Rightarrow> jsnum \<Rightarrow> jsnum \<Rightarrow> jsnum" where
  "drift target rate seconds x = js_add x (js_mul (js_mul (js_sub target x) rate) seconds)"

text \<open>
  \<open>tick\<close>: the pending pulses (off after on), the electrical quantities and protection, the
  temperature, the energy counter. \<open>rnd\<close> is the value of \<open>randomFloat()\<close>.
\<close>

definition dc_pulses :: "dc_state \<Rightarrow> dc_state" where
  "dc_pulses s0 =
     (let s1 = (if pendingOn s0
                then (if fault s0 then s0\<lparr>pendingOn := False\<rparr> else s0\<lparr>pendingOn := False, outputOn := True\<rparr>)
                else s0)
      in if pendingOff s1 then s1\<lparr>pendingOff := False, outputOn := False\<rparr> else s1)"

definition dc_electrical :: "jsnum \<Rightarrow> jsnum \<Rightarrow> dc_state \<Rightarrow> dc_state" where
  "dc_electrical rnd sec s =
     (if outputOn s \<and> \<not> fault s
      then
        let v = drift (num (voltageSetpoint s)) (fl64 (3/10)) sec (actualVoltage s);
            base = js_add (js_int 500) (js_mul (js_sub rnd (fl64 (1/2))) (js_int 40));
            c = drift base (fl64 (2/10)) sec (actualCurrent s);
            s1 = s\<lparr>actualVoltage := v, actualCurrent := c\<rparr>;
            s2 = (if js_less (js_mul (num (ovThreshold s)) (js_int 10)) v
                  then s1\<lparr>fault := True, outputOn := False\<rparr> else s1)
        in if js_less (num (ocThreshold s)) c then s2\<lparr>fault := True, outputOn := False\<rparr> else s2
      else s\<lparr>actualVoltage := drift (js_int 0) (fl64 (15/100)) sec (actualVoltage s),
             actualCurrent := drift (js_int 0) (fl64 (3/10)) sec (actualCurrent s)\<rparr>)"

definition dc_thermal :: "jsnum \<Rightarrow> dc_state \<Rightarrow> dc_state" where
  "dc_thermal sec s =
     s\<lparr>temperature := drift (js_mul (if outputOn s then js_int 45 else js_int 25) (js_int 10))
        (fl64 (2/100)) sec (temperature s)\<rparr>"

definition dc_energy :: "jsnum \<Rightarrow> dc_state \<Rightarrow> dc_state" where
  "dc_energy sec s =
     (if outputOn s \<and> \<not> fault s
      then let powerKw = js_div (js_mul (actualVoltage s) (actualCurrent s)) (js_int 100000)
           in s\<lparr>energyCounterKwh := js_add (energyCounterKwh s) (js_mul powerKw (js_div sec (js_int 3600)))\<rparr>
      else s)"

definition dc_tick :: "jsnum \<Rightarrow> jsnum \<Rightarrow> dc_state \<Rightarrow> dc_state" where
  "dc_tick rnd sec s = dc_energy sec (dc_thermal sec (dc_electrical rnd sec (dc_pulses s)))"

definition dc_readInput :: "nat \<Rightarrow> dc_state \<Rightarrow> jsnum" where
  "dc_readInput a s =
     (if a = 0 then js_round (actualVoltage s)
      else if a = 1 then js_round (actualCurrent s)
      else if a = 2 then js_round (js_div (js_mul (actualVoltage s) (actualCurrent s)) (js_int 100))
      else if a = 3 then js_round (temperature s)
      else
        let e = js_word32 (js_floor (js_mul (energyCounterKwh s) (js_int 100)))
        in if a = 4 then js_int (uint (drop_bit 16 e) mod 65536)
           else if a = 5 then js_int (uint e mod 65536)
           else js_int 0)"

definition dc_readHolding :: "nat \<Rightarrow> dc_state \<Rightarrow> register" where
  "dc_readHolding a s =
     (if a = 0 then voltageSetpoint s else if a = 1 then currentLimit s
      else if a = 2 then ovThreshold s else if a = 3 then ocThreshold s else 0)"

definition dc_writeHolding :: "nat \<Rightarrow> register \<Rightarrow> dc_state \<Rightarrow> dc_state" where
  "dc_writeHolding a v s =
     (if a = 0 then s\<lparr>voltageSetpoint := v\<rparr> else if a = 1 then s\<lparr>currentLimit := v\<rparr>
      else if a = 2 then s\<lparr>ovThreshold := v\<rparr> else if a = 3 then s\<lparr>ocThreshold := v\<rparr> else s)"

definition dc_readCoil :: "nat \<Rightarrow> dc_state \<Rightarrow> bool" where
  "dc_readCoil a s = (if a = 0 then pendingOn s else if a = 1 then pendingOff s else False)"

definition dc_writeCoil :: "nat \<Rightarrow> bool \<Rightarrow> dc_state \<Rightarrow> dc_state" where
  "dc_writeCoil a v s =
     (if \<not> v then s
      else if a = 0 then s\<lparr>pendingOn := True\<rparr> else if a = 1 then s\<lparr>pendingOff := True\<rparr> else s)"

definition dc_readDiscrete :: "nat \<Rightarrow> dc_state \<Rightarrow> bool" where
  "dc_readDiscrete a s = (if a = 0 then outputOn s else if a = 1 then fault s else False)"

definition dc_adapter :: "dc_state adapter" where
  "dc_adapter =
     \<lparr>ad_readHolding = \<lambda>a s. num (dc_readHolding a s), ad_writeHolding = dc_writeHolding,
      ad_readInput = dc_readInput, ad_readCoil = dc_readCoil, ad_writeCoil = dc_writeCoil,
      ad_readDiscrete = dc_readDiscrete\<rparr>"

section \<open>DC breaker simulator\<close>

record cb_state =
  cb_closed :: bool
  pendingOpen :: bool
  pendingClose :: bool

definition cb_initial :: cb_state where
  "cb_initial = \<lparr>cb_closed = True, pendingOpen = False, pendingClose = False\<rparr>"

definition cb_tick :: "cb_state \<Rightarrow> cb_state" where
  "cb_tick s =
     (let s1 = (if pendingOpen s then s\<lparr>pendingOpen := False, cb_closed := False\<rparr> else s)
      in if pendingClose s1 then s1\<lparr>pendingClose := False, cb_closed := True\<rparr> else s1)"

definition cb_readCoil :: "nat \<Rightarrow> cb_state \<Rightarrow> bool" where
  "cb_readCoil a s = (if a = 0 then pendingOpen s else if a = 1 then pendingClose s else False)"

definition cb_writeCoil :: "nat \<Rightarrow> bool \<Rightarrow> cb_state \<Rightarrow> cb_state" where
  "cb_writeCoil a v s =
     (if \<not> v then s
      else if a = 0 then s\<lparr>pendingOpen := True\<rparr> else if a = 1 then s\<lparr>pendingClose := True\<rparr> else s)"

definition cb_readDiscrete :: "nat \<Rightarrow> cb_state \<Rightarrow> bool" where
  "cb_readDiscrete a s = (if a = 0 then cb_closed s else if a = 1 then \<not> cb_closed s else False)"

definition cb_adapter :: "cb_state adapter" where
  "cb_adapter =
     \<lparr>ad_readHolding = \<lambda>a s. js_int 0, ad_writeHolding = \<lambda>a v s. s, ad_readInput = \<lambda>a s. js_int 0,
      ad_readCoil = cb_readCoil, ad_writeCoil = cb_writeCoil, ad_readDiscrete = cb_readDiscrete\<rparr>"

section \<open>The simulator behind a link as a register memory\<close>

text \<open>
  An instance of the library's response bodies (16-bit words, out-of-range numbers throw) and a
  link that loses requests by a schedule before they reach the server.
\<close>

definition word_of_num :: "jsnum \<Rightarrow> register option" where
  "word_of_num x =
     (case x of Fin q \<Rightarrow> if 0 \<le> q \<and> q \<le> 65535 then Some (word_of_int \<lfloor>q\<rfloor>) else None
              | NaN \<Rightarrow> Some 0 | _ \<Rightarrow> None)"

definition body_words :: "jsnum list \<Rightarrow> register list option" where
  "body_words xs = those (map word_of_num xs)"

definition reply_option :: "server_reply \<Rightarrow> modbus_response option" where
  "reply_option r = (case r of Reply x \<Rightarrow> Some x | Exception fc code \<Rightarrow> None)"

fun link :: "(modbus_request \<Rightarrow> 'm \<Rightarrow> server_reply \<times> 'm) \<Rightarrow> ('m \<times> bool list) wire" where
  "link h req (m, True # losses) = (None, (m, losses))"
| "link h req (m, False # losses) = (case h req m of (r, m') \<Rightarrow> (reply_option r, (m', losses)))"
| "link h req (m, []) = (case h req m of (r, m') \<Rightarrow> (reply_option r, (m', [])))"

lemma word_of_num_num [simp]: "word_of_num (num r) = Some r"
proof -
  have "uint r < 65536" using uint_lt2p [of r] by simp
  then have "uint r \<le> 65535" by simp
  then have "(of_int (uint r) :: rat) \<le> of_int 65535" by (simp only: of_int_le_iff)
  moreover have "(0::rat) \<le> of_int (uint r)" by (simp only: of_int_0_le_iff) simp
  moreover have "word_of_int \<lfloor>of_int (uint r) :: rat\<rfloor> = r" by (simp only: floor_of_int) simp
  ultimately show ?thesis unfolding word_of_num_def num_def js_int_def by (simp only: jsnum.case if_True simp_thms) simp
qed

lemma body_words_num [simp]: "body_words (map (\<lambda>i. num (f i)) is) = Some (map f is)"
  by (induction "is") (auto simp: body_words_def)

lemma readMany_upt: "readMany rd a n m = map (\<lambda>x. rd x m) [a..<a + n]"
  unfolding readMany_def by (rule nth_equalityI) auto

lemma writeMany_read:
  assumes "\<And>x b v m. rd x (wr b v m) = (if x = b \<and> P x then v else rd x m)"
  shows "rd x (writeMany wr a vs m) = (if a \<le> x \<and> x < a + length vs \<and> P x then vs ! (x - a) else rd x m)"
proof -
  have "k \<le> length vs \<Longrightarrow> rd x (fold (\<lambda>i. wr (a + i) (vs ! i)) [0..<k] m) =
     (if a \<le> x \<and> x < a + k \<and> P x then vs ! (x - a) else rd x m)" for k
    by (induction k) (auto simp: assms)
  then show ?thesis by (simp add: writeMany_def)
qed

lemma dc_write_read: "dc_readHolding x (dc_writeHolding b v s) = (if x = b \<and> x < 4 then v else dc_readHolding x s)"
  by (auto simp: dc_readHolding_def dc_writeHolding_def)

lemma dc_coil_hold: "dc_readHolding x (dc_writeCoil a v s) = dc_readHolding x s"
  by (auto simp: dc_readHolding_def dc_writeCoil_def)

lemma dc_coils_hold: "dc_readHolding x (writeMany dc_writeCoil a bs s) = dc_readHolding x s"
proof -
  have "dc_readHolding x (fold (\<lambda>i. dc_writeCoil (a + i) (bs ! i)) is s) = dc_readHolding x s" for "is"
    by (induction "is" arbitrary: s) (auto simp: dc_coil_hold)
  then show ?thesis by (simp add: writeMany_def)
qed

type_synonym dc_client = "(dc_state \<times> bool list) client"

definition dc_wire :: "protection option \<Rightarrow> protection option \<Rightarrow> (dc_state \<times> bool list) wire" where
  "dc_wire wp rp = link (bridge_handle body_words dc_adapter wp rp)"

definition dc_transport ::
  "protection option \<Rightarrow> protection option \<Rightarrow> (dc_state \<times> bool list \<Rightarrow> bool) \<Rightarrow> dc_client transport" where
  "dc_transport wp rp dial = client_transport (dc_wire wp rp) dial"

definition dc_hold :: "dc_client \<Rightarrow> nat \<Rightarrow> register" where
  "dc_hold c a = dc_readHolding a (fst (far_end c))"

lemmas dc_call_simps = dc_transport_def client_transport_def client_readHoldingRegisters_def
  transport_writeHoldingRegisters_def writeSingleRegister_def writeMultipleRegisters_def
  client_readInputRegisters_def client_readCoils_def client_readDiscreteInputs_def
  transport_writeCoils_def writeSingleCoil_def writeMultipleCoils_def mapresC_cases

lemma link_cases:
  "link h req (m, losses) = (r, (m', losses')) \<Longrightarrow>
   r = None \<and> m' = m \<or> (\<exists>y. h req m = (y, m') \<and> r = reply_option y)"
  by (cases losses rule: list.exhaust; cases "hd losses") (auto split: prod.splits)

lemma exception_keeps: "bridge_handle enc ad wp rp req m = (Exception fc code, m') \<Longrightarrow> m' = m"
  by (cases req) (auto split: if_splits)

text \<open>A request over the link is rejected without effect, or served by the bridge.\<close>

lemma dc_request:
  assumes "client_request (dc_wire wp rp) req c = (r, c')"
  shows "(\<exists>e. r = Inl e) \<and> fst (far_end c') = fst (far_end c) \<or>
    (\<exists>z. r = Inr z \<and> fst (bridge_handle body_words dc_adapter wp rp req (fst (far_end c))) = Reply z \<and>
       fst (far_end c') = snd (bridge_handle body_words dc_adapter wp rp req (fst (far_end c))))"
proof (cases "c_connected c")
  case True
  obtain m ls where n: "far_end c = (m, ls)" by (cases "far_end c")
  obtain q m' ls' where l: "link (bridge_handle body_words dc_adapter wp rp) req (m, ls) = (q, (m', ls'))"
    by (metis surj_pair)
  have req: "r = (case q of Some x \<Rightarrow> Inr x | None \<Rightarrow> Inl (Request_failed (function_code req)))"
    "fst (far_end c') = m'"
    using assms True n l by (auto simp: client_request_def dc_wire_def split: option.splits)
  from link_cases [OF l] show ?thesis
  proof (elim disjE exE conjE)
    fix y assume y: "bridge_handle body_words dc_adapter wp rp req m = (y, m')" "q = reply_option y"
    with req n exception_keeps [of body_words dc_adapter wp rp req m] show ?thesis
      by (cases y) (auto simp: reply_option_def)
  qed (use req n in simp)
qed (use assms in auto)

lemma map_body_words [simp]: "body_words (readMany (\<lambda>a s. num (f a s)) a n m) = Some (map (\<lambda>x. f x m) [a..<a + n])"
  by (simp add: readMany_upt)

lemmas dc_write_many = writeMany_read [of dc_readHolding dc_writeHolding "\<lambda>x. x < 4", OF dc_write_read]

lemma dc_read_reports:
  assumes "readHoldingRegisters (dc_transport wp rp dial) a n c = (r, c')"
  shows "dc_hold c' = dc_hold c" "r = Inr vs \<Longrightarrow> vs = map (dc_hold c) [a..<a + n]"
proof -
  obtain q where q: "client_request (dc_wire wp rp) (ReadHoldingRegisters a n) c = (q, c')"
    "r = map_sum id words_of q"
    using assms by (auto simp: dc_call_simps split: prod.splits sum.splits)
  from dc_request [OF q(1)] q(2)
  show "dc_hold c' = dc_hold c" "r = Inr vs \<Longrightarrow> vs = map (dc_hold c) [a..<a + n]"
    by (auto simp: dc_hold_def [abs_def] dc_adapter_def words_reply_def split: if_splits)
qed

lemma dc_write_effect:
  assumes "writeHoldingRegisters (dc_transport wp rp dial) a vs c = (r, c')"
  shows "r = Inr u \<Longrightarrow> dc_hold c' x = (if a \<le> x \<and> x < a + length vs \<and> x < 4 then vs ! (x - a) else dc_hold c x)"
    and "r = Inl e \<Longrightarrow> dc_hold c' = dc_hold c"
proof -
  define req where "req = (case vs of [v] \<Rightarrow> WriteSingleRegister a v | _ \<Rightarrow> WriteMultipleRegisters a vs)"
  obtain q where q: "client_request (dc_wire wp rp) req c = (q, c')" "r = map_sum id (\<lambda>_. ()) q"
    using assms by (auto simp: dc_call_simps req_def split: prod.splits sum.splits list.splits)
  from dc_request [OF q(1)] q(2)
  show "r = Inr u \<Longrightarrow> dc_hold c' x = (if a \<le> x \<and> x < a + length vs \<and> x < 4 then vs ! (x - a) else dc_hold c x)"
    and "r = Inl e \<Longrightarrow> dc_hold c' = dc_hold c"
    by (auto simp: req_def dc_hold_def [abs_def] dc_adapter_def dc_write_read dc_write_many split: if_splits list.splits)
qed

lemma dc_bits_keep:
  "dc_hold (snd (readCoils (dc_transport wp rp dial) a n c)) = dc_hold c"
  "dc_hold (snd (writeCoils (dc_transport wp rp dial) a bs c)) = dc_hold c"
proof -
  have keep: "dc_hold (snd (mapresC f (client_request (dc_wire wp rp) req) c)) = dc_hold c"
    if "\<And>x m. dc_readHolding x (snd (bridge_handle body_words dc_adapter wp rp req m)) = dc_readHolding x m"
    for f :: "modbus_response \<Rightarrow> 'x" and req
  proof -
    obtain q c' where q: "client_request (dc_wire wp rp) req c = (q, c')" by (metis surj_pair)
    from dc_request [OF q] q that show ?thesis
      by (auto simp: mapresC_cases dc_hold_def [abs_def] split: sum.splits)
  qed
  show "dc_hold (snd (readCoils (dc_transport wp rp dial) a n c)) = dc_hold c"
    unfolding dc_transport_def client_transport_def client_readCoils_def transport.select_convs
    by (rule keep) simp
  show "dc_hold (snd (writeCoils (dc_transport wp rp dial) a bs c)) = dc_hold c"
    unfolding dc_transport_def client_transport_def transport_writeCoils_def writeSingleCoil_def
      writeMultipleCoils_def transport.select_convs
    by (cases bs rule: list.exhaust; cases "tl bs")
       (auto intro!: keep simp: dc_adapter_def dc_coil_hold dc_coils_hold)
qed

interpretation dc: rejecting_memory "dc_transport wp rp dial" dc_hold "\<lambda>a. a < 4" for wp rp dial
proof
  fix a n vs x e u and c c' :: dc_client
  let ?T = "dc_transport wp rp dial"
  show "readHoldingRegisters ?T a n c = (Inr vs, c') \<Longrightarrow> vs = map (dc_hold c) [a..<a + n]"
    by (rule dc_read_reports(2)) auto
  show "dc_hold (snd (readHoldingRegisters ?T a n c)) = dc_hold c"
    by (rule dc_read_reports(1) [OF prod.collapse [symmetric]])
  show "writeHoldingRegisters ?T a vs c = (Inr u, c') \<Longrightarrow>
      dc_hold c' x = (if a \<le> x \<and> x < a + length vs \<and> x < 4 then vs ! (x - a) else dc_hold c x)"
    by (rule dc_write_effect(1)) auto
  show "writeHoldingRegisters ?T a vs c = (Inl e, c') \<Longrightarrow> dc_hold c' = dc_hold c"
    by (rule dc_write_effect(2)) auto
  then show "writeHoldingRegisters ?T a vs c = (Inl e, c') \<Longrightarrow>
      \<not> (a \<le> x \<and> x < a + length vs \<and> x < 4) \<Longrightarrow> dc_hold c' x = dc_hold c x" by simp
qed (rule dc_bits_keep)+

text \<open>
  A connected client on a link without losses, when nothing is read-protected and every measured
  value fits a register.
\<close>

definition dc_good :: "dc_client \<Rightarrow> bool" where
  "dc_good c \<longleftrightarrow> c_connected c \<and> snd (far_end c) = [] \<and>
     list_all (\<lambda>a. word_of_num (dc_readInput a (fst (far_end c))) \<noteq> None) [0, 1, 2, 3, 4, 5]"

definition dc_inp :: "dc_client \<Rightarrow> nat \<Rightarrow> register" where
  "dc_inp c a = or_else (word_of_num (dc_readInput a (fst (far_end c)))) 0"

definition dc_coil :: "dc_client \<Rightarrow> nat \<Rightarrow> bool" where
  "dc_coil c a = dc_readCoil a (fst (far_end c))"

definition dc_disc :: "dc_client \<Rightarrow> nat \<Rightarrow> bool" where
  "dc_disc c a = dc_readDiscrete a (fst (far_end c))"

lemma isWithin_None [simp]: "\<not> isWithin None t lo hi"
  by (simp add: isWithin_def)

lemma those_map: "(\<And>x. x \<in> set xs \<Longrightarrow> f x = Some (g x)) \<Longrightarrow> those (map f xs) = Some (map g xs)"
  by (induction xs) auto

lemma dc_inputs_fit:
  assumes "dc_good c"
  shows "word_of_num (dc_readInput a (fst (far_end c))) = Some (dc_inp c a)"
proof (cases "a \<in> {0, 1, 2, 3, 4, 5}")
  case True
  then have "word_of_num (dc_readInput a (fst (far_end c))) \<noteq> None" using assms by (auto simp: dc_good_def)
  then show ?thesis by (auto simp: dc_inp_def)
next
  case False
  then have "dc_readInput a (fst (far_end c)) = js_int 0" by (simp add: dc_readInput_def Let_def)
  then show ?thesis by (simp add: dc_inp_def word_of_num_def js_int_def)
qed

lemma dc_good_served:
  assumes "dc_good c" "bridge_handle body_words dc_adapter wp None req (fst (far_end c)) = (Reply z, fst (far_end c))"
  shows "client_request (dc_wire wp None) req c = (Inr z, c)"
proof -
  obtain m where m: "far_end c = (m, [])" using assms(1) by (cases "far_end c") (simp add: dc_good_def)
  then show ?thesis using assms by (simp add: client_request_def dc_wire_def reply_option_def dc_good_def)
qed

interpretation dc: readable_memory "dc_transport wp None dial" dc_good dc_hold dc_inp dc_coil dc_disc for wp dial
proof
  fix a n and c :: dc_client
  assume g: "dc_good c"
  let ?T = "dc_transport wp None dial"
  show "isConnected ?T c" using g by (simp add: dc_call_simps dc_good_def)
  have "those (map word_of_num (readMany dc_readInput a n (fst (far_end c)))) = Some (map (dc_inp c) [a..<a + n])"
    using dc_inputs_fit [OF g] by (simp add: readMany_upt those_map)
  then have "body_words (readMany dc_readInput a n (fst (far_end c))) = Some (map (dc_inp c) [a..<a + n])"
    by (simp add: body_words_def)
  then have "client_request (dc_wire wp None) (ReadInputRegisters a n) c = (Inr (Words (map (dc_inp c) [a..<a + n])), c)"
    by (intro dc_good_served [OF g]) (simp add: dc_adapter_def words_reply_def)
  then show "readInputRegisters ?T a n c = (Inr (map (dc_inp c) [a..<a + n]), c)"
    by (simp add: dc_call_simps)
  have "client_request (dc_wire wp None) (ReadHoldingRegisters a n) c = (Inr (Words (map (dc_hold c) [a..<a + n])), c)"
    by (intro dc_good_served [OF g]) (simp add: dc_adapter_def words_reply_def dc_hold_def [abs_def])
  then show "readHoldingRegisters ?T a n c = (Inr (map (dc_hold c) [a..<a + n]), c)"
    by (simp add: dc_call_simps)
  have "client_request (dc_wire wp None) (ReadCoils a n) c = (Inr (Bits (map (dc_coil c) [a..<a + n])), c)"
    by (intro dc_good_served [OF g]) (simp add: dc_adapter_def readMany_upt dc_coil_def [abs_def])
  then show "readCoils ?T a n c = (Inr (map (dc_coil c) [a..<a + n]), c)"
    by (simp add: dc_call_simps)
  have "client_request (dc_wire wp None) (ReadDiscreteInputs a n) c = (Inr (Bits (map (dc_disc c) [a..<a + n])), c)"
    by (intro dc_good_served [OF g]) (simp add: dc_adapter_def readMany_upt dc_disc_def [abs_def])
  then show "readDiscreteInputs ?T a n c = (Inr (map (dc_disc c) [a..<a + n]), c)"
    by (simp add: dc_call_simps)
qed

section \<open>The breaker\<close>

text \<open>
  Whatever coil writes and ticks the breaker receives, its two auxiliary contacts are opposite
  and a tick leaves no pulse pending; a close pulse pending with an open pulse wins, and without
  pulses a tick changes nothing.
\<close>

theorem cb_breaker_behaviour:
  "cb_readDiscrete 0 s \<noteq> cb_readDiscrete 1 s \<and>
   \<not> cb_readCoil a (cb_tick s) \<and>
   cb_readDiscrete 0 (cb_tick s) = (cb_readCoil 1 s \<or> cb_readDiscrete 0 s \<and> \<not> cb_readCoil 0 s) \<and>
   cb_readDiscrete b (cb_writeCoil a v s) = cb_readDiscrete b s"
  by (auto simp: cb_readDiscrete_def cb_readCoil_def cb_tick_def cb_writeCoil_def Let_def)

end
