(* ===== verification/Codec_Facts.thy ===== *)
theory Codec_Facts
  imports Modbus_Codec
begin

text \<open>
  When decoding inverts encoding: the byte orders that agree between the two halves of the codec,
  the integer types (with their ranges and the rejection outside them), the float types, and the
  two byte orders on which the halves disagree for 32-bit values.
\<close>

section \<open>Byte orders\<close>

text \<open>The byte orders on which the decoder undoes what the encoder does to a buffer of \<open>n\<close> bytes.\<close>

definition orders_agree :: "byte_order \<Rightarrow> nat \<Rightarrow> bool" where
  "orders_agree bo n \<longleftrightarrow>
     bo = BIG_ENDIAN \<or> bo = LITTLE_ENDIAN \<and> n = 2 \<or> bo = BIG_ENDIAN_SWAP \<and> n \<in> {4, 8}"

lemma list_length_numerals:
  "length xs = 2 \<longleftrightarrow> (\<exists>a b. xs = [a, b])"
  "length xs = 4 \<longleftrightarrow> (\<exists>a b c d. xs = [a, b, c, d])"
  "length xs = 8 \<longleftrightarrow> (\<exists>a b c d e f g h. xs = [a, b, c, d, e, f, g, h])"
  by (auto simp: eval_nat_numeral length_Suc_conv)

lemma write_be_nat:
  assumes "i + length bs \<le> length buf"
  shows "write_uint (length bs) (js_int (int (be_nat bs))) buf i = Inr (splice i bs buf)"
proof -
  obtain n where n: "n = be_nat bs" by simp
  have "n < 256 ^ length bs" unfolding n by (rule be_nat_less)
  then have "n + 1 \<le> 256 ^ length bs" by simp
  then have "(of_nat (n + 1) :: rat) \<le> of_nat (256 ^ length bs)" by (simp only: of_nat_le_iff)
  then have le: "(of_nat n :: rat) \<le> 256 ^ length bs - 1" by simp
  have "write_uint (length bs) (js_int (int n)) buf i = Inr (splice i (be_bytes (length bs) n) buf)"
    using assms le by (simp add: js_int_def)
  then show ?thesis unfolding n be_bytes_nat .
qed

lemma rotate_words_append:
  "rotate_words_at (length xs) (xs @ a # b # c # d # ys) = xs @ c # d # a # b # ys"
  by (simp add: rotate_words_at_def byte_at_def set_byte_def nth_append list_update_append Let_def
      eval_nat_numeral)

lemma swap_byte_pairs_append:
  "swap_byte_pairs_at (length xs) (xs @ a # b # c # d # ys) = xs @ b # a # d # c # ys"
  by (simp add: swap_byte_pairs_at_def byte_at_def set_byte_def nth_append list_update_append Let_def
      eval_nat_numeral)

lemma swap_bytes_append:
  "swap_bytes_at (length xs) (xs @ a # b # ys) = xs @ b # a # ys"
  by (simp add: swap_bytes_at_def byte_at_def set_byte_def nth_append list_update_append Let_def)

lemma swap_words_append:
  "swap_words_at (length xs) (xs @ a # b # c # d # ys) = Inr (xs @ c # d # a # b # ys)"
proof -
  let ?buf = "xs @ a # b # c # d # ys" and ?i = "length xs"
  have "write_uint 2 (js_int (int (be_nat [c, d]))) ?buf ?i = Inr (xs @ c # d # c # d # ys)"
    using write_be_nat [of ?i "[c, d]" ?buf] by (simp add: splice_def numeral_2_eq_2)
  moreover have "write_uint 2 (js_int (int (be_nat [a, b]))) (xs @ c # d # c # d # ys) (?i + 2) =
      Inr (xs @ c # d # a # b # ys)"
    using write_be_nat [of "?i + 2" "[a, b]" "xs @ c # d # c # d # ys"]
    by (simp add: splice_def numeral_2_eq_2)
  moreover have "read_uint 2 ?buf ?i = Inr (be_nat [a, b])" "read_uint 2 ?buf (?i + 2) = Inr (be_nat [c, d])"
    by (simp_all add: read_uint_def numeral_2_eq_2)
  ultimately show ?thesis by (simp add: swap_words_at_def)
qed

lemma stepped_small:
  "stepped 2 (length [a, b]) = [0]" "stepped 2 (length [a, b, c, d]) = [0, 2]"
  "stepped 4 (length [a, b, c, d]) = [0]" "stepped 4 (length [a, b, c, d, e, f, g, h]) = [0, 4]"
  by (simp_all add: stepped_def upt_conv_Cons)

text \<open>The loops on the buffers of one value, at its offsets 0 and 4.\<close>

lemmas at_offset_0 = rotate_words_append [of "[]", simplified] swap_words_append [of "[]", simplified]
  swap_byte_pairs_append [of "[]", simplified] swap_bytes_append [of "[]", simplified]

lemma at_offset_4:
  "rotate_words_at 4 [p, q, r, s, a, b, c, d] = [p, q, r, s, c, d, a, b]"
  "swap_words_at 4 [p, q, r, s, a, b, c, d] = Inr [p, q, r, s, c, d, a, b]"
  "swap_bytes_at 2 [p, q, a, b] = [p, q, b, a]"
  using swap_bytes_append [of "[p, q]" a b "[]"]
    rotate_words_append [of "[p, q, r, s]" a b c d "[]"] swap_words_append [of "[p, q, r, s]" a b c d "[]"]
  by (simp_all add: eval_nat_numeral)

lemmas loop_simps = stepped_small [simplified] at_offset_0 at_offset_4

lemma encoder_orders:
  "applyByteOrderToBuffer buf BIG_ENDIAN = buf"
  "applyByteOrderToBuffer [a, b] LITTLE_ENDIAN = [b, a]"
  "applyByteOrderToBuffer [a, b, c, d] LITTLE_ENDIAN = [b, a, d, c]"
  "applyByteOrderToBuffer [a, b, c, d] BIG_ENDIAN_SWAP = [c, d, a, b]"
  "applyByteOrderToBuffer [a, b, c, d, e, f, g, h] BIG_ENDIAN_SWAP = [c, d, a, b, g, h, e, f]"
  "applyByteOrderToBuffer [a, b, c, d] LITTLE_ENDIAN_SWAP = [b, a, d, c]"
  by (simp_all add: applyByteOrderToBuffer_def loop_simps)

lemma decoder_orders:
  "applyByteOrder BIG_ENDIAN buf = Inr buf"
  "applyByteOrder LITTLE_ENDIAN buf = Inr (rev buf)"
  "applyByteOrder BIG_ENDIAN_SWAP [a, b, c, d] = Inr [c, d, a, b]"
  "applyByteOrder BIG_ENDIAN_SWAP [a, b, c, d, e, f, g, h] = Inr [c, d, a, b, g, h, e, f]"
  "applyByteOrder LITTLE_ENDIAN_SWAP [a, b, c, d] = Inr [c, d, a, b]"
  by (simp_all add: applyByteOrder_def loop_simps)

lemma applyByteOrder_inverse:
  assumes "orders_agree bo (length buf)"
  shows "applyByteOrder bo (applyByteOrderToBuffer buf bo) = Inr buf"
  using assms unfolding orders_agree_def
  by (auto simp: list_length_numerals encoder_orders decoder_orders)

lemma length_fold_bytes:
  "(\<And>i b. length (f i b) = length b) \<Longrightarrow> length (fold f is b) = length b"
  by (induction "is" arbitrary: b) auto

lemma length_buffer_order [simp]: "length (applyByteOrderToBuffer buf bo) = length buf"
  by (cases bo)
     (simp_all add: applyByteOrderToBuffer_def length_fold_bytes rotate_words_at_def swap_bytes_at_def
       swap_byte_pairs_at_def Let_def)

section \<open>Registers and bytes\<close>

lemma buffer_registers_inverse:
  "even (length buf) \<Longrightarrow>
   \<exists>rs. buffer_registers buf = Inr rs \<and> length rs = length buf div 2 \<and> registers_to_buffer rs = buf"
proof (induction buf rule: buffer_registers.induct)
  case (3 b0 b1 bs)
  then obtain rs where rs: "buffer_registers bs = Inr rs" "length rs = length bs div 2"
    "registers_to_buffer rs = bs" by auto
  obtain n where n: "n = be_nat [b0, b1]" by simp
  have "n < 65536" using be_nat_less [of "[b0, b1]"] by (simp add: n)
  then have "unat (word_of_nat n :: register) = n" by (simp add: unat_of_nat)
  moreover have "be_bytes 2 n = [b0, b1]" using be_bytes_nat [of "[b0, b1]"] by (simp add: n numeral_2_eq_2)
  ultimately show ?case using rs unfolding n by (simp add: registers_to_buffer_def)
qed (auto simp: registers_to_buffer_def)

lemma encode_decode:
  assumes "writeEncodedValue (replicate (getRegisterCount dt * 2) 0) dt raw = Inr buf"
    and "length buf = getRegisterCount dt * 2" and "orders_agree bo (length buf)"
  shows "\<exists>regs. encodeRegisters raw bo dt = Inr regs \<and> length regs = getRegisterCount dt \<and>
           new_decoder regs bo = Inr \<lparr>buffer = buf, position = 0, byteOrder = bo\<rparr>"
proof -
  let ?b = "applyByteOrderToBuffer buf bo"
  have "even (length ?b)" using assms(2) by simp
  from buffer_registers_inverse [OF this] obtain rs where
    rs: "buffer_registers ?b = Inr rs" "length rs = length ?b div 2" "registers_to_buffer rs = ?b" by blast
  then show ?thesis
    using assms applyByteOrder_inverse [OF assms(3)] by (simp add: encodeRegisters_def new_decoder_def)
qed

section \<open>Integers\<close>

fun int_range :: "register_data_type \<Rightarrow> (int \<times> int) option" where
  "int_range UINT16 = Some (0, 65535)"
| "int_range INT16 = Some (-32768, 32767)"
| "int_range UINT32 = Some (0, 4294967295)"
| "int_range INT32 = Some (-2147483648, 2147483647)"
| "int_range _ = None"

lemma whole_bounds:
  "(of_int n :: rat) < 0 \<longleftrightarrow> n < 0"
  "(256 ^ k - 1 < (of_int n :: rat)) \<longleftrightarrow> 256 ^ k - 1 < n"
  "(2 * (of_int n :: rat) < - (256 ^ k)) \<longleftrightarrow> 2 * n < - (256 ^ k)"
  "(256 ^ k - 2 < 2 * (of_int n :: rat)) \<longleftrightarrow> 256 ^ k - 2 < 2 * n"
proof -
  have c: "(of_int (256 ^ k - 1) :: rat) = 256 ^ k - 1" "(of_int (256 ^ k - 2) :: rat) = 256 ^ k - 2"
    "(of_int (2 * n) :: rat) = 2 * of_int n" "(of_int (- (256 ^ k)) :: rat) = - (256 ^ k)" by simp_all
  show "(of_int n :: rat) < 0 \<longleftrightarrow> n < 0" by simp
  show "(256 ^ k - 1 < (of_int n :: rat)) \<longleftrightarrow> 256 ^ k - 1 < n" by (simp only: c(1) [symmetric] of_int_less_iff)
  show "(2 * (of_int n :: rat) < - (256 ^ k)) \<longleftrightarrow> 2 * n < - (256 ^ k)"
    by (simp only: c(3,4) [symmetric] of_int_less_iff)
  show "(256 ^ k - 2 < 2 * (of_int n :: rat)) \<longleftrightarrow> 256 ^ k - 2 < 2 * n"
    by (simp only: c(2,3) [symmetric] of_int_less_iff)
qed

lemma write_uint_whole:
  "write_uint k (js_int n) (replicate k 0) 0 =
     (if 0 \<le> n \<and> n < 256 ^ k then Inr (be_bytes k (nat n)) else Inl ERR_OUT_OF_RANGE)"
  by (auto simp: js_int_def whole_bounds splice_def)

lemma write_int_whole:
  "write_int k (js_int n) (replicate k 0) 0 =
     (if - (256 ^ k) \<le> 2 * n \<and> 2 * n < 256 ^ k - 1 then Inr (be_bytes k (of_signed k n)) else Inl ERR_OUT_OF_RANGE)"
  by (auto simp: js_int_def whole_bounds splice_def)

lemma read_uint_bytes: "read_uint k (be_bytes k n) 0 = Inr (n mod 256 ^ k)"
  by (simp add: read_uint_def be_nat_bytes)

lemma read_int_bytes:
  "- (256 ^ k) \<le> 2 * i \<Longrightarrow> 2 * i < 256 ^ k \<Longrightarrow> read_int k (be_bytes k (of_signed k i)) 0 = Inr i"
  by (simp add: read_int_def read_uint_bytes to_of_signed)

lemma decode_int_simps:
  fixes bo bs
  defines "d \<equiv> \<lparr>buffer = bs, position = 0, byteOrder = bo\<rparr>"
  shows "fst (decodeUint16 d) = of_buffer (map_sum id (\<lambda>n. js_int (int n)) (read_uint 2 bs 0))"
    and "fst (decodeInt16 d) = of_buffer (map_sum id js_int (read_int 2 bs 0))"
    and "fst (decodeUint32 d) = of_buffer (map_sum id (\<lambda>n. js_int (int n)) (read_uint 4 bs 0))"
    and "fst (decodeInt32 d) = of_buffer (map_sum id js_int (read_int 4 bs 0))"
    and "fst (decodeFloat32 d) = of_buffer (read_float bs 0)"
    and "fst (decodeFloat64 d) = of_buffer (read_double bs 0)"
    and "fst (decode4QPowerFactor d) = of_buffer (map_sum id power_factor (read_float bs 0))"
  by (simp_all add: d_def decodeUint16_def decodeInt16_def decodeUint32_def decodeInt32_def
      decodeFloat32_def decodeFloat64_def decode4QPowerFactor_def mapresC_def bindC_def decode_step_def
      split: sum.splits)

text \<open>What is stored for an integer, and what it decodes to.\<close>

lemma write_integer:
  assumes "int_range dt = Some (lo, hi)"
  shows "writeEncodedValue (replicate (getRegisterCount dt * 2) 0) dt (js_int n) =
     (if lo \<le> n \<and> n \<le> hi
      then Inr (be_bytes (getRegisterCount dt * 2) (of_signed (getRegisterCount dt * 2) n))
      else Inl ERR_OUT_OF_RANGE)"
  using assms by (cases dt) (auto simp: writeEncodedValue_def write_uint_whole write_int_whole of_signed_def)

lemma of_signed_nonneg: "0 \<le> n \<Longrightarrow> n < 256 ^ k \<Longrightarrow> of_signed k n = nat n"
  by (simp add: of_signed_def)

lemma decode_integer:
  assumes "int_range dt = Some (lo, hi)" "lo \<le> n" "n \<le> hi"
    and "new_decoder regs bo =
      Inr \<lparr>buffer = be_bytes (getRegisterCount dt * 2) (of_signed (getRegisterCount dt * 2) n),
           position = 0, byteOrder = bo\<rparr>"
  shows "decodeRegisters regs bo dt = Inr (js_int n)"
  using assms
  by (cases dt)
     (auto simp: decodeRegisters_def decode_int_simps read_uint_bytes read_int_bytes of_signed_nonneg)

lemma integer_roundtrip:
  assumes "int_range dt = Some (lo, hi)" "lo \<le> n" "n \<le> hi"
    and "orders_agree bo (getRegisterCount dt * 2)"
  shows "\<exists>regs. encodeRegisters (js_int n) bo dt = Inr regs \<and> length regs = getRegisterCount dt \<and>
           decodeRegisters regs bo dt = Inr (js_int n)"
proof -
  have "writeEncodedValue (replicate (getRegisterCount dt * 2) 0) dt (js_int n) =
    Inr (be_bytes (getRegisterCount dt * 2) (of_signed (getRegisterCount dt * 2) n))"
    using write_integer [OF assms(1)] assms(2,3) by simp
  from encode_decode [OF this, of bo] assms(4) obtain regs where
    "encodeRegisters (js_int n) bo dt = Inr regs" "length regs = getRegisterCount dt"
    "new_decoder regs bo =
      Inr \<lparr>buffer = be_bytes (getRegisterCount dt * 2) (of_signed (getRegisterCount dt * 2) n),
           position = 0, byteOrder = bo\<rparr>"
    by auto
  with decode_integer [OF assms(1-3)] show ?thesis by blast
qed

text \<open>
  C32: For the four integer types and every byte order on which the two halves of the codec agree,
  each value of the type's range is encoded into exactly the type's number of registers, and
  decoding those registers gives the value back.
\<close>

theorem codec_integer_roundtrip:
  assumes "int_range dt = Some (lo, hi)" "lo \<le> n" "n \<le> hi"
    and "orders_agree bo (getRegisterCount dt * 2)"
  shows "\<exists>regs. encodeRegisters (js_int n) bo dt = Inr regs \<and> length regs = getRegisterCount dt \<and>
           decodeRegisters regs bo dt = Inr (js_int n)"
  by (rule integer_roundtrip [OF assms])

lemma codec_integer_roundtrip_witness:
  "\<exists>regs. encodeRegisters (js_int (-5)) BIG_ENDIAN_SWAP INT32 = Inr regs \<and> length regs = 2 \<and>
     decodeRegisters regs BIG_ENDIAN_SWAP INT32 = Inr (js_int (-5))"
  using codec_integer_roundtrip [of INT32 "-2147483648" 2147483647 "-5" BIG_ENDIAN_SWAP]
  by (simp add: orders_agree_def)

text \<open>
  An integer outside the type's range is never truncated or wrapped into registers: encoding
  rejects it with the range error, and encoding succeeds on every integer inside the range.
\<close>

theorem codec_integer_rejects:
  assumes "int_range dt = Some (lo, hi)"
  shows "encodeRegisters (js_int n) bo dt = Inl Range_Error \<longleftrightarrow> n < lo \<or> hi < n"
proof (cases "lo \<le> n \<and> n \<le> hi")
  case True
  let ?b = "be_bytes (getRegisterCount dt * 2) (of_signed (getRegisterCount dt * 2) n)"
  obtain rs where "buffer_registers (applyByteOrderToBuffer ?b bo) = Inr rs"
    using buffer_registers_inverse [of "applyByteOrderToBuffer ?b bo"] by auto
  with True show ?thesis by (auto simp: encodeRegisters_def write_integer [OF assms])
next
  case False
  then show ?thesis by (auto simp: encodeRegisters_def write_integer [OF assms])
qed

lemma codec_integer_rejects_witness: "encodeRegisters (js_int 65536) LITTLE_ENDIAN UINT16 = Inl Range_Error"
  by (rule iffD2 [OF codec_integer_rejects [of UINT16 0 65535]]) simp_all

section \<open>Floats\<close>

text \<open>
  A FLOAT32 register pair holds the single-precision rounding of the value written (infinities
  and NaN included), and a FLOAT64 quadruple holds every double exactly: decoding returns it.
\<close>

theorem codec_float_roundtrip:
  assumes "orders_agree bo 4" "orders_agree bo 8"
    and "y \<in> {NaN, Infinity, NegInfinity} \<or> y \<in> range fl64"
  shows "(\<exists>regs. encodeRegisters x bo FLOAT32 = Inr regs \<and> length regs = 2 \<and>
            decodeRegisters regs bo FLOAT32 = Inr (js_fround x)) \<and>
         (\<exists>regs. encodeRegisters y bo FLOAT64 = Inr regs \<and> length regs = 4 \<and>
            decodeRegisters regs bo FLOAT64 = Inr y)"
proof
  have "writeEncodedValue (replicate (getRegisterCount FLOAT32 * 2) 0) FLOAT32 x =
    Inr (be_bytes 4 (bits_of_float 24 8 (js_fround x)))"
    by (simp add: writeEncodedValue_def write_float_def splice_def)
  from encode_decode [OF this, of bo] assms(1)
  show "\<exists>regs. encodeRegisters x bo FLOAT32 = Inr regs \<and> length regs = 2 \<and>
           decodeRegisters regs bo FLOAT32 = Inr (js_fround x)"
    by (auto simp: decodeRegisters_def decode_int_simps read_float_stored stored_single)
next
  have "writeEncodedValue (replicate (getRegisterCount FLOAT64 * 2) 0) FLOAT64 y =
    Inr (be_bytes 8 (bits_of_float 53 11 y))"
    by (simp add: writeEncodedValue_def write_double_def splice_def)
  from encode_decode [OF this, of bo] assms(2) stored_double [OF assms(3)]
  show "\<exists>regs. encodeRegisters y bo FLOAT64 = Inr regs \<and> length regs = 4 \<and>
           decodeRegisters regs bo FLOAT64 = Inr y"
    by (auto simp: decodeRegisters_def decode_int_simps read_double_stored)
qed

lemma codec_float_roundtrip_witness:
  "\<exists>regs. encodeRegisters (Fin 1.5) BIG_ENDIAN_SWAP FLOAT32 = Inr regs \<and> length regs = 2 \<and>
     decodeRegisters regs BIG_ENDIAN_SWAP FLOAT32 = Inr (js_fround (Fin 1.5))"
  using codec_float_roundtrip [of BIG_ENDIAN_SWAP NaN "Fin 1.5"] by (simp add: orders_agree_def)

section \<open>Where the halves disagree\<close>

lemma be_bytes_four:
  obtains a b c d where "be_bytes 4 n = [a, b, c, d]"
  using length_be_bytes [of 4 n] by (metis list_length_numerals(2))

lemma be_nat_four: "be_nat [a, b, c, d] = be_nat [a, b] * 65536 + be_nat [c, d]"
  by (simp add: be_nat_def)

lemma be_nat_two_less: "be_nat [a, b] < 65536"
  using be_nat_less [of "[a, b]"] by simp

text \<open>
  On LITTLE_ENDIAN the encoder swaps the bytes inside each register while the decoder reverses
  the whole buffer, so a UINT32 written and read back comes back with its 16-bit words exchanged.
\<close>

theorem little_endian_words_exchanged:
  assumes "0 \<le> n" "n < 4294967296"
  shows "\<exists>regs. encodeRegisters (js_int n) LITTLE_ENDIAN UINT32 = Inr regs \<and>
           decodeRegisters regs LITTLE_ENDIAN UINT32 = Inr (js_int (n mod 65536 * 65536 + n div 65536))"
proof -
  define m where "m = nat n"
  obtain a b c d where bs: "be_bytes 4 m = [a, b, c, d]" by (rule be_bytes_four)
  have "be_nat (be_bytes 4 m) = m" using be_nat_bytes [of 4 m] assms by (simp add: m_def)
  then have m: "m = be_nat [a, b] * 65536 + be_nat [c, d]" unfolding bs be_nat_four by simp
  have parts: "m div 65536 = be_nat [a, b]" "m mod 65536 = be_nat [c, d]"
    using be_nat_two_less [of c d] by (simp_all add: m)
  have w: "writeEncodedValue (replicate 4 0) UINT32 (js_int n) = Inr [a, b, c, d]"
    using write_integer [of UINT32 0 4294967295 n] assms bs by (simp add: m_def of_signed_def)
  obtain rs where rs: "buffer_registers [b, a, d, c] = Inr rs" "registers_to_buffer rs = [b, a, d, c]"
    using buffer_registers_inverse [of "[b, a, d, c]"] by auto
  then have "decodeRegisters rs LITTLE_ENDIAN UINT32 = Inr (js_int (int (be_nat [c, d, a, b])))"
    by (simp add: decodeRegisters_def new_decoder_def decoder_orders decode_int_simps read_uint_def)
  moreover have "int (be_nat [c, d, a, b]) = n mod 65536 * 65536 + n div 65536"
  proof -
    have "int (be_nat [c, d, a, b]) = int (m mod 65536) * 65536 + int (m div 65536)"
      by (simp only: be_nat_four parts of_nat_add of_nat_mult of_nat_numeral)
    then show ?thesis using assms by (simp add: m_def zmod_int zdiv_int)
  qed
  ultimately show ?thesis using w rs by (auto simp: encodeRegisters_def encoder_orders)
qed

lemma little_endian_words_exchanged_witness:
  "\<exists>regs. encodeRegisters (js_int 1) LITTLE_ENDIAN UINT32 = Inr regs \<and>
     decodeRegisters regs LITTLE_ENDIAN UINT32 = Inr (js_int 65536)"
  using little_endian_words_exchanged [of 1] by simp

end
