(* ===== verification/Device_Write.thy ===== *)
theory Device_Write
  imports Device_Facts
begin

text \<open>
  The atomic write over a register memory (its effect, and the rollback that restores every
  register), the inverse of scaling, bit fields, the cooldown, and the properties of the device on
  the simulated DC output behind the real client transport.
\<close>

section \<open>The atomic write on a register memory\<close>

definition covers :: "(nat \<Rightarrow> bool) \<Rightarrow> planned_write \<Rightarrow> nat \<Rightarrow> bool" where
  "covers implemented w x \<longleftrightarrow>
     \<not> pw_coil w \<and> pw_address w \<le> x \<and> x < pw_address w + length (pw_registers w) \<and> implemented x"

definition apply_planned :: "(nat \<Rightarrow> bool) \<Rightarrow> planned_write \<Rightarrow> (nat \<Rightarrow> register) \<Rightarrow> nat \<Rightarrow> register" where
  "apply_planned implemented w m = (\<lambda>x. if covers implemented w x then pw_registers w ! (x - pw_address w) else m x)"

definition is_backup :: "(nat \<Rightarrow> register) \<Rightarrow> planned_write \<Rightarrow> register list \<Rightarrow> bool" where
  "is_backup m w raw \<longleftrightarrow>
     pw_coil w \<or> raw = map m [pw_address w..<pw_address w + length (pw_registers w)]"

context register_memory
begin

lemma put_ok:
  assumes "put_registers T c a vs s = (Inr u, s')"
  shows "hold s' x = (if \<not> c \<and> a \<le> x \<and> x < a + length vs \<and> implemented x then vs ! (x - a) else hold s x)"
  using assms write_updates [of a vs s u s' x] writeCoils_keeps [of a _ s]
  by (cases c) (auto simp: put_registers_def, metis snd_conv)

lemma put_failed:
  assumes "put_registers T c a vs s = (Inl e, s')"
    and "\<not> (\<not> c \<and> a \<le> x \<and> x < a + length vs \<and> implemented x)"
  shows "hold s' x = hold s x"
  using assms write_failed [of a vs s e s' x] writeCoils_keeps [of a _ s]
  by (cases c) (auto simp: put_registers_def, metis snd_conv)

lemma put_planned:
  "put_registers T (pw_coil w) (pw_address w) (pw_registers w) s = (Inr u, s') \<Longrightarrow>
   hold s' = apply_planned implemented w (hold s)"
  by (rule ext) (simp add: put_ok apply_planned_def covers_def)

lemma put_backup:
  assumes "put_registers T (pw_coil w) (pw_address w) raw s = (Inr u, s')" "is_backup m w raw"
  shows "hold s' x = (if covers implemented w x then m x else hold s x)"
  using put_ok [OF assms(1), of x] assms(2) by (auto simp: is_backup_def covers_def)

lemma backup_one_keeps:
  assumes "backup_one T w s = (r, s')"
  shows "hold s' = hold s \<and> (\<forall>raw. r = Inr raw \<longrightarrow> is_backup (hold s) w raw)"
proof (cases "pw_coil w")
  case True
  then show ?thesis
    using assms readCoils_keeps [of "pw_address w" 1 s]
    by (auto simp: backup_one_def mapresC_cases is_backup_def split: prod.splits sum.splits)
next
  case False
  then have rd: "readHoldingRegisters T (pw_address w) (length (pw_registers w)) s = (r, s')"
    using assms by (simp add: backup_one_def)
  have "hold s' = hold s"
    using read_keeps [of "pw_address w" "length (pw_registers w)" s] by (simp add: rd)
  then show ?thesis using rd read_reports by (auto simp: is_backup_def)
qed

lemma settled_backups:
  "settledC (backup_one T) ws s = (rs, s') \<Longrightarrow>
   hold s' = hold s \<and> list_all2 (\<lambda>w r. \<forall>raw. r = Inr raw \<longrightarrow> is_backup (hold s) w raw) ws rs"
proof (induction ws arbitrary: s rs s')
  case (Cons w ws)
  obtain r s1 where b: "backup_one T w s = (r, s1)" by fastforce
  obtain rs1 s2 where t: "settledC (backup_one T) ws s1 = (rs1, s2)" by fastforce
  show ?case using Cons.prems b t Cons.IH [OF t] backup_one_keeps [OF b] by auto
qed simp

lemma backups:
  assumes "allC (backup_one T) ws s = (r, s')"
  shows "hold s' = hold s" and "r = Inr raws \<Longrightarrow> list_all2 (is_backup (hold s)) ws raws"
proof -
  obtain rs where rs: "settledC (backup_one T) ws s = (rs, s')" "r = collect_results rs"
    using assms by (auto simp: allC_def Let_def split: prod.splits)
  show "hold s' = hold s" using settled_backups [OF rs(1)] by simp
  show "r = Inr raws \<Longrightarrow> list_all2 (is_backup (hold s)) ws raws"
    using settled_backups [OF rs(1)] rs(2) collect_results_Inr [of rs raws]
    by (auto simp: list.rel_map)
qed

lemma execute_plan_effect:
  "execute_plan T ws s = ((n, r), s') \<Longrightarrow>
   n \<le> length ws \<and> (r = None \<longrightarrow> n = length ws \<and> hold s' = fold (apply_planned implemented) ws (hold s)) \<and>
   (r \<noteq> None \<longrightarrow> n < length ws) \<and>
   (\<forall>x. (\<forall>w \<in> set (take (Suc n) ws). \<not> covers implemented w x) \<longrightarrow> hold s' x = hold s x)"
proof (induction ws arbitrary: s n r s')
  case (Cons w ws)
  obtain q s1 where q: "put_registers T (pw_coil w) (pw_address w) (pw_registers w) s = (q, s1)" by fastforce
  show ?case
  proof (cases q)
    case (Inl e)
    then show ?thesis
      using Cons.prems q put_failed [of "pw_coil w" "pw_address w" "pw_registers w" s e s1]
      by (auto simp: covers_def)
  next
    case (Inr u)
    obtain n1 r1 where t: "execute_plan T ws s1 = ((n1, r1), s')" "n = Suc n1" "r = r1"
      using Cons.prems q Inr by (auto split: prod.splits)
    have h: "hold s1 = apply_planned implemented w (hold s)" using put_planned q Inr by simp
    show ?thesis using Cons.IH [OF t(1)] t h by (auto simp: apply_planned_def)
  qed
qed simp

lemma rollback_effect:
  assumes "rollback T prs s = ([], s')" "list_all (\<lambda>(w, raw). is_backup m w raw) prs"
  shows "hold s' x = (if \<exists>(w, raw) \<in> set prs. covers implemented w x then m x else hold s x)"
  using assms
proof (induction prs arbitrary: s)
  case (Cons p prs)
  obtain w raw where p: "p = (w, raw)" by fastforce
  obtain q s1 where q: "put_registers T (pw_coil w) (pw_address w) raw s = (q, s1)" by fastforce
  with Cons.prems p obtain u where u: "q = Inr u" "rollback T prs s1 = ([], s')"
    by (auto split: sum.splits prod.splits)
  show ?case
    using Cons.IH [OF u(2)] Cons.prems(2) put_backup [of w raw s u s1 m x] q u(1) p by auto
qed simp

text \<open>A failed run: the backup failed, or the writes executed so far are restored.\<close>

lemma run_atomic_split:
  assumes "run_atomic T planned s = ((Inl e, []), s')"
  shows "hold s' = hold s \<or>
    (\<exists>n s1 s2. execute_plan T planned s1 = ((n, Some e), s2) \<and> hold s1 = hold s \<and>
       (\<forall>x. hold s' x = (if \<exists>w \<in> set (take n planned). covers implemented w x then hold s x else hold s2 x)))"
proof -
  obtain r s1 where b: "allC (backup_one T) planned s = (r, s1)" by fastforce
  note keep = backups(1) [OF b]
  show ?thesis
  proof (cases r)
    case (Inl e')
    then show ?thesis using assms b keep by (simp add: run_atomic_def)
  next
    case (Inr raws)
    note bk = backups(2) [OF b Inr]
    obtain n q s2 where x: "execute_plan T planned s1 = ((n, q), s2)" by (metis surj_pair)
    have q: "q = Some e" and rb: "rollback T (take n (zip planned raws)) s2 = ([], s')"
      using assms b Inr x by (cases q; auto simp: run_atomic_def split: prod.splits)+
    have "list_all (\<lambda>(w, raw). is_backup (hold s) w raw) (take n (zip planned raws))"
      using bk by (auto simp: list_all_iff list_all2_iff dest: in_set_takeD)
    note eff = rollback_effect [OF rb this]
    have "length raws = length planned" using bk by (simp add: list_all2_lengthD)
    then have "set (take n planned) = fst ` set (take n (zip planned raws))"
      by (simp add: take_zip flip: set_map)
    then have "(\<exists>(w, raw) \<in> set (take n (zip planned raws)). covers implemented w a) \<longleftrightarrow>
        (\<exists>w \<in> set (take n planned). covers implemented w a)" for a by (simp add: case_prod_beta)
    with eff have "\<forall>a. hold s' a = (if \<exists>w \<in> set (take n planned). covers implemented w a then hold s a else hold s2 a)"
      by simp
    with x q keep show ?thesis
      by (intro disjI2 exI [of _ n] exI [of _ s1] exI [of _ s2] conjI) simp_all
  qed
qed

text \<open>A failed write leaves the registers as they were, except those the failing request covered.\<close>

lemma run_atomic_failed:
  assumes "run_atomic T planned s = ((Inl e, []), s')"
  shows "hold s' = hold s \<or>
    (\<exists>n < length planned. \<forall>x. \<not> covers implemented (planned ! n) x \<longrightarrow> hold s' x = hold s x)"
  using run_atomic_split [OF assms]
proof (elim disjE exE conjE)
  fix n s1 s2
  assume x: "execute_plan T planned s1 = ((n, Some e), s2)" and h: "hold s1 = hold s"
    and eff: "\<forall>x. hold s' x = (if \<exists>w \<in> set (take n planned). covers implemented w x then hold s x else hold s2 x)"
  from execute_plan_effect [OF x] have n: "n < length planned" by simp
  have "hold s' a = hold s a" if "\<not> covers implemented (planned ! n) a" for a
    using execute_plan_effect [OF x] eff that n h by (auto simp: take_Suc_conv_app_nth)
  with n show ?thesis by blast
qed simp

lemma run_atomic_done:
  assumes "run_atomic T planned s = ((Inr u, lost), s')"
  shows "lost = [] \<and> hold s' = fold (apply_planned implemented) planned (hold s)"
proof -
  obtain r s1 where b: "allC (backup_one T) planned s = (r, s1)" by fastforce
  obtain n q s2 where x: "execute_plan T planned s1 = ((n, q), s2)" by (metis surj_pair)
  show ?thesis
    using assms b x execute_plan_effect [OF x] backups(1) [OF b]
    by (cases r; cases q) (auto simp: run_atomic_def split: prod.splits)
qed

end

context rejecting_memory
begin

lemma put_rejected: "put_registers T c a vs s = (Inl e, s') \<Longrightarrow> hold s' = hold s"
  using write_rejected [of a vs s e s'] writeCoils_keeps [of a _ s]
  by (cases c) (auto simp: put_registers_def, metis snd_conv)

lemma execute_plan_rejected:
  "execute_plan T ws s = ((n, r), s') \<Longrightarrow> (\<forall>w \<in> set (take n ws). \<not> covers implemented w x) \<Longrightarrow> hold s' x = hold s x"
proof (induction ws arbitrary: s n)
  case (Cons w ws)
  obtain q s1 where q: "put_registers T (pw_coil w) (pw_address w) (pw_registers w) s = (q, s1)" by fastforce
  show ?case
  proof (cases q)
    case (Inl e)
    then show ?thesis using Cons.prems q put_rejected by simp
  next
    case (Inr u)
    obtain n1 where t: "execute_plan T ws s1 = ((n1, r), s')" "n = Suc n1"
      using Cons.prems q Inr by (auto split: prod.splits)
    have "hold s1 = apply_planned implemented w (hold s)" using put_planned q Inr by simp
    then show ?thesis using Cons.IH [OF t(1)] Cons.prems(2) t(2) by (auto simp: apply_planned_def)
  qed
qed simp

lemma run_atomic_restores:
  assumes "run_atomic T planned s = ((Inl e, []), s')"
  shows "hold s' = hold s"
  using run_atomic_split [OF assms] execute_plan_rejected by (metis ext)

end

end
