(* ===== verification/Device_Props.thy ===== *)
theory Device_Props
  imports Device_Write "HOL-Library.Multiset"
begin

text \<open>
  The properties of the Modbus device, over the simulated DC output behind the client transport
  where they need a device (\<open>dc_transport\<close> with any write protection, any loss schedule).
\<close>

section \<open>Lookup and order\<close>

lemma js_get_index:
  "js_get (fold index_entry l m) n =
     (case filter (\<lambda>e. t_name e = n) l of
        [] \<Rightarrow> js_get m n
      | es \<Rightarrow> Some (or_else (js_get m n) [] @ es))"
  by (induction l arbitrary: m) (auto simp: index_entry_def or_else_def split: option.splits list.splits)

lemma find_first_filter: "find_first P (filter Q xs) = find_first (\<lambda>x. Q x \<and> P x) xs"
  by (induction xs) auto

lemma find_first_hd: "find_first (\<lambda>x. True) xs = (case xs of [] \<Rightarrow> None | x # _ \<Rightarrow> Some x)"
  by (cases xs) auto

definition matches :: "'x telemetry_scheme \<Rightarrow> modbus_telemetry \<Rightarrow> bool" where
  "matches t e \<longleftrightarrow> t_name e = t_name t \<and>
     (case t_tags t of
        None \<Rightarrow> True
      | Some wanted \<Rightarrow> wanted = [] \<or> (case t_tags e of None \<Rightarrow> False | Some has \<Rightarrow> tags_include has wanted))"

text \<open>
  Looking a telemetry up through the index is the linear search it replaces: the first
  configured entry of the same name whose tags include every requested tag (any entry of the name
  when no tag is requested), with the caller's value unless it is undefined.
\<close>

theorem lookup_is_linear_search:
  "lookup_telemetry (buildTelemetryIndex l) t = map_option (with_value (t_value t)) (find_first (matches t) l)"
proof -
  let ?c = "filter (\<lambda>e. t_name e = t_name t) l"
  have idx: "js_get (buildTelemetryIndex l) (t_name t) = (if ?c = [] then None else Some ?c)"
    by (simp add: buildTelemetryIndex_def js_get_index split: list.splits)
  have pick: "pick_candidate (t_tags t) ?c = find_first (matches t) l"
  proof (cases "t_tags t = None \<or> t_tags t = Some []")
    case True
    then have m: "matches t = (\<lambda>e. t_name e = t_name t \<and> True)" by (auto simp: matches_def)
    have "pick_candidate (t_tags t) ?c = find_first (\<lambda>x. True) ?c"
      using True by (auto simp: pick_candidate_def find_first_hd)
    then show ?thesis unfolding m find_first_filter .
  next
    case False
    then obtain kv kvs where t: "t_tags t = Some (kv # kvs)" by (metis list.exhaust option.exhaust)
    have m: "matches t = (\<lambda>e. t_name e = t_name t \<and>
        (case t_tags e of None \<Rightarrow> False | Some has \<Rightarrow> tags_include has (kv # kvs)))"
      by (simp add: matches_def [abs_def] t)
    show ?thesis unfolding m t pick_candidate_def by (simp add: find_first_filter)
  qed
  show ?thesis
  proof (cases "?c = []")
    case True
    then have "find_first (matches t) l = None"
      by (auto simp: find_first_None matches_def filter_empty_conv)
    then show ?thesis using True by (simp add: lookup_telemetry_def idx)
  next
    case False
    then show ?thesis by (simp add: lookup_telemetry_def idx pick split: option.splits)
  qed
qed

abbreviation priority_of :: "modbus_telemetry \<Rightarrow> int" where
  "priority_of t \<equiv> or_else (t_priority t) 0"

text \<open>
  The write order is a permutation of the telemetries by descending priority number (an absent
  priority counts as 0), and entries of equal priority keep their order.
\<close>

theorem sortByPriority_order:
  "mset (sortByPriority ts) = mset ts \<and>
   sorted_wrt (\<lambda>a b. priority_of b \<le> priority_of a) (sortByPriority ts) \<and>
   filter (\<lambda>t. priority_of t = p) (sortByPriority ts) = filter (\<lambda>t. priority_of t = p) ts"
proof (intro conjI)
  have "sorted (map (\<lambda>t. - priority_of t) (sortByPriority ts))" by (simp add: sortByPriority_def)
  then show "sorted_wrt (\<lambda>a b. priority_of b \<le> priority_of a) (sortByPriority ts)"
    by (simp add: sorted_map)
  show "filter (\<lambda>t. priority_of t = p) (sortByPriority ts) = filter (\<lambda>t. priority_of t = p) ts"
    using sort_key_stable [of "\<lambda>t. - priority_of t" "- p" ts] by (simp add: sortByPriority_def)
qed (simp add: sortByPriority_def)

section \<open>Limits\<close>

lemma plan_groups_limit:
  "plan_groups gs = Inr ps \<Longrightarrow> w \<in> set ps \<Longrightarrow> \<not> pw_coil w \<and> length (pw_registers w) \<le> 125"
  by (induction gs arbitrary: ps)
     (auto simp: encodeGroup_def MAX_REGISTERS_PER_REQUEST_def split: sum.splits if_splits prod.splits)

text \<open>
  No request over 125 registers reaches a transport: a longer group of reads is rejected without
  touching it, a longer group of writes is rejected while planning, so every planned write fits.
\<close>

theorem requests_within_limit:
  assumes "contiguous g" "g \<noteq> []" "125 < registers_of g"
  shows "readGroupByType T cfg type stamp g s = (Inl (Batch_too_large (registers_of g)), s) \<and>
    (plan_writes ts = Inr ps \<longrightarrow> (\<forall>w \<in> set ps. length (pw_registers w) \<le> 125)) \<and>
    (encodeGroup h = Inr (a, regs) \<longrightarrow> length regs \<le> 125)"
proof (intro conjI impI ballI)
  show "readGroupByType T cfg type stamp g s = (Inl (Batch_too_large (registers_of g)), s)"
    using assms contiguous_end [OF assms(1,2)]
    by (simp add: readGroupByType_def Let_def MAX_REGISTERS_PER_REQUEST_def)
  show "length (pw_registers w) \<le> 125" if "plan_writes ts = Inr ps" "w \<in> set ps" for w
    using that plan_groups_limit by (auto simp: plan_writes_def plan_coil_def split: sum.splits)
  show "length regs \<le> 125" if "encodeGroup h = Inr (a, regs)"
    using that by (auto simp: encodeGroup_def MAX_REGISTERS_PER_REQUEST_def split: sum.splits if_splits)
qed

section \<open>Scaling\<close>

lemma writeEncoded_rounds:
  "int_range dt = Some r \<Longrightarrow> js_round raw = js_int n \<Longrightarrow>
   writeEncodedValue buf dt raw = writeEncodedValue buf dt (js_int n)"
  by (cases dt) (auto simp: writeEncodedValue_def)

text \<open>
  Writing back the value published for an integer register is the identity on the register:
  the rounding errors of the two multiplications and divisions never reach another integer, for
  every scale between 2^-900 and 2^900 in size and every offset up to 2^32 scales.
\<close>

theorem published_value_writes_back:
  assumes "int_range (registerDataType t) = Some (lo, hi)" "lo \<le> n" "n \<le> hi"
    and "orders_agree (t_byteOrder t) (register_count t * 2)"
    and "t_scale t = Fin s" "t_offset t = Fin b"
    and "2 powi (-900) \<le> \<bar>s\<bar>" "\<bar>s\<bar> \<le> 2 powi 900" "\<bar>b\<bar> \<le> 2 ^ 32 * \<bar>s\<bar>"
    and "t_value t = JNum (js_scale (t_scale t) (t_offset t) (js_int n))"
  shows "\<exists>regs. encode_loop [t] = Inr regs \<and>
    decodeRegisters regs (t_byteOrder t) (registerDataType t) = Inr (js_int n)"
proof -
  have "\<bar>n\<bar> \<le> 2 ^ 32" using assms(1-3) by (cases "registerDataType t") auto
  from unscale_scale [OF assms(7,8) this assms(9)] have "js_round (raw_value t) = js_int n"
    unfolding raw_value_def assms(5,6,10) to_number.simps .
  then have "encodeRegisters (raw_value t) (t_byteOrder t) (registerDataType t) =
      encodeRegisters (js_int n) (t_byteOrder t) (registerDataType t)"
    by (simp only: encodeRegisters_def writeEncoded_rounds [OF assms(1)])
  moreover obtain regs where
    "encodeRegisters (js_int n) (t_byteOrder t) (registerDataType t) = Inr regs"
    "decodeRegisters regs (t_byteOrder t) (registerDataType t) = Inr (js_int n)"
    using integer_roundtrip [OF assms(1-3) assms(4) [unfolded register_count_def]] by blast
  ultimately show ?thesis by simp
qed

section \<open>Bit fields\<close>

lemma extract_bits_take:
  fixes w :: "32 word"
  assumes "b + n \<le> 32"
  shows "drop_bit b (and w (push_bit b (push_bit n 1 - 1))) = take_bit n (drop_bit b w)"
proof -
  have m: "(push_bit n 1 - 1 :: 32 word) = mask n" by (simp add: mask_eq_exp_minus_1 push_bit_eq_mult)
  show ?thesis
    unfolding m by (rule bit_word_eqI) (use assms in \<open>auto simp: bit_simps\<close>)
qed

text \<open>
  The raw value of a bit field the constructor accepts is the field's slice of the combined
  word: divided by 2 to its first bit, modulo 2 to its width, also for the full 32 bits where the
  mask of the source is special-cased.
\<close>

theorem extract_bits_value:
  assumes "field_valid f"
  shows "uint (extract_bits w f) = uint w div 2 ^ nat (bitStart f) mod 2 ^ nat (bitEnd f - bitStart f + 1)"
proof -
  let ?b = "nat (bitStart f)" and ?n = "nat (bitEnd f - bitStart f + 1)"
  have b: "shift_count (bitStart f) = ?b" using assms by (simp add: field_valid_def shift_count_def)
  have "extract_bits w f = take_bit ?n (drop_bit ?b w)"
  proof (cases "bitEnd f - bitStart f + 1 = 32")
    case True
    then have "?b = 0" "?n = 32" using assms by (auto simp: field_valid_def)
    then show ?thesis using True by (simp add: extract_bits_def take_bit_word_eq_self)
  next
    case False
    then have "shift_count (bitEnd f - bitStart f + 1) = ?n" "?b + ?n \<le> 32"
      using assms by (auto simp: field_valid_def shift_count_def)
    then show ?thesis using False extract_bits_take [of ?b ?n w] by (simp add: extract_bits_def b Let_def)
  qed
  then have "uint (extract_bits w f) = take_bit ?n (drop_bit ?b (take_bit LENGTH(32) (uint w)))"
    by (simp only: unsigned_take_bit_eq unsigned_drop_bit_eq)
  also have "take_bit LENGTH(32) (uint w) = uint w"
    by (rule take_bit_int_eq_self) (use uint_lt2p [of w] in simp_all)
  finally show ?thesis by (simp only: take_bit_eq_mod drop_bit_eq_div)
qed


section \<open>The reconnect cooldown\<close>

text \<open>
  Once a disconnected device has tried to reconnect, no operation within the next ten seconds
  tries again: it fails with the cooldown error and touches neither the transport nor the time of
  the attempt. A connected device is never held back.
\<close>

theorem reconnect_cooldown:
  assumes "\<not> isConnected T (tstate d)" "10000 \<le> t1 - lastReconnectAttempt d"
    and "ensureConnected T t1 d = (r, d1)"
    and "lastReconnectAttempt d2 = lastReconnectAttempt d1" "t2 < t1 + 10000"
  shows "device_read T cfg t2 stamp items d2 =
    (if isConnected T (tstate d2)
     then on_transport (mapresC concat (allC id (read_parts T cfg stamp (items_to_read cfg items)))) d2
     else (Inl Reconnect_cooldown_active, d2))"
proof -
  have "lastReconnectAttempt d1 = t1" using assms(1-3) by (auto simp: ensureConnected_def split: prod.splits)
  then show ?thesis using assms(4,5) by (simp add: device_read_def bindC_def ensureConnected_def)
qed

section \<open>On the simulated DC output\<close>

definition dc_start :: dc_client where
  "dc_start = \<lparr>c_connected = True, reconnectAttempts = 0, far_end = (dc_defaultState, [])\<rparr>"



text \<open>
  An atomic write that succeeds applied exactly its plan, in plan order, to the holding
  registers the device implements, and logged no rollback.
\<close>

theorem writeAtomic_effect:
  assumes "writeAtomic (dc_transport wp rp dial) cfg telemetries c = ((Inr u, lost), c')"
  shows "lost = [] \<and>
    (\<exists>planned. plan_writes (sortByPriority (toModbusTelemetryList cfg telemetries)) = Inr planned \<and>
       dc_hold c' = fold (apply_planned (\<lambda>a. a < 4)) planned (dc_hold c))"
  using assms dc.run_atomic_done by (auto simp: writeAtomic_def split: sum.splits)

section \<open>Concrete runs\<close>


definition sample_point :: "string \<Rightarrow> nat \<Rightarrow> register_data_type \<Rightarrow> jsval \<Rightarrow> modbus_telemetry" where
  "sample_point name a dt v =
     \<lparr>t_name = name, t_description = '''', t_value = v, t_unit = '''', t_timestamp = '''', t_deviceId = '''',
      t_tags = None, registerAddress = a, registerTableType = HOLDING_REGISTER, registerDataType = dt,
      t_scale = Fin 1, t_offset = Fin 0, t_priority = None, t_byteOrder = BIG_ENDIAN\<rparr>"

definition sample_config :: "modbus_telemetry list \<Rightarrow> device_config" where
  "sample_config l =
     \<lparr>dev_id = ''dc1'', telemetryList = l, bitfieldConfigs = None, parallelRead = None, parallelWrite = None\<rparr>"

definition sample_request :: "string \<Rightarrow> jsval \<Rightarrow> telemetry" where
  "sample_request name v =
     \<lparr>t_name = name, t_description = '''', t_value = v, t_unit = '''', t_timestamp = '''', t_deviceId = '''', t_tags = None\<rparr>"

lemma requests_within_limit_witness:
  "readGroupByType (dc_transport None None (\<lambda>_. True)) (sample_config []) HOLDING_REGISTER ''''
     (map (\<lambda>i. sample_point ''p'' (4 * i) FLOAT64 JUndefined) [0..<32]) dc_start = (Inl (Batch_too_large 128), dc_start)"
proof -
  let ?g = "map (\<lambda>i. sample_point ''p'' (4 * i) FLOAT64 JUndefined) [0..<32]"
  have g: "contiguous ?g" "registers_of ?g = 128" by code_simp+
  from requests_within_limit [OF g(1), where T = "dc_transport None None (\<lambda>_. True)" and s = dc_start]
  show ?thesis using g(2) by simp
qed

lemma extract_bits_value_witness:
  "uint (extract_bits 0xABCD \<lparr>bitStart = 4, bitEnd = 7, f_name = '''', f_description = '''', f_unit = '''',
     f_scale = None, f_offset = None, f_tags = None, f_canonical = None\<rparr>) = 12"
  by (subst extract_bits_value) (simp_all add: field_valid_def)

lemma reconnect_cooldown_witness:
  "device_read (dc_transport None None (\<lambda>_. False)) (sample_config []) 25000 '''' None
     \<lparr>lastReconnectAttempt = 20000, tstate = dc_start\<lparr>c_connected := False, reconnectAttempts := 1\<rparr>\<rparr> =
   (Inl Reconnect_cooldown_active,
     \<lparr>lastReconnectAttempt = 20000, tstate = dc_start\<lparr>c_connected := False, reconnectAttempts := 1\<rparr>\<rparr>)"
  by (subst reconnect_cooldown [where ?t1.0 = 20000 and r = "Inl Connection_failed" and
        d = "\<lparr>lastReconnectAttempt = 0, tstate = dc_start\<lparr>c_connected := False\<rparr>\<rparr>" and
        ?d1.0 = "\<lparr>lastReconnectAttempt = 20000, tstate = dc_start\<lparr>c_connected := False, reconnectAttempts := 1\<rparr>\<rparr>"])
     (simp_all add: ensureConnected_def dc_transport_def client_transport_def client_reconnect_def
        client_connect_def cleanupSocket_def dc_start_def)

lemma dc_good_start: "dc_good dc_start"
  by (simp add: dc_good_def dc_start_def dc_defaultState_def dc_readInput_def word_of_num_def js_int_def Let_def
      js_word32_def)


lemma moderate_scale:
  assumes "1 / 16 \<le> (s::rat)" "s \<le> 16"
  shows "2 powi (-900) \<le> s" "s \<le> 2 powi 900"
proof -
  have "(2::rat) powi (-900) \<le> 2 powi (-4)" by (rule power_int_increasing) auto
  also have "\<dots> = 1 / 16" by (simp add: power_int_minus)
  finally show "2 powi (-900) \<le> s" using assms(1) by (rule order_trans)
  have "(16::rat) = 2 powi 4" by simp
  also have "\<dots> \<le> 2 powi 900" by (rule power_int_increasing) auto
  finally show "s \<le> 2 powi 900" by (rule order_trans [OF assms(2)])
qed


lemma published_value_writes_back_witness:
  "\<exists>regs. encode_loop [sample_point ''v'' 0 UINT16 (JNum (js_scale (Fin 1) (Fin 0) (js_int 1234)))] = Inr regs \<and>
    decodeRegisters regs BIG_ENDIAN UINT16 = Inr (js_int 1234)"
  using published_value_writes_back [of "sample_point ''v'' 0 UINT16 (JNum (js_scale (Fin 1) (Fin 0) (js_int 1234)))"
      0 65535 1234 1 0] moderate_scale [of 1]
  by (simp add: sample_point_def orders_agree_def register_count_def)

text \<open>A client whose requests are lost according to a schedule.\<close>

definition dc_lossy :: "bool list \<Rightarrow> dc_client" where
  "dc_lossy losses = \<lparr>c_connected = True, reconnectAttempts = 0, far_end = (dc_defaultState, losses)\<rparr>"

definition two_setpoints :: device_config where
  "two_setpoints = sample_config [sample_point ''v'' 0 UINT16 JUndefined, sample_point ''ov'' 2 UINT16 JUndefined]"

definition two_values :: "telemetry list" where
  "two_values = [sample_request ''v'' (JNum (js_int 500)), sample_request ''ov'' (JNum (js_int 600))]"

lemma encode_500_600:
  "encodeRegisters (js_int 500) BIG_ENDIAN UINT16 = Inr [500]"
  "encodeRegisters (js_int 600) BIG_ENDIAN UINT16 = Inr [600]"
  by code_simp+

lemma raw_500_600:
  "raw_value (sample_point n a UINT16 (JNum (js_int 500))) = js_int 500"
  "raw_value (sample_point n a UINT16 (JNum (js_int 600))) = js_int 600"
  by (simp_all add: raw_value_def sample_point_def js_unscale_def js_sub_Fin js_int_def)

lemma encodeGroup_500_600:
  "encodeGroup [sample_point n a UINT16 (JNum (js_int 500))] = Inr (a, [500])"
  "encodeGroup [sample_point n a UINT16 (JNum (js_int 600))] = Inr (a, [600])"
  unfolding encodeGroup_def MAX_REGISTERS_PER_REQUEST_def encode_loop.simps raw_500_600
  by (simp_all add: sample_point_def encode_500_600)

lemma two_plans:
  "plan_writes (sortByPriority (toModbusTelemetryList two_setpoints two_values)) =
     Inr [\<lparr>pw_coil = False, pw_address = 0, pw_registers = [500]\<rparr>, \<lparr>pw_coil = False, pw_address = 2, pw_registers = [600]\<rparr>]"
proof -
  let ?ts = "[sample_point ''v'' 0 UINT16 (JNum (js_int 500)), sample_point ''ov'' 2 UINT16 (JNum (js_int 600))]"
  have "toModbusTelemetryList two_setpoints two_values = ?ts"
    by (simp add: toModbusTelemetryList_def two_setpoints_def two_values_def sample_config_def sample_point_def
        sample_request_def lookup_telemetry_def buildTelemetryIndex_def index_entry_def pick_candidate_def
        with_value_def List.map_filter_def js_set_def)
  moreover have "groupByAddress (of_table HOLDING_REGISTER (sortByPriority ?ts)) = map (\<lambda>t. [t]) ?ts"
    "of_table COIL (sortByPriority ?ts) = []"
    by (simp_all add: groupByAddress_def of_table_def sortByPriority_def sample_point_def register_count_def)
  ultimately show ?thesis by (simp add: plan_writes_def encodeGroup_500_600)
qed

lemmas run_simps = writeAtomic_def two_plans run_atomic_def allC_def backup_one_def put_registers_def
  dc_call_simps client_request_def dc_wire_def dc_lossy_def dc_adapter_def reply_option_def words_reply_def


lemma writeAtomic_effect_witness:
  "dc_hold (snd (writeAtomic (dc_transport None None (\<lambda>_. True)) two_setpoints two_values (dc_lossy []))) 2 = 600"
proof -
  let ?run = "writeAtomic (dc_transport None None (\<lambda>_. True)) two_setpoints two_values (dc_lossy [])"
  have "fst ?run = (Inr (), [])" by (simp add: run_simps)
  then have "?run = ((Inr (), []), snd ?run)" by (metis prod.collapse)
  from writeAtomic_effect [OF this] show ?thesis by (auto simp: two_plans apply_planned_def covers_def)
qed

end
