(* ===== verification/Command_Types.thy ===== *)
theory Command_Types
  imports Telemetry
begin

text \<open>
  Commands, maneuvers and operations as records (packages/shared-types/src/commands), with the
  constraints of their schemas; the read-back relation of validate-expect.ts; the job builder, the
  configuration source and the registry of packages/platform/commands. Parameter values are
  primitive JavaScript values. Parsing of JSON text is outside: the model starts from parsed data.
\<close>

section \<open>Records\<close>

type_synonym params = "(string, jsval) jsmap"

record command_telemetry =
  ct_name :: string
  ct_value :: jsval
  ct_unit :: "string option"

record command_timer =
  durationMs :: jsnum
  stopCommand :: "string option"

record command_step =
  s_deviceId :: "string option"
  s_deviceIds :: "string list option"
  s_deviceTypes :: "string list option"
  s_command :: "string option"
  s_telemetries :: "command_telemetry list option"
  s_params :: "params option"
  s_timer :: "command_timer option"

datatype run_mode = Parallel | Sequential

datatype on_failure = Stop | Continue | Rollback

datatype run_kind = Maneuver | Operation

record maneuver_record =
  m_name :: string
  m_label :: string
  m_mode :: run_mode
  m_onFailure :: "on_failure option"
  m_steps :: "command_step list"
  m_rollbackSteps :: "command_step list option"

datatype operation_step =
    RemoteStep (step_system: string) (step_maneuver: string) (step_params: "params option")
  | ManeuverStep (step_maneuver: string) (step_params: "params option")
  | CommandsStep (step_commands: "command_step list") (step_mode: "run_mode option")
      (step_onFailure: "on_failure option") (step_params: "params option")

record operation_record =
  o_name :: string
  o_label :: string
  o_mode :: run_mode
  o_onFailure :: "on_failure option"
  o_steps :: "operation_step list"
  o_rollback :: "operation_step list option"

datatype run_record = MRecord maneuver_record | ORecord operation_record

section \<open>Schema constraints\<close>

text \<open>The refinements and minimum lengths of \<open>commandStepSchema\<close>.\<close>

definition nonempty_strings :: "string list \<Rightarrow> bool" where
  "nonempty_strings xs \<longleftrightarrow> xs \<noteq> [] \<and> list_all (\<lambda>s. s \<noteq> []) xs"

definition timer_ok :: "command_timer \<Rightarrow> bool" where
  "timer_ok t \<longleftrightarrow> js_less (js_int 0) (durationMs t) \<and> stopCommand t \<noteq> Some []"

definition selectors :: "command_step \<Rightarrow> nat" where
  "selectors s = length (filter id [s_deviceId s \<noteq> None, s_deviceIds s \<noteq> None, s_deviceTypes s \<noteq> None])"

definition command_step_ok :: "command_step \<Rightarrow> bool" where
  "command_step_ok s \<longleftrightarrow>
     s_deviceId s \<noteq> Some [] \<and>
     (case s_deviceIds s of None \<Rightarrow> True | Some xs \<Rightarrow> nonempty_strings xs) \<and>
     (case s_deviceTypes s of None \<Rightarrow> True | Some xs \<Rightarrow> nonempty_strings xs) \<and>
     s_command s \<noteq> Some [] \<and>
     (case s_telemetries s of None \<Rightarrow> True | Some ts \<Rightarrow> ts \<noteq> [] \<and> list_all (\<lambda>t. ct_name t \<noteq> []) ts) \<and>
     (case s_timer s of None \<Rightarrow> True | Some t \<Rightarrow> timer_ok t) \<and>
     selectors s = 1 \<and>
     (s_command s \<noteq> None \<or> s_telemetries s \<noteq> None)"

definition maneuver_ok :: "maneuver_record \<Rightarrow> bool" where
  "maneuver_ok m \<longleftrightarrow>
     m_name m \<noteq> [] \<and> m_label m \<noteq> [] \<and> m_steps m \<noteq> [] \<and> list_all command_step_ok (m_steps m) \<and>
     (case m_rollbackSteps m of None \<Rightarrow> True | Some r \<Rightarrow> r \<noteq> [] \<and> list_all command_step_ok r) \<and>
     \<not> (m_onFailure m = Some Rollback \<and> m_rollbackSteps m = None)"

definition operation_step_ok :: "operation_step \<Rightarrow> bool" where
  "operation_step_ok s \<longleftrightarrow>
     (case s of
        RemoteStep sys m p \<Rightarrow> sys \<noteq> [] \<and> m \<noteq> []
      | ManeuverStep m p \<Rightarrow> m \<noteq> []
      | CommandsStep cs md f p \<Rightarrow> cs \<noteq> [] \<and> list_all command_step_ok cs \<and> f \<noteq> Some Rollback)"

definition operation_ok :: "operation_record \<Rightarrow> bool" where
  "operation_ok r \<longleftrightarrow>
     o_name r \<noteq> [] \<and> o_label r \<noteq> [] \<and> o_steps r \<noteq> [] \<and> list_all operation_step_ok (o_steps r) \<and>
     (case o_rollback r of None \<Rightarrow> True | Some rb \<Rightarrow> rb \<noteq> [] \<and> list_all operation_step_ok rb) \<and>
     \<not> (o_onFailure r = Some Rollback \<and> o_rollback r = None)"

section \<open>Read-back validation\<close>

definition RELATION_EXPECTS :: "string list" where
  "RELATION_EXPECTS = [''negative'', ''positive'', ''zero'', ''nonzero'']"

fun isRelationExpect :: "jsval \<Rightarrow> bool" where
  "isRelationExpect (JStr s) = (s \<in> set RELATION_EXPECTS)"
| "isRelationExpect _ = False"

text \<open>\<open>includes\<close> compares numbers by SameValueZero: NaN is found.\<close>

definition expectHolds :: "jsval \<Rightarrow> jsval \<Rightarrow> jsnum list option \<Rightarrow> bool" where
  "expectHolds actual expect accept =
     (if (case (accept, actual) of (Some xs, JNum n) \<Rightarrow> n \<in> set xs | _ \<Rightarrow> False) then True
      else if \<not> isRelationExpect expect then
        (if js_strict_eq actual expect then True
         else case (expect, actual) of
                (JBool b, JNum n) \<Rightarrow>
                  if n = js_int 0 \<or> n = js_int 1 then n = (if b then js_int 1 else js_int 0) else False
              | _ \<Rightarrow> False)
      else case (actual, expect) of
             (JNum n, JStr r) \<Rightarrow>
               if r = ''negative'' then js_less n (js_int 0)
               else if r = ''positive'' then js_less (js_int 0) n
               else if r = ''zero'' then js_num_eq n (js_int 0)
               else \<not> js_num_eq n (js_int 0)
           | _ \<Rightarrow> False)"

section \<open>Device configuration and the job builder\<close>

record validate_read =
  v_name :: string
  v_expect :: jsval
  v_accept :: "jsnum list option"

record validate_spec =
  v_minWaitMs :: "jsnum option"
  v_reads :: "validate_read list"

record command_config =
  c_telemetries :: "command_telemetry list"
  c_params :: "(string, bool) jsmap option"   \<comment> \<open>each parameter with its \<open>required\<close> flag\<close>
  c_atomic :: "bool option"
  c_timeoutMs :: "jsnum option"
  c_validate :: "validate_spec option"
  c_finalize :: "(string \<times> jsnum) option"
  c_pulse :: "bool option"

record device_config_file =
  d_deviceId :: string
  d_commands :: "(string, command_config) jsmap option"

record job_validate =
  jv_minWaitMs :: "jsnum option"
  jv_timeoutMs :: jsnum
  jv_reads :: "validate_read list"

record command_job =
  j_jobId :: string
  j_deviceId :: string
  j_timestamp :: string
  j_telemetries :: "telemetry list"
  j_atomic :: bool
  j_pulse :: bool
  j_finalize :: "(string \<times> jsnum) option"
  j_validate :: "job_validate option"

text \<open>
  \<open>DeviceConfigFileSource\<close>: the directory as its files in listing order, a broken file as none.
\<close>

type_synonym config_dir = "(string \<times> device_config_file option) list"

definition file_named :: "config_dir \<Rightarrow> string \<Rightarrow> device_config_file option" where
  "file_named files path = (case js_get files path of Some (Some d) \<Rightarrow> Some d | _ \<Rightarrow> None)"

definition is_json :: "string \<Rightarrow> bool" where
  "is_json f \<longleftrightarrow> length f \<ge> 5 \<and> drop (length f - 5) f = ''.json''"

fun scan_configs :: "string \<Rightarrow> config_dir \<Rightarrow> device_config_file option" where
  "scan_configs low [] = None"
| "scan_configs low ((f, d) # rest) =
     (case d of
        Some cfg \<Rightarrow> if is_json f \<and> to_lower (d_deviceId cfg) = low then Some cfg else scan_configs low rest
      | None \<Rightarrow> scan_configs low rest)"

definition load_config :: "config_dir \<Rightarrow> string \<Rightarrow> device_config_file option" where
  "load_config files deviceId =
     (let low = to_lower deviceId in
      case file_named files (low @ ''.json'') of
        Some d \<Rightarrow> Some d
      | None \<Rightarrow>
          (case file_named files (deviceId @ ''.json'') of
             Some d \<Rightarrow> Some d
           | None \<Rightarrow> scan_configs low files))"

datatype resolution_error = Device_not_found | Command_not_found | Missing_param string

definition is_word_char :: "char \<Rightarrow> bool" where
  "is_word_char c \<longleftrightarrow>
     (let n = (of_char c :: nat)
      in 48 \<le> n \<and> n \<le> 57 \<or> 65 \<le> n \<and> n \<le> 90 \<or> n = 95 \<or> 97 \<le> n \<and> n \<le> 122)"

text \<open>\<open>/^([+-]?)\{\{(\w+)\}\}$/\<close>: whether the sign is a minus, and the name.\<close>

definition match_template :: "string \<Rightarrow> (bool \<times> string) option" where
  "match_template s =
     (let (neg, r) = (case s of c # cs \<Rightarrow> if c = CHR ''-'' then (True, cs) else if c = CHR ''+'' then (False, cs) else (False, s)
                              | [] \<Rightarrow> (False, s));
          n = length r;
          name = take (n - 4) (drop 2 r)
      in if 4 < n \<and> take 2 r = ''{{'' \<and> drop (n - 2) r = ''}}'' \<and> list_all is_word_char name
         then Some (neg, name) else None)"

definition param_value :: "params option \<Rightarrow> string \<Rightarrow> jsval" where
  "param_value ps k = (case ps of None \<Rightarrow> JUndefined | Some m \<Rightarrow> or_else (js_get m k) JUndefined)"

definition resolve_value :: "params option \<Rightarrow> jsval \<Rightarrow> jsval" where
  "resolve_value ps v =
     (case v of
        JStr s \<Rightarrow>
          (case match_template s of
             None \<Rightarrow> v
           | Some (neg, name) \<Rightarrow>
               (case (neg, param_value ps name) of
                  (True, JNum x) \<Rightarrow> JNum (js_neg x)
                | (_, p) \<Rightarrow> p))
      | _ \<Rightarrow> v)"

definition resolveTelemetries :: "command_config \<Rightarrow> params option \<Rightarrow> string \<Rightarrow> string \<Rightarrow> telemetry list" where
  "resolveTelemetries cmd ps deviceId stamp =
     map (\<lambda>t. \<lparr>t_name = ct_name t, t_description = '''', t_value = resolve_value ps (ct_value t),
                t_unit = or_else (ct_unit t) '''', t_timestamp = stamp, t_deviceId = deviceId, t_tags = None\<rparr>)
       (c_telemetries cmd)"

definition missing_param :: "command_config \<Rightarrow> params option \<Rightarrow> string option" where
  "missing_param cmd ps =
     (case c_params cmd of
        None \<Rightarrow> None
      | Some pcs \<Rightarrow> map_option fst (find_first (\<lambda>(k, required). required \<and> param_value ps k = JUndefined) pcs))"

definition build_job ::
  "(string \<Rightarrow> device_config_file option) \<Rightarrow> int \<Rightarrow> string \<Rightarrow> string \<Rightarrow> string \<Rightarrow> params option \<Rightarrow> resolution_error + command_job" where
  "build_job source now stamp deviceId commandName ps =
     (case source deviceId of
        None \<Rightarrow> Inl Device_not_found
      | Some cfg \<Rightarrow>
          (case js_get (or_else (d_commands cfg) []) commandName of
             None \<Rightarrow> Inl Command_not_found
           | Some cmd \<Rightarrow>
               (case missing_param cmd ps of
                  Some k \<Rightarrow> Inl (Missing_param k)
                | None \<Rightarrow>
                    Inr \<lparr>j_jobId = deviceId @ ''-'' @ commandName @ ''-'' @ show_int now,
                         j_deviceId = deviceId, j_timestamp = stamp,
                         j_telemetries = resolveTelemetries cmd ps deviceId stamp,
                         j_atomic = or_else (c_atomic cmd) True,
                         j_pulse = or_else (c_pulse cmd) False,
                         j_finalize = c_finalize cmd,
                         j_validate =
                           (case c_validate cmd of
                              None \<Rightarrow> None
                            | Some v \<Rightarrow>
                                Some \<lparr>jv_minWaitMs = v_minWaitMs v,
                                      jv_timeoutMs = or_else (c_timeoutMs cmd) (js_int 3000),
                                      jv_reads = v_reads v\<rparr>)\<rparr>)))"

section \<open>The registry\<close>

record definition_row =
  row_name :: string
  row_definition :: run_record
  row_enabled :: bool

record registry =
  maneuvers :: "(string, run_record) jsmap"
  operations :: "(string, run_record) jsmap"
  db_source :: "(run_kind \<Rightarrow> definition_row list) option"

datatype registry_error = Not_found | Disabled

text \<open>\<open>register\<close> throws on a name already present.\<close>

fun register_all :: "(run_record \<Rightarrow> string) \<Rightarrow> run_record list \<Rightarrow> (string, run_record) jsmap \<Rightarrow> string + (string, run_record) jsmap" where
  "register_all nm [] index = Inr index"
| "register_all nm (r # rs) index =
     (if js_has index (nm r) then Inl (nm r) else register_all nm rs (js_set (nm r) r index))"

fun record_name :: "run_record \<Rightarrow> string" where
  "record_name (MRecord m) = m_name m"
| "record_name (ORecord r) = o_name r"

definition new_registry ::
  "maneuver_record list \<Rightarrow> operation_record list \<Rightarrow> (run_kind \<Rightarrow> definition_row list) option \<Rightarrow> string + registry" where
  "new_registry ms os db =
     (case register_all record_name (map MRecord ms) [] of
        Inl e \<Rightarrow> Inl e
      | Inr mi \<Rightarrow>
          (case register_all record_name (map ORecord os) [] of
             Inl e \<Rightarrow> Inl e
           | Inr oi \<Rightarrow> Inr \<lparr>maneuvers = mi, operations = oi, db_source = db\<rparr>))"

definition file_index :: "registry \<Rightarrow> run_kind \<Rightarrow> (string, run_record) jsmap" where
  "file_index reg kind = (case kind of Maneuver \<Rightarrow> maneuvers reg | Operation \<Rightarrow> operations reg)"

definition resolve_record :: "registry \<Rightarrow> run_kind \<Rightarrow> string \<Rightarrow> registry_error + run_record" where
  "resolve_record reg kind name =
     (case (case db_source reg of
              None \<Rightarrow> None
            | Some rows \<Rightarrow> find_first (\<lambda>r. row_name r = name) (rows kind)) of
        Some row \<Rightarrow> if row_enabled row then Inr (row_definition row) else Inl Disabled
      | None \<Rightarrow>
          (case js_get (file_index reg kind) name of None \<Rightarrow> Inl Not_found | Some r \<Rightarrow> Inr r))"

definition list_records :: "registry \<Rightarrow> run_kind \<Rightarrow> run_record list" where
  "list_records reg kind =
     (let dbAll = (case db_source reg of None \<Rightarrow> [] | Some rows \<Rightarrow> rows kind);
          dbNames = map row_name dbAll
      in map row_definition (filter row_enabled dbAll) @
         map snd (filter (\<lambda>(k, r). record_name r \<notin> set dbNames) (file_index reg kind)))"

section \<open>Facts\<close>

lemma register_all_Inr:
  "register_all nm rs index = Inr index' \<Longrightarrow> (\<forall>(k, r) \<in> set index. nm r = k) \<Longrightarrow> wf_map index \<Longrightarrow>
   wf_map index' \<and> (\<forall>(k, r) \<in> set index'. nm r = k)"
proof (induction rs arbitrary: index)
  case (Cons r rs)
  have "\<forall>(k, x) \<in> set (js_set (nm r) r index). nm x = k"
    using Cons.prems(2,3) by (auto simp: js_get_in_set [symmetric] wf_map_set split: if_splits dest!: map_of_SomeD)
  then show ?case using Cons by (auto split: if_splits)
qed auto

lemma find_first_unique:
  "distinct (map f xs) \<Longrightarrow> x \<in> set xs \<Longrightarrow> find_first (\<lambda>y. f y = f x) xs = Some x"
  by (induction xs) (auto simp: image_iff)

end
