(* ===== verification/Operation_Executor.thy ===== *)
theory Operation_Executor
  imports Command_Types
begin

text \<open>
  \<open>OperationExecutor\<close> (packages/platform/commands/src/operation-executor.ts). Its dependencies (the
  command channel, the target resolver, the run store, the remote channel, the precondition hook)
  are the fields of \<open>exec_env\<close>: computations over a world of any type, which may reject. The
  executor's own state is the world, the audit trail and the two arrays a step list fills. Calls
  under \<open>Promise.allSettled\<close> run atomically in the order \<open>completion n\<close>, any order of the \<open>n\<close> calls;
  a remote call is given its limit in milliseconds and answers none when the limit passes first
  (only for a positive limit: without one the code waits for ever).
\<close>

record resolved_step =
  r_deviceId :: string
  r_command :: "string option"
  r_telemetries :: "command_telemetry list option"
  r_params :: "params option"
  r_timer :: "command_timer option"

record step_outcome =
  oc_stepIndex :: nat
  oc_system :: "string option"
  oc_maneuver :: "string option"
  oc_deviceId :: "string option"
  oc_command :: "string option"
  oc_success :: bool
  oc_reason :: "string option"

datatype run_status = Completed | Failed | Rolled_back | Rejected

record run_draft =
  draft_id :: string
  draft_kind :: run_kind
  draft_name :: string
  draft_trigger :: string
  draft_createdBy :: string
  draft_traceId :: "string option"
  draft_startedAt :: string
  draft_definition :: run_record
  draft_params :: params
  draft_remoteSystem :: "string option"

record run_result =
  rr_runId :: string
  rr_kind :: run_kind
  rr_name :: string
  rr_status :: run_status
  rr_outcomes :: "step_outcome list"
  rr_reason :: "string option"

record execute_options =
  x_deviceIds :: "string list option"
  x_trigger :: "string option"
  x_createdBy :: "string option"
  x_traceId :: "string option"
  x_timerSeconds :: "jsnum option"
  x_remoteSystem :: "string option"
  x_remoteTimeoutMs :: "jsnum option"

record audit_event =
  a_code :: string
  a_level :: string
  a_context :: "(string \<times> jsval) list"

record 'w xstate =
  world :: 'w
  audits :: "audit_event list"
  outs :: "step_outcome list"
  succeeded :: "string list"

type_synonym ('w, 'a) xcomp = "('w xstate, string, 'a) comp"

record 'w exec_env =
  e_registry :: registry
  filterAvailable :: "string list \<Rightarrow> ('w, string, string list) comp"
  resolveAvailable :: "string \<Rightarrow> ('w, string, string list) comp"
  ch_execute :: "resolved_step \<Rightarrow> ('w, string, bool \<times> string option) comp"
  ch_schedule :: "resolved_step \<Rightarrow> jsnum \<Rightarrow> ('w, string, unit) comp"
  run_begin :: "run_draft \<Rightarrow> ('w, string, unit) comp"
  run_finish :: "string \<Rightarrow> run_status \<Rightarrow> string \<Rightarrow> ('w, string, unit) comp"
  remote_execute :: "(string \<Rightarrow> string \<Rightarrow> params \<Rightarrow> jsnum option \<Rightarrow> jsnum \<Rightarrow> ('w, string, (bool \<times> string option) option) comp) option"
  precondition :: "(run_kind \<Rightarrow> string \<Rightarrow> params \<Rightarrow> ('w, string, string option) comp) option"
  completion :: "nat \<Rightarrow> nat list"

section \<open>Basic steps\<close>

definition in_world :: "('w, string, 'a) comp \<Rightarrow> ('w, 'a) xcomp" where
  "in_world m s = (case m (world s) of (r, w) \<Rightarrow> (r, s\<lparr>world := w\<rparr>))"

definition audit :: "string \<Rightarrow> string \<Rightarrow> (string \<times> jsval) list \<Rightarrow> 'w xstate \<Rightarrow> 'w xstate" where
  "audit code level ctx s = s\<lparr>audits := audits s @ [\<lparr>a_code = code, a_level = level, a_context = ctx\<rparr>]\<rparr>"

definition opt_str :: "string option \<Rightarrow> jsval" where
  "opt_str x = (case x of None \<Rightarrow> JUndefined | Some s \<Rightarrow> JStr s)"

definition push_outcome :: "step_outcome \<Rightarrow> 'w xstate \<Rightarrow> 'w xstate" where
  "push_outcome oc s = s\<lparr>outs := outs s @ [oc]\<rparr>"

text \<open>The calls in the order in which they complete.\<close>

definition in_order :: "'w exec_env \<Rightarrow> 'a list \<Rightarrow> 'a list" where
  "in_order env xs = map (\<lambda>i. xs ! i) (completion env (length xs))"

section \<open>Resolution\<close>

definition intersect :: "string list \<Rightarrow> string list option \<Rightarrow> string list" where
  "intersect xs group_ids = (case group_ids of None \<Rightarrow> xs | Some g \<Rightarrow> filter (\<lambda>i. i \<in> set g) xs)"

text \<open>\<open>[...new Set(list)]\<close>: first occurrences.\<close>

definition js_unique :: "'a list \<Rightarrow> 'a list" where
  "js_unique xs = rev (remdups (rev xs))"

definition DIVIDE_TOTAL :: jsval where
  "DIVIDE_TOTAL = JStr ''{{divideTotal}}''"

definition divide_entry :: "params \<Rightarrow> nat \<Rightarrow> string \<times> jsval \<Rightarrow> (string \<times> jsval) option" where
  "divide_entry executeParams count kv =
     (case kv of (k, v) \<Rightarrow>
        if v = DIVIDE_TOTAL
        then (case js_get executeParams k of
                Some (JNum tot) \<Rightarrow>
                  if count = 0 then None
                  else Some (k, JNum (js_floor (js_div tot (js_int (int count)))))
              | _ \<Rightarrow> None)
        else Some (k, v))"

definition applyDivideTotal :: "params option \<Rightarrow> params \<Rightarrow> nat \<Rightarrow> params option" where
  "applyDivideTotal stepParams executeParams count =
     (case stepParams of
        None \<Rightarrow> None
      | Some ps \<Rightarrow> Some (List.map_filter (divide_entry executeParams count) ps))"

definition divide_params_ok :: "params \<Rightarrow> params option \<Rightarrow> bool" where
  "divide_params_ok executeParams stepParams \<longleftrightarrow>
     list_all (\<lambda>(k, v). \<not> (v = DIVIDE_TOTAL \<and> \<not> (case js_get executeParams k of Some (JNum n) \<Rightarrow> True | _ \<Rightarrow> False)))
       (or_else stepParams [])"

text \<open>
  The steps \<open>validateDivideTotal\<close> looks at: those of a maneuver with a \<open>rollbackSteps\<close> key, the raw
  command steps of an operation; a maneuver without the key is treated as an operation, whose steps
  have no \<open>commands\<close>.
\<close>

definition divide_steps :: "run_record \<Rightarrow> params option list" where
  "divide_steps rec =
     (case rec of
        MRecord m \<Rightarrow> if m_rollbackSteps m \<noteq> None then map s_params (m_steps m) else []
      | ORecord r \<Rightarrow>
          concat (map (\<lambda>st. case st of CommandsStep cs md f p \<Rightarrow> map s_params cs | _ \<Rightarrow> []) (o_steps r)))"

definition validateDivideTotal :: "run_record \<Rightarrow> params \<Rightarrow> bool" where
  "validateDivideTotal rec executeParams \<longleftrightarrow> list_all (divide_params_ok executeParams) (divide_steps rec)"

definition target_ids :: "'w exec_env \<Rightarrow> command_step \<Rightarrow> string list option \<Rightarrow> ('w, string list) xcomp" where
  "target_ids env step group_ids =
     (case s_deviceId step of
        Some d \<Rightarrow> returnC [d]
      | None \<Rightarrow>
          (case s_deviceIds step of
             Some ds \<Rightarrow> mapresC (\<lambda>av. intersect av group_ids) (in_world (filterAvailable env ds))
           | None \<Rightarrow>
               mapresC (\<lambda>avs. intersect (js_unique (concat avs)) group_ids)
                 (allC (\<lambda>t. in_world (resolveAvailable env t)) (or_else (s_deviceTypes step) []))))"

definition resolveStep ::
  "'w exec_env \<Rightarrow> params \<Rightarrow> string list option \<Rightarrow> command_timer option \<Rightarrow> command_step \<Rightarrow> ('w, resolved_step list) xcomp" where
  "resolveStep env executeParams group_ids defaultTimer step =
     mapresC (\<lambda>ids.
         map (\<lambda>d. \<lparr>r_deviceId = d, r_command = s_command step, r_telemetries = s_telemetries step,
                    r_params = applyDivideTotal (s_params step) executeParams (length ids),
                    r_timer = (case s_timer step of Some t \<Rightarrow> Some t | None \<Rightarrow> defaultTimer)\<rparr>) ids)
       (target_ids env step group_ids)"

section \<open>Step lists\<close>

definition scheduleTimer :: "'w exec_env \<Rightarrow> resolved_step \<Rightarrow> 'w xstate \<Rightarrow> 'w xstate" where
  "scheduleTimer env step s =
     (case r_timer step of
        None \<Rightarrow> s
      | Some t \<Rightarrow>
          let stop_command = or_else (stopCommand t) ''stop'';
              stopStep = \<lparr>r_deviceId = r_deviceId step, r_command = Some stop_command, r_telemetries = None,
                          r_params = None, r_timer = None\<rparr>
          in case in_world (ch_schedule env stopStep (durationMs t)) s of
               (Inr _, s') \<Rightarrow> audit ''timer_scheduled'' ''info''
                 [(''deviceId'', JStr (r_deviceId step)), (''command'', JStr stop_command),
                  (''durationMs'', JNum (durationMs t))] s'
             | (Inl e, s') \<Rightarrow> audit ''timer_schedule_failed'' ''error''
                 [(''deviceId'', JStr (r_deviceId step)), (''command'', JStr stop_command), (''reason'', JStr e)] s')"

definition run_target :: "'w exec_env \<Rightarrow> nat \<Rightarrow> resolved_step \<Rightarrow> ('w, bool) xcomp" where
  "run_target env stepIndex r =
     bindC (in_world (ch_execute env r))
       (\<lambda>(ok, reason) s.
          let s1 = push_outcome \<lparr>oc_stepIndex = stepIndex, oc_system = None, oc_maneuver = None,
                     oc_deviceId = Some (r_deviceId r), oc_command = r_command r,
                     oc_success = ok, oc_reason = reason\<rparr> s
          in (Inr ok,
              if ok then scheduleTimer env r (s1\<lparr>succeeded := succeeded s1 @ [r_deviceId r]\<rparr>) else s1))"

definition executeStep :: "'w exec_env \<Rightarrow> run_mode \<Rightarrow> command_step \<Rightarrow> resolved_step list \<Rightarrow> nat \<Rightarrow> ('w, bool) xcomp" where
  "executeStep env mode step resolvedList stepIndex s =
     (if resolvedList = []
      then (Inr False,
            push_outcome \<lparr>oc_stepIndex = stepIndex, oc_system = None, oc_maneuver = None, oc_deviceId = None,
              oc_command = s_command step, oc_success = False, oc_reason = Some ''no_available_targets''\<rparr> s)
      else case mode of
             Parallel \<Rightarrow>
               (case settledC (run_target env stepIndex) (in_order env resolvedList) s of
                  (rs, s') \<Rightarrow> (Inr (list_all (\<lambda>r. r = Inr True) rs), s'))
           | Sequential \<Rightarrow> mapresC (list_all (\<lambda>ok. ok)) (seqC (run_target env stepIndex) resolvedList) s)"

text \<open>The sequential chain: after a failed step with \<open>stopEarly\<close> nothing more is executed.\<close>

fun run_chain ::
  "'w exec_env \<Rightarrow> bool \<Rightarrow> nat \<Rightarrow> (command_step \<times> resolved_step list) list \<Rightarrow> ('w, unit) xcomp" where
  "run_chain env stopEarly idx [] s = (Inr (), s)"
| "run_chain env stopEarly idx ((step, resolvedList) # rest) s =
     (case executeStep env Sequential step resolvedList idx s of
        (Inl e, s') \<Rightarrow> (Inl e, s')
      | (Inr ok, s') \<Rightarrow>
          if \<not> ok \<and> stopEarly then (Inr (), s') else run_chain env stopEarly (Suc idx) rest s')"

definition run_steps_parallel ::
  "'w exec_env \<Rightarrow> (command_step \<times> resolved_step list) list \<Rightarrow> 'w xstate \<Rightarrow> 'w xstate" where
  "run_steps_parallel env steps s =
     snd (settledC (\<lambda>(i, step, resolvedList). executeStep env Parallel step resolvedList i)
            (in_order env (zip [0..<length steps] steps)) s)"

definition runStepList ::
  "'w exec_env \<Rightarrow> command_step list \<Rightarrow> run_mode \<Rightarrow> on_failure \<Rightarrow> params \<Rightarrow> string list option \<Rightarrow> command_timer option \<Rightarrow>
   ('w, step_outcome list \<times> bool \<times> string list) xcomp" where
  "runStepList env steps mode onFailure executeParams group_ids defaultTimer =
     bindC (allC (resolveStep env executeParams group_ids defaultTimer) steps)
       (\<lambda>resolvedPerStep s.
          let s0 = s\<lparr>outs := [], succeeded := []\<rparr>;
              work = zip steps resolvedPerStep;
              (r, s1) = (case mode of
                           Sequential \<Rightarrow> run_chain env (onFailure = Stop) 0 work s0
                         | Parallel \<Rightarrow> (Inr (), run_steps_parallel env work s0))
          in (case r of
                Inl e \<Rightarrow> (Inl e, s1)
              | Inr _ \<Rightarrow> (Inr (outs s1, list_all oc_success (outs s1), succeeded s1), s1)))"

section \<open>Maneuvers\<close>

definition rollback_target :: "'w exec_env \<Rightarrow> command_step \<Rightarrow> string \<Rightarrow> ('w, unit) xcomp" where
  "rollback_target env step target =
     bindC (in_world (ch_execute env \<lparr>r_deviceId = target, r_command = s_command step,
              r_telemetries = s_telemetries step, r_params = s_params step, r_timer = None\<rparr>))
       (\<lambda>(ok, reason) s.
          (Inr (),
           if ok then audit ''rollback_step_ok'' ''info''
                        [(''deviceId'', JStr target), (''command'', opt_str (s_command step))] s
           else audit ''rollback_step_failed'' ''warn''
                  [(''deviceId'', JStr target), (''command'', opt_str (s_command step)), (''reason'', opt_str reason)] s))"

definition rollback_step :: "'w exec_env \<Rightarrow> string list \<Rightarrow> command_step \<Rightarrow> ('w, unit) xcomp" where
  "rollback_step env succ_ids step =
     bindC (resolveStep env [] None None step)
       (\<lambda>rs. mapresC (\<lambda>_. ())
          (seqC (rollback_target env step) (filter (\<lambda>d. d \<in> set succ_ids) (map r_deviceId rs))))"

definition runRollbackSteps :: "'w exec_env \<Rightarrow> command_step list \<Rightarrow> string list \<Rightarrow> run_mode \<Rightarrow> ('w, unit) xcomp" where
  "runRollbackSteps env rollbackSteps succ_ids mode =
     (case mode of
        Sequential \<Rightarrow> mapresC (\<lambda>_. ()) (seqC (rollback_step env succ_ids) (rev rollbackSteps))
      | Parallel \<Rightarrow> (\<lambda>s. (Inr (), snd (settledC (rollback_step env succ_ids) (in_order env rollbackSteps) s))))"

definition runManeuver ::
  "'w exec_env \<Rightarrow> maneuver_record \<Rightarrow> params \<Rightarrow> string list option \<Rightarrow> command_timer option \<Rightarrow>
   ('w, step_outcome list \<times> bool \<times> bool) xcomp" where
  "runManeuver env m executeParams group_ids defaultTimer =
     bindC (runStepList env (m_steps m) (m_mode m) (or_else (m_onFailure m) Stop) executeParams group_ids defaultTimer)
       (\<lambda>(ocs, ok, succ_ids).
          if \<not> ok \<and> m_onFailure m = Some Rollback
          then mapresC (\<lambda>_. (ocs, ok, True))
                 (runRollbackSteps env (or_else (m_rollbackSteps m) []) succ_ids (m_mode m))
          else returnC (ocs, ok, False))"

section \<open>Operations\<close>

definition DEFAULT_REMOTE_TIMEOUT_MS :: jsnum where
  "DEFAULT_REMOTE_TIMEOUT_MS = js_int 120000"

definition runRemoteStep ::
  "'w exec_env \<Rightarrow> string \<Rightarrow> string \<Rightarrow> params \<Rightarrow> jsnum option \<Rightarrow> string option \<Rightarrow> jsnum option \<Rightarrow> 'w xstate \<Rightarrow>
   (bool \<times> string option) \<times> 'w xstate" where
  "runRemoteStep env system maneuver ps timerSeconds override timeoutMs s =
     (case remote_execute env of
        None \<Rightarrow> ((False, Some ''remote_channel_not_available''), s)
      | Some call \<Rightarrow>
          (case in_world (call (or_else override system) maneuver ps timerSeconds (or_else timeoutMs DEFAULT_REMOTE_TIMEOUT_MS)) s of
             (Inr (Some (ok, reason)), s') \<Rightarrow> ((ok, reason), s')
           | (Inr None, s') \<Rightarrow> ((False, Some ''remote_timeout''), s')
           | (Inl e, s') \<Rightarrow> ((False, Some e), s')))"

definition plain_outcome :: "nat \<Rightarrow> string option \<Rightarrow> string option \<Rightarrow> bool \<Rightarrow> string option \<Rightarrow> step_outcome" where
  "plain_outcome idx system maneuver ok reason =
     \<lparr>oc_stepIndex = idx, oc_system = system, oc_maneuver = maneuver, oc_deviceId = None, oc_command = None,
      oc_success = ok, oc_reason = reason\<rparr>"

definition first_reason :: "step_outcome list \<Rightarrow> string option" where
  "first_reason ocs = (case find_first (\<lambda>oc. \<not> oc_success oc) ocs of None \<Rightarrow> None | Some oc \<Rightarrow> oc_reason oc)"

definition timer_seconds :: "command_timer option \<Rightarrow> jsnum option" where
  "timer_seconds t = map_option (\<lambda>t. js_div (durationMs t) (js_int 1000)) t"

definition runOperationStep ::
  "'w exec_env \<Rightarrow> params \<Rightarrow> string list option \<Rightarrow> command_timer option \<Rightarrow> string option \<Rightarrow> jsnum option \<Rightarrow>
   operation_step \<Rightarrow> nat \<Rightarrow> ('w, step_outcome) xcomp" where
  "runOperationStep env executeParams group_ids defaultTimer remoteSystem remoteTimeoutMs step idx =
     (case step of
        RemoteStep system mnv ps \<Rightarrow>
          (\<lambda>s. case runRemoteStep env system mnv (or_else ps executeParams) (timer_seconds defaultTimer) remoteSystem remoteTimeoutMs s of
                 ((ok, reason), s') \<Rightarrow>
                   (Inr (plain_outcome idx (Some (or_else remoteSystem system)) (Some mnv) ok reason), s'))
      | ManeuverStep mnv ps \<Rightarrow>
          (case resolve_record (e_registry env) Maneuver mnv of
             Inr (MRecord m) \<Rightarrow>
               mapresC (\<lambda>(ocs, ok, rb). plain_outcome idx None (Some mnv) ok (first_reason ocs))
                 (runManeuver env m (js_spread executeParams (or_else ps [])) group_ids defaultTimer)
           | _ \<Rightarrow> returnC (plain_outcome idx None (Some mnv) False (Some ''maneuver_not_found'')))
      | CommandsStep cs md f ps \<Rightarrow>
          mapresC (\<lambda>(ocs, ok, succ_ids). plain_outcome idx None None ok (first_reason ocs))
            (runStepList env cs (or_else md Parallel) (or_else f Stop) (js_spread executeParams (or_else ps []))
               group_ids defaultTimer))"

text \<open>The sequential chain of an operation, with the outcomes so far.\<close>

fun operation_chain ::
  "(operation_step \<Rightarrow> nat \<Rightarrow> ('w, step_outcome) xcomp) \<Rightarrow> bool \<Rightarrow> nat \<Rightarrow> step_outcome list \<Rightarrow> operation_step list \<Rightarrow>
   ('w, step_outcome list) xcomp" where
  "operation_chain f stop idx acc [] s = (Inr acc, s)"
| "operation_chain f stop idx acc (step # rest) s =
     (if list_ex (\<lambda>oc. \<not> oc_success oc) acc \<and> stop then operation_chain f stop (Suc idx) acc rest s
      else case f step idx s of
             (Inl e, s') \<Rightarrow> (Inl e, s')
           | (Inr oc, s') \<Rightarrow> operation_chain f stop (Suc idx) (acc @ [oc]) rest s')"

text \<open>The outcomes of calls that were fulfilled, in completion order.\<close>

fun fulfilled :: "('e + 'a) list \<Rightarrow> 'a list" where
  "fulfilled [] = []"
| "fulfilled (Inr x # rs) = x # fulfilled rs"
| "fulfilled (Inl e # rs) = fulfilled rs"

definition operation_rollback_one :: "'w exec_env \<Rightarrow> string option \<Rightarrow> jsnum option \<Rightarrow> operation_step \<times> step_outcome option \<Rightarrow> ('w, unit) xcomp" where
  "operation_rollback_one env remoteSystem remoteTimeoutMs p =
     (case p of
        (rb, None) \<Rightarrow> returnC ()
      | (rb, Some oc) \<Rightarrow>
          if \<not> oc_success oc then returnC ()
          else case rb of
                 RemoteStep system mnv ps \<Rightarrow>
                   (\<lambda>s. case runRemoteStep env system mnv (or_else ps []) None remoteSystem remoteTimeoutMs s of
                          ((ok, reason), s') \<Rightarrow>
                            (Inr (),
                             if ok then audit ''rollback_step_ok'' ''info'' [(''system'', JStr system), (''maneuver'', JStr mnv)] s'
                             else audit ''rollback_step_failed'' ''warn''
                                    [(''system'', JStr system), (''maneuver'', JStr mnv),
                                     (''reason'', JStr (or_else reason ''system_unreachable''))] s'))
               | ManeuverStep mnv ps \<Rightarrow>
                   (case resolve_record (e_registry env) Maneuver mnv of
                      Inr (MRecord m) \<Rightarrow>
                        bindC (runManeuver env m (or_else ps []) None None)
                          (\<lambda>(ocs, ok, rolled) s.
                             (Inr (), if ok then s
                                      else audit ''rollback_step_failed'' ''warn''
                                             [(''maneuver'', JStr mnv), (''reason'', JStr ''rollback_failed'')] s))
                    | _ \<Rightarrow> returnC ())
               | CommandsStep cs md f ps \<Rightarrow>
                   mapresC (\<lambda>_. ())
                     (runStepList env cs (or_else md Parallel) (or_else f Stop) (or_else ps []) None None))"

definition rollback_pairs :: "operation_step list \<Rightarrow> step_outcome list \<Rightarrow> (operation_step \<times> step_outcome option) list" where
  "rollback_pairs rbs ocs =
     rev (map (\<lambda>(i, rb). (rb, if i < length ocs then Some (ocs ! i) else None)) (zip [0..<length rbs] rbs))"

definition runOperationRollback :: "'w exec_env \<Rightarrow> operation_record \<Rightarrow> step_outcome list \<Rightarrow> string option \<Rightarrow> jsnum option \<Rightarrow> ('w, unit) xcomp" where
  "runOperationRollback env r ocs remoteSystem remoteTimeoutMs =
     mapresC (\<lambda>_. ()) (seqC (operation_rollback_one env remoteSystem remoteTimeoutMs) (rollback_pairs (or_else (o_rollback r) []) ocs))"

definition operation_steps_run ::
  "'w exec_env \<Rightarrow> operation_record \<Rightarrow> params \<Rightarrow> string list option \<Rightarrow> command_timer option \<Rightarrow> string option \<Rightarrow> jsnum option \<Rightarrow>
   ('w, step_outcome list) xcomp" where
  "operation_steps_run env r executeParams group_ids defaultTimer remoteSystem remoteTimeoutMs =
     (let runOne = runOperationStep env executeParams group_ids defaultTimer remoteSystem remoteTimeoutMs in
      case o_mode r of
        Sequential \<Rightarrow> operation_chain runOne (or_else (o_onFailure r) Stop = Stop) 0 [] (o_steps r)
      | Parallel \<Rightarrow>
          (\<lambda>s. case settledC (\<lambda>(i, step). runOne step i) (in_order env (zip [0..<length (o_steps r)] (o_steps r))) s of
                 (rs, s') \<Rightarrow> (Inr (fulfilled rs), s')))"

definition runOperation ::
  "'w exec_env \<Rightarrow> operation_record \<Rightarrow> params \<Rightarrow> string list option \<Rightarrow> command_timer option \<Rightarrow> string option \<Rightarrow> jsnum option \<Rightarrow>
   ('w, step_outcome list \<times> bool \<times> bool) xcomp" where
  "runOperation env r executeParams group_ids defaultTimer remoteSystem remoteTimeoutMs =
     bindC (operation_steps_run env r executeParams group_ids defaultTimer remoteSystem remoteTimeoutMs)
       (\<lambda>ocs. let ok = list_all oc_success ocs in
          if \<not> ok \<and> o_onFailure r = Some Rollback
          then mapresC (\<lambda>_. (ocs, ok, True)) (runOperationRollback env r ocs remoteSystem remoteTimeoutMs)
          else returnC (ocs, ok, False))"

section \<open>Execution\<close>

fun kind_name :: "run_kind \<Rightarrow> string" where
  "kind_name Maneuver = ''maneuver''"
| "kind_name Operation = ''operation''"

fun status_name :: "run_status \<Rightarrow> string" where
  "status_name Completed = ''completed''"
| "status_name Failed = ''failed''"
| "status_name Rolled_back = ''rolled_back''"
| "status_name Rejected = ''rejected''"

definition runRecord ::
  "'w exec_env \<Rightarrow> run_record \<Rightarrow> params \<Rightarrow> string list option \<Rightarrow> command_timer option \<Rightarrow> string option \<Rightarrow> jsnum option \<Rightarrow>
   ('w, step_outcome list \<times> bool \<times> bool) xcomp" where
  "runRecord env rec executeParams group_ids defaultTimer remoteSystem remoteTimeoutMs =
     (case rec of
        MRecord m \<Rightarrow> runManeuver env m executeParams group_ids defaultTimer
      | ORecord r \<Rightarrow> runOperation env r executeParams group_ids defaultTimer remoteSystem remoteTimeoutMs)"

definition rejected :: "string \<Rightarrow> run_kind \<Rightarrow> string \<Rightarrow> run_result" where
  "rejected name kind reason =
     \<lparr>rr_runId = '''', rr_kind = kind, rr_name = name, rr_status = Rejected, rr_outcomes = [], rr_reason = Some reason\<rparr>"

definition finishBestEffort :: "'w exec_env \<Rightarrow> string \<Rightarrow> run_status \<Rightarrow> string \<Rightarrow> step_outcome list \<Rightarrow> 'w xstate \<Rightarrow> 'w xstate" where
  "finishBestEffort env runId status finishedAt ocs s =
     (case in_world (run_finish env runId status finishedAt) s of
        (Inr _, s') \<Rightarrow> s'
      | (Inl e, s') \<Rightarrow> audit ''operation_state_update_failed'' ''error''
          [(''runId'', JStr runId), (''status'', JStr (status_name status)), (''outcomeCount'', JNum (js_int (int (length ocs))))] s')"

definition check_precondition :: "'w exec_env \<Rightarrow> run_kind \<Rightarrow> string \<Rightarrow> params \<Rightarrow> 'w xstate \<Rightarrow> string option \<times> 'w xstate" where
  "check_precondition env kind name ps s =
     (case precondition env of
        None \<Rightarrow> (None, s)
      | Some hook \<Rightarrow>
          (case in_world (hook kind name ps) s of
             (Inr None, s') \<Rightarrow> (None, s')
           | (Inr (Some reason), s') \<Rightarrow>
               (Some reason, audit ''operation_precondition_rejected'' ''warn''
                  [(''name'', JStr name), (''kind'', JStr (kind_name kind)), (''reason'', JStr reason)] s')
           | (Inl e, s') \<Rightarrow>
               (Some ''precondition_error'',
                audit ''operation_precondition_rejected'' ''warn''
                  [(''name'', JStr name), (''kind'', JStr (kind_name kind)), (''reason'', JStr ''precondition_error'')] s')))"

text \<open>The identifier and the two time stamps are arguments.\<close>

definition started_run ::
  "'w exec_env \<Rightarrow> string \<Rightarrow> string \<Rightarrow> run_kind \<Rightarrow> string \<Rightarrow> run_record \<Rightarrow> params \<Rightarrow> execute_options \<Rightarrow>
   ('w, run_result) xcomp" where
  "started_run env runId finishedAt kind name rec ps opts s0 =
     (let s1 = audit ''operation_started'' ''info'' [(''runId'', JStr runId), (''kind'', JStr (kind_name kind)), (''name'', JStr name),
                   (''trigger'', JStr (or_else (x_trigger opts) ''manual'')),
                   (''createdBy'', JStr (or_else (x_createdBy opts) ''system''))] s0;
          defaultTimer = map_option (\<lambda>sec. \<lparr>durationMs = js_mul sec (js_int 1000), stopCommand = None\<rparr>) (x_timerSeconds opts)
      in case runRecord env rec ps (x_deviceIds opts) defaultTimer (x_remoteSystem opts) (x_remoteTimeoutMs opts) s1 of
           (Inl e, s2) \<Rightarrow> (Inl e, s2)
         | (Inr (ocs, ok, rolledBack), s2) \<Rightarrow>
             let status = (if rolledBack then Rolled_back else if ok then Completed else Failed);
                 s3 = audit (if rolledBack then ''operation_rolled_back'' else if ok then ''operation_completed'' else ''operation_failed'')
                        (if rolledBack then ''warn'' else if ok then ''info'' else ''error'')
                        [(''runId'', JStr runId), (''kind'', JStr (kind_name kind)), (''name'', JStr name)] s2
             in (Inr \<lparr>rr_runId = runId, rr_kind = kind, rr_name = name, rr_status = status, rr_outcomes = ocs, rr_reason = None\<rparr>,
                 finishBestEffort env runId status finishedAt ocs s3))"

definition execute ::
  "'w exec_env \<Rightarrow> string \<Rightarrow> string \<Rightarrow> string \<Rightarrow> run_kind \<Rightarrow> string \<Rightarrow> params \<Rightarrow> execute_options \<Rightarrow> ('w, run_result) xcomp" where
  "execute env runId startedAt finishedAt kind name ps opts s =
     (case resolve_record (e_registry env) kind name of
        Inl e \<Rightarrow> (Inr (rejected name kind (if e = Disabled then ''disabled'' else ''not_found'')), s)
      | Inr rec \<Rightarrow>
          if \<not> validateDivideTotal rec ps then (Inr (rejected name kind ''missing_param''), s)
          else
            (case check_precondition env kind name ps s of
               (Some reason, s1) \<Rightarrow> (Inr (rejected name kind reason), s1)
             | (None, s1) \<Rightarrow>
                 let draft = \<lparr>draft_id = runId, draft_kind = kind, draft_name = name,
                       draft_trigger = or_else (x_trigger opts) ''manual'',
                       draft_createdBy = or_else (x_createdBy opts) ''system'',
                       draft_traceId = x_traceId opts, draft_startedAt = startedAt, draft_definition = rec,
                       draft_params = ps, draft_remoteSystem = x_remoteSystem opts\<rparr>
                 in (case in_world (run_begin env draft) s1 of
                       (Inl e, s2) \<Rightarrow> (Inr (rejected name kind ''run_persist_failed''), s2)
                     | (Inr _, s2) \<Rightarrow> started_run env runId finishedAt kind name rec ps opts s2)))"

end
