(* ===== verification/Executor_Facts.thy ===== *)
theory Executor_Facts
  imports Operation_Executor
begin

text \<open>
  What the executor promises and where it falls short: rejected runs execute nothing, a sequential
  stop leaves nothing after the failure, compensation reaches only devices that succeeded, the
  division of a total, the registry, and two gaps (an unchecked template parameter, a channel
  rejection that parallel mode does not count).
\<close>

section \<open>Preservation\<close>

definition on_world :: "('w \<Rightarrow> bool) \<Rightarrow> 'w xstate \<Rightarrow> bool" where
  "on_world I s \<longleftrightarrow> I (world s)"

lemma on_world_simps [simp]:
  "on_world I (audit c l x s) = on_world I s" "on_world I (push_outcome oc s) = on_world I s"
  "on_world I (s\<lparr>outs := os\<rparr>) = on_world I s" "on_world I (s\<lparr>succeeded := ss\<rparr>) = on_world I s"
  by (simp_all add: on_world_def audit_def push_outcome_def)

lemma keeps_in_world [keeps]: "keepsC I m \<Longrightarrow> keepsC (on_world I) (in_world m)"
  by (auto simp: keepsC_def in_world_def on_world_def split: prod.splits)

lemma keeps_mapres [keeps]: "keepsC I m \<Longrightarrow> keepsC I (mapresC f m)"
  unfolding mapresC_def by (intro keeps)

lemma keeps_rollback_target:
  assumes "keepsC I (ch_execute env \<lparr>r_deviceId = d, r_command = s_command step,
    r_telemetries = s_telemetries step, r_params = s_params step, r_timer = None\<rparr>)"
  shows "keepsC (on_world I) (rollback_target env step d)"
  unfolding rollback_target_def
  by (rule keeps_bind [OF keeps_in_world [OF assms]]) (auto simp: keepsC_def split: prod.splits)

lemma keeps_resolveStep:
  assumes "\<And>ids. keepsC I (filterAvailable env ids)" "\<And>t. keepsC I (resolveAvailable env t)"
  shows "keepsC (on_world I) (resolveStep env ps g t step)"
  unfolding resolveStep_def target_ids_def
  by (cases "s_deviceId step"; cases "s_deviceIds step") (auto intro!: keeps assms)

lemma settled_keeps_state:
  "(\<And>x. x \<in> set xs \<Longrightarrow> keepsC I (f x)) \<Longrightarrow> keepsC I (\<lambda>s. (Inr (), snd (settledC f xs s)))"
  by (rule keepsCI) (simp add: keeps_settled)


section \<open>Outcomes of a step list\<close>

text \<open>A computation that appends outcomes of one step.\<close>

definition appends :: "(step_outcome list \<Rightarrow> bool) \<Rightarrow> 'w xstate \<Rightarrow> 'w xstate \<Rightarrow> bool" where
  "appends P s s' \<longleftrightarrow> (\<exists>new. outs s' = outs s @ new \<and> P new)"

lemma scheduleTimer_outs [simp]: "outs (scheduleTimer env r s) = outs s" "succeeded (scheduleTimer env r s) = succeeded s"
  by (auto simp: scheduleTimer_def in_world_def audit_def Let_def split: option.splits prod.splits sum.splits)

lemma run_target_outs:
  assumes "run_target env idx r s = (res, s')"
  shows "(\<exists>e. res = Inl e \<and> outs s' = outs s \<and> succeeded s' = succeeded s) \<or>
    (\<exists>ok oc. res = Inr ok \<and> outs s' = outs s @ [oc] \<and> oc_stepIndex oc = idx \<and> oc_success oc = ok \<and>
       oc_deviceId oc = Some (r_deviceId r) \<and>
       succeeded s' = succeeded s @ (if ok then [r_deviceId r] else []))"
proof -
  obtain q w where q: "ch_execute env r (world s) = (q, w)" by fastforce
  show ?thesis
  proof (cases q)
    case (Inl e)
    have "res = Inl e" "s' = s\<lparr>world := w\<rparr>"
      using assms unfolding run_target_def bindC_def in_world_def by (simp_all add: q Inl)
    then show ?thesis by simp
  next
    case (Inr p)
    obtain ok reason where p: "p = (ok, reason)" by fastforce
    define oc where "oc = \<lparr>oc_stepIndex = idx, oc_system = None, oc_maneuver = None,
      oc_deviceId = Some (r_deviceId r), oc_command = r_command r, oc_success = ok, oc_reason = reason\<rparr>"
    define s1 where "s1 = push_outcome oc (s\<lparr>world := w\<rparr>)"
    have "res = Inr ok"
      "s' = (if ok then scheduleTimer env r (s1\<lparr>succeeded := succeeded s1 @ [r_deviceId r]\<rparr>) else s1)"
      using assms unfolding run_target_def bindC_def in_world_def s1_def oc_def by (simp_all add: q Inr p Let_def)
    moreover have "outs s1 = outs s @ [oc]" "succeeded s1 = succeeded s" by (simp_all add: s1_def push_outcome_def)
    ultimately show ?thesis by (cases ok) (auto simp: oc_def)
  qed
qed

lemma seq_targets_outs:
  "seqC (run_target env idx) rs s = (res, s') \<Longrightarrow>
   \<exists>new. outs s' = outs s @ new \<and> (\<forall>oc \<in> set new. oc_stepIndex oc = idx) \<and>
     (\<forall>oks. res = Inr oks \<longrightarrow> list_all (\<lambda>ok. ok) oks = list_all oc_success new)"
proof (induction rs arbitrary: s res)
  case (Cons r rs)
  obtain q s1 where q: "run_target env idx r s = (q, s1)" by fastforce
  show ?case
  proof (cases q)
    case (Inl e)
    then show ?thesis using Cons.prems q run_target_outs [OF q] by auto
  next
    case (Inr ok)
    then obtain oc where oc: "outs s1 = outs s @ [oc]" "oc_stepIndex oc = idx" "oc_success oc = ok"
      using run_target_outs [OF q] by auto
    obtain res1 where t: "seqC (run_target env idx) rs s1 = (res1, s')"
      using Cons.prems q Inr by (auto split: prod.splits sum.splits)
    from Cons.IH [OF t] obtain new where new: "outs s' = outs s1 @ new" "\<forall>oc \<in> set new. oc_stepIndex oc = idx"
      "\<forall>oks. res1 = Inr oks \<longrightarrow> list_all (\<lambda>ok. ok) oks = list_all oc_success new" by blast
    show ?thesis
      by (rule exI [of _ "oc # new"]) (use Cons.prems q Inr t oc new in \<open>auto split: sum.splits\<close>)
  qed
qed simp

lemma executeStep_outs:
  assumes "executeStep env Sequential step rs idx s = (res, s')"
  shows "\<exists>new. outs s' = outs s @ new \<and> (\<forall>oc \<in> set new. oc_stepIndex oc = idx) \<and>
     (\<forall>ok. res = Inr ok \<longrightarrow> ok = list_all oc_success new)"
proof (cases "rs = []")
  case True
  then show ?thesis using assms by (auto simp: executeStep_def push_outcome_def)
next
  case False
  obtain q where q: "seqC (run_target env idx) rs s = (q, s')" "res = map_sum id (list_all (\<lambda>ok. ok)) q"
    using assms False by (auto simp: executeStep_def mapresC_def bindC_def split: prod.splits sum.splits)
  then show ?thesis using seq_targets_outs [OF q(1)] by (cases q) auto
qed

text \<open>A failed outcome is followed only by outcomes of its own step.\<close>

definition stops_at_failure :: "step_outcome list \<Rightarrow> bool" where
  "stops_at_failure ocs \<longleftrightarrow>
     (\<forall>oc \<in> set ocs. \<not> oc_success oc \<longrightarrow> (\<forall>oc' \<in> set ocs. oc_stepIndex oc' \<le> oc_stepIndex oc))"

lemma run_chain_outs:
  "run_chain env True idx work s = (Inr (), s') \<Longrightarrow>
   \<exists>new. outs s' = outs s @ new \<and> stops_at_failure new \<and> (\<forall>oc \<in> set new. idx \<le> oc_stepIndex oc)"
proof (induction work arbitrary: idx s)
  case (Cons p rest)
  obtain step rs where p: "p = (step, rs)" by fastforce
  obtain res s1 where x: "executeStep env Sequential step rs idx s = (res, s1)" by fastforce
  with Cons.prems p obtain ok where ok: "res = Inr ok" by (cases res) auto
  from executeStep_outs [OF x] ok obtain a where
    a: "outs s1 = outs s @ a" "\<forall>oc \<in> set a. oc_stepIndex oc = idx" "ok = list_all oc_success a" by blast
  show ?case
  proof (cases ok)
    case False
    then have "s' = s1" using Cons.prems p x ok by simp
    then show ?thesis using a by (auto simp: stops_at_failure_def)
  next
    case True
    then have "run_chain env True (Suc idx) rest s1 = (Inr (), s')" using Cons.prems p x ok by simp
    from Cons.IH [OF this] obtain b where
      b: "outs s' = outs s1 @ b" "stops_at_failure b" "\<forall>oc \<in> set b. Suc idx \<le> oc_stepIndex oc" by blast
    have "\<forall>oc \<in> set a. oc_success oc" using a True by (simp add: list_all_iff)
    then have "stops_at_failure (a @ b)"
      using a b by (auto simp: stops_at_failure_def)
    then show ?thesis using a b by (intro exI [of _ "a @ b"]) auto
  qed
qed (auto simp: stops_at_failure_def)


section \<open>Rejected runs\<close>

lemma started_run_status:
  "started_run env i f kind name rec ps opts s = (Inr res, s') \<Longrightarrow> rr_status res \<noteq> Rejected"
  by (auto simp: started_run_def Let_def split: prod.splits sum.splits if_splits)

lemma check_precondition_keeps:
  assumes "\<And>hook k n p. precondition env = Some hook \<Longrightarrow> keepsC I (hook k n p)" "I (world s)"
    and "check_precondition env kind name ps s = (r, s')"
  shows "I (world s')"
proof (cases "precondition env")
  case (Some hook)
  obtain q w where q: "hook kind name ps (world s) = (q, w)" by fastforce
  then have "I w" using keepsC_result [OF assms(1) [OF Some] assms(2) q] by simp
  then show ?thesis
    using assms(3) Some q
    by (auto simp: check_precondition_def in_world_def audit_def split: sum.splits option.splits)
qed (use assms in \<open>simp add: check_precondition_def\<close>)

text \<open>
  A rejected run executed nothing: no outcome is reported, no start is audited, and any fact
  about the world that the precondition hook and the run store's \<open>begin\<close> preserve still holds,
  whatever the command channel would do. In particular a run whose start cannot be stored is
  rejected before any command goes out.
\<close>

theorem rejected_executes_nothing:
  assumes "\<forall>hook k n p. precondition env = Some hook \<longrightarrow> keepsC I (hook k n p)"
    and "\<forall>draft. keepsC I (run_begin env draft)" and "I (world s)"
    and "execute env i st f kind name ps opts s = (Inr res, s')" and "rr_status res = Rejected"
  shows "I (world s') \<and> rr_outcomes res = [] \<and> rr_runId res = ''''"
proof (cases "resolve_record (e_registry env) kind name")
  case (Inl e)
  then show ?thesis using assms by (auto simp: execute_def rejected_def)
next
  case (Inr rec)
  obtain v s1 where v: "check_precondition env kind name ps s = (v, s1)" by fastforce
  have I1: "I (world s1)" using check_precondition_keeps [of env I s kind name ps v s1] assms(1,3) v by blast
  show ?thesis
  proof (cases v)
    case (Some reason)
    then show ?thesis using assms Inr v I1 by (auto simp: execute_def rejected_def split: if_splits)
  next
    case None
    then show ?thesis
      using assms Inr v I1 keepsC_result [OF assms(2) [rule_format]]
      by (auto simp: execute_def rejected_def in_world_def Let_def split: if_splits prod.splits sum.splits
          dest!: started_run_status)
  qed
qed

section \<open>Dividing a total\<close>

lemma floor_fl64_quotient:
  assumes "0 \<le> n" "n \<le> 2 ^ 32" "0 < c" "c \<le> 2 ^ 16"
  shows "js_floor (fl64 (of_int n / of_int c)) = js_int (n div c)"
proof (cases "c dvd n")
  case True
  then obtain k where k: "n = c * k" by (elim dvdE)
  then have "(of_int n / of_int c :: rat) = of_int k" using assms by simp
  moreover have "\<bar>k\<bar> < 2 ^ 53"
  proof -
    have "0 \<le> k" using assms k by (simp add: zero_le_mult_iff)
    moreover have "k \<le> n" using k assms \<open>0 \<le> k\<close> by (simp add: mult_le_cancel_right1)
    ultimately show ?thesis using assms by simp
  qed
  ultimately show ?thesis using k assms by (simp add: js_int_def)
next
  case False
  define x :: rat where "x = of_int n / of_int c"
  define q r where "q = n div c" and "r = n mod c"
  have "0 \<le> n mod c" "n mod c < c" "n mod c \<noteq> 0" using False assms(3) by (simp_all add: dvd_eq_mod_eq_0)
  then have r: "1 \<le> r" "r \<le> c - 1" unfolding r_def by linarith+
  have cpos: "(0::rat) < of_int c" using assms by simp
  have nq: "n = q * c + r" by (simp add: q_def r_def)
  have xq: "x = of_int q + of_int r / of_int c" using cpos unfolding x_def nq by (simp add: add_divide_distrib)
  have c16: "(of_int c :: rat) \<le> 2 ^ 16" using assms(4) by (metis of_int_le_iff of_int_numeral of_int_power)
  have inv: "1 / 2 ^ 16 \<le> 1 / (of_int c :: rat)" by (rule divide_left_mono [OF c16]) (use cpos in auto)
  have "(1::rat) / of_int c \<le> of_int r / of_int c" using r(1) cpos by (intro divide_right_mono) auto
  then have lo: "of_int q + 1 / 2 ^ 16 \<le> x" using inv xq by linarith
  have "of_int r / of_int c \<le> (of_int (c - 1) :: rat) / of_int c" using r(2) cpos by (intro divide_right_mono) auto
  also have "\<dots> = 1 - 1 / of_int c" using cpos by (simp add: diff_divide_distrib)
  finally have hi: "x \<le> of_int q + 1 - 1 / 2 ^ 16" using inv xq by linarith
  have n32: "(of_int n :: rat) \<le> 2 ^ 32" using assms(2) by (metis of_int_le_iff of_int_numeral of_int_power)
  have x0: "0 \<le> x" using assms cpos by (simp add: x_def)
  have "x \<le> of_int n" unfolding x_def using assms cpos by (simp add: divide_le_eq mult_le_cancel_left1)
  then have x32: "\<bar>x\<bar> \<le> 2 ^ 32" using x0 n32 by simp
  then have "\<bar>x\<bar> \<le> 2 ^ 40 * 1" by simp
  moreover have "(2::rat) powi (-900) \<le> 1" "(1::rat) \<le> 2 powi 900"
    using power_int_increasing [of "-900" 0 "2::rat"] power_int_increasing [of 0 900 "2::rat"] by simp_all
  ultimately obtain y where y: "fl64 x = Fin y" "\<bar>y - x\<bar> \<le> \<bar>x\<bar> / 2 ^ 53 + 1 / 2 ^ 60"
    using fl64_step [of 1 x] by blast
  have err: "\<bar>y - x\<bar> \<le> 1 / 2 ^ 20" using y(2) x32 by simp
  have "\<bar>y - x\<bar> \<le> 1 / 1048576" "of_int q + 1 / 65536 \<le> x" "x \<le> of_int q + 1 - 1 / 65536"
    using err lo hi by simp_all
  then have "of_int q \<le> y" "y < of_int q + 1" by linarith+
  then have "\<lfloor>y\<rfloor> = q" by linarith
  then show ?thesis using y(1) by (simp add: x_def [symmetric] js_int_def q_def)
qed

text \<open>
  A total of at most 2^32 divided over at most 2^16 devices gives each the exact integer
  quotient, the rounding of the division notwithstanding; together they get no more than the total
  and less than one unit per device is left over.
\<close>

theorem divide_total_exact:
  assumes "0 \<le> n" "n \<le> 2 ^ 32" "0 < count" "count \<le> 2 ^ 16"
    and "js_get executeParams k = Some (JNum (js_int n))"
  shows "divide_entry executeParams count (k, DIVIDE_TOTAL) = Some (k, JNum (js_int (n div int count))) \<and>
    int count * (n div int count) \<le> n \<and> n - int count * (n div int count) < int count"
proof -
  have "js_floor (js_div (js_int n) (js_int (int count))) = js_int (n div int count)"
    using floor_fl64_quotient [of n "int count"] assms by (simp add: js_int_def)
  then have "divide_entry executeParams count (k, DIVIDE_TOTAL) = Some (k, JNum (js_int (n div int count)))"
    using assms(3,5) by (simp add: divide_entry_def)
  moreover have "n - int count * (n div int count) = n mod int count" by (simp add: minus_mult_div_eq_mod)
  moreover have "0 \<le> n mod int count" "n mod int count < int count" using assms(3) by simp_all
  ultimately show ?thesis by linarith
qed

lemma divide_total_exact_witness:
  "divide_entry [(''power'', JNum (js_int 1000))] 3 (''power'', DIVIDE_TOTAL) = Some (''power'', JNum (js_int 333))"
  using divide_total_exact [of 1000 3 "[(''power'', JNum (js_int 1000))]" "''power''"] by simp

section \<open>Gaps\<close>

text \<open>
  A maneuver without compensation steps is never rejected for a missing total: the check looks
  for steps with raw commands, which a maneuver has none of; at the step the parameter is then
  dropped and the command goes out without it.
\<close>

theorem maneuver_total_unchecked:
  assumes "m_rollbackSteps m = None" "js_get ps k = None"
  shows "validateDivideTotal (MRecord m) ps \<and> applyDivideTotal (Some [(k, DIVIDE_TOTAL)]) ps count = Some []"
  using assms by (simp add: validateDivideTotal_def divide_steps_def applyDivideTotal_def divide_entry_def List.map_filter_def)

text \<open>
  In parallel mode a command the channel rejects (throws) leaves no outcome, so a step list on
  which every command is rejected reports success.
\<close>

theorem parallel_rejection_unseen:
  assumes "\<forall>r w. \<exists>e w'. ch_execute env r w = (Inl e, w')" and "\<forall>n. set (completion env n) \<subseteq> {..<n}"
    and "\<forall>st \<in> set steps. \<exists>d. s_deviceId st = Some d"
  shows "fst (runStepList env steps Parallel onFailure ps group_ids t s) = Inr ([], True, [])"
proof -
  define I :: "'a xstate \<Rightarrow> bool" where "I s \<longleftrightarrow> outs s = [] \<and> succeeded s = []" for s
  define g where "g st = [\<lparr>r_deviceId = the (s_deviceId st), r_command = s_command st,
      r_telemetries = s_telemetries st, r_params = applyDivideTotal (s_params st) ps 1,
      r_timer = (case s_timer st of Some tm \<Rightarrow> Some tm | None \<Rightarrow> t)\<rparr>]" for st :: command_step
  have "resolveStep env ps group_ids t st s = (Inr (g st), s)" if "st \<in> set steps" for st s
  proof -
    obtain d where "s_deviceId st = Some d" using assms(3) \<open>st \<in> set steps\<close> by blast
    then show ?thesis by (simp add: resolveStep_def target_ids_def mapresC_cases g_def)
  qed
  then have rls: "allC (resolveStep env ps group_ids t) steps s = (Inr (map g steps), s)" by (rule allC_pure)
  have target: "keepsC I (run_target env i r)" for i r
  proof (rule keepsCI)
    fix s :: "'a xstate" assume "I s"
    obtain e w where "ch_execute env r (world s) = (Inl e, w)" using assms(1) by blast
    then have "run_target env i r s = (Inl e, s\<lparr>world := w\<rparr>)"
      unfolding run_target_def bindC_def in_world_def by simp
    then show "I (snd (run_target env i r s))" using \<open>I s\<close> by (simp add: I_def)
  qed
  have step: "keepsC I (executeStep env Parallel st rl i)" if "rl \<noteq> []" for st rl i
    using that keeps_settled [of _ I "run_target env i", OF target]
    by (auto simp: keepsC_def executeStep_def split: prod.splits) (metis snd_conv)
  have "I (run_steps_parallel env (zip steps (map g steps)) (s\<lparr>outs := [], succeeded := []\<rparr>))"
    unfolding run_steps_parallel_def
  proof (rule keeps_settled)
    let ?w = "zip [0..<length (zip steps (map g steps))] (zip steps (map g steps))"
    fix x assume "x \<in> set (in_order env ?w)"
    then obtain i where i: "i \<in> set (completion env (length ?w))" "x = ?w ! i" by (auto simp: in_order_def)
    then have "i < length steps" using assms(2) by (metis (no_types) length_map length_upt length_zip lessThan_iff
          minus_nat.diff_0 min.idem subsetD)
    then have "x = (i, steps ! i, g (steps ! i))" using i(2) by simp
    then show "keepsC I (case x of (i, step, rl) \<Rightarrow> executeStep env Parallel step rl i)"
      by (simp add: step g_def)
  qed (simp add: I_def)
  then show ?thesis using rls by (simp add: runStepList_def bindC_def Let_def I_def)
qed

section \<open>The registry\<close>

lemma registry_index:
  assumes "new_registry ms os db = Inr reg"
  shows "wf_map (file_index reg kind) \<and> (\<forall>(k, r) \<in> set (file_index reg kind). record_name r = k)"
  using assms register_all_Inr [of record_name "map MRecord ms" "[]"] register_all_Inr [of record_name "map ORecord os" "[]"]
  by (cases kind) (auto simp: new_registry_def file_index_def split: sum.splits)

text \<open>
  The registry lists exactly what it resolves: a record is in the list of its kind if and only
  if resolving its name gives that record. A stored definition, also a disabled one, hides the file
  record of its name from both.
\<close>

theorem list_is_resolvable:
  assumes "new_registry ms os db = Inr reg"
    and "\<forall>rows. db = Some rows \<longrightarrow> distinct (map row_name (rows kind)) \<and>
           (\<forall>row \<in> set (rows kind). row_name row = record_name (row_definition row))"
  shows "r \<in> set (list_records reg kind) \<longleftrightarrow> resolve_record reg kind (record_name r) = Inr r"
proof -
  define rows where "rows = (case db of None \<Rightarrow> [] | Some f \<Rightarrow> f kind)"
  have db: "db_source reg = db" using assms(1) by (auto simp: new_registry_def split: sum.splits)
  have rw: "distinct (map row_name rows)" "\<And>row. row \<in> set rows \<Longrightarrow> row_name row = record_name (row_definition row)"
    using assms(2) by (auto simp: rows_def split: option.splits)
  note ix = registry_index [OF assms(1), of kind]
  have res: "resolve_record reg kind n =
      (case find_first (\<lambda>x. row_name x = n) rows of
         Some row \<Rightarrow> if row_enabled row then Inr (row_definition row) else Inl Disabled
       | None \<Rightarrow> (case js_get (file_index reg kind) n of None \<Rightarrow> Inl Not_found | Some x \<Rightarrow> Inr x))" for n
    by (cases db) (simp_all add: resolve_record_def db rows_def)
  have mem: "r \<in> set (list_records reg kind) \<longleftrightarrow>
      (\<exists>row \<in> set rows. row_enabled row \<and> row_definition row = r) \<or>
      (\<exists>k. (k, r) \<in> set (file_index reg kind) \<and> record_name r \<notin> row_name ` set rows)"
    by (auto simp: list_records_def db rows_def Let_def image_iff split: option.splits)
  have ixr: "(k, r) \<in> set (file_index reg kind) \<longleftrightarrow> k = record_name r \<and> js_get (file_index reg kind) k = Some r" for k
    using ix js_get_in_set [of "file_index reg kind" k r] by auto
  show ?thesis
  proof (cases "find_first (\<lambda>x. row_name x = record_name r) rows")
    case None
    then have "record_name r \<notin> row_name ` set rows" by (auto simp: find_first_None)
    moreover from this have "\<not> (\<exists>row \<in> set rows. row_definition row = r)" using rw(2) by (metis imageI)
    ultimately show ?thesis using None unfolding mem ixr res by (auto split: option.splits)
  next
    case (Some row)
    then have row: "row \<in> set rows" "row_name row = record_name r" using find_first_Some [OF Some] by auto
    have "row' = row" if "row' \<in> set rows" "row_definition row' = r" for row'
      using that rw row by (metis distinct_map inj_onD)
    moreover have "record_name r \<in> row_name ` set rows" using row by (metis imageI)
    ultimately show ?thesis using Some row unfolding mem res by auto
  qed
qed

section \<open>Concrete runs\<close>

text \<open>
  A plant whose world is the list of devices commanded so far; device \<open>d2\<close> answers every command
  with a failure.
\<close>

definition sample_step :: "string \<Rightarrow> command_step" where
  "sample_step d = \<lparr>s_deviceId = Some d, s_deviceIds = None, s_deviceTypes = None, s_command = Some ''start'',
     s_telemetries = None, s_params = None, s_timer = None\<rparr>"

definition sample_maneuver :: "string \<Rightarrow> maneuver_record" where
  "sample_maneuver n = \<lparr>m_name = n, m_label = n, m_mode = Sequential, m_onFailure = None,
     m_steps = [sample_step ''d1'', sample_step ''d2'', sample_step ''d3''], m_rollbackSteps = None\<rparr>"

definition sample_registry :: registry where
  "sample_registry = \<lparr>maneuvers = [(''up'', MRecord (sample_maneuver ''up''))], operations = [], db_source = None\<rparr>"

definition sample_plant :: "(string list, string, unit) comp \<Rightarrow> string list exec_env" where
  "sample_plant store =
     \<lparr>e_registry = sample_registry, filterAvailable = returnC, resolveAvailable = (\<lambda>t. returnC []),
      ch_execute = (\<lambda>r w. (Inr (r_deviceId r \<noteq> ''d2'', None), w @ [r_deviceId r])),
      ch_schedule = (\<lambda>r t. returnC ()), run_begin = (\<lambda>d. store), run_finish = (\<lambda>i st f. returnC ()),
      remote_execute = None, precondition = None, completion = (\<lambda>n. [0..<n])\<rparr>"

definition sample_state :: "string list xstate" where
  "sample_state = \<lparr>world = [], audits = [], outs = [], succeeded = []\<rparr>"

definition sample_options :: execute_options where
  "sample_options = \<lparr>x_deviceIds = None, x_trigger = None, x_createdBy = None, x_traceId = None,
     x_timerSeconds = None, x_remoteSystem = None, x_remoteTimeoutMs = None\<rparr>"


lemma sample_run:
  "runStepList (sample_plant (returnC ())) [sample_step ''d1'', sample_step ''d2'', sample_step ''d3''] Sequential Stop
     [] None None sample_state =
   (Inr (outs s', False, [''d1'']), s') \<and> map oc_deviceId (outs s') = [Some ''d1'', Some ''d2'']"
  if "s' = snd (runStepList (sample_plant (returnC ())) [sample_step ''d1'', sample_step ''d2'', sample_step ''d3'']
     Sequential Stop [] None None sample_state)"
  unfolding that
  by (simp add: runStepList_def allC_def resolveStep_def target_ids_def mapresC_cases bindC_def sample_plant_def
      sample_step_def sample_state_def executeStep_def run_target_def in_world_def push_outcome_def scheduleTimer_def
      applyDivideTotal_def)


lemma rejected_executes_nothing_witness:
  "\<exists>res s'. execute (sample_plant (throwC ''disk full'')) ''r1'' [] [] Maneuver ''up'' [] sample_options sample_state =
     (Inr res, s') \<and> rr_reason res = Some ''run_persist_failed'' \<and> world s' = [] \<and> rr_outcomes res = []"
proof -
  have run: "execute (sample_plant (throwC ''disk full'')) ''r1'' [] [] Maneuver ''up'' [] sample_options sample_state =
     (Inr (rejected ''up'' Maneuver ''run_persist_failed''), sample_state)"
    by (simp add: execute_def sample_plant_def sample_registry_def resolve_record_def file_index_def validateDivideTotal_def
        divide_steps_def sample_maneuver_def check_precondition_def in_world_def Let_def sample_state_def)
  from rejected_executes_nothing [where I = "\<lambda>w. w = []", OF _ _ _ run] run
  show ?thesis by (simp add: keepsC_def sample_plant_def sample_state_def rejected_def)
qed

lemma maneuver_total_unchecked_witness:
  "validateDivideTotal (MRecord (sample_maneuver ''up'')) [] \<and>
   applyDivideTotal (Some [(''power'', DIVIDE_TOTAL)]) [] 3 = Some []"
  by (rule maneuver_total_unchecked) (simp_all add: sample_maneuver_def)

lemma parallel_rejection_unseen_witness:
  "fst (runStepList (sample_plant (returnC ())\<lparr>ch_execute := \<lambda>r. throwC ''connection lost''\<rparr>)
     [sample_step ''d1'', sample_step ''d2''] Parallel Stop [] None None sample_state) = Inr ([], True, [])"
  by (rule parallel_rejection_unseen) (auto simp: sample_plant_def sample_step_def)

lemma list_is_resolvable_witness:
  "MRecord (sample_maneuver ''up'') \<notin> set (list_records
     \<lparr>maneuvers = [(''up'', MRecord (sample_maneuver ''up''))], operations = [],
      db_source = Some (\<lambda>k. [\<lparr>row_name = ''up'', row_definition = MRecord (sample_maneuver ''up''), row_enabled = False\<rparr>])\<rparr>
     Maneuver)"
  by (subst list_is_resolvable [where ms = "[sample_maneuver ''up'']" and os = "[]"])
    (auto simp: new_registry_def sample_maneuver_def js_has_def js_set_def resolve_record_def)

end
