(* ===== verification/Js_Json.thy ===== *)
theory Js_Json
  imports Js_Value "HOL-Library.List_Lexorder" "HOL-Library.Char_ord"
begin

text \<open>
  JSON values and their text: what \<open>JSON.stringify\<close> and \<open>String(x)\<close> of a Number produce
  (ECMA-262, 25.5.2 and 6.1.6.1.20), and the own-property order of objects. An object is the list
  of its members in own-property order; the member name \<open>__proto__\<close>, which an assignment would turn
  into the prototype, is outside the model.
\<close>

section \<open>Values\<close>

datatype json =
    VUndef | VNull | VBool bool | VNum jsnum | VStr string
  | VArr "json list" | VObj "(string \<times> json) list"

text \<open>
  A key that is a canonical array index comes before every other key, in numeric order; the others
  keep the order of their insertion.
\<close>

definition array_index :: "string \<Rightarrow> nat option" where
  "array_index k =
     (if k \<noteq> [] \<and> list_all (\<lambda>c. of_char c \<in> {48 .. 57::nat}) k
      then (let n = foldl (\<lambda>a c. 10 * a + (of_char c - 48)) 0 k
            in if show_nat n = k \<and> n < 2 ^ 32 - 1 then Some n else None)
      else None)"

definition own_order :: "(string \<times> 'a) list \<Rightarrow> (string \<times> 'a) list" where
  "own_order es =
     sort_key (\<lambda>(k, v). or_else (array_index k) 0) (filter (\<lambda>(k, v). array_index k \<noteq> None) es) @
     filter (\<lambda>(k, v). array_index k = None) es"

section \<open>Text of a Number\<close>

definition pow10 :: "int \<Rightarrow> rat" where
  "pow10 e = 10 powi e"

text \<open>The least \<open>n\<close> with \<open>x < 10^n\<close>, for a positive double.\<close>

definition dec_exponent :: "rat \<Rightarrow> int" where
  "dec_exponent x = or_else (find_first (\<lambda>n. x < pow10 n) [-330..310]) 0"

text \<open>
  The \<open>k\<close> digit numerals that read back as \<open>x\<close>; of two the closer one.
\<close>

definition digit_candidate :: "rat \<Rightarrow> int \<Rightarrow> nat \<Rightarrow> int option" where
  "digit_candidate x n k =
     (let y = x / pow10 (n - int k);
          ok = (\<lambda>s. 10 ^ (k - 1) \<le> s \<and> s < (10::int) ^ k \<and> fl64 (of_int s * pow10 (n - int k)) = Fin x);
          lo = \<lfloor>y\<rfloor>; hi = lo + 1
      in if ok lo \<and> ok hi then (if y - of_int lo \<le> of_int hi - y then Some lo else Some hi)
         else if ok lo then Some lo else if ok hi then Some hi else None)"

definition shortest_digits :: "rat \<Rightarrow> int \<Rightarrow> string" where
  "shortest_digits x n =
     (case find_first (\<lambda>k. digit_candidate x n k \<noteq> None) [1..<18] of
        Some k \<Rightarrow> show_int (or_else (digit_candidate x n k) 0)
      | None \<Rightarrow> ''0'')"

definition show_positive :: "rat \<Rightarrow> string" where
  "show_positive x =
     (let n = dec_exponent x;
          ds = shortest_digits x n;
          k = int (length ds)
      in if k \<le> n \<and> n \<le> 21 then ds @ replicate (nat (n - k)) (CHR ''0'')
         else if 0 < n \<and> n \<le> 21 then take (nat n) ds @ CHR ''.'' # drop (nat n) ds
         else if -6 < n \<and> n \<le> 0 then ''0.'' @ replicate (nat (- n)) (CHR ''0'') @ ds
         else let e = n - 1; es = (if e < 0 then CHR ''-'' else CHR ''+'') # show_nat (nat \<bar>e\<bar>)
              in (if k = 1 then ds else take 1 ds @ CHR ''.'' # drop 1 ds) @ CHR ''e'' # es)"

fun show_num :: "jsnum \<Rightarrow> string" where
  "show_num NaN = ''NaN''"
| "show_num Infinity = ''Infinity''"
| "show_num NegInfinity = ''-Infinity''"
| "show_num (Fin x) =
     (if x = 0 then ''0'' else if x < 0 then CHR ''-'' # show_positive (- x) else show_positive x)"

section \<open>\<open>JSON.stringify\<close>\<close>

definition hex_digit :: "nat \<Rightarrow> char" where
  "hex_digit d = (if d < 10 then char_of (48 + d) else char_of (87 + d))"

fun escape_char :: "char \<Rightarrow> string" where
  "escape_char c =
     (let n = (of_char c :: nat) in
      if n = 34 then [CHR 0x5C, CHR 0x22]
      else if n = 92 then [CHR 0x5C, CHR 0x5C]
      else if n = 8 then CHR 0x5C # ''b''
      else if n = 12 then CHR 0x5C # ''f''
      else if n = 10 then CHR 0x5C # ''n''
      else if n = 13 then CHR 0x5C # ''r''
      else if n = 9 then CHR 0x5C # ''t''
      else if n < 32 then CHR 0x5C # ''u00'' @ [hex_digit (n div 16), hex_digit (n mod 16)]
      else [c])"

definition quote :: "string \<Rightarrow> string" where
  "quote s = CHR 0x22 # concat (map escape_char s) @ [CHR 0x22]"

fun commas :: "string list \<Rightarrow> string" where
  "commas [] = []"
| "commas [x] = x"
| "commas (x # y # zs) = x @ CHR '','' # commas (y # zs)"

text \<open>A member whose value is undefined is left out; in an array it is null.\<close>

fun stringify :: "json \<Rightarrow> string" and stringify_members :: "(string \<times> json) list \<Rightarrow> string list" where
  "stringify VUndef = ''null''"
| "stringify VNull = ''null''"
| "stringify (VBool b) = (if b then ''true'' else ''false'')"
| "stringify (VNum x) = (if is_finite x then show_num x else ''null'')"
| "stringify (VStr s) = quote s"
| "stringify (VArr xs) = CHR ''['' # commas (map stringify xs) @ '']''"
| "stringify (VObj es) = CHR ''{'' # commas (stringify_members es) @ ''}''"
| "stringify_members [] = []"
| "stringify_members ((k, v) # es) =
     (if v = VUndef then stringify_members es
      else (quote k @ CHR '':'' # stringify v) # stringify_members es)"

end
