(* ===== verification/Tamper_Log.thy ===== *)
theory Tamper_Log
  imports Prelude Js_Json
begin

text \<open>
  The event pipeline and the chain verifier of packages/tamper-logger (types.ts, config.ts,
  pipeline.ts, verify-chain.ts). HMAC-SHA256 in hexadecimal is a parameter \<open>hmac key message\<close>.
\<close>

section \<open>Events\<close>

datatype log_level = Debug | Info | Warn | Level_error | Fatal

fun LEVEL_RANK :: "log_level \<Rightarrow> nat" where
  "LEVEL_RANK Debug = 0"
| "LEVEL_RANK Info = 1"
| "LEVEL_RANK Warn = 2"
| "LEVEL_RANK Level_error = 3"
| "LEVEL_RANK Fatal = 4"

instantiation log_level :: linorder
begin

definition "x \<le> y \<longleftrightarrow> LEVEL_RANK x \<le> LEVEL_RANK y"
definition "x < y \<longleftrightarrow> LEVEL_RANK x < LEVEL_RANK y"

instance
proof
  fix x y :: log_level
  show "x \<le> y \<Longrightarrow> y \<le> x \<Longrightarrow> x = y"
    by (cases x; cases y) (simp_all add: less_eq_log_level_def)
qed (auto simp: less_eq_log_level_def less_log_level_def)

end

datatype log_category = App | Audit | Security

record log_fields =
  level :: log_level
  category :: log_category
  eventCode :: string
  message :: string
  event_context :: "(string \<times> json) list option"
  correlationId :: "string option"
  service :: "string option"
  host :: "string option"

record log_input = log_fields +
  in_ts :: "string option"

record log_event = log_fields +
  ts :: string
  seq :: nat
  prevHash :: string
  signature :: string

fun level_name :: "log_level \<Rightarrow> string" where
  "level_name Debug = ''debug''"
| "level_name Info = ''info''"
| "level_name Warn = ''warn''"
| "level_name Level_error = ''error''"
| "level_name Fatal = ''fatal''"

fun category_name :: "log_category \<Rightarrow> string" where
  "category_name App = ''app''"
| "category_name Audit = ''audit''"
| "category_name Security = ''security''"

definition LOG_LEVELS :: "log_level list" where
  "LOG_LEVELS = [Debug, Info, Warn, Level_error, Fatal]"

definition isLogLevel :: "string \<Rightarrow> bool" where
  "isLogLevel s \<longleftrightarrow> s \<in> set (map level_name LOG_LEVELS)"

definition isLogCategory :: "string \<Rightarrow> bool" where
  "isLogCategory s \<longleftrightarrow> s \<in> set (map category_name [App, Audit, Security])"

definition DEFAULT_REDACTION_KEYS :: "string list" where
  "DEFAULT_REDACTION_KEYS = [''password'', ''token'', ''authorization'', ''secret'', ''api_key'', ''apikey'']"

section \<open>Redaction\<close>

fun starts_with :: "'a list \<Rightarrow> 'a list \<Rightarrow> bool" where
  "starts_with [] ys = True"
| "starts_with (x # xs) [] = False"
| "starts_with (x # xs) (y # ys) = (x = y \<and> starts_with xs ys)"

fun js_includes :: "'a list \<Rightarrow> 'a list \<Rightarrow> bool" where
  "js_includes [] sub = (sub = [])"
| "js_includes (x # xs) sub = (starts_with sub (x # xs) \<or> js_includes xs sub)"

definition sensitive :: "string list \<Rightarrow> string \<Rightarrow> bool" where
  "sensitive redactionKeys key = list_ex (\<lambda>rk. js_includes (to_lower key) (to_lower rk)) redactionKeys"

fun redactValue :: "string list \<Rightarrow> json \<Rightarrow> json"
and redact_items :: "string list \<Rightarrow> json list \<Rightarrow> json list"
and redact_members :: "string list \<Rightarrow> (string \<times> json) list \<Rightarrow> (string \<times> json) list" where
  "redactValue ks (VArr xs) = VArr (redact_items ks xs)"
| "redactValue ks (VObj es) = VObj (redact_members ks es)"
| "redactValue ks v = v"
| "redact_items ks [] = []"
| "redact_items ks (x # xs) = redactValue ks x # redact_items ks xs"
| "redact_members ks [] = []"
| "redact_members ks ((k, v) # es) =
     (k, if sensitive ks k then VStr ''[REDACTED]'' else redactValue ks v) # redact_members ks es"

definition redactEvent :: "string list \<Rightarrow> log_input \<Rightarrow> log_input" where
  "redactEvent ks i = i\<lparr>event_context := map_option (redact_members ks) (event_context i)\<rparr>"

section \<open>Signing\<close>

text \<open>\<open>"0".repeat(64)\<close>.\<close>

definition GENESIS_HASH :: string where
  "GENESIS_HASH = replicate 64 (CHR ''0'')"

record signing_state =
  ss_seq :: nat
  ss_prevHash :: string

text \<open>The clock and the correlation identifiers are arguments; an enriched event has no signature yet.\<close>

definition enrichEvent :: "log_input \<Rightarrow> signing_state \<Rightarrow> string \<Rightarrow> string \<Rightarrow> string \<Rightarrow> string \<Rightarrow> log_event" where
  "enrichEvent i st svc hst newId now =
     \<lparr>level = level i, category = category i, eventCode = eventCode i, message = message i, event_context = event_context i,
      correlationId = Some (or_else (correlationId i) newId), service = Some (or_else (service i) svc),
      host = Some (or_else (host i) hst), ts = or_else (in_ts i) now, seq = ss_seq st, prevHash = ss_prevHash st,
      signature = ''''\<rparr>"

fun sortKeys :: "json \<Rightarrow> json"
and sort_items :: "json list \<Rightarrow> json list"
and sort_members :: "(string \<times> json) list \<Rightarrow> (string \<times> json) list" where
  "sortKeys (VArr xs) = VArr (sort_items xs)"
| "sortKeys (VObj es) = VObj (own_order (sort_key fst (sort_members es)))"
| "sortKeys v = v"
| "sort_items [] = []"
| "sort_items (x # xs) = sortKeys x # sort_items xs"
| "sort_members [] = []"
| "sort_members ((k, v) # es) = (k, sortKeys v) # sort_members es"

fun join_lines :: "string list \<Rightarrow> string" where
  "join_lines [] = []"
| "join_lines [x] = x"
| "join_lines (x # y # zs) = x @ CHR 0x0A # join_lines (y # zs)"

definition context_text :: "(string \<times> json) list option \<Rightarrow> string" where
  "context_text c = (case c of Some es \<Rightarrow> stringify (sortKeys (VObj es)) | None \<Rightarrow> ''{}'')"

definition canonical_fields :: "log_event \<Rightarrow> string list" where
  "canonical_fields e =
     [ts e, level_name (level e), category_name (category e), eventCode e, message e, context_text (event_context e),
      or_else (correlationId e) '''', or_else (service e) '''', or_else (host e) '''', signature e]"

definition canonicalize :: "log_event \<Rightarrow> string" where
  "canonicalize e = join_lines (canonical_fields e)"

definition signed_text :: "log_event \<Rightarrow> string" where
  "signed_text e = prevHash e @ CHR 0x0A # show_nat (seq e) @ CHR 0x0A # canonicalize (e\<lparr>signature := ''''\<rparr>)"

type_synonym mac = "string \<Rightarrow> string \<Rightarrow> string"

definition signEvent :: "mac \<Rightarrow> string \<Rightarrow> log_event \<Rightarrow> log_event" where
  "signEvent hmac key e = e\<lparr>signature := hmac key (signed_text e)\<rparr>"

definition nextState :: "signing_state \<Rightarrow> string \<Rightarrow> signing_state" where
  "nextState st sig = \<lparr>ss_seq = ss_seq st + 1, ss_prevHash = sig\<rparr>"

definition verifySignature :: "mac \<Rightarrow> string \<Rightarrow> log_event \<Rightarrow> bool" where
  "verifySignature hmac key e \<longleftrightarrow> hmac key (signed_text e) = signature e"

section \<open>Verification\<close>

datatype violation_reason = Missing_event | Signature_mismatch | Out_of_order

record chain_verification =
  cv_valid :: bool
  cv_events :: nat
  cv_segments :: nat
  cv_violations :: "(nat \<times> violation_reason) list"

text \<open>The link of one event to the one before it: the violation, if any, and whether a segment begins.\<close>

definition check_link :: "log_event option \<Rightarrow> log_event \<Rightarrow> violation_reason option \<times> bool" where
  "check_link previous e =
     (case previous of
        None \<Rightarrow> if prevHash e \<noteq> GENESIS_HASH then (Some Missing_event, False) else (None, True)
      | Some p \<Rightarrow>
          if prevHash e = signature p
          then if seq e = seq p + 1 then (None, False)
               else if seq e \<le> seq p then (Some Out_of_order, False)
               else (Some Missing_event, False)
          else if prevHash e = GENESIS_HASH then (None, True)
          else (Some Missing_event, False))"

fun verify_loop :: "mac \<Rightarrow> string \<Rightarrow> log_event option \<Rightarrow> log_event list \<Rightarrow> (nat \<times> violation_reason) list \<times> nat" where
  "verify_loop hmac key previous [] = ([], 0)"
| "verify_loop hmac key previous (e # es) =
     (let (v, new) = check_link previous e;
          (vs, segs) = verify_loop hmac key (Some e) es
      in ((case v of Some r \<Rightarrow> [(seq e, r)] | None \<Rightarrow> []) @
          (if verifySignature hmac key e then [] else [(seq e, Signature_mismatch)]) @ vs,
          (if new then 1 else 0) + segs))"

definition verifyChain :: "mac \<Rightarrow> string \<Rightarrow> log_event list \<Rightarrow> chain_verification" where
  "verifyChain hmac key events =
     (let (vs, segs) = verify_loop hmac key None events
      in \<lparr>cv_valid = (vs = []), cv_events = length events, cv_segments = segs, cv_violations = vs\<rparr>)"

end
