(* ===== verification/Tamper_Facts.thy ===== *)
theory Tamper_Facts
  imports Tamper_Log
begin

text \<open>
  What the chain verifier detects: over the events of one chain it accepts, with one segment, exactly
  the non-empty prefixes; a changed field is a signature mismatch unless the fields contain line
  breaks, which the signed text does not tell apart from its separators.
\<close>

section \<open>Chains\<close>

fun chain_from :: "mac \<Rightarrow> string \<Rightarrow> signing_state \<Rightarrow> log_event list \<Rightarrow> bool" where
  "chain_from hmac key st [] = True"
| "chain_from hmac key st (e # es) =
     (seq e = ss_seq st \<and> prevHash e = ss_prevHash st \<and> verifySignature hmac key e \<and>
      chain_from hmac key (nextState st (signature e)) es)"

definition genesis :: signing_state where
  "genesis = \<lparr>ss_seq = 1, ss_prevHash = GENESIS_HASH\<rparr>"

definition chain_end :: "signing_state \<Rightarrow> log_event list \<Rightarrow> signing_state" where
  "chain_end st es = fold (\<lambda>e st. nextState st (signature e)) es st"

lemma chain_from_append:
  "chain_from hmac key st (es @ fs) \<longleftrightarrow> chain_from hmac key st es \<and> chain_from hmac key (chain_end st es) fs"
  by (induction es arbitrary: st) (auto simp: chain_end_def)

lemma chain_from_nth:
  "chain_from hmac key st es \<Longrightarrow> i < length es \<Longrightarrow>
   seq (es ! i) = ss_seq st + i \<and> prevHash (es ! i) = (if i = 0 then ss_prevHash st else signature (es ! (i - 1))) \<and>
   verifySignature hmac key (es ! i)"
proof (induction es arbitrary: st i)
  case (Cons e es)
  show ?case
  proof (cases i)
    case (Suc j)
    with Cons.prems have "chain_from hmac key (nextState st (signature e)) es" "j < length es" by simp_all
    from Cons.IH [OF this] show ?thesis using Suc by (cases j) (auto simp: nextState_def)
  qed (use Cons.prems in simp)
qed simp

definition last_of :: "log_event option \<Rightarrow> log_event list \<Rightarrow> log_event option" where
  "last_of p es = (if es = [] then p else Some (last es))"

lemma verify_loop_append:
  "verify_loop hmac key p (es @ fs) =
   (fst (verify_loop hmac key p es) @ fst (verify_loop hmac key (last_of p es) fs),
    snd (verify_loop hmac key p es) + snd (verify_loop hmac key (last_of p es) fs))"
  by (induction es arbitrary: p) (auto simp: last_of_def Let_def split: prod.splits)

lemma verify_chain_from:
  "chain_from hmac key st es \<Longrightarrow> p \<noteq> None \<Longrightarrow> seq (the p) + 1 = ss_seq st \<Longrightarrow> signature (the p) = ss_prevHash st \<Longrightarrow>
   verify_loop hmac key p es = ([], 0)"
  by (induction es arbitrary: st p) (auto simp: check_link_def nextState_def)

lemma verify_genesis:
  assumes "chain_from hmac key genesis es"
  shows "verify_loop hmac key None es = ([], if es = [] then 0 else 1)"
proof (cases es)
  case (Cons e fs)
  then have "verify_loop hmac key (Some e) fs = ([], 0)"
    using assms by (intro verify_chain_from [of _ _ "nextState genesis (signature e)"]) (auto simp: nextState_def)
  then show ?thesis using Cons assms by (auto simp: check_link_def genesis_def)
qed simp

lemma chain_verifies:
  "chain_from hmac key genesis es \<Longrightarrow>
   verifyChain hmac key es = \<lparr>cv_valid = True, cv_events = length es, cv_segments = (if es = [] then 0 else 1), cv_violations = []\<rparr>"
  by (simp add: verifyChain_def verify_genesis)

section \<open>What one chain's events can be arranged to\<close>

lemma one_segment_prefix:
  assumes "chain_from hmac key genesis es" "distinct (GENESIS_HASH # map signature es)"
  shows "set fs \<subseteq> set es \<Longrightarrow> fst (verify_loop hmac key None fs) = [] \<Longrightarrow> snd (verify_loop hmac key None fs) \<le> 1 \<Longrightarrow>
    fs = take (length fs) es"
proof (induction fs rule: rev_induct)
  case (snoc e fs)
  let ?n = "length fs"
  have split: "fst (verify_loop hmac key None fs) = []" "snd (verify_loop hmac key None fs) \<le> 1"
    "fst (check_link (last_of None fs) e) = None"
    "snd (verify_loop hmac key None fs) + (if snd (check_link (last_of None fs) e) then 1 else 0) \<le> 1"
    using snoc.prems(2,3) by (auto simp: verify_loop_append Let_def split: prod.splits option.splits)
  have IH: "fs = take ?n es" using snoc.IH snoc.prems(1) split(1,2) by simp
  obtain j where j: "j < length es" "e = es ! j" using snoc.prems(1) by (auto simp: in_set_conv_nth)
  note at = chain_from_nth [OF assms(1)]
  have gen: "signature (es ! i) \<noteq> GENESIS_HASH" if "i < length es" for i
    using assms(2) nth_mem [OF that] by (auto simp: image_iff)
  have inj: "i = k" if "i < length es" "k < length es" "signature (es ! i) = signature (es ! k)" for i k
  proof -
    have "distinct (map signature es)" using assms(2) by simp
    then show ?thesis using that nth_eq_iff_index_eq [of "map signature es" i k] by simp
  qed
  have first: "j = 0" if "prevHash e = GENESIS_HASH"
    using at [OF j(1)] that gen [of "j - 1"] j by (auto split: if_splits)
  have "j = ?n"
  proof (cases "fs = []")
    case True
    then show ?thesis using split(3) first by (auto simp: last_of_def check_link_def split: if_splits)
  next
    case False
    then have n: "0 < ?n" "?n \<le> length es" using IH by (auto, metis length_take min.cobounded1)
    have lf: "last fs = es ! (?n - 1)" using False IH n by (metis last_conv_nth nth_take diff_less zero_less_one)
    have "snd (verify_loop hmac key None fs) = 1"
    proof -
      have "fs = hd es # tl fs" "es \<noteq> []" using False IH n by (cases es; cases fs; auto)+
      then show ?thesis using split at [of 0] n
        by (cases fs) (auto simp: check_link_def genesis_def hd_conv_nth Let_def split: prod.splits if_splits)
    qed
    then have "\<not> snd (check_link (Some (last fs)) e)" "fst (check_link (Some (last fs)) e) = None"
      using split(3,4) False by (auto simp: last_of_def split: if_splits)
    then have pe: "prevHash e = signature (es ! (?n - 1))"
      by (auto simp: check_link_def lf split: if_splits)
    have "?n - 1 < length es" using n by linarith
    from gen [OF this] pe have "j \<noteq> 0" using at [OF j(1)] j(2) by (metis genesis_def signing_state.select_convs(2))
    then have "signature (es ! (j - 1)) = signature (es ! (?n - 1))" using at [OF j(1)] j pe by simp
    then have "j - 1 = ?n - 1" using inj [of "j - 1" "?n - 1"] j n by simp
    then show ?thesis using \<open>j \<noteq> 0\<close> n by linarith
  qed
  then show ?case using IH j by (metis append_assoc length_append_singleton take_Suc_conv_app_nth)
qed simp

text \<open>
  C9: Over the events of one chain with pairwise different signatures, none equal to the genesis
  hash, the verifier accepts a file with one segment exactly if the file is a non-empty prefix of the
  chain. Deleting from the beginning or the middle, reordering and repeating events are all
  detected; cutting off the end is not.
\<close>

theorem accepted_iff_prefix:
  assumes "chain_from hmac key genesis es" "distinct (GENESIS_HASH # map signature es)" "set fs \<subseteq> set es"
  shows "cv_valid (verifyChain hmac key fs) \<and> cv_segments (verifyChain hmac key fs) = 1 \<longleftrightarrow>
    fs \<noteq> [] \<and> fs = take (length fs) es"
proof
  assume "cv_valid (verifyChain hmac key fs) \<and> cv_segments (verifyChain hmac key fs) = 1"
  then have "fst (verify_loop hmac key None fs) = []" "snd (verify_loop hmac key None fs) = 1"
    by (auto simp: verifyChain_def split: prod.splits)
  moreover from this have "fs \<noteq> []" by auto
  ultimately show "fs \<noteq> [] \<and> fs = take (length fs) es" using one_segment_prefix [OF assms] by simp
next
  assume r: "fs \<noteq> [] \<and> fs = take (length fs) es"
  then have "es = fs @ drop (length fs) es" by (metis append_take_drop_id)
  then have "chain_from hmac key genesis fs" using assms(1) chain_from_append by metis
  then show "cv_valid (verifyChain hmac key fs) \<and> cv_segments (verifyChain hmac key fs) = 1"
    using r by (simp add: chain_verifies)
qed

section \<open>Changed fields\<close>

definition one_line :: "string \<Rightarrow> bool" where
  "one_line s \<longleftrightarrow> CHR 0x0A \<notin> set s"

lemma one_line_append [simp]: "one_line (a @ b) \<longleftrightarrow> one_line a \<and> one_line b"
  by (auto simp: one_line_def)

lemma one_line_Cons [simp]: "one_line (c # b) \<longleftrightarrow> c \<noteq> CHR 0x0A \<and> one_line b"
  by (auto simp: one_line_def)

lemma one_line_Nil [simp]: "one_line []"
  by (simp add: one_line_def)

lemma newline_split:
  "one_line a \<Longrightarrow> one_line a' \<Longrightarrow> a @ CHR 0x0A # b = a' @ CHR 0x0A # b' \<longleftrightarrow> a = a' \<and> b = b'"
  by (auto simp: one_line_def append_eq_append_conv2 append_eq_Cons_conv Cons_eq_append_conv)

lemma join_lines_inj:
  "list_all one_line xs \<Longrightarrow> list_all one_line ys \<Longrightarrow> length xs = length ys \<Longrightarrow> join_lines xs = join_lines ys \<Longrightarrow> xs = ys"
proof (induction xs arbitrary: ys rule: join_lines.induct)
  case (2 x)
  then show ?case by (cases ys) auto
next
  case (3 x y zs)
  then obtain x' y' zs' where ys: "ys = x' # y' # zs'" by (cases ys; cases "tl ys") auto
  with 3 have "x = x'" "join_lines (y # zs) = join_lines (y' # zs')" by (auto simp: newline_split)
  moreover have "y # zs = y' # zs'" using "3.IH" [of "y' # zs'"] "3.prems" ys calculation(2) by simp
  ultimately show ?case using ys by simp
qed simp

text \<open>JSON text contains no line break.\<close>

lemma char_of_not_newline: "n \<noteq> 10 \<Longrightarrow> n < 256 \<Longrightarrow> char_of n \<noteq> CHR 0x0A" for n :: nat
  by (simp add: char_of_eq_iff take_bit_eq_mod)

lemma one_line_show_nat [simp]: "one_line (show_nat n)"
proof (induction n rule: show_nat.induct)
  case (1 n)
  then show ?case
    by (subst show_nat.simps) (auto simp: char_of_not_newline dest: char_of_not_newline)
qed

lemma last_show_nat: "show_nat n \<noteq> [] \<and> last (show_nat n) = char_of (48 + n mod 10)"
  using show_nat.simps [of n] by (cases "n < 10") simp_all

lemma show_nat_inj: "show_nat m = show_nat n \<Longrightarrow> m = n"
proof (induction m arbitrary: n rule: show_nat.induct)
  case (1 m)
  have "char_of (48 + m mod 10) = (char_of (48 + n mod 10) :: char)" using 1 last_show_nat by metis
  then have "(48 + m mod 10) mod 256 = (48 + n mod 10) mod 256"
    by (metis of_char_of)
  then have d: "m mod 10 = n mod 10" by simp
  show ?case
  proof (cases "m < 10 \<or> n < 10")
    case True
    have "length (show_nat k) = 1 \<longleftrightarrow> k < 10" for k
      by (subst show_nat.simps) (auto simp: last_show_nat)
    then have "m < 10" "n < 10" using True 1(2) by metis+
    then show ?thesis using d by simp
  next
    case False
    then have "show_nat (m div 10) = show_nat (n div 10)"
      using 1(2) show_nat.simps [of m] show_nat.simps [of n] by simp
    then have "m div 10 = n div 10" using 1(1) False by simp
    then show ?thesis using d by (metis div_mult_mod_eq)
  qed
qed

lemma one_line_show_int [simp]: "one_line (show_int i)"
  by (simp add: show_int_def)

lemma one_line_take_drop: "one_line s \<Longrightarrow> one_line (take n s) \<and> one_line (drop n s)"
  by (auto simp: one_line_def dest: in_set_takeD in_set_dropD)

lemma one_line_replicate [simp]: "one_line (replicate n c) \<longleftrightarrow> n = 0 \<or> c \<noteq> CHR 0x0A"
  by (auto simp: one_line_def)

lemma one_line_show_num [simp]: "one_line (show_num x)"
proof -
  have sp: "one_line (show_positive y)" for y
    unfolding show_positive_def shortest_digits_def Let_def
    by (auto simp: one_line_take_drop split: option.splits)
  then show ?thesis by (cases x) auto
qed

lemma one_line_escape: "one_line (escape_char c)"
proof -
  have hex: "hex_digit d \<noteq> CHR 0x0A" if "d < 16" for d
    using that by (auto simp: hex_digit_def char_of_eq_iff take_bit_eq_mod)
  have "of_char c < (256 :: nat)" by simp
  then show ?thesis by (auto simp: Let_def hex)
qed

lemma one_line_quote [simp]: "one_line (quote s)"
  unfolding quote_def using one_line_escape by (induction s) (auto simp del: escape_char.simps)

lemma one_line_commas: "list_all one_line xs \<Longrightarrow> one_line (commas xs)"
  by (induction xs rule: commas.induct) auto

lemma one_line_stringify: "one_line (stringify v)" "list_all one_line (stringify_members es)"
proof (induction v and es rule: stringify_stringify_members.induct)
  case (6 xs)
  then show ?case by (auto intro!: one_line_commas simp: list_all_iff)
qed (auto intro!: one_line_commas)

definition plain_fields :: "log_event \<Rightarrow> bool" where
  "plain_fields e \<longleftrightarrow>
     list_all one_line [prevHash e, ts e, eventCode e, message e, or_else (correlationId e) '''',
       or_else (service e) '''', or_else (host e) '''']"

lemma one_line_context: "one_line (context_text c)"
  unfolding context_text_def by (cases c) (simp_all del: sortKeys.simps stringify.simps add: one_line_stringify(1))

lemma canonical_one_line: "plain_fields e \<Longrightarrow> list_all one_line (canonical_fields (e\<lparr>signature := ''''\<rparr>))"
  by (cases "level e"; cases "category e")
    (auto simp: plain_fields_def canonical_fields_def one_line_context)

text \<open>The content a signature stands for.\<close>

definition signed_content :: "log_event \<Rightarrow> string \<times> nat \<times> string list" where
  "signed_content e = (prevHash e, seq e, canonical_fields (e\<lparr>signature := ''''\<rparr>))"

lemma signed_text_inj:
  assumes "plain_fields e" "plain_fields e'" "signed_text e = signed_text e'"
  shows "signed_content e = signed_content e'"
proof -
  have p: "one_line (prevHash e)" "one_line (prevHash e')" using assms by (simp_all add: plain_fields_def)
  have "prevHash e = prevHash e' \<and> show_nat (seq e) = show_nat (seq e') \<and>
      canonicalize (e\<lparr>signature := ''''\<rparr>) = canonicalize (e'\<lparr>signature := ''''\<rparr>)"
    using assms(3) p unfolding signed_text_def by (simp add: newline_split)
  moreover from this have "canonical_fields (e\<lparr>signature := ''''\<rparr>) = canonical_fields (e'\<lparr>signature := ''''\<rparr>)"
    using canonical_one_line assms(1,2) by (intro join_lines_inj) (auto simp: canonicalize_def canonical_fields_def)
  ultimately show ?thesis by (simp add: signed_content_def show_nat_inj)
qed

lemma violation_kept:
  "(n, r) \<in> set (fst (verify_loop hmac key (last_of None as) (e # bs))) \<Longrightarrow>
   (n, r) \<in> set (cv_violations (verifyChain hmac key (as @ e # bs)))"
  by (auto simp: verifyChain_def verify_loop_append split: prod.splits)

text \<open>
  An event whose signed content was changed while its signature was kept is reported as a
  signature mismatch wherever it stands in the file, if its text fields have no line breaks and the
  keyed hash does not collide on the two signed texts.
\<close>

theorem changed_field_detected:
  assumes "verifySignature hmac key e" "signature e' = signature e" "signed_content e' \<noteq> signed_content e"
    and "plain_fields e" "plain_fields e'" "inj_on (hmac key) {signed_text e, signed_text e'}"
  shows "\<not> cv_valid (verifyChain hmac key (as @ e' # bs)) \<and>
    (seq e', Signature_mismatch) \<in> set (cv_violations (verifyChain hmac key (as @ e' # bs)))"
proof -
  have "signed_text e' \<noteq> signed_text e" using signed_text_inj [OF assms(5,4)] assms(3) by blast
  then have "\<not> verifySignature hmac key e'"
    using assms(1,2,6) by (auto simp: verifySignature_def inj_on_def)
  then have "(seq e', Signature_mismatch) \<in> set (cv_violations (verifyChain hmac key (as @ e' # bs)))"
    by (intro violation_kept) (auto simp: Let_def split: prod.splits)
  then show ?thesis by (auto simp: verifyChain_def split: prod.splits)
qed

text \<open>
  Text may be moved across a line break between two neighbouring fields without invalidating the
  signature: an event with code \<open>a\<close> and message \<open>b\<close>, line break, \<open>c\<close> verifies exactly when the event with code
  \<open>a\<close>, line break, \<open>b\<close> and message \<open>c\<close> does, for every keyed hash.
\<close>

theorem newline_shift_unseen:
  "verifySignature hmac key (e\<lparr>eventCode := a, message := b @ CHR 0x0A # c\<rparr>) =
   verifySignature hmac key (e\<lparr>eventCode := a @ CHR 0x0A # b, message := c\<rparr>)"
  by (simp add: verifySignature_def signed_text_def canonicalize_def canonical_fields_def)

section \<open>Concrete files\<close>

definition sample_mac :: mac where
  "sample_mac key m = key @ m"

lemma verify_sign [simp]: "verifySignature hmac key (signEvent hmac key e)"
  by (simp add: verifySignature_def signEvent_def signed_text_def canonicalize_def canonical_fields_def)

text \<open>The \<open>n\<close>th event of a file, and the previous one's signature as its link.\<close>

fun sample_event :: "nat \<Rightarrow> log_event" where
  "sample_event n =
     signEvent sample_mac ''k''
       \<lparr>level = Info, category = Audit, eventCode = ''login_failed'', message = ''m'', event_context = None,
        correlationId = None, service = None, host = None, ts = ''2026'', seq = n,
        prevHash = (if n \<le> 1 then GENESIS_HASH else signature (sample_event (n - 1))), signature = ''''\<rparr>"

declare sample_event.simps [simp del]

lemma sample_event_fields:
  "seq (sample_event n) = n" "verifySignature sample_mac ''k'' (sample_event n)"
  "prevHash (sample_event n) = (if n \<le> 1 then GENESIS_HASH else signature (sample_event (n - 1)))"
  "eventCode (sample_event n) = ''login_failed''"
  by (subst sample_event.simps; simp add: signEvent_def [symmetric]; simp add: signEvent_def)+

lemma sample_signature: "signature (sample_event n) = CHR ''k'' # signed_text (sample_event n)"
  using sample_event_fields(2) [of n] by (simp add: verifySignature_def sample_mac_def)

lemma sample_chain: "chain_from sample_mac ''k'' genesis [sample_event 1, sample_event 2]"
  "distinct (GENESIS_HASH # map signature [sample_event 1, sample_event 2])"
proof -
  have "length (signature (sample_event 2)) > length (prevHash (sample_event 2))"
    by (subst sample_signature) (simp add: signed_text_def)
  then have "signature (sample_event 2) \<noteq> signature (sample_event 1)" by (auto simp: sample_event_fields)
  moreover have "signature (sample_event n) \<noteq> GENESIS_HASH" for n
    by (simp add: sample_signature GENESIS_HASH_def numeral_eq_Suc)
  ultimately show "distinct (GENESIS_HASH # map signature [sample_event 1, sample_event 2])" by (metis (no_types, lifting)
        distinct_length_2_or_more distinct_singleton list.simps(8,9))
qed (simp add: sample_event_fields genesis_def nextState_def)

lemma accepted_iff_prefix_witness:
  "cv_segments (verifyChain sample_mac ''k'' [sample_event 1]) = 1 \<and>
   \<not> (cv_valid (verifyChain sample_mac ''k'' [sample_event 2]) \<and>
      cv_segments (verifyChain sample_mac ''k'' [sample_event 2]) = 1)"
proof -
  have "sample_event 1 \<noteq> sample_event 2" by (metis numeral_One sample_event_fields(1) semiring_norm(85) numeral_eq_iff)
  then show ?thesis
    using accepted_iff_prefix [OF sample_chain, of "[sample_event 1]"] accepted_iff_prefix [OF sample_chain, of "[sample_event 2]"]
    by simp
qed

lemma changed_field_detected_witness:
  "\<not> cv_valid (verifyChain sample_mac ''k'' [(sample_event 1)\<lparr>message := ''x''\<rparr>])"
proof -
  have f: "message (sample_event n) = ''m''" "correlationId (sample_event n) = None" "service (sample_event n) = None"
    "host (sample_event n) = None" "ts (sample_event n) = ''2026''" for n
    by (subst sample_event.simps, simp add: signEvent_def)+
  show ?thesis
    using changed_field_detected [where e = "sample_event 1" and e' = "(sample_event 1)\<lparr>message := ''x''\<rparr>" and
        hmac = sample_mac and key = "''k''" and as = "[]" and bs = "[]"]
    by (simp add: sample_event_fields signed_content_def canonical_fields_def f plain_fields_def GENESIS_HASH_def
        inj_on_def sample_mac_def one_line_def or_else_def)
qed

end
