(* ===== verification/Tamper_Logger.thy ===== *)
theory Tamper_Logger
  imports Tamper_Facts
begin

text \<open>
  The \<open>TamperLogger\<close> of packages/tamper-logger/src/tamper-logger.ts with its alert notifier
  (sinks/alert-notifier.ts) as a state machine. A call of \<open>log\<close> runs to its first await; an
  audit or security call then waits for the flush it started and goes on in a later step. Writes are
  tasks of one queue (\<open>writeChain\<close>), delivered in order; whether each sink accepts a write is part of
  the step. The clock, the identifiers and the keyed hash are arguments.
\<close>

section \<open>Configuration and state\<close>

record logger_options =
  o_level :: "log_level option"
  o_sinks :: nat
  o_redactionKeys :: "string list option"
  o_batchSize :: "nat option"
  o_ringBufferSize :: "nat option"
  o_signingKey :: string
  o_service :: string
  o_host :: "string option"
  o_validator :: "(string \<Rightarrow> bool) option"
  o_alerts :: "(nat \<times> string list \<times> int option) option"   \<comment> \<open>sinks, event codes, cooldown\<close>

record logger_config =
  lc_level :: log_level
  lc_redactionKeys :: "string list"
  lc_batchSize :: nat
  lc_ringBufferSize :: nat
  lc_signingKey :: string
  lc_service :: string
  lc_host :: string
  lc_validator :: "(string \<Rightarrow> bool) option"
  lc_alertCodes :: "string list"
  lc_cooldownMs :: int

record write_task =
  task_events :: "log_event list"
  failClosed :: bool

record logger =
  chain :: signing_state
  pending :: "log_event list"
  ring :: "log_event list"
  dropped_error :: nat
  dropped_nonError :: nat
  closed :: bool
  degraded :: bool
  lastFlushAt :: "string option"
  queue :: "write_task list"
  enqueued :: nat
  completed :: nat
  waiting :: "(nat \<times> log_event) list"
  files :: "log_event list list"
  rejected_calls :: "log_event list"
  lastNotified :: "(string, int) jsmap"
  alerted :: "log_event list"

datatype logger_error = No_sinks | Empty_signing_key | Logger_closed | Invalid_event_code

definition new_logger :: "logger_options \<Rightarrow> logger_error + logger_config \<times> logger" where
  "new_logger opts =
     (if o_sinks opts = 0 then Inl No_sinks
      else if js_trim (o_signingKey opts) = [] then Inl Empty_signing_key
      else
        let (codes, cool) =
              (case o_alerts opts of
                 Some (n, cs, c) \<Rightarrow> if 0 < n then (cs, or_else c 300000) else ([], 300000)
               | None \<Rightarrow> ([], 300000))
        in Inr
          (\<lparr>lc_level = or_else (o_level opts) Debug,
            lc_redactionKeys = or_else (o_redactionKeys opts) DEFAULT_REDACTION_KEYS,
            lc_batchSize = or_else (o_batchSize opts) 50, lc_ringBufferSize = or_else (o_ringBufferSize opts) 1024,
            lc_signingKey = o_signingKey opts, lc_service = o_service opts, lc_host = or_else (o_host opts) ''unknown'',
            lc_validator = o_validator opts, lc_alertCodes = codes, lc_cooldownMs = cool\<rparr>,
           \<lparr>chain = genesis, pending = [], ring = [], dropped_error = 0, dropped_nonError = 0, closed = False,
            degraded = False, lastFlushAt = None, queue = [], enqueued = 0, completed = 0, waiting = [],
            files = replicate (o_sinks opts) [], rejected_calls = [], lastNotified = [], alerted = []\<rparr>))"

section \<open>Writing\<close>

definition writeSerialized :: "log_event list \<Rightarrow> bool \<Rightarrow> logger \<Rightarrow> logger" where
  "writeSerialized es fc st =
     st\<lparr>queue := queue st @ [\<lparr>task_events = es, failClosed = fc\<rparr>], enqueued := enqueued st + 1\<rparr>"

text \<open>The result is the number of tasks whose completion the caller waits for.\<close>

definition flush :: "logger \<Rightarrow> nat \<times> logger" where
  "flush st =
     (if pending st = [] then (0, st)
      else let st' = writeSerialized (pending st) False (st\<lparr>pending := []\<rparr>) in (enqueued st', st'))"

definition pushRing :: "nat \<Rightarrow> log_event \<Rightarrow> log_event list \<Rightarrow> log_event list" where
  "pushRing cap e r = (let r' = r @ [e] in if length r' > cap then tl r' else r')"

text \<open>The events of a batch that are due for a notification: all judged before any of them is recorded.\<close>

definition due_alerts :: "logger_config \<Rightarrow> int \<Rightarrow> (string, int) jsmap \<Rightarrow> log_event list \<Rightarrow> log_event list" where
  "due_alerts cfg now notified es =
     filter (\<lambda>e. eventCode e \<in> set (lc_alertCodes cfg) \<and>
               \<not> (case js_get notified (eventCode e) of Some t \<Rightarrow> now - t < lc_cooldownMs cfg | None \<Rightarrow> False)) es"

definition is_error :: "log_event \<Rightarrow> bool" where
  "is_error e \<longleftrightarrow> level e = Level_error \<or> level e = Fatal"

definition count_drops :: "log_event list \<Rightarrow> logger \<Rightarrow> logger" where
  "count_drops es st =
     st\<lparr>dropped_error := dropped_error st + length (filter is_error es),
        dropped_nonError := dropped_nonError st + length (filter (\<lambda>e. \<not> is_error e) es),
        degraded := degraded st \<or> list_ex is_error es\<rparr>"

text \<open>One task: \<open>oks\<close> tells which sinks accept it, \<open>alertOk\<close> whether the alert sinks do.\<close>

definition deliver :: "logger_config \<Rightarrow> bool list \<Rightarrow> bool \<Rightarrow> int \<Rightarrow> string \<Rightarrow> write_task \<Rightarrow> logger \<Rightarrow> logger" where
  "deliver cfg oks alertOk nowMs now t st =
     (let es = task_events t;
          due = due_alerts cfg nowMs (lastNotified st) es;
          st1 = st\<lparr>files := map2 (\<lambda>ok f. if ok then f @ es else f) oks (files st),
                   alerted := alerted st @ due,
                   lastNotified := (if alertOk then fold (\<lambda>e m. js_set (eventCode e) nowMs m) due (lastNotified st)
                                    else lastNotified st)\<rparr>
      in if list_all (\<lambda>ok. ok) oks then st1\<lparr>lastFlushAt := Some now\<rparr>
         else if failClosed t then st1\<lparr>rejected_calls := rejected_calls st1 @ es\<rparr>
         else count_drops es (st1\<lparr>lastFlushAt := Some now\<rparr>))"

definition deliver_next :: "logger_config \<Rightarrow> bool list \<Rightarrow> bool \<Rightarrow> int \<Rightarrow> string \<Rightarrow> logger \<Rightarrow> logger" where
  "deliver_next cfg oks alertOk nowMs now st =
     (case queue st of
        [] \<Rightarrow> st
      | t # rest \<Rightarrow> deliver cfg oks alertOk nowMs now t (st\<lparr>queue := rest, completed := completed st + 1\<rparr>))"

section \<open>Logging\<close>

definition accepts :: "logger_config \<Rightarrow> log_input \<Rightarrow> bool" where
  "accepts cfg i \<longleftrightarrow> (case lc_validator cfg of None \<Rightarrow> True | Some v \<Rightarrow> v (eventCode i))"

definition filtered_out :: "logger_config \<Rightarrow> log_input \<Rightarrow> bool" where
  "filtered_out cfg i \<longleftrightarrow> category i = App \<and> level i < lc_level cfg"

definition sign_input :: "mac \<Rightarrow> logger_config \<Rightarrow> string \<Rightarrow> string \<Rightarrow> log_input \<Rightarrow> signing_state \<Rightarrow> log_event" where
  "sign_input hmac cfg newId now i st =
     signEvent hmac (lc_signingKey cfg)
       (enrichEvent (redactEvent (lc_redactionKeys cfg) i) st (lc_service cfg) (lc_host cfg) newId now)"

definition advance :: "logger_config \<Rightarrow> log_event \<Rightarrow> logger \<Rightarrow> logger" where
  "advance cfg e st =
     st\<lparr>chain := nextState (chain st) (signature e), ring := pushRing (lc_ringBufferSize cfg) e (ring st)\<rparr>"

text \<open>The call up to its first await; the event it signed, if any.\<close>

definition log_call :: "mac \<Rightarrow> logger_config \<Rightarrow> string \<Rightarrow> string \<Rightarrow> log_input \<Rightarrow> logger \<Rightarrow> logger_error + log_event option \<times> logger" where
  "log_call hmac cfg newId now i st =
     (if closed st then Inl Logger_closed
      else if \<not> accepts cfg i then Inl Invalid_event_code
      else if filtered_out cfg i then Inr (None, st)
      else
        let e = sign_input hmac cfg newId now i (chain st);
            st1 = advance cfg e st
        in if category i = App
           then let st2 = st1\<lparr>pending := pending st1 @ [e]\<rparr>
                in Inr (Some e, if length (pending st2) \<ge> lc_batchSize cfg then snd (flush st2) else st2)
           else let (n, st2) = flush st1 in Inr (Some e, st2\<lparr>waiting := waiting st2 @ [(n, e)]\<rparr>))"

text \<open>An audit or security call whose flush is complete writes its event.\<close>

definition ready :: "logger \<Rightarrow> nat \<Rightarrow> bool" where
  "ready st k \<longleftrightarrow> k < length (waiting st) \<and> fst (waiting st ! k) \<le> completed st"

definition resume :: "nat \<Rightarrow> logger \<Rightarrow> logger" where
  "resume k st =
     writeSerialized [snd (waiting st ! k)] True
       (st\<lparr>waiting := take k (waiting st) @ drop (Suc k) (waiting st)\<rparr>)"

definition timer_tick :: "logger \<Rightarrow> logger" where
  "timer_tick st = (if closed st then st else snd (flush st))"

definition close :: "logger \<Rightarrow> logger" where
  "close st = (if closed st then st else snd (flush (st\<lparr>closed := True\<rparr>)))"

section \<open>Queries\<close>

definition droppedEvents :: "logger \<Rightarrow> nat \<times> nat \<times> nat" where
  "droppedEvents st = (dropped_error st, dropped_nonError st, dropped_error st + dropped_nonError st)"

text \<open>\<open>slice(-count)\<close>; of 0 it is the whole list.\<close>

definition recentEvents :: "logger_config \<Rightarrow> nat option \<Rightarrow> logger \<Rightarrow> log_event list" where
  "recentEvents cfg limit st =
     (let count = or_else limit (lc_ringBufferSize cfg)
      in if count = 0 then ring st else drop (length (ring st) - count) (ring st))"

definition healthy :: "logger \<Rightarrow> bool" where
  "healthy st \<longleftrightarrow> \<not> (degraded st \<or> dropped_error st > 0)"

end
