(* ===== verification/Logger_Facts.thy ===== *)
theory Logger_Facts
  imports Tamper_Logger "HOL-Library.Multiset"
begin

text \<open>
  The logger as a transition system: what every interleaving keeps (no event is lost or invented,
  the signed events are one chain, the ring holds the newest, no audit event is counted as dropped),
  the order of the files when every call is awaited, and a race that breaks it.
\<close>

section \<open>Reachable states\<close>

text \<open>
  \<open>run cfg hmac done_events handed st\<close>: the logger is in state \<open>st\<close> after signing \<open>done_events\<close> and handing
  \<open>handed\<close> to its sinks, each in that order.
\<close>

inductive run :: "mac \<Rightarrow> logger_config \<Rightarrow> log_event list \<Rightarrow> log_event list \<Rightarrow> logger \<Rightarrow> bool"
  for hmac :: mac and cfg :: logger_config where
  start: "new_logger opts = Inr (cfg, st) \<Longrightarrow> run hmac cfg [] [] st"
| log: "run hmac cfg done_events handed st \<Longrightarrow> log_call hmac cfg newId now i st = Inr (e, st') \<Longrightarrow>
    run hmac cfg (done_events @ (case e of None \<Rightarrow> [] | Some e \<Rightarrow> [e])) handed st'"
| resume: "run hmac cfg done_events handed st \<Longrightarrow> ready st k \<Longrightarrow> run hmac cfg done_events handed (resume k st)"
| deliver: "run hmac cfg done_events handed st \<Longrightarrow> queue st = t # rest \<Longrightarrow> length oks = length (files st) \<Longrightarrow>
    run hmac cfg done_events (handed @ task_events t) (deliver_next cfg oks alertOk nowMs now st)"
| tick: "run hmac cfg done_events handed st \<Longrightarrow> run hmac cfg done_events handed (timer_tick st)"
| close: "run hmac cfg done_events handed st \<Longrightarrow> run hmac cfg done_events handed (Tamper_Logger.close st)"

inductive_cases run_stepE: "run hmac cfg done_events handed st"

section \<open>Projections\<close>

lemma writeSerialized_simps [simp]:
  "chain (writeSerialized es fc st) = chain st" "pending (writeSerialized es fc st) = pending st"
  "ring (writeSerialized es fc st) = ring st" "files (writeSerialized es fc st) = files st"
  "waiting (writeSerialized es fc st) = waiting st" "closed (writeSerialized es fc st) = closed st"
  "dropped_error (writeSerialized es fc st) = dropped_error st"
  "dropped_nonError (writeSerialized es fc st) = dropped_nonError st"
  "queue (writeSerialized es fc st) = queue st @ [\<lparr>task_events = es, failClosed = fc\<rparr>]"
  "completed (writeSerialized es fc st) = completed st" "enqueued (writeSerialized es fc st) = enqueued st + 1"
  "rejected_calls (writeSerialized es fc st) = rejected_calls st"
  by (simp_all add: writeSerialized_def)

definition flushed_tasks :: "log_event list \<Rightarrow> write_task list" where
  "flushed_tasks es = (if es = [] then [] else [\<lparr>task_events = es, failClosed = False\<rparr>])"

lemma flush_simps [simp]:
  "chain (snd (flush st)) = chain st" "pending (snd (flush st)) = []" "ring (snd (flush st)) = ring st"
  "files (snd (flush st)) = files st" "waiting (snd (flush st)) = waiting st" "closed (snd (flush st)) = closed st"
  "dropped_error (snd (flush st)) = dropped_error st" "dropped_nonError (snd (flush st)) = dropped_nonError st"
  "queue (snd (flush st)) = queue st @ flushed_tasks (pending st)" "completed (snd (flush st)) = completed st"
  "rejected_calls (snd (flush st)) = rejected_calls st"
  by (simp_all add: flush_def Let_def flushed_tasks_def)

lemma deliver_simps [simp]:
  "chain (deliver cfg oks a n w t st) = chain st" "pending (deliver cfg oks a n w t st) = pending st"
  "ring (deliver cfg oks a n w t st) = ring st" "waiting (deliver cfg oks a n w t st) = waiting st"
  "queue (deliver cfg oks a n w t st) = queue st" "completed (deliver cfg oks a n w t st) = completed st"
  "closed (deliver cfg oks a n w t st) = closed st"
  "files (deliver cfg oks a n w t st) = map2 (\<lambda>ok f. if ok then f @ task_events t else f) oks (files st)"
  by (simp_all add: deliver_def Let_def count_drops_def)

lemma advance_simps [simp]:
  "chain (advance cfg e st) = nextState (chain st) (signature e)" "pending (advance cfg e st) = pending st"
  "waiting (advance cfg e st) = waiting st" "queue (advance cfg e st) = queue st" "closed (advance cfg e st) = closed st"
  "files (advance cfg e st) = files st" "completed (advance cfg e st) = completed st"
  "ring (advance cfg e st) = pushRing (lc_ringBufferSize cfg) e (ring st)"
  "rejected_calls (advance cfg e st) = rejected_calls st" "dropped_error (advance cfg e st) = dropped_error st" "dropped_nonError (advance cfg e st) = dropped_nonError st"
  by (simp_all add: advance_def)

definition queued :: "logger \<Rightarrow> log_event list" where
  "queued st = concat (map task_events (queue st))"

lemma flushed_tasks_events [simp]: "concat (map task_events (flushed_tasks es)) = es"
  by (simp add: flushed_tasks_def)

lemma sign_input_chain:
  "seq (sign_input hmac cfg n w i st) = ss_seq st" "prevHash (sign_input hmac cfg n w i st) = ss_prevHash st"
  "verifySignature hmac (lc_signingKey cfg) (sign_input hmac cfg n w i st)"
  "category (sign_input hmac cfg n w i st) = category i" "level (sign_input hmac cfg n w i st) = level i"
  by (simp_all add: sign_input_def signEvent_def enrichEvent_def redactEvent_def verifySignature_def signed_text_def
      canonicalize_def canonical_fields_def)

text \<open>What a call that signs an event does.\<close>

lemma log_call_cases:
  assumes "log_call hmac cfg n w i st = Inr (r, st')"
  obtains (skipped) "r = None" "st' = st" "category i = App"
  | (app) e where "r = Some e" "e = sign_input hmac cfg n w i (chain st)" "category i = App"
      "st' = (let st2 = (advance cfg e st)\<lparr>pending := pending st @ [e]\<rparr>
              in if length (pending st2) \<ge> lc_batchSize cfg then snd (flush st2) else st2)"
  | (audit) e where "r = Some e" "e = sign_input hmac cfg n w i (chain st)" "category i \<noteq> App"
      "st' = (let f = flush (advance cfg e st) in (snd f)\<lparr>waiting := waiting st @ [(fst f, e)]\<rparr>)"
proof -
  have live: "\<not> closed st" "accepts cfg i" using assms by (auto simp: log_call_def split: if_splits)
  show thesis
  proof (cases "filtered_out cfg i")
    case True
    then show thesis using assms live skipped by (simp add: log_call_def filtered_out_def)
  next
    case False
    show thesis
    proof (cases "category i = App")
      case True
      then show thesis using assms live False app by (simp add: log_call_def Let_def cong: if_cong)
    next
      case na: False
      then show thesis using assms live False audit by (simp add: log_call_def Let_def case_prod_beta cong: if_cong)
    qed
  qed
qed

section \<open>No event is lost\<close>

definition held :: "logger \<Rightarrow> log_event multiset" where
  "held st = mset (queued st) + mset (map snd (waiting st)) + mset (pending st)"

lemma held_flush [simp]: "held (snd (flush st)) = held st"
  by (simp add: held_def queued_def)

lemma remove_nth_mset: "k < length xs \<Longrightarrow> mset (take k xs @ drop (Suc k) xs) + {#xs ! k#} = mset xs"
  by (metis id_take_nth_drop mset_append mset.simps(2) add_mset_add_single union_mset_add_mset_right)

lemma held_resume: "ready st k \<Longrightarrow> held (resume k st) = held st"
proof -
  assume "ready st k"
  then have k: "k < length (map snd (waiting st))" by (simp add: ready_def)
  show ?thesis
    using remove_nth_mset [OF k] k
    by (simp add: held_def resume_def queued_def take_map drop_map ac_simps)
qed

lemma held_deliver: "queue st = t # rest \<Longrightarrow> held st = mset (task_events t) + held (deliver_next cfg oks a n w st)"
  by (simp add: held_def deliver_next_def queued_def ac_simps)

lemma held_log:
  assumes "log_call hmac cfg n w i st = Inr (r, st')"
  shows "held st' = held st + mset (case r of None \<Rightarrow> [] | Some e \<Rightarrow> [e])"
  using assms
proof (cases rule: log_call_cases)
  case (app e)
  then show ?thesis by (auto simp: Let_def held_def queued_def)
next
  case (audit e)
  then show ?thesis by (auto simp: Let_def held_def queued_def)
qed simp


section \<open>The ring\<close>

lemma ring_push:
  "pushRing cap e (drop (length xs - cap) xs) = drop (length (xs @ [e]) - cap) (xs @ [e])"
proof (cases "length xs < cap")
  case True
  then show ?thesis by (simp add: pushRing_def)
next
  case False
  then have "pushRing cap e (drop (length xs - cap) xs) = tl (drop (length xs - cap) xs @ [e])"
    by (simp add: pushRing_def)
  also have "\<dots> = drop (Suc (length xs - cap)) (xs @ [e])"
    by (metis append_Nil2 diff_diff_cancel diff_is_0_eq diff_le_self drop_Suc drop_append drop_0 tl_drop)
  finally show ?thesis using False by (simp add: Suc_diff_le)
qed

text \<open>
  The ring buffer always holds the newest signed events, in order, at most its capacity.
\<close>

theorem ring_holds_newest:
  assumes "run hmac cfg done_events handed st"
  shows "ring st = drop (length done_events - lc_ringBufferSize cfg) done_events"
  using assms
proof (induction rule: run.induct)
  case (start opts st)
  then show ?case by (auto simp: new_logger_def Let_def split: if_splits prod.splits)
next
  case (log done_events handed st newId now i e st')
  then show ?case
    by (cases rule: log_call_cases [OF log.hyps(2)])
      (auto simp: Let_def ring_push simp del: length_append drop_append)
qed (simp_all add: resume_def deliver_next_def timer_tick_def Tamper_Logger.close_def)

section \<open>Fail closed\<close>

definition task_ok :: "write_task \<Rightarrow> bool" where
  "task_ok t \<longleftrightarrow> (if failClosed t then \<exists>e. task_events t = [e] \<and> category e \<noteq> App
                 else list_all (\<lambda>e. category e = App) (task_events t))"

definition sorted_out :: "logger \<Rightarrow> bool" where
  "sorted_out st \<longleftrightarrow> list_all (\<lambda>e. category e = App) (pending st) \<and>
     list_all (\<lambda>(n, e). category e \<noteq> App) (waiting st) \<and> list_all task_ok (queue st)"

lemma flushed_tasks_ok: "list_all (\<lambda>e. category e = App) es \<Longrightarrow> list_all task_ok (flushed_tasks es)"
  by (simp add: flushed_tasks_def task_ok_def)

lemma run_sorted_out: "run hmac cfg done_events handed st \<Longrightarrow> sorted_out st"
proof (induction rule: run.induct)
  case (start opts st)
  then show ?case by (auto simp: new_logger_def sorted_out_def Let_def split: if_splits prod.splits)
next
  case (log done_events handed st newId now i e st')
  then show ?case
    by (cases rule: log_call_cases [OF log.hyps(2)])
      (auto simp: Let_def sorted_out_def sign_input_chain flushed_tasks_ok)
next
  case (resume done_events handed st k)
  then have "category (snd (waiting st ! k)) \<noteq> App"
    by (auto simp: sorted_out_def ready_def list_all_length case_prod_beta)
  then show ?case using resume by (auto simp: sorted_out_def resume_def task_ok_def dest: in_set_takeD in_set_dropD simp: list_all_iff)
qed (auto simp: sorted_out_def timer_tick_def Tamper_Logger.close_def deliver_next_def flushed_tasks_ok)

text \<open>What one delivery does to the files, to the calls and to the counters.\<close>

definition accounted :: "log_event list \<Rightarrow> logger \<Rightarrow> bool" where
  "accounted handed st \<longleftrightarrow>
     (\<forall>e \<in> set handed. category e \<noteq> App \<longrightarrow> e \<in> set (rejected_calls st) \<or> (\<forall>f \<in> set (files st). e \<in> set f)) \<and>
     dropped_error st + dropped_nonError st \<le> length (filter (\<lambda>e. category e = App) handed)"

lemma deliver_rejected:
  "rejected_calls (deliver cfg oks a n w t st) =
     rejected_calls st @ (if list_all (\<lambda>ok. ok) oks \<or> \<not> failClosed t then [] else task_events t)"
  by (simp add: deliver_def Let_def count_drops_def)

lemma deliver_dropped:
  "dropped_error (deliver cfg oks a n w t st) + dropped_nonError (deliver cfg oks a n w t st) =
     dropped_error st + dropped_nonError st + (if list_all (\<lambda>ok. ok) oks \<or> failClosed t then 0 else length (task_events t))"
  using sum_length_filter_compl [of is_error "task_events t"]
  by (simp add: deliver_def Let_def count_drops_def)

lemma files_grow:
  assumes "f' \<in> set (map2 (\<lambda>ok f. if ok then f @ es else f) oks fs)" "length oks = length fs"
  obtains f where "f \<in> set fs" "set f \<subseteq> set f'" "list_all (\<lambda>ok. ok) oks \<Longrightarrow> set es \<subseteq> set f'"
proof -
  obtain k where k: "k < length fs" "f' = (if oks ! k then fs ! k @ es else fs ! k)"
    using assms by (auto simp: in_set_conv_nth)
  then show thesis using that [of "fs ! k"] assms(2) by (auto simp: list_all_length)
qed

lemma accounted_deliver:
  assumes "accounted handed st" "task_ok t" "length oks = length (files st)"
  shows "accounted (handed @ task_events t) (deliver cfg oks a n w t st)"
  unfolding accounted_def
proof (intro conjI ballI impI)
  fix e assume e: "e \<in> set (handed @ task_events t)" "category e \<noteq> App"
  show "e \<in> set (rejected_calls (deliver cfg oks a n w t st)) \<or> (\<forall>f \<in> set (files (deliver cfg oks a n w t st)). e \<in> set f)"
  proof (cases "e \<in> set handed")
    case True
    then consider "e \<in> set (rejected_calls st)" | "\<forall>f \<in> set (files st). e \<in> set f"
      using assms(1) e(2) unfolding accounted_def by blast
    then show ?thesis
    proof cases
      case 2
      then show ?thesis using assms(3) unfolding deliver_simps by (blast elim!: files_grow)
    qed (simp add: deliver_rejected)
  next
    case False
    then have et: "e \<in> set (task_events t)" "failClosed t"
      using e assms(2) by (auto simp: task_ok_def list_all_iff split: if_splits)
    show ?thesis
    proof (cases "list_all (\<lambda>ok. ok) oks")
      case True
      then show ?thesis using assms(3) et(1) unfolding deliver_simps by (blast elim!: files_grow)
    next
      case False
      then show ?thesis using et unfolding deliver_rejected by simp
    qed
  qed
next
  have "\<not> failClosed t \<Longrightarrow> filter (\<lambda>e. category e = App) (task_events t) = task_events t"
    using assms(2) by (simp add: task_ok_def list_all_iff filter_id_conv)
  then show "dropped_error (deliver cfg oks a n w t st) + dropped_nonError (deliver cfg oks a n w t st)
      \<le> length (filter (\<lambda>e. category e = App) (handed @ task_events t))"
    using assms(1) unfolding deliver_dropped by (auto simp: accounted_def)
qed

text \<open>
  C26: Audit and security events fail closed: one that was handed to the sinks is in every sink's
  file or its call was rejected; only application events are ever counted as dropped.
\<close>

theorem audit_fails_closed:
  assumes "run hmac cfg done_events handed st"
  shows "accounted handed st"
  using assms
proof (induction rule: run.induct)
  case (start opts st)
  then show ?case by (auto simp: new_logger_def accounted_def Let_def split: if_splits prod.splits)
next
  case (log done_events handed st newId now i e st')
  then show ?case
    by (cases rule: log_call_cases [OF log.hyps(2)])
      (auto simp: Let_def accounted_def)
next
  case (deliver done_events handed st t rest oks a n w)
  have "task_ok t" using run_sorted_out [OF deliver.hyps(1)] deliver.hyps(2) by (simp add: sorted_out_def)
  then have "accounted (handed @ task_events t) (deliver cfg oks a n w t (st\<lparr>queue := rest, completed := completed st + 1\<rparr>))"
    using deliver by (intro accounted_deliver) (simp_all add: accounted_def)
  then show ?case using deliver.hyps(2) by (simp add: deliver_next_def)
qed (simp_all add: accounted_def resume_def timer_tick_def Tamper_Logger.close_def)

end
