(* ===== verification/Logger_Runs.thy ===== *)
theory Logger_Runs
  imports Logger_Facts
begin

text \<open>
  The logger under a caller that awaits every call, with sinks that accept every write: the files
  are the chain, in order. A caller that does not wait can have two events written in the wrong
  order. The cooldown of the alert notifier, and concrete runs.
\<close>

section \<open>Awaited calls\<close>

definition all_ok :: "logger \<Rightarrow> bool list" where
  "all_ok st = replicate (length (files st)) True"

definition drain :: "logger_config \<Rightarrow> int \<Rightarrow> string \<Rightarrow> logger \<Rightarrow> logger" where
  "drain cfg n w st = fold (\<lambda>_ s. deliver_next cfg (all_ok s) True n w s) (queue st) st"

text \<open>One call of the program: the clock value in both forms, a fresh identifier.\<close>

datatype operation =
    Do_log int string string log_input
  | Do_tick int string
  | Do_close int string

definition finish_waiting :: "logger_config \<Rightarrow> int \<Rightarrow> string \<Rightarrow> logger \<Rightarrow> logger" where
  "finish_waiting cfg n w st =
     (let s = drain cfg n w st in if ready s 0 then drain cfg n w (resume 0 s) else s)"

fun perform :: "mac \<Rightarrow> logger_config \<Rightarrow> operation \<Rightarrow> log_event list \<times> logger \<Rightarrow> log_event list \<times> logger" where
  "perform hmac cfg (Do_log n w newId i) (es, st) =
     (case log_call hmac cfg newId w i st of
        Inl err \<Rightarrow> (es, st)
      | Inr (r, st') \<Rightarrow> (es @ (case r of None \<Rightarrow> [] | Some e \<Rightarrow> [e]), finish_waiting cfg n w st'))"
| "perform hmac cfg (Do_tick n w) (es, st) = (es, drain cfg n w (timer_tick st))"
| "perform hmac cfg (Do_close n w) (es, st) = (es, drain cfg n w (Tamper_Logger.close st))"

section \<open>The files are the chain\<close>

lemma deliver_ok_fields:
  "files (deliver cfg (all_ok st) True n w t st) = map (\<lambda>f. f @ task_events t) (files st)"
  "enqueued (deliver cfg oks True n w t st) = enqueued st"
  by (auto simp: all_ok_def deliver_def Let_def count_drops_def map2_map_map [symmetric] map_zip_map2 zip_replicate1
      intro!: nth_equalityI)

lemma deliver_next_ok:
  assumes "queue st = t # rest"
  shows "queue (deliver_next cfg (all_ok st) True n w st) = rest"
    "files (deliver_next cfg (all_ok st) True n w st) = map (\<lambda>f. f @ task_events t) (files st)"
    "pending (deliver_next cfg (all_ok st) True n w st) = pending st"
    "waiting (deliver_next cfg (all_ok st) True n w st) = waiting st"
    "chain (deliver_next cfg (all_ok st) True n w st) = chain st"
    "closed (deliver_next cfg (all_ok st) True n w st) = closed st"
    "completed (deliver_next cfg (all_ok st) True n w st) = completed st + 1"
    "enqueued (deliver_next cfg (all_ok st) True n w st) = enqueued st"
  using assms deliver_ok_fields(1) [of cfg "st\<lparr>queue := rest, completed := completed st + 1\<rparr>" n w t]
  by (simp_all add: deliver_next_def all_ok_def deliver_ok_fields(2))

lemma drain_fields:
  "queue (drain cfg n w st) = []"
  "files (drain cfg n w st) = map (\<lambda>f. f @ queued st) (files st)"
  "pending (drain cfg n w st) = pending st" "waiting (drain cfg n w st) = waiting st"
  "chain (drain cfg n w st) = chain st" "closed (drain cfg n w st) = closed st"
  "completed (drain cfg n w st) = completed st + length (queue st)"
  "enqueued (drain cfg n w st) = enqueued st"
proof -
  have "queue s = ts \<Longrightarrow>
      (let d = fold (\<lambda>_ s. deliver_next cfg (all_ok s) True n w s) ts s in
       queue d = [] \<and> files d = map (\<lambda>f. f @ concat (map task_events ts)) (files s) \<and> pending d = pending s \<and>
       waiting d = waiting s \<and> chain d = chain s \<and> closed d = closed s \<and>
       completed d = completed s + length ts \<and> enqueued d = enqueued s)" for ts s
  proof (induction ts arbitrary: s)
    case (Cons t ts)
    from Cons.IH [OF deliver_next_ok(1) [OF Cons.prems]] deliver_next_ok [OF Cons.prems]
    show ?case by (simp add: Let_def)
  qed (simp add: Let_def)
  from this [OF refl, of st] show "queue (drain cfg n w st) = []"
    "files (drain cfg n w st) = map (\<lambda>f. f @ queued st) (files st)"
    "pending (drain cfg n w st) = pending st" "waiting (drain cfg n w st) = waiting st"
    "chain (drain cfg n w st) = chain st" "closed (drain cfg n w st) = closed st"
    "completed (drain cfg n w st) = completed st + length (queue st)"
    "enqueued (drain cfg n w st) = enqueued st"
    by (simp_all add: drain_def Let_def queued_def)
qed

definition in_step :: "mac \<Rightarrow> string \<Rightarrow> nat \<Rightarrow> log_event list \<times> logger \<Rightarrow> bool" where
  "in_step hmac key k p \<longleftrightarrow>
     (case p of (es, st) \<Rightarrow>
        \<exists>written. es = written @ pending st \<and> files st = replicate k written \<and> queue st = [] \<and> waiting st = [] \<and>
          chain_from hmac key genesis es \<and> chain st = chain_end genesis es \<and> enqueued st = completed st \<and>
          (closed st \<longrightarrow> pending st = []))"

lemma flush_counts:
  "fst (flush st) \<le> completed st + length (queue (snd (flush st)))" if "enqueued st = completed st + length (queue st)"
  using that by (auto simp: flush_def Let_def)

lemma flush_enqueued:
  "enqueued st = completed st + length (queue st) \<Longrightarrow>
   enqueued (snd (flush st)) = completed st + length (queue (snd (flush st)))"
  by (auto simp: flush_def Let_def)

lemma in_step_flush:
  assumes "in_step hmac key k (es, st)"
  shows "in_step hmac key k (es, drain cfg n w (snd (flush st)))"
  using assms flush_enqueued [of st]
  by (auto simp: in_step_def drain_fields queued_def)

lemma log_call_in_step:
  assumes "in_step hmac (lc_signingKey cfg) k (es, st)" "log_call hmac cfg newId w i st = Inr (r, st')" "\<not> closed st"
  shows "in_step hmac (lc_signingKey cfg) k (es @ (case r of None \<Rightarrow> [] | Some e \<Rightarrow> [e]), finish_waiting cfg n w st')"
proof -
  obtain written where st: "es = written @ pending st" "files st = replicate k written" "queue st = []" "waiting st = []"
    "chain_from hmac (lc_signingKey cfg) genesis es" "chain st = chain_end genesis es" "enqueued st = completed st"
    using assms(1) by (auto simp: in_step_def)
  have ext: "chain_from hmac (lc_signingKey cfg) genesis (es @ [e])" "chain_end genesis (es @ [e]) = nextState (chain st) (signature e)"
    if "e = sign_input hmac cfg newId w i (chain st)" for e
    using that st(5,6) by (auto simp: chain_from_append sign_input_chain chain_end_def)
  from assms(2) show ?thesis
  proof (cases rule: log_call_cases)
    case skipped
    have "drain cfg n w st = st" using st by (simp add: drain_def)
    then show ?thesis using skipped st assms by (simp add: finish_waiting_def ready_def Let_def)
  next
    case (app e)
    have q: "enqueued st' = completed st' + length (queue st')" "waiting st' = []" "\<not> closed st'"
        "chain st' = chain_end genesis (es @ [e])"
      using app(4) st assms(3) ext [OF app(2)] flush_enqueued [of "(advance cfg e st)\<lparr>pending := pending st @ [e]\<rparr>"]
      by (auto simp: Let_def advance_def)
    moreover have "\<exists>w'. es @ [e] = w' @ pending st' \<and> map (\<lambda>f. f @ queued st') (files st') = replicate k w'"
      using app(4) st by (auto simp: Let_def queued_def)
    ultimately show ?thesis
      using app(1) ext [OF app(2)]
      by (auto simp: finish_waiting_def in_step_def Let_def ready_def drain_fields)
  next
    case (audit e)
    define s where "s = drain cfg n w st'"
    let ?f = "flush (advance cfg e st)"
    have "fst ?f \<le> completed st + length (flushed_tasks (pending st))"
      using flush_counts [of "advance cfg e st"] st by (simp add: advance_def)
    then have "ready s 0" "snd (waiting s ! 0) = e"
      using audit(4) st by (simp_all add: s_def ready_def drain_fields Let_def)
    moreover have "enqueued s = completed s" "queue s = []" "pending s = []" "waiting s = [(fst ?f, e)]" "\<not> closed s"
        "files s = replicate k es" "chain s = chain_end genesis (es @ [e])"
      using audit(4) st assms(3) ext [OF audit(2)] flush_enqueued [of "advance cfg e st"]
      by (auto simp: s_def drain_fields Let_def queued_def advance_def)
    ultimately show ?thesis
      using audit(1) ext [OF audit(2)]
      by (auto simp: finish_waiting_def s_def [symmetric] Let_def in_step_def drain_fields resume_def queued_def)
  qed
qed

lemma perform_in_step:
  assumes "in_step hmac (lc_signingKey cfg) k (es, st)"
  shows "in_step hmac (lc_signingKey cfg) k (perform hmac cfg p (es, st))"
proof (cases p)
  case (Do_tick n w)
  have "drain cfg n w st = st" using assms by (auto simp: drain_def in_step_def)
  then show ?thesis using Do_tick assms in_step_flush [OF assms] by (simp add: timer_tick_def)
next
  case (Do_close n w)
  have "drain cfg n w st = st" using assms by (auto simp: drain_def in_step_def)
  moreover have "in_step hmac (lc_signingKey cfg) k (es, drain cfg n w (snd (flush (st\<lparr>closed := True\<rparr>))))"
    using assms flush_enqueued [of "st\<lparr>closed := True\<rparr>"] by (auto simp: in_step_def drain_fields queued_def)
  ultimately show ?thesis using Do_close assms by (simp add: Tamper_Logger.close_def)
next
  case (Do_log n w newId i)
  show ?thesis
  proof (cases "log_call hmac cfg newId w i st")
    case (Inr p)
    obtain r st' where p: "p = (r, st')" by fastforce
    have live: "\<not> closed st" using Inr by (auto simp: log_call_def)
    from log_call_in_step [OF assms Inr [unfolded p] live] show ?thesis using Do_log Inr p by simp
  qed (use assms Do_log in simp)
qed

lemma perform_all_in_step:
  "in_step hmac (lc_signingKey cfg) k (es, st) \<Longrightarrow> in_step hmac (lc_signingKey cfg) k (fold (perform hmac cfg) ps (es, st))"
  by (induction ps arbitrary: es st) (simp, metis fold_simps(2) perform_in_step surj_pair)

lemma new_in_step:
  assumes "new_logger opts = Inr (cfg, st)"
  shows "in_step hmac (lc_signingKey cfg) (o_sinks opts) ([], st)"
  using assms by (auto simp: new_logger_def in_step_def chain_end_def Let_def split: if_splits prod.splits)

text \<open>
  When every call is awaited and the sinks accept every write, every sink's file is exactly the
  signed events still not pending, in the order in which they were signed, and the verifier accepts
  it; after a close the file is the whole chain.
\<close>

theorem awaited_files_in_order:
  assumes "new_logger opts = Inr (cfg, st0)" "fold (perform hmac cfg) ps ([], st0) = (es, st)"
  shows "files st = replicate (o_sinks opts) (take (length es - length (pending st)) es) \<and>
    cv_valid (verifyChain hmac (lc_signingKey cfg) (take (length es - length (pending st)) es)) \<and>
    (closed st \<longrightarrow> pending st = [])"
proof -
  from perform_all_in_step [OF new_in_step [OF assms(1)], of hmac ps] assms(2)
  obtain written where w: "es = written @ pending st" "files st = replicate (o_sinks opts) written"
    "chain_from hmac (lc_signingKey cfg) genesis es" "closed st \<longrightarrow> pending st = []"
    by (auto simp: in_step_def)
  then show ?thesis by (auto simp: chain_from_append chain_verifies)
qed

section \<open>Calls that are not awaited\<close>

text \<open>An application event, then two audit calls before the first has gone on.\<close>

definition race_start :: "mac \<Rightarrow> logger_config \<Rightarrow> log_input \<Rightarrow> log_input \<Rightarrow> log_input \<Rightarrow> logger \<Rightarrow> log_event \<times> log_event \<times> log_event" where
  "race_start hmac cfg x a b st =
     (let ex = sign_input hmac cfg '''' '''' x (chain st);
          c1 = nextState (chain st) (signature ex);
          ea = sign_input hmac cfg '''' '''' a c1;
          eb = sign_input hmac cfg '''' '''' b (nextState c1 (signature ea))
      in (ex, ea, eb))"

lemma new_logger_empty:
  assumes "new_logger opts = Inr (cfg, st)"
  shows "chain st = genesis" "pending st = []" "queue st = []" "waiting st = []" "\<not> closed st" "enqueued st = 0"
    "completed st = 0" "files st = replicate (o_sinks opts) []" "rejected_calls st = []"
  using assms by (auto simp: new_logger_def Let_def split: if_splits prod.splits)

lemma race_reachable:
  assumes new: "new_logger opts = Inr (cfg, st)" and cats: "category x = App" "category a \<noteq> App" "category b \<noteq> App"
    and acc: "accepts cfg x" "accepts cfg a" "accepts cfg b" "\<not> filtered_out cfg x" "1 < lc_batchSize cfg"
    and es: "race_start hmac cfg x a b st = (ex, ea, eb)"
  shows "\<exists>st'. run hmac cfg [ex, ea, eb] [ex, eb, ea] st' \<and> files st' = replicate (o_sinks opts) [ex, eb, ea] \<and>
    rejected_calls st' = []"
proof -
  note e = new_logger_empty [OF new]
  have ex: "ex = sign_input hmac cfg '''' '''' x (chain st)"
    and ea: "ea = sign_input hmac cfg '''' '''' a (nextState (chain st) (signature ex))"
    and eb: "eb = sign_input hmac cfg '''' '''' b (nextState (nextState (chain st) (signature ex)) (signature ea))"
    using es by (auto simp: race_start_def Let_def)
  define s1 where "s1 = (advance cfg ex st)\<lparr>pending := [ex]\<rparr>"
  define s2 where "s2 = (snd (flush (advance cfg ea s1)))\<lparr>waiting := [(1, ea)]\<rparr>"
  define s3 where "s3 = (advance cfg eb s2)\<lparr>waiting := [(1, ea), (0, eb)]\<rparr>"
  define s4 where "s4 = resume 1 s3"
  define go where "go s = deliver_next cfg (all_ok s) True 0 '''' s" for s
  define s7 where "s7 = resume 0 (go (go s4))"
  have f1: "pending s1 = [ex]" "chain s1 = nextState (chain st) (signature ex)" "queue s1 = []" "waiting s1 = []"
      "\<not> closed s1" "enqueued s1 = 0" "completed s1 = 0" "files s1 = files st" "rejected_calls s1 = []"
    using e by (simp_all add: s1_def) (simp add: advance_def e)
  have f2: "pending s2 = []" "chain s2 = nextState (chain s1) (signature ea)" "queue s2 = flushed_tasks [ex]"
      "waiting s2 = [(1, ea)]" "\<not> closed s2" "completed s2 = 0" "files s2 = files st" "rejected_calls s2 = []"
    using f1 by (simp_all add: s2_def)
  have f3: "pending s3 = []" "queue s3 = flushed_tasks [ex]" "waiting s3 = [(1, ea), (0, eb)]" "completed s3 = 0"
      "files s3 = files st" "rejected_calls s3 = []"
    using f2 by (simp_all add: s3_def)
  have f4: "queue s4 = [\<lparr>task_events = [ex], failClosed = False\<rparr>, \<lparr>task_events = [eb], failClosed = True\<rparr>]"
      "waiting s4 = [(1, ea)]" "completed s4 = 0" "files s4 = files st" "rejected_calls s4 = []"
    using f3 by (simp_all add: s4_def resume_def flushed_tasks_def)
  have rj: "rejected_calls (go s) = rejected_calls s" for s
    by (simp add: go_def deliver_next_def deliver_rejected all_ok_def list_all_length split: list.splits)
  note g = deliver_next_ok [of _ _ _ cfg 0 "''''", folded go_def]
  note g1 = g [OF f4(1)]
  note g2 = g [OF g1(1)]
  have f7: "queue s7 = [\<lparr>task_events = [ea], failClosed = True\<rparr>]" "files s7 = map (\<lambda>f. (f @ [ex]) @ [eb]) (files st)"
      "rejected_calls s7 = []" "ready (go (go s4)) 0"
    using f4 g1 g2 rj by (simp_all add: s7_def resume_def ready_def)
  have r0: "run hmac cfg [] [] st" by (rule run.start [OF new])
  have "log_call hmac cfg '''' '''' x st = Inr (Some ex, s1)"
    using cats acc e by (simp add: log_call_def s1_def ex Let_def cong: if_cong)
  from run.log [OF r0 this] have r1: "run hmac cfg [ex] [] s1" by simp
  have "fst (flush (advance cfg ea s1)) = 1" using f1 by (simp add: flush_def Let_def) (simp add: advance_def f1)
  then have "log_call hmac cfg '''' '''' a s1 = Inr (Some ea, s2)"
    using cats acc f1 by (simp add: log_call_def s2_def ea Let_def case_prod_beta filtered_out_def)
  from run.log [OF r1 this] have r2: "run hmac cfg [ex, ea] [] s2" by simp
  have "flush (advance cfg eb s2) = (0, advance cfg eb s2)" using f2 by (simp add: flush_def)
  then have "log_call hmac cfg '''' '''' b s2 = Inr (Some eb, s3)"
    using cats acc f1 f2 by (simp add: log_call_def s3_def eb Let_def case_prod_beta filtered_out_def)
  from run.log [OF r2 this] have r3: "run hmac cfg [ex, ea, eb] [] s3" by simp
  have "ready s3 1" using f3 by (simp add: ready_def)
  from run.resume [OF r3 this] have r4: "run hmac cfg [ex, ea, eb] [] s4" by (simp add: s4_def)
  from run.deliver [OF r4 f4(1), of "all_ok s4"] have "run hmac cfg [ex, ea, eb] [ex] (go s4)"
    by (simp add: go_def all_ok_def)
  from run.deliver [OF this g1(1), of "all_ok (go s4)"] have "run hmac cfg [ex, ea, eb] [ex, eb] (go (go s4))"
    by (simp add: go_def all_ok_def)
  from run.resume [OF this f7(4)] have "run hmac cfg [ex, ea, eb] [ex, eb] s7" by (simp add: s7_def)
  from run.deliver [OF this f7(1), of "all_ok s7"] have "run hmac cfg [ex, ea, eb] [ex, eb, ea] (go s7)"
    by (simp add: go_def all_ok_def)
  moreover have "files (go s7) = replicate (o_sinks opts) [ex, eb, ea]" using g(2) [OF f7(1)] f7(2) e by simp
  moreover have "rejected_calls (go s7) = []" using rj f7 by simp
  ultimately show ?thesis by blast
qed

text \<open>
  Two audit calls made while an application event is pending, the second before the first has
  gone on, are written in the opposite order although every sink accepts every write: the file has the
  sequence numbers 1, 3, 2, and the verifier reports an untouched file as tampered with.
\<close>

theorem audit_race:
  assumes "new_logger opts = Inr (cfg, st)" "category x = App" "category a \<noteq> App" "category b \<noteq> App"
    and "accepts cfg x" "accepts cfg a" "accepts cfg b" "\<not> filtered_out cfg x" "1 < lc_batchSize cfg"
    and "\<forall>m. hmac (lc_signingKey cfg) m \<noteq> GENESIS_HASH"
  shows "\<exists>done_events file_events st'. run hmac cfg done_events file_events st' \<and> map seq file_events = [1, 3, 2] \<and>
    files st' = replicate (o_sinks opts) file_events \<and> rejected_calls st' = [] \<and>
    \<not> cv_valid (verifyChain hmac (lc_signingKey cfg) file_events)"
proof -
  obtain ex ea eb where es: "race_start hmac cfg x a b st = (ex, ea, eb)" by (metis prod_cases3)
  from race_reachable [OF assms(1-9) es] obtain st' where
    r: "run hmac cfg [ex, ea, eb] [ex, eb, ea] st'" "files st' = replicate (o_sinks opts) [ex, eb, ea]" "rejected_calls st' = []"
    by blast
  have s: "seq ex = 1" "seq ea = 2" "seq eb = 3" "prevHash eb = signature ea" "prevHash ex = GENESIS_HASH"
    using es new_logger_empty(1) [OF assms(1)]
    by (auto simp: race_start_def Let_def sign_input_chain nextState_def genesis_def)
  have "signature ea \<noteq> GENESIS_HASH"
    using es assms(10) by (auto simp: race_start_def Let_def sign_input_def signEvent_def)
  then have "\<not> cv_valid (verifyChain hmac (lc_signingKey cfg) [ex, eb, ea])"
    using s by (auto simp: verifyChain_def check_link_def Let_def split: prod.splits)
  with r s show ?thesis by (intro exI [of _ "[ex, ea, eb]"] exI [of _ "[ex, eb, ea]"] exI [of _ st']) simp
qed

section \<open>Alerts\<close>

lemma notified_after:
  "js_get (fold (\<lambda>e m. js_set (eventCode e) n m) es m) c =
   (if c \<in> eventCode ` set es then Some n else js_get m c)"
  by (induction es arbitrary: m) auto

text \<open>
  The cooldown holds between batches, not inside one: after a delivered notification no event
  with the same code is due before the cooldown has passed; but all events of one batch with the same
  code are notified when one of them is.
\<close>

theorem alert_cooldown:
  assumes "e \<in> set (due_alerts cfg n (lastNotified st) (task_events t))" "eventCode e' = eventCode e"
    and "n' - n < lc_cooldownMs cfg"
  shows "e' \<notin> set (due_alerts cfg n' (lastNotified (deliver cfg oks True n w t st)) es) \<and>
    filter (\<lambda>x. eventCode x = eventCode e) (due_alerts cfg n (lastNotified st) (task_events t)) =
    filter (\<lambda>x. eventCode x = eventCode e) (task_events t)"
proof
  have "lastNotified (deliver cfg oks True n w t st) =
      fold (\<lambda>e m. js_set (eventCode e) n m) (due_alerts cfg n (lastNotified st) (task_events t)) (lastNotified st)"
    by (simp add: deliver_def Let_def count_drops_def)
  then have "js_get (lastNotified (deliver cfg oks True n w t st)) (eventCode e') = Some n"
    using assms(1,2) by (auto simp: notified_after)
  then show "e' \<notin> set (due_alerts cfg n' (lastNotified (deliver cfg oks True n w t st)) es)"
    using assms(3) by (simp add: due_alerts_def)
  show "filter (\<lambda>x. eventCode x = eventCode e) (due_alerts cfg n (lastNotified st) (task_events t)) =
      filter (\<lambda>x. eventCode x = eventCode e) (task_events t)"
    using assms(1) by (auto simp: due_alerts_def intro!: filter_cong)
qed

section \<open>Concrete runs\<close>

definition sample_opts :: logger_options where
  "sample_opts = \<lparr>o_level = None, o_sinks = 1, o_redactionKeys = None, o_batchSize = None, o_ringBufferSize = None,
     o_signingKey = ''k'', o_service = ''web'', o_host = None, o_validator = None,
     o_alerts = Some (1, [''login_failed''], None)\<rparr>"

definition sample_cfg :: logger_config where
  "sample_cfg = \<lparr>lc_level = Debug, lc_redactionKeys = DEFAULT_REDACTION_KEYS, lc_batchSize = 50, lc_ringBufferSize = 1024,
     lc_signingKey = ''k'', lc_service = ''web'', lc_host = ''unknown'', lc_validator = None,
     lc_alertCodes = [''login_failed''], lc_cooldownMs = 300000\<rparr>"

definition sample_logger :: logger where
  "sample_logger = \<lparr>chain = genesis, pending = [], ring = [], dropped_error = 0, dropped_nonError = 0, closed = False,
     degraded = False, lastFlushAt = None, queue = [], enqueued = 0, completed = 0, waiting = [],
     files = [[]], rejected_calls = [], lastNotified = [], alerted = []\<rparr>"

definition sample_input :: "log_category \<Rightarrow> string \<Rightarrow> log_input" where
  "sample_input c code = \<lparr>level = Info, category = c, eventCode = code, message = ''m'', event_context = None,
     correlationId = Some ''1'', service = None, host = None, in_ts = None\<rparr>"

lemma sample_new: "new_logger sample_opts = Inr (sample_cfg, sample_logger)"
proof -
  have "js_trim ''k'' \<noteq> []" by code_simp
  then show ?thesis by (simp add: new_logger_def sample_opts_def sample_cfg_def sample_logger_def Let_def or_else_def)
qed

lemma sample_race:
  obtains ds fs st' where "run sample_mac sample_cfg ds fs st'" "length ds = 3" "files st' = [fs]"
proof -
  obtain ex ea eb where es: "race_start sample_mac sample_cfg (sample_input App ''up'') (sample_input Audit ''login'')
      (sample_input Audit ''logout'') sample_logger = (ex, ea, eb)" by (metis prod_cases3)
  obtain st' where "run sample_mac sample_cfg [ex, ea, eb] [ex, eb, ea] st'" "files st' = [[ex, eb, ea]]"
    using race_reachable [OF sample_new _ _ _ _ _ _ _ _ es]
    by (auto simp: sample_input_def accepts_def filtered_out_def sample_cfg_def less_log_level_def sample_opts_def)
  then show thesis using that by simp
qed


lemma ring_holds_newest_witness: "\<exists>ds fs st'. run sample_mac sample_cfg ds fs st' \<and> length ds = 3 \<and> ring st' = ds"
proof -
  obtain ds fs st' where r: "run sample_mac sample_cfg ds fs st'" "length ds = 3" by (rule sample_race)
  from ring_holds_newest [OF r(1)] have "ring st' = ds" using r(2) by (simp add: sample_cfg_def)
  then show ?thesis using r by blast
qed

lemma audit_fails_closed_witness: "\<exists>ds fs st'. run sample_mac sample_cfg ds fs st' \<and> length ds = 3 \<and> accounted fs st'"
  using audit_fails_closed sample_race by metis

lemma awaited_files_in_order_witness:
  "\<exists>es st. fold (perform sample_mac sample_cfg)
      [Do_log 0 '''' '''' (sample_input App ''up''), Do_log 0 '''' '''' (sample_input Audit ''login''), Do_close 0 '''']
      ([], sample_logger) = (es, st) \<and>
    files st = [take (length es - length (pending st)) es]"
proof -
  let ?r = "fold (perform sample_mac sample_cfg)
      [Do_log 0 '''' '''' (sample_input App ''up''), Do_log 0 '''' '''' (sample_input Audit ''login''), Do_close 0 '''']
      ([], sample_logger)"
  obtain es st where r: "?r = (es, st)" by fastforce
  from awaited_files_in_order [OF sample_new r] r show ?thesis by (auto simp: sample_opts_def)
qed

lemma audit_race_witness:
  "\<exists>done_events file_events st'. run sample_mac sample_cfg done_events file_events st' \<and> map seq file_events = [1, 3, 2] \<and>
    files st' = [file_events] \<and> \<not> cv_valid (verifyChain sample_mac ''k'' file_events)"
proof -
  have "sample_mac (lc_signingKey sample_cfg) m \<noteq> GENESIS_HASH" for m
    by (simp add: sample_cfg_def sample_mac_def GENESIS_HASH_def numeral_eq_Suc)
  from audit_race [OF sample_new, where x = "sample_input App ''up''" and a = "sample_input Audit ''login''" and
      b = "sample_input Audit ''logout''" and hmac = sample_mac] this
  obtain ds fs st' where "run sample_mac sample_cfg ds fs st'" "map seq fs = [1, 3, 2]" "files st' = [fs]"
    "\<not> cv_valid (verifyChain sample_mac (lc_signingKey sample_cfg) fs)"
    by (auto simp: sample_input_def accepts_def filtered_out_def sample_cfg_def less_log_level_def sample_opts_def)
  then show ?thesis by (intro exI [of _ ds] exI [of _ fs] exI [of _ st']) (simp add: sample_cfg_def)
qed

lemma alert_cooldown_witness:
  "sample_event 2 \<notin> set (due_alerts sample_cfg 60000
     (lastNotified (deliver sample_cfg [True] True 0 '''' \<lparr>task_events = [sample_event 1], failClosed = True\<rparr> sample_logger))
     [sample_event 2])"
  using alert_cooldown [where e = "sample_event 1" and e' = "sample_event 2" and n = 0 and n' = 60000 and cfg = sample_cfg and
      st = sample_logger and t = "\<lparr>task_events = [sample_event 1], failClosed = True\<rparr>" and oks = "[True]" and w = "''''" and
      es = "[sample_event 2]"]
  by (simp add: due_alerts_def sample_logger_def sample_cfg_def sample_event_fields)

end
