(* ===== verification/Rule_Engine.thy ===== *)
theory Rule_Engine
  imports Command_Types
begin

text \<open>
  The rule engine of services/management-service (device-catalog.ts, cycle-snapshot-store.ts,
  rule-evaluator.ts, management-service.ts) with the rule records of
  packages/shared-types/src/automation-rule.ts. Times are milliseconds as integers; the durations of a
  rule are the rational values of their JSON numbers.
\<close>

section \<open>Rules\<close>

datatype rule_operator = Op_eq | Op_neq | Op_gt | Op_gte | Op_lt | Op_lte | Op_abs_gt | Op_abs_gte

record rule_device_selector =
  sel_ids :: "string list option"
  sel_types :: "string list option"

record rule_condition =
  rc_device :: "rule_device_selector option"
  rc_telemetry :: string
  rc_op :: rule_operator
  rc_threshold :: jsnum
  rc_debounceMs :: "rat option"

datatype rule_action =
    Command_action string string "params option"
  | Container_command_action string string string "params option"
  | Maneuver_action string "params option"
  | Operation_action string "params option"
  | Log_action string "string option" "string option"
  | Notify_action

record automation_rule =
  ar_name :: string
  ar_enabled :: "bool option"
  ar_cooldownMs :: "rat option"
  ar_armAfterFalse :: "bool option"
  ar_all :: "rule_condition list option"
  ar_any :: "rule_condition list option"
  ar_then :: "rule_action list"

section \<open>Device catalog\<close>

type_synonym device_catalog = "(string \<times> string option) list"

definition add_target :: "string \<Rightarrow> string list \<Rightarrow> string list" where
  "add_target d targets = (if d \<in> set targets then targets else targets @ [d])"

definition resolveTargets :: "device_catalog \<Rightarrow> rule_device_selector option \<Rightarrow> string list" where
  "resolveTargets cat sel =
     (case sel of
        None \<Rightarrow> fold (\<lambda>e. add_target (fst e)) cat []
      | Some s \<Rightarrow>
          fold (\<lambda>t acc. fold (\<lambda>e. if snd e = Some t then add_target (fst e) else id) cat acc) (or_else (sel_types s) [])
            (fold (\<lambda>i. if list_ex (\<lambda>e. fst e = i) cat then add_target i else id) (or_else (sel_ids s) []) []))"

section \<open>Snapshots\<close>

record snapshot_value =
  sv_value :: jsval
  sv_unit :: string
  recordedAt :: int

record device_values =
  byName :: "(string, snapshot_value) jsmap"
  byCanonical :: "(string, snapshot_value) jsmap"

type_synonym snapshot_store = "(string, device_values) jsmap"

definition no_values :: device_values where
  "no_values = \<lparr>byName = [], byCanonical = []\<rparr>"

definition record_one :: "int \<Rightarrow> telemetry \<Rightarrow> device_values \<Rightarrow> device_values" where
  "record_one now t dv =
     (let e = \<lparr>sv_value = t_value t, sv_unit = t_unit t, recordedAt = now\<rparr>;
          dv1 = dv\<lparr>byName := js_set (t_name t) e (byName dv)\<rparr>
      in case t_tags t of
           None \<Rightarrow> dv1
         | Some tags \<Rightarrow>
             (case js_get tags ''canonical'' of
                Some c \<Rightarrow> if c \<noteq> [] then dv1\<lparr>byCanonical := js_set c e (byCanonical dv1)\<rparr> else dv1
              | None \<Rightarrow> dv1))"

definition record_set :: "int \<Rightarrow> string \<Rightarrow> telemetry list \<Rightarrow> snapshot_store \<Rightarrow> snapshot_store" where
  "record_set now d telemetries store =
     js_set d (fold (record_one now) telemetries (or_else (js_get store d) no_values)) store"

definition fresh :: "int \<Rightarrow> int \<Rightarrow> snapshot_value \<Rightarrow> bool" where
  "fresh maxAge now e \<longleftrightarrow> \<not> now - recordedAt e > maxAge"

definition prune_device :: "int \<Rightarrow> int \<Rightarrow> device_values \<Rightarrow> device_values" where
  "prune_device maxAge now dv =
     \<lparr>byName = filter (\<lambda>(k, e). fresh maxAge now e) (byName dv),
      byCanonical = filter (\<lambda>(k, e). fresh maxAge now e) (byCanonical dv)\<rparr>"

text \<open>The pruned store; the snapshot is a deep copy of it.\<close>

definition snapshot :: "int \<Rightarrow> int \<Rightarrow> snapshot_store \<Rightarrow> snapshot_store" where
  "snapshot maxAge now store =
     filter (\<lambda>(d, dv). byName dv \<noteq> []) (map (\<lambda>(d, dv). (d, prune_device maxAge now dv)) store)"

definition device_value :: "device_values \<Rightarrow> string \<Rightarrow> snapshot_value option" where
  "device_value dv key = (case js_get (byName dv) key of Some e \<Rightarrow> Some e | None \<Rightarrow> js_get (byCanonical dv) key)"

definition snapshot_lookup :: "snapshot_store \<Rightarrow> string \<Rightarrow> string \<Rightarrow> snapshot_value option" where
  "snapshot_lookup snap d key = (case js_get snap d of None \<Rightarrow> None | Some dv \<Rightarrow> device_value dv key)"

section \<open>Evaluation\<close>

fun compare_value :: "jsval \<Rightarrow> rule_operator \<Rightarrow> jsnum \<Rightarrow> bool" where
  "compare_value v Op_eq t = js_strict_eq v (JNum t)"
| "compare_value v Op_neq t = (\<not> js_strict_eq v (JNum t))"
| "compare_value (JNum x) Op_gt t = js_less t x"
| "compare_value (JNum x) Op_gte t = js_le t x"
| "compare_value (JNum x) Op_lt t = js_less x t"
| "compare_value (JNum x) Op_lte t = js_le x t"
| "compare_value (JNum x) Op_abs_gt t = js_less t (js_abs x)"
| "compare_value (JNum x) Op_abs_gte t = js_le t (js_abs x)"
| "compare_value _ _ t = False"

definition conditionTrue :: "device_catalog \<Rightarrow> snapshot_store \<Rightarrow> rule_condition \<Rightarrow> bool" where
  "conditionTrue cat snap c =
     list_ex (\<lambda>d. case snapshot_lookup snap d (rc_telemetry c) of
                    None \<Rightarrow> False | Some v \<Rightarrow> compare_value (sv_value v) (rc_op c) (rc_threshold c))
       (resolveTargets cat (rc_device c))"

definition hasValue :: "device_catalog \<Rightarrow> snapshot_store \<Rightarrow> rule_condition \<Rightarrow> bool" where
  "hasValue cat snap c = list_ex (\<lambda>d. snapshot_lookup snap d (rc_telemetry c) \<noteq> None) (resolveTargets cat (rc_device c))"

record rule_state =
  fired :: bool
  armed :: bool
  lastFiredAt :: "int option"
  conditionHeldSince :: "int option list"

definition initial_state :: "automation_rule \<Rightarrow> rule_state" where
  "initial_state r = \<lparr>fired = False, armed = (ar_armAfterFalse r \<noteq> Some True), lastFiredAt = None, conditionHeldSince = []\<rparr>"

definition conditions :: "automation_rule \<Rightarrow> rule_condition list" where
  "conditions r = (case ar_all r of Some cs \<Rightarrow> cs | None \<Rightarrow> or_else (ar_any r) [])"

text \<open>An index past the end of \<open>conditionHeldSince\<close> reads undefined.\<close>

definition held_at :: "int option list \<Rightarrow> nat \<Rightarrow> int option" where
  "held_at hs i = (if i < length hs then hs ! i else None)"

definition hold :: "int \<Rightarrow> bool \<Rightarrow> int option \<Rightarrow> int option" where
  "hold now truth held = (if truth then Some (or_else held now) else None)"

definition held_after :: "device_catalog \<Rightarrow> int \<Rightarrow> snapshot_store \<Rightarrow> rule_condition list \<Rightarrow> int option list \<Rightarrow> int option list" where
  "held_after cat now snap cs hs =
     map (\<lambda>(i, c). hold now (conditionTrue cat snap c) (held_at hs i)) (zip [0..<length cs] cs) @ drop (length cs) hs"

definition debounced :: "int \<Rightarrow> rule_condition \<Rightarrow> int option \<Rightarrow> bool" where
  "debounced now c held = (case held of None \<Rightarrow> False | Some t \<Rightarrow> or_else (rc_debounceMs c) 0 \<le> of_int (now - t))"

definition rule_true :: "automation_rule \<Rightarrow> bool list \<Rightarrow> bool" where
  "rule_true r truths = (if ar_all r \<noteq> None then list_all id truths else list_ex id truths)"

text \<open>One rule in one evaluation: whether it fires, and its next state.\<close>

definition step_rule :: "device_catalog \<Rightarrow> int \<Rightarrow> snapshot_store \<Rightarrow> automation_rule \<Rightarrow> rule_state \<Rightarrow> bool \<times> rule_state" where
  "step_rule cat now snap r st =
     (let cs = conditions r;
          hs = held_after cat now snap cs (conditionHeldSince st);
          st1 = st\<lparr>conditionHeldSince := hs\<rparr>;
          truths = map (\<lambda>(c, h). debounced now c h) (zip cs hs)
      in if \<not> rule_true r truths
         then (False, st1\<lparr>fired := False, armed := armed st1 \<or> list_all (hasValue cat snap) cs\<rparr>)
         else if fired st1 then (False, st1)
         else let st2 = st1\<lparr>fired := True\<rparr>
              in if \<not> armed st2 then (False, st2)
                 else if (case lastFiredAt st2 of None \<Rightarrow> False
                          | Some t \<Rightarrow> of_int (now - t) < or_else (ar_cooldownMs r) 0)
                 then (False, st2)
                 else (True, st2\<lparr>lastFiredAt := Some now\<rparr>))"

type_synonym evaluator = "(string, rule_state) jsmap"

definition evaluate_one ::
  "device_catalog \<Rightarrow> int \<Rightarrow> snapshot_store \<Rightarrow> automation_rule \<Rightarrow> automation_rule list \<times> evaluator \<Rightarrow> automation_rule list \<times> evaluator" where
  "evaluate_one cat now snap r acc =
     (if ar_enabled r = Some False then acc
      else case step_rule cat now snap r (or_else (js_get (snd acc) (ar_name r)) (initial_state r)) of
             (f, st) \<Rightarrow> (fst acc @ (if f then [r] else []), js_set (ar_name r) st (snd acc)))"

definition evaluate ::
  "device_catalog \<Rightarrow> int \<Rightarrow> automation_rule list \<Rightarrow> snapshot_store \<Rightarrow> evaluator \<Rightarrow> automation_rule list \<times> evaluator" where
  "evaluate cat now rules snap ev = fold (evaluate_one cat now snap) rules ([], ev)"

section \<open>The service\<close>

record 'w management =
  mg_rules :: "automation_rule list"
  mg_evaluator :: evaluator
  mg_store :: snapshot_store
  mg_running :: bool
  mg_world :: 'w

datatype device_job = Management_job string "telemetry list" | Other_job string

text \<open>The worker: only management jobs are recorded.\<close>

definition worker :: "int \<Rightarrow> device_job \<Rightarrow> 'w management \<Rightarrow> 'w management" where
  "worker now job m =
     (case job of
        Management_job d ts \<Rightarrow> m\<lparr>mg_store := record_set now d ts (mg_store m)\<rparr>
      | Other_job _ \<Rightarrow> m)"

text \<open>One cycle; the executor is a parameter, its rejections are settled.\<close>

definition runCycle ::
  "device_catalog \<Rightarrow> int \<Rightarrow> (automation_rule \<Rightarrow> ('w, string, unit) comp) \<Rightarrow> int \<Rightarrow> 'w management \<Rightarrow> nat \<times> 'w management" where
  "runCycle cat maxAge executor now m =
     (let snap = snapshot maxAge now (mg_store m);
          (fs, ev) = evaluate cat now (mg_rules m) snap (mg_evaluator m);
          (rs, w) = settledC executor fs (mg_world m)
      in (length fs, m\<lparr>mg_store := snap, mg_evaluator := ev, mg_world := w\<rparr>))"

definition management_start :: "'w management \<Rightarrow> 'w management" where
  "management_start m = m\<lparr>mg_running := True\<rparr>"

text \<open>Stopping closes the queue once.\<close>

definition management_stop :: "('w \<Rightarrow> 'w) \<Rightarrow> 'w management \<Rightarrow> 'w management" where
  "management_stop closeQueue m =
     (if mg_running m then m\<lparr>mg_running := False, mg_world := closeQueue (mg_world m)\<rparr> else m)"

definition management_health :: "('w \<Rightarrow> bool) \<Rightarrow> 'w management \<Rightarrow> bool" where
  "management_health queueHealth m \<longleftrightarrow> mg_running m \<and> queueHealth (mg_world m)"

end
