(* ===== verification/Rule_Facts.thy ===== *)
theory Rule_Facts
  imports Rule_Engine
begin

text \<open>
  The rule engine: a second evaluation of the same snapshot fires nothing; a rule that fires was held
  for its debounce times and is outside its cooldown; what a snapshot shows; and a rule that is to be
  armed by a false condition but is armed by a running debounce.
\<close>

section \<open>Targets\<close>

lemma set_add_target [simp]: "set (add_target d xs) = insert d (set xs)"
  by (auto simp: add_target_def)

lemma distinct_add_target: "distinct xs \<Longrightarrow> distinct (add_target d xs)"
  by (simp add: add_target_def)

lemma fold_targets:
  "set (fold (\<lambda>e. if P e then add_target (f e) else id) es acc) = set acc \<union> f ` {e \<in> set es. P e}"
  "distinct acc \<Longrightarrow> distinct (fold (\<lambda>e. if P e then add_target (f e) else id) es acc)"
  by (induction es arbitrary: acc) (auto simp: distinct_add_target)

lemma fold_types:
  "set (fold (\<lambda>t acc. fold (\<lambda>e. if snd e = Some t then add_target (fst e) else id) cat acc) ts acc) =
   set acc \<union> fst ` {e \<in> set cat. \<exists>t \<in> set ts. snd e = Some t}"
  "distinct acc \<Longrightarrow>
   distinct (fold (\<lambda>t acc. fold (\<lambda>e. if snd e = Some t then add_target (fst e) else id) cat acc) ts acc)"
  by (induction ts arbitrary: acc) (auto simp: fold_targets)

text \<open>
  A selector resolves, without duplicates, to the catalogued devices it names by identifier or by
  type, and to all of them when there is none.
\<close>

theorem resolveTargets_union:
  "distinct (resolveTargets cat sel) \<and>
   set (resolveTargets cat sel) =
     (case sel of
        None \<Rightarrow> fst ` set cat
      | Some s \<Rightarrow> {d \<in> fst ` set cat. d \<in> set (or_else (sel_ids s) [])} \<union>
          fst ` {e \<in> set cat. \<exists>t \<in> set (or_else (sel_types s) []). snd e = Some t})"
proof (cases sel)
  case None
  then show ?thesis
    using fold_targets(1) [of "\<lambda>_. True" fst cat "[]"] fold_targets(2) [of "[]" "\<lambda>_. True" fst cat]
    by (simp add: resolveTargets_def)
next
  case (Some s)
  then show ?thesis
    by (auto simp: resolveTargets_def fold_types fold_targets [where f = "\<lambda>x. x"] list_ex_iff)
qed

section \<open>Evaluating twice\<close>

lemma length_held_after: "length (held_after cat now snap cs hs) = max (length cs) (length hs)"
  by (simp add: held_after_def)

lemma held_after_at:
  "held_at (held_after cat now snap cs hs) i =
   (if i < length cs then hold now (conditionTrue cat snap (cs ! i)) (held_at hs i) else held_at hs i)"
  by (auto simp: held_at_def held_after_def nth_append)

lemma held_ext: "length hs = length hs' \<Longrightarrow> (\<And>i. held_at hs i = held_at hs' i) \<Longrightarrow> hs = hs'"
  by (rule nth_equalityI) (auto simp: held_at_def, metis)

lemma hold_hold: "hold now b (hold now b h) = hold now b h"
  by (cases b; cases h) (auto simp: hold_def)

lemma held_after_twice: "held_after cat now snap cs (held_after cat now snap cs hs) = held_after cat now snap cs hs"
  by (rule held_ext) (auto simp: length_held_after held_after_at hold_hold)

lemma step_rule_twice:
  assumes "step_rule cat now snap r st = (f, st')"
  shows "step_rule cat now snap r st' = (False, st')"
proof -
  let ?hs = "held_after cat now snap (conditions r) (conditionHeldSince st)"
  have "conditionHeldSince st' = ?hs"
    using assms by (auto simp: step_rule_def Let_def split: if_splits option.splits)
  then show ?thesis
    using assms by (auto simp: step_rule_def Let_def held_after_twice split: if_splits option.splits)
qed

lemma js_set_same: "js_get m k = Some v \<Longrightarrow> js_set k v m = m"
  by (induction m) (auto simp: js_set_def split: if_splits)

lemma evaluate_other:
  "n \<notin> ar_name ` set rules \<Longrightarrow>
   js_get (snd (fold (evaluate_one cat now snap) rules acc)) n = js_get (snd acc) n"
proof (induction rules arbitrary: acc)
  case (Cons r rules)
  then have "js_get (snd (evaluate_one cat now snap r acc)) n = js_get (snd acc) n"
    by (auto simp: evaluate_one_def split: prod.splits)
  then show ?case using Cons by simp
qed simp

definition settled :: "device_catalog \<Rightarrow> int \<Rightarrow> snapshot_store \<Rightarrow> evaluator \<Rightarrow> automation_rule \<Rightarrow> bool" where
  "settled cat now snap ev r \<longleftrightarrow>
     ar_enabled r = Some False \<or> (\<exists>st. js_get ev (ar_name r) = Some st \<and> step_rule cat now snap r st = (False, st))"

lemma evaluate_settles:
  "distinct (map ar_name rules) \<Longrightarrow> \<forall>r \<in> set rules. settled cat now snap (snd (fold (evaluate_one cat now snap) rules acc)) r"
proof (induction rules arbitrary: acc)
  case (Cons r rules)
  let ?a = "evaluate_one cat now snap r acc"
  have "settled cat now snap (snd ?a) r"
    by (auto simp: settled_def evaluate_one_def step_rule_twice split: prod.splits)
  moreover have "js_get (snd (fold (evaluate_one cat now snap) rules ?a)) (ar_name r) = js_get (snd ?a) (ar_name r)"
    using Cons.prems by (intro evaluate_other) auto
  ultimately show ?case using Cons by (auto simp: settled_def)
qed simp

lemma evaluate_settled:
  "\<forall>r \<in> set rules. settled cat now snap (snd acc) r \<Longrightarrow> fold (evaluate_one cat now snap) rules acc = acc"
proof (induction rules)
  case (Cons r rules)
  then have "evaluate_one cat now snap r acc = acc"
    by (auto simp: evaluate_one_def settled_def js_set_same)
  then show ?case using Cons by simp
qed simp

text \<open>
  Evaluating the same snapshot twice at the same time fires nothing the second time and leaves
  the evaluator as it is, whatever its state, if the rules have different names.
\<close>

theorem evaluate_idempotent:
  assumes "distinct (map ar_name rules)" "evaluate cat now rules snap ev = (fs, ev')"
  shows "evaluate cat now rules snap ev' = ([], ev')"
proof -
  have "\<forall>r \<in> set rules. settled cat now snap ev' r"
    using evaluate_settles [OF assms(1), of cat now snap "([], ev)"] assms(2) by (simp add: evaluate_def)
  then show ?thesis using evaluate_settled [of rules cat now snap "([], ev')"] by (simp add: evaluate_def)
qed

section \<open>Histories of one rule\<close>

text \<open>The state of a rule after the evaluations of a history, oldest first.\<close>

definition state_after :: "device_catalog \<Rightarrow> automation_rule \<Rightarrow> (int \<times> snapshot_store) list \<Rightarrow> rule_state" where
  "state_after cat r h = fold (\<lambda>(now, snap) st. snd (step_rule cat now snap r st)) h (initial_state r)"

definition fires_at :: "device_catalog \<Rightarrow> automation_rule \<Rightarrow> (int \<times> snapshot_store) list \<Rightarrow> int \<times> snapshot_store \<Rightarrow> bool" where
  "fires_at cat r h p = fst (step_rule cat (fst p) (snd p) r (state_after cat r h))"

lemma state_after_snoc:
  "state_after cat r (h @ [p]) = snd (step_rule cat (fst p) (snd p) r (state_after cat r h))"
  by (simp add: state_after_def case_prod_beta)

lemma step_rule_held:
  "conditionHeldSince (snd (step_rule cat now snap r st)) = held_after cat now snap (conditions r) (conditionHeldSince st)"
  by (auto simp: step_rule_def Let_def split: option.splits)

lemma held_history:
  "i < length (conditions r) \<Longrightarrow> held_at (conditionHeldSince (state_after cat r h)) i = Some t \<Longrightarrow>
   \<exists>j < length h. fst (h ! j) = t \<and> (\<forall>k. j \<le> k \<longrightarrow> k < length h \<longrightarrow> conditionTrue cat (snd (h ! k)) (conditions r ! i))"
proof (induction h arbitrary: t rule: rev_induct)
  case Nil
  then show ?case by (simp add: state_after_def initial_state_def held_at_def)
next
  case (snoc p h)
  let ?old = "held_at (conditionHeldSince (state_after cat r h)) i"
  have now: "conditionTrue cat (snd p) (conditions r ! i)" "t = or_else ?old (fst p)"
    using snoc.prems by (auto simp: state_after_snoc step_rule_held held_after_at hold_def split: if_splits)
  show ?case
  proof (cases ?old)
    case None
    then show ?thesis using now by (intro exI [of _ "length h"]) (auto simp: nth_append)
  next
    case (Some t')
    with snoc.IH [OF snoc.prems(1) Some] now obtain j where
      "j < length h" "fst (h ! j) = t" "\<forall>k. j \<le> k \<longrightarrow> k < length h \<longrightarrow> conditionTrue cat (snd (h ! k)) (conditions r ! i)"
      by auto
    then show ?thesis using now(1) by (intro exI [of _ j]) (auto simp: nth_append not_less le_less_Suc_eq)
  qed
qed

lemma fires_facts:
  assumes "fires_at cat r h p"
  shows "rule_true r (map (\<lambda>(c, h). debounced (fst p) c h)
      (zip (conditions r) (conditionHeldSince (state_after cat r (h @ [p])))))"
    and "lastFiredAt (state_after cat r (h @ [p])) = Some (fst p)"
    and "\<And>t. lastFiredAt (state_after cat r h) = Some t \<Longrightarrow> or_else (ar_cooldownMs r) 0 \<le> of_int (fst p - t)"
    and "armed (state_after cat r h)"
  using assms
  by (auto simp: fires_at_def state_after_snoc step_rule_held) (auto simp: step_rule_def Let_def split: if_splits option.splits)

lemma last_fired_grows:
  assumes "lastFiredAt (state_after cat r h) = Some t" "\<forall>p \<in> set g. t \<le> fst p"
  shows "\<exists>t'. lastFiredAt (state_after cat r (h @ g)) = Some t' \<and> t \<le> t'"
  using assms(2)
proof (induction g rule: rev_induct)
  case Nil
  then show ?case using assms(1) by simp
next
  case (snoc p g)
  then obtain t' where t': "lastFiredAt (state_after cat r (h @ g)) = Some t'" "t \<le> t'" by auto
  have "lastFiredAt (state_after cat r ((h @ g) @ [p])) \<in> {Some t', Some (fst p)}"
    unfolding state_after_snoc using t'(1) by (auto simp: step_rule_def Let_def split: option.splits)
  then show ?case using t'(2) snoc.prems by auto
qed


text \<open>
  A rule that is to fire only after its condition has been false once is armed by a running
  debounce: with a debounce time and a condition that is true from the first evaluation on, it fires as
  soon as the debounce time has passed.
\<close>

theorem debounce_arms:
  assumes "ar_armAfterFalse r = Some True" "ar_all r = Some [c]" "rc_debounceMs c = Some d" "0 < d"
    and "conditionTrue cat snap1 c" "conditionTrue cat snap2 c" "d \<le> of_int (t2 - t1)"
  shows "fires_at cat r [(t1, snap1)] (t2, snap2)"
proof -
  have "hasValue cat snap1 c"
    using assms(5) by (auto simp: conditionTrue_def hasValue_def list_ex_iff split: option.splits)
  then have "state_after cat r [(t1, snap1)] =
      \<lparr>fired = False, armed = True, lastFiredAt = None, conditionHeldSince = [Some t1]\<rparr>"
    using assms by (simp add: state_after_def step_rule_def initial_state_def conditions_def held_after_def hold_def
        held_at_def rule_true_def debounced_def Let_def)
  then show ?thesis
    using assms by (simp add: fires_at_def step_rule_def conditions_def held_after_def hold_def held_at_def
        rule_true_def debounced_def Let_def)
qed

section \<open>What a snapshot shows\<close>

definition values_ok :: "int \<Rightarrow> device_values \<Rightarrow> bool" where
  "values_ok now dv \<longleftrightarrow> wf_map (byName dv) \<and> wf_map (byCanonical dv) \<and>
     (\<forall>n e. js_get (byName dv) n = Some e \<longrightarrow> recordedAt e \<le> now) \<and>
     (\<forall>c e. js_get (byCanonical dv) c = Some e \<longrightarrow>
        (\<exists>n e'. js_get (byName dv) n = Some e' \<and> recordedAt e \<le> recordedAt e'))"

definition store_ok :: "int \<Rightarrow> snapshot_store \<Rightarrow> bool" where
  "store_ok now store \<longleftrightarrow> wf_map store \<and> (\<forall>d dv. js_get store d = Some dv \<longrightarrow> values_ok now dv)"

text \<open>The stores that records and snapshots at times that never go back produce.\<close>

inductive stored :: "int \<Rightarrow> int \<Rightarrow> snapshot_store \<Rightarrow> bool" for maxAge :: int where
  empty: "stored maxAge now []"
| record_set: "stored maxAge t store \<Longrightarrow> t \<le> now \<Longrightarrow> stored maxAge now (record_set now d ts store)"
| snapshot: "stored maxAge t store \<Longrightarrow> t \<le> now \<Longrightarrow> stored maxAge now (snapshot maxAge now store)"

lemma values_ok_mono: "values_ok t dv \<Longrightarrow> t \<le> now \<Longrightarrow> values_ok now dv"
  unfolding values_ok_def by (meson order_trans)

lemma record_name_ok:
  assumes "values_ok now dv" "recordedAt e = now"
  shows "values_ok now (dv\<lparr>byName := js_set n e (byName dv)\<rparr>)"
  using assms unfolding values_ok_def by simp (metis order.refl order_trans)

lemma record_one_ok: "values_ok now dv \<Longrightarrow> values_ok now (record_one now t dv)"
proof -
  assume ok: "values_ok now dv"
  define e where "e = \<lparr>sv_value = t_value t, sv_unit = t_unit t, recordedAt = now\<rparr>"
  define dv1 where "dv1 = dv\<lparr>byName := js_set (t_name t) e (byName dv)\<rparr>"
  have ok1: "values_ok now dv1" using record_name_ok [OF ok] by (simp add: dv1_def e_def)
  moreover have "values_ok now (dv1\<lparr>byCanonical := js_set c e (byCanonical dv1)\<rparr>)" for c
  proof -
    have "js_get (byName dv1) (t_name t) = Some e" by (simp add: dv1_def)
    then show ?thesis using ok1 unfolding values_ok_def by simp (metis order.refl)
  qed
  ultimately show ?thesis
    by (simp add: record_one_def Let_def e_def [symmetric] dv1_def [symmetric] split: option.splits)
qed

lemma record_all_ok: "values_ok now dv \<Longrightarrow> values_ok now (fold (record_one now) ts dv)"
  by (induction ts arbitrary: dv) (auto simp: record_one_ok)

lemma snapshot_get:
  "wf_map store \<Longrightarrow> js_get (snapshot maxAge now store) d =
     (case js_get store d of None \<Rightarrow> None
      | Some dv \<Rightarrow> if byName (prune_device maxAge now dv) \<noteq> [] then Some (prune_device maxAge now dv) else None)"
proof -
  assume wf: "wf_map store"
  then have "wf_map (map (\<lambda>(d, dv). (d, prune_device maxAge now dv)) store)"
    by (simp add: wf_map_def case_prod_beta comp_def)
  from js_get_filter [OF this, of "\<lambda>d dv. byName dv \<noteq> []"] show ?thesis
    by (simp add: snapshot_def map_of_map split: option.splits)
qed

lemma prune_ok: "values_ok now dv \<Longrightarrow> values_ok now (prune_device maxAge now dv)"
proof -
  assume ok: "values_ok now dv"
  then have wf: "wf_map (byName dv)" "wf_map (byCanonical dv)" by (simp_all add: values_ok_def)
  show ?thesis
    unfolding values_ok_def
  proof (intro conjI allI impI)
    fix c e assume "js_get (byCanonical (prune_device maxAge now dv)) c = Some e"
    then have e: "js_get (byCanonical dv) c = Some e" "fresh maxAge now e"
      by (auto simp: prune_device_def js_get_filter [OF wf(2)] split: option.splits if_splits)
    then obtain n e' where n: "js_get (byName dv) n = Some e'" "recordedAt e \<le> recordedAt e'"
      using ok unfolding values_ok_def by blast
    then have "fresh maxAge now e'" using e(2) by (simp add: fresh_def)
    then show "\<exists>n e'. js_get (byName (prune_device maxAge now dv)) n = Some e' \<and> recordedAt e \<le> recordedAt e'"
      using n by (intro exI [of _ n] exI [of _ e']) (simp add: prune_device_def js_get_filter [OF wf(1)])
  next
    fix n e assume "js_get (byName (prune_device maxAge now dv)) n = Some e"
    then show "recordedAt e \<le> now"
      using ok by (auto simp: prune_device_def js_get_filter [OF wf(1)] values_ok_def split: option.splits if_splits)
  qed (use wf in \<open>simp_all add: prune_device_def\<close>)
qed

lemma stored_ok: "stored maxAge now store \<Longrightarrow> store_ok now store"
proof (induction rule: stored.induct)
  case (record_set t store now d ts)
  have "values_ok now (or_else (js_get store d) no_values)"
  proof (cases "js_get store d")
    case None
    then show ?thesis by (simp add: no_values_def values_ok_def)
  next
    case (Some dv)
    then show ?thesis using record_set by (auto simp: store_ok_def intro: values_ok_mono)
  qed
  then show ?case
    using record_set by (auto simp: store_ok_def record_set_def record_all_ok intro: values_ok_mono)
next
  case (snapshot t store now)
  then have wf: "wf_map store" by (simp add: store_ok_def)
  moreover have "wf_map (snapshot maxAge now store)"
    using wf unfolding snapshot_def by (intro wf_map_filter) (simp add: wf_map_def case_prod_beta comp_def)
  ultimately show ?case
    using snapshot by (auto simp: store_ok_def snapshot_get split: option.splits if_splits intro: prune_ok values_ok_mono)
qed (simp add: store_ok_def)

definition if_fresh :: "int \<Rightarrow> int \<Rightarrow> snapshot_value option \<Rightarrow> snapshot_value option" where
  "if_fresh maxAge now v = (case v of Some e \<Rightarrow> if fresh maxAge now e then Some e else None | None \<Rightarrow> None)"

text \<open>
  A snapshot shows exactly the values that are not stale: under a name its fresh value, else the
  fresh value with that canonical tag. Dropping devices without named values loses none: a tagged value
  is never fresher than every named one.
\<close>

theorem snapshot_shows_fresh:
  assumes "stored maxAge t store" "t \<le> now"
  shows "snapshot_lookup (snapshot maxAge now store) d key =
    (case js_get store d of
       None \<Rightarrow> None
     | Some dv \<Rightarrow>
         (case if_fresh maxAge now (js_get (byName dv) key) of
            Some e \<Rightarrow> Some e
          | None \<Rightarrow> if_fresh maxAge now (js_get (byCanonical dv) key)))"
proof (cases "js_get store d")
  case None
  then show ?thesis using stored_ok [OF assms(1)] by (simp add: snapshot_lookup_def snapshot_get store_ok_def)
next
  case (Some dv)
  have wf: "wf_map store" and dv: "values_ok t dv" using stored_ok [OF assms(1)] Some by (auto simp: store_ok_def)
  let ?p = "prune_device maxAge now dv"
  have p: "js_get (byName ?p) key = if_fresh maxAge now (js_get (byName dv) key)"
    "js_get (byCanonical ?p) key = if_fresh maxAge now (js_get (byCanonical dv) key)"
    using dv by (auto simp: prune_device_def js_get_filter values_ok_def if_fresh_def split: option.splits)
  show ?thesis
  proof (cases "byName ?p = []")
    case True
    have "values_ok now ?p" by (rule prune_ok [OF values_ok_mono [OF dv assms(2)]])
    then have "js_get (byCanonical ?p) key = None" using True by (auto simp: values_ok_def)
    moreover have "js_get (byName ?p) key = None" using True by simp
    ultimately show ?thesis using Some wf True p by (simp add: snapshot_lookup_def snapshot_get)
  next
    case False
    then show ?thesis using Some wf p
      by (simp add: snapshot_lookup_def snapshot_get device_value_def split: option.splits)
  qed
qed

section \<open>Concrete rules\<close>

definition sample_condition :: "rat \<Rightarrow> rule_condition" where
  "sample_condition d = \<lparr>rc_device = None, rc_telemetry = ''estop'', rc_op = Op_eq, rc_threshold = js_int 0, rc_debounceMs = Some d\<rparr>"

definition sample_rule :: automation_rule where
  "sample_rule = \<lparr>ar_name = ''recover'', ar_enabled = None, ar_cooldownMs = Some 60000, ar_armAfterFalse = Some True,
     ar_all = Some [sample_condition 1000], ar_any = None, ar_then = [Maneuver_action ''restart'' None]\<rparr>"

definition sample_telemetry :: telemetry where
  "sample_telemetry = \<lparr>t_name = ''estop'', t_description = '''', t_value = JNum (js_int 0), t_unit = '''', t_timestamp = '''',
     t_deviceId = ''P'', t_tags = None\<rparr>"

definition sample_store :: snapshot_store where
  "sample_store = record_set 0 ''P'' [sample_telemetry] []"

lemma sample_lookup: "snapshot_lookup sample_store ''P'' ''estop'' = Some \<lparr>sv_value = JNum (js_int 0), sv_unit = '''', recordedAt = 0\<rparr>"
  by (simp add: snapshot_lookup_def sample_store_def record_set_def record_one_def sample_telemetry_def device_value_def
      no_values_def Let_def)

lemma sample_true: "conditionTrue [(''P'', None)] sample_store (sample_condition d)"
  by (simp add: conditionTrue_def resolveTargets_def add_target_def sample_condition_def sample_lookup js_num_eq_def)

lemma evaluate_idempotent_witness:
  "evaluate [(''P'', None)] 0 [sample_rule] sample_store (snd (evaluate [(''P'', None)] 0 [sample_rule] sample_store [])) =
   ([], snd (evaluate [(''P'', None)] 0 [sample_rule] sample_store []))"
  by (rule evaluate_idempotent [of _ _ _ _ "[]" "fst (evaluate [(''P'', None)] 0 [sample_rule] sample_store [])"]) simp_all

lemma debounce_arms_witness:
  "fires_at [(''P'', None)] sample_rule [(0, sample_store)] (1000, sample_store)"
  by (rule debounce_arms [where c = "sample_condition 1000" and d = 1000])
    (simp_all add: sample_rule_def sample_true, simp add: sample_condition_def)

lemma sample_fires: "fires_at [(''P'', None)] (sample_rule\<lparr>ar_armAfterFalse := None\<rparr>) [(0, sample_store)] (1000, sample_store)"
  by (simp add: fires_at_def state_after_def step_rule_def initial_state_def conditions_def held_after_def hold_def held_at_def
      rule_true_def debounced_def Let_def sample_rule_def sample_true) (simp add: sample_condition_def)


lemma snapshot_shows_fresh_witness:
  "snapshot_lookup (snapshot 5000 6000 sample_store) ''P'' ''estop'' = None"
proof -
  have "stored 5000 0 sample_store" unfolding sample_store_def by (rule stored.record_set [OF stored.empty, of 0]) simp
  from snapshot_shows_fresh [OF this, of 6000 "''P''" "''estop''"] show ?thesis
    by (simp add: sample_store_def record_set_def record_one_def sample_telemetry_def no_values_def Let_def if_fresh_def fresh_def)
qed

end
