(* ===== verification/Message_Queue.thy ===== *)
theory Message_Queue
  imports Command_Types
begin

text \<open>
  The message queue: \<open>BullMQQueue\<close> and \<open>BullMQAdapter\<close> of packages/core/src/messaging and
  \<open>PlatformMessageQueue\<close> of packages/platform/messaging. The BullMQ library is a parameter: its calls
  (open a queue, add a job, wait for it, count, ping, close) act on a world and may be rejected.
\<close>

section \<open>Jobs and policies\<close>

datatype job_type = READ_DEVICE | WRITE_TELEMETRY | COMMAND_DEVICE | MANAGEMENT | WS_BROADCAST | FETCH_EXTERNAL

record 'b queued_job =
  qj_jobId :: string
  qj_type :: job_type
  qj_deviceId :: string
  qj_priority :: "jsnum option"
  qj_body :: 'b

record retry_options =
  ro_attempts :: nat
  ro_backoff :: "(string \<times> nat) option"
  ro_removeOnComplete :: nat
  ro_removeOnFail :: nat

definition retry :: "nat \<Rightarrow> nat \<Rightarrow> retry_options" where
  "retry n keep = \<lparr>ro_attempts = n, ro_backoff = None, ro_removeOnComplete = 100, ro_removeOnFail = keep\<rparr>"

fun JOB_RETRY_OPTIONS :: "job_type \<Rightarrow> retry_options" where
  "JOB_RETRY_OPTIONS READ_DEVICE = retry 1 50"
| "JOB_RETRY_OPTIONS WRITE_TELEMETRY = retry 1 500"
| "JOB_RETRY_OPTIONS COMMAND_DEVICE = retry 1 50"
| "JOB_RETRY_OPTIONS MANAGEMENT = retry 1 50"
| "JOB_RETRY_OPTIONS WS_BROADCAST = retry 2 50"
| "JOB_RETRY_OPTIONS FETCH_EXTERNAL = (retry 3 50)\<lparr>ro_backoff := Some (''exponential'', 1000)\<rparr>"

fun QUEUE_NAMES :: "job_type \<Rightarrow> string" where
  "QUEUE_NAMES READ_DEVICE = ''queue_read_device''"
| "QUEUE_NAMES WRITE_TELEMETRY = ''queue_write_telemetry''"
| "QUEUE_NAMES COMMAND_DEVICE = ''queue_command_device''"
| "QUEUE_NAMES MANAGEMENT = ''queue_management''"
| "QUEUE_NAMES WS_BROADCAST = ''queue_ws_broadcast''"
| "QUEUE_NAMES FETCH_EXTERNAL = ''queue_fetch_external''"

definition JOB_TYPES :: "job_type list" where
  "JOB_TYPES = [READ_DEVICE, WRITE_TELEMETRY, COMMAND_DEVICE, MANAGEMENT, WS_BROADCAST, FETCH_EXTERNAL]"

fun type_name :: "job_type \<Rightarrow> string" where
  "type_name READ_DEVICE = ''READ_DEVICE''"
| "type_name WRITE_TELEMETRY = ''WRITE_TELEMETRY''"
| "type_name COMMAND_DEVICE = ''COMMAND_DEVICE''"
| "type_name MANAGEMENT = ''MANAGEMENT''"
| "type_name WS_BROADCAST = ''WS_BROADCAST''"
| "type_name FETCH_EXTERNAL = ''FETCH_EXTERNAL''"

text \<open>Overrides by key; a key that names no job type is ignored.\<close>

definition resolveOverrides :: "(job_type \<Rightarrow> 'a) \<Rightarrow> (string, 'a) jsmap \<Rightarrow> job_type \<Rightarrow> 'a" where
  "resolveOverrides defaults overrides t = or_else (js_get overrides (type_name t)) (defaults t)"

section \<open>The library\<close>

record job_opts =
  op_jobId :: "string option"
  op_priority :: "jsnum option"
  op_delay :: "jsnum option"
  op_every :: "jsnum option"
  op_pattern :: "string option"
  op_startDate :: "int option"

definition no_opts :: job_opts where
  "no_opts = \<lparr>op_jobId = None, op_priority = None, op_delay = None, op_every = None, op_pattern = None, op_startDate = None\<rparr>"

record worker_opts =
  wo_concurrency :: nat
  wo_stalledInterval :: "nat option"

record ('w, 'b, 'r) bull =
  bu_open :: "string \<Rightarrow> retry_options \<Rightarrow> 'w \<Rightarrow> 'w"
  bu_add :: "string \<Rightarrow> string \<Rightarrow> 'b queued_job \<Rightarrow> job_opts \<Rightarrow> ('w, string, string) comp"
  bu_wait :: "string \<Rightarrow> string \<Rightarrow> jsnum \<Rightarrow> ('w, string, 'r option) comp"
  bu_worker :: "string \<Rightarrow> worker_opts \<Rightarrow> 'w \<Rightarrow> 'w"
  bu_count :: "string \<Rightarrow> nat \<Rightarrow> ('w, string, nat) comp"
  bu_jobCounts :: "string \<Rightarrow> ('w, string, bool) comp"
  bu_ping :: "('w, string, bool) comp"
  bu_closeWorker :: "string \<Rightarrow> ('w, string, unit) comp"
  bu_closeQueue :: "string \<Rightarrow> ('w, string, unit) comp"

section \<open>The queue\<close>

record queue_result =
  qr_success :: bool
  qr_validated :: "bool option"
  qr_reason :: "string option"

record 'w mq =
  mq_world :: 'w
  mq_queues :: "string list"                        \<comment> \<open>the adapter's queues, in the order they were opened\<close>
  mq_workers :: "string list"
  mq_opened :: "(job_type, string) jsmap"
  mq_names :: "job_type \<Rightarrow> string"
  mq_retry :: "job_type \<Rightarrow> retry_options"

type_synonym ('w, 'a) qcomp = "('w mq, string, 'a) comp"

definition new_queue :: "(string, string) jsmap \<Rightarrow> (string, retry_options) jsmap \<Rightarrow> 'w \<Rightarrow> 'w mq" where
  "new_queue names retries w =
     \<lparr>mq_world = w, mq_queues = [], mq_workers = [], mq_opened = [], mq_names = resolveOverrides QUEUE_NAMES names,
      mq_retry = resolveOverrides JOB_RETRY_OPTIONS retries\<rparr>"

definition on_bull :: "('w, string, 'a) comp \<Rightarrow> ('w, 'a) qcomp" where
  "on_bull m s = (case m (mq_world s) of (r, w) \<Rightarrow> (r, s\<lparr>mq_world := w\<rparr>))"

definition openQueue :: "('w, 'b, 'r) bull \<Rightarrow> string \<Rightarrow> retry_options \<Rightarrow> 'w mq \<Rightarrow> 'w mq" where
  "openQueue bull name opts s =
     (if name \<in> set (mq_queues s) then s
      else s\<lparr>mq_world := bu_open bull name opts (mq_world s), mq_queues := mq_queues s @ [name]\<rparr>)"

definition queueFor :: "('w, 'b, 'r) bull \<Rightarrow> job_type \<Rightarrow> 'w mq \<Rightarrow> string \<times> 'w mq" where
  "queueFor bull t s =
     (case js_get (mq_opened s) t of
        Some name \<Rightarrow> (name, s)
      | None \<Rightarrow> (mq_names s t, (openQueue bull (mq_names s t) (mq_retry s t) s)\<lparr>mq_opened := js_set t (mq_names s t) (mq_opened s)\<rparr>))"

text \<open>\<open>opts?.delay ? ... : undefined\<close>: a delay of 0 is none; an empty job id is none.\<close>

definition some_delay :: "jsnum option \<Rightarrow> jsnum option" where
  "some_delay d = (case d of None \<Rightarrow> None | Some x \<Rightarrow> if x = js_int 0 \<or> x = NaN then None else Some x)"

definition some_id :: "string \<Rightarrow> string option" where
  "some_id i = (if i = [] then None else Some i)"

definition mq_addJob :: "('w, 'b, 'r) bull \<Rightarrow> 'b queued_job \<Rightarrow> jsnum option \<Rightarrow> ('w, unit) qcomp" where
  "mq_addJob bull job delay s =
     (case queueFor bull (qj_type job) s of
        (name, s1) \<Rightarrow>
          mapresC (\<lambda>_. ()) (on_bull (bu_add bull name (type_name (qj_type job)) job
            (no_opts\<lparr>op_jobId := some_id (qj_jobId job), op_priority := Some (or_else (qj_priority job) (js_int 10)),
                     op_delay := some_delay delay\<rparr>))) s1)"

text \<open>
  A job is added and waited for. The call that adds it stands before the \<open>try\<close>; a job that ends without a
  result object is a success, and a result brings its own fields.
\<close>

definition mq_executeAndWait :: "('w, 'b, queue_result) bull \<Rightarrow> 'b queued_job \<Rightarrow> jsnum \<Rightarrow> ('w, queue_result) qcomp" where
  "mq_executeAndWait bull job timeoutMs s =
     (case queueFor bull (qj_type job) s of
        (name, s1) \<Rightarrow>
          (case on_bull (bu_add bull name (type_name (qj_type job)) job
                 (no_opts\<lparr>op_jobId := some_id (qj_jobId job), op_priority := Some (or_else (qj_priority job) (js_int 10))\<rparr>)) s1 of
             (Inl e, s2) \<Rightarrow> (Inl e, s2)
           | (Inr handle, s2) \<Rightarrow>
               (case on_bull (bu_wait bull name handle timeoutMs) s2 of
                  (Inl e, s3) \<Rightarrow> (Inr \<lparr>qr_success = False, qr_validated = None, qr_reason = Some e\<rparr>, s3)
                | (Inr None, s3) \<Rightarrow> (Inr \<lparr>qr_success = True, qr_validated = None, qr_reason = None\<rparr>, s3)
                | (Inr (Some r), s3) \<Rightarrow> (Inr r, s3))))"

definition repeat_id :: "'b queued_job \<Rightarrow> string \<Rightarrow> string" where
  "repeat_id job name = type_name (qj_type job) @ ''-'' @ qj_deviceId job @ ''-'' @ name"

definition addRepeatableJob :: "('w, 'b, 'r) bull \<Rightarrow> string \<Rightarrow> 'b queued_job \<Rightarrow> string \<Rightarrow> ('w, unit) qcomp" where
  "addRepeatableJob bull name job pattern s =
     (case queueFor bull (qj_type job) s of
        (q, s1) \<Rightarrow> mapresC (\<lambda>_. ()) (on_bull (bu_add bull q name job
          (no_opts\<lparr>op_jobId := Some (repeat_id job name), op_pattern := Some pattern\<rparr>))) s1)"

definition addRepeatableJobEvery :: "('w, 'b, 'r) bull \<Rightarrow> string \<Rightarrow> 'b queued_job \<Rightarrow> jsnum \<Rightarrow> int option \<Rightarrow> ('w, unit) qcomp" where
  "addRepeatableJobEvery bull name job everyMs startDate s =
     (case queueFor bull (qj_type job) s of
        (q, s1) \<Rightarrow> mapresC (\<lambda>_. ()) (on_bull (bu_add bull q name job
          (no_opts\<lparr>op_jobId := Some (repeat_id job name), op_every := Some everyMs, op_startDate := startDate\<rparr>))) s1)"

definition registerWorkerFor :: "('w, 'b, 'r) bull \<Rightarrow> job_type \<Rightarrow> worker_opts \<Rightarrow> 'w mq \<Rightarrow> 'w mq" where
  "registerWorkerFor bull t opts s =
     (case queueFor bull t s of
        (name, s1) \<Rightarrow> s1\<lparr>mq_world := bu_worker bull name opts (mq_world s1), mq_workers := mq_workers s1 @ [name]\<rparr>)"

definition registerWorker :: "('w, 'b, 'r) bull \<Rightarrow> worker_opts \<Rightarrow> 'w mq \<Rightarrow> 'w mq" where
  "registerWorker bull opts s = fold (\<lambda>t. registerWorkerFor bull t opts) JOB_TYPES s"

section \<open>Status, health, closing\<close>

text \<open>The five counters of a queue; a rejected one counts as 0.\<close>

definition stats :: "('w, 'b, 'r) bull \<Rightarrow> string \<Rightarrow> 'w mq \<Rightarrow> nat list \<times> 'w mq" where
  "stats bull name s =
     (case settledC (\<lambda>k. on_bull (bu_count bull name k)) [0..<5] s of
        (rs, s') \<Rightarrow> (map (\<lambda>r. case r of Inr n \<Rightarrow> n | Inl _ \<Rightarrow> 0) rs, s'))"

definition queueStats :: "('w, 'b, 'r) bull \<Rightarrow> job_type \<Rightarrow> 'w mq \<Rightarrow> nat list option \<times> 'w mq" where
  "queueStats bull t s =
     (case js_get (mq_opened s) t of
        None \<Rightarrow> (None, s)
      | Some name \<Rightarrow> (case stats bull name s of (ns, s') \<Rightarrow> (Some ns, s')))"

fun queueStatus_of :: "('w, 'b, 'r) bull \<Rightarrow> (job_type \<times> string) list \<Rightarrow> 'w mq \<Rightarrow> (job_type \<times> nat list) list \<times> 'w mq" where
  "queueStatus_of bull [] s = ([], s)"
| "queueStatus_of bull ((t, name) # es) s =
     (case stats bull name s of
        (ns, s1) \<Rightarrow> (case queueStatus_of bull es s1 of (rest, s2) \<Rightarrow> ((t, ns) # rest, s2)))"

definition queueStatus :: "('w, 'b, 'r) bull \<Rightarrow> 'w mq \<Rightarrow> (job_type \<times> nat list) list \<times> 'w mq" where
  "queueStatus bull s = queueStatus_of bull (mq_opened s) s"

text \<open>A rejected ping is no health in the adapter, a rejected count none in the queue.\<close>

definition mq_health :: "('w, 'b, 'r) bull \<Rightarrow> 'w mq \<Rightarrow> bool \<times> 'w mq" where
  "mq_health bull s =
     (case on_bull (bu_ping bull) s of
        (Inr True, s1) \<Rightarrow>
          (case js_get (mq_opened s1) READ_DEVICE of
             None \<Rightarrow> (True, s1)
           | Some name \<Rightarrow>
               (case on_bull (bu_jobCounts bull name) s1 of (Inr b, s2) \<Rightarrow> (b, s2) | (Inl _, s2) \<Rightarrow> (False, s2)))
      | (_, s1) \<Rightarrow> (False, s1))"

text \<open>All workers first; a rejection of one keeps the queues from being closed.\<close>

definition mq_close :: "('w, 'b, 'r) bull \<Rightarrow> ('w, unit) qcomp" where
  "mq_close bull s =
     bindC (allC (\<lambda>name. on_bull (bu_closeWorker bull name)) (mq_workers s))
       (\<lambda>_. mapresC (\<lambda>_. ()) (allC (\<lambda>name. on_bull (bu_closeQueue bull name)) (mq_queues s))) s"

section \<open>One queue per name\<close>

definition mq_wf :: "'w mq \<Rightarrow> bool" where
  "mq_wf s \<longleftrightarrow> distinct (mq_queues s) \<and> wf_map (mq_opened s) \<and>
     (\<forall>t name. js_get (mq_opened s) t = Some name \<longrightarrow> name = mq_names s t \<and> name \<in> set (mq_queues s))"

lemma queueFor_wf:
  assumes "mq_wf s" "queueFor bull t s = (name, s')"
  shows "mq_wf s' \<and> name = mq_names s t \<and> name \<in> set (mq_queues s') \<and> mq_names s' = mq_names s \<and> set (mq_queues s) \<subseteq> set (mq_queues s')"
  using assms by (auto simp: mq_wf_def queueFor_def openQueue_def split: option.splits if_splits)

lemma on_bull_wf: "mq_wf s \<Longrightarrow> on_bull m s = (r, s') \<Longrightarrow> mq_wf s' \<and> mq_names s' = mq_names s"
  by (auto simp: on_bull_def mq_wf_def split: prod.splits)

lemma keeps_on_bull [keeps]: "keepsC mq_wf (on_bull m)"
  by (rule keepsCI) (auto simp: on_bull_def mq_wf_def split: prod.splits)

end
