(* ===== verification/Action_Executor.thy ===== *)
theory Action_Executor
  imports Rule_Engine Message_Queue
begin

text \<open>
  What a fired rule does: \<open>ActionExecutor\<close> of services/management-service/src/action-executor.ts with its two
  HTTP channels (container-command-channel.ts, maneuver-operation-channel.ts). The signed log,
  the message queue and \<open>fetch\<close> are calls on a world that may be rejected. Console lines are left out.
\<close>

section \<open>Interfaces\<close>

record rule_log =
  rl_level :: string
  rl_code :: string
  rl_message :: string
  rl_context :: "(string \<times> jsval) list"

record 'w action_env =
  ax_source :: "string \<Rightarrow> device_config_file option"
  ax_now :: "'w \<Rightarrow> int"
  ax_stamp :: "'w \<Rightarrow> string"
  ax_send :: "command_job \<Rightarrow> jsnum \<Rightarrow> ('w, string, queue_result) comp"
  ax_bufferMs :: jsnum
  ax_log :: "(rule_log \<Rightarrow> ('w, string, unit) comp) option"
  ax_container :: "(string \<Rightarrow> string \<Rightarrow> string \<Rightarrow> params option \<Rightarrow> string \<Rightarrow> ('w, string, bool \<times> string option) comp) option"
  ax_operations :: "(run_kind \<Rightarrow> string \<Rightarrow> params option \<Rightarrow> string \<Rightarrow> ('w, string, bool \<times> bool \<times> string option) comp) option"

record action_outcome =
  ao_action :: rule_action
  ao_ok :: bool
  ao_reason :: "string option"

definition DEFAULT_COMMAND_TIMEOUT_MS :: jsnum where
  "DEFAULT_COMMAND_TIMEOUT_MS = js_int 3000"

definition DEFAULT_COMMAND_TIMEOUT_BUFFER_MS :: jsnum where
  "DEFAULT_COMMAND_TIMEOUT_BUFFER_MS = js_int 2000"

fun resolution_code :: "resolution_error \<Rightarrow> string" where
  "resolution_code Device_not_found = ''device_not_found''"
| "resolution_code Command_not_found = ''command_not_found''"
| "resolution_code (Missing_param k) = ''missing_param''"

section \<open>Logging\<close>

definition fired_text :: "automation_rule \<Rightarrow> string" where
  "fired_text rule = ''Otomasyon kurali tetiklendi: '' @ ar_name rule"

definition try_log :: "'w action_env \<Rightarrow> rule_log \<Rightarrow> 'w \<Rightarrow> 'w" where
  "try_log env e w = (case ax_log env of None \<Rightarrow> w | Some f \<Rightarrow> snd (f e w))"

definition logFire :: "'w action_env \<Rightarrow> automation_rule \<Rightarrow> 'w \<Rightarrow> 'w" where
  "logFire env rule =
     try_log env \<lparr>rl_level = ''info'', rl_code = ''auto_rule_fired'', rl_message = fired_text rule,
       rl_context = [(''rule'', JStr (ar_name rule)), (''actionCount'', JNum (js_int (int (length (ar_then rule)))))]\<rparr>"

definition logAction :: "'w action_env \<Rightarrow> bool \<Rightarrow> (string \<times> jsval) list \<Rightarrow> 'w \<Rightarrow> 'w" where
  "logAction env ok ctx =
     try_log env \<lparr>rl_level = (if ok then ''info'' else ''error''),
       rl_code = (if ok then ''auto_rule_action_ok'' else ''auto_rule_action_failed''),
       rl_message = (if ok then ''Otomasyon aksiyonu basarili'' else ''Otomasyon aksiyonu basarisiz''), rl_context = ctx\<rparr>"

definition action_done :: "'w action_env \<Rightarrow> rule_action \<Rightarrow> (string \<times> jsval) list \<Rightarrow> ('w, string, action_outcome) comp" where
  "action_done env a ctx w = (Inr \<lparr>ao_action = a, ao_ok = True, ao_reason = None\<rparr>, logAction env True ctx w)"

definition action_failed :: "'w action_env \<Rightarrow> rule_action \<Rightarrow> (string \<times> jsval) list \<Rightarrow> string \<Rightarrow> ('w, string, action_outcome) comp" where
  "action_failed env a ctx reason w =
     (Inr \<lparr>ao_action = a, ao_ok = False, ao_reason = Some reason\<rparr>, logAction env False (ctx @ [(''reason'', JStr reason)]) w)"

section \<open>The actions\<close>

definition command_wait :: "jsnum \<Rightarrow> command_job \<Rightarrow> jsnum" where
  "command_wait bufferMs job =
     js_add (case j_validate job of None \<Rightarrow> DEFAULT_COMMAND_TIMEOUT_MS | Some v \<Rightarrow> jv_timeoutMs v) bufferMs"

definition runCommand :: "'w action_env \<Rightarrow> automation_rule \<Rightarrow> string \<Rightarrow> string \<Rightarrow> params option \<Rightarrow> ('w, string, action_outcome) comp" where
  "runCommand env rule deviceId command ps w =
     (let a = Command_action deviceId command ps;
          ctx = [(''rule'', JStr (ar_name rule)), (''action'', JStr ''command''), (''deviceId'', JStr deviceId), (''command'', JStr command)]
      in case build_job (ax_source env) (ax_now env w) (ax_stamp env w) deviceId command ps of
           Inl e \<Rightarrow> action_failed env a ctx (resolution_code e) w
         | Inr job \<Rightarrow>
             (case ax_send env job (command_wait (ax_bufferMs env) job) w of
                (Inl e, w1) \<Rightarrow> action_failed env a ctx e w1
              | (Inr r, w1) \<Rightarrow>
                  if qr_success r then action_done env a (ctx @ [(''jobId'', JStr (j_jobId job))]) w1
                  else action_failed env a ctx (or_else (qr_reason r) ''komut basarisiz'') w1))"

text \<open>The two delegating actions await their channel outside any \<open>try\<close>.\<close>

definition runContainerCommand ::
  "'w action_env \<Rightarrow> automation_rule \<Rightarrow> string \<Rightarrow> string \<Rightarrow> string \<Rightarrow> params option \<Rightarrow> ('w, string, action_outcome) comp" where
  "runContainerCommand env rule containerId deviceId command ps w =
     (let a = Container_command_action containerId deviceId command ps;
          traceId = ''auto:'' @ ar_name rule;
          ctx = [(''rule'', JStr (ar_name rule)), (''action'', JStr ''container-command''), (''containerId'', JStr containerId),
                 (''deviceId'', JStr deviceId), (''command'', JStr command), (''traceId'', JStr traceId)]
      in case ax_container env of
           None \<Rightarrow> action_failed env a ctx ''konteyner komut kanali yapilandirilmamis'' w
         | Some send \<Rightarrow>
             (case send containerId deviceId command ps traceId w of
                (Inl e, w1) \<Rightarrow> (Inl e, w1)
              | (Inr (ok, reason), w1) \<Rightarrow>
                  if ok then action_done env a ctx w1 else action_failed env a ctx (or_else reason ''komut basarisiz'') w1))"

definition runManeuverOperation ::
  "'w action_env \<Rightarrow> automation_rule \<Rightarrow> run_kind \<Rightarrow> string \<Rightarrow> params option \<Rightarrow> ('w, string, action_outcome) comp" where
  "runManeuverOperation env rule kind name ps w =
     (let a = (case kind of Maneuver \<Rightarrow> Maneuver_action name ps | Operation \<Rightarrow> Operation_action name ps);
          traceId = ''auto:'' @ ar_name rule;
          ctx = [(''rule'', JStr (ar_name rule)), (''action'', JStr (case kind of Maneuver \<Rightarrow> ''maneuver'' | Operation \<Rightarrow> ''operation'')),
                 (''name'', JStr name), (''traceId'', JStr traceId)]
      in case ax_operations env of
           None \<Rightarrow> action_failed env a ctx ''kanal yapilandirilmamis'' w
         | Some execute \<Rightarrow>
             (case execute kind name ps traceId w of
                (Inl e, w1) \<Rightarrow> (Inl e, w1)
              | (Inr (ok, started, reason), w1) \<Rightarrow>
                  if ok then action_done env a (ctx @ (if started then [(''started'', JBool True)] else [])) w1
                  else action_failed env a ctx (or_else reason ''yurutme basarisiz'') w1))"

definition runLog :: "'w action_env \<Rightarrow> automation_rule \<Rightarrow> string \<Rightarrow> string option \<Rightarrow> string option \<Rightarrow> ('w, string, action_outcome) comp" where
  "runLog env rule level code message w =
     (let a = Log_action level code message in
      case ax_log env of
        None \<Rightarrow> (Inr \<lparr>ao_action = a, ao_ok = True, ao_reason = None\<rparr>, w)
      | Some f \<Rightarrow>
          (case f \<lparr>rl_level = level, rl_code = or_else code ''auto_rule_fired'', rl_message = or_else message (fired_text rule),
                   rl_context = [(''rule'', JStr (ar_name rule)), (''action'', JStr ''log'')]\<rparr> w of
             (Inl e, w1) \<Rightarrow> (Inr \<lparr>ao_action = a, ao_ok = False, ao_reason = Some e\<rparr>, w1)
           | (Inr _, w1) \<Rightarrow> (Inr \<lparr>ao_action = a, ao_ok = True, ao_reason = None\<rparr>, w1)))"

definition runNotify :: "'w action_env \<Rightarrow> automation_rule \<Rightarrow> ('w, string, action_outcome) comp" where
  "runNotify env rule w =
     (case ax_log env of
        None \<Rightarrow> (Inr \<lparr>ao_action = Notify_action, ao_ok = True, ao_reason = Some ''logger yok - atlandi''\<rparr>, w)
      | Some f \<Rightarrow>
          (case f \<lparr>rl_level = ''warn'', rl_code = ''auto_rule_'' @ ar_name rule, rl_message = fired_text rule,
                   rl_context = [(''rule'', JStr (ar_name rule))]\<rparr> w of
             (Inl e, w1) \<Rightarrow> action_failed env Notify_action [(''rule'', JStr (ar_name rule)), (''action'', JStr ''notify'')] e w1
           | (Inr _, w1) \<Rightarrow> (Inr \<lparr>ao_action = Notify_action, ao_ok = True, ao_reason = None\<rparr>, w1)))"

definition runAction :: "'w action_env \<Rightarrow> automation_rule \<Rightarrow> rule_action \<Rightarrow> ('w, string, action_outcome) comp" where
  "runAction env rule action =
     (case action of
        Command_action d c ps \<Rightarrow> runCommand env rule d c ps
      | Container_command_action k d c ps \<Rightarrow> runContainerCommand env rule k d c ps
      | Maneuver_action n ps \<Rightarrow> runManeuverOperation env rule Maneuver n ps
      | Operation_action n ps \<Rightarrow> runManeuverOperation env rule Operation n ps
      | Log_action l c m \<Rightarrow> runLog env rule l c m
      | Notify_action \<Rightarrow> runNotify env rule)"

text \<open>The actions one after the other.\<close>

definition execute_rule :: "'w action_env \<Rightarrow> automation_rule \<Rightarrow> ('w, string, action_outcome list) comp" where
  "execute_rule env rule w = seqC (runAction env rule) (ar_then rule) (logFire env rule w)"

section \<open>The HTTP channels\<close>

text \<open>
  A response: its status and its body as the code reads it, \<open>None\<close> for a body that is JSON null. A body
  that is no JSON reads as an object without fields. The body sent is one command, run sequentially and
  stopped at a failure, or the parameters of a run.
\<close>

record http_body =
  hb_results :: "(bool option \<times> string option) list option"
  hb_status :: "string option"
  hb_reason :: "string option"
  hb_error :: "string option"

record http_answer =
  ha_status :: nat
  ha_body :: "http_body option"

datatype http_payload = One_command string string params | Run_params params

record 'w http_channel =
  hc_baseUrl :: string
  hc_fieldId :: string
  hc_token :: "string option"
  hc_encode :: "string \<Rightarrow> string option"     \<comment> \<open>\<open>encodeURIComponent\<close>, \<open>None\<close> where it throws\<close>
  hc_fetch :: "string \<Rightarrow> (string \<times> string) list \<Rightarrow> http_payload \<Rightarrow> ('w, bool \<times> string, http_answer) comp"

definition response_ok :: "http_answer \<Rightarrow> bool" where
  "response_ok a \<longleftrightarrow> 200 \<le> ha_status a \<and> ha_status a < 300"

definition trim_slashes :: "string \<Rightarrow> string" where
  "trim_slashes s = rev (dropWhile (\<lambda>ch. ch = CHR ''/'') (rev s))"

definition channel_headers :: "'w http_channel \<Rightarrow> string \<Rightarrow> (string \<times> string) list" where
  "channel_headers ch traceId =
     [(''content-type'', ''application/json''), (''x-gd-trace-id'', traceId)] @
     (case hc_token ch of Some t \<Rightarrow> if t = [] then [] else [(''x-internal-token'', t)] | None \<Rightarrow> [])"

definition http_status_text :: "http_answer \<Rightarrow> string" where
  "http_status_text a = ''http '' @ show_int (int (ha_status a))"

definition container_answer :: "http_answer \<Rightarrow> bool \<times> string option" where
  "container_answer a =
     (case ha_body a of
        None \<Rightarrow> (False, Some ''TypeError: Cannot read properties of null'')
      | Some b \<Rightarrow>
          let bad = find_first (\<lambda>(ok, r). ok = Some False) (or_else (hb_results b) []) in
          if \<not> response_ok a \<or> bad \<noteq> None
          then (False, Some (case (bad, hb_error b) of
                  (Some (_, Some r), _) \<Rightarrow> r
                | (_, Some e) \<Rightarrow> e
                | _ \<Rightarrow> http_status_text a))
          else (True, None))"

definition http_container_send ::
  "'w http_channel \<Rightarrow> string \<Rightarrow> string \<Rightarrow> string \<Rightarrow> params option \<Rightarrow> string \<Rightarrow> ('w, string, bool \<times> string option) comp" where
  "http_container_send ch containerId deviceId command ps traceId w =
     (case (hc_encode ch (hc_fieldId ch), hc_encode ch containerId) of
        (Some f, Some c) \<Rightarrow>
          (case hc_fetch ch (trim_slashes (hc_baseUrl ch) @ ''/api/fields/'' @ f @ ''/containers/'' @ c @ ''/commands'')
                 (channel_headers ch traceId) (One_command deviceId command (or_else ps [])) w of
             (Inl (aborted, e), w1) \<Rightarrow> (Inr (False, Some e), w1)
           | (Inr a, w1) \<Rightarrow> (Inr (container_answer a), w1))
      | _ \<Rightarrow> (Inl ''URIError: URI malformed'', w))"

definition operation_answer :: "http_answer \<Rightarrow> bool \<times> bool \<times> string option" where
  "operation_answer a =
     (if ha_status a = 202 then (True, True, None)
      else case ha_body a of
        None \<Rightarrow> (False, False, Some ''TypeError: Cannot read properties of null'')
      | Some b \<Rightarrow>
          if response_ok a \<and> (hb_status b = Some ''completed'' \<or> hb_status b = Some ''rolled_back'') then (True, False, None)
          else (False, False, Some (case (hb_reason b, hb_error b, hb_status b) of
                  (Some r, _, _) \<Rightarrow> r | (_, Some e, _) \<Rightarrow> e | (_, _, Some st) \<Rightarrow> st | _ \<Rightarrow> http_status_text a)))"

definition http_operation_execute ::
  "'w http_channel \<Rightarrow> run_kind \<Rightarrow> string \<Rightarrow> params option \<Rightarrow> string \<Rightarrow> ('w, string, bool \<times> bool \<times> string option) comp" where
  "http_operation_execute ch kind name ps traceId w =
     (case hc_encode ch name of
        None \<Rightarrow> (Inl ''URIError: URI malformed'', w)
      | Some n \<Rightarrow>
          (case hc_fetch ch (trim_slashes (hc_baseUrl ch) @ ''/api/'' @ (case kind of Maneuver \<Rightarrow> ''maneuvers'' | Operation \<Rightarrow> ''operations'') @
                  ''/'' @ n @ ''/execute'') (channel_headers ch traceId) (Run_params (or_else ps [])) w of
             (Inl (aborted, e), w1) \<Rightarrow> (Inr (False, False, Some (if aborted then ''timeout'' else e)), w1)
           | (Inr a, w1) \<Rightarrow> (Inr (operation_answer a), w1)))"

end
