(* ===== verification/Device_Monitoring.thy ===== *)
theory Device_Monitoring
  imports Tamper_Log Telemetry
begin

text \<open>
  Monitoring in services/device-service: alarm samples and the transition detector
  (alarm-transition-detector.ts), the table of alarm states (alarm-state-repository.ts, its statements
  as functions on a table keyed by device and alarm), the write policy and the write filter
  (write-policy.ts, telemetry-write-filter.ts).
\<close>

section \<open>Alarms\<close>

datatype alarm_severity = Alarm_error | Alarm_warning | Alarm_info

record alarm_rule =
  al_telemetry :: string
  al_severity :: alarm_severity
  al_description :: "string option"
  al_activeLow :: "bool option"

record alarm_sample =
  as_name :: string
  as_severity :: alarm_severity
  as_description :: "string option"
  as_active :: bool

datatype transition_kind = Set_alarm | Clear_alarm

record alarm_transition =
  at_name :: string
  at_severity :: alarm_severity
  at_description :: "string option"
  at_kind :: transition_kind

text \<open>\<open>Number(value) ?? 0\<close> is \<open>Number(value)\<close>: it is never null or undefined. NaN differs from 0.\<close>

definition entry_active :: "alarm_rule \<Rightarrow> telemetry \<Rightarrow> bool" where
  "entry_active r t =
     (let zero = js_num_eq (to_number (t_value t)) (js_int 0)
      in if al_activeLow r = Some True then zero else \<not> zero)"

definition alarmSamples :: "alarm_rule list \<Rightarrow> telemetry list \<Rightarrow> alarm_sample list" where
  "alarmSamples rules telemetry =
     List.map_filter (\<lambda>r.
         let entries = filter (\<lambda>t. t_name t = al_telemetry r) telemetry
         in if entries = [] then None
            else Some \<lparr>as_name = al_telemetry r, as_severity = al_severity r, as_description = al_description r,
                       as_active = list_ex (entry_active r) entries\<rparr>) rules"

type_synonym detector = "(string, bool) jsmap"

definition alarm_key :: "string \<Rightarrow> string \<Rightarrow> string" where
  "alarm_key d name = d @ '':'' @ name"

definition transition_of :: "bool option \<Rightarrow> alarm_sample \<Rightarrow> alarm_transition list" where
  "transition_of last_state s =
     (let tr = (\<lambda>k. \<lparr>at_name = as_name s, at_severity = as_severity s, at_description = as_description s, at_kind = k\<rparr>)
      in if as_active s \<and> last_state \<noteq> Some True then [tr Set_alarm]
         else if \<not> as_active s \<and> last_state = Some True then [tr Clear_alarm] else [])"

fun detect :: "string \<Rightarrow> alarm_sample list \<Rightarrow> detector \<Rightarrow> alarm_transition list \<times> detector" where
  "detect d [] st = ([], st)"
| "detect d (s # ss) st =
     (let key = alarm_key d (as_name s);
          (trs, st') = detect d ss (js_set key (as_active s) st)
      in (transition_of (js_get st key) s @ trs, st'))"

definition detector_reset :: "string \<Rightarrow> detector \<Rightarrow> detector" where
  "detector_reset d st = filter (\<lambda>(k, v). \<not> starts_with (d @ '':'') k) st"

section \<open>The alarm table\<close>

record alarm_row =
  ro_severity :: alarm_severity
  ro_description :: "string option"
  ro_active :: bool
  ro_startedAt :: "int option"
  ro_endedAt :: "int option"
  ro_resolved :: bool
  ro_resolvedBy :: "string option"
  ro_resolvedAt :: "int option"
  ro_lastChangedAt :: int

type_synonym alarm_table = "string \<times> string \<Rightarrow> alarm_row option"

definition activate :: "int \<Rightarrow> string \<Rightarrow> string \<Rightarrow> alarm_severity \<Rightarrow> string option \<Rightarrow> alarm_table \<Rightarrow> alarm_table" where
  "activate now d name sev desc tbl =
     tbl((d, name) \<mapsto>
       (case tbl (d, name) of
          None \<Rightarrow> \<lparr>ro_severity = sev, ro_description = desc, ro_active = True, ro_startedAt = Some now, ro_endedAt = None,
                   ro_resolved = False, ro_resolvedBy = None, ro_resolvedAt = None, ro_lastChangedAt = now\<rparr>
        | Some r \<Rightarrow>
            \<lparr>ro_severity = sev, ro_description = desc, ro_active = True,
             ro_startedAt = (if ro_active r then ro_startedAt r else Some now), ro_endedAt = None,
             ro_resolved = (if ro_active r then ro_resolved r else False),
             ro_resolvedBy = (if ro_active r then ro_resolvedBy r else None),
             ro_resolvedAt = (if ro_active r then ro_resolvedAt r else None), ro_lastChangedAt = now\<rparr>))"

definition active_row :: "alarm_table \<Rightarrow> string \<Rightarrow> string \<Rightarrow> alarm_row option" where
  "active_row tbl d name = (case tbl (d, name) of Some r \<Rightarrow> if ro_active r then Some r else None | None \<Rightarrow> None)"

definition deactivate :: "int \<Rightarrow> string \<Rightarrow> string \<Rightarrow> alarm_table \<Rightarrow> alarm_table" where
  "deactivate now d name tbl =
     (case active_row tbl d name of
        Some r \<Rightarrow> tbl((d, name) \<mapsto> r\<lparr>ro_active := False, ro_endedAt := Some now, ro_lastChangedAt := now\<rparr>)
      | None \<Rightarrow> tbl)"

definition resolve_alarm :: "int \<Rightarrow> string \<Rightarrow> string \<Rightarrow> string \<Rightarrow> alarm_table \<Rightarrow> bool \<times> alarm_table" where
  "resolve_alarm now d name user tbl =
     (case active_row tbl d name of
        Some r \<Rightarrow>
          (True, tbl((d, name) \<mapsto> r\<lparr>ro_resolved := True, ro_resolvedBy := Some user, ro_resolvedAt := Some now,
                                      ro_lastChangedAt := now\<rparr>))
      | None \<Rightarrow> (False, tbl))"

definition resetAll :: "int \<Rightarrow> string list \<Rightarrow> alarm_table \<Rightarrow> alarm_table" where
  "resetAll now ds tbl =
     (\<lambda>(d, name). if d \<in> set ds
        then map_option (\<lambda>r. r\<lparr>ro_active := False, ro_endedAt := Some (or_else (ro_endedAt r) now), ro_lastChangedAt := now\<rparr>)
               (tbl (d, name))
        else tbl (d, name))"

section \<open>Write policy\<close>

datatype deadband_config = Auto_deadband | Fixed_deadband jsnum

record telemetry_entry =
  te_name :: string
  te_deadband :: "deadband_config option"
  te_scale :: "jsval option"
  te_maxStaleMs :: "jsnum option"

record write_policy =
  deadband :: jsnum
  maxStaleMs :: jsnum

definition entry_policy :: "telemetry_entry \<Rightarrow> string + write_policy option" where
  "entry_policy e =
     (case te_deadband e of
        None \<Rightarrow> Inr None
      | Some raw \<Rightarrow>
          let db = (case raw of Auto_deadband \<Rightarrow>
                      to_number (case te_scale e of None \<Rightarrow> JNum (js_int 0) | Some JUndefined \<Rightarrow> JNum (js_int 0)
                                  | Some JNull \<Rightarrow> JNum (js_int 0) | Some v \<Rightarrow> v)
                    | Fixed_deadband x \<Rightarrow> x)
          in (case te_maxStaleMs e of
                Some ms \<Rightarrow> if is_finite db \<and> js_less (js_int 0) db then Inr (Some \<lparr>deadband = db, maxStaleMs = ms\<rparr>)
                            else Inl (te_name e)
              | None \<Rightarrow> Inl (te_name e)))"

definition resolveWritePolicies :: "telemetry_entry list \<Rightarrow> string + (string, write_policy) jsmap" where
  "resolveWritePolicies entries =
     fold_res (\<lambda>e m. case entry_policy e of
                       Inl err \<Rightarrow> Inl err
                     | Inr None \<Rightarrow> Inr m
                     | Inr (Some p) \<Rightarrow> Inr (js_set (te_name e) p m)) entries []"

section \<open>Write filter\<close>

record written_state =
  ws_value :: jsnum
  ws_at :: int

type_synonym filter_state = "(string, (string, written_state) jsmap) jsmap"

definition numericValue :: "jsval \<Rightarrow> jsnum option" where
  "numericValue v = (case v of JNum x \<Rightarrow> if is_finite x then Some x else None | _ \<Rightarrow> None)"

definition must_write :: "int \<Rightarrow> (string, write_policy) jsmap \<Rightarrow> (string, written_state) jsmap \<Rightarrow> telemetry \<Rightarrow> bool" where
  "must_write now policies dev t =
     (case js_get policies (t_name t) of
        None \<Rightarrow> True
      | Some p \<Rightarrow>
          (case (js_get dev (t_name t), numericValue (t_value t)) of
             (Some w, Some v) \<Rightarrow>
               js_le (deadband p) (js_abs (js_sub v (ws_value w))) \<or> js_le (maxStaleMs p) (js_int (now - ws_at w))
           | _ \<Rightarrow> True))"

definition select_writes :: "int \<Rightarrow> string \<Rightarrow> telemetry list \<Rightarrow> (string, write_policy) jsmap \<Rightarrow> filter_state \<Rightarrow> telemetry list" where
  "select_writes now d data policies st = filter (must_write now policies (or_else (js_get st d) [])) data"

definition mark_one :: "int \<Rightarrow> telemetry \<Rightarrow> (string, written_state) jsmap \<Rightarrow> (string, written_state) jsmap" where
  "mark_one now t dev =
     (case numericValue (t_value t) of
        Some v \<Rightarrow> js_set (t_name t) \<lparr>ws_value = v, ws_at = now\<rparr> dev
      | None \<Rightarrow> dev)"

definition markWritten :: "int \<Rightarrow> string \<Rightarrow> telemetry list \<Rightarrow> filter_state \<Rightarrow> filter_state" where
  "markWritten now d data st = js_set d (fold (mark_one now) data (or_else (js_get st d) [])) st"

end
