(* ===== verification/Device_Service.thy ===== *)
theory Device_Service
  imports Device_Monitoring Command_Types
begin

text \<open>
  The device service (services/device-service/src/device-service.ts) with its tagger, its heartbeat
  writers and the distribution of readings (telemetry-tagger.ts, heartbeat-writer.ts,
  device-scheduler.ts). Devices, logger, database and queue are computations over a world of any type,
  which may reject; what they accept is recorded in the service's state: the signed events, the queued
  jobs, the rows of the two tables. The fixed message texts of events and the operational log (console
  lines) are left out. An error is the text \<open>String(err)\<close>.
\<close>

section \<open>Interfaces\<close>

record 'w idevice =
  dv_id :: string
  dv_connect :: "('w, string, unit) comp"
  dv_disconnect :: "('w, string, unit) comp"
  dv_read :: "('w, string, telemetry list) comp"
  dv_write :: "telemetry list \<Rightarrow> ('w, string, unit) comp"
  dv_writeAtomic :: "(telemetry list \<Rightarrow> ('w, string, unit) comp) option"

record heartbeat_config =
  hb_telemetry :: string
  hb_intervalMs :: jsnum
  hb_extraTelemetries :: "string list option"

record 'w device_entry =
  de_device :: "'w idevice"
  de_pollIntervalMs :: jsnum
  de_name :: string
  de_manufacturer :: "string option"
  de_model :: "string option"
  de_protocol :: string
  de_type :: string
  de_details :: "(string \<times> json) list option"
  de_connection :: "(string \<times> json) list"
  de_alarms :: "alarm_rule list option"
  de_writePolicy :: "(string, write_policy) jsmap option"
  de_heartbeat :: "heartbeat_config option"

record service_event =
  se_level :: log_level
  se_category :: log_category
  se_code :: string
  se_context :: "(string \<times> json) list"

record device_info =
  di_name :: string
  di_manufacturer :: "string option"
  di_model :: "string option"
  di_protocol :: string
  di_type :: string
  di_details :: string
  di_pollIntervalMs :: jsnum
  di_connection :: string

datatype sql_stmt =
    Upsert_device string device_info
  | Set_device_offline string
  | Set_device_online string
  | Create_alarm_table
  | Reset_alarms "string list"
  | Activate_alarm string string alarm_severity "string option"
  | Deactivate_alarm string string

datatype queue_job = Write_job string "telemetry list" | Mgmt_job string "telemetry list" | Ws_job string "telemetry list"

record 'w service_env =
  io_clock :: "'w \<Rightarrow> int"
  io_now :: "'w \<Rightarrow> string"
  io_wait :: "jsnum \<Rightarrow> 'w \<Rightarrow> 'w"
  io_log :: "(service_event \<Rightarrow> ('w, string, unit) comp) option"
  io_sql :: "(sql_stmt \<Rightarrow> ('w, string, unit) comp) option"
  io_addJob :: "queue_job \<Rightarrow> ('w, string, unit) comp"
  io_repeat :: "string \<Rightarrow> jsnum \<Rightarrow> int option \<Rightarrow> ('w, string, unit) comp"
  io_registerWorker :: "string \<Rightarrow> ('w, string, unit) comp"
  io_closeQueue :: "('w, string, unit) comp"
  io_disconnectSql :: "('w, string, unit) comp"
  io_managementIntervalMs :: "jsnum option"

section \<open>The tables\<close>

record device_row =
  dr_info :: device_info
  dr_status :: string
  dr_lastSeen :: "int option"
  dr_createdAt :: int
  dr_updatedAt :: int

record database =
  db_devices :: "string \<Rightarrow> device_row option"
  db_alarms :: alarm_table

definition upsert_device :: "int \<Rightarrow> string \<Rightarrow> device_info \<Rightarrow> (string \<Rightarrow> device_row option) \<Rightarrow> string \<Rightarrow> device_row option" where
  "upsert_device now d info tbl =
     tbl(d \<mapsto> \<lparr>dr_info = info, dr_status = ''online'', dr_lastSeen = Some now,
            dr_createdAt = (case tbl d of None \<Rightarrow> now | Some r \<Rightarrow> dr_createdAt r), dr_updatedAt = now\<rparr>)"

definition run_stmt :: "int \<Rightarrow> sql_stmt \<Rightarrow> database \<Rightarrow> database" where
  "run_stmt now stmt db =
     (case stmt of
        Upsert_device d info \<Rightarrow> db\<lparr>db_devices := upsert_device now d info (db_devices db)\<rparr>
      | Set_device_offline d \<Rightarrow>
          db\<lparr>db_devices := (db_devices db)(d := map_option (\<lambda>r. r\<lparr>dr_status := ''offline'', dr_updatedAt := now\<rparr>) (db_devices db d))\<rparr>
      | Set_device_online d \<Rightarrow>
          db\<lparr>db_devices := (db_devices db)(d := map_option (\<lambda>r. r\<lparr>dr_status := ''online'', dr_lastSeen := Some now, dr_updatedAt := now\<rparr>) (db_devices db d))\<rparr>
      | Create_alarm_table \<Rightarrow> db
      | Reset_alarms ds \<Rightarrow> db\<lparr>db_alarms := resetAll now ds (db_alarms db)\<rparr>
      | Activate_alarm d n sev desc \<Rightarrow> db\<lparr>db_alarms := activate now d n sev desc (db_alarms db)\<rparr>
      | Deactivate_alarm d n \<Rightarrow> db\<lparr>db_alarms := deactivate now d n (db_alarms db)\<rparr>)"

section \<open>State and calls\<close>

record tagger_config =
  tg_deviceId :: string
  tg_containerId :: "string option"
  tg_fieldId :: "string option"

record 'w service_state =
  sv_world :: 'w
  sv_running :: bool
  sv_devices :: "(string, 'w device_entry) jsmap"
  sv_taggers :: "(string, tagger_config) jsmap"
  sv_offlineSince :: "(string, int) jsmap"
  sv_lastReminderAt :: "(string, int) jsmap"
  sv_detector :: detector
  sv_filter :: filter_state
  sv_heartbeats :: "(string, nat) jsmap"
  sv_queue :: "queue_job list"
  sv_db :: database
  sv_log :: "service_event list"

type_synonym ('w, 'a) scomp = "('w service_state, string, 'a) comp"

text \<open>The constructor.\<close>

definition new_service :: "'w device_entry list \<Rightarrow> string option \<Rightarrow> string option \<Rightarrow> database \<Rightarrow> 'w \<Rightarrow> 'w service_state" where
  "new_service entries containerId fieldId db w =
     \<lparr>sv_world = w, sv_running = False,
      sv_devices = fold (\<lambda>e. js_set (dv_id (de_device e)) e) entries [],
      sv_taggers = fold (\<lambda>e. js_set (dv_id (de_device e))
          \<lparr>tg_deviceId = dv_id (de_device e), tg_containerId = containerId, tg_fieldId = fieldId\<rparr>) entries [],
      sv_offlineSince = [], sv_lastReminderAt = [], sv_detector = [], sv_filter = [], sv_heartbeats = [],
      sv_queue = [], sv_db = db, sv_log = []\<rparr>"

text \<open>A call of the outside; what it accepts takes effect in the recorded state.\<close>

definition external :: "('w, string, 'a) comp \<Rightarrow> ('w service_state \<Rightarrow> 'w service_state) \<Rightarrow> ('w, 'a) scomp" where
  "external m effect s =
     (case m (sv_world s) of
        (Inl e, w) \<Rightarrow> (Inl e, s\<lparr>sv_world := w\<rparr>)
      | (Inr x, w) \<Rightarrow> (Inr x, effect (s\<lparr>sv_world := w\<rparr>)))"

definition on_device :: "('w, string, 'a) comp \<Rightarrow> ('w, 'a) scomp" where
  "on_device m = external m id"

text \<open>\<open>try { await m } catch {}\<close>.\<close>

definition attemptC :: "('s, 'e, 'a) comp \<Rightarrow> ('s, 'e, unit) comp" where
  "attemptC m s = (Inr (), snd (m s))"

definition log_event :: "'w service_env \<Rightarrow> service_event \<Rightarrow> ('w, unit) scomp" where
  "log_event env ev =
     (case io_log env of
        None \<Rightarrow> returnC ()
      | Some f \<Rightarrow> external (f ev) (\<lambda>s. s\<lparr>sv_log := sv_log s @ [ev]\<rparr>))"

definition execute_sql :: "'w service_env \<Rightarrow> sql_stmt \<Rightarrow> ('w, unit) scomp" where
  "execute_sql env stmt =
     (case io_sql env of
        None \<Rightarrow> returnC ()
      | Some f \<Rightarrow> (\<lambda>s. external (f stmt) (\<lambda>s'. s'\<lparr>sv_db := run_stmt (io_clock env (sv_world s)) stmt (sv_db s')\<rparr>) s))"

definition add_job :: "'w service_env \<Rightarrow> queue_job \<Rightarrow> ('w, unit) scomp" where
  "add_job env j = external (io_addJob env j) (\<lambda>s. s\<lparr>sv_queue := sv_queue s @ [j]\<rparr>)"

definition event :: "log_level \<Rightarrow> log_category \<Rightarrow> string \<Rightarrow> (string \<times> json) list \<Rightarrow> service_event" where
  "event l c code ctx = \<lparr>se_level = l, se_category = c, se_code = code, se_context = ctx\<rparr>"

section \<open>Distribution of a reading\<close>

definition nonempty_tag :: "string \<Rightarrow> string option \<Rightarrow> tags" where
  "nonempty_tag k v = (case v of Some x \<Rightarrow> if x = [] then [] else [(k, x)] | None \<Rightarrow> [])"

definition enrich :: "tagger_config \<Rightarrow> telemetry list \<Rightarrow> telemetry list" where
  "enrich cfg data =
     map (\<lambda>t. t\<lparr>t_tags := Some (js_spread (or_else (t_tags t) [])
         ([(''device_id'', tg_deviceId cfg)] @ nonempty_tag ''container_id'' (tg_containerId cfg) @ nonempty_tag ''field_id'' (tg_fieldId cfg)))\<rparr>) data"

text \<open>The write job is queued first; each of the three calls may be rejected by itself.\<close>

definition publishTelemetry :: "'w service_env \<Rightarrow> string \<Rightarrow> telemetry list \<Rightarrow> telemetry list \<Rightarrow> ('w, bool) scomp" where
  "publishTelemetry env d data writes s =
     (if data = [] then (Inr False, s)
      else
        case settledC (add_job env) ((if writes \<noteq> [] then [Write_job d writes] else []) @ [Mgmt_job d data, Ws_job d data]) s of
          (rs, s') \<Rightarrow> (Inr (writes \<noteq> [] \<and> rs ! 0 = Inr ()), s'))"

definition publish :: "'w service_env \<Rightarrow> string \<Rightarrow> telemetry list \<Rightarrow> ('w, unit) scomp" where
  "publish env d data s =
     (let enriched = (case js_get (sv_taggers s) d of None \<Rightarrow> data | Some cfg \<Rightarrow> enrich cfg data);
          policies = (case js_get (sv_devices s) d of None \<Rightarrow> [] | Some e \<Rightarrow> or_else (de_writePolicy e) []);
          writes = select_writes (io_clock env (sv_world s)) d enriched policies (sv_filter s)
      in bindC (publishTelemetry env d enriched writes)
           (\<lambda>queued s'. (Inr (), if queued \<and> writes \<noteq> []
              then s'\<lparr>sv_filter := markWritten (io_clock env (sv_world s')) d writes (sv_filter s')\<rparr> else s')) s)"

section \<open>Alarms\<close>

definition severity_level :: "alarm_severity \<Rightarrow> log_level" where
  "severity_level sev = (case sev of Alarm_error \<Rightarrow> Level_error | Alarm_warning \<Rightarrow> Warn | Alarm_info \<Rightarrow> Info)"

definition severity_name :: "alarm_severity \<Rightarrow> string" where
  "severity_name sev = (case sev of Alarm_error \<Rightarrow> ''error'' | Alarm_warning \<Rightarrow> ''warning'' | Alarm_info \<Rightarrow> ''info'')"

definition alarm_event :: "string \<Rightarrow> alarm_transition \<Rightarrow> service_event" where
  "alarm_event d t =
     (if at_kind t = Set_alarm
      then event (severity_level (at_severity t)) App ''device_alarm''
             [(''deviceId'', VStr d), (''alarm'', VStr (at_name t)), (''severity'', VStr (severity_name (at_severity t)))]
      else event Info App ''device_alarm_cleared'' [(''deviceId'', VStr d), (''alarm'', VStr (at_name t))])"

text \<open>One transition: the table and the log are written independently of each other.\<close>

definition applyTransition :: "'w service_env \<Rightarrow> string \<Rightarrow> alarm_transition \<Rightarrow> ('w, unit) scomp" where
  "applyTransition env d t =
     bindC (attemptC (execute_sql env
        (if at_kind t = Set_alarm then Activate_alarm d (at_name t) (at_severity t) (at_description t)
         else Deactivate_alarm d (at_name t))))
       (\<lambda>_. attemptC (log_event env (alarm_event d t)))"

definition evaluateAlarms :: "'w service_env \<Rightarrow> string \<Rightarrow> telemetry list \<Rightarrow> ('w, unit) scomp" where
  "evaluateAlarms env d data s =
     (case js_get (sv_devices s) d of
        None \<Rightarrow> (Inr (), s)
      | Some e \<Rightarrow>
          (case de_alarms e of
             None \<Rightarrow> (Inr (), s)
           | Some rules \<Rightarrow>
               (case detect d (alarmSamples rules data) (sv_detector s) of
                  (trs, st) \<Rightarrow> (Inr (), snd (settledC (applyTransition env d) trs (s\<lparr>sv_detector := st\<rparr>))))))"

section \<open>Reading\<close>

definition FAILURE_REMINDER_MS :: int where "FAILURE_REMINDER_MS = 60000"

definition read_failed_event :: "log_level \<Rightarrow> string \<Rightarrow> string \<Rightarrow> service_event" where
  "read_failed_event l d err = event l App ''modbus_read_failed'' [(''deviceId'', VStr d), (''error'', VStr err)]"

definition log_failure :: "'w service_env \<Rightarrow> string \<Rightarrow> string \<Rightarrow> bool \<Rightarrow> int \<Rightarrow> ('w, unit) scomp" where
  "log_failure env d err first now s =
     (if io_log env = None then (Inr (), s)
      else if first then
        log_event env (read_failed_event Level_error d err) (s\<lparr>sv_lastReminderAt := js_set d now (sv_lastReminderAt s)\<rparr>)
      else if now - or_else (js_get (sv_lastReminderAt s) d) now \<ge> FAILURE_REMINDER_MS then
        log_event env (read_failed_event Debug d err) (s\<lparr>sv_lastReminderAt := js_set d now (sv_lastReminderAt s)\<rparr>)
      else (Inr (), s))"

definition handleReadFailure :: "'w service_env \<Rightarrow> string \<Rightarrow> string \<Rightarrow> ('w, unit) scomp" where
  "handleReadFailure env d err s =
     (let first = (js_get (sv_offlineSince s) d = None);
          now = io_clock env (sv_world s)
      in bindC (log_failure env d err first now)
           (\<lambda>_. if first then attemptC (execute_sql env (Set_device_offline d)) else returnC ())
           (s\<lparr>sv_offlineSince := js_set d now (sv_offlineSince s)\<rparr>))"

definition online_event :: "string \<Rightarrow> service_event" where
  "online_event d = event Info App ''device_online'' [(''deviceId'', VStr d)]"

definition markOnline :: "'w service_env \<Rightarrow> string \<Rightarrow> ('w, unit) scomp" where
  "markOnline env d s =
     (if js_get (sv_offlineSince s) d = None then (Inr (), s)
      else bindC (log_event env (online_event d)) (\<lambda>_. attemptC (execute_sql env (Set_device_online d)))
             (s\<lparr>sv_offlineSince := js_delete d (sv_offlineSince s), sv_lastReminderAt := js_delete d (sv_lastReminderAt s)\<rparr>))"

definition rejected_request :: "'w service_env \<Rightarrow> string \<Rightarrow> ('w, unit) scomp" where
  "rejected_request env d = attemptC (log_event env (event Warn Security ''request_rejected'' [(''deviceId'', VStr d)]))"

definition readDevice :: "'w service_env \<Rightarrow> string \<Rightarrow> ('w, unit) scomp" where
  "readDevice env d s =
     (case js_get (sv_devices s) d of
        None \<Rightarrow> rejected_request env d s
      | Some e \<Rightarrow>
          (case bindC (on_device (dv_read (de_device e)))
                  (\<lambda>data. bindC (publish env d data) (\<lambda>_. bindC (markOnline env d) (\<lambda>_. evaluateAlarms env d data))) s of
             (Inr u, s') \<Rightarrow> (Inr u, s')
           | (Inl err, s') \<Rightarrow> handleReadFailure env d err s'))"

end
