(* ===== verification/Service_Commands.thy ===== *)
theory Service_Commands
  imports Device_Service "HOL-Library.Monad_Syntax"
begin

text \<open>
  Commands, heartbeats and the life cycle of the device service: \<open>executeCommand\<close> with its read-back
  loop, \<open>HeartbeatWriter\<close>, \<open>start\<close> and \<open>stop\<close>, and the two job workers. The read-back loop runs until
  the clock passes its limit; \<open>None\<close> is a loop that never ends.
\<close>

section \<open>Read-back\<close>

record command_result =
  cr_success :: bool
  cr_validated :: "bool option"
  cr_reason :: "string option"

definition read_matches :: "telemetry list \<Rightarrow> validate_read \<Rightarrow> bool" where
  "read_matches data expected =
     (case find_first (\<lambda>r. t_name r = v_name expected) data of
        None \<Rightarrow> False
      | Some actual \<Rightarrow> expectHolds (t_value actual) (v_expect expected) (v_accept expected))"

definition validation_timeout :: "string option \<Rightarrow> command_result" where
  "validation_timeout lastError =
     \<lparr>cr_success = False, cr_validated = Some False,
      cr_reason = Some (case lastError of
         Some e \<Rightarrow> if e = [] then ''Validation timeout'' else ''Validation timeout (last read failed: '' @ e @ '')''
       | None \<Rightarrow> ''Validation timeout'')\<rparr>"

definition validated :: command_result where
  "validated = \<lparr>cr_success = True, cr_validated = Some True, cr_reason = None\<rparr>"

definition plain_success :: command_result where
  "plain_success = \<lparr>cr_success = True, cr_validated = None, cr_reason = None\<rparr>"

text \<open>One turn of the loop: a result, or the error to remember and the world to go on with.\<close>

definition read_back_turn ::
  "'w service_env \<Rightarrow> 'w idevice \<Rightarrow> job_validate \<Rightarrow> int \<Rightarrow> string option \<Rightarrow> 'w \<Rightarrow> (command_result + string option) \<times> 'w" where
  "read_back_turn env dv v start lastError w =
     (if \<not> js_less (js_int (io_clock env w - start)) (jv_timeoutMs v) then (Inl (validation_timeout lastError), w)
      else
        case dv_read dv w of
          (r, w1) \<Rightarrow>
            if (case r of Inr data \<Rightarrow> list_all (read_matches data) (jv_reads v) | Inl _ \<Rightarrow> False) then (Inl validated, w1)
            else
              let lastError' = (case r of Inl e \<Rightarrow> Some e | Inr _ \<Rightarrow> lastError) in
              if js_le (jv_timeoutMs v) (js_int (io_clock env w1 - start + 50)) then (Inl (validation_timeout lastError'), w1)
              else (Inr lastError', io_wait env (js_int 50) w1))"

partial_function (option) read_back ::
  "'w service_env \<Rightarrow> 'w idevice \<Rightarrow> job_validate \<Rightarrow> int \<Rightarrow> string option \<Rightarrow> 'w \<Rightarrow> (command_result \<times> 'w) option" where
  "read_back env dv v start lastError w =
     (case read_back_turn env dv v start lastError w of
        (Inl res, w1) \<Rightarrow> Some (res, w1)
      | (Inr lastError', w1) \<Rightarrow> read_back env dv v start lastError' w1)"

definition validateReadBack :: "'w service_env \<Rightarrow> 'w idevice \<Rightarrow> job_validate \<Rightarrow> 'w \<Rightarrow> (command_result \<times> 'w) option" where
  "validateReadBack env dv v w =
     (let m = or_else (jv_minWaitMs v) (js_int 0);
          w1 = (if js_less (js_int 0) m then io_wait env m w else w)
      in read_back env dv v (io_clock env w1) None w1)"

section \<open>Commands\<close>

record traced_job = command_job +
  j_traceId :: "string option"

definition command_event :: "traced_job \<Rightarrow> bool \<Rightarrow> string option \<Rightarrow> service_event" where
  "command_event job success err =
     event (if success then Info else Level_error) Audit (if success then ''command_executed'' else ''command_rejected'')
       ([(''deviceId'', VStr (j_deviceId job)), (''telemetryNames'', VArr (map (VStr \<circ> t_name) (j_telemetries job))),
         (''atomic'', VBool (j_atomic job))] @
        (case j_traceId job of Some t \<Rightarrow> [(''traceId'', VStr t)] | None \<Rightarrow> []) @
        (case err of Some e \<Rightarrow> [(''error'', VStr e)] | None \<Rightarrow> []))"

definition logCommand :: "'w service_env \<Rightarrow> traced_job \<Rightarrow> bool \<Rightarrow> string option \<Rightarrow> ('w, unit) scomp" where
  "logCommand env job success err = log_event env (command_event job success err)"

definition write_command :: "'w idevice \<Rightarrow> traced_job \<Rightarrow> ('w, string, unit) comp" where
  "write_command dv job =
     (case (j_atomic job, dv_writeAtomic dv) of
        (True, Some f) \<Rightarrow> f (j_telemetries job)
      | _ \<Rightarrow> dv_write dv (j_telemetries job))"

definition write_failed :: "'w service_env \<Rightarrow> traced_job \<Rightarrow> string \<Rightarrow> ('w, command_result) scomp" where
  "write_failed env job err =
     (let msg = ''Write failed: '' @ err in
      bindC (logCommand env job False (Some err)) (\<lambda>_.
      bindC (log_event env (event Level_error App ''modbus_write_failed'' [(''deviceId'', VStr (j_deviceId job)), (''error'', VStr err)])) (\<lambda>_.
      returnC \<lparr>cr_success = False, cr_validated = None, cr_reason = Some msg\<rparr>)))"

definition pulse_reset :: "'w idevice \<Rightarrow> traced_job \<Rightarrow> ('w, unit) scomp" where
  "pulse_reset dv job =
     attemptC (on_device (dv_write dv (map (\<lambda>t. t\<lparr>t_value := JNum (js_int 0)\<rparr>) (j_telemetries job))))"

definition read_after :: "'w service_env \<Rightarrow> 'w idevice \<Rightarrow> string \<Rightarrow> ('w, unit) scomp" where
  "read_after env dv d s =
     (case bindC (on_device (dv_read dv)) (publish env d) s of
        (Inr u, s') \<Rightarrow> (Inr u, s')
      | (Inl err, s') \<Rightarrow> attemptC (log_event env (read_failed_event Level_error d err)) s')"

definition finalize_write :: "'w service_env \<Rightarrow> 'w idevice \<Rightarrow> traced_job \<Rightarrow> ('w, unit) scomp" where
  "finalize_write env dv job s =
     (case j_finalize job of
        None \<Rightarrow> (Inr (), s)
      | Some (n, v) \<Rightarrow>
          attemptC (on_device (dv_write dv
            [\<lparr>t_name = n, t_description = n, t_value = JNum v, t_unit = ''-'', t_timestamp = io_now env (sv_world s),
              t_deviceId = j_deviceId job, t_tags = None\<rparr>])) s)"

text \<open>The audit record is written after the validation, and its rejection is the rejection of the job.\<close>

definition finish_command :: "'w service_env \<Rightarrow> 'w idevice \<Rightarrow> traced_job \<Rightarrow> command_result \<Rightarrow> ('w, command_result) scomp" where
  "finish_command env dv job res =
     bindC (logCommand env job (cr_success res) (if cr_success res then None else cr_reason res)) (\<lambda>_.
     bindC (finalize_write env dv job) (\<lambda>_. returnC res))"

definition validate_step :: "'w service_env \<Rightarrow> 'w idevice \<Rightarrow> traced_job \<Rightarrow> 'w service_state \<Rightarrow> (command_result \<times> 'w service_state) option" where
  "validate_step env dv job s =
     (case j_validate job of
        None \<Rightarrow> Some (plain_success, s)
      | Some v \<Rightarrow> map_option (\<lambda>(res, w). (res, s\<lparr>sv_world := w\<rparr>)) (validateReadBack env dv v (sv_world s)))"

definition written_command :: "'w service_env \<Rightarrow> 'w idevice \<Rightarrow> traced_job \<Rightarrow> 'w service_state \<Rightarrow> ((string + command_result) \<times> 'w service_state) option" where
  "written_command env dv job s =
     (let s1 = (if j_pulse job then snd (pulse_reset dv job s) else s);
          s2 = snd (read_after env dv (j_deviceId job) s1)
      in map_option (\<lambda>(res, s3). finish_command env dv job res s3) (validate_step env dv job s2))"

definition executeCommand :: "'w service_env \<Rightarrow> traced_job \<Rightarrow> 'w service_state \<Rightarrow> ((string + command_result) \<times> 'w service_state) option" where
  "executeCommand env job s =
     (case js_get (sv_devices s) (j_deviceId job) of
        None \<Rightarrow>
          Some (Inr \<lparr>cr_success = False, cr_validated = None, cr_reason = Some (''Bilinmeyen cihaz: '' @ j_deviceId job)\<rparr>,
                snd (rejected_request env (j_deviceId job) s))
      | Some e \<Rightarrow>
          (case on_device (write_command (de_device e) job) s of
             (Inl err, s1) \<Rightarrow> Some (write_failed env job err s1)
           | (Inr _, s1) \<Rightarrow> written_command env (de_device e) job s1))"

section \<open>Heartbeats\<close>

text \<open>One beat of a running writer: the counter advances, every configured point gets it.\<close>

definition writeBeat :: "'w service_env \<Rightarrow> string \<Rightarrow> 'w service_state \<Rightarrow> 'w service_state" where
  "writeBeat env d s =
     (case (js_get (sv_heartbeats s) d, js_get (sv_devices s) d) of
        (Some n, Some e) \<Rightarrow>
          (case de_heartbeat e of
             None \<Rightarrow> s
           | Some hb \<Rightarrow>
               let c = (n + 1) mod 256;
                   points = map (\<lambda>name. \<lparr>t_name = name, t_description = ''Controller Heartbeat'', t_value = JNum (js_int (int c)),
                        t_unit = ''-'', t_timestamp = io_now env (sv_world s), t_deviceId = d, t_tags = None\<rparr>)
                      (hb_telemetry hb # or_else (hb_extraTelemetries hb) [])
               in snd (attemptC (on_device (dv_write (de_device e) points)) (s\<lparr>sv_heartbeats := js_set d c (sv_heartbeats s)\<rparr>)))
      | _ \<Rightarrow> s)"

section \<open>Life cycle\<close>

definition DEFAULT_MANAGEMENT_INTERVAL_MS :: jsnum where
  "DEFAULT_MANAGEMENT_INTERVAL_MS = js_int 10000"

definition align_second :: "int \<Rightarrow> int" where
  "align_second t = - ((- t) div 1000) * 1000"

definition entry_info :: "'w device_entry \<Rightarrow> device_info" where
  "entry_info e =
     \<lparr>di_name = de_name e, di_manufacturer = de_manufacturer e, di_model = de_model e, di_protocol = de_protocol e,
      di_type = de_type e, di_details = stringify (VObj (or_else (de_details e) [])), di_pollIntervalMs = de_pollIntervalMs e,
      di_connection = stringify (VObj (de_connection e))\<rparr>"

definition scheduleRead :: "'w service_env \<Rightarrow> int \<Rightarrow> 'w device_entry \<Rightarrow> ('w, unit) scomp" where
  "scheduleRead env start e =
     external (io_repeat env (''read-'' @ dv_id (de_device e)) (de_pollIntervalMs e) (Some start)) id"

definition scheduleManagement :: "'w service_env \<Rightarrow> ('w, unit) scomp" where
  "scheduleManagement env =
     external (io_repeat env ''management-publish'' (or_else (io_managementIntervalMs env) DEFAULT_MANAGEMENT_INTERVAL_MS) None) id"

text \<open>The part of \<open>start\<close> that tolerates failures: connections, poll schedules, device rows.\<close>

definition start_devices :: "'w service_env \<Rightarrow> 'w device_entry list \<Rightarrow> 'w service_state \<Rightarrow> 'w service_state" where
  "start_devices env entries s =
     (let s1 = snd (settledC (\<lambda>e. on_device (dv_connect (de_device e))) entries s);
          start = align_second (io_clock env (sv_world s1));
          s2 = snd (settledC (scheduleRead env start) entries s1)
      in snd (settledC (\<lambda>e. execute_sql env (Upsert_device (dv_id (de_device e)) (entry_info e))) entries s2))"

definition reset_detectors :: "string list \<Rightarrow> 'w service_state \<Rightarrow> 'w service_state" where
  "reset_detectors ds s = s\<lparr>sv_detector := fold detector_reset ds (sv_detector s)\<rparr>"

definition reset_alarm_state :: "'w service_env \<Rightarrow> string list \<Rightarrow> ('w, unit) scomp" where
  "reset_alarm_state env ids =
     bindC (if ids = [] then returnC () else execute_sql env (Reset_alarms ids)) (\<lambda>_ s. (Inr (), reset_detectors ids s))"

definition start_heartbeats :: "'w device_entry list \<Rightarrow> 'w service_state \<Rightarrow> 'w service_state" where
  "start_heartbeats entries s =
     s\<lparr>sv_heartbeats := fold (\<lambda>e m. if de_heartbeat e = None then m else js_set (dv_id (de_device e)) 0 m) entries (sv_heartbeats s)\<rparr>"

definition service_start :: "'w service_env \<Rightarrow> ('w, unit) scomp" where
  "service_start env s =
     (let entries = map snd (sv_devices s); ids = map (dv_id \<circ> de_device) entries in
      bindC (scheduleManagement env) (\<lambda>_.
      bindC (execute_sql env Create_alarm_table) (\<lambda>_.
      bindC (reset_alarm_state env ids) (\<lambda>_.
      bindC (external (io_registerWorker env ''READ_DEVICE'') id) (\<lambda>_.
      bindC (external (io_registerWorker env ''COMMAND_DEVICE'') id) (\<lambda>_.
      (\<lambda>s'. (Inr (), start_heartbeats entries s')))))))
      (start_devices env entries (s\<lparr>sv_running := True\<rparr>)))"

definition stop_device :: "'w service_env \<Rightarrow> 'w device_entry \<Rightarrow> ('w, unit) scomp" where
  "stop_device env e =
     bindC (attemptC (execute_sql env (Set_device_offline (dv_id (de_device e))))) (\<lambda>_.
     attemptC (on_device (dv_disconnect (de_device e))))"

definition service_stop :: "'w service_env \<Rightarrow> ('w, unit) scomp" where
  "service_stop env s =
     bindC (external (io_closeQueue env) id) (\<lambda>_.
     bindC (if io_sql env = None then returnC () else external (io_disconnectSql env) id) (\<lambda>_.
     (\<lambda>s'. (Inr (), s'\<lparr>sv_devices := []\<rparr>))))
     (snd (settledC (stop_device env) (map snd (sv_devices s)) (s\<lparr>sv_running := False, sv_heartbeats := []\<rparr>)))"

definition service_health :: "'w service_state \<Rightarrow> bool" where
  "service_health s \<longleftrightarrow> sv_running s \<and> sv_devices s \<noteq> []"

section \<open>The service as a transition system\<close>

text \<open>The workers ignore jobs while the service is not running.\<close>

inductive service_step :: "'w service_env \<Rightarrow> 'w service_state \<Rightarrow> 'w service_state \<Rightarrow> bool" for env where
  start: "service_start env s = (r, s') \<Longrightarrow> service_step env s s'"
| stop: "service_stop env s = (r, s') \<Longrightarrow> service_step env s s'"
| read: "sv_running s \<Longrightarrow> readDevice env d s = (r, s') \<Longrightarrow> service_step env s s'"
| command: "sv_running s \<Longrightarrow> executeCommand env job s = Some (r, s') \<Longrightarrow> service_step env s s'"
| beat: "js_has (sv_heartbeats s) d \<Longrightarrow> service_step env s (writeBeat env d s)"
| time: "service_step env s (s\<lparr>sv_world := w\<rparr>)"

inductive service_reachable :: "'w service_env \<Rightarrow> 'w service_state \<Rightarrow> 'w service_state \<Rightarrow> bool" for env s0 where
  here: "service_reachable env s0 s0"
| step: "service_reachable env s0 s \<Longrightarrow> service_step env s s' \<Longrightarrow> service_reachable env s0 s'"

end
