(* ===== verification/Service_Facts.thy ===== *)
theory Service_Facts
  imports Service_Commands
begin

text \<open>
  What holds of the device service in every state its steps reach. The locales \<open>service_data\<close>, \<open>service_frame\<close> and
  \<open>service_invariant\<close> say of a property of states which elementary updates must keep it; then every
  handler and every step keeps it.
\<close>

section \<open>Elementary calls\<close>

lemma keeps_external:
  assumes "\<And>s w. I s \<Longrightarrow> I (s\<lparr>sv_world := w\<rparr>)" "\<And>s. I s \<Longrightarrow> I (effect s)"
  shows "keepsC I (external m effect)"
  by (rule keepsCI) (auto simp: external_def assms split: prod.splits sum.splits)

lemma keeps_on_device: "(\<And>s w. I s \<Longrightarrow> I (s\<lparr>sv_world := w\<rparr>)) \<Longrightarrow> keepsC I (on_device m)"
  by (simp add: on_device_def keeps_external)

lemma keeps_attempt [keeps]: "keepsC I m \<Longrightarrow> keepsC I (attemptC m)"
  by (simp add: keepsC_def attemptC_def)

lemma attempt_Inr [simp]: "attemptC m s = (Inr (), snd (m s))"
  by (simp add: attemptC_def)

lemma keeps_log:
  assumes "\<And>s w. I s \<Longrightarrow> I (s\<lparr>sv_world := w\<rparr>)" "\<And>s. I s \<Longrightarrow> I (s\<lparr>sv_log := sv_log s @ [ev]\<rparr>)"
  shows "keepsC I (log_event env ev)"
  using assms by (auto simp: log_event_def intro!: keeps_external keeps_return split: option.split)

lemma keeps_sql:
  assumes "\<And>s w. I s \<Longrightarrow> I (s\<lparr>sv_world := w\<rparr>)" "\<And>s t. I s \<Longrightarrow> I (s\<lparr>sv_db := run_stmt t stmt (sv_db s)\<rparr>)"
  shows "keepsC I (execute_sql env stmt)"
proof (cases "io_sql env")
  case (Some f)
  have "keepsC I (external (f stmt) (\<lambda>s'. s'\<lparr>sv_db := run_stmt t stmt (sv_db s')\<rparr>))" for t
    using assms by (intro keeps_external)
  then show ?thesis by (simp add: execute_sql_def Some keepsC_def)
qed (simp add: execute_sql_def keeps_return)

lemma bindC_result: "bindC m f s = (case m s of (Inl e, s') \<Rightarrow> (Inl e, s') | (Inr x, s') \<Rightarrow> f x s')"
  by (simp add: bindC_def)

lemma keepsC_snd: "keepsC I m \<Longrightarrow> I s \<Longrightarrow> I (snd (m s))"
  by (rule keepsCD)

section \<open>Properties kept by reading and writing\<close>

locale service_data =
  fixes env :: "'w service_env" and I :: "'w service_state \<Rightarrow> bool"
  assumes world: "I s \<Longrightarrow> I (s\<lparr>sv_world := w\<rparr>)"
    and jobs: "I s \<Longrightarrow> I (s\<lparr>sv_queue := q\<rparr>)"
    and written: "I s \<Longrightarrow> I (s\<lparr>sv_filter := markWritten t d data (sv_filter s)\<rparr>)"
begin

lemma device: "keepsC I (on_device m)"
  by (rule keeps_on_device) (rule world)

lemma publishTelemetry: "keepsC I (publishTelemetry env d data writes)"
proof (rule keepsCI)
  fix s assume s: "I s"
  have add: "keepsC I (add_job env j)" for j
    unfolding add_job_def by (rule keeps_external) (auto intro: world jobs)
  have k: "I (snd (settledC (add_job env) xs s))" for xs
    by (rule keeps_settled [OF add s])
  show "I (snd (publishTelemetry env d data writes s))"
    unfolding publishTelemetry_def by (simp add: case_prod_beta s k)
qed

lemma publish: "keepsC I (publish env d data)"
proof (rule keepsCI)
  fix s assume s: "I s"
  have "keepsC I (\<lambda>s'. (Inr (), if b then s'\<lparr>sv_filter := markWritten (t s') d ws (sv_filter s')\<rparr> else s'))" for b t ws
    by (rule keepsCI) (simp add: written)
  then have "keepsC I (bindC (publishTelemetry env d data' ws)
      (\<lambda>b s'. (Inr (), if b \<and> ws \<noteq> [] then s'\<lparr>sv_filter := markWritten (t s') d ws (sv_filter s')\<rparr> else s')))" for data' ws t
    by (intro keeps_bind publishTelemetry)
  then show "I (snd (publish env d data s))"
    unfolding publish_def Let_def using s by (rule keepsCD)
qed

lemma pulse_reset: "keepsC I (pulse_reset dv job)"
  unfolding pulse_reset_def by (intro keeps_attempt device)

lemma finalize_write: "keepsC I (finalize_write env dv job)"
  using keeps_attempt [OF device]
  by (auto simp: finalize_write_def keepsC_def split: option.split)

end

locale service_frame = service_data +
  assumes other_log: "I s \<Longrightarrow> se_category ev \<noteq> Audit \<Longrightarrow> I (s\<lparr>sv_log := sv_log s @ [ev]\<rparr>)"
begin

lemma other_event: "se_category ev \<noteq> Audit \<Longrightarrow> keepsC I (log_event env ev)"
  by (rule keeps_log) (auto intro: world other_log)

lemma read_after: "keepsC I (read_after env dv d)"
proof (rule keepsCI)
  fix s assume s: "I s"
  obtain r s1 where r: "bindC (on_device (dv_read dv)) (publish env d) s = (r, s1)" by fastforce
  have "keepsC I (bindC (on_device (dv_read dv)) (publish env d))"
    by (intro keeps_bind device publish)
  from keepsC_result [OF this s r] have s1: "I s1" .
  have "keepsC I (log_event env (read_failed_event Level_error d err))" for err
    by (rule other_event) (simp add: read_failed_event_def event_def)
  then show "I (snd (read_after env dv d s))"
    using s1 by (cases r) (simp_all add: read_after_def r keepsCD)
qed

lemma validate_step: "validate_step env dv job s = Some (res, s') \<Longrightarrow> I s \<Longrightarrow> I s'"
  by (auto simp: validate_step_def intro: world split: option.splits)

lemma before_audit:
  assumes "I s" "s1 = (if j_pulse job then snd (pulse_reset dv job s) else s)"
    and "validate_step env dv job (snd (read_after env dv d s1)) = Some (res, s2)"
  shows "I s2"
proof -
  have "I s1" using assms(1,2) keepsCD [OF pulse_reset] by auto
  then show ?thesis using validate_step [OF assms(3)] keepsCD [OF read_after] by blast
qed

end

section \<open>Invariants of the whole service\<close>

definition status_stmt :: "sql_stmt \<Rightarrow> bool" where
  "status_stmt stmt \<longleftrightarrow> (case stmt of Reset_alarms _ \<Rightarrow> False | Activate_alarm _ _ _ _ \<Rightarrow> False | Deactivate_alarm _ _ \<Rightarrow> False | _ \<Rightarrow> True)"

locale service_invariant = service_frame +
  fixes ids_ok :: "string list \<Rightarrow> bool"
  assumes known: "I s \<Longrightarrow> ids_ok (map (dv_id \<circ> de_device) (map snd (sv_devices s)))"
    and any_log: "I s \<Longrightarrow> I (s\<lparr>sv_log := sv_log s @ [ev]\<rparr>)"
    and gone: "I s \<Longrightarrow> I (s\<lparr>sv_offlineSince := js_set d t (sv_offlineSince s)\<rparr>)"
    and reminded: "I s \<Longrightarrow> js_has (sv_offlineSince s) d \<Longrightarrow> I (s\<lparr>sv_lastReminderAt := js_set d t (sv_lastReminderAt s)\<rparr>)"
    and regained: "I s \<Longrightarrow> I (s\<lparr>sv_offlineSince := js_delete d (sv_offlineSince s), sv_lastReminderAt := js_delete d (sv_lastReminderAt s)\<rparr>)"
    and status_row: "I s \<Longrightarrow> status_stmt stmt \<Longrightarrow> I (s\<lparr>sv_db := run_stmt t stmt (sv_db s)\<rparr>)"
    and alarms: "I s \<Longrightarrow> I (snd (evaluateAlarms env d data s))"
    and alarm_reset: "I s \<Longrightarrow> ids_ok ids \<Longrightarrow> I (snd (reset_alarm_state env ids s))"
    and running: "I s \<Longrightarrow> I (s\<lparr>sv_running := b\<rparr>)"
    and beats: "I s \<Longrightarrow> I (s\<lparr>sv_heartbeats := js_set d (n mod 256) (sv_heartbeats s)\<rparr>)"
    and new_beats: "I s \<Longrightarrow> I (start_heartbeats es s)"
    and no_beats: "I s \<Longrightarrow> I (s\<lparr>sv_heartbeats := []\<rparr>)"
    and no_devices: "I s \<Longrightarrow> I (s\<lparr>sv_devices := []\<rparr>)"
begin

lemma any_event: "keepsC I (log_event env ev)"
  by (rule keeps_log) (auto intro: world any_log)

lemma status_update: "status_stmt stmt \<Longrightarrow> keepsC I (execute_sql env stmt)"
  by (rule keeps_sql) (auto intro: world status_row)

lemma markOnline: "keepsC I (markOnline env d)"
proof (rule keepsCI)
  fix s assume s: "I s"
  have "keepsC I (bindC (log_event env (online_event d)) (\<lambda>_. attemptC (execute_sql env (Set_device_online d))))"
    by (intro keeps_bind any_event keeps_attempt status_update) (simp add: status_stmt_def)
  from keepsCD [OF this regained [OF s]] show "I (snd (markOnline env d s))"
    by (simp add: markOnline_def s)
qed

lemma log_failure: "I s \<Longrightarrow> js_has (sv_offlineSince s) d \<Longrightarrow> I (snd (log_failure env d err b t s))"
  by (simp add: log_failure_def keepsCD [OF any_event] reminded)

lemma handleReadFailure: "keepsC I (handleReadFailure env d err)"
proof (rule keepsCI)
  fix s assume s: "I s"
  let ?t = "io_clock env (sv_world s)" and ?b = "js_get (sv_offlineSince s) d = None"
  let ?s = "s\<lparr>sv_offlineSince := js_set d ?t (sv_offlineSince s)\<rparr>"
  obtain r s1 where l: "log_failure env d err ?b ?t ?s = (r, s1)" by fastforce
  have "I s1" using log_failure [OF gone [OF s, of d ?t], of d err ?b ?t] by (simp add: l js_has_def)
  moreover have "keepsC I (if ?b then attemptC (execute_sql env (Set_device_offline d)) else returnC ())"
    by (intro keeps_if keeps_attempt keeps_return status_update) (simp add: status_stmt_def)
  ultimately show "I (snd (handleReadFailure env d err s))"
    by (cases r) (simp_all add: handleReadFailure_def Let_def l bindC_result keepsCD)
qed

lemma readDevice: "keepsC I (readDevice env d)"
proof (rule keepsCI)
  fix s assume s: "I s"
  show "I (snd (readDevice env d s))"
  proof (cases "js_get (sv_devices s) d")
    case None
    then show ?thesis
      by (simp add: readDevice_def rejected_request_def keepsCD [OF any_event] s)
  next
    case (Some e)
    let ?m = "bindC (on_device (dv_read (de_device e)))
        (\<lambda>data. bindC (publish env d data) (\<lambda>_. bindC (markOnline env d) (\<lambda>_. evaluateAlarms env d data)))"
    have "keepsC I ?m"
      by (intro keeps_bind device publish markOnline keepsCI alarms)
    moreover obtain r s1 where "?m s = (r, s1)" by fastforce
    ultimately show ?thesis
      using s by (cases r) (auto simp: readDevice_def Some dest: keepsC_result intro: keepsCD [OF handleReadFailure])
  qed
qed

lemma finish: "keepsC I (finish_command env dv job res)"
  unfolding finish_command_def logCommand_def by (intro keeps_bind any_event finalize_write keeps_return)

lemma executeCommand: "executeCommand env job s = Some (r, s') \<Longrightarrow> I s \<Longrightarrow> I s'"
proof (cases "js_get (sv_devices s) (j_deviceId job)")
  case None
  then show "executeCommand env job s = Some (r, s') \<Longrightarrow> I s \<Longrightarrow> I s'"
    by (auto simp: executeCommand_def rejected_request_def intro: keepsCD [OF any_event])
next
  case (Some e)
  assume ex: "executeCommand env job s = Some (r, s')" and s: "I s"
  obtain w s1 where w: "on_device (write_command (de_device e) job) s = (w, s1)" by fastforce
  have s1: "I s1" using keepsC_result [OF device s w] .
  show "I s'"
  proof (cases w)
    case (Inl err)
    have "keepsC I (write_failed env job err)"
      unfolding write_failed_def Let_def logCommand_def by (intro keeps_bind any_event keeps_return)
    moreover have "write_failed env job err s1 = (r, s')" using ex by (simp add: executeCommand_def Some w Inl)
    ultimately show ?thesis using s1 keepsC_result by metis
  next
    case (Inr u)
    then obtain res s3 where v: "validate_step env (de_device e) job
          (snd (read_after env (de_device e) (j_deviceId job) (if j_pulse job then snd (pulse_reset (de_device e) job s1) else s1))) = Some (res, s3)"
        and f: "finish_command env (de_device e) job res s3 = (r, s')"
      using ex by (auto simp: executeCommand_def Some w written_command_def Let_def)
    from before_audit [OF s1 refl v] show ?thesis using keepsC_result [OF finish _ f] by blast
  qed
qed

lemma writeBeat: "I s \<Longrightarrow> I (writeBeat env d s)"
  by (auto simp: writeBeat_def Let_def intro!: keepsCD [OF device] beats split: option.split)

lemma settled_device: "I s \<Longrightarrow> I (snd (settledC (\<lambda>e. on_device (f e)) es s))"
  by (rule keeps_settled [OF device])

lemma start_devices: "I s \<Longrightarrow> I (snd (settledC (scheduleRead env t) es s))"
  by (rule keeps_settled) (auto simp: scheduleRead_def intro: keeps_external world)

lemma upsert_rows: "I s \<Longrightarrow> I (snd (settledC (\<lambda>e. execute_sql env (Upsert_device (dv_id (de_device e)) (entry_info e))) es s))"
  by (rule keeps_settled) (auto simp: status_stmt_def intro: status_update)

lemma devices_started: "I s \<Longrightarrow> I (Service_Commands.start_devices env es s)"
  by (simp add: Service_Commands.start_devices_def Let_def upsert_rows start_devices settled_device)

lemma started: "keepsC I (service_start env)"
proof (rule keepsCI)
  fix s assume s: "I s"
  define es where "es = map snd (sv_devices s)"
  have ids: "ids_ok (map (dv_id \<circ> de_device) es)" unfolding es_def by (rule known [OF s])
  have ext: "keepsC I (external m id)" for m :: "('a, string, unit) comp"
    by (rule keeps_external) (auto intro: world)
  have "keepsC I (bindC (scheduleManagement env) (\<lambda>_.
      bindC (execute_sql env Create_alarm_table) (\<lambda>_.
      bindC (reset_alarm_state env (map (dv_id \<circ> de_device) es)) (\<lambda>_.
      bindC (external (io_registerWorker env ''READ_DEVICE'') id) (\<lambda>_.
      bindC (external (io_registerWorker env ''COMMAND_DEVICE'') id) (\<lambda>_.
      (\<lambda>s'. (Inr (), start_heartbeats es s'))))))))"
    unfolding scheduleManagement_def
    by (intro keeps_bind ext status_update) (auto simp: status_stmt_def intro!: keepsCI alarm_reset new_beats ids)
  from keepsCD [OF this devices_started [OF running [OF s]]]
  show "I (snd (service_start env s))" by (simp add: service_start_def Let_def es_def)
qed

lemma stopped: "keepsC I (service_stop env)"
proof (rule keepsCI)
  fix s assume s: "I s"
  have ext: "keepsC I (external m id)" for m :: "('a, string, unit) comp"
    by (rule keeps_external) (auto intro: world)
  have "keepsC I (stop_device env e)" for e
    unfolding stop_device_def by (intro keeps_bind keeps_attempt device status_update) (simp add: status_stmt_def)
  then have "I (snd (settledC (stop_device env) es (s\<lparr>sv_running := False, sv_heartbeats := []\<rparr>)))" for es
    by (rule keeps_settled) (use no_beats [OF running [OF s]] in simp)
  moreover have "keepsC I (bindC (external (io_closeQueue env) id) (\<lambda>_.
     bindC (if io_sql env = None then returnC () else external (io_disconnectSql env) id) (\<lambda>_.
     (\<lambda>s'. (Inr (), s'\<lparr>sv_devices := []\<rparr>)))))"
    by (intro keeps_bind keeps_if keeps_return ext) (auto intro!: keepsCI no_devices)
  ultimately show "I (snd (service_stop env s))"
    unfolding service_stop_def by (rule keepsCD [rotated])
qed

theorem step_keeps: "service_step env s s' \<Longrightarrow> I s \<Longrightarrow> I s'"
  by (induction rule: service_step.induct)
    (auto intro: world writeBeat keepsC_result [OF started] keepsC_result [OF stopped]
       keepsC_result [OF readDevice] executeCommand)

theorem reachable_keeps: "service_reachable env s0 s \<Longrightarrow> I s0 \<Longrightarrow> I s"
  by (induction rule: service_reachable.induct) (auto intro: step_keeps)

end

end
