(* ===== verification/Monitoring_Facts.thy ===== *)
theory Monitoring_Facts
  imports Device_Monitoring
begin

text \<open>
  The detector reports exactly the edges of each alarm; the alarm table follows the detector when its
  statements succeed; what the write filter leaves out is within the deadband of what was last queued,
  except when two rows share a name.
\<close>

section \<open>Edges\<close>

definition activity :: "string \<Rightarrow> string \<Rightarrow> alarm_sample list \<Rightarrow> bool list" where
  "activity k d ss = map as_active (filter (\<lambda>s. alarm_key d (as_name s) = k) ss)"

definition kinds :: "string \<Rightarrow> string \<Rightarrow> alarm_transition list \<Rightarrow> transition_kind list" where
  "kinds k d trs = map at_kind (filter (\<lambda>t. alarm_key d (at_name t) = k) trs)"

text \<open>The reference: the changes of a sequence of truth values.\<close>

fun edges :: "bool \<Rightarrow> bool list \<Rightarrow> transition_kind list" where
  "edges b [] = []"
| "edges b (c # cs) = (if b = c then [] else [if c then Set_alarm else Clear_alarm]) @ edges c cs"

lemma edges_append: "edges b (cs @ ds) = edges b cs @ edges (last (b # cs)) ds"
  by (induction cs arbitrary: b) auto

lemma kinds_append [simp]: "kinds k d (xs @ ys) = kinds k d xs @ kinds k d ys"
  by (simp add: kinds_def)

lemma transition_kinds:
  "kinds k d (transition_of l s) =
   (if alarm_key d (as_name s) = k \<and> (l = Some True) \<noteq> as_active s then [if as_active s then Set_alarm else Clear_alarm] else [])"
  by (auto simp: transition_of_def kinds_def Let_def)

lemma detect_kinds:
  "detect d ss st = (trs, st') \<Longrightarrow>
   kinds k d trs = edges (js_get st k = Some True) (activity k d ss) \<and>
   (js_get st' k = Some True) = last ((js_get st k = Some True) # activity k d ss)"
proof (induction ss arbitrary: st trs)
  case (Cons s ss)
  let ?key = "alarm_key d (as_name s)"
  let ?st = "js_set ?key (as_active s) st"
  obtain trs1 where d: "detect d ss ?st = (trs1, st')" "trs = transition_of (js_get st ?key) s @ trs1"
    using Cons.prems by (auto simp: Let_def split: prod.splits)
  show ?case
    using Cons.IH [OF d(1)] by (cases "?key = k") (auto simp: d(2) transition_kinds activity_def)
qed (simp add: activity_def kinds_def)

text \<open>A run of the detector over observations, with every transition it reports.\<close>

definition observe :: "string \<times> alarm_sample list \<Rightarrow> (string \<times> alarm_transition) list \<times> detector \<Rightarrow> (string \<times> alarm_transition) list \<times> detector" where
  "observe p acc = (case detect (fst p) (snd p) (snd acc) of (trs, st') \<Rightarrow> (fst acc @ map (Pair (fst p)) trs, st'))"

definition reported :: "string \<Rightarrow> (string \<times> alarm_transition) list \<Rightarrow> transition_kind list" where
  "reported k out = map (at_kind \<circ> snd) (filter (\<lambda>(d, t). alarm_key d (at_name t) = k) out)"

lemma observe_run:
  "fold observe ps (out, st) = (out', st') \<Longrightarrow>
   reported k out' = reported k out @ edges (js_get st k = Some True) (concat (map (\<lambda>(d, ss). activity k d ss) ps)) \<and>
   (js_get st' k = Some True) = last ((js_get st k = Some True) # concat (map (\<lambda>(d, ss). activity k d ss) ps))"
proof (induction ps arbitrary: out st)
  case (Cons p ps)
  obtain d ss where p: "p = (d, ss)" by fastforce
  obtain trs st1 where d: "detect d ss st = (trs, st1)" by fastforce
  have r: "reported k (out @ map (Pair d) trs) = reported k out @ kinds k d trs"
    by (simp add: reported_def kinds_def filter_map comp_def)
  have "observe p (out, st) = (out @ map (Pair d) trs, st1)" by (simp add: p observe_def d)
  then have "fold observe ps (out @ map (Pair d) trs, st1) = (out', st')" using Cons.prems by simp
  from Cons.IH [OF this] detect_kinds [OF d, of k] show ?case
    by (auto simp: p r edges_append last_append)
qed simp

text \<open>
  C28: Over any sequence of observations of any devices the transitions reported under an alarm key are
  exactly the changes of its activity, starting from inactive: set and clear alternate, and an alarm
  that stays active or inactive is silent.
\<close>

theorem detector_reports_edges:
  "reported k (fst (fold observe ps ([], []))) = edges False (concat (map (\<lambda>(d, ss). activity k d ss) ps))"
  using observe_run [of ps "[]" "[]" "fst (fold observe ps ([], []))" "snd (fold observe ps ([], []))" k]
  by (simp add: reported_def)

section \<open>The table follows the detector\<close>

definition no_colon :: "string \<Rightarrow> bool" where
  "no_colon d \<longleftrightarrow> CHR '':'' \<notin> set d"

lemma alarm_key_inj: "no_colon d \<Longrightarrow> no_colon d' \<Longrightarrow> alarm_key d n = alarm_key d' n' \<longleftrightarrow> d = d' \<and> n = n'"
  by (auto simp: alarm_key_def no_colon_def append_eq_append_conv2 append_eq_Cons_conv Cons_eq_append_conv)

definition follows :: "string list \<Rightarrow> detector \<Rightarrow> alarm_table \<Rightarrow> bool" where
  "follows ds st tbl \<longleftrightarrow>
     (\<forall>d \<in> set ds. \<forall>n. (active_row tbl d n = None) = (js_get st (alarm_key d n) \<noteq> Some True))"

section \<open>The write filter\<close>

definition written :: "filter_state \<Rightarrow> string \<Rightarrow> string \<Rightarrow> written_state option" where
  "written st d n = js_get (or_else (js_get st d) []) n"

lemma mark_other: "n \<notin> t_name ` set ts' \<Longrightarrow> js_get (fold (mark_one now) ts' dev) n = js_get dev n"
proof (induction ts' arbitrary: dev)
  case (Cons t ts')
  have "js_get (mark_one now t dev) n = js_get dev n" using Cons.prems by (auto simp: mark_one_def split: option.splits)
  then show ?case using Cons by simp
qed simp

lemma mark_this:
  "distinct (map t_name ts') \<Longrightarrow> t \<in> set ts' \<Longrightarrow> numericValue (t_value t) = Some v \<Longrightarrow>
   js_get (fold (mark_one now) ts' dev) (t_name t) = Some \<lparr>ws_value = v, ws_at = now\<rparr>"
proof (induction ts' arbitrary: dev)
  case (Cons u ts')
  show ?case
  proof (cases "t = u")
    case True
    then have "t_name t \<notin> t_name ` set ts'" using Cons.prems(1) by auto
    moreover have "mark_one now u dev = js_set (t_name u) \<lparr>ws_value = v, ws_at = now\<rparr> dev"
      using True Cons.prems(3) by (simp add: mark_one_def)
    ultimately show ?thesis using mark_other [of "t_name t" ts' now "mark_one now u dev"] True by simp
  next
    case False
    then show ?thesis using Cons by simp
  qed
qed simp

definition close_enough :: "int \<Rightarrow> write_policy \<Rightarrow> jsnum \<Rightarrow> written_state \<Rightarrow> bool" where
  "close_enough now p v w \<longleftrightarrow>
     \<not> js_le (deadband p) (js_abs (js_sub v (ws_value w))) \<and> \<not> js_le (maxStaleMs p) (js_int (now - ws_at w))"

text \<open>
  Two rows of one name share the filter's memory: when a row takes the value the other one had, the
  change is not written, however large it is, until the staleness limit.
\<close>

theorem same_name_hides_change:
  assumes "t_name a = n" "t_name b = n" "t_name a' = n" "js_get policies n = Some p" "js_less (js_int 0) (deadband p)"
    and "t_value b = JNum (Fin y)" "t_value a' = JNum (Fin y)" "\<not> js_le (maxStaleMs p) (js_int (t2 - t1))"
  shows "select_writes t2 d [a'] policies (markWritten t1 d [a, b] st) = []"
proof -
  have "js_get (fold (mark_one t1) [a, b] dev) n = Some \<lparr>ws_value = Fin y, ws_at = t1\<rparr>" for dev
    using assms(2,6) by (simp add: mark_one_def numericValue_def)
  moreover have "js_sub (Fin y) (Fin y) = Fin 0" using fl64_int [of 0] by (simp add: js_sub_def)
  moreover have "\<not> js_le (deadband p) (Fin 0)"
    using assms(5) by (cases "deadband p") (auto simp: js_le_def js_num_eq_def js_int_def)
  ultimately show ?thesis
    using assms by (simp add: select_writes_def must_write_def markWritten_def numericValue_def)
qed

section \<open>Concrete readings\<close>

definition sample_row :: "string \<Rightarrow> jsnum \<Rightarrow> telemetry" where
  "sample_row n v = \<lparr>t_name = n, t_description = '''', t_value = JNum v, t_unit = '''', t_timestamp = '''', t_deviceId = ''B1'',
     t_tags = None\<rparr>"

definition sample_alarm :: alarm_rule where
  "sample_alarm = \<lparr>al_telemetry = ''fire'', al_severity = Alarm_error, al_description = None, al_activeLow = None\<rparr>"

definition sample_policy :: write_policy where
  "sample_policy = \<lparr>deadband = js_int 2, maxStaleMs = js_int 60000\<rparr>"

lemma same_name_hides_change_witness:
  "select_writes 5000 ''B1'' [sample_row ''rack v'' (Fin 700)] [(''rack v'', sample_policy)]
     (markWritten 0 ''B1'' [sample_row ''rack v'' (Fin 650), sample_row ''rack v'' (Fin 700)] []) = []"
  by (rule same_name_hides_change [where n = "''rack v''" and p = sample_policy and y = 700])
    (simp_all add: sample_row_def sample_policy_def js_le_def js_num_eq_def js_int_def)

end
