(* ===== verification/Service_Props.thy ===== *)
theory Service_Props
  imports Service_Facts Monitoring_Facts
begin

text \<open>
  The properties of the device service: its well-formedness, the alarm table, the write filter, the
  bookkeeping of unreachable devices, the audit of commands and the end of the read-back loop.
\<close>

section \<open>Loops of settled calls\<close>

lemma settled_append: "snd (settledC f (xs @ ys) s) = snd (settledC f ys (snd (settledC f xs s)))"
  by (induction xs arbitrary: s) (auto simp: case_prod_beta Let_def)

lemma settled_Cons: "snd (settledC f (x # xs) s) = snd (settledC f xs (snd (f x s)))"
  by (simp add: case_prod_beta Let_def)

lemma snd_bind_attempt: "snd (bindC (attemptC m) f s) = snd (f () (snd (m s)))"
  by (simp add: bindC_result)

section \<open>Well-formedness\<close>

definition beats_ok :: "(string, nat) jsmap \<Rightarrow> bool" where
  "beats_ok m \<longleftrightarrow> wf_map m \<and> (\<forall>d n. js_get m d = Some n \<longrightarrow> n < 256)"

definition service_wf :: "'w service_state \<Rightarrow> bool" where
  "service_wf s \<longleftrightarrow>
     wf_map (sv_devices s) \<and> wf_map (sv_offlineSince s) \<and> wf_map (sv_lastReminderAt s) \<and> wf_map (sv_detector s) \<and>
     wf_map (sv_filter s) \<and> beats_ok (sv_heartbeats s) \<and>
     (\<forall>d. js_has (sv_lastReminderAt s) d \<longrightarrow> js_has (sv_offlineSince s) d)"

lemma wf_detect: "detect d ss st = (trs, st') \<Longrightarrow> wf_map st \<Longrightarrow> wf_map st'"
proof (induction ss arbitrary: st trs)
  case (Cons x ss)
  then show ?case by (auto simp: Let_def split: prod.splits)
qed simp

lemma wf_evaluateAlarms:
  assumes "service_wf s"
  shows "service_wf (snd (evaluateAlarms env d data s))"
proof -
  have app: "keepsC service_wf (applyTransition env d t)" for t :: alarm_transition
    unfolding applyTransition_def
    by (intro keeps_bind keeps_attempt keeps_sql keeps_log) (simp_all add: service_wf_def)
  have "service_wf (snd (settledC (applyTransition env d) trs (s\<lparr>sv_detector := st\<rparr>)))" if "wf_map st" for trs st
    by (rule keeps_settled [OF app]) (use assms that in \<open>simp add: service_wf_def\<close>)
  then show ?thesis
    using assms by (auto simp: evaluateAlarms_def service_wf_def split: option.split prod.split dest: wf_detect)
qed

lemma wf_detector_reset: "wf_map st \<Longrightarrow> wf_map (fold detector_reset ds st)"
  by (induction ds arbitrary: st) (simp_all add: detector_reset_def)

lemma wf_reset:
  assumes "service_wf s"
  shows "service_wf (snd (reset_alarm_state env ids s))"
proof -
  have "keepsC service_wf (reset_alarm_state env ids)"
    unfolding reset_alarm_state_def
    by (intro keeps_bind keeps_if keeps_return keeps_sql keepsCI)
      (auto simp: service_wf_def reset_detectors_def wf_detector_reset)
  then show ?thesis using assms by (rule keepsCD)
qed

lemma beats_ok_simps [simp]:
  "beats_ok []" "beats_ok m \<Longrightarrow> n < 256 \<Longrightarrow> beats_ok (js_set d n m)"
  by (auto simp: beats_ok_def)

lemma beats_started: "beats_ok m \<Longrightarrow> beats_ok (fold (\<lambda>e m. if de_heartbeat e = None then m else js_set (dv_id (de_device e)) 0 m) es m)"
  by (induction es arbitrary: m) simp_all

interpretation wf: service_invariant env service_wf "\<lambda>_. True" for env :: "'w service_env"
proof unfold_locales
  fix s :: "'w service_state" and d data ids es
  show "service_wf s \<Longrightarrow> service_wf (snd (evaluateAlarms env d data s))" by (rule wf_evaluateAlarms)
  show "service_wf s \<Longrightarrow> service_wf (snd (reset_alarm_state env ids s))" by (rule wf_reset)
  show "service_wf s \<Longrightarrow> service_wf (start_heartbeats es s)" by (simp add: service_wf_def start_heartbeats_def beats_started)
qed (auto simp: service_wf_def markWritten_def)


section \<open>The alarm table follows the detector\<close>

definition sql_accepts :: "'w service_env \<Rightarrow> bool" where
  "sql_accepts env \<longleftrightarrow> (\<exists>f. io_sql env = Some f \<and> (\<forall>stmt w. fst (f stmt w) = Inr ()))"

lemma sql_runs:
  assumes "sql_accepts env"
  obtains w where "execute_sql env stmt s = (Inr (), s\<lparr>sv_world := w, sv_db := run_stmt (io_clock env (sv_world s)) stmt (sv_db s)\<rparr>)"
proof -
  obtain f where f: "io_sql env = Some f" "fst (f stmt (sv_world s)) = Inr ()"
    using assms by (auto simp: sql_accepts_def)
  then obtain w where "f stmt (sv_world s) = (Inr (), w)" by (cases "f stmt (sv_world s)") auto
  then show thesis using that by (simp add: execute_sql_def f(1) external_def)
qed

definition alarms_follow :: "string list \<Rightarrow> 'w service_state \<Rightarrow> bool" where
  "alarms_follow ds s \<longleftrightarrow> follows ds (sv_detector s) (db_alarms (sv_db s))"

definition own_devices :: "string list \<Rightarrow> 'w service_state \<Rightarrow> bool" where
  "own_devices ds s \<longleftrightarrow> (\<forall>d e. (d, e) \<in> set (sv_devices s) \<longrightarrow> d \<in> set ds \<and> dv_id (de_device e) = d)"

lemma log_keeps_tables:
  "sv_db (snd (log_event env ev s)) = sv_db s \<and> sv_detector (snd (log_event env ev s)) = sv_detector s \<and>
   sv_devices (snd (log_event env ev s)) = sv_devices s"
  by (auto simp: log_event_def external_def split: option.split prod.split sum.split)

lemma apply_active:
  assumes "sql_accepts env"
  shows "active_row (db_alarms (sv_db (snd (applyTransition env d t s)))) d' n = None \<longleftrightarrow>
      (if d' = d \<and> n = at_name t then at_kind t \<noteq> Set_alarm else active_row (db_alarms (sv_db s)) d' n = None)"
proof -
  let ?stmt = "if at_kind t = Set_alarm then Activate_alarm d (at_name t) (at_severity t) (at_description t)
      else Deactivate_alarm d (at_name t)"
  obtain w where "execute_sql env ?stmt s = (Inr (), s\<lparr>sv_world := w, sv_db := run_stmt (io_clock env (sv_world s)) ?stmt (sv_db s)\<rparr>)"
    using sql_runs [OF assms] .
  then show ?thesis
    by (cases "at_kind t")
      (auto simp: applyTransition_def snd_bind_attempt log_keeps_tables run_stmt_def activate_def deactivate_def active_row_def
        split: option.splits)
qed

lemma apply_frame:
  "sv_detector (snd (applyTransition env d t s)) = sv_detector s \<and> sv_devices (snd (applyTransition env d t s)) = sv_devices s"
  by (auto simp: applyTransition_def snd_bind_attempt log_keeps_tables execute_sql_def external_def
      split: option.split prod.split sum.split)

lemma settled_frame:
  "sv_detector (snd (settledC (applyTransition env d) trs s)) = sv_detector s \<and>
   sv_devices (snd (settledC (applyTransition env d) trs s)) = sv_devices s"
  by (induction trs arbitrary: s) (simp_all add: settled_Cons apply_frame del: settledC.simps(2))

lemma detect_follows:
  assumes "sql_accepts env" "list_all no_colon ds" "d \<in> set ds"
  shows "detect d ss st = (trs, st') \<Longrightarrow> follows ds st (db_alarms (sv_db s)) \<Longrightarrow>
    follows ds st' (db_alarms (sv_db (snd (settledC (applyTransition env d) trs s))))"
proof (induction ss arbitrary: st trs s)
  case (Cons x ss)
  let ?key = "alarm_key d (as_name x)"
  let ?st = "js_set ?key (as_active x) st"
  let ?ts = "transition_of (js_get st ?key) x"
  let ?s = "snd (settledC (applyTransition env d) ?ts s)"
  obtain trs1 where dt: "detect d ss ?st = (trs1, st')" "trs = ?ts @ trs1"
    using Cons.prems by (auto simp: Let_def split: prod.splits)
  have nc: "no_colon d'" if "d' \<in> set ds" for d' using assms(2) that by (simp add: list_all_iff)
  have "follows ds ?st (db_alarms (sv_db ?s))"
    unfolding follows_def
  proof (intro ballI allI)
    fix d' n assume d': "d' \<in> set ds"
    have key: "alarm_key d' n = ?key \<longleftrightarrow> d' = d \<and> n = as_name x" using alarm_key_inj nc d' assms(3) by simp
    have old: "(active_row (db_alarms (sv_db s)) d' n = None) = (js_get st (alarm_key d' n) \<noteq> Some True)"
      using Cons.prems(2) d' by (simp add: follows_def)
    have "active_row (db_alarms (sv_db ?s)) d' n = None \<longleftrightarrow>
        (if d' = d \<and> n = as_name x then \<not> as_active x else active_row (db_alarms (sv_db s)) d' n = None)"
      using old
      by (cases "d' = d \<and> n = as_name x")
        (auto simp: transition_of_def Let_def settled_Cons apply_active [OF assms(1)] simp del: settledC.simps(2) not_None_eq)
    then show "(active_row (db_alarms (sv_db ?s)) d' n = None) = (js_get ?st (alarm_key d' n) \<noteq> Some True)"
      using key old by simp
  qed
  from Cons.IH [OF dt(1) this] show ?case by (simp add: dt(2) settled_append)
qed simp

lemma evaluate_follows:
  assumes "sql_accepts env" "list_all no_colon ds" "own_devices ds s" "alarms_follow ds s"
  shows "own_devices ds (snd (evaluateAlarms env d data s)) \<and> alarms_follow ds (snd (evaluateAlarms env d data s))"
proof (cases "js_get (sv_devices s) d")
  case (Some e)
  then have d: "d \<in> set ds" using assms(3) by (auto simp: own_devices_def dest: map_of_SomeD)
  show ?thesis
  proof (cases "de_alarms e")
    case (Some rules)
    obtain trs st where dt: "detect d (alarmSamples rules data) (sv_detector s) = (trs, st)" by fastforce
    have "follows ds st (db_alarms (sv_db (snd (settledC (applyTransition env d) trs (s\<lparr>sv_detector := st\<rparr>)))))"
      by (rule detect_follows [OF assms(1,2) d dt]) (use assms(4) in \<open>simp add: alarms_follow_def\<close>)
    then show ?thesis
      using assms(3) \<open>js_get (sv_devices s) d = Some e\<close>
      by (simp add: evaluateAlarms_def Some dt alarms_follow_def own_devices_def settled_frame)
  qed (use assms(3,4) Some in \<open>simp add: evaluateAlarms_def\<close>)
qed (use assms(3,4) in \<open>simp add: evaluateAlarms_def\<close>)

lemma get_filter_keys: "js_get (filter (\<lambda>(k, v). P k) m) k = (if P k then js_get m k else None)"
  by (induction m) auto

lemma starts_with_append: "starts_with xs ys \<longleftrightarrow> (\<exists>zs. ys = xs @ zs)"
  by (induction xs ys rule: starts_with.induct) auto

lemma prefix_key:
  assumes "no_colon d" "no_colon d'"
  shows "starts_with (d' @ '':'') (alarm_key d n) \<longleftrightarrow> d' = d"
proof
  assume "starts_with (d' @ '':'') (alarm_key d n)"
  then obtain zs where "alarm_key d n = alarm_key d' zs" by (auto simp: starts_with_append alarm_key_def)
  then show "d' = d" using alarm_key_inj [OF assms] by simp
qed (auto simp: starts_with_append alarm_key_def)

lemma get_resets:
  assumes "no_colon d" "list_all no_colon ids"
  shows "js_get (fold detector_reset ids st) (alarm_key d n) = (if d \<in> set ids then None else js_get st (alarm_key d n))"
  using assms(2)
  by (induction ids arbitrary: st) (simp_all add: detector_reset_def get_filter_keys prefix_key [OF assms(1)] prefix_key [OF assms(1) assms(1), simplified])

lemma reset_follows:
  assumes "list_all no_colon ds" "set ids \<subseteq> set ds"
    and "\<forall>d \<in> set ds. d \<notin> set ids \<longrightarrow> (\<forall>n. (active_row tbl d n = None) = (js_get st (alarm_key d n) \<noteq> Some True))"
  shows "follows ds (fold detector_reset ids st) (resetAll t ids tbl)"
proof -
  have ids: "list_all no_colon ids" using assms(1,2) by (auto simp: list_all_iff)
  show ?thesis
    unfolding follows_def
  proof (intro ballI allI)
    fix d n assume d: "d \<in> set ds"
    then have "no_colon d" using assms(1) by (simp add: list_all_iff)
    moreover have "active_row (resetAll t ids tbl) d n = (if d \<in> set ids then None else active_row tbl d n)"
      by (auto simp: active_row_def resetAll_def split: option.split)
    ultimately show "(active_row (resetAll t ids tbl) d n = None) = (js_get (fold detector_reset ids st) (alarm_key d n) \<noteq> Some True)"
      using assms(3) d by (simp add: get_resets ids)
  qed
qed

lemma reset_result:
  assumes "sql_accepts env"
  obtains w tbl where "reset_alarm_state env ids s = (Inr (), s\<lparr>sv_world := w, sv_db := tbl, sv_detector := fold detector_reset ids (sv_detector s)\<rparr>)"
    and "db_alarms tbl = (if ids = [] then db_alarms (sv_db s) else resetAll (io_clock env (sv_world s)) ids (db_alarms (sv_db s)))"
proof (cases "ids = []")
  case True
  show thesis
    by (rule that [where w = "sv_world s" and tbl = "sv_db s"]) (simp_all add: True reset_alarm_state_def reset_detectors_def bindC_result)
next
  case False
  obtain w where "execute_sql env (Reset_alarms ids) s =
      (Inr (), s\<lparr>sv_world := w, sv_db := run_stmt (io_clock env (sv_world s)) (Reset_alarms ids) (sv_db s)\<rparr>)"
    using sql_runs [OF assms] .
  then show thesis
    by (intro that) (auto simp: False reset_alarm_state_def reset_detectors_def bindC_result run_stmt_def)
qed

definition alarm_inv :: "string list \<Rightarrow> 'w service_state \<Rightarrow> bool" where
  "alarm_inv ds s \<longleftrightarrow> own_devices ds s \<and> alarms_follow ds s"

lemma reset_inv:
  assumes "sql_accepts env" "list_all no_colon ds" "set ids \<subseteq> set ds" "own_devices ds s"
    and "\<forall>d \<in> set ds. d \<notin> set ids \<longrightarrow>
        (\<forall>n. (active_row (db_alarms (sv_db s)) d n = None) = (js_get (sv_detector s) (alarm_key d n) \<noteq> Some True))"
  shows "alarm_inv ds (snd (reset_alarm_state env ids s))"
proof -
  obtain w tbl where r: "reset_alarm_state env ids s = (Inr (), s\<lparr>sv_world := w, sv_db := tbl, sv_detector := fold detector_reset ids (sv_detector s)\<rparr>)"
    and tbl: "db_alarms tbl = (if ids = [] then db_alarms (sv_db s) else resetAll (io_clock env (sv_world s)) ids (db_alarms (sv_db s)))"
    using reset_result [OF assms(1)] .
  have "resetAll t [] tb = tb" for t tb by (auto simp: resetAll_def fun_eq_iff)
  then have "db_alarms tbl = resetAll (io_clock env (sv_world s)) ids (db_alarms (sv_db s))" by (simp add: tbl)
  then show ?thesis
    using reset_follows [OF assms(2,3,5)] assms(4) by (simp add: alarm_inv_def r alarms_follow_def own_devices_def)
qed

lemma alarm_service_invariant:
  assumes "sql_accepts env" "list_all no_colon ds"
  shows "service_invariant env (alarm_inv ds) (\<lambda>ids. set ids \<subseteq> set ds)"
proof unfold_locales
  fix s :: "'a service_state" and d data ids
  show "alarm_inv ds s \<Longrightarrow> set (map (dv_id \<circ> de_device) (map snd (sv_devices s))) \<subseteq> set ds"
    by (auto simp: alarm_inv_def own_devices_def)
  show "alarm_inv ds s \<Longrightarrow> alarm_inv ds (snd (evaluateAlarms env d data s))"
    using evaluate_follows [OF assms] by (simp add: alarm_inv_def)
  show "alarm_inv ds s \<Longrightarrow> set ids \<subseteq> set ds \<Longrightarrow> alarm_inv ds (snd (reset_alarm_state env ids s))"
    by (rule reset_inv [OF assms]) (auto simp: alarm_inv_def alarms_follow_def follows_def)
next
  fix s :: "'a service_state" and stmt t
  show "alarm_inv ds s \<Longrightarrow> status_stmt stmt \<Longrightarrow> alarm_inv ds (s\<lparr>sv_db := run_stmt t stmt (sv_db s)\<rparr>)"
    by (cases stmt) (auto simp: alarm_inv_def own_devices_def alarms_follow_def status_stmt_def run_stmt_def)
qed (auto simp: alarm_inv_def own_devices_def alarms_follow_def start_heartbeats_def)

interpretation kept: service_invariant env "\<lambda>s. sv_devices s = D \<or> sv_devices s = []" "\<lambda>_. True"
  for env :: "'w service_env" and D
proof unfold_locales
  fix s :: "'w service_state" and d data ids
  assume s: "sv_devices s = D \<or> sv_devices s = []"
  show "sv_devices (snd (evaluateAlarms env d data s)) = D \<or> sv_devices (snd (evaluateAlarms env d data s)) = []"
    using s by (auto simp: evaluateAlarms_def settled_frame split: option.split prod.split)
  show "sv_devices (snd (reset_alarm_state env ids s)) = D \<or> sv_devices (snd (reset_alarm_state env ids s)) = []"
    using s by (auto simp: reset_alarm_state_def reset_detectors_def bindC_result execute_sql_def external_def
        split: option.split prod.split sum.split)
qed (auto simp: start_heartbeats_def)

lemma start_establishes:
  assumes "sql_accepts env" "list_all no_colon (map fst (sv_devices s0))" "own_devices (map fst (sv_devices s0)) s0"
    and "service_start env s0 = (Inr (), s1)"
  shows "alarm_inv (map fst (sv_devices s0)) s1"
proof -
  let ?es = "map snd (sv_devices s0)" and ?ds = "map fst (sv_devices s0)"
  let ?I = "\<lambda>s. sv_devices s = sv_devices s0 \<or> sv_devices s = []"
  have ids: "map (dv_id \<circ> de_device) ?es = ?ds"
    using assms(3) by (auto simp: own_devices_def)
  let ?a = "start_devices env ?es (s0\<lparr>sv_running := True\<rparr>)"
  have a: "?I ?a" by (rule kept.devices_started) simp
  from assms(4) have "bindC (scheduleManagement env) (\<lambda>_. bindC (execute_sql env Create_alarm_table) (\<lambda>_.
      bindC (reset_alarm_state env ?ds) (\<lambda>_. bindC (external (io_registerWorker env ''READ_DEVICE'') id) (\<lambda>_.
      bindC (external (io_registerWorker env ''COMMAND_DEVICE'') id) (\<lambda>_. (\<lambda>s'. (Inr (), start_heartbeats ?es s'))))))) ?a
      = (Inr (), s1)"
    unfolding service_start_def Let_def ids .
  then obtain b c d where b: "scheduleManagement env ?a = (Inr (), b)" and c: "execute_sql env Create_alarm_table b = (Inr (), c)"
    and d: "reset_alarm_state env ?ds c = (Inr (), d)"
    and rest: "bindC (external (io_registerWorker env ''READ_DEVICE'') id) (\<lambda>_.
      bindC (external (io_registerWorker env ''COMMAND_DEVICE'') id) (\<lambda>_. (\<lambda>s'. (Inr (), start_heartbeats ?es s')))) d = (Inr (), s1)"
    by (auto elim!: bindC_InrE)
  have "?I b" using b a by (auto simp: scheduleManagement_def external_def split: prod.splits sum.splits)
  then have "?I c" using c by (auto simp: execute_sql_def external_def split: option.splits prod.splits sum.splits)
  then have own: "own_devices ?ds c" using assms(3) by (auto simp: own_devices_def)
  have "alarm_inv ?ds (snd (reset_alarm_state env ?ds c))"
    by (rule reset_inv [OF assms(1,2) subset_refl own]) simp
  then have inv: "alarm_inv ?ds d" by (simp add: d)
  have "keepsC (alarm_inv ?ds) (bindC (external (io_registerWorker env ''READ_DEVICE'') id) (\<lambda>_.
      bindC (external (io_registerWorker env ''COMMAND_DEVICE'') id) (\<lambda>_. (\<lambda>s'. (Inr (), start_heartbeats ?es s')))))"
    by (intro keeps_bind keeps_external keepsCI)
      (auto simp: alarm_inv_def own_devices_def alarms_follow_def start_heartbeats_def)
  from keepsC_result [OF this inv rest] show ?thesis .
qed

text \<open>
  Once the service has started, and as long as its database accepts the statements, in every state
  it reaches (readings, commands, heartbeats, restarts and stops in any order) the alarm table shows an
  alarm of one of its devices as active exactly when the detector last saw it active. Device
  identifiers must not contain a colon.
\<close>

theorem alarm_table_follows:
  assumes "sql_accepts env" "list_all no_colon (map fst (sv_devices s0))" "own_devices (map fst (sv_devices s0)) s0"
    and "service_start env s0 = (Inr (), s1)" "service_reachable env s1 s" "d \<in> fst ` set (sv_devices s0)"
  shows "(active_row (db_alarms (sv_db s)) d n \<noteq> None) = (js_get (sv_detector s) (alarm_key d n) = Some True)"
proof -
  have "alarm_inv (map fst (sv_devices s0)) s"
    by (rule service_invariant.reachable_keeps [OF alarm_service_invariant [OF assms(1,2)] assms(5) start_establishes [OF assms(1-4)]])
  then have "follows (map fst (sv_devices s0)) (sv_detector s) (db_alarms (sv_db s))"
    by (simp add: alarm_inv_def alarms_follow_def)
  then have "(active_row (db_alarms (sv_db s)) d n = None) = (js_get (sv_detector s) (alarm_key d n) \<noteq> Some True)"
    using assms(6) by (auto simp: follows_def simp del: not_None_eq)
  then show ?thesis by simp
qed

section \<open>The write filter\<close>

definition queue_accepts :: "'w service_env \<Rightarrow> bool" where
  "queue_accepts env \<longleftrightarrow> (\<forall>j w. fst (io_addJob env j w) = Inr ())"

lemma add_runs:
  assumes "queue_accepts env"
  shows "fst (add_job env j s) = Inr () \<and> sv_filter (snd (add_job env j s)) = sv_filter s"
proof -
  have "fst (io_addJob env j (sv_world s)) = Inr ()" using assms by (simp add: queue_accepts_def)
  then show ?thesis by (cases "io_addJob env j (sv_world s)") (simp add: add_job_def external_def)
qed

lemma publish_runs:
  assumes "queue_accepts env" "data \<noteq> []"
  shows "fst (publishTelemetry env d data writes s) = Inr (writes \<noteq> []) \<and> sv_filter (snd (publishTelemetry env d data writes s)) = sv_filter s"
  using assms(2) by (auto simp: publishTelemetry_def case_prod_beta Let_def add_runs [OF assms(1)])

lemma enrich_values: "t \<in> set data \<Longrightarrow> \<exists>u \<in> set (enrich c data). t_name u = t_name t \<and> t_value u = t_value t"
  by (induction data) (auto simp: enrich_def)

text \<open>
  After a reading is published and its jobs queued, the last queued value of every numeric point
  with a policy is the value just read, or within its deadband of it and younger than its staleness
  limit; the rows of a reading must have different names.
\<close>

theorem filter_keeps_deadband:
  assumes "queue_accepts env" "distinct (map t_name data)" "t \<in> set data" "js_get (sv_devices s) d = Some e"
    and "de_writePolicy e = Some policies" "js_get policies (t_name t) = Some p" "numericValue (t_value t) = Some v"
    and "publish env d data s = (r, s')"
  shows "\<exists>w. written (sv_filter s') d (t_name t) = Some w \<and>
    (w = \<lparr>ws_value = v, ws_at = io_clock env (sv_world s')\<rparr> \<or> close_enough (io_clock env (sv_world s)) p v w)"
proof -
  define cfg where "cfg = (case js_get (sv_taggers s) d of None \<Rightarrow> data | Some c \<Rightarrow> enrich c data)"
  have "\<exists>u \<in> set cfg. t_name u = t_name t \<and> t_value u = t_value t"
  proof (cases "js_get (sv_taggers s) d")
    case (Some c)
    then show ?thesis using enrich_values [OF assms(3), of c] by (simp add: cfg_def)
  qed (use assms(3) in \<open>auto simp: cfg_def\<close>)
  then obtain u where u: "u \<in> set cfg" "t_name u = t_name t" "t_value u = t_value t" by blast
  have names: "map t_name cfg = map t_name data" by (simp add: cfg_def enrich_def comp_def split: option.split)
  define now where "now = io_clock env (sv_world s)"
  define dev where "dev = or_else (js_get (sv_filter s) d) []"
  define writes where "writes = filter (must_write now policies dev) cfg"
  have ne: "cfg \<noteq> []" using u(1) by auto
  have sel: "select_writes now d cfg policies (sv_filter s) = writes" by (simp add: select_writes_def writes_def dev_def)
  obtain s1 where pub: "publishTelemetry env d cfg writes s = (Inr (writes \<noteq> []), s1)" and s1: "sv_filter s1 = sv_filter s"
    using publish_runs [OF assms(1) ne, of d writes s] by (metis prod.collapse)
  have s': "s' = (if writes \<noteq> [] then s1\<lparr>sv_filter := markWritten (io_clock env (sv_world s1)) d writes (sv_filter s1)\<rparr> else s1)"
    using assms(8) by (simp add: publish_def Let_def cfg_def [symmetric] assms(4,5) or_else_def now_def [symmetric] sel bindC_result pub
        cong: if_cong)
  have st': "written (sv_filter s') d n = js_get (fold (mark_one (io_clock env (sv_world s'))) writes dev) n" for n
    by (auto simp: s' s1 written_def markWritten_def dev_def)
  show ?thesis
  proof (cases "must_write now policies dev u")
    case True
    then have "u \<in> set writes" "distinct (map t_name writes)" using assms(2) u(1) names by (simp_all add: writes_def distinct_map_filter)
    from mark_this [OF this(2,1)] show ?thesis using assms(7) u by (simp add: st')
  next
    case False
    have "t_name t \<notin> t_name ` set writes"
    proof
      assume "t_name t \<in> t_name ` set writes"
      then obtain x where "x \<in> set cfg" "t_name x = t_name u" "must_write now policies dev x" using u(2) by (auto simp: writes_def)
      moreover from this have "x = u" using assms(2) u(1) names by (metis distinct_map inj_onD)
      ultimately show False using False by simp
    qed
    then have "written (sv_filter s') d (t_name t) = js_get dev (t_name t)" by (simp add: st' mark_other)
    moreover obtain w where "js_get dev (t_name t) = Some w" "close_enough now p v w"
      using False assms(6,7) u by (auto simp: must_write_def close_enough_def split: option.splits)
    ultimately show ?thesis by (simp add: now_def)
  qed
qed

end
