(* ===== verification/Service_Runs.thy ===== *)
theory Service_Runs
  imports Service_Props
begin

text \<open>
  Runs of the device service: what a command's audit record says, when a command may report success,
  that it always returns, and how unreachable devices are reported.
\<close>

section \<open>The audit of a command\<close>

definition audit_trail :: "'w service_state \<Rightarrow> service_event list" where
  "audit_trail s = filter (\<lambda>ev. se_category ev = Audit) (sv_log s)"

interpretation quiet: service_frame env "\<lambda>s. audit_trail s = A" for env :: "'w service_env" and A
  by unfold_locales (simp_all add: audit_trail_def)

lemma log_trail:
  assumes "io_log env = Some f"
  shows "audit_trail (snd (log_event env ev s)) = audit_trail s @ (if se_category ev = Audit \<and> fst (log_event env ev s) = Inr () then [ev] else [])"
  using assms by (auto simp: log_event_def external_def audit_trail_def split: prod.split sum.split)

lemma command_event_audit: "se_category (command_event job b err) = Audit"
  by (simp add: command_event_def event_def)

definition audit_of :: "traced_job \<Rightarrow> string + command_result \<Rightarrow> service_event list \<Rightarrow> bool" where
  "audit_of job r evs \<longleftrightarrow>
     (case r of
        Inr res \<Rightarrow> \<exists>err. (err = None) = cr_success res \<and> evs = [command_event job (cr_success res) err]
      | Inl _ \<Rightarrow> evs = [] \<or> (\<exists>err. evs = [command_event job False (Some err)]))"

lemma audit_of_rejected: "audit_of job (Inl e) []" "audit_of job (Inl e) [command_event job False (Some err)]"
  by (auto simp: audit_of_def)

lemma audit_of_failed: "\<not> cr_success res \<Longrightarrow> audit_of job (Inr res) [command_event job False (Some err)]"
  by (auto simp: audit_of_def)

lemma audit_of_result:
  "cr_success res \<or> cr_reason res \<noteq> None \<Longrightarrow>
   audit_of job (Inr res) [command_event job (cr_success res) (if cr_success res then None else cr_reason res)]"
  by (auto simp: audit_of_def)

lemma finish_audit:
  assumes "io_log env = Some f" "cr_success res \<or> cr_reason res \<noteq> None" "finish_command env dv job res s = (r, s')"
  shows "\<exists>evs. audit_trail s' = audit_trail s @ evs \<and> audit_of job r evs"
proof -
  let ?err = "if cr_success res then None else cr_reason res"
  obtain l s1 where l: "log_event env (command_event job (cr_success res) ?err) s = (l, s1)" by fastforce
  have t: "audit_trail s1 = audit_trail s @ (if l = Inr () then [command_event job (cr_success res) ?err] else [])"
    using log_trail [OF assms(1), of "command_event job (cr_success res) ?err" s] by (simp add: l command_event_audit)
  have "audit_trail (snd (finalize_write env dv job s1)) = audit_trail s1"
    by (rule keepsCD [OF quiet.finalize_write]) simp
  moreover have "fst (finalize_write env dv job s1) = Inr ()"
    by (simp add: finalize_write_def split: option.split prod.split)
  ultimately obtain s2 where fin: "finalize_write env dv job s1 = (Inr (), s2)" and trail: "audit_trail s2 = audit_trail s1"
    by (cases "finalize_write env dv job s1") simp
  show ?thesis
  proof (cases l)
    case (Inl e)
    then show ?thesis using assms(3) t by (auto simp: finish_command_def logCommand_def l bindC_result audit_of_def)
  next
    case (Inr u)
    have "r = Inr res" "s' = s2"
      using assms(3) by (simp_all add: finish_command_def logCommand_def l Inr bindC_result fin split: prod.splits)
    then show ?thesis
      using t trail audit_of_result [OF assms(2)] Inr by simp
  qed
qed

lemma write_failed_audit:
  assumes "io_log env = Some f" "write_failed env job err s = (r, s')"
  shows "\<exists>evs. audit_trail s' = audit_trail s @ evs \<and> audit_of job r evs"
proof -
  obtain l s1 where l: "log_event env (command_event job False (Some err)) s = (l, s1)" by fastforce
  have t: "audit_trail s1 = audit_trail s @ (if l = Inr () then [command_event job False (Some err)] else [])"
    using log_trail [OF assms(1), of "command_event job False (Some err)" s] by (simp add: l command_event_audit)
  let ?ev = "event Level_error App ''modbus_write_failed'' [(''deviceId'', VStr (j_deviceId job)), (''error'', VStr err)]"
  obtain l2 s2 where l2: "log_event env ?ev s1 = (l2, s2)" by fastforce
  have "audit_trail s2 = audit_trail s1"
    using log_trail [OF assms(1), of ?ev s1] unfolding l2 by (simp add: event_def)
  then show ?thesis
    using assms(2) t by (cases l; cases l2) (auto simp: write_failed_def logCommand_def Let_def l l2 bindC_result audit_of_rejected audit_of_failed)
qed

section \<open>The read-back loop\<close>

definition matched :: "'w service_env \<Rightarrow> 'w idevice \<Rightarrow> job_validate \<Rightarrow> int \<Rightarrow> bool" where
  "matched env dv v start \<longleftrightarrow>
     (\<exists>w data w1. dv_read dv w = (Inr data, w1) \<and> list_all (read_matches data) (jv_reads v) \<and>
        js_less (js_int (io_clock env w - start)) (jv_timeoutMs v))"

lemma turn_result:
  "read_back_turn env dv v start le w = (Inl res, w1) \<Longrightarrow>
   (\<exists>e. res = validation_timeout e) \<or> (res = validated \<and> matched env dv v start)"
proof (cases "js_less (js_int (io_clock env w - start)) (jv_timeoutMs v)")
  case True
  obtain r w2 where r: "dv_read dv w = (r, w2)" by fastforce
  assume "read_back_turn env dv v start le w = (Inl res, w1)"
  then show ?thesis
    using True r by (cases r) (auto simp: read_back_turn_def Let_def matched_def split: if_splits)
qed (auto simp: read_back_turn_def)

lemma read_back_result:
  assumes "read_back env dv v start le w = Some (res, w')"
  shows "(\<exists>e. res = validation_timeout e) \<or> (res = validated \<and> matched env dv v start)"
proof -
  define P where "P = (\<lambda>(env :: 'a service_env) dv v start (le :: string option) (w :: 'a) (y :: command_result \<times> 'a).
      (\<exists>e. fst y = validation_timeout e) \<or> (fst y = validated \<and> matched env dv v start))"
  have "P env dv v start le w (res, w')"
  proof (rule read_back.raw_induct [OF _ assms])
    fix rb :: "'a service_env \<Rightarrow> 'a idevice \<Rightarrow> job_validate \<Rightarrow> int \<Rightarrow> string option \<Rightarrow> 'a \<Rightarrow> (command_result \<times> 'a) option"
      and env dv v start le w y
    assume IH: "\<And>env dv v start le w y. rb env dv v start le w = Some y \<Longrightarrow> P env dv v start le w y"
      and y: "(case read_back_turn env dv v start le w of (Inl res, w1) \<Rightarrow> Some (res, w1)
          | (Inr lastError', w1) \<Rightarrow> rb env dv v start lastError' w1) = Some y"
    obtain t w1 where t: "read_back_turn env dv v start le w = (t, w1)" by fastforce
    show "P env dv v start le w y"
      using y t IH turn_result [of env dv v start le w _ w1] by (cases t) (fastforce simp: P_def)+
  qed
  then show ?thesis by (simp add: P_def)
qed

lemma validate_result:
  assumes "validate_step env dv job s = Some (res, s')"
  shows "(cr_success res \<or> cr_reason res \<noteq> None) \<and>
    (\<forall>v. cr_success res \<and> j_validate job = Some v \<longrightarrow> res = validated \<and> (\<exists>start. matched env dv v start))"
proof (cases "j_validate job")
  case (Some v)
  then obtain w start where "read_back env dv v start None w = Some (res, sv_world s')"
    using assms by (auto simp: validate_step_def validateReadBack_def Let_def)
  from read_back_result [OF this] Some show ?thesis by (auto simp: validation_timeout_def validated_def)
qed (use assms in \<open>auto simp: validate_step_def plain_success_def\<close>)


definition command_done :: "'w service_env \<Rightarrow> traced_job \<Rightarrow> 'w service_state \<Rightarrow> bool" where
  "command_done env job s \<longleftrightarrow>
     (\<exists>e. js_get (sv_devices s) (j_deviceId job) = Some e \<and> fst (write_command (de_device e) job (sv_world s)) = Inr () \<and>
       (\<forall>v. j_validate job = Some v \<longrightarrow> (\<exists>start. matched env (de_device e) v start)))"

lemma command_success:
  assumes "executeCommand env job s = Some (Inr res, s')" "cr_success res"
  shows "command_done env job s \<and> (j_validate job \<noteq> None \<longrightarrow> cr_validated res = Some True)"
proof (cases "js_get (sv_devices s) (j_deviceId job)")
  case None
  then show ?thesis using assms by (auto simp: executeCommand_def)
next
  case (Some e)
  obtain w s1 where w: "on_device (write_command (de_device e) job) s = (w, s1)" by fastforce
  have "w = Inr ()"
    using assms Some w
    by (cases w) (auto simp: executeCommand_def write_failed_def Let_def bindC_result split: prod.splits sum.splits)
  then have ok: "fst (write_command (de_device e) job (sv_world s)) = Inr ()"
    using w by (auto simp: on_device_def external_def split: prod.splits sum.splits)
  obtain res' s2 s3 where v: "validate_step env (de_device e) job s2 = Some (res', s3)"
      and f: "finish_command env (de_device e) job res' s3 = (Inr res, s')"
    using assms(1) Some w \<open>w = Inr ()\<close> by (auto simp: executeCommand_def written_command_def Let_def)
  have "res' = res" using f by (auto simp: finish_command_def bindC_result split: prod.splits sum.splits)
  then show ?thesis using validate_result [OF v] assms(2) Some ok by (auto simp: validated_def command_done_def)
qed

text \<open>
  A command reports success only for a known device whose write succeeded, and with a read-back
  condition only after a reading of the device, inside the time limit, that matches every expected value.
\<close>

theorem success_is_real:
  assumes "executeCommand env job s = Some (Inr res, s')" "cr_success res"
  shows "\<exists>e. js_get (sv_devices s) (j_deviceId job) = Some e \<and>
    fst (write_command (de_device e) job (sv_world s)) = Inr () \<and>
    (\<forall>v. j_validate job = Some v \<longrightarrow> cr_validated res = Some True \<and> (\<exists>start. matched env (de_device e) v start))"
  using command_success [OF assms] by (auto simp: command_done_def)

section \<open>Commands return\<close>

text \<open>A timer of a positive length lets the clock advance, and a reading never turns it back.\<close>

definition time_passes :: "'w service_env \<Rightarrow> 'w idevice \<Rightarrow> bool" where
  "time_passes env dv \<longleftrightarrow>
     (\<forall>m w. js_less (js_int 0) m \<longrightarrow> io_clock env w < io_clock env (io_wait env m w)) \<and>
     (\<forall>w. io_clock env w \<le> io_clock env (snd (dv_read dv w)))"

lemma turn_progress:
  assumes "time_passes env dv" "jv_timeoutMs v = Fin T" "read_back_turn env dv v start le w = (Inr le', w1)"
  shows "nat (\<lceil>T\<rceil> - (io_clock env w1 - start)) < nat (\<lceil>T\<rceil> - (io_clock env w - start))"
proof -
  obtain r w0 where r: "dv_read dv w = (r, w0)" by fastforce
  have in_time: "js_less (js_int (io_clock env w - start)) (Fin T)" and w1: "w1 = io_wait env (js_int 50) w0"
    using assms(2,3) r by (auto simp: read_back_turn_def Let_def split: if_splits prod.splits)
  have "io_clock env w \<le> io_clock env (snd (dv_read dv w))" "io_clock env w0 < io_clock env w1"
    using assms(1) w1 by (auto simp: time_passes_def js_int_def)
  moreover have "io_clock env w - start < \<lceil>T\<rceil>"
    using in_time by (simp add: js_int_def less_ceiling_iff)
  ultimately show ?thesis by (simp add: r)
qed

lemma read_back_returns:
  assumes "time_passes env dv" "jv_timeoutMs v = Fin T"
  shows "\<exists>r. read_back env dv v start le w = Some r"
proof (induction "nat (\<lceil>T\<rceil> - (io_clock env w - start))" arbitrary: le w rule: less_induct)
  case less
  obtain t w1 where t: "read_back_turn env dv v start le w = (t, w1)" by fastforce
  show ?case
  proof (cases t)
    case (Inl res)
    then show ?thesis by (subst read_back.simps) (simp add: t)
  next
    case (Inr le')
    from less [OF turn_progress [OF assms t [unfolded Inr]]] show ?thesis
      by (subst read_back.simps) (simp add: t Inr)
  qed
qed


section \<open>Unreachable devices\<close>

definition log_accepts :: "'w service_env \<Rightarrow> bool" where
  "log_accepts env \<longleftrightarrow> (\<exists>f. io_log env = Some f \<and> (\<forall>ev w. fst (f ev w) = Inr ()))"

lemma log_runs:
  assumes "log_accepts env"
  obtains w where "log_event env ev s = (Inr (), s\<lparr>sv_world := w, sv_log := sv_log s @ [ev]\<rparr>)"
proof -
  obtain f where f: "io_log env = Some f" "fst (f ev (sv_world s)) = Inr ()"
    using assms by (auto simp: log_accepts_def)
  then obtain w where "f ev (sv_world s) = (Inr (), w)" by (cases "f ev (sv_world s)") auto
  then show thesis using that by (simp add: log_event_def f(1) external_def)
qed

text \<open>What an event says of a device: unreachable (true), reachable again (false).\<close>

definition availability :: "string \<Rightarrow> service_event \<Rightarrow> bool option" where
  "availability d ev =
     (if se_code ev = ''device_online'' \<and> js_get (se_context ev) ''deviceId'' = Some (VStr d) then Some False
      else if se_code ev = ''modbus_read_failed'' \<and> se_level ev = Level_error \<and> js_get (se_context ev) ''deviceId'' = Some (VStr d) then Some True
      else None)"

definition availability_log :: "string \<Rightarrow> 'w service_state \<Rightarrow> bool list" where
  "availability_log d s = List.map_filter (availability d) (sv_log s)"

fun alternates :: "bool \<Rightarrow> bool list \<Rightarrow> bool" where
  "alternates b [] = True"
| "alternates b (x # xs) = (x = b \<and> alternates (\<not> b) xs)"

lemma alternates_snoc: "alternates b (xs @ [x]) \<longleftrightarrow> alternates b xs \<and> x = (if even (length xs) then b else \<not> b)"
  by (induction xs arbitrary: b) auto

definition status_of :: "string \<Rightarrow> 'w service_state \<Rightarrow> string option" where
  "status_of d s = map_option dr_status (db_devices (sv_db s) d)"

lemma availability_simps [simp]:
  "availability d (event l c code ctx) =
     (if code = ''device_online'' \<and> js_get ctx ''deviceId'' = Some (VStr d) then Some False
      else if code = ''modbus_read_failed'' \<and> l = Level_error \<and> js_get ctx ''deviceId'' = Some (VStr d) then Some True else None)"
  by (simp add: availability_def event_def)

lemma availability_log_add:
  "availability_log d (s\<lparr>sv_log := sv_log s @ [ev]\<rparr>) = availability_log d s @ (case availability d ev of Some b \<Rightarrow> [b] | None \<Rightarrow> [])"
  by (simp add: availability_log_def List.map_filter_def split: option.split)

definition reach_inv :: "string \<Rightarrow> bool list \<Rightarrow> bool \<Rightarrow> string option \<Rightarrow> 'w service_state \<Rightarrow> bool" where
  "reach_inv d evs off status s \<longleftrightarrow>
     availability_log d s = evs \<and> js_has (sv_offlineSince s) d = off \<and> status_of d s = status"

interpretation reach: service_data env "reach_inv d evs off status" for env :: "'w service_env" and d evs off status
  by unfold_locales (simp_all add: reach_inv_def availability_log_def status_of_def)

lemma keeps_reach_log:
  assumes "availability d ev = None"
  shows "keepsC (reach_inv d evs off status) (log_event env ev)"
  using assms by (intro keeps_log) (simp_all add: reach_inv_def availability_log_def status_of_def List.map_filter_def)

lemma reach_alarms: "keepsC (reach_inv d evs off status) (evaluateAlarms env d' data)"
proof (rule keepsCI)
  fix s :: "'a service_state" assume s: "reach_inv d evs off status s"
  have "keepsC (reach_inv d evs off status) (execute_sql env (if b then Activate_alarm d' n sev desc else Deactivate_alarm d' n))"
    for b n sev desc
    by (intro keeps_sql) (auto simp: reach_inv_def availability_log_def status_of_def run_stmt_def)
  then have app: "keepsC (reach_inv d evs off status) (applyTransition env d' t)" for t
    unfolding applyTransition_def
    by (intro keeps_bind keeps_attempt keeps_reach_log) (simp_all add: alarm_event_def)
  have "reach_inv d evs off status (snd (settledC (applyTransition env d') trs (s\<lparr>sv_detector := st\<rparr>)))" for trs st
    by (rule keeps_settled [OF app]) (use s in \<open>simp add: reach_inv_def availability_log_def status_of_def\<close>)
  then show "reach_inv d evs off status (snd (evaluateAlarms env d' data s))"
    using s by (simp add: evaluateAlarms_def split: option.split prod.split)
qed

lemma fst_publish: "fst (publish env d data s) = Inr ()"
  by (simp add: publish_def Let_def bindC_result publishTelemetry_def split: prod.splits)

lemma fst_evaluateAlarms: "fst (evaluateAlarms env d data s) = Inr ()"
  by (simp add: evaluateAlarms_def split: option.split prod.split)

text \<open>What a failing and what a succeeding reading leave of the bookkeeping.\<close>

definition failed_view :: "string \<Rightarrow> string \<Rightarrow> 'w service_state \<Rightarrow> 'w service_state \<Rightarrow> bool" where
  "failed_view d d' s s' \<longleftrightarrow>
     (if d' = d \<and> \<not> js_has (sv_offlineSince s) d
      then reach_inv d (availability_log d s @ [True]) True (map_option (\<lambda>_. ''offline'') (status_of d s)) s'
      else reach_inv d (availability_log d s) (js_has (sv_offlineSince s) d) (status_of d s) s')"

definition read_view :: "string \<Rightarrow> string \<Rightarrow> 'w service_state \<Rightarrow> 'w service_state \<Rightarrow> bool" where
  "read_view d d' s s' \<longleftrightarrow>
     (if d' = d \<and> js_has (sv_offlineSince s) d
      then reach_inv d (availability_log d s @ [False]) False (map_option (\<lambda>_. ''online'') (status_of d s)) s'
      else reach_inv d (availability_log d s) (js_has (sv_offlineSince s) d) (status_of d s) s')"

lemma map_filter_snoc: "List.map_filter f (xs @ [x]) = List.map_filter f xs @ (case f x of Some y \<Rightarrow> [y] | None \<Rightarrow> [])"
  by (simp add: List.map_filter_def split: option.split)

definition set_status :: "string \<Rightarrow> string \<Rightarrow> string \<Rightarrow> string option \<Rightarrow> string option" where
  "set_status v d' d st = (if d' = d then map_option (\<lambda>_. v) st else st)"

lemma status_after:
  "map_option dr_status (db_devices (run_stmt t (Set_device_offline d') b) d) = set_status ''offline'' d' d (map_option dr_status (db_devices b d))"
  "map_option dr_status (db_devices (run_stmt t (Set_device_online d') b) d) = set_status ''online'' d' d (map_option dr_status (db_devices b d))"
  by (auto simp: set_status_def run_stmt_def option.map_comp comp_def)

lemmas reach_defs = reach_inv_def availability_log_def status_of_def

lemma log_failure_repeated:
  assumes "log_accepts env" "io_log env \<noteq> None"
  obtains "log_failure env d err False t s = (Inr (), s)"
  | w where "log_failure env d err False t s = (Inr (), s\<lparr>sv_lastReminderAt := js_set d t (sv_lastReminderAt s), sv_world := w,
               sv_log := sv_log s @ [read_failed_event Debug d err]\<rparr>)"
proof (cases "t - or_else (js_get (sv_lastReminderAt s) d) t \<ge> FAILURE_REMINDER_MS")
  case True
  obtain w where "log_event env (read_failed_event Debug d err) (s\<lparr>sv_lastReminderAt := js_set d t (sv_lastReminderAt s)\<rparr>) =
      (Inr (), s\<lparr>sv_lastReminderAt := js_set d t (sv_lastReminderAt s), sv_world := w, sv_log := sv_log s @ [read_failed_event Debug d err]\<rparr>)"
    using log_runs [OF assms(1), of "read_failed_event Debug d err" "s\<lparr>sv_lastReminderAt := js_set d t (sv_lastReminderAt s)\<rparr>"] by auto
  then show thesis using that(2) True assms(2) by (auto simp: log_failure_def)
qed (use that(1) assms(2) in \<open>simp add: log_failure_def\<close>)

lemma failed_step:
  assumes "log_accepts env" "sql_accepts env"
  shows "failed_view d d' s (snd (handleReadFailure env d' err s))"
proof -
  let ?t = "io_clock env (sv_world s)"
  let ?s = "s\<lparr>sv_offlineSince := js_set d' ?t (sv_offlineSince s)\<rparr>"
  obtain f where f: "io_log env = Some f" using assms(1) by (auto simp: log_accepts_def)
  then have lg: "io_log env \<noteq> None" by simp
  show ?thesis
  proof (cases "js_get (sv_offlineSince s) d' = None")
    case False
    then obtain y where off: "js_get (sv_offlineSince s) d' = Some y" by auto
    then have h: "snd (handleReadFailure env d' err s) = snd (log_failure env d' err False ?t ?s)"
      by (cases "log_failure env d' err False ?t ?s"; cases "fst (log_failure env d' err False ?t ?s)")
        (simp_all add: handleReadFailure_def Let_def bindC_result)
    show ?thesis
      by (rule log_failure_repeated [OF assms(1) lg, of d' err ?t ?s])
        (use off in \<open>simp_all add: h failed_view_def reach_defs js_has_def map_filter_snoc read_failed_event_def\<close>)
  next
    case True
    let ?s1 = "?s\<lparr>sv_lastReminderAt := js_set d' ?t (sv_lastReminderAt s)\<rparr>"
    let ?ev = "read_failed_event Level_error d' err"
    obtain w where w: "log_event env ?ev ?s1 = (Inr (), ?s1\<lparr>sv_world := w, sv_log := sv_log ?s1 @ [?ev]\<rparr>)"
      using log_runs [OF assms(1)] .
    obtain w2 where w2: "execute_sql env (Set_device_offline d') (?s1\<lparr>sv_world := w, sv_log := sv_log ?s1 @ [?ev]\<rparr>) =
        (Inr (), ?s1\<lparr>sv_world := w, sv_log := sv_log ?s1 @ [?ev], sv_world := w2, sv_db := run_stmt (io_clock env w) (Set_device_offline d') (sv_db s)\<rparr>)"
      using sql_runs [OF assms(2), of "Set_device_offline d'" "?s1\<lparr>sv_world := w, sv_log := sv_log ?s1 @ [?ev]\<rparr>"] by auto
    have h: "snd (handleReadFailure env d' err s) =
        ?s1\<lparr>sv_log := sv_log s @ [?ev], sv_world := w2, sv_db := run_stmt (io_clock env w) (Set_device_offline d') (sv_db s)\<rparr>"
      using True f w w2 by (simp add: handleReadFailure_def Let_def log_failure_def bindC_result)
    show ?thesis
      using True unfolding h failed_view_def reach_defs
      by (auto simp: js_has_def map_filter_snoc read_failed_event_def status_after set_status_def)
  qed
qed

lemma online_step:
  assumes "log_accepts env" "sql_accepts env"
  shows "fst (markOnline env d' s) = Inr () \<and> read_view d d' s (snd (markOnline env d' s))"
proof (cases "js_get (sv_offlineSince s) d' = None")
  case True
  then show ?thesis by (auto simp: markOnline_def read_view_def reach_inv_def js_has_def)
next
  case False
  then obtain y where off: "js_get (sv_offlineSince s) d' = Some y" by auto
  let ?s = "s\<lparr>sv_offlineSince := js_delete d' (sv_offlineSince s), sv_lastReminderAt := js_delete d' (sv_lastReminderAt s)\<rparr>"
  obtain w where w: "log_event env (online_event d') ?s = (Inr (), ?s\<lparr>sv_world := w, sv_log := sv_log ?s @ [online_event d']\<rparr>)"
    using log_runs [OF assms(1)] .
  obtain w2 where w2: "execute_sql env (Set_device_online d') (?s\<lparr>sv_world := w, sv_log := sv_log ?s @ [online_event d']\<rparr>) =
      (Inr (), ?s\<lparr>sv_world := w, sv_log := sv_log ?s @ [online_event d'], sv_world := w2, sv_db := run_stmt (io_clock env w) (Set_device_online d') (sv_db s)\<rparr>)"
    using sql_runs [OF assms(2), of "Set_device_online d'" "?s\<lparr>sv_world := w, sv_log := sv_log ?s @ [online_event d']\<rparr>"] by auto
  have h: "markOnline env d' s = (Inr (), ?s\<lparr>sv_log := sv_log s @ [online_event d'], sv_world := w2,
      sv_db := run_stmt (io_clock env w) (Set_device_online d') (sv_db s)\<rparr>)"
    using off w w2 by (simp add: markOnline_def bindC_result)
  show ?thesis
    using off unfolding h read_view_def reach_defs
    by (auto simp: js_has_def map_filter_snoc online_event_def status_after set_status_def)
qed

lemma reach_self: "reach_inv d (availability_log d s) (js_has (sv_offlineSince s) d) (status_of d s) s"
  by (simp add: reach_inv_def)

lemma view_transfer:
  assumes "reach_inv d (availability_log d s) (js_has (sv_offlineSince s) d) (status_of d s) s1"
  shows "failed_view d d' s1 s' = failed_view d d' s s'" "read_view d d' s1 s' = read_view d d' s s'"
  using assms by (simp_all add: failed_view_def read_view_def reach_inv_def)

lemma read_step:
  assumes "log_accepts env" "sql_accepts env"
  shows "failed_view d d' s (snd (readDevice env d' s)) \<or> read_view d d' s (snd (readDevice env d' s)) \<or>
    reach_inv d (availability_log d s) (js_has (sv_offlineSince s) d) (status_of d s) (snd (readDevice env d' s))"
proof (cases "js_get (sv_devices s) d'")
  case None
  have "keepsC (reach_inv d evs off st) (rejected_request env d')" for evs off st
    unfolding rejected_request_def by (intro keeps_attempt keeps_reach_log) simp
  from keepsCD [OF this reach_self] show ?thesis by (simp add: readDevice_def None)
next
  case (Some e)
  obtain r s1 where r: "on_device (dv_read (de_device e)) s = (r, s1)" by fastforce
  have s1: "reach_inv d (availability_log d s) (js_has (sv_offlineSince s) d) (status_of d s) s1"
    by (rule keepsC_result [OF reach.device reach_self r])
  show ?thesis
  proof (cases r)
    case (Inl err)
    have "snd (readDevice env d' s) = snd (handleReadFailure env d' err s1)"
      by (simp add: readDevice_def Some bindC_result r Inl)
    then show ?thesis using failed_step [OF assms, of d d' s1 err] view_transfer(1) [OF s1] by simp
  next
    case (Inr data)
    obtain s2 where p: "publish env d' data s1 = (Inr (), s2)" using fst_publish by (metis prod.collapse)
    have s2: "reach_inv d (availability_log d s) (js_has (sv_offlineSince s) d) (status_of d s) s2"
      by (rule keepsC_result [OF reach.publish s1 p])
    obtain s3 where m: "markOnline env d' s2 = (Inr (), s3)" "read_view d d' s2 s3"
      using online_step [OF assms, of d' s2 d] by (metis prod.collapse)
    obtain s4 where a: "evaluateAlarms env d' data s3 = (Inr (), s4)" using fst_evaluateAlarms by (metis prod.collapse)
    have "snd (readDevice env d' s) = snd (evaluateAlarms env d' data s3)"
      by (simp add: readDevice_def Some bindC_result r Inr p m(1) a)
    then have "reach_inv d evs off st s3 \<Longrightarrow> reach_inv d evs off st (snd (readDevice env d' s))" for evs off st
      using keepsCD [OF reach_alarms] by metis
    then have "read_view d d' s (snd (readDevice env d' s))"
      using m(2) unfolding view_transfer(2) [OF s2] by (auto simp: read_view_def split: if_splits)
    then show ?thesis by blast
  qed
qed

definition reads :: "'w service_env \<Rightarrow> string list \<Rightarrow> 'w service_state \<Rightarrow> 'w service_state" where
  "reads env ds s = fold (\<lambda>d s. snd (readDevice env d s)) ds s"

definition reported :: "string \<Rightarrow> 'w service_state \<Rightarrow> bool" where
  "reported d s \<longleftrightarrow>
     alternates True (availability_log d s) \<and> js_has (sv_offlineSince s) d = odd (length (availability_log d s)) \<and>
     status_of d s = Some (if js_has (sv_offlineSince s) d then ''offline'' else ''online'')"

lemma reported_step:
  assumes "log_accepts env" "sql_accepts env" "reported d s"
  shows "reported d (snd (readDevice env d' s))"
  using read_step [OF assms(1,2), of d d' s] assms(3)
  by (auto simp: reported_def failed_view_def read_view_def reach_inv_def alternates_snoc split: if_splits)


section \<open>A lost outage\<close>

lemma failed_repeats:
  assumes "js_get (sv_devices s) d = Some e" "\<forall>w. \<exists>err w'. dv_read (de_device e) w = (Inl err, w')"
    and "js_get (sv_offlineSince s) d = Some t"
  shows "\<exists>t'. js_get (sv_offlineSince (snd (readDevice env d s))) d = Some t' \<and> sv_db (snd (readDevice env d s)) = sv_db s \<and>
    sv_devices (snd (readDevice env d s)) = sv_devices s"
proof -
  obtain err w' where r: "dv_read (de_device e) (sv_world s) = (Inl err, w')" using assms(2) by blast
  have "keepsC (\<lambda>s'. (\<exists>t'. js_get (sv_offlineSince s') d = Some t') \<and> sv_db s' = sv_db s \<and> sv_devices s' = sv_devices s)
      (log_event env ev)" for ev
    by (rule keeps_log) simp_all
  from keepsCD [OF this] have l: "(\<exists>t'. js_get (sv_offlineSince (snd (log_failure env d err False t1 s1))) d = Some t') \<and>
      sv_db (snd (log_failure env d err False t1 s1)) = sv_db s \<and> sv_devices (snd (log_failure env d err False t1 s1)) = sv_devices s"
    if "\<exists>t'. js_get (sv_offlineSince s1) d = Some t'" "sv_db s1 = sv_db s" "sv_devices s1 = sv_devices s" for t1 s1
    using that by (simp add: log_failure_def)
  let ?s1 = "s\<lparr>sv_world := w'\<rparr>"
  let ?s2 = "?s1\<lparr>sv_offlineSince := js_set d (io_clock env w') (sv_offlineSince s)\<rparr>"
  have "snd (readDevice env d s) = snd (log_failure env d err False (io_clock env w') ?s2)"
    using assms(1,3) r
    by (cases "log_failure env d err False (io_clock env w') ?s2"; cases "fst (log_failure env d err False (io_clock env w') ?s2)")
      (simp_all add: readDevice_def on_device_def external_def bindC_result handleReadFailure_def Let_def)
  then show ?thesis using l [of ?s2 "io_clock env w'"] by simp
qed

text \<open>
  When the logger refuses the report of a device's first failure, the device's row is never set to
  \<open>offline\<close>, however many readings fail afterwards: the bookkeeping already counts the device as
  reported.
\<close>

theorem outage_lost:
  assumes "js_get (sv_devices s) d = Some e" "\<forall>w. \<exists>err w'. dv_read (de_device e) w = (Inl err, w')"
    and "js_get (sv_offlineSince s) d = None" "io_log env = Some f" "dv_read (de_device e) (sv_world s) = (Inl err, w)"
    and "fst (f (read_failed_event Level_error d err) w) = Inl refusal"
  shows "sv_db (reads env (replicate n d) s) = sv_db s"
proof (cases n)
  case (Suc m)
  note r = assms(5)
  obtain w2 where f: "f (read_failed_event Level_error d err) w = (Inl refusal, w2)" using assms(6) by (metis prod.collapse)
  let ?s1 = "snd (readDevice env d s)"
  have "sv_db ?s1 = sv_db s \<and> sv_devices ?s1 = sv_devices s \<and> (\<exists>t. js_get (sv_offlineSince ?s1) d = Some t)"
    using assms(1,3,4) r f
    by (simp add: readDevice_def on_device_def external_def bindC_result handleReadFailure_def Let_def log_failure_def log_event_def)
  moreover have "sv_devices s' = sv_devices s \<Longrightarrow> js_get (sv_offlineSince s') d = Some t \<Longrightarrow> sv_db s' = sv_db s \<Longrightarrow>
      sv_db (reads env (replicate m d) s') = sv_db s" for m s' t
  proof (induction m arbitrary: s' t)
    case (Suc m)
    from failed_repeats [OF _ assms(2) Suc.prems(2), of env] Suc.prems(1,3) assms(1) Suc.IH show ?case
      by (auto simp: reads_def)
  qed (simp add: reads_def)
  ultimately have "sv_db (reads env (replicate m d) ?s1) = sv_db s" by blast
  then show ?thesis by (simp add: Suc reads_def)
qed (simp add: reads_def)

section \<open>A concrete service\<close>

text \<open>One device \<open>B1\<close> over a clock as world: it reads one row, or it is not reachable.\<close>

definition demo_device :: "bool \<Rightarrow> int idevice" where
  "demo_device ok =
     \<lparr>dv_id = ''B1'', dv_connect = returnC (), dv_disconnect = returnC (),
      dv_read = (\<lambda>w. (if ok then Inr [sample_row ''fire'' (js_int 1)] else Inl ''timeout'', w + 1)),
      dv_write = (\<lambda>_. returnC ()), dv_writeAtomic = None\<rparr>"

definition demo_entry :: "bool \<Rightarrow> int device_entry" where
  "demo_entry ok =
     \<lparr>de_device = demo_device ok, de_pollIntervalMs = js_int 1000, de_name = ''Breaker'', de_manufacturer = None, de_model = None,
      de_protocol = ''MODBUS'', de_type = ''cb'', de_details = None, de_connection = [], de_alarms = Some [sample_alarm],
      de_writePolicy = Some [(''fire'', sample_policy)], de_heartbeat = None\<rparr>"

definition demo_env :: "bool \<Rightarrow> int service_env" where
  "demo_env logging =
     \<lparr>io_clock = id, io_now = (\<lambda>_. ''''), io_wait = (\<lambda>m w. w + 50),
      io_log = Some (\<lambda>ev. if logging then returnC () else throwC ''closed''), io_sql = Some (\<lambda>_. returnC ()),
      io_addJob = (\<lambda>_. returnC ()), io_repeat = (\<lambda>_ _ _. returnC ()), io_registerWorker = (\<lambda>_. returnC ()),
      io_closeQueue = returnC (), io_disconnectSql = returnC (), io_managementIntervalMs = None\<rparr>"

definition demo_row :: device_row where
  "demo_row = \<lparr>dr_info = entry_info (demo_entry True), dr_status = ''online'', dr_lastSeen = None, dr_createdAt = 0, dr_updatedAt = 0\<rparr>"

definition demo_service :: "bool \<Rightarrow> int service_state" where
  "demo_service ok = new_service [demo_entry ok] None None \<lparr>db_devices = (\<lambda>d. Some demo_row), db_alarms = Map.empty\<rparr> 0"

definition demo_job :: traced_job where
  "demo_job =
     \<lparr>j_jobId = ''1'', j_deviceId = ''B1'', j_timestamp = '''', j_telemetries = [sample_row ''close'' (js_int 1)], j_atomic = False,
      j_pulse = True, j_finalize = None,
      j_validate = Some \<lparr>jv_minWaitMs = None, jv_timeoutMs = js_int 1000, jv_reads = [\<lparr>v_name = ''fire'', v_expect = JNum (js_int 1), v_accept = None\<rparr>]\<rparr>,
      j_traceId = None\<rparr>"

lemma demo_devices: "sv_devices (demo_service ok) = [(''B1'', demo_entry ok)]"
  by (simp add: demo_service_def new_service_def demo_entry_def demo_device_def js_set_def)

lemma demo_fields [simp]:
  "sv_log (demo_service ok) = []" "sv_offlineSince (demo_service ok) = []" "sv_world (demo_service ok) = 0"
  "status_of ''B1'' (demo_service ok) = Some ''online''"
  by (simp_all add: demo_service_def new_service_def status_of_def demo_row_def)

lemma demo_accepts: "sql_accepts (demo_env b)" "queue_accepts (demo_env b)" "log_accepts (demo_env True)"
  by (simp_all add: sql_accepts_def queue_accepts_def log_accepts_def demo_env_def)

lemma demo_time: "time_passes (demo_env b) (demo_device ok)"
  by (simp add: time_passes_def demo_env_def demo_device_def)

lemma demo_started:
  obtains s1 where "service_start (demo_env True) (demo_service True) = (Inr (), s1)" "sv_running s1"
    "sv_devices s1 = [(''B1'', demo_entry True)]"
proof -
  have "fst (service_start (demo_env True) (demo_service True)) = Inr () \<and> sv_running (snd (service_start (demo_env True) (demo_service True))) \<and>
      sv_devices (snd (service_start (demo_env True) (demo_service True))) = [(''B1'', demo_entry True)]"
    by (simp add: service_start_def Let_def demo_devices start_devices_def demo_entry_def demo_device_def on_device_def external_def
        demo_env_def scheduleRead_def execute_sql_def scheduleManagement_def bindC_result reset_alarm_state_def reset_detectors_def
        start_heartbeats_def)
  then show thesis using that by (metis prod.collapse)
qed



lemma outage_lost_witness:
  "sv_db (reads (demo_env False) (replicate 3 ''B1'') (demo_service False)) = sv_db (demo_service False)"
  by (rule outage_lost [where e = "demo_entry False" and err = "''timeout''" and w = 1 and refusal = "''closed''" and f = "\<lambda>ev. throwC ''closed''"])
    (simp_all add: demo_devices demo_entry_def demo_device_def demo_env_def)


lemma demo_clock: "io_clock (demo_env b) w = w"
  by (simp add: demo_env_def)

lemma demo_read_back: "read_back (demo_env True) (demo_device True) \<lparr>jv_minWaitMs = None, jv_timeoutMs = js_int 1000, jv_reads = [\<lparr>v_name = ''fire'', v_expect = JNum (js_int 1), v_accept = None\<rparr>]\<rparr> w None w = Some (validated, w + 1)"
  by (subst read_back.simps)
    (simp add: read_back_turn_def demo_env_def demo_device_def read_matches_def sample_row_def expectHolds_def js_int_def js_num_eq_def)

lemma demo_command:
  obtains s' where "executeCommand (demo_env True) demo_job (demo_service True) = Some (Inr validated, s')"
proof -
  have v: "\<exists>s3. validate_step (demo_env True) (demo_device True) demo_job s2 = Some (validated, s3)" for s2
    by (simp add: validate_step_def demo_job_def validateReadBack_def Let_def demo_clock demo_read_back js_int_def [of 0])
  have "fst (on_device (write_command (demo_device True) demo_job) s) = Inr ()" for s
    by (simp add: on_device_def external_def write_command_def demo_device_def demo_job_def)
  then obtain s1 where w: "on_device (write_command (demo_device True) demo_job) (demo_service True) = (Inr (), s1)"
    by (metis prod.collapse)
  obtain s3 where s3: "validate_step (demo_env True) (demo_device True) demo_job
      (snd (read_after (demo_env True) (demo_device True) ''B1'' (snd (pulse_reset (demo_device True) demo_job s1)))) = Some (validated, s3)"
    using v by blast
  have "fst (finish_command (demo_env True) (demo_device True) demo_job validated s3) = Inr validated"
    by (simp add: finish_command_def logCommand_def log_event_def demo_env_def external_def bindC_result finalize_write_def demo_job_def)
  then obtain s' where "finish_command (demo_env True) (demo_device True) demo_job validated s3 = (Inr validated, s')"
    by (metis prod.collapse)
  moreover have "j_deviceId demo_job = ''B1''" "j_pulse demo_job" "de_device (demo_entry True) = demo_device True"
    by (simp_all add: demo_job_def demo_entry_def)
  ultimately show thesis
    using that w s3 by (simp add: executeCommand_def demo_devices written_command_def)
qed


lemma success_is_real_witness:
  "\<exists>s' e start. executeCommand (demo_env True) demo_job (demo_service True) = Some (Inr validated, s') \<and>
    js_get (sv_devices (demo_service True)) ''B1'' = Some e \<and> matched (demo_env True) (de_device e) (the (j_validate demo_job)) start"
proof -
  obtain s' where s': "executeCommand (demo_env True) demo_job (demo_service True) = Some (Inr validated, s')" by (rule demo_command)
  from success_is_real [OF s'] show ?thesis using s' by (fastforce simp: validated_def demo_job_def)
qed

lemma alarm_table_follows_witness:
  "\<exists>s1 s. service_start (demo_env True) (demo_service True) = (Inr (), s1) \<and> service_reachable (demo_env True) s1 s \<and>
    (active_row (db_alarms (sv_db s)) ''B1'' ''fire'' \<noteq> None) = (js_get (sv_detector s) (alarm_key ''B1'' ''fire'') = Some True)"
proof -
  obtain s1 where s1: "service_start (demo_env True) (demo_service True) = (Inr (), s1)" "sv_running s1" "sv_devices s1 = [(''B1'', demo_entry True)]"
    by (rule demo_started)
  let ?s = "snd (readDevice (demo_env True) ''B1'' s1)"
  have r: "service_reachable (demo_env True) s1 ?s"
    by (rule service_reachable.step [OF service_reachable.here service_step.read [OF s1(2) prod.collapse [symmetric]]])
  have "(active_row (db_alarms (sv_db ?s)) ''B1'' ''fire'' \<noteq> None) = (js_get (sv_detector ?s) (alarm_key ''B1'' ''fire'') = Some True)"
    by (rule alarm_table_follows [OF demo_accepts(1) _ _ s1(1) r])
      (simp_all add: demo_devices no_colon_def own_devices_def demo_entry_def demo_device_def)
  with s1(1) r show ?thesis by (intro exI conjI)
qed

lemma filter_keeps_deadband_witness:
  "\<exists>w. written (sv_filter (snd (publish (demo_env True) ''B1'' [sample_row ''fire'' (js_int 40)] (demo_service True)))) ''B1'' ''fire'' = Some w"
proof -
  let ?r = "publish (demo_env True) ''B1'' [sample_row ''fire'' (js_int 40)] (demo_service True)"
  have "\<exists>w. written (sv_filter (snd ?r)) ''B1'' (t_name (sample_row ''fire'' (js_int 40))) = Some w \<and>
      (w = \<lparr>ws_value = js_int 40, ws_at = io_clock (demo_env True) (sv_world (snd ?r))\<rparr> \<or>
       close_enough (io_clock (demo_env True) (sv_world (demo_service True))) sample_policy (js_int 40) w)"
    by (rule filter_keeps_deadband [where e = "demo_entry True" and policies = "[(''fire'', sample_policy)]", OF demo_accepts(2) _ _ _ _ _ _ prod.collapse [symmetric]])
      (simp_all add: sample_row_def numericValue_def demo_devices demo_entry_def)
  then show ?thesis by (auto simp: sample_row_def)
qed

end
