(* ===== verification/Command_Bus.thy ===== *)
theory Command_Bus
  imports Action_Executor Operation_Executor Service_Runs
begin

text \<open>
  The command bus: \<open>CommandChannel\<close> (services/web-service), which the operation executor calls, and the path
  of a command from a rule or a maneuver step through the queue to the worker of the device service.
\<close>

section \<open>The command channel\<close>

record 'w command_channel =
  cc_source :: "string \<Rightarrow> device_config_file option"
  cc_now :: "'w \<Rightarrow> int"
  cc_stamp :: "'w \<Rightarrow> string"
  cc_bufferMs :: jsnum
  cc_send :: "command_job \<Rightarrow> jsnum \<Rightarrow> ('w, string, queue_result) comp"
  cc_add :: "command_job \<Rightarrow> jsnum \<Rightarrow> ('w, string, unit) comp"

text \<open>The job of a step without a command: its telemetries as they are.\<close>

definition raw_job :: "resolved_step \<Rightarrow> int \<Rightarrow> string \<Rightarrow> command_job" where
  "raw_job st now stamp =
     \<lparr>j_jobId = r_deviceId st @ ''-raw-'' @ show_int now, j_deviceId = r_deviceId st, j_timestamp = stamp,
      j_telemetries = map (\<lambda>t. \<lparr>t_name = ct_name t, t_description = '''', t_value = ct_value t, t_unit = or_else (ct_unit t) '''',
        t_timestamp = stamp, t_deviceId = r_deviceId st, t_tags = None\<rparr>) (or_else (r_telemetries st) []),
      j_atomic = True, j_pulse = False, j_finalize = None, j_validate = None\<rparr>"

definition step_job :: "'w command_channel \<Rightarrow> resolved_step \<Rightarrow> 'w \<Rightarrow> resolution_error + command_job" where
  "step_job cc st w =
     (case r_command st of
        Some c \<Rightarrow> build_job (cc_source cc) (cc_now cc w) (cc_stamp cc w) (r_deviceId st) c (r_params st)
      | None \<Rightarrow> Inr (raw_job st (cc_now cc w) (cc_stamp cc w)))"

definition channel_execute :: "'w command_channel \<Rightarrow> resolved_step \<Rightarrow> ('w, string, bool \<times> string option) comp" where
  "channel_execute cc st w =
     (case step_job cc st w of
        Inl e \<Rightarrow> (Inr (False, Some (resolution_code e)), w)
      | Inr job \<Rightarrow>
          (case cc_send cc job (command_wait (cc_bufferMs cc) job) w of
             (Inl e, w1) \<Rightarrow> (Inr (False, Some e), w1)
           | (Inr r, w1) \<Rightarrow> (Inr (qr_success r, qr_reason r), w1)))"

definition channel_schedule :: "'w command_channel \<Rightarrow> resolved_step \<Rightarrow> jsnum \<Rightarrow> ('w, string, unit) comp" where
  "channel_schedule cc st delayMs w =
     (case r_command st of
        None \<Rightarrow> (Inl ''Error: [CommandChannel] schedule: command zorunlu'', w)
      | Some c \<Rightarrow>
          (case build_job (cc_source cc) (cc_now cc w) (cc_stamp cc w) (r_deviceId st) c (r_params st) of
             Inl e \<Rightarrow> (Inl (''Error: [CommandChannel] schedule cozumleme hatasi: '' @ resolution_code e), w)
           | Inr job \<Rightarrow> cc_add cc job delayMs w))"

section \<open>The queue as a bus\<close>

definition as_queued :: "command_job \<Rightarrow> traced_job queued_job" where
  "as_queued job =
     \<lparr>qj_jobId = j_jobId job, qj_type = COMMAND_DEVICE, qj_deviceId = j_deviceId job, qj_priority = None,
      qj_body = command_job.extend job (traced_job.fields None)\<rparr>"

definition queue_send :: "('w, traced_job, queue_result) bull \<Rightarrow> command_job \<Rightarrow> jsnum \<Rightarrow> ('w, queue_result) qcomp" where
  "queue_send bull job timeoutMs = mq_executeAndWait bull (as_queued job) timeoutMs"

definition queue_add :: "('w, traced_job, queue_result) bull \<Rightarrow> command_job \<Rightarrow> jsnum \<Rightarrow> ('w, unit) qcomp" where
  "queue_add bull job delayMs = mq_addJob bull (as_queued job) (Some delayMs)"

text \<open>The worker of the device service: a stopped service takes the job and returns nothing.\<close>

definition as_queue_result :: "command_result \<Rightarrow> queue_result" where
  "as_queue_result r = \<lparr>qr_success = cr_success r, qr_validated = cr_validated r, qr_reason = cr_reason r\<rparr>"

definition command_worker :: "'v service_env \<Rightarrow> traced_job \<Rightarrow> 'v service_state \<Rightarrow> ((string + queue_result option) \<times> 'v service_state) option" where
  "command_worker env job s =
     (if \<not> sv_running s then Some (Inr None, s)
      else map_option (\<lambda>(r, s'). (map_sum id (\<lambda>c. Some (as_queue_result c)) r, s')) (executeCommand env job s))"

end
