(* ===== verification/Bus_Facts.thy ===== *)
theory Bus_Facts
  imports Command_Bus
begin

text \<open>
  What the path of a command guarantees: a locale for any bus whose successes are real, its lemmas for the two
  clients, and the queue with the device service behind it as its instance; the course of a fired rule; and
  the two places where a reported success is none.
\<close>

section \<open>A bus without false successes\<close>

locale command_bus =
  fixes send :: "command_job \<Rightarrow> jsnum \<Rightarrow> ('w, string, queue_result) comp"
    and sound :: "'w \<Rightarrow> command_job \<Rightarrow> bool"
    and delivered :: "command_job \<Rightarrow> bool"
  assumes no_false_success: "sound w job \<Longrightarrow> send job t w = (Inr r, w') \<Longrightarrow> qr_success r \<Longrightarrow> delivered job"
begin

lemma step_delivered:
  assumes "cc_send cc = send" "channel_execute cc st w = (Inr (True, reason), w')"
    and "\<And>job. step_job cc st w = Inr job \<Longrightarrow> sound w job"
  shows "\<exists>job. step_job cc st w = Inr job \<and> delivered job"
proof (cases "step_job cc st w")
  case (Inr job)
  then show ?thesis using assms no_false_success
    by (auto simp: channel_execute_def split: prod.splits sum.splits)
qed (use assms(2) in \<open>simp add: channel_execute_def\<close>)

lemma action_delivered:
  assumes "ax_send env = send" "runCommand env rule d c ps w = (Inr out, w')" "ao_ok out"
    and "\<And>job. build_job (ax_source env) (ax_now env w) (ax_stamp env w) d c ps = Inr job \<Longrightarrow> sound w job"
  shows "\<exists>job. build_job (ax_source env) (ax_now env w) (ax_stamp env w) d c ps = Inr job \<and> delivered job"
proof (cases "build_job (ax_source env) (ax_now env w) (ax_stamp env w) d c ps")
  case (Inr job)
  then obtain r w1 where "send job (command_wait (ax_bufferMs env) job) w = (Inr r, w1)" "qr_success r"
    using assms(1-3) by (auto simp: runCommand_def Let_def action_failed_def split: prod.splits sum.splits if_splits)
  then show ?thesis using Inr assms(4) no_false_success by blast
qed (use assms(2,3) in \<open>auto simp: runCommand_def Let_def action_failed_def\<close>)

end

section \<open>The queue with the device service behind it\<close>

text \<open>
  What the queue library does with a new job: it is handed to the worker in one of the states \<open>S\<close> of the
  service, and the worker's result is the answer. A job id the library knows already is not queued again.
\<close>

definition serves :: "'v service_env \<Rightarrow> 'v service_state set \<Rightarrow> ('w, traced_job, queue_result) bull \<Rightarrow> ('w \<Rightarrow> string \<Rightarrow> bool) \<Rightarrow> bool" where
  "serves env S bull known \<longleftrightarrow>
     (\<forall>n opts w i. known (bu_open bull n opts w) i \<longrightarrow> known w i) \<and>
     (\<forall>q n job opts w h w1 t r w2.
        \<not> known w (qj_jobId job) \<and> op_jobId opts = Some (qj_jobId job) \<and>
        bu_add bull q n job opts w = (Inr h, w1) \<and> bu_wait bull q h t w1 = (Inr r, w2) \<longrightarrow>
        (\<exists>s\<in>S. \<exists>s'. command_worker env (qj_body job) s = Some (Inr r, s')))"

definition fresh_job :: "('w \<Rightarrow> string \<Rightarrow> bool) \<Rightarrow> 'w mq \<Rightarrow> command_job \<Rightarrow> bool" where
  "fresh_job known s job \<longleftrightarrow> j_jobId job \<noteq> [] \<and> \<not> known (mq_world s) (j_jobId job)"

definition done_in :: "'v service_env \<Rightarrow> 'v service_state set \<Rightarrow> command_job \<Rightarrow> bool" where
  "done_in env S job \<longleftrightarrow> (\<exists>s\<in>S. command_done env (qj_body (as_queued job)) s)"

lemma worker_success:
  assumes "command_worker env job s = Some (Inr r, s')" "sv_running s"
  shows "\<exists>c. r = Some (as_queue_result c) \<and> (cr_success c \<longrightarrow> command_done env job s)"
proof -
  obtain x where x: "executeCommand env job s = Some (x, s')" "Inr r = map_sum id (\<lambda>c. Some (as_queue_result c)) x"
    using assms by (auto simp: command_worker_def)
  then obtain c where "x = Inr c" "r = Some (as_queue_result c)" by (cases x) auto
  with x command_success [of env job s c s'] show ?thesis by blast
qed

lemma queueFor_known:
  assumes "serves env S bull known" "queueFor bull t s = (name, s1)" "\<not> known (mq_world s) i"
  shows "\<not> known (mq_world s1) i"
  using assms by (auto simp: serves_def queueFor_def openQueue_def split: option.splits if_splits)

lemma queue_send_success:
  assumes "serves env S bull known" "\<And>s. s \<in> S \<Longrightarrow> sv_running s" "fresh_job known s job"
    and "queue_send bull job t s = (Inr r, s')" "qr_success r"
  shows "done_in env S job"
proof -
  let ?q = "as_queued job"
  let ?opts = "no_opts\<lparr>op_jobId := some_id (qj_jobId ?q), op_priority := Some (or_else (qj_priority ?q) (js_int 10))\<rparr>"
  obtain name s1 where q: "queueFor bull COMMAND_DEVICE s = (name, s1)" by fastforce
  have known: "\<not> known (mq_world s1) (qj_jobId ?q)" and i: "op_jobId ?opts = Some (qj_jobId ?q)"
    using queueFor_known [OF assms(1) q] assms(3) by (auto simp: fresh_job_def as_queued_def some_id_def)
  obtain h w1 where add: "bu_add bull name ''COMMAND_DEVICE'' ?q ?opts (mq_world s1) = (Inr h, w1)"
    using assms(4) q by (auto simp: queue_send_def mq_executeAndWait_def as_queued_def on_bull_def split: prod.splits sum.splits)
  obtain a w2 where wait: "bu_wait bull name h t w1 = (a, w2)" by fastforce
  have "\<exists>x. a = Inr x \<and> (x = None \<or> x = Some r)"
    using assms(4,5) q add wait
    by (cases a) (auto simp: queue_send_def mq_executeAndWait_def as_queued_def on_bull_def split: option.splits)
  then obtain x where a: "a = Inr x" "x = None \<or> x = Some r" by blast
  obtain s0 s0' where s0: "s0 \<in> S" "command_worker env (qj_body ?q) s0 = Some (Inr x, s0')"
    using assms(1) known i add wait a(1) unfolding serves_def by blast
  obtain c where "x = Some (as_queue_result c)" "cr_success c \<longrightarrow> command_done env (qj_body ?q) s0"
    using worker_success [OF s0(2) assms(2) [OF s0(1)]] by blast
  then show ?thesis using a(2) assms(5) s0(1) by (auto simp: done_in_def as_queue_result_def)
qed

interpretation bus: command_bus "queue_send bull"
  "\<lambda>s job. serves env S bull known \<and> (\<forall>s\<in>S. sv_running s) \<and> fresh_job known s job" "done_in env S"
  for bull :: "('w, traced_job, queue_result) bull" and env :: "'v service_env" and S and known
  by unfold_locales (use queue_send_success in blast)


section \<open>Reported successes that are none\<close>

text \<open>
  The worker of a service that is not running takes a command and returns nothing, and the queue turns a
  job without a result into a success: the step reports success although the service did nothing.
\<close>

theorem stopped_service_reports_success:
  assumes "cc_send cc = queue_send bull" "step_job cc st q = Inr job"
    and "\<not> sv_running s" "command_worker senv (qj_body (as_queued job)) s = Some (Inr r, s')"
    and "\<And>n job opts w. fst (bu_add bull n ''COMMAND_DEVICE'' job opts w) = Inr h"
    and "\<And>n t w. fst (bu_wait bull n h t w) = Inr r"
  shows "fst (channel_execute cc st q) = Inr (True, None) \<and> s' = s"
proof -
  have r: "r = None" "s' = s" using assms(3,4) by (auto simp: command_worker_def)
  define added where "added n jb opts w = snd (bu_add bull n ''COMMAND_DEVICE'' jb opts w)" for n jb opts w
  define waited where "waited n t w = snd (bu_wait bull n h t w)" for n t w
  have add: "bu_add bull n ''COMMAND_DEVICE'' jb opts w = (Inr h, added n jb opts w)" for n jb opts w
    by (rule prod_eqI) (simp_all add: assms(5) added_def)
  have wait: "bu_wait bull n h t w = (Inr None, waited n t w)" for n t w
    by (rule prod_eqI) (simp_all add: assms(6) r(1) waited_def)
  have "fst (queue_send bull job t q) = Inr \<lparr>qr_success = True, qr_validated = None, qr_reason = None\<rparr>" for t
    by (simp add: queue_send_def mq_executeAndWait_def as_queued_def on_bull_def add wait split: prod.split)
  then obtain q1 where "queue_send bull job (command_wait (cc_bufferMs cc) job) q = (Inr \<lparr>qr_success = True, qr_validated = None, qr_reason = None\<rparr>, q1)"
    by (cases "queue_send bull job (command_wait (cc_bufferMs cc) job) q") (metis fst_conv)
  then have "fst (channel_execute cc st q) = Inr (True, None)"
    by (simp add: channel_execute_def assms(1,2))
  with r(2) show ?thesis by simp
qed

text \<open>
  Two steps without a command for one device in one millisecond share a job id: where the library ignores
  a job whose id it knows, the second step queues nothing and reports the outcome of the first one's write.
\<close>

theorem raw_steps_collide:
  assumes "r_deviceId st1 = r_deviceId st2" "j1 = raw_job st1 now stamp1" "j2 = raw_job st2 now stamp2"
    and "queueFor bull COMMAND_DEVICE q = (n, q)"
    and "\<And>job opts w'. op_jobId opts = Some (j_jobId j1) \<Longrightarrow> bu_add bull n ''COMMAND_DEVICE'' job opts (mq_world q) = (Inr h, mq_world q)"
    and "bu_wait bull n h t (mq_world q) = (Inr (Some r), w2)"
  shows "queue_send bull j2 t q = (Inr r, q\<lparr>mq_world := w2\<rparr>)"
proof -
  have i: "j_jobId j2 = j_jobId j1" "j_jobId j1 \<noteq> []" using assms(1-3) by (simp_all add: raw_job_def)
  show ?thesis
    using i(2) assms(4,6)
    by (simp add: queue_send_def mq_executeAndWait_def as_queued_def some_id_def i(1) on_bull_def assms(5))
qed

section \<open>A fired rule\<close>

definition delegates :: "rule_action \<Rightarrow> bool" where
  "delegates a \<longleftrightarrow> (case a of Container_command_action k d c ps \<Rightarrow> True | Maneuver_action n ps \<Rightarrow> True | Operation_action n ps \<Rightarrow> True | _ \<Rightarrow> False)"

lemma logged_outcomes:
  "action_done env a ctx w = (Inr \<lparr>ao_action = a, ao_ok = True, ao_reason = None\<rparr>, logAction env True ctx w)"
  "action_failed env a ctx reason w = (Inr \<lparr>ao_action = a, ao_ok = False, ao_reason = Some reason\<rparr>, logAction env False (ctx @ [(''reason'', JStr reason)]) w)"
  by (simp_all add: action_done_def action_failed_def)

lemma runCommand_result: "runCommand env rule d c ps w = (r, w') \<Longrightarrow> \<exists>out. r = Inr out \<and> ao_action out = Command_action d c ps"
  by (auto simp: runCommand_def Let_def logged_outcomes split: sum.splits prod.splits if_splits)

lemma runLog_result: "runLog env rule l c m w = (r, w') \<Longrightarrow> \<exists>out. r = Inr out \<and> ao_action out = Log_action l c m"
  by (auto simp: runLog_def Let_def split: sum.splits prod.splits option.splits)

lemma runNotify_result: "runNotify env rule w = (r, w') \<Longrightarrow> \<exists>out. r = Inr out \<and> ao_action out = Notify_action"
  by (auto simp: runNotify_def logged_outcomes split: sum.splits prod.splits option.splits)

lemma runContainerCommand_result:
  "runContainerCommand env rule k d c ps w = (Inr out, w') \<Longrightarrow> ao_action out = Container_command_action k d c ps"
  by (auto simp: runContainerCommand_def Let_def logged_outcomes split: sum.splits prod.splits option.splits if_splits)

lemma runManeuverOperation_result:
  "runManeuverOperation env rule kind n ps w = (Inr out, w') \<Longrightarrow>
   ao_action out = (case kind of Maneuver \<Rightarrow> Maneuver_action n ps | Operation \<Rightarrow> Operation_action n ps)"
  by (auto simp: runManeuverOperation_def Let_def logged_outcomes split: sum.splits prod.splits option.splits if_splits)

lemma runAction_result:
  assumes "runAction env rule a w = (r, w')"
  shows "case r of Inr out \<Rightarrow> ao_action out = a | Inl e \<Rightarrow> delegates a"
  using assms
  by (cases a; cases r)
    (auto simp: runAction_def delegates_def
      dest: runCommand_result runLog_result runNotify_result runContainerCommand_result runManeuverOperation_result)

lemma seqC_cut:
  "seqC f xs s = (Inl e, s') \<Longrightarrow> \<exists>pre x post ys s1. xs = pre @ x # post \<and> seqC f pre s = (Inr ys, s1) \<and> f x s1 = (Inl e, s')"
proof (induction xs arbitrary: s)
  case (Cons x xs)
  obtain r s1 where r: "f x s = (r, s1)" by fastforce
  show ?case
  proof (cases r)
    case (Inl e')
    then show ?thesis using Cons.prems r by (intro exI [of _ "[]"]) auto
  next
    case (Inr y)
    then have "seqC f xs s1 = (Inl e, s')" using Cons.prems r by (auto split: prod.splits sum.splits)
    from Cons.IH [OF this] obtain pre z post ys s2 where
      "xs = pre @ z # post" "seqC f pre s1 = (Inr ys, s2)" "f z s2 = (Inl e, s')" by blast
    then show ?thesis using r Inr
      by (intro exI [of _ "x # pre"] exI [of _ z] exI [of _ post] exI [of _ "y # ys"] exI [of _ s2]) simp
  qed
qed simp

lemma seqC_outcomes:
  assumes "\<And>x s y s'. f x s = (Inr y, s') \<Longrightarrow> g y = x" "seqC f xs s = (Inr ys, s')"
  shows "map g ys = xs"
  using assms(2) by (induction xs arbitrary: s ys) (auto dest: assms(1) split: prod.splits sum.splits)

text \<open>
  A fired rule runs its actions in order, one outcome for each, whatever fails; the one way to lose
  actions is a delegating action whose channel rejects, and then the rule is rejected with everything behind it.
\<close>

theorem rule_runs_in_order:
  "case execute_rule env rule w of
     (Inr results, w') \<Rightarrow> map ao_action results = ar_then rule
   | (Inl e, w') \<Rightarrow> \<exists>pre a post results w1. ar_then rule = pre @ a # post \<and> delegates a \<and>
       seqC (runAction env rule) pre (logFire env rule w) = (Inr results, w1) \<and> runAction env rule a w1 = (Inl e, w')"
proof -
  obtain r w' where r: "execute_rule env rule w = (r, w')" by fastforce
  show ?thesis
  proof (cases r)
    case (Inl e)
    then show ?thesis using seqC_cut [of "runAction env rule" "ar_then rule" "logFire env rule w" e w'] r runAction_result
      by (fastforce simp: execute_rule_def)
  next
    case (Inr results)
    have "map ao_action results = ar_then rule"
      by (rule seqC_outcomes [of "runAction env rule"]) (use r Inr runAction_result in \<open>fastforce simp: execute_rule_def\<close>)+
    then show ?thesis using r Inr by simp
  qed
qed

section \<open>Instances\<close>

text \<open>A queue that hands every new job to the worker of a device service in the state \<open>s0\<close>.\<close>

definition demo_bull :: "int service_state \<Rightarrow> ((string \<times> traced_job) list, traced_job, queue_result) bull" where
  "demo_bull s0 =
     \<lparr>bu_open = (\<lambda>n opts w. w),
      bu_add = (\<lambda>q n job opts w. (Inr (or_else (op_jobId opts) []),
          if js_has w (or_else (op_jobId opts) []) then w else w @ [(or_else (op_jobId opts) [], qj_body job)])),
      bu_wait = (\<lambda>q h t w. (case js_get w h of
          None \<Rightarrow> Inl ''unknown''
        | Some job \<Rightarrow> (case command_worker (demo_env True) job s0 of Some (r, s') \<Rightarrow> r | None \<Rightarrow> Inl ''timeout''), w)),
      bu_worker = (\<lambda>q opts w. w), bu_count = (\<lambda>q k. returnC 0), bu_jobCounts = (\<lambda>q. returnC True), bu_ping = returnC True,
      bu_closeWorker = (\<lambda>q. returnC ()), bu_closeQueue = (\<lambda>q. returnC ())\<rparr>"

definition demo_running :: "int service_state" where
  "demo_running = (demo_service True)\<lparr>sv_running := True\<rparr>"

definition close_command :: command_config where
  "close_command = \<lparr>c_telemetries = [\<lparr>ct_name = ''close'', ct_value = JNum (js_int 1), ct_unit = None\<rparr>], c_params = None, c_atomic = Some False,
     c_timeoutMs = None, c_validate = None, c_finalize = None, c_pulse = None\<rparr>"

definition demo_actions :: "((string \<times> traced_job) list mq) action_env" where
  "demo_actions = \<lparr>ax_source = (\<lambda>d. Some \<lparr>d_deviceId = ''B1'', d_commands = Some [(''close'', close_command)]\<rparr>), ax_now = (\<lambda>w. 0), ax_stamp = (\<lambda>w. ''''),
     ax_send = queue_send (demo_bull demo_running), ax_bufferMs = DEFAULT_COMMAND_TIMEOUT_BUFFER_MS, ax_log = None,
     ax_container = None, ax_operations = None\<rparr>"

lemma demo_worker:
  assumes "j_deviceId j = ''B1''" "\<not> j_pulse j" "j_finalize j = None" "j_validate j = None"
  shows "\<exists>s'. command_worker (demo_env True) j demo_running = Some (Inr (Some (as_queue_result plain_success)), s')"
proof -
  let ?d = "demo_device True" and ?env = "demo_env True"
  have "fst (on_device (write_command ?d j) demo_running) = Inr ()"
    by (simp add: on_device_def external_def write_command_def demo_device_def split: bool.split)
  then obtain s1 where w: "on_device (write_command ?d j) demo_running = (Inr (), s1)" by (metis prod.collapse)
  have "fst (finish_command ?env ?d j plain_success s) = Inr plain_success" for s
    using assms(3) by (simp add: finish_command_def logCommand_def log_event_def demo_env_def external_def bindC_result finalize_write_def plain_success_def)
  then obtain s' where f: "finish_command ?env ?d j plain_success (snd (read_after ?env ?d ''B1'' s1)) = (Inr plain_success, s')"
    by (metis prod.collapse)
  have d: "sv_devices demo_running = [(''B1'', demo_entry True)]" "sv_running demo_running" "de_device (demo_entry True) = ?d"
    by (simp_all add: demo_running_def demo_devices demo_entry_def)
  have "executeCommand ?env j demo_running = Some (Inr plain_success, s')"
    using w f assms by (simp add: executeCommand_def d written_command_def validate_step_def)
  then show ?thesis using d(2) by (simp add: command_worker_def)
qed

lemma demo_bull_serves: "serves (demo_env True) {demo_running} (demo_bull demo_running) js_has"
  unfolding serves_def
proof (intro conjI allI impI)
  fix q n job opts w h w1 t r w2
  assume a: "\<not> js_has w (qj_jobId job) \<and> op_jobId opts = Some (qj_jobId job) \<and> bu_add (demo_bull demo_running) q n job opts w = (Inr h, w1) \<and>
      bu_wait (demo_bull demo_running) q h t w1 = (Inr r, w2)"
  then have "js_get w1 h = Some (qj_body job)"
    by (auto simp: demo_bull_def js_has_def map_add_def)
  then show "\<exists>s\<in>{demo_running}. \<exists>s'. command_worker (demo_env True) (qj_body job) s = Some (Inr r, s')"
    using a by (auto simp: demo_bull_def split: option.splits prod.splits)
qed (simp add: demo_bull_def)

definition close_job :: command_job where
  "close_job = \<lparr>j_jobId = ''B1-close-'' @ show_int 0, j_deviceId = ''B1'', j_timestamp = '''',
     j_telemetries = [\<lparr>t_name = ''close'', t_description = '''', t_value = JNum (js_int 1), t_unit = '''', t_timestamp = '''', t_deviceId = ''B1'', t_tags = None\<rparr>],
     j_atomic = False, j_pulse = False, j_finalize = None, j_validate = None\<rparr>"

lemma close_job_built: "build_job (ax_source demo_actions) n '''' ''B1'' ''close'' None = Inr (close_job\<lparr>j_jobId := ''B1-close-'' @ show_int n\<rparr>)"
  by (simp add: build_job_def demo_actions_def close_command_def missing_param_def resolveTelemetries_def resolve_value_def close_job_def)

lemma close_job_sent:
  "\<exists>q. queue_send (demo_bull demo_running) close_job t (new_queue [] [] []) = (Inr (as_queue_result plain_success), q)"
proof -
  have "\<exists>s'. command_worker (demo_env True) (qj_body (as_queued close_job)) demo_running = Some (Inr (Some (as_queue_result plain_success)), s')"
    by (rule demo_worker) (simp_all add: as_queued_def close_job_def command_job.defs traced_job.defs)
  then show ?thesis
    by (auto simp: queue_send_def mq_executeAndWait_def as_queued_def queueFor_def new_queue_def openQueue_def resolveOverrides_def
        on_bull_def demo_bull_def some_id_def close_job_def js_has_def)
qed


definition raw_step :: "jsnum \<Rightarrow> resolved_step" where
  "raw_step v = \<lparr>r_deviceId = ''B1'', r_command = None, r_telemetries = Some [\<lparr>ct_name = ''setpoint'', ct_value = JNum v, ct_unit = None\<rparr>],
     r_params = None, r_timer = None\<rparr>"

definition first_raw :: traced_job where
  "first_raw = qj_body (as_queued (raw_job (raw_step (js_int 1)) 7 []))"

definition one_queued :: "(string \<times> traced_job) list mq" where
  "one_queued = (new_queue [] [] [(j_jobId first_raw, first_raw)])
     \<lparr>mq_queues := [''queue_command_device''], mq_opened := [(COMMAND_DEVICE, ''queue_command_device'')]\<rparr>"

lemma raw_steps_collide_witness:
  "queue_send (demo_bull demo_running) (raw_job (raw_step (js_int 2)) 7 []) (js_int 5000) one_queued = (Inr (as_queue_result plain_success), one_queued)"
proof -
  have "\<exists>s'. command_worker (demo_env True) first_raw demo_running = Some (Inr (Some (as_queue_result plain_success)), s')"
    by (rule demo_worker) (simp_all add: first_raw_def as_queued_def raw_job_def raw_step_def command_job.defs traced_job.defs)
  then have wait: "bu_wait (demo_bull demo_running) ''queue_command_device'' (j_jobId first_raw) (js_int 5000) (mq_world one_queued) =
      (Inr (Some (as_queue_result plain_success)), mq_world one_queued)"
    by (auto simp: demo_bull_def one_queued_def new_queue_def)
  have i: "j_jobId (raw_job (raw_step (js_int 1)) 7 []) = j_jobId first_raw"
    by (simp add: first_raw_def as_queued_def command_job.defs)
  have "queue_send (demo_bull demo_running) (raw_job (raw_step (js_int 2)) 7 []) (js_int 5000) one_queued =
      (Inr (as_queue_result plain_success), one_queued\<lparr>mq_world := mq_world one_queued\<rparr>)"
    by (rule raw_steps_collide [OF _ refl refl _ _ wait, of "raw_step (js_int 1)" _ 7 "[]"])
      (simp_all only: i, simp_all add: raw_step_def queueFor_def one_queued_def new_queue_def demo_bull_def js_has_def)
  then show ?thesis by simp
qed

definition idle_bull :: "(nat, traced_job, queue_result) bull" where
  "idle_bull =
     \<lparr>bu_open = (\<lambda>n opts w. w), bu_add = (\<lambda>q n job opts w. (Inr ''1'', w + 1)), bu_wait = (\<lambda>q h t w. (Inr None, w)),
      bu_worker = (\<lambda>q opts w. w), bu_count = (\<lambda>q k. returnC 0), bu_jobCounts = (\<lambda>q. returnC True), bu_ping = returnC True,
      bu_closeWorker = (\<lambda>q. returnC ()), bu_closeQueue = (\<lambda>q. returnC ())\<rparr>"

definition idle_channel :: "nat mq command_channel" where
  "idle_channel = \<lparr>cc_source = (\<lambda>d. None), cc_now = (\<lambda>w. 7), cc_stamp = (\<lambda>w. []), cc_bufferMs = js_int 2000,
     cc_send = queue_send idle_bull, cc_add = queue_add idle_bull\<rparr>"

lemma stopped_service_reports_success_witness:
  "fst (channel_execute idle_channel (raw_step (js_int 1)) (new_queue [] [] 0)) = Inr (True, None)"
proof -
  have "fst (channel_execute idle_channel (raw_step (js_int 1)) (new_queue [] [] 0)) = Inr (True, None) \<and> demo_service True = demo_service True"
    by (rule stopped_service_reports_success [where s = "demo_service True" and senv = "demo_env True" and r = None and h = "''1''" and bull = idle_bull
          and job = "raw_job (raw_step (js_int 1)) 7 []"])
      (simp_all add: idle_channel_def step_job_def raw_step_def command_worker_def idle_bull_def demo_service_def new_service_def)
  then show ?thesis by simp
qed

end
