(* ===== verification/Tunnel_Codec.thy ===== *)
theory Tunnel_Codec
  imports Js_Buffer
begin

text \<open>
  The binary frame codec of packages/ws-tunnel (codec/types.ts, codec/frame-codec.ts): nine header
  bytes and the payload. Encoding throws on a malformed frame, decoding never throws. The numeric fields
  of a frame are Numbers; the bitwise operators act on their 32-bit conversion.
\<close>

unbundle bit_operations_syntax

section \<open>Frames\<close>

definition FRAME_HEADER_SIZE :: nat where "FRAME_HEADER_SIZE = 9"
definition MAX_FRAME_PAYLOAD :: nat where "MAX_FRAME_PAYLOAD = 1024 * 1024"
definition FLAG_WS_OP :: int where "FLAG_WS_OP = 4"

record tunnel_frame =
  fr_streamId :: jsnum
  fr_seq :: jsnum
  fr_flags :: jsnum
  fr_opcode :: "jsnum option"
  fr_payload :: "byte list"

datatype encode_error =
  Bad_stream_id | Bad_seq | Opcode_required | Bad_opcode | Opcode_forbidden | Bad_flags

datatype decode_error = Too_short nat | Too_large nat nat

section \<open>Encoding\<close>

text \<open>\<open>Number.isInteger(v) && v >= 0 && v <= hi\<close>.\<close>

definition integer_in :: "int \<Rightarrow> jsnum \<Rightarrow> bool" where
  "integer_in hi v = (case v of Fin x \<Rightarrow> x \<in> \<int> \<and> 0 \<le> x \<and> x \<le> of_int hi | _ \<Rightarrow> False)"

definition to_uint32 :: "jsnum \<Rightarrow> int" where
  "to_uint32 v = (case v of Fin x \<Rightarrow> (if 0 \<le> x then \<lfloor>x\<rfloor> else - \<lfloor>- x\<rfloor>) mod 2 ^ 32 | _ \<Rightarrow> 0)"

definition has_ws_op :: "int \<Rightarrow> bool" where
  "has_ws_op flags \<longleftrightarrow> flags AND FLAG_WS_OP = FLAG_WS_OP"

definition header_byte :: "int \<Rightarrow> int \<Rightarrow> byte" where
  "header_byte flags opcode = word_of_int ((flags AND 15) OR push_bit 4 opcode)"

definition frame_encode :: "tunnel_frame \<Rightarrow> encode_error + byte list" where
  "frame_encode f =
     (if \<not> integer_in (2 ^ 32 - 1) (fr_streamId f) then Inl Bad_stream_id
      else if \<not> integer_in (2 ^ 32 - 1) (fr_seq f) then Inl Bad_seq
      else
        let wsOp = has_ws_op (to_uint32 (fr_flags f)) in
        if wsOp \<and> fr_opcode f = None then Inl Opcode_required
        else if wsOp \<and> \<not> integer_in 15 (the (fr_opcode f)) then Inl Bad_opcode
        else if \<not> wsOp \<and> fr_opcode f \<noteq> None then Inl Opcode_forbidden
        else if \<not> (js_le (js_int 0) (fr_flags f) \<and> js_le (fr_flags f) (js_int 255)) then Inl Bad_flags
        else Inr (be_bytes 4 (nat (to_uint32 (fr_streamId f))) @ be_bytes 4 (nat (to_uint32 (fr_seq f))) @
                  [header_byte (to_uint32 (fr_flags f)) (to_uint32 (or_else (fr_opcode f) (js_int 0)))] @ fr_payload f))"

section \<open>Decoding\<close>

definition frame_decode :: "nat \<Rightarrow> byte list \<Rightarrow> decode_error + tunnel_frame" where
  "frame_decode maxPayload buf =
     (if length buf < FRAME_HEADER_SIZE then Inl (Too_short (length buf))
      else
        let payloadLength = length buf - FRAME_HEADER_SIZE in
        if payloadLength > maxPayload then Inl (Too_large payloadLength maxPayload)
        else
          let b = uint (buf ! 8);
              flags = b AND 15;
              opcode = (if has_ws_op flags then Some (js_int (drop_bit 4 b)) else None)
          in Inr \<lparr>fr_streamId = js_int (int (be_nat (take 4 buf))), fr_seq = js_int (int (be_nat (take 4 (drop 4 buf)))),
                  fr_flags = js_int flags, fr_opcode = opcode, fr_payload = drop FRAME_HEADER_SIZE buf\<rparr>)"

section \<open>The header byte\<close>

lemma fifteen: "(15 :: int) = mask 4"
  by (simp add: mask_eq_exp_minus_1)

lemma and15: "n AND 15 = n mod 16" for n :: int
  using take_bit_eq_mask [of 4 n] by (simp add: take_bit_eq_mod mask_eq_exp_minus_1 and.commute)

lemma ws_op_bit: "has_ws_op n \<longleftrightarrow> bit n 2"
proof -
  have b4: "bit (4 :: int) k \<longleftrightarrow> k = 2" for k
    using bit_exp_iff [of 2 k, where 'a = int] by auto
  have "n AND 4 = (if bit n 2 then 4 else 0)"
    by (rule bit_eqI) (auto simp: bit_and_iff b4)
  then show ?thesis by (simp add: has_ws_op_def FLAG_WS_OP_def)
qed

lemma ws_op_low: "has_ws_op (n mod 16) = has_ws_op n"
  unfolding ws_op_bit and15 [symmetric] by (simp add: fifteen bit_simps)

lemma header_value:
  assumes "0 \<le> opcode" "opcode < 16"
  shows "uint (header_byte flags opcode) = flags mod 16 + 16 * opcode"
proof -
  have "(flags AND 15) OR push_bit 4 opcode = (flags AND 15) + push_bit 4 opcode"
    by (rule disjunctive_add [symmetric]) (auto simp: fifteen bit_simps)
  also have "\<dots> = flags mod 16 + 16 * opcode" by (simp add: and15 push_bit_eq_mult)
  finally have v: "(flags AND 15) OR push_bit 4 opcode = flags mod 16 + 16 * opcode" .
  have "0 \<le> flags mod 16" "flags mod 16 < 16" by simp_all
  then have "0 \<le> flags mod 16 + 16 * opcode" "flags mod 16 + 16 * opcode < 256" using assms by linarith+
  then show ?thesis unfolding header_byte_def v uint_word_of_int by simp
qed

section \<open>Round trips\<close>

lemma integer_in_int:
  assumes "integer_in hi v"
  obtains n where "v = js_int n" "0 \<le> n" "n \<le> hi"
proof -
  obtain x where x: "v = Fin x" "x \<in> \<int>" "0 \<le> x" "x \<le> of_int hi"
    using assms by (auto simp: integer_in_def split: jsnum.splits)
  then obtain n where "x = of_int n" by (elim Ints_cases)
  with x that [of n] show thesis by (simp add: js_int_def)
qed

lemma to_uint32_int: "0 \<le> n \<Longrightarrow> n < 2 ^ 32 \<Longrightarrow> to_uint32 (js_int n) = n"
  by (simp add: to_uint32_def js_int_def)

lemma uint32_field: "0 \<le> n \<Longrightarrow> n < 2 ^ 32 \<Longrightarrow> int (be_nat (be_bytes 4 (nat n))) = n"
  by (simp add: be_nat_bytes nat_less_iff)

lemma frame_encode_decode:
  assumes "frame_encode f = Inr bs" "length (fr_payload f) \<le> maxPayload"
  shows "frame_decode maxPayload bs = Inr (f\<lparr>fr_flags := js_int (to_uint32 (fr_flags f) mod 16)\<rparr>) \<and>
    length bs = 9 + length (fr_payload f)"
proof -
  let ?fl = "to_uint32 (fr_flags f)" and ?op = "to_uint32 (or_else (fr_opcode f) (js_int 0))"
  have ok: "integer_in (2 ^ 32 - 1) (fr_streamId f)" "integer_in (2 ^ 32 - 1) (fr_seq f)"
    "has_ws_op ?fl \<longleftrightarrow> fr_opcode f \<noteq> None" "fr_opcode f \<noteq> None \<longrightarrow> integer_in 15 (the (fr_opcode f))"
    and bs: "bs = be_bytes 4 (nat (to_uint32 (fr_streamId f))) @ be_bytes 4 (nat (to_uint32 (fr_seq f))) @
      [header_byte ?fl ?op] @ fr_payload f"
    using assms(1) by (auto simp: frame_encode_def Let_def split: if_splits)
  obtain sid where sid: "fr_streamId f = js_int sid" "0 \<le> sid" "sid < 2 ^ 32"
    using ok(1) by (elim integer_in_int) simp
  obtain sq where sq: "fr_seq f = js_int sq" "0 \<le> sq" "sq < 2 ^ 32"
    using ok(2) by (elim integer_in_int) simp
  have u: "to_uint32 (fr_streamId f) = sid" "to_uint32 (fr_seq f) = sq" using sid sq to_uint32_int by simp_all
  have op: "0 \<le> ?op" "?op < 16" "fr_opcode f \<noteq> None \<Longrightarrow> Some (js_int ?op) = fr_opcode f"
    using ok(4) by (cases "fr_opcode f"; auto elim!: integer_in_int simp: to_uint32_int)+
  have drop_op: "drop_bit 4 (?fl mod 16 + 16 * ?op) = ?op" by (simp add: drop_bit_eq_div)
  have low: "(?fl mod 16 + 16 * ?op) AND 15 = ?fl mod 16" unfolding and15 by simp
  have b8: "bs ! 8 = header_byte ?fl ?op" by (simp add: bs nth_append)
  have parts: "take 4 bs = be_bytes 4 (nat sid)" "take 4 (drop 4 bs) = be_bytes 4 (nat sq)" "drop 9 bs = fr_payload f"
    by (simp_all add: bs u)
  have len: "length bs = 9 + length (fr_payload f)" by (simp add: bs)
  show ?thesis
    using len assms(2) sid sq op(3) ok(3)
    by (auto simp: frame_decode_def FRAME_HEADER_SIZE_def Let_def b8 header_value [OF op(1,2)] parts uint32_field
        drop_op low ws_op_low)
qed

text \<open>
  C33: A frame that encodes to bytes decodes, within the payload limit, to the same frame up to the
  flags, of which only the low four bits are transmitted: a frame with flags below 16 comes back as it
  was.
\<close>

theorem frame_roundtrip:
  assumes "frame_encode f = Inr bs" "length (fr_payload f) \<le> maxPayload"
  shows "frame_decode maxPayload bs = Inr (f\<lparr>fr_flags := js_int (to_uint32 (fr_flags f) mod 16)\<rparr>) \<and>
    length bs = 9 + length (fr_payload f)"
  by (rule frame_encode_decode [OF assms])

text \<open>
  Decoding fails exactly on input shorter than the header or with too large a payload; what it
  accepts encodes again, to the same bytes except that without the opcode flag the unused high bits of
  the header byte are cleared.
\<close>

theorem frame_decode_reencodes:
  "(\<exists>e. frame_decode maxPayload buf = Inl e) = (length buf < 9 \<or> maxPayload < length buf - 9) \<and>
   (\<forall>f. frame_decode maxPayload buf = Inr f \<longrightarrow>
      frame_encode f = Inr (buf[8 := if has_ws_op (uint (buf ! 8)) then buf ! 8 else buf ! 8 AND 15]))"
proof (intro conjI allI impI)
  show "(\<exists>e. frame_decode maxPayload buf = Inl e) = (length buf < 9 \<or> maxPayload < length buf - 9)"
    by (auto simp: frame_decode_def FRAME_HEADER_SIZE_def Let_def)
next
  fix f assume dec: "frame_decode maxPayload buf = Inr f"
  define b where "b = uint (buf ! 8)"
  have len: "9 \<le> length buf" using dec by (auto simp: frame_decode_def FRAME_HEADER_SIZE_def split: if_splits)
  have b: "0 \<le> b" "b < 256" using uint_lt2p [of "buf ! 8"] by (simp_all add: b_def)
  let ?a = "int (be_nat (take 4 buf))" and ?s = "int (be_nat (take 4 (drop 4 buf)))"
  have f: "f = \<lparr>fr_streamId = js_int ?a, fr_seq = js_int ?s, fr_flags = js_int (b mod 16),
      fr_opcode = (if has_ws_op b then Some (js_int (b div 16)) else None), fr_payload = drop 9 buf\<rparr>"
    using dec len
    by (auto simp: frame_decode_def FRAME_HEADER_SIZE_def Let_def b_def [symmetric] and15 ws_op_low drop_bit_eq_div split: if_splits)
  have r: "be_nat (take 4 buf) < 2 ^ 32" "be_nat (take 4 (drop 4 buf)) < 2 ^ 32"
    using be_nat_less [of "take 4 buf"] be_nat_less [of "take 4 (drop 4 buf)"] len by simp_all
  then have fields: "integer_in 4294967295 (js_int ?a)" "integer_in 4294967295 (js_int ?s)" "to_uint32 (js_int 0) = 0"
      "to_uint32 (js_int ?a) = ?a" "to_uint32 (js_int ?s) = ?s" "to_uint32 (js_int (b mod 16)) = b mod 16"
    by (auto simp: integer_in_def js_int_def to_uint32_def)
  have opc: "integer_in 15 (js_int (b div 16))" "to_uint32 (js_int (b div 16)) = b div 16"
    using b by (auto simp: integer_in_def js_int_def to_uint32_def)
  have bytes: "be_bytes 4 (be_nat (take 4 buf)) = take 4 buf" "be_bytes 4 (be_nat (take 4 (drop 4 buf))) = take 4 (drop 4 buf)"
    using be_bytes_nat [of "take 4 buf"] be_bytes_nat [of "take 4 (drop 4 buf)"] len by simp_all
  have hb: "header_byte (b mod 16) (if has_ws_op b then b div 16 else 0) =
      (if has_ws_op b then buf ! 8 else buf ! 8 AND 15)"
  proof (rule word_uint_eq_iff [THEN iffD2])
    have "uint (buf ! 8 AND 15) = b mod 16" by (simp add: uint_and b_def and15)
    then show "uint (header_byte (b mod 16) (if has_ws_op b then b div 16 else 0)) =
        uint (if has_ws_op b then buf ! 8 else buf ! 8 AND 15)"
      using b by (simp add: header_value b_def [symmetric])
  qed
  have fl: "js_le (js_int 0) (js_int (b mod 16))" "js_le (js_int (b mod 16)) (js_int 255)"
    using pos_mod_bound [of 16 b] by (auto simp: js_le_def js_int_def js_num_eq_def)
  have "buf[8 := x] = take 4 buf @ take 4 (drop 4 buf) @ [x] @ drop 9 buf" for x
    using len take_add [of 4 4 buf] by (simp add: upd_conv_take_nth_drop)
  then show "frame_encode f = Inr (buf[8 := if has_ws_op (uint (buf ! 8)) then buf ! 8 else buf ! 8 AND 15])"
    using hb by (auto simp: f frame_encode_def Let_def fields opc bytes fl ws_op_low b_def [symmetric] split: if_splits)
qed

section \<open>Concrete frames\<close>

definition sample_frame :: tunnel_frame where
  "sample_frame = \<lparr>fr_streamId = js_int 7, fr_seq = js_int 300, fr_flags = js_int 5, fr_opcode = Some (js_int 2),
     fr_payload = [104, 105]\<rparr>"

lemma sample_encoding: "frame_encode sample_frame = Inr [0, 0, 0, 7, 0, 0, 1, 44, 37, 104, 105]"
proof -
  have "be_bytes 4 7 = [0, 0, 0, 7]" "be_bytes 4 300 = [0, 0, 1, 44]" by code_simp+
  moreover have "header_byte 5 2 = 37" by (simp add: header_byte_def push_bit_eq_mult and15)
  moreover have "has_ws_op 5" by (simp add: has_ws_op_def FLAG_WS_OP_def)
  ultimately show ?thesis
    by (simp add: frame_encode_def sample_frame_def integer_in_def js_int_def to_uint32_def js_le_def js_num_eq_def)
qed

lemma frame_roundtrip_witness:
  "frame_decode 1024 [0, 0, 0, 7, 0, 0, 1, 44, 37, 104, 105] = Inr sample_frame"
proof -
  have "length (fr_payload sample_frame) \<le> 1024" by (simp add: sample_frame_def)
  from frame_roundtrip [OF sample_encoding this] show ?thesis
    by (simp add: sample_frame_def to_uint32_def js_int_def)
qed

lemma frame_decode_reencodes_witness: "frame_decode 1 [0, 0, 0, 7, 0, 0, 1, 44, 37, 104, 105] \<noteq> Inr sample_frame"
proof -
  have "\<exists>e. frame_decode 1 [0, 0, 0, 7, 0, 0, 1, 44, 37, 104, 105] = Inl e"
    by (rule frame_decode_reencodes [THEN conjunct1, THEN iffD2]) simp
  then show ?thesis by auto
qed

end
