(* ===== verification/Tunnel_Protocol.thy ===== *)
theory Tunnel_Protocol
  imports Tunnel_Codec
begin

text \<open>
  The stream messages of packages/ws-tunnel (protocol/messages.ts, codec/types.ts) and the frames both
  ends build. A stream identifier is the Number the hub assigned.
\<close>

definition MAX_CHUNK_SIZE :: nat where "MAX_CHUNK_SIZE = 64 * 1024"
definition FLAG_FIN :: int where "FLAG_FIN = 1"
definition FLAG_RST :: int where "FLAG_RST = 2"
definition WS_OPCODE_Text :: int where "WS_OPCODE_Text = 1"
definition WS_OPCODE_Binary :: int where "WS_OPCODE_Binary = 2"

type_synonym headers = "(string, string) jsmap"

record stream_open =
  so_streamId :: jsnum
  so_sessionId :: string
  so_method :: string
  so_path :: string
  so_headers :: "headers option"
  so_upgrade :: bool   \<comment> \<open>\<open>upgrade: "websocket"\<close>\<close>

datatype stream_message =
    Stream_open stream_open
  | Stream_open_ack jsnum int "headers option"
  | Stream_window jsnum int
  | Stream_close jsnum string

text \<open>\<open>(flags & FLAG) === FLAG\<close>.\<close>

definition flag_set :: "int \<Rightarrow> jsnum \<Rightarrow> bool" where
  "flag_set flag flags \<longleftrightarrow> to_uint32 flags AND flag = flag"

definition data_frame :: "jsnum \<Rightarrow> nat \<Rightarrow> int \<Rightarrow> byte list \<Rightarrow> tunnel_frame" where
  "data_frame i n flags payload =
     \<lparr>fr_streamId = i, fr_seq = js_int (int n), fr_flags = js_int flags, fr_opcode = None, fr_payload = payload\<rparr>"

definition ws_frame :: "jsnum \<Rightarrow> nat \<Rightarrow> int \<Rightarrow> byte list \<Rightarrow> tunnel_frame" where
  "ws_frame i n opcode payload =
     \<lparr>fr_streamId = i, fr_seq = js_int (int n), fr_flags = js_int FLAG_WS_OP, fr_opcode = Some (js_int opcode), fr_payload = payload\<rparr>"

text \<open>\<open>subarray\<close> in steps of \<open>k\<close>; a step of 0 would not end and yields nothing here.\<close>

function chunks_of :: "nat \<Rightarrow> 'a list \<Rightarrow> 'a list list" where
  "chunks_of k xs = (if k = 0 \<or> xs = [] then [] else take k xs # chunks_of k (drop k xs))"
  by auto
termination by (relation "measure (length \<circ> snd)") auto

declare chunks_of.simps [simp del]

lemma chunks_of_Nil [simp]: "chunks_of k [] = []"
  by (simp add: chunks_of.simps)

lemma chunks_of_step: "0 < k \<Longrightarrow> xs \<noteq> [] \<Longrightarrow> chunks_of k xs = take k xs # chunks_of k (drop k xs)"
  by (simp add: chunks_of.simps)

lemma concat_chunks [simp]: "0 < k \<Longrightarrow> concat (chunks_of k xs) = xs"
  by (induction k xs rule: chunks_of.induct) (subst chunks_of.simps, auto)

lemma chunks_bounded: "p \<in> set (chunks_of k xs) \<Longrightarrow> length p \<le> k \<and> p \<noteq> []"
proof (induction k xs rule: chunks_of.induct)
  case (1 k xs)
  then show ?case by (subst (asm) chunks_of.simps) (auto split: if_splits)
qed

end
