(* ===== verification/Tunnel_Client.thy ===== *)
theory Tunnel_Client
  imports Tunnel_Protocol
begin

text \<open>
  \<open>TunnelClient\<close> (packages/ws-tunnel/src/client/tunnel-client.ts), the peer's side of the tunnel. The
  state objects of the streams are a list, the map \<open>streams\<close> refers to them by position: an object
  outlives its entry while a suspended \<open>fetchStream\<close> holds it. The client's actions (messages, frames,
  fetches, upstream sockets) are an outgoing list. A suspended \<open>fetchStream\<close> is its phase; each point
  where the code awaits is an event.
\<close>

section \<open>Configuration and state\<close>

record client_config =
  cc_webServiceUrl :: string
  cc_staticUrl :: string
  cc_maxStreams :: nat
  cc_chunkSize :: nat
  cc_maxRequestBody :: nat
  cc_idleTimeoutMs :: int
  cc_maxAgeMs :: int

datatype fetch_phase =
    No_fetch
  | Fetching                       \<comment> \<open>awaiting \<open>fetch\<close>\<close>
  | Reading                        \<comment> \<open>awaiting \<open>reader.read()\<close>\<close>
  | Sending "byte list list"       \<comment> \<open>awaiting credit for the first of these pieces\<close>
  | Fetched

record stream_state =
  ss_streamId :: jsnum
  ss_ws :: bool
  ss_seq :: nat
  ss_closed :: bool
  ss_credit :: int
  ss_createdAt :: int
  ss_lastActivityAt :: int
  ss_request :: stream_open
  ss_socket :: "bool option"       \<comment> \<open>the upstream socket, with whether it is open\<close>
  ss_awaitingBody :: bool
  ss_bodyChunks :: "byte list list"
  ss_bodyBytes :: nat
  ss_phase :: fetch_phase

datatype client_action =
    Control stream_message
  | Frame tunnel_frame
  | Fetch nat string string "headers option" "byte list option"
  | Abort_fetch nat
  | Open_socket nat string headers "string list"
  | Socket_text nat "byte list"
  | Socket_binary nat "byte list"
  | Close_socket nat

record tunnel_client =
  tc_objects :: "stream_state list"
  tc_streams :: "(jsnum, nat) jsmap"
  tc_out :: "client_action list"

definition new_client :: tunnel_client where
  "new_client = \<lparr>tc_objects = [], tc_streams = [], tc_out = []\<rparr>"

definition act :: "client_action list \<Rightarrow> tunnel_client \<Rightarrow> tunnel_client" where
  "act xs c = c\<lparr>tc_out := tc_out c @ xs\<rparr>"

definition with_object :: "nat \<Rightarrow> (stream_state \<Rightarrow> stream_state) \<Rightarrow> tunnel_client \<Rightarrow> tunnel_client" where
  "with_object i f c = c\<lparr>tc_objects := (tc_objects c)[i := f (tc_objects c ! i)]\<rparr>"

section \<open>Routing and headers\<close>

definition needsBody :: "string \<Rightarrow> bool" where
  "needsBody m \<longleftrightarrow> m = ''POST'' \<or> m = ''PUT'' \<or> m = ''PATCH''"

definition upstreamUrl :: "string \<Rightarrow> string \<Rightarrow> string \<Rightarrow> string" where
  "upstreamUrl path webServiceUrl staticUrl =
     (if take 5 path = ''/api/'' \<or> take 4 path = ''/ws/'' then webServiceUrl else staticUrl)"

definition HOP_BY_HOP_HEADERS :: "string list" where
  "HOP_BY_HOP_HEADERS = [''connection'', ''keep-alive'', ''transfer-encoding'', ''upgrade'', ''content-encoding'', ''content-length'']"

definition filterHeaders :: "headers \<Rightarrow> headers" where
  "filterHeaders hs = fold (\<lambda>(k, v) out. if to_lower k \<in> set HOP_BY_HOP_HEADERS then out else js_set k v out) hs []"

definition WS_HANDSHAKE_HEADERS :: "string list" where
  "WS_HANDSHAKE_HEADERS =
     [''sec-websocket-key'', ''sec-websocket-version'', ''sec-websocket-extensions'', ''sec-websocket-protocol'',
      ''upgrade'', ''connection'', ''origin'']"

definition wsHandshakeHeaders :: "headers option \<Rightarrow> headers" where
  "wsHandshakeHeaders hs =
     (case hs of
        None \<Rightarrow> []
      | Some es \<Rightarrow> fold (\<lambda>(k, v) out.
          if to_lower k \<in> set HOP_BY_HOP_HEADERS \<or> to_lower k \<in> set WS_HANDSHAKE_HEADERS then out
          else js_set (to_lower k) v out) es [])"

text \<open>\<open>base.replace(/^http/, "ws")\<close>.\<close>

definition ws_url :: "string \<Rightarrow> string \<Rightarrow> string" where
  "ws_url base path = (if take 4 base = ''http'' then ''ws'' @ drop 4 base else base) @ path"

section \<open>Closing\<close>

definition closeStream :: "jsnum \<Rightarrow> string \<Rightarrow> tunnel_client \<Rightarrow> tunnel_client" where
  "closeStream streamId reason c =
     (case js_get (tc_streams c) streamId of
        None \<Rightarrow> c
      | Some i \<Rightarrow>
          if ss_closed (tc_objects c ! i) then c
          else
            let s = tc_objects c ! i in
            act ([Abort_fetch i] @ (if ss_socket s \<noteq> None then [Close_socket i] else []) @ [Control (Stream_close streamId reason)])
              (with_object i (\<lambda>s. s\<lparr>ss_closed := True, ss_phase := Fetched\<rparr>) c)\<lparr>tc_streams := js_delete streamId (tc_streams c)\<rparr>)"

section \<open>Sending with credit\<close>

text \<open>The loop of \<open>sendPayload\<close> up to the piece it has no credit for.\<close>

fun send_pieces :: "jsnum \<Rightarrow> nat \<Rightarrow> int \<Rightarrow> byte list list \<Rightarrow> client_action list \<times> nat \<times> int \<times> byte list list" where
  "send_pieces sid n credit [] = ([], n, credit, [])"
| "send_pieces sid n credit (p # ps) =
     (if credit < int (length p) then ([], n, credit, p # ps)
      else
        case send_pieces sid (n + 1) (credit - int (length p)) ps of
          (out, n', credit', rest) \<Rightarrow> (Frame (data_frame sid n 0 p) # out, n', credit', rest))"

definition pump :: "int \<Rightarrow> nat \<Rightarrow> byte list list \<Rightarrow> tunnel_client \<Rightarrow> tunnel_client" where
  "pump now i pieces c =
     (let s = tc_objects c ! i in
      case send_pieces (ss_streamId s) (ss_seq s) (ss_credit s) pieces of
        (out, n, credit, rest) \<Rightarrow>
          act out (with_object i (\<lambda>s. s\<lparr>ss_seq := n, ss_credit := credit,
              ss_lastActivityAt := (if out = [] then ss_lastActivityAt s else now),
              ss_phase := (if rest = [] then Reading else Sending rest)\<rparr>) c))"

definition sendFin :: "nat \<Rightarrow> tunnel_client \<Rightarrow> tunnel_client" where
  "sendFin i c =
     (let s = tc_objects c ! i in
      if ss_closed s then c
      else act [Frame (data_frame (ss_streamId s) (ss_seq s) FLAG_FIN [])] (with_object i (\<lambda>s. s\<lparr>ss_seq := ss_seq s + 1\<rparr>) c))"

definition sendRst :: "nat \<Rightarrow> tunnel_client \<Rightarrow> tunnel_client" where
  "sendRst i c =
     (let s = tc_objects c ! i in
      act [Frame (data_frame (ss_streamId s) (ss_seq s) FLAG_RST [])] (with_object i (\<lambda>s. s\<lparr>ss_seq := ss_seq s + 1\<rparr>) c))"

section \<open>The fetch of a stream\<close>

definition start_fetch :: "(string \<Rightarrow> string) \<Rightarrow> nat \<Rightarrow> byte list option \<Rightarrow> tunnel_client \<Rightarrow> tunnel_client" where
  "start_fetch route i body c =
     (let r = ss_request (tc_objects c ! i) in
      act [Fetch i (route (so_path r) @ so_path r) (so_method r) (so_headers r) body]
        (with_object i (\<lambda>s. s\<lparr>ss_phase := Fetching\<rparr>) c))"

definition fetch_failed :: "nat \<Rightarrow> tunnel_client \<Rightarrow> tunnel_client" where
  "fetch_failed i c =
     (let s = tc_objects c ! i in
      if ss_phase s \<noteq> Fetching \<or> ss_closed s then c
      else closeStream (ss_streamId s) ''fetch-error'' (act [Control (Stream_open_ack (ss_streamId s) 502 None)] c))"

text \<open>The response: its acknowledgement, and without a body a final frame only.\<close>

definition fetch_answered :: "nat \<Rightarrow> int \<Rightarrow> headers \<Rightarrow> bool \<Rightarrow> tunnel_client \<Rightarrow> tunnel_client" where
  "fetch_answered i status hs has_body c =
     (let s = tc_objects c ! i in
      if ss_phase s \<noteq> Fetching \<or> ss_closed s then c
      else
        let c1 = act [Control (Stream_open_ack (ss_streamId s) status (Some (filterHeaders hs)))] c in
        if has_body then with_object i (\<lambda>s. s\<lparr>ss_phase := Reading\<rparr>) c1
        else with_object i (\<lambda>s. s\<lparr>ss_phase := Fetched\<rparr>) (sendFin i c1))"

definition chunk_read :: "client_config \<Rightarrow> int \<Rightarrow> nat \<Rightarrow> byte list \<Rightarrow> tunnel_client \<Rightarrow> tunnel_client" where
  "chunk_read cfg now i chunk c =
     (let s = tc_objects c ! i in
      if ss_phase s \<noteq> Reading \<or> ss_closed s then c else pump now i (chunks_of (cc_chunkSize cfg) chunk) c)"

definition body_ended :: "nat \<Rightarrow> tunnel_client \<Rightarrow> tunnel_client" where
  "body_ended i c =
     (let s = tc_objects c ! i in
      if ss_phase s \<noteq> Reading then c else closeStream (ss_streamId s) ''done'' (sendFin i c))"

definition read_failed :: "nat \<Rightarrow> tunnel_client \<Rightarrow> tunnel_client" where
  "read_failed i c =
     (let s = tc_objects c ! i in
      if ss_phase s \<noteq> Reading \<or> ss_closed s then c else closeStream (ss_streamId s) ''fetch-error'' c)"

section \<open>Messages and frames from the hub\<close>

definition active_streams :: "tunnel_client \<Rightarrow> nat" where
  "active_streams c = length (filter (\<lambda>(k, i). \<not> ss_closed (tc_objects c ! i)) (tc_streams c))"

definition new_stream :: "int \<Rightarrow> stream_open \<Rightarrow> stream_state" where
  "new_stream now msg =
     \<lparr>ss_streamId = so_streamId msg, ss_ws = so_upgrade msg, ss_seq = 0, ss_closed = False, ss_credit = 0, ss_createdAt = now,
      ss_lastActivityAt = now, ss_request = msg, ss_socket = None, ss_awaitingBody = needsBody (so_method msg),
      ss_bodyChunks = [], ss_bodyBytes = 0, ss_phase = No_fetch\<rparr>"

definition openWsBridge ::
  "(string \<Rightarrow> string) \<Rightarrow> (string \<Rightarrow> string) \<Rightarrow> (string option \<Rightarrow> string list) \<Rightarrow> nat \<Rightarrow> tunnel_client \<Rightarrow> tunnel_client" where
  "openWsBridge route origin subprotocols i c =
     (let r = ss_request (tc_objects c ! i);
          url = ws_url (route (so_path r)) (so_path r);
          protos = subprotocols (case so_headers r of None \<Rightarrow> None | Some hs \<Rightarrow> js_get hs ''sec-websocket-protocol'')
      in act [Open_socket i url (js_set ''origin'' (origin url) (wsHandshakeHeaders (so_headers r))) protos]
           (with_object i (\<lambda>s. s\<lparr>ss_socket := Some False\<rparr>) c))"

record client_env =
  ce_route :: "string \<Rightarrow> string"
  ce_origin :: "string \<Rightarrow> string"
  ce_subprotocols :: "string option \<Rightarrow> string list"

definition onStreamOpen :: "client_env \<Rightarrow> client_config \<Rightarrow> int \<Rightarrow> stream_open \<Rightarrow> tunnel_client \<Rightarrow> tunnel_client" where
  "onStreamOpen env cfg now msg c =
     (if cc_maxStreams cfg \<le> active_streams c then
        act [Control (Stream_open_ack (so_streamId msg) 503 None), Control (Stream_close (so_streamId msg) ''max-streams'')] c
      else
        let i = length (tc_objects c);
            s = new_stream now msg;
            c1 = c\<lparr>tc_objects := tc_objects c @ [s], tc_streams := js_set (so_streamId msg) i (tc_streams c)\<rparr>
        in if ss_ws s then openWsBridge (ce_route env) (ce_origin env) (ce_subprotocols env) i c1
           else if \<not> ss_awaitingBody s then start_fetch (ce_route env) i None c1
           else c1)"

definition onStreamWindow :: "int \<Rightarrow> jsnum \<Rightarrow> int \<Rightarrow> tunnel_client \<Rightarrow> tunnel_client" where
  "onStreamWindow now streamId credit c =
     (case js_get (tc_streams c) streamId of
        None \<Rightarrow> c
      | Some i \<Rightarrow>
          if ss_closed (tc_objects c ! i) then c
          else
            let c1 = with_object i (\<lambda>s. s\<lparr>ss_credit := ss_credit s + credit, ss_lastActivityAt := now\<rparr>) c in
            case ss_phase (tc_objects c ! i) of Sending pieces \<Rightarrow> pump now i pieces c1 | _ \<Rightarrow> c1)"

definition handleControl :: "client_env \<Rightarrow> client_config \<Rightarrow> int \<Rightarrow> stream_message \<Rightarrow> tunnel_client \<Rightarrow> tunnel_client" where
  "handleControl env cfg now msg c =
     (case msg of
        Stream_open m \<Rightarrow> onStreamOpen env cfg now m c
      | Stream_window i credit \<Rightarrow> onStreamWindow now i credit c
      | Stream_close i reason \<Rightarrow> closeStream i reason c
      | Stream_open_ack _ _ _ \<Rightarrow> c)"

definition onWsDataFrame :: "nat \<Rightarrow> tunnel_frame \<Rightarrow> tunnel_client \<Rightarrow> tunnel_client" where
  "onWsDataFrame i f c =
     (if ss_socket (tc_objects c ! i) \<noteq> Some True then c
      else if fr_opcode f = Some (js_int WS_OPCODE_Binary) then act [Socket_binary i (fr_payload f)] c
      else act [Socket_text i (fr_payload f)] c)"

definition onBodyFrame :: "client_env \<Rightarrow> client_config \<Rightarrow> nat \<Rightarrow> tunnel_frame \<Rightarrow> tunnel_client \<Rightarrow> tunnel_client" where
  "onBodyFrame env cfg i f c =
     (let s = tc_objects c ! i in
      if \<not> ss_awaitingBody s then c
      else
        let bytes = ss_bodyBytes s + length (fr_payload f);
            c1 = with_object i (\<lambda>s. s\<lparr>ss_bodyBytes := bytes\<rparr>) c
        in if cc_maxRequestBody cfg < bytes then closeStream (ss_streamId s) ''request-body-too-large'' (sendRst i c1)
           else
             let c2 = with_object i (\<lambda>s. s\<lparr>ss_bodyChunks := ss_bodyChunks s @ [fr_payload f]\<rparr>) c1 in
             if flag_set FLAG_FIN (fr_flags f)
             then start_fetch (ce_route env) i (Some (concat (ss_bodyChunks s @ [fr_payload f])))
                    (with_object i (\<lambda>s. s\<lparr>ss_awaitingBody := False\<rparr>) c2)
             else c2)"

definition handleBinaryFrame :: "client_env \<Rightarrow> client_config \<Rightarrow> int \<Rightarrow> byte list \<Rightarrow> tunnel_client \<Rightarrow> tunnel_client" where
  "handleBinaryFrame env cfg now data c =
     (case frame_decode MAX_FRAME_PAYLOAD data of
        Inl _ \<Rightarrow> c
      | Inr f \<Rightarrow>
          (case js_get (tc_streams c) (fr_streamId f) of
             None \<Rightarrow> c
           | Some i \<Rightarrow>
               if ss_closed (tc_objects c ! i) then c
               else
                 let c1 = with_object i (\<lambda>s. s\<lparr>ss_lastActivityAt := now\<rparr>) c in
                 if flag_set FLAG_WS_OP (fr_flags f) then onWsDataFrame i f c1 else onBodyFrame env cfg i f c1))"

section \<open>Upstream sockets\<close>

definition socket_opened :: "nat \<Rightarrow> tunnel_client \<Rightarrow> tunnel_client" where
  "socket_opened i c =
     (let c1 = with_object i (\<lambda>s. s\<lparr>ss_socket := Some True\<rparr>) c in
      if ss_closed (tc_objects c ! i) then c1 else act [Control (Stream_open_ack (ss_streamId (tc_objects c ! i)) 101 None)] c1)"

definition socket_message :: "int \<Rightarrow> nat \<Rightarrow> bool \<Rightarrow> byte list \<Rightarrow> tunnel_client \<Rightarrow> tunnel_client" where
  "socket_message now i binary data c =
     (let s = tc_objects c ! i in
      if ss_closed s then c
      else act [Frame (ws_frame (ss_streamId s) (ss_seq s) (if binary then WS_OPCODE_Binary else WS_OPCODE_Text) data)]
             (with_object i (\<lambda>s. s\<lparr>ss_seq := ss_seq s + 1, ss_lastActivityAt := now\<rparr>) c))"

definition socket_ended :: "nat \<Rightarrow> string \<Rightarrow> tunnel_client \<Rightarrow> tunnel_client" where
  "socket_ended i reason c =
     (if ss_closed (tc_objects c ! i) then c else closeStream (ss_streamId (tc_objects c ! i)) reason c)"

definition socket_rejected :: "nat \<Rightarrow> int \<Rightarrow> tunnel_client \<Rightarrow> tunnel_client" where
  "socket_rejected i status c =
     (let s = tc_objects c ! i in
      if ss_closed s then c
      else closeStream (ss_streamId s) ''ws-rejected''
             (act [Control (Stream_open_ack (ss_streamId s) (if status = 0 then 502 else status) None)] c))"

section \<open>Timeouts and stop\<close>

definition sweep_one :: "client_config \<Rightarrow> int \<Rightarrow> nat \<Rightarrow> tunnel_client \<Rightarrow> tunnel_client" where
  "sweep_one cfg now i c =
     (let s = tc_objects c ! i in
      if ss_closed s then c
      else if cc_idleTimeoutMs cfg \<le> now - ss_lastActivityAt s then closeStream (ss_streamId s) ''idle-timeout'' c
      else if cc_maxAgeMs cfg \<le> now - ss_createdAt s then closeStream (ss_streamId s) ''max-age'' c
      else c)"

definition client_sweep :: "client_config \<Rightarrow> int \<Rightarrow> tunnel_client \<Rightarrow> tunnel_client" where
  "client_sweep cfg now c = fold (sweep_one cfg now) (map snd (tc_streams c)) c"

definition client_stop :: "tunnel_client \<Rightarrow> tunnel_client" where
  "client_stop c = fold (\<lambda>k. closeStream k ''stopped'') (map fst (tc_streams c)) c"

section \<open>Events\<close>

datatype client_event =
    Received stream_message
  | Received_frame "byte list"
  | Fetch_failed nat
  | Fetch_answered nat int headers bool
  | Chunk_read nat "byte list"
  | Body_ended nat
  | Read_failed nat
  | Socket_opened nat
  | Socket_message nat bool "byte list"
  | Socket_ended nat string
  | Socket_rejected nat int
  | Sweep
  | Stop

definition client_step :: "client_env \<Rightarrow> client_config \<Rightarrow> int \<Rightarrow> client_event \<Rightarrow> tunnel_client \<Rightarrow> tunnel_client" where
  "client_step env cfg now ev c =
     (case ev of
        Received m \<Rightarrow> handleControl env cfg now m c
      | Received_frame bs \<Rightarrow> handleBinaryFrame env cfg now bs c
      | Fetch_failed i \<Rightarrow> fetch_failed i c
      | Fetch_answered i st hs b \<Rightarrow> fetch_answered i st hs b c
      | Chunk_read i chunk \<Rightarrow> chunk_read cfg now i chunk c
      | Body_ended i \<Rightarrow> body_ended i c
      | Read_failed i \<Rightarrow> read_failed i c
      | Socket_opened i \<Rightarrow> socket_opened i c
      | Socket_message i b data \<Rightarrow> socket_message now i b data c
      | Socket_ended i reason \<Rightarrow> socket_ended i reason c
      | Socket_rejected i st \<Rightarrow> socket_rejected i st c
      | Sweep \<Rightarrow> client_sweep cfg now c
      | Stop \<Rightarrow> client_stop c)"

end
