(* ===== verification/Tunnel_Proxy.thy ===== *)
theory Tunnel_Proxy
  imports Tunnel_Protocol
begin

text \<open>
  \<open>TunnelProxy\<close> (packages/ws-tunnel/src/proxy/tunnel-proxy.ts), the hub's side of the tunnel, with the
  session cookie and the path rules. Its actions (messages and frames to peers, the response sinks, the
  browser sockets, log records) are an outgoing list. A caller suspended in \<open>raceAck\<close> is a pending entry;
  between the acknowledgement and the resumption of the caller it is an acknowledged entry.
\<close>

section \<open>Paths and cookies\<close>

record path_allowlist =
  allowedPrefixes :: "string list option"
  blockedPrefixes :: "string list option"

definition DEFAULT_ALLOWED_PREFIXES :: "string list" where
  "DEFAULT_ALLOWED_PREFIXES = [''/'', ''/api/'', ''/ws/'', ''/assets/'', ''/favicon'']"

definition has_prefix :: "string \<Rightarrow> string \<Rightarrow> bool" where
  "has_prefix p s \<longleftrightarrow> take (length p) s = p"

definition clean_path :: "string \<Rightarrow> string" where
  "clean_path path = takeWhile (\<lambda>ch. ch \<noteq> CHR ''?'') path"

definition isPathAllowed :: "string \<Rightarrow> path_allowlist \<Rightarrow> bool" where
  "isPathAllowed path al =
     (let clean = clean_path path in
      if list_ex (\<lambda>p. clean = p \<or> has_prefix p clean) (or_else (blockedPrefixes al) []) then False
      else list_ex (\<lambda>p. if p = ''/'' then clean = ''/'' else has_prefix p clean)
             (or_else (allowedPrefixes al) DEFAULT_ALLOWED_PREFIXES))"

text \<open>\<open>split(";")\<close> and \<open>trim()\<close> on white space.\<close>

fun split_on :: "'a \<Rightarrow> 'a list \<Rightarrow> 'a list list" where
  "split_on sep [] = [[]]"
| "split_on sep (x # xs) =
     (if x = sep then [] # split_on sep xs
      else case split_on sep xs of ys # yss \<Rightarrow> (x # ys) # yss | [] \<Rightarrow> [[x]])"

definition is_space :: "char \<Rightarrow> bool" where
  "is_space c \<longleftrightarrow> of_char c \<in> {9::nat, 10, 11, 12, 13, 32}"

definition js_trim :: "string \<Rightarrow> string" where
  "js_trim s = rev (dropWhile is_space (rev (dropWhile is_space s)))"

fun cookie_in :: "string \<Rightarrow> string list \<Rightarrow> string option" where
  "cookie_in name [] = None"
| "cookie_in name (part # parts) =
     (if CHR ''='' \<in> set part \<and> js_trim (takeWhile (\<lambda>ch. ch \<noteq> CHR ''='') part) = name
      then Some (js_trim (tl (dropWhile (\<lambda>ch. ch \<noteq> CHR ''='') part)))
      else cookie_in name parts)"

definition sessionCookieValue :: "string option \<Rightarrow> string \<Rightarrow> string option" where
  "sessionCookieValue header cookieName =
     (case header of None \<Rightarrow> None | Some h \<Rightarrow> if h = [] then None else cookie_in cookieName (split_on CHR '';'' h))"

section \<open>State\<close>

record proxy_config =
  pc_windowSize :: nat
  pc_maxStreams :: nat
  pc_idleTimeoutMs :: int
  pc_maxAgeMs :: int

text \<open>What the proxy uses of a session: its identifiers; the byte counters are kept per session.\<close>

record session_ref =
  sr_sessionId :: string
  sr_peerId :: string

record http_stream =
  hs_session :: session_ref
  hs_bytesOut :: nat
  hs_lastGranted :: nat
  hs_finished :: bool
  hs_createdAt :: int
  hs_lastActivityAt :: int

record ws_stream =
  wt_session :: session_ref
  wt_seq :: nat
  wt_createdAt :: int
  wt_lastActivityAt :: int

datatype pending_call = Pending_http session_ref | Pending_ws session_ref

datatype proxy_action =
    To_peer string stream_message
  | Frame_to_peer string tunnel_frame
  | Sink_status jsnum int headers
  | Sink_write jsnum "byte list"
  | Sink_end jsnum
  | Sink_destroy jsnum
  | Browser_send jsnum "byte list" bool
  | Browser_close jsnum int
  | Bridge_refused jsnum int
  | Log_stream_close jsnum string

record tunnel_proxy =
  px_nextStreamId :: nat
  px_pending :: "(jsnum, pending_call) jsmap"
  px_acked :: "(jsnum, pending_call \<times> int \<times> headers option) jsmap"
  px_http :: "(jsnum, http_stream) jsmap"
  px_ws :: "(jsnum, ws_stream) jsmap"
  px_bytesIn :: "(string, nat) jsmap"
  px_bytesOut :: "(string, nat) jsmap"
  px_out :: "proxy_action list"

definition new_proxy :: tunnel_proxy where
  "new_proxy = \<lparr>px_nextStreamId = 1, px_pending = [], px_acked = [], px_http = [], px_ws = [], px_bytesIn = [], px_bytesOut = [], px_out = []\<rparr>"

definition emit :: "proxy_action list \<Rightarrow> tunnel_proxy \<Rightarrow> tunnel_proxy" where
  "emit xs p = p\<lparr>px_out := px_out p @ xs\<rparr>"

definition add_count :: "string \<Rightarrow> nat \<Rightarrow> (string, nat) jsmap \<Rightarrow> (string, nat) jsmap" where
  "add_count k n m = js_set k (or_else (js_get m k) 0 + n) m"

section \<open>Opening a stream\<close>

text \<open>\<open>sendStreamOpen\<close>: the limit counts established streams.\<close>

definition sendStreamOpen :: "proxy_config \<Rightarrow> stream_open \<Rightarrow> pending_call \<Rightarrow> string \<Rightarrow> tunnel_proxy \<Rightarrow> (bool \<times> tunnel_proxy)" where
  "sendStreamOpen cfg req call peerId p =
     (if pc_maxStreams cfg \<le> length (px_http p) + length (px_ws p) then (False, p)
      else (True, emit [To_peer peerId (Stream_open req)] (p\<lparr>px_pending := js_set (so_streamId req) call (px_pending p)\<rparr>)))"

fun body_frames :: "jsnum \<Rightarrow> byte list list \<Rightarrow> tunnel_frame list" where
  "body_frames i [] = []"
| "body_frames i [chunk] = [data_frame i 0 FLAG_FIN chunk]"
| "body_frames i (chunk # chunks) = data_frame i 0 0 chunk # body_frames i chunks"

definition assignStreamId :: "tunnel_proxy \<Rightarrow> jsnum \<times> tunnel_proxy" where
  "assignStreamId p = (js_int (int (px_nextStreamId p)), p\<lparr>px_nextStreamId := px_nextStreamId p + 1\<rparr>)"

text \<open>\<open>startHttpStream\<close> up to its wait: the message, then the frames of the body.\<close>

definition startHttpStream ::
  "proxy_config \<Rightarrow> session_ref \<Rightarrow> string \<Rightarrow> string \<Rightarrow> headers \<Rightarrow> byte list \<Rightarrow> tunnel_proxy \<Rightarrow> tunnel_proxy" where
  "startHttpStream cfg session method path hs body p =
     (case assignStreamId p of
        (i, p1) \<Rightarrow>
          (case sendStreamOpen cfg \<lparr>so_streamId = i, so_sessionId = sr_sessionId session, so_method = method, so_path = path,
                so_headers = Some hs, so_upgrade = False\<rparr> (Pending_http session) (sr_peerId session) p1 of
             (False, p2) \<Rightarrow> p2
           | (True, p2) \<Rightarrow>
               emit (map (Frame_to_peer (sr_peerId session)) (body_frames i (chunks_of MAX_CHUNK_SIZE body))) p2))"

text \<open>\<open>startWsBridge\<close> up to its wait.\<close>

definition startWsBridge :: "proxy_config \<Rightarrow> session_ref \<Rightarrow> string \<Rightarrow> headers option \<Rightarrow> tunnel_proxy \<Rightarrow> tunnel_proxy" where
  "startWsBridge cfg session path hs p =
     (case assignStreamId p of
        (i, p1) \<Rightarrow> snd (sendStreamOpen cfg \<lparr>so_streamId = i, so_sessionId = sr_sessionId session, so_method = ''GET'', so_path = path,
            so_headers = hs, so_upgrade = True\<rparr> (Pending_ws session) (sr_peerId session) p1))"

definition grantCredit :: "jsnum \<Rightarrow> nat \<Rightarrow> tunnel_proxy \<Rightarrow> tunnel_proxy" where
  "grantCredit i credit p =
     (case js_get (px_http p) i of
        None \<Rightarrow> p
      | Some h \<Rightarrow> emit [To_peer (sr_peerId (hs_session h)) (Stream_window i (int credit))] p)"

definition bridge_refused :: "jsnum \<Rightarrow> int \<Rightarrow> tunnel_proxy \<Rightarrow> tunnel_proxy" where
  "bridge_refused i status p = emit [Bridge_refused i status, Browser_close i 1013] p"

text \<open>The caller goes on with the acknowledgement, or without one after the time limit.\<close>

definition resume_acked :: "proxy_config \<Rightarrow> int \<Rightarrow> jsnum \<Rightarrow> tunnel_proxy \<Rightarrow> tunnel_proxy" where
  "resume_acked cfg now i p =
     (case js_get (px_acked p) i of
        None \<Rightarrow> p
      | Some (call, status, hs) \<Rightarrow>
          let p1 = p\<lparr>px_acked := js_delete i (px_acked p)\<rparr> in
          (case call of
             Pending_http session \<Rightarrow>
               grantCredit i (pc_windowSize cfg)
                 ((emit [Sink_status i status (or_else hs [])] p1)
                   \<lparr>px_http := js_set i \<lparr>hs_session = session, hs_bytesOut = 0, hs_lastGranted = 0, hs_finished = False,
                      hs_createdAt = now, hs_lastActivityAt = now\<rparr> (px_http p1)\<rparr>)
           | Pending_ws session \<Rightarrow>
               if status \<noteq> 101 then bridge_refused i status p1
               else p1\<lparr>px_ws := js_set i \<lparr>wt_session = session, wt_seq = 0, wt_createdAt = now, wt_lastActivityAt = now\<rparr> (px_ws p1)\<rparr>))"

definition ack_timeout :: "jsnum \<Rightarrow> tunnel_proxy \<Rightarrow> tunnel_proxy" where
  "ack_timeout i p =
     (case js_get (px_pending p) i of
        None \<Rightarrow> p
      | Some call \<Rightarrow>
          let p1 = p\<lparr>px_pending := js_delete i (px_pending p)\<rparr> in
          (case call of Pending_http _ \<Rightarrow> p1 | Pending_ws _ \<Rightarrow> bridge_refused i 0 p1))"

section \<open>Closing a stream\<close>

definition proxy_closeStream :: "jsnum \<Rightarrow> string \<Rightarrow> tunnel_proxy \<Rightarrow> tunnel_proxy" where
  "proxy_closeStream i reason p =
     (case (js_get (px_http p) i, js_get (px_ws p) i) of
        (Some h, _) \<Rightarrow> emit [To_peer (sr_peerId (hs_session h)) (Stream_close i reason)] p
      | (None, Some w) \<Rightarrow> emit [To_peer (sr_peerId (wt_session w)) (Stream_close i reason)] p
      | (None, None) \<Rightarrow> p)"

definition cleanupHttp :: "jsnum \<Rightarrow> string \<Rightarrow> tunnel_proxy \<Rightarrow> tunnel_proxy" where
  "cleanupHttp i reason p =
     (case js_get (px_http p) i of
        None \<Rightarrow> p
      | Some h \<Rightarrow>
          emit ((if hs_finished h then [] else [Sink_destroy i]) @
                (if reason \<noteq> ''done'' \<and> reason \<noteq> ''stopped'' then [Log_stream_close i reason] else []))
            (p\<lparr>px_http := js_delete i (px_http p)\<rparr>))"

definition cleanupWs :: "jsnum \<Rightarrow> string \<Rightarrow> tunnel_proxy \<Rightarrow> tunnel_proxy" where
  "cleanupWs i reason p =
     (case js_get (px_ws p) i of
        None \<Rightarrow> p
      | Some w \<Rightarrow>
          emit ([Browser_close i 1000] @ (if reason \<noteq> ''stopped'' then [Log_stream_close i reason] else []))
            (p\<lparr>px_ws := js_delete i (px_ws p)\<rparr>))"

text \<open>The callback of \<open>raw.onClose\<close>: the browser went away.\<close>

definition client_abort :: "jsnum \<Rightarrow> tunnel_proxy \<Rightarrow> tunnel_proxy" where
  "client_abort i p =
     (case js_get (px_http p) i of
        None \<Rightarrow> p
      | Some h \<Rightarrow> if hs_finished h then p else cleanupHttp i ''client-abort'' (proxy_closeStream i ''client-abort'' p))"

definition closeWs :: "jsnum \<Rightarrow> string \<Rightarrow> tunnel_proxy \<Rightarrow> tunnel_proxy" where
  "closeWs i reason p =
     (if js_get (px_ws p) i = None then p else cleanupWs i reason (proxy_closeStream i reason p))"

section \<open>Messages and frames from a peer\<close>

definition onControlMessage :: "string \<Rightarrow> stream_message \<Rightarrow> tunnel_proxy \<Rightarrow> tunnel_proxy" where
  "onControlMessage peerId msg p =
     (case msg of
        Stream_open_ack i status hs \<Rightarrow>
          (case js_get (px_pending p) i of
             None \<Rightarrow> p
           | Some call \<Rightarrow> p\<lparr>px_pending := js_delete i (px_pending p), px_acked := js_set i (call, status, hs) (px_acked p)\<rparr>)
      | Stream_close i reason \<Rightarrow> cleanupWs i reason (cleanupHttp i reason p)
      | _ \<Rightarrow> p)"

text \<open>The payload of a response frame: it is written, and half a window since the last grant earns a window.\<close>

definition put_http :: "jsnum \<Rightarrow> http_stream \<Rightarrow> tunnel_proxy \<Rightarrow> tunnel_proxy" where
  "put_http i h p = p\<lparr>px_http := js_set i h (px_http p)\<rparr>"

definition take_payload :: "proxy_config \<Rightarrow> jsnum \<Rightarrow> http_stream \<Rightarrow> byte list \<Rightarrow> tunnel_proxy \<Rightarrow> tunnel_proxy" where
  "take_payload cfg i h payload p =
     (if payload = [] then put_http i h p
      else
        let h1 = h\<lparr>hs_bytesOut := hs_bytesOut h + length payload\<rparr>;
            p1 = (emit [Sink_write i payload] (put_http i h1 p))
                   \<lparr>px_bytesOut := add_count (sr_sessionId (hs_session h)) (length payload) (px_bytesOut p)\<rparr>
        in if pc_windowSize cfg \<le> 2 * (hs_bytesOut h1 - hs_lastGranted h1)
           then grantCredit i (pc_windowSize cfg) (put_http i (h1\<lparr>hs_lastGranted := hs_bytesOut h1\<rparr>) p1)
           else p1)"

definition onHttpFrame :: "proxy_config \<Rightarrow> int \<Rightarrow> jsnum \<Rightarrow> http_stream \<Rightarrow> tunnel_frame \<Rightarrow> tunnel_proxy \<Rightarrow> tunnel_proxy" where
  "onHttpFrame cfg now i h0 f p =
     (let h = h0\<lparr>hs_lastActivityAt := now\<rparr> in
      if flag_set FLAG_RST (fr_flags f) then cleanupHttp i ''rst'' (emit [Sink_destroy i] (put_http i h p))
      else
        let p1 = take_payload cfg i h (fr_payload f) p
        in if flag_set FLAG_FIN (fr_flags f)
           then cleanupHttp i ''done'' (emit [Sink_end i]
                  (case js_get (px_http p1) i of None \<Rightarrow> p1 | Some h2 \<Rightarrow> put_http i (h2\<lparr>hs_finished := True\<rparr>) p1))
           else p1)"

definition onWsFrame :: "int \<Rightarrow> jsnum \<Rightarrow> ws_stream \<Rightarrow> tunnel_frame \<Rightarrow> tunnel_proxy \<Rightarrow> tunnel_proxy" where
  "onWsFrame now i w f p =
     (let p1 = p\<lparr>px_ws := js_set i (w\<lparr>wt_lastActivityAt := now\<rparr>) (px_ws p)\<rparr> in
      if flag_set FLAG_RST (fr_flags f) then cleanupWs i ''rst'' (emit [Browser_close i 1011] p1)
      else if flag_set FLAG_WS_OP (fr_flags f) then
        (emit [Browser_send i (fr_payload f) (fr_opcode f = Some (js_int WS_OPCODE_Binary))] p1)
          \<lparr>px_bytesIn := add_count (sr_sessionId (wt_session w)) (length (fr_payload f)) (px_bytesIn p1)\<rparr>
      else p1)"

definition onBinaryFrame :: "proxy_config \<Rightarrow> int \<Rightarrow> string \<Rightarrow> byte list \<Rightarrow> tunnel_proxy \<Rightarrow> tunnel_proxy" where
  "onBinaryFrame cfg now peerId data p =
     (case frame_decode MAX_FRAME_PAYLOAD data of
        Inl _ \<Rightarrow> p
      | Inr f \<Rightarrow>
          (case (js_get (px_http p) (fr_streamId f), js_get (px_ws p) (fr_streamId f)) of
             (Some h, _) \<Rightarrow> onHttpFrame cfg now (fr_streamId f) h f p
           | (None, Some w) \<Rightarrow> onWsFrame now (fr_streamId f) w f p
           | (None, None) \<Rightarrow> p))"

definition sendWsToPeer :: "int \<Rightarrow> jsnum \<Rightarrow> byte list \<Rightarrow> bool \<Rightarrow> tunnel_proxy \<Rightarrow> tunnel_proxy" where
  "sendWsToPeer now i data binary p =
     (case js_get (px_ws p) i of
        None \<Rightarrow> p
      | Some w \<Rightarrow>
          emit [Frame_to_peer (sr_peerId (wt_session w)) (ws_frame i (wt_seq w) (if binary then WS_OPCODE_Binary else WS_OPCODE_Text) data)]
            (p\<lparr>px_ws := js_set i (w\<lparr>wt_seq := wt_seq w + 1, wt_lastActivityAt := now\<rparr>) (px_ws p)\<rparr>))"

section \<open>Timeouts and stop\<close>

definition overdue :: "proxy_config \<Rightarrow> int \<Rightarrow> int \<Rightarrow> int \<Rightarrow> bool" where
  "overdue cfg now createdAt lastActivityAt \<longleftrightarrow> pc_idleTimeoutMs cfg \<le> now - lastActivityAt \<or> pc_maxAgeMs cfg \<le> now - createdAt"

definition sweep_http :: "proxy_config \<Rightarrow> int \<Rightarrow> jsnum \<times> http_stream \<Rightarrow> tunnel_proxy \<Rightarrow> tunnel_proxy" where
  "sweep_http cfg now kh p =
     (case kh of (i, h) \<Rightarrow>
        if overdue cfg now (hs_createdAt h) (hs_lastActivityAt h)
        then cleanupHttp i ''idle-timeout'' (proxy_closeStream i ''idle-timeout'' (emit [Sink_destroy i] p)) else p)"

definition sweep_ws :: "proxy_config \<Rightarrow> int \<Rightarrow> jsnum \<times> ws_stream \<Rightarrow> tunnel_proxy \<Rightarrow> tunnel_proxy" where
  "sweep_ws cfg now kw p =
     (case kw of (i, w) \<Rightarrow>
        if overdue cfg now (wt_createdAt w) (wt_lastActivityAt w)
        then cleanupWs i ''idle-timeout'' (proxy_closeStream i ''idle-timeout'' (emit [Browser_close i 1011] p)) else p)"

definition proxy_sweep :: "proxy_config \<Rightarrow> int \<Rightarrow> tunnel_proxy \<Rightarrow> tunnel_proxy" where
  "proxy_sweep cfg now p =
     (let p1 = fold (sweep_http cfg now) (px_http p) p in fold (sweep_ws cfg now) (px_ws p1) p1)"

definition proxy_stop :: "tunnel_proxy \<Rightarrow> tunnel_proxy" where
  "proxy_stop p =
     (let p1 = fold (\<lambda>i. cleanupHttp i ''stopped'') (map fst (px_http p)) p
      in fold (\<lambda>i. cleanupWs i ''stopped'') (map fst (px_ws p1)) p1)"

section \<open>Events\<close>

datatype proxy_event =
    Start_http session_ref string string headers "byte list"
  | Start_ws session_ref string "headers option"
  | Resume jsnum
  | Ack_timeout jsnum
  | From_peer string stream_message
  | Frame_from_peer string "byte list"
  | Client_abort jsnum
  | Close_ws jsnum string
  | Send_ws jsnum "byte list" bool
  | Proxy_sweep
  | Proxy_stop

definition proxy_step :: "proxy_config \<Rightarrow> int \<Rightarrow> proxy_event \<Rightarrow> tunnel_proxy \<Rightarrow> tunnel_proxy" where
  "proxy_step cfg now ev p =
     (case ev of
        Start_http s m path hs body \<Rightarrow> startHttpStream cfg s m path hs body p
      | Start_ws s path hs \<Rightarrow> startWsBridge cfg s path hs p
      | Resume i \<Rightarrow> resume_acked cfg now i p
      | Ack_timeout i \<Rightarrow> ack_timeout i p
      | From_peer peer m \<Rightarrow> onControlMessage peer m p
      | Frame_from_peer peer bs \<Rightarrow> onBinaryFrame cfg now peer bs p
      | Client_abort i \<Rightarrow> client_abort i p
      | Close_ws i reason \<Rightarrow> closeWs i reason p
      | Send_ws i data b \<Rightarrow> sendWsToPeer now i data b p
      | Proxy_sweep \<Rightarrow> proxy_sweep cfg now p
      | Proxy_stop \<Rightarrow> proxy_stop p)"

end
