(* ===== verification/Tunnel_Flow.thy ===== *)
theory Tunnel_Flow
  imports Tunnel_Client Tunnel_Proxy
begin

text \<open>
  One HTTP request through the tunnel: a hub proxy and a peer client joined by two queues, with the
  handlers of both. The outgoing actions of a handler are put on the queue to the other side or, for the
  browser's sink, on the list of what the browser got. The environment answers the fetch and hands out
  the chunks of the response.
\<close>

section \<open>Frames on the wire\<close>

lemma flag_mod16 [simp]: "to_uint32 (js_int FLAG_FIN) mod 16 = 1" "to_uint32 (js_int 0) mod 16 = 0" "to_uint32 (js_int FLAG_RST) mod 16 = 2"
  by (simp_all add: to_uint32_def js_int_def FLAG_FIN_def FLAG_RST_def)

lemma plain_encodes:
  assumes "n < 2 ^ 32" "flags = 0 \<or> flags = FLAG_FIN"
  shows "\<exists>bs. frame_encode (data_frame (js_int 1) n flags p) = Inr bs"
proof -
  have "int n \<le> 4294967295" using assms(1) by simp
  then have "integer_in (2 ^ 32 - 1) (js_int 1)" "integer_in (2 ^ 32 - 1) (js_int (int n))"
    by (auto simp: integer_in_def js_int_def)
  moreover have "\<not> has_ws_op (to_uint32 (js_int flags))"
    using assms(2) by (auto simp: has_ws_op_def FLAG_WS_OP_def FLAG_FIN_def to_uint32_def js_int_def)
  moreover have "js_le (js_int 0) (js_int flags)" "js_le (js_int flags) (js_int 255)"
    using assms(2) by (auto simp: FLAG_FIN_def js_le_def js_num_eq_def js_int_def)
  ultimately show ?thesis by (simp add: frame_encode_def data_frame_def Let_def)
qed

lemma plain_decodes:
  assumes "flags = 0 \<or> flags = FLAG_FIN" "length p \<le> MAX_FRAME_PAYLOAD"
    and "frame_encode (data_frame (js_int 1) n flags p) = Inr bs"
  shows "frame_decode MAX_FRAME_PAYLOAD bs = Inr (data_frame (js_int 1) n flags p)"
  using frame_encode_decode [OF assms(3), of MAX_FRAME_PAYLOAD] assms(1,2)
  by (auto simp: data_frame_def to_uint32_def js_int_def FLAG_FIN_def)

lemma flags_of_plain [simp]:
  "flag_set FLAG_RST (js_int 0) = False" "flag_set FLAG_FIN (js_int 0) = False"
  "flag_set FLAG_RST (js_int FLAG_FIN) = False" "flag_set FLAG_FIN (js_int FLAG_FIN) = True"
  by (simp_all add: flag_set_def FLAG_RST_def FLAG_FIN_def to_uint32_def js_int_def)

lemma data_frame_fields [simp]:
  "fr_streamId (data_frame i n fl p) = i" "fr_flags (data_frame i n fl p) = js_int fl" "fr_payload (data_frame i n fl p) = p"
  by (simp_all add: data_frame_def)

section \<open>The joined system\<close>

record flow_env =
  fe_env :: client_env
  fe_client :: client_config
  fe_proxy :: proxy_config
  fe_session :: session_ref
  fe_method :: string
  fe_path :: string
  fe_headers :: headers
  fe_status :: int
  fe_response :: headers

record flow =
  fl_client :: tunnel_client
  fl_proxy :: tunnel_proxy
  fl_up :: "client_action list"
  fl_down :: "proxy_action list"
  fl_sink :: "proxy_action list"
  fl_body :: "byte list list"

fun to_hub :: "client_action \<Rightarrow> bool" where
  "to_hub (Control _) = True"
| "to_hub (Frame _) = True"
| "to_hub _ = False"

fun to_peer :: "proxy_action \<Rightarrow> bool" where
  "to_peer (To_peer _ _) = True"
| "to_peer (Frame_to_peer _ _) = True"
| "to_peer _ = False"

definition client_do :: "(tunnel_client \<Rightarrow> tunnel_client) \<Rightarrow> flow \<Rightarrow> flow" where
  "client_do f x =
     (let c = f (fl_client x) in
      x\<lparr>fl_client := c\<lparr>tc_out := []\<rparr>, fl_up := fl_up x @ filter to_hub (tc_out c)\<rparr>)"

definition proxy_do :: "(tunnel_proxy \<Rightarrow> tunnel_proxy) \<Rightarrow> flow \<Rightarrow> flow" where
  "proxy_do f x =
     (let p = f (fl_proxy x) in
      x\<lparr>fl_proxy := p\<lparr>px_out := []\<rparr>, fl_down := fl_down x @ filter to_peer (px_out p),
        fl_sink := fl_sink x @ filter (\<lambda>a. \<not> to_peer a) (px_out p)\<rparr>)"

definition phase_of :: "flow \<Rightarrow> fetch_phase" where
  "phase_of x = (case tc_objects (fl_client x) of [] \<Rightarrow> No_fetch | s # _ \<Rightarrow> ss_phase s)"

inductive flow_step :: "flow_env \<Rightarrow> flow \<Rightarrow> flow \<Rightarrow> bool" for e where
  up_message: "fl_up x = Control m # q \<Longrightarrow>
    flow_step e x (proxy_do (onControlMessage (sr_peerId (fe_session e)) m) (x\<lparr>fl_up := q\<rparr>))"
| up_frame: "fl_up x = Frame f # q \<Longrightarrow> frame_encode f = Inr bs \<Longrightarrow>
    flow_step e x (proxy_do (onBinaryFrame (fe_proxy e) t (sr_peerId (fe_session e)) bs) (x\<lparr>fl_up := q\<rparr>))"
| down_message: "fl_down x = To_peer d m # q \<Longrightarrow>
    flow_step e x (client_do (handleControl (fe_env e) (fe_client e) t m) (x\<lparr>fl_down := q\<rparr>))"
| down_frame: "fl_down x = Frame_to_peer d f # q \<Longrightarrow> frame_encode f = Inr bs \<Longrightarrow>
    flow_step e x (client_do (handleBinaryFrame (fe_env e) (fe_client e) t bs) (x\<lparr>fl_down := q\<rparr>))"
| resumed: "px_acked (fl_proxy x) = (i, call) # q \<Longrightarrow> flow_step e x (proxy_do (resume_acked (fe_proxy e) t i) x)"
| answered: "phase_of x = Fetching \<Longrightarrow> flow_step e x (client_do (fetch_answered 0 (fe_status e) (fe_response e) True) x)"
| read: "phase_of x = Reading \<Longrightarrow> fl_body x = chunk # rest \<Longrightarrow>
    flow_step e x (client_do (chunk_read (fe_client e) t 0 chunk) (x\<lparr>fl_body := rest\<rparr>))"
| ended: "phase_of x = Reading \<Longrightarrow> fl_body x = [] \<Longrightarrow> flow_step e x (client_do (body_ended 0) x)"

inductive flow_steps :: "flow_env \<Rightarrow> nat \<Rightarrow> flow \<Rightarrow> flow \<Rightarrow> bool" for e where
  none: "flow_steps e 0 x x"
| more: "flow_steps e n x y \<Longrightarrow> flow_step e y z \<Longrightarrow> flow_steps e (Suc n) x z"

text \<open>The request: the first stream of a fresh hub to a fresh peer.\<close>

definition requested :: "flow_env \<Rightarrow> byte list list \<Rightarrow> flow" where
  "requested e body =
     proxy_do (startHttpStream (fe_proxy e) (fe_session e) (fe_method e) (fe_path e) (fe_headers e) [])
       \<lparr>fl_client = new_client, fl_proxy = new_proxy, fl_up = [], fl_down = [], fl_sink = [], fl_body = body\<rparr>"

section \<open>What the browser got\<close>

fun sink_bytes :: "proxy_action list \<Rightarrow> byte list" where
  "sink_bytes [] = []"
| "sink_bytes (Sink_write i p # as) = p @ sink_bytes as"
| "sink_bytes (a # as) = sink_bytes as"

lemma sink_bytes_append [simp]: "sink_bytes (as @ bs) = sink_bytes as @ sink_bytes bs"
  by (induction as rule: sink_bytes.induct) auto

text \<open>The status, the body in order, and the end.\<close>

definition answered_with :: "flow_env \<Rightarrow> byte list \<Rightarrow> proxy_action list \<Rightarrow> bool" where
  "answered_with e body as \<longleftrightarrow>
     (\<exists>writes. as = Sink_status (js_int 1) (fe_status e) (filterHeaders (fe_response e)) # map (Sink_write (js_int 1)) writes @ [Sink_end (js_int 1)] \<and>
        concat writes = body)"

section \<open>Sending\<close>

definition numbered_frames :: "nat \<Rightarrow> byte list list \<Rightarrow> client_action list" where
  "numbered_frames n ps = map (\<lambda>(k, p). Frame (data_frame (js_int 1) k 0 p)) (zip [n..<n + length ps] ps)"

lemma send_pieces_split:
  assumes "send_pieces (js_int 1) n credit ps = (out, n', credit', rest)"
  shows "\<exists>sent. ps = sent @ rest \<and> out = numbered_frames n sent \<and> n' = n + length sent \<and>
    credit' = credit - int (length (concat sent)) \<and> (rest \<noteq> [] \<longrightarrow> credit' < int (length (hd rest))) \<and> (0 \<le> credit \<longrightarrow> 0 \<le> credit')"
  using assms
proof (induction ps arbitrary: n credit out n' credit' rest)
  case (Cons p ps)
  show ?case
  proof (cases "credit < int (length p)")
    case True
    then show ?thesis using Cons.prems by (intro exI [of _ "[]"]) (auto simp: numbered_frames_def)
  next
    case False
    obtain out1 n1 c1 r1 where s: "send_pieces (js_int 1) (n + 1) (credit - int (length p)) ps = (out1, n1, c1, r1)"
      by (metis prod_cases4)
    from Cons.IH [OF s] obtain sent where "ps = sent @ r1" "out1 = numbered_frames (n + 1) sent" "n1 = n + 1 + length sent"
        "c1 = credit - int (length p) - int (length (concat sent))" "r1 \<noteq> [] \<longrightarrow> c1 < int (length (hd r1))"
        "0 \<le> credit - int (length p) \<longrightarrow> 0 \<le> c1" by blast
    then show ?thesis
      using Cons.prems False s
      by (intro exI [of _ "p # sent"]) (auto simp: numbered_frames_def upt_conv_Cons)
  qed
qed (auto simp: numbered_frames_def)

section \<open>The stages of a request\<close>

definition client_open :: "byte list list \<Rightarrow> nat \<Rightarrow> int \<Rightarrow> tunnel_client \<Rightarrow> bool" where
  "client_open rest n credit c \<longleftrightarrow>
     tc_out c = [] \<and> tc_streams c = [(js_int 1, 0)] \<and>
     (\<exists>s. tc_objects c = [s] \<and> ss_streamId s = js_int 1 \<and> \<not> ss_closed s \<and> ss_socket s = None \<and> ss_seq s = n \<and> ss_credit s = credit \<and>
        ss_phase s = (if rest = [] then Reading else Sending rest))"

definition client_fetching :: "tunnel_client \<Rightarrow> bool" where
  "client_fetching c \<longleftrightarrow>
     tc_out c = [] \<and> tc_streams c = [(js_int 1, 0)] \<and>
     (\<exists>s. tc_objects c = [s] \<and> ss_streamId s = js_int 1 \<and> \<not> ss_closed s \<and> ss_socket s = None \<and> ss_seq s = 0 \<and> ss_credit s = 0 \<and>
        ss_phase s = Fetching)"

definition client_closed :: "tunnel_client \<Rightarrow> bool" where
  "client_closed c \<longleftrightarrow> tc_out c = [] \<and> tc_streams c = [] \<and> (\<exists>s. tc_objects c = [s] \<and> ss_closed s \<and> ss_phase s = Fetched)"

definition proxy_at :: "(jsnum, pending_call) jsmap \<Rightarrow> (jsnum, pending_call \<times> int \<times> headers option) jsmap \<Rightarrow> (jsnum, http_stream) jsmap \<Rightarrow> tunnel_proxy \<Rightarrow> bool" where
  "proxy_at pending acked http p \<longleftrightarrow> px_out p = [] \<and> px_pending p = pending \<and> px_acked p = acked \<and> px_http p = http \<and> px_ws p = []"

definition flight_frames :: "(nat \<times> byte list) list \<Rightarrow> client_action list" where
  "flight_frames fs = map (\<lambda>(k, p). Frame (data_frame (js_int 1) k 0 p)) fs"

definition window_messages :: "flow_env \<Rightarrow> nat \<Rightarrow> proxy_action list" where
  "window_messages e k = replicate k (To_peer (sr_peerId (fe_session e)) (Stream_window (js_int 1) (int (pc_windowSize (fe_proxy e)))))"

definition sink_head :: "flow_env \<Rightarrow> proxy_action" where
  "sink_head e = Sink_status (js_int 1) (fe_status e) (filterHeaders (fe_response e))"

definition sound_flow :: "flow_env \<Rightarrow> byte list list \<Rightarrow> bool" where
  "sound_flow e body \<longleftrightarrow>
     0 < cc_chunkSize (fe_client e) \<and> 2 * cc_chunkSize (fe_client e) \<le> pc_windowSize (fe_proxy e) \<and>
     cc_chunkSize (fe_client e) \<le> MAX_FRAME_PAYLOAD \<and> 0 < cc_maxStreams (fe_client e) \<and> 0 < pc_maxStreams (fe_proxy e) \<and>
     \<not> needsBody (fe_method e) \<and> concat body \<noteq> [] \<and> length (concat body) < 2 ^ 32"

definition pieces_ok :: "flow_env \<Rightarrow> byte list list \<Rightarrow> bool" where
  "pieces_ok e ps \<longleftrightarrow> (\<forall>p \<in> set ps. p \<noteq> [] \<and> length p \<le> cc_chunkSize (fe_client e))"

definition request_of :: "flow_env \<Rightarrow> stream_open" where
  "request_of e = \<lparr>so_streamId = js_int 1, so_sessionId = sr_sessionId (fe_session e), so_method = fe_method e, so_path = fe_path e,
     so_headers = Some (fe_headers e), so_upgrade = False\<rparr>"

definition the_ack :: "flow_env \<Rightarrow> client_action" where
  "the_ack e = Control (Stream_open_ack (js_int 1) (fe_status e) (Some (filterHeaders (fe_response e))))"

text \<open>
  The credit law of the transfer: what the peer may send and has sent covers the last grant and one more
  window; the hub has got less than half a window since that grant.
\<close>

definition credit_law :: "flow_env \<Rightarrow> int \<Rightarrow> nat \<Rightarrow> nat \<Rightarrow> nat \<Rightarrow> nat \<Rightarrow> bool" where
  "credit_law e credit k inflight got granted \<longleftrightarrow>
     0 \<le> credit \<and> granted \<le> got \<and> 2 * (got - granted) < pc_windowSize (fe_proxy e) \<and>
     int granted + int (pc_windowSize (fe_proxy e)) \<le> credit + int (k * pc_windowSize (fe_proxy e)) + int inflight + int got"

definition transfer_at ::
  "flow_env \<Rightarrow> byte list list \<Rightarrow> flow \<Rightarrow> byte list list \<Rightarrow> nat \<Rightarrow> int \<Rightarrow> (nat \<times> byte list) list \<Rightarrow> nat \<Rightarrow> byte list list \<Rightarrow> http_stream \<Rightarrow> bool" where
  "transfer_at e body x rest n credit flight k ws h \<longleftrightarrow>
     client_open rest n credit (fl_client x) \<and> proxy_at [] [] [(js_int 1, h)] (fl_proxy x) \<and> hs_session h = fe_session e \<and> \<not> hs_finished h \<and>
     fl_up x = flight_frames flight \<and> fl_down x = window_messages e k \<and> fl_sink x = sink_head e # map (Sink_write (js_int 1)) ws \<and>
     concat ws @ concat (map snd flight) @ concat rest @ concat (fl_body x) = concat body \<and>
     hs_bytesOut h = length (concat ws) \<and> pieces_ok e (map snd flight @ rest) \<and>
     n + length (concat rest @ concat (fl_body x)) \<le> length (concat body) \<and> (\<forall>(j, p) \<in> set flight. j < 2 ^ 32) \<and>
     (rest \<noteq> [] \<longrightarrow> credit < int (length (hd rest))) \<and>
     credit_law e credit k (length (concat (map snd flight))) (length (concat ws)) (hs_lastGranted h)"

definition transfer :: "flow_env \<Rightarrow> byte list list \<Rightarrow> flow \<Rightarrow> bool" where
  "transfer e body x \<longleftrightarrow> (\<exists>rest n credit flight k ws h. transfer_at e body x rest n credit flight k ws h)"

definition closing :: "flow_env \<Rightarrow> byte list list \<Rightarrow> flow \<Rightarrow> bool" where
  "closing e body x \<longleftrightarrow>
     (\<exists>n flight k ws h.
        client_closed (fl_client x) \<and> proxy_at [] [] [(js_int 1, h)] (fl_proxy x) \<and> hs_session h = fe_session e \<and> \<not> hs_finished h \<and>
        fl_up x = flight_frames flight @ [Frame (data_frame (js_int 1) n FLAG_FIN []), Control (Stream_close (js_int 1) ''done'')] \<and>
        fl_down x = window_messages e k \<and> fl_sink x = sink_head e # map (Sink_write (js_int 1)) ws \<and>
        fl_body x = [] \<and> concat ws @ concat (map snd flight) = concat body \<and> pieces_ok e (map snd flight) \<and>
        (\<forall>(j, p) \<in> set flight. j < 2 ^ 32) \<and> n < 2 ^ 32)"

definition finished :: "flow_env \<Rightarrow> byte list list \<Rightarrow> flow \<Rightarrow> bool" where
  "finished e body x \<longleftrightarrow>
     (\<exists>k. client_closed (fl_client x) \<and> proxy_at [] [] [] (fl_proxy x) \<and> fl_down x = window_messages e k \<and>
        (fl_up x = [] \<or> fl_up x = [Control (Stream_close (js_int 1) ''done'')]) \<and> answered_with e (concat body) (fl_sink x))"

definition waiting_call :: "flow_env \<Rightarrow> (jsnum, pending_call) jsmap" where
  "waiting_call e = [(js_int 1, Pending_http (fe_session e))]"

definition acked_call :: "flow_env \<Rightarrow> (jsnum, pending_call \<times> int \<times> headers option) jsmap" where
  "acked_call e = [(js_int 1, Pending_http (fe_session e), fe_status e, Some (filterHeaders (fe_response e)))]"

inductive stage :: "flow_env \<Rightarrow> byte list list \<Rightarrow> flow \<Rightarrow> bool" for e body where
  opened: "fl_client x = new_client \<Longrightarrow> proxy_at (waiting_call e) [] [] (fl_proxy x) \<Longrightarrow> fl_up x = [] \<Longrightarrow>
    fl_down x = [To_peer (sr_peerId (fe_session e)) (Stream_open (request_of e))] \<Longrightarrow> fl_sink x = [] \<Longrightarrow> fl_body x = body \<Longrightarrow> stage e body x"
| fetching: "client_fetching (fl_client x) \<Longrightarrow> proxy_at (waiting_call e) [] [] (fl_proxy x) \<Longrightarrow> fl_up x = [] \<Longrightarrow> fl_down x = [] \<Longrightarrow>
    fl_sink x = [] \<Longrightarrow> fl_body x = body \<Longrightarrow> stage e body x"
| acking: "client_open rest 0 0 (fl_client x) \<Longrightarrow> fl_down x = [] \<Longrightarrow> fl_sink x = [] \<Longrightarrow> concat rest @ concat (fl_body x) = concat body \<Longrightarrow>
    pieces_ok e rest \<Longrightarrow>
    (proxy_at (waiting_call e) [] [] (fl_proxy x) \<and> fl_up x = [the_ack e]) \<or> (proxy_at [] (acked_call e) [] (fl_proxy x) \<and> fl_up x = []) \<Longrightarrow>
    stage e body x"
| transferring: "transfer e body x \<Longrightarrow> stage e body x"
| to_close: "closing e body x \<Longrightarrow> stage e body x"
| all_done: "finished e body x \<Longrightarrow> stage e body x"

end
