(* ===== verification/Tunnel_Delivery.thy ===== *)
theory Tunnel_Delivery
  imports Tunnel_Flow
begin

text \<open>
  The delivery of a response: every step of the joined system keeps its stage and lowers a measure, and
  a stage without a next step is the finished one.
\<close>

section \<open>The peer's operations\<close>

lemma client_openE:
  assumes "client_open rest n credit c"
  obtains s where "tc_out c = []" "tc_streams c = [(js_int 1, 0)]" "tc_objects c = [s]" "ss_streamId s = js_int 1" "\<not> ss_closed s"
    "ss_socket s = None" "ss_seq s = n" "ss_credit s = credit" "ss_phase s = (if rest = [] then Reading else Sending rest)"
  using assms unfolding client_open_def by blast

lemma phase_open: "client_open rest n credit (fl_client x) \<Longrightarrow> phase_of x = (if rest = [] then Reading else Sending rest)"
  by (auto simp: phase_of_def elim!: client_openE)

lemma phase_fetching: "client_fetching (fl_client x) \<Longrightarrow> phase_of x = Fetching"
  by (auto simp: phase_of_def client_fetching_def)

lemma phase_closed: "client_closed (fl_client x) \<Longrightarrow> phase_of x = Fetched"
  by (auto simp: phase_of_def client_closed_def)

lemma send_pieces_some: "\<exists>out n' credit' rest. send_pieces i n credit ps = (out, n', credit', rest)"
  by (metis prod_cases4)

text \<open>Pieces of an open stream: those the credit covers are sent, in order.\<close>

definition sent_from :: "nat \<Rightarrow> int \<Rightarrow> byte list list \<Rightarrow> byte list list \<Rightarrow> byte list list \<Rightarrow> tunnel_client \<Rightarrow> bool" where
  "sent_from n credit ps sent rest c \<longleftrightarrow>
     ps = sent @ rest \<and> tc_out c = numbered_frames n sent \<and>
     client_open rest (n + length sent) (credit - int (length (concat sent))) (c\<lparr>tc_out := []\<rparr>) \<and>
     (rest \<noteq> [] \<longrightarrow> credit - int (length (concat sent)) < int (length (hd rest))) \<and> 0 \<le> credit - int (length (concat sent))"

lemma pump_open:
  assumes "tc_out c = []" "tc_streams c = [(js_int 1, 0)]" "tc_objects c = [s]" "ss_streamId s = js_int 1" "\<not> ss_closed s"
    "ss_socket s = None" "ss_seq s = n" "ss_credit s = credit" "0 \<le> credit"
  shows "\<exists>sent rest. sent_from n credit ps sent rest (pump t 0 ps c)"
proof -
  obtain out n' credit' rest where s: "send_pieces (js_int 1) n credit ps = (out, n', credit', rest)"
    using send_pieces_some by blast
  from send_pieces_split [OF s] obtain sent where "ps = sent @ rest" "out = numbered_frames n sent" "n' = n + length sent"
      "credit' = credit - int (length (concat sent))" "rest \<noteq> [] \<longrightarrow> credit' < int (length (hd rest))" "0 \<le> credit'"
    using assms(9) by blast
  then show ?thesis
    using assms s by (intro exI [of _ sent] exI [of _ rest])
      (simp add: sent_from_def pump_def act_def with_object_def client_open_def)
qed

lemma chunk_read_open:
  assumes "client_open [] n credit c" "0 \<le> credit"
  shows "\<exists>sent rest. sent_from n credit (chunks_of (cc_chunkSize cfg) chunk) sent rest (chunk_read cfg t 0 chunk c)"
proof -
  from assms(1) obtain s where s: "tc_out c = []" "tc_streams c = [(js_int 1, 0)]" "tc_objects c = [s]" "ss_streamId s = js_int 1"
      "\<not> ss_closed s" "ss_socket s = None" "ss_seq s = n" "ss_credit s = credit" "ss_phase s = Reading"
    by (auto elim!: client_openE)
  then have "chunk_read cfg t 0 chunk c = pump t 0 (chunks_of (cc_chunkSize cfg) chunk) c"
    by (simp add: chunk_read_def)
  then show ?thesis using pump_open [OF s(1-8) assms(2)] by simp
qed

lemma window_open:
  assumes "client_open ps n credit c" "0 \<le> credit" "0 \<le> w"
  shows "\<exists>sent rest. sent_from n (credit + w) ps sent rest (onStreamWindow t (js_int 1) w c)"
proof -
  from assms(1) obtain s where s: "tc_out c = []" "tc_streams c = [(js_int 1, 0)]" "tc_objects c = [s]" "ss_streamId s = js_int 1"
      "\<not> ss_closed s" "ss_socket s = None" "ss_seq s = n" "ss_credit s = credit" "ss_phase s = (if ps = [] then Reading else Sending ps)"
    by (auto elim!: client_openE)
  let ?s = "s\<lparr>ss_credit := ss_credit s + w, ss_lastActivityAt := t\<rparr>"
  let ?c = "c\<lparr>tc_objects := [?s]\<rparr>"
  have p: "\<exists>sent rest. sent_from n (credit + w) ps sent rest (pump t 0 ps ?c)"
    using s assms(2,3) by (intro pump_open [where s = ?s]) auto
  show ?thesis
  proof (cases "ps = []")
    case True
    then show ?thesis using s assms(2,3)
      by (intro exI [of _ "[]"]) (simp add: onStreamWindow_def with_object_def sent_from_def numbered_frames_def client_open_def)
  next
    case False
    then have "onStreamWindow t (js_int 1) w c = pump t 0 ps ?c"
      using s by (simp add: onStreamWindow_def with_object_def)
    then show ?thesis using p by simp
  qed
qed

lemma ended_open:
  assumes "client_open [] n credit c"
  shows "client_closed ((body_ended 0 c)\<lparr>tc_out := []\<rparr>) \<and>
    tc_out (body_ended 0 c) = [Frame (data_frame (js_int 1) n FLAG_FIN []), Abort_fetch 0, Control (Stream_close (js_int 1) ''done'')]"
  using assms
  by (auto simp: body_ended_def sendFin_def closeStream_def act_def with_object_def client_closed_def js_delete_def elim!: client_openE)

lemma window_closed: "client_closed c \<Longrightarrow> onStreamWindow t i w c = c"
  by (auto simp: onStreamWindow_def client_closed_def)

lemma open_fresh:
  assumes "sound_flow e body"
  shows "client_fetching ((handleControl (fe_env e) (fe_client e) t (Stream_open (request_of e)) new_client)\<lparr>tc_out := []\<rparr>) \<and>
    filter to_hub (tc_out (handleControl (fe_env e) (fe_client e) t (Stream_open (request_of e)) new_client)) = []"
  using assms
  by (simp add: sound_flow_def handleControl_def onStreamOpen_def active_streams_def new_client_def new_stream_def request_of_def
      start_fetch_def act_def with_object_def client_fetching_def js_set_def)

lemma answered_fetching:
  assumes "client_fetching c"
  shows "client_open [] 0 0 ((fetch_answered 0 st hs True c)\<lparr>tc_out := []\<rparr>) \<and>
    tc_out (fetch_answered 0 st hs True c) = [Control (Stream_open_ack (js_int 1) st (Some (filterHeaders hs)))]"
  using assms by (auto simp: client_fetching_def fetch_answered_def act_def with_object_def client_open_def)

section \<open>The hub's operations\<close>

definition grants :: "flow_env \<Rightarrow> http_stream \<Rightarrow> byte list \<Rightarrow> bool" where
  "grants e h p \<longleftrightarrow> pc_windowSize (fe_proxy e) \<le> 2 * (hs_bytesOut h + length p - hs_lastGranted h)"

definition after_piece :: "flow_env \<Rightarrow> int \<Rightarrow> byte list \<Rightarrow> http_stream \<Rightarrow> http_stream" where
  "after_piece e t p h =
     h\<lparr>hs_lastActivityAt := t, hs_bytesOut := hs_bytesOut h + length p,
       hs_lastGranted := (if grants e h p then hs_bytesOut h + length p else hs_lastGranted h)\<rparr>"

lemma after_piece_fields [simp]:
  "hs_session (after_piece e t p h) = hs_session h" "hs_finished (after_piece e t p h) = hs_finished h"
  "hs_bytesOut (after_piece e t p h) = hs_bytesOut h + length p"
  "hs_lastGranted (after_piece e t p h) = (if grants e h p then hs_bytesOut h + length p else hs_lastGranted h)"
  by (simp_all add: after_piece_def)

lemma piece_taken:
  assumes "proxy_at [] [] [(js_int 1, h)] q" "frame_encode (data_frame (js_int 1) j 0 p) = Inr bs" "p \<noteq> []" "length p \<le> MAX_FRAME_PAYLOAD"
    and "hs_session h = fe_session e"
  shows "proxy_at [] [] [(js_int 1, after_piece e t p h)] ((onBinaryFrame (fe_proxy e) t peer bs q)\<lparr>px_out := []\<rparr>) \<and>
    px_out (onBinaryFrame (fe_proxy e) t peer bs q) = Sink_write (js_int 1) p # (if grants e h p then window_messages e 1 else [])"
  using assms(1,3,5) plain_decodes [OF _ assms(4,2)]
  by (auto simp: proxy_at_def onBinaryFrame_def onHttpFrame_def take_payload_def put_http_def Let_def emit_def js_set_def grantCredit_def after_piece_def grants_def
      window_messages_def)

lemma fin_taken:
  assumes "proxy_at [] [] [(js_int 1, h)] q" "frame_encode (data_frame (js_int 1) j FLAG_FIN []) = Inr bs"
  shows "proxy_at [] [] [] ((onBinaryFrame cfg t peer bs q)\<lparr>px_out := []\<rparr>) \<and> px_out (onBinaryFrame cfg t peer bs q) = [Sink_end (js_int 1)]"
  using assms(1) plain_decodes [OF _ _ assms(2)]
  by (auto simp: proxy_at_def onBinaryFrame_def onHttpFrame_def take_payload_def put_http_def Let_def emit_def js_set_def js_delete_def cleanupHttp_def)

lemma close_taken: "proxy_at [] [] [] q \<Longrightarrow> onControlMessage peer (Stream_close i r) q = q"
  by (simp add: onControlMessage_def cleanupHttp_def cleanupWs_def proxy_at_def)

lemma ack_taken:
  assumes "proxy_at (waiting_call e) [] [] q"
  shows "proxy_at [] (acked_call e) [] (onControlMessage peer (Stream_open_ack (js_int 1) (fe_status e) (Some (filterHeaders (fe_response e)))) q)"
  using assms by (simp add: onControlMessage_def proxy_at_def waiting_call_def acked_call_def js_set_def js_delete_def)

lemma resume_taken:
  assumes "proxy_at [] (acked_call e) [] q"
  obtains h where "proxy_at [] [] [(js_int 1, h)] ((resume_acked (fe_proxy e) t (js_int 1) q)\<lparr>px_out := []\<rparr>)"
    "px_out (resume_acked (fe_proxy e) t (js_int 1) q) = sink_head e # window_messages e 1"
    "hs_session h = fe_session e" "hs_bytesOut h = 0" "hs_lastGranted h = 0" "\<not> hs_finished h"
proof
  let ?h = "\<lparr>hs_session = fe_session e, hs_bytesOut = 0, hs_lastGranted = 0, hs_finished = False, hs_createdAt = t, hs_lastActivityAt = t\<rparr>"
  show "proxy_at [] [] [(js_int 1, ?h)] ((resume_acked (fe_proxy e) t (js_int 1) q)\<lparr>px_out := []\<rparr>)"
    "px_out (resume_acked (fe_proxy e) t (js_int 1) q) = sink_head e # window_messages e 1"
    using assms by (simp_all add: resume_acked_def proxy_at_def acked_call_def emit_def grantCredit_def js_set_def js_delete_def
        sink_head_def window_messages_def or_else_def)
qed simp_all

section \<open>The measure\<close>

fun phase_work :: "fetch_phase \<Rightarrow> nat" where
  "phase_work Fetching = 20"
| "phase_work Reading = 10"
| "phase_work (Sending ps) = 10 + 4 * length ps"
| "phase_work _ = 0"

fun down_work :: "proxy_action \<Rightarrow> nat" where
  "down_work (To_peer d (Stream_open m)) = 30"
| "down_work _ = 1"

definition work :: "flow \<Rightarrow> nat" where
  "work x = sum_list (map (\<lambda>chunk. 4 * length chunk + 1) (fl_body x)) + phase_work (phase_of x) + 3 * length (fl_up x) +
     sum_list (map down_work (fl_down x)) + 2 * length (px_acked (fl_proxy x))"

lemma down_work_windows [simp]: "sum_list (map down_work (window_messages e k)) = k"
  by (induction k) (auto simp: window_messages_def)

lemma work_start: "sum_list (map (\<lambda>chunk. 4 * length chunk + 1) body) = 4 * length (concat body) + length body"
  by (induction body) auto

section \<open>The steps of each stage\<close>

definition advances :: "flow_env \<Rightarrow> byte list list \<Rightarrow> flow \<Rightarrow> flow \<Rightarrow> bool" where
  "advances e body x y \<longleftrightarrow> stage e body y \<and> work y < work x"

lemma proxy_do_fields [simp]:
  "fl_client (proxy_do f x) = fl_client x" "fl_proxy (proxy_do f x) = (f (fl_proxy x))\<lparr>px_out := []\<rparr>" "fl_up (proxy_do f x) = fl_up x"
  "fl_down (proxy_do f x) = fl_down x @ filter to_peer (px_out (f (fl_proxy x)))"
  "fl_sink (proxy_do f x) = fl_sink x @ filter (\<lambda>a. \<not> to_peer a) (px_out (f (fl_proxy x)))" "fl_body (proxy_do f x) = fl_body x"
  by (simp_all add: proxy_do_def Let_def)

lemma client_do_fields [simp]:
  "fl_proxy (client_do f x) = fl_proxy x" "fl_client (client_do f x) = (f (fl_client x))\<lparr>tc_out := []\<rparr>" "fl_down (client_do f x) = fl_down x"
  "fl_up (client_do f x) = fl_up x @ filter to_hub (tc_out (f (fl_client x)))" "fl_sink (client_do f x) = fl_sink x"
  "fl_body (client_do f x) = fl_body x"
  by (simp_all add: client_do_def Let_def)

lemma phase_of_cong: "fl_client x = fl_client y \<Longrightarrow> phase_of x = phase_of y"
  by (simp add: phase_of_def)

lemma phase_of_proxy_do [simp]: "phase_of (proxy_do f x) = phase_of x"
  by (simp add: phase_of_def)

lemma phase_of_queues [simp]: "phase_of (x\<lparr>fl_up := q\<rparr>) = phase_of x" "phase_of (x\<lparr>fl_down := q'\<rparr>) = phase_of x"
  "phase_of (x\<lparr>fl_body := b\<rparr>) = phase_of x"
  by (simp_all add: phase_of_def)

lemma proxy_at_acked: "proxy_at pending acked http p \<Longrightarrow> px_acked p = acked"
  by (simp add: proxy_at_def)

lemma opened_advances:
  assumes sound: "sound_flow e body" and step: "flow_step e x y"
    and "fl_client x = new_client" "proxy_at (waiting_call e) [] [] (fl_proxy x)" "fl_up x = []"
      "fl_down x = [To_peer (sr_peerId (fe_session e)) (Stream_open (request_of e))]" "fl_sink x = []" "fl_body x = body"
  shows "advances e body x y"
proof -
  have ph: "phase_of x = No_fetch" using assms(3) by (simp add: phase_of_def new_client_def)
  have acked: "px_acked (fl_proxy x) = []" by (rule proxy_at_acked [OF assms(4)])
  from step show ?thesis
  proof cases
    case (down_message d m q t)
    then have m: "m = Stream_open (request_of e)" "q = []" using assms(6) by simp_all
    let ?y = "client_do (handleControl (fe_env e) (fe_client e) t m) (x\<lparr>fl_down := q\<rparr>)"
    from open_fresh [OF sound, of t] have c: "client_fetching (fl_client ?y)" "fl_up ?y = []"
      using assms(3,5) m by simp_all
    then have "stage e body ?y"
      using assms m by (intro stage.fetching) auto
    moreover have "work ?y < work x"
      using phase_fetching [OF c(1)] c(2) ph acked assms m by (simp add: work_def)
    ultimately show ?thesis using down_message by (simp add: advances_def)
  qed (use assms ph acked in simp_all)
qed

lemma fetching_advances:
  assumes step: "flow_step e x y"
    and "client_fetching (fl_client x)" "proxy_at (waiting_call e) [] [] (fl_proxy x)" "fl_up x = []" "fl_down x = []" "fl_sink x = []"
      "fl_body x = body"
  shows "advances e body x y"
proof -
  have ph: "phase_of x = Fetching" by (rule phase_fetching [OF assms(2)])
  have acked: "px_acked (fl_proxy x) = []" by (rule proxy_at_acked [OF assms(3)])
  from step show ?thesis
  proof cases
    case answered
    let ?y = "client_do (fetch_answered 0 (fe_status e) (fe_response e) True) x"
    from answered_fetching [OF assms(2), of "fe_status e" "fe_response e"]
    have c: "client_open [] 0 0 (fl_client ?y)" "fl_up ?y = [the_ack e]"
      using assms(4) by (simp_all add: the_ack_def)
    then have "stage e body ?y"
      using assms by (intro stage.acking [of "[]"]) (auto simp: pieces_ok_def)
    moreover have "work ?y < work x"
      using phase_open [OF c(1)] c(2) ph acked assms by (simp add: work_def)
    ultimately show ?thesis using answered by (simp add: advances_def)
  qed (use assms ph acked in simp_all)
qed

subsection \<open>Pieces put on the wire\<close>

lemma to_hub_flight [simp]: "filter to_hub (flight_frames fs) = flight_frames fs"
  by (induction fs) (auto simp: flight_frames_def)

lemma length_flight [simp]: "length (flight_frames fs) = length fs"
  by (simp add: flight_frames_def)

lemma flight_append: "flight_frames (as @ bs) = flight_frames as @ flight_frames bs"
  by (simp add: flight_frames_def)

lemma numbered_as_flight: "numbered_frames n ps = flight_frames (zip [n..<n + length ps] ps)"
  by (simp add: numbered_frames_def flight_frames_def)

lemma numbered_snd [simp]: "map snd (zip [n..<n + length ps] ps) = ps"
  by simp

lemma pieces_ok_append [simp]: "pieces_ok e (as @ bs) \<longleftrightarrow> pieces_ok e as \<and> pieces_ok e bs"
  by (auto simp: pieces_ok_def)

lemma pieces_ok_Cons [simp]: "pieces_ok e (p # ps) \<longleftrightarrow> p \<noteq> [] \<and> length p \<le> cc_chunkSize (fe_client e) \<and> pieces_ok e ps"
  by (auto simp: pieces_ok_def)

lemma pieces_ok_Nil [simp]: "pieces_ok e []"
  by (simp add: pieces_ok_def)

lemma pieces_ok_chunks: "0 < cc_chunkSize (fe_client e) \<Longrightarrow> pieces_ok e (chunks_of (cc_chunkSize (fe_client e)) chunk)"
  using chunks_bounded unfolding pieces_ok_def by blast

lemma pieces_count: "pieces_ok e ps \<Longrightarrow> length ps \<le> length (concat ps)"
proof (induction ps)
  case (Cons p ps)
  then have "0 < length p" "pieces_ok e ps" by (auto simp: pieces_ok_def)
  then show ?case using Cons.IH by (cases p) auto
qed simp

lemma phase_work_open: "client_open rest n credit (fl_client x) \<Longrightarrow> phase_work (phase_of x) = 10 + 4 * length rest"
  using phase_open by auto

lemma client_open_credit: "client_open rest n credit (fl_client x) \<Longrightarrow> client_open rest n credit (fl_client (x\<lparr>fl_body := b\<rparr>))"
  by simp

text \<open>A chunk of the response: its pieces, the covered ones put on the wire.\<close>

lemma read_sends:
  assumes sound: "sound_flow e body" and op: "client_open [] n credit (fl_client x)" and credit: "0 \<le> credit" and b: "fl_body x = chunk # bs"
    and y: "y = client_do (chunk_read (fe_client e) t 0 chunk) (x\<lparr>fl_body := bs\<rparr>)"
  shows "\<exists>sent rest. client_open rest (n + length sent) (credit - int (length (concat sent))) (fl_client y) \<and>
    fl_up y = fl_up x @ flight_frames (zip [n..<n + length sent] sent) \<and> concat sent @ concat rest = chunk \<and> pieces_ok e (sent @ rest) \<and>
    (rest \<noteq> [] \<longrightarrow> credit - int (length (concat sent)) < int (length (hd rest))) \<and> 0 \<le> credit - int (length (concat sent)) \<and>
    work y < work x"
proof -
  let ?K = "cc_chunkSize (fe_client e)"
  have K: "0 < ?K" using sound by (simp add: sound_flow_def)
  from chunk_read_open [OF op credit, of "fe_client e" chunk t] obtain sent rest
    where s: "sent_from n credit (chunks_of ?K chunk) sent rest (chunk_read (fe_client e) t 0 chunk (fl_client x))" by blast
  have up: "fl_up y = fl_up x @ flight_frames (zip [n..<n + length sent] sent)"
    using s y by (simp add: sent_from_def numbered_as_flight)
  have op': "client_open rest (n + length sent) (credit - int (length (concat sent))) (fl_client y)"
    using s y by (simp add: sent_from_def)
  have ps: "chunks_of ?K chunk = sent @ rest" using s by (simp add: sent_from_def)
  then have cat: "concat sent @ concat rest = chunk" using concat_chunks [OF K, of chunk] by simp
  have ok: "pieces_ok e (sent @ rest)" using pieces_ok_chunks [OF K, of chunk] ps by simp
  have "length chunk = length (concat (sent @ rest))" using cat [symmetric] by (simp only: concat_append)
  then have "length sent + length rest \<le> length chunk" using pieces_count [OF ok] by (simp only: length_append)
  moreover have "phase_work (phase_of y) = 10 + 4 * length rest" "phase_work (phase_of x) = 10"
    using phase_work_open [OF op'] phase_work_open [OF op] by simp_all
  ultimately have "work y < work x" using up b y by (simp add: work_def)
  then show ?thesis using s op' up cat ok by (auto simp: sent_from_def)
qed

text \<open>A window: what was waiting for credit goes out as far as it is covered.\<close>

lemma window_sends:
  assumes op: "client_open ps n credit (fl_client x)" and credit: "0 \<le> credit" and w: "0 \<le> w" and d: "fl_down x = m # q"
    and ok: "pieces_ok e ps" and m: "down_work m = 1"
    and y: "y = client_do (handleControl env cfg t (Stream_window (js_int 1) w)) (x\<lparr>fl_down := q\<rparr>)"
  shows "\<exists>sent rest. client_open rest (n + length sent) (credit + w - int (length (concat sent))) (fl_client y) \<and>
    fl_up y = fl_up x @ flight_frames (zip [n..<n + length sent] sent) \<and> ps = sent @ rest \<and>
    (rest \<noteq> [] \<longrightarrow> credit + w - int (length (concat sent)) < int (length (hd rest))) \<and> 0 \<le> credit + w - int (length (concat sent)) \<and>
    work y < work x"
proof -
  from window_open [OF op credit w, of t] obtain sent rest
    where s: "sent_from n (credit + w) ps sent rest (onStreamWindow t (js_int 1) w (fl_client x))" by blast
  have up: "fl_up y = fl_up x @ flight_frames (zip [n..<n + length sent] sent)"
    using s y by (simp add: sent_from_def numbered_as_flight handleControl_def)
  have op': "client_open rest (n + length sent) (credit + w - int (length (concat sent))) (fl_client y)"
    using s y by (simp add: sent_from_def handleControl_def)
  have ps: "ps = sent @ rest" using s by (simp add: sent_from_def)
  have "phase_work (phase_of y) = 10 + 4 * length rest" "phase_work (phase_of x) = 10 + 4 * length ps"
    using phase_work_open [OF op'] phase_work_open [OF op] by simp_all
  then have "work y < work x" using up d y m ps by (simp add: work_def)
  then show ?thesis using s op' up ps by (auto simp: sent_from_def)
qed

subsection \<open>Acknowledging\<close>

lemma resumed_transfers:
  assumes sound: "sound_flow e body" and op: "client_open rest 0 0 (fl_client x)" and q: "fl_down x = []" "fl_sink x = []" "fl_up x = []"
    and b: "concat rest @ concat (fl_body x) = concat body" and ok: "pieces_ok e rest" and p: "proxy_at [] (acked_call e) [] (fl_proxy x)"
  shows "advances e body x (proxy_do (resume_acked (fe_proxy e) t (js_int 1)) x)"
proof -
  let ?y = "proxy_do (resume_acked (fe_proxy e) t (js_int 1)) x"
  from resume_taken [OF p, of t] obtain h where h: "proxy_at [] [] [(js_int 1, h)] (fl_proxy ?y)"
      "px_out (resume_acked (fe_proxy e) t (js_int 1) (fl_proxy x)) = sink_head e # window_messages e 1"
      "hs_session h = fe_session e" "hs_bytesOut h = 0" "hs_lastGranted h = 0" "\<not> hs_finished h"
    by (auto simp del: One_nat_def)
  have q': "fl_down ?y = window_messages e 1" "fl_sink ?y = [sink_head e]" "fl_up ?y = []"
    using h(2) q by (simp_all add: sink_head_def window_messages_def)
  have law: "credit_law e 0 1 0 0 0" using sound by (simp add: credit_law_def sound_flow_def)
  have hd: "rest \<noteq> [] \<longrightarrow> 0 < length (hd rest)" using ok by (cases rest) (auto simp: pieces_ok_def)
  have len: "length (concat rest @ concat (fl_body ?y)) \<le> length (concat body)" using b by simp
  have "transfer e body ?y"
    unfolding transfer_def
    by (rule exI [of _ rest], rule exI [of _ 0], rule exI [of _ 0], rule exI [of _ "[]"], rule exI [of _ 1], rule exI [of _ "[]"], rule exI [of _ h])
      (use op h q' b ok law hd len in \<open>simp add: flight_frames_def transfer_at_def\<close>)
  moreover have "work ?y < work x"
    using q' q proxy_at_acked [OF h(1)] proxy_at_acked [OF p] by (simp add: work_def acked_call_def del: proxy_do_fields(4,5))
  ultimately show ?thesis by (simp add: advances_def stage.transferring)
qed

lemma the_ack_taken:
  assumes op: "client_open rest 0 0 (fl_client x)" and q: "fl_down x = []" "fl_sink x = []" "fl_up x = [the_ack e]"
    and b: "concat rest @ concat (fl_body x) = concat body" and ok: "pieces_ok e rest" and p: "proxy_at (waiting_call e) [] [] (fl_proxy x)"
    and m: "the_ack e = Control m"
  shows "advances e body x (proxy_do (onControlMessage peer m) (x\<lparr>fl_up := []\<rparr>))"
proof -
  let ?y = "proxy_do (onControlMessage peer m) (x\<lparr>fl_up := []\<rparr>)"
  have a: "proxy_at [] (acked_call e) [] (onControlMessage peer m (fl_proxy x))"
  proof -
    have "m = Stream_open_ack (js_int 1) (fe_status e) (Some (filterHeaders (fe_response e)))"
      using m by (simp only: the_ack_def client_action.inject)
    then show ?thesis using ack_taken [OF p, of peer] by (simp only:)
  qed
  then have out: "px_out (onControlMessage peer m (fl_proxy x)) = []" by (simp only: proxy_at_def)
  have "proxy_at [] (acked_call e) [] (fl_proxy ?y)" using a by (simp add: proxy_at_def)
  then have "stage e body ?y" using op q b ok out by (intro stage.acking [of rest]) simp_all
  moreover have "work ?y < work x"
    using q out proxy_at_acked [OF a] proxy_at_acked [OF p] by (simp add: work_def acked_call_def)
  ultimately show ?thesis by (simp add: advances_def)
qed

lemma acking_advances:
  assumes sound: "sound_flow e body" and step: "flow_step e x y"
    and op: "client_open rest 0 0 (fl_client x)" and q: "fl_down x = []" "fl_sink x = []"
    and b: "concat rest @ concat (fl_body x) = concat body" and ok: "pieces_ok e rest"
    and st: "(proxy_at (waiting_call e) [] [] (fl_proxy x) \<and> fl_up x = [the_ack e]) \<or> (proxy_at [] (acked_call e) [] (fl_proxy x) \<and> fl_up x = [])"
  shows "advances e body x y"
proof -
  have ph: "phase_of x = (if rest = [] then Reading else Sending rest)" by (rule phase_open [OF op])
  from step show ?thesis
  proof cases
    case (up_message m q')
    then show ?thesis using the_ack_taken [OF op q] b ok st by auto
  next
    case (up_frame f q' bs t)
    then show ?thesis using st by (auto simp: the_ack_def)
  next
    case (resumed i call q' t)
    then have "proxy_at [] (acked_call e) [] (fl_proxy x)" "fl_up x = []" "i = js_int 1"
      using st by (auto dest: proxy_at_acked simp: acked_call_def)
    then show ?thesis using resumed_transfers [OF sound op q] b ok resumed by simp
  next
    case (read chunk bs t)
    then have r: "rest = []" using ph by (simp split: if_splits)
    then have op0: "client_open [] 0 0 (fl_client x)" using op by simp
    from read_sends [OF sound op0 order.refl read(3,1)] obtain sent rest'
      where s: "client_open rest' (length sent) (- int (length (concat sent))) (fl_client y)"
        "fl_up y = fl_up x @ flight_frames (zip [0..<length sent] sent)" "concat sent @ concat rest' = chunk" "pieces_ok e (sent @ rest')"
        "int (length (concat sent)) \<le> 0" "work y < work x" by auto
    have "length sent \<le> length (concat sent)" using s(4) by (intro pieces_count [of e]) simp
    moreover have "length (concat sent) = 0" using s(5) by linarith
    ultimately have n: "sent = []" by (simp only: le_zero_eq length_0_conv)
    have "client_open rest' 0 0 (fl_client y)" using s(1) n by simp
    moreover have "fl_up y = fl_up x" using s(2) n by (simp add: flight_frames_def)
    moreover have "concat rest' @ concat (fl_body y) = concat body"
      using s(3) n b r read by simp
    ultimately have "stage e body y"
      using s(4) q st read by (intro stage.acking [of rest']) simp_all
    then show ?thesis using s(6) by (simp add: advances_def)
  next
    case ended
    then have "concat body = []" using ph b by (simp split: if_splits)
    then show ?thesis using sound by (simp add: sound_flow_def)
  qed (use q ph in \<open>simp_all split: if_splits\<close>)
qed

subsection \<open>Transferring\<close>

lemma windows_add: "window_messages e k @ window_messages e j = window_messages e (k + j)"
  by (simp add: window_messages_def replicate_add)

lemma windows_to_peer [simp]: "filter to_peer (window_messages e k) = window_messages e k" "filter (\<lambda>a. \<not> to_peer a) (window_messages e k) = []"
  by (induction k) (auto simp: window_messages_def)

lemma flight_first:
  assumes "fl_up x = flight_frames flight @ post" "fl_up x = Frame f # q" "flight \<noteq> []"
  obtains j p flight' where "flight = (j, p) # flight'" "f = data_frame (js_int 1) j 0 p" "q = flight_frames flight' @ post"
  using assms by (cases flight) (auto simp: flight_frames_def)

lemma piece_received:
  assumes sound: "sound_flow e body" and p: "proxy_at [] [] [(js_int 1, h)] (fl_proxy x)" and ses: "hs_session h = fe_session e"
    and up: "fl_up x = flight_frames ((j, d) # flight) @ post" and down: "fl_down x = window_messages e k"
    and sink: "fl_sink x = sink_head e # map (Sink_write (js_int 1)) ws" and enc: "frame_encode (data_frame (js_int 1) j 0 d) = Inr bs"
    and ok: "pieces_ok e [d]"
    and y: "y = proxy_do (onBinaryFrame (fe_proxy e) t peer bs) (x\<lparr>fl_up := flight_frames flight @ post\<rparr>)"
  shows "proxy_at [] [] [(js_int 1, after_piece e t d h)] (fl_proxy y) \<and> fl_up y = flight_frames flight @ post \<and>
    fl_down y = window_messages e (k + (if grants e h d then 1 else 0)) \<and> fl_sink y = sink_head e # map (Sink_write (js_int 1)) (ws @ [d]) \<and>
    work y < work x"
proof -
  have d: "d \<noteq> []" "length d \<le> MAX_FRAME_PAYLOAD" using ok sound by (auto simp: pieces_ok_def sound_flow_def)
  note taken = piece_taken [OF p enc d ses, of t peer]
  have q: "proxy_at [] [] [(js_int 1, after_piece e t d h)] (fl_proxy y)" using taken y by simp
  have out: "px_out (onBinaryFrame (fe_proxy e) t peer bs (fl_proxy x)) = Sink_write (js_int 1) d # window_messages e (if grants e h d then 1 else 0)"
    using taken by (auto simp: window_messages_def)
  have dn: "fl_down y = window_messages e (k + (if grants e h d then 1 else 0))"
    using out down y by (simp add: windows_add)
  have "work y < work x"
    using proxy_at_acked [OF p] proxy_at_acked [OF q] dn down up y by (simp add: work_def)
  then show ?thesis using q dn out sink y by simp
qed

lemma law_after_piece:
  assumes "credit_law e credit k (length d + inflight) got (hs_lastGranted h)" "hs_bytesOut h = got" "0 < pc_windowSize (fe_proxy e)"
  shows "credit_law e credit (k + (if grants e h d then 1 else 0)) inflight (got + length d) (hs_lastGranted (after_piece e t d h))"
  using assms by (auto simp: credit_law_def grants_def algebra_simps)

lemma law_sends:
  assumes "credit_law e credit k inflight got granted" "0 \<le> credit - int m"
  shows "credit_law e (credit - int m) k (inflight + m) got granted"
  using assms by (auto simp: credit_law_def)

lemma law_window:
  assumes "credit_law e credit (Suc k) inflight got granted" "0 \<le> credit + int (pc_windowSize (fe_proxy e)) - int m"
  shows "credit_law e (credit + int (pc_windowSize (fe_proxy e)) - int m) k (inflight + m) got granted"
  using assms by (auto simp: credit_law_def algebra_simps)

lemma sent_numbers:
  assumes "pieces_ok e sent" "n + length (concat sent) \<le> N" "N < 2 ^ 32" "(j, p) \<in> set (zip [n..<n + length sent] sent)"
  shows "j < 2 ^ 32"
proof -
  have "j < n + length sent" using set_zip_leftD [OF assms(4)] by simp
  then show ?thesis using pieces_count [OF assms(1)] assms(2,3) by linarith
qed

lemma transferI:
  assumes "client_open rest n credit (fl_client x)" "proxy_at [] [] [(js_int 1, h)] (fl_proxy x)" "hs_session h = fe_session e" "\<not> hs_finished h"
    "fl_up x = flight_frames flight" "fl_down x = window_messages e k" "fl_sink x = sink_head e # map (Sink_write (js_int 1)) ws"
    "concat ws @ concat (map snd flight) @ concat rest @ concat (fl_body x) = concat body"
    "hs_bytesOut h = length (concat ws)" "pieces_ok e (map snd flight @ rest)"
    "n + length (concat rest @ concat (fl_body x)) \<le> length (concat body)" "\<forall>(j, p) \<in> set flight. j < 2 ^ 32"
    "rest \<noteq> [] \<longrightarrow> credit < int (length (hd rest))"
    "credit_law e credit k (length (concat (map snd flight))) (length (concat ws)) (hs_lastGranted h)"
  shows "transfer e body x"
  unfolding transfer_def transfer_at_def
  by (rule exI [of _ rest], rule exI [of _ n], rule exI [of _ credit], rule exI [of _ flight], rule exI [of _ k], rule exI [of _ ws], rule exI [of _ h])
    (intro conjI assms)

lemma transfer_atD:
  assumes "transfer_at e body x rest n credit flight k ws h"
  shows "client_open rest n credit (fl_client x)" "proxy_at [] [] [(js_int 1, h)] (fl_proxy x)" "hs_session h = fe_session e" "\<not> hs_finished h"
    "fl_up x = flight_frames flight" "fl_down x = window_messages e k" "fl_sink x = sink_head e # map (Sink_write (js_int 1)) ws"
    "concat ws @ concat (map snd flight) @ concat rest @ concat (fl_body x) = concat body"
    "hs_bytesOut h = length (concat ws)" "pieces_ok e (map snd flight @ rest)"
    "n + length (concat rest @ concat (fl_body x)) \<le> length (concat body)" "\<forall>(j, p) \<in> set flight. j < 2 ^ 32"
    "rest \<noteq> [] \<longrightarrow> credit < int (length (hd rest))"
    "credit_law e credit k (length (concat (map snd flight))) (length (concat ws)) (hs_lastGranted h)"
    "0 \<le> credit" "pieces_ok e (map snd flight)" "phase_of x = (if rest = [] then Reading else Sending rest)"
  using assms phase_open [of rest n credit x] unfolding transfer_at_def credit_law_def by simp_all

text \<open>What was sent since the last state joins the flight.\<close>

lemma sending_keeps_transfer:
  assumes sound: "sound_flow e body"
    and y: "client_open rest (n + length sent) credit (fl_client y)" "fl_proxy y = fl_proxy x"
      "fl_up y = fl_up x @ flight_frames (zip [n..<n + length sent] sent)" "fl_sink y = fl_sink x" "fl_down y = window_messages e k"
    and x: "proxy_at [] [] [(js_int 1, h)] (fl_proxy x)" "hs_session h = fe_session e" "\<not> hs_finished h" "fl_up x = flight_frames flight"
      "fl_sink x = sink_head e # map (Sink_write (js_int 1)) ws" "hs_bytesOut h = length (concat ws)" "\<forall>(j, p) \<in> set flight. j < 2 ^ 32"
      "pieces_ok e (map snd flight)"
    and cat: "concat ws @ concat (map snd flight) @ concat sent @ concat rest @ concat (fl_body y) = concat body"
    and ok: "pieces_ok e (sent @ rest)" and n: "n + length (concat sent @ concat rest @ concat (fl_body y)) \<le> length (concat body)"
    and hd: "rest \<noteq> [] \<longrightarrow> credit < int (length (hd rest))"
    and law: "credit_law e credit k (length (concat (map snd flight)) + length (concat sent)) (length (concat ws)) (hs_lastGranted h)"
  shows "transfer e body y"
proof (rule transferI [where flight = "flight @ zip [n..<n + length sent] sent"])
  have N: "length (concat body) < 2 ^ 32" using sound by (simp add: sound_flow_def)
  have ok': "pieces_ok e sent" using ok by simp
  show "client_open rest (n + length sent) credit (fl_client y)" by (rule y(1))
  show "proxy_at [] [] [(js_int 1, h)] (fl_proxy y)" using x(1) y(2) by simp
  show "fl_up y = flight_frames (flight @ zip [n..<n + length sent] sent)" using y(3) x(4) by (simp add: flight_append)
  show "n + length sent + length (concat rest @ concat (fl_body y)) \<le> length (concat body)" using pieces_count [OF ok'] n by simp
  show "\<forall>(j, p)\<in>set (flight @ zip [n..<n + length sent] sent). j < 2 ^ 32"
  proof -
    have "n + length (concat sent) \<le> length (concat body)" using n by simp
    from sent_numbers [OF ok' this N] show ?thesis using x(7) by (auto simp only: set_append)
  qed
  show "concat ws @ concat (map snd (flight @ zip [n..<n + length sent] sent)) @ concat rest @ concat (fl_body y) = concat body"
    using cat by simp
  show "pieces_ok e (map snd (flight @ zip [n..<n + length sent] sent) @ rest)" using ok x(8) by simp
  show "credit_law e credit k (length (concat (map snd (flight @ zip [n..<n + length sent] sent)))) (length (concat ws)) (hs_lastGranted h)"
    using law by simp
qed (use x y hd in simp_all)

lemma ended_closes:
  assumes sound: "sound_flow e body" and op: "client_open [] n credit (fl_client x)" and b: "fl_body x = []"
    and x: "proxy_at [] [] [(js_int 1, h)] (fl_proxy x)" "hs_session h = fe_session e" "\<not> hs_finished h" "fl_up x = flight_frames flight"
      "fl_down x = window_messages e k" "fl_sink x = sink_head e # map (Sink_write (js_int 1)) ws"
      "concat ws @ concat (map snd flight) = concat body" "pieces_ok e (map snd flight)" "\<forall>(j, p) \<in> set flight. j < 2 ^ 32"
      "n \<le> length (concat body)"
  shows "advances e body x (client_do (body_ended 0) x)"
proof -
  let ?y = "client_do (body_ended 0) x"
  note c = ended_open [OF op]
  have up: "fl_up ?y = flight_frames flight @ [Frame (data_frame (js_int 1) n FLAG_FIN []), Control (Stream_close (js_int 1) ''done'')]"
    using c x(4) by simp
  have cl: "client_closed (fl_client ?y)" using c by simp
  have "n < 2 ^ 32" using x(10) sound by (simp add: sound_flow_def)
  with up cl x b have "closing e body ?y"
    unfolding closing_def
    by (intro exI [of _ n] exI [of _ flight] exI [of _ k] exI [of _ ws] exI [of _ h] conjI) (simp_all del: client_do_fields(2,4))
  moreover have "work ?y < work x"
    using up x(4) phase_closed [OF cl] phase_work_open [OF op] by (simp add: work_def del: client_do_fields(2,4))
  ultimately show ?thesis by (simp add: advances_def stage.to_close)
qed

lemma transfer_receives:
  assumes sound: "sound_flow e body" and tr: "transfer_at e body x rest n credit flight k ws h"
    and up: "fl_up x = Frame f # q" and enc: "frame_encode f = Inr bs"
    and y: "y = proxy_do (onBinaryFrame (fe_proxy e) t (sr_peerId (fe_session e)) bs) (x\<lparr>fl_up := q\<rparr>)"
  shows "advances e body x y"
proof -
  note f = transfer_atD [OF tr]
  have "flight \<noteq> []" using up f(5) by (auto simp: flight_frames_def)
  with f(5) up obtain j d flight' where fl: "flight = (j, d) # flight'" "f = data_frame (js_int 1) j 0 d" "q = flight_frames flight'"
    by (cases flight) (auto simp: flight_frames_def)
  have up': "fl_up x = flight_frames ((j, d) # flight') @ []" using f(5) fl by simp
  have y': "y = proxy_do (onBinaryFrame (fe_proxy e) t (sr_peerId (fe_session e)) bs) (x\<lparr>fl_up := flight_frames flight' @ []\<rparr>)"
    using y fl by simp
  have okd: "pieces_ok e [d]" using f(10) fl by simp
  note r = piece_received [OF sound f(2,3) up' f(6,7) enc [unfolded fl(2)] okd y']
  have "0 < pc_windowSize (fe_proxy e)" using sound by (simp add: sound_flow_def)
  then have law: "credit_law e credit (k + (if grants e h d then 1 else 0)) (length (concat (map snd flight'))) (length (concat (ws @ [d])))
      (hs_lastGranted (after_piece e t d h))"
    using law_after_piece [OF _ f(9), of e credit k d "length (concat (map snd flight'))" t] f(14) fl by simp
  have fy: "fl_client y = fl_client x" "fl_body y = fl_body x" using y by simp_all
  have "transfer e body y"
    by (rule transferI [where flight = flight' and ws = "ws @ [d]" and rest = rest and n = n and credit = credit and
          k = "k + (if grants e h d then 1 else 0)" and h = "after_piece e t d h"])
      (use r f fl law fy in simp_all)
  then show ?thesis using r by (simp add: advances_def stage.transferring)
qed

lemma transfer_granted:
  assumes sound: "sound_flow e body" and tr: "transfer_at e body x rest n credit flight k ws h"
    and down: "fl_down x = To_peer d m # q" and y: "y = client_do (handleControl (fe_env e) (fe_client e) t m) (x\<lparr>fl_down := q\<rparr>)"
  shows "advances e body x y"
proof -
  let ?W = "int (pc_windowSize (fe_proxy e))"
  note f = transfer_atD [OF tr]
  obtain k' where k: "k = Suc k'" using f(6) down by (cases k) (auto simp: window_messages_def)
  with f(6) down have m: "m = Stream_window (js_int 1) ?W" "q = window_messages e k'" "down_work (To_peer d m) = 1"
    by (auto simp: window_messages_def)
  have okr: "pieces_ok e rest" using f(10) by simp
  from window_sends [OF f(1,15) of_nat_0_le_iff down okr m(3) y [unfolded m(1)]] obtain sent rest'
    where s: "client_open rest' (n + length sent) (credit + ?W - int (length (concat sent))) (fl_client y)"
      "fl_up y = fl_up x @ flight_frames (zip [n..<n + length sent] sent)" "rest = sent @ rest'"
      "rest' \<noteq> [] \<longrightarrow> credit + ?W - int (length (concat sent)) < int (length (hd rest'))"
      "0 \<le> credit + ?W - int (length (concat sent))" "work y < work x" by blast
  have fy: "fl_proxy y = fl_proxy x" "fl_sink y = fl_sink x" "fl_body y = fl_body x" "fl_down y = window_messages e k'"
    using y m(2) by simp_all
  have "transfer e body y"
    by (rule sending_keeps_transfer [OF sound s(1) fy(1) s(2) fy(2) fy(4) f(2,3,4,5,7,9,12,16)])
      (use f(8,10,11) s law_window [OF f(14) [unfolded k] s(5)] fy(3) in simp_all)
  then show ?thesis using s(6) by (simp add: advances_def stage.transferring)
qed

lemma transfer_reads:
  assumes sound: "sound_flow e body" and tr: "transfer_at e body x [] n credit flight k ws h" and b: "fl_body x = chunk # bs"
    and y: "y = client_do (chunk_read (fe_client e) t 0 chunk) (x\<lparr>fl_body := bs\<rparr>)"
  shows "advances e body x y"
proof -
  note f = transfer_atD [OF tr]
  from read_sends [OF sound f(1,15) b y] obtain sent rest
    where s: "client_open rest (n + length sent) (credit - int (length (concat sent))) (fl_client y)"
      "fl_up y = fl_up x @ flight_frames (zip [n..<n + length sent] sent)" "concat sent @ concat rest = chunk" "pieces_ok e (sent @ rest)"
      "rest \<noteq> [] \<longrightarrow> credit - int (length (concat sent)) < int (length (hd rest))"
      "0 \<le> credit - int (length (concat sent))" "work y < work x" by blast
  have fy: "fl_proxy y = fl_proxy x" "fl_sink y = fl_sink x" "fl_body y = bs" "fl_down y = window_messages e k"
    using y f(6) by simp_all
  have cat: "concat sent @ concat rest @ concat (fl_body y) = concat (fl_body x)" using fy(3) b by (simp flip: s(3))
  have "transfer e body y"
    by (rule sending_keeps_transfer [OF sound s(1) fy(1) s(2) fy(2) fy(4) f(2,3,4,5,7,9,12,16)])
      (use f(8,11) s(4,5) law_sends [OF f(14) s(6)] cat in simp_all)
  then show ?thesis using s(7) by (simp add: advances_def stage.transferring)
qed

lemma transfer_ends:
  assumes sound: "sound_flow e body" and tr: "transfer_at e body x [] n credit flight k ws h" and b: "fl_body x = []"
  shows "advances e body x (client_do (body_ended 0) x)"
proof -
  note f = transfer_atD [OF tr]
  have "concat ws @ concat (map snd flight) = concat body" "n \<le> length (concat body)" using f(8,11) b by simp_all
  then show ?thesis using ended_closes [OF sound f(1) b f(2,3,4,5,6,7) _ f(16,12)] by simp
qed

lemma transfer_advances:
  assumes sound: "sound_flow e body" and step: "flow_step e x y" and tr: "transfer e body x"
  shows "advances e body x y"
proof -
  from tr obtain rest n credit flight k ws h where tr: "transfer_at e body x rest n credit flight k ws h"
    unfolding transfer_def by blast
  note f = transfer_atD [OF tr]
  from step show ?thesis
  proof cases
    case (up_message m q)
    then show ?thesis using f(5) by (cases flight) (auto simp: flight_frames_def)
  next
    case (up_frame g q bs t)
    then show ?thesis by (intro transfer_receives [OF sound tr]) auto
  next
    case (down_message d m q t)
    then show ?thesis by (intro transfer_granted [OF sound tr]) auto
  next
    case (down_frame d g q bs t)
    then show ?thesis using f(6) by (cases k) (auto simp: window_messages_def)
  next
    case (resumed i call q t)
    then show ?thesis using proxy_at_acked [OF f(2)] by simp
  next
    case answered
    then show ?thesis using f(17) by (simp split: if_splits)
  next
    case (read chunk bs t)
    then have "rest = []" using f(17) by (simp split: if_splits)
    then show ?thesis using transfer_reads [OF sound _ read(3)] tr read(1) by blast
  next
    case ended
    then have "rest = []" using f(17) by (simp split: if_splits)
    then show ?thesis using transfer_ends [OF sound _ ended(3)] tr ended(1) by blast
  qed
qed

subsection \<open>Closing\<close>

lemma window_to_closed:
  assumes "client_closed (fl_client x)" "fl_down x = window_messages e k" "fl_down x = To_peer d m # q"
    and y: "y = client_do (handleControl env cfg t m) (x\<lparr>fl_down := q\<rparr>)"
  shows "fl_client y = fl_client x \<and> fl_up y = fl_up x \<and> fl_down y = window_messages e (k - 1) \<and> work y < work x"
proof -
  obtain k' where k: "k = Suc k'" using assms(2,3) by (cases k) (auto simp: window_messages_def)
  with assms(2,3) have m: "m = Stream_window (js_int 1) (int (pc_windowSize (fe_proxy e)))" "q = window_messages e k'" "down_work (To_peer d m) = 1"
    by (auto simp: window_messages_def)
  have out: "tc_out (fl_client x) = []" using assms(1) by (simp add: client_closed_def)
  then have c: "fl_client y = fl_client x" "fl_up y = fl_up x" "fl_down y = window_messages e k'"
    using window_closed [OF assms(1)] m y by (simp_all add: handleControl_def)
  have "phase_of y = phase_of x" by (rule phase_of_cong [OF c(1)])
  then have "work y < work x" using c m(3) m(2) assms(3) y by (simp add: work_def del: client_do_fields(2,4))
  then show ?thesis using c k by simp
qed

lemma fin_received:
  assumes sound: "sound_flow e body" and cl: "client_closed (fl_client x)" and p: "proxy_at [] [] [(js_int 1, h)] (fl_proxy x)"
    and up: "fl_up x = [Frame (data_frame (js_int 1) n FLAG_FIN []), c]" and down: "fl_down x = window_messages e k"
    and c: "c = Control (Stream_close (js_int 1) ''done'')"
    and sink: "fl_sink x = sink_head e # map (Sink_write (js_int 1)) ws" "concat ws = concat body"
    and enc: "frame_encode (data_frame (js_int 1) n FLAG_FIN []) = Inr bs"
  shows "advances e body x (proxy_do (onBinaryFrame (fe_proxy e) t peer bs) (x\<lparr>fl_up := [c]\<rparr>))"
proof -
  let ?y = "proxy_do (onBinaryFrame (fe_proxy e) t peer bs) (x\<lparr>fl_up := [c]\<rparr>)"
  note r = fin_taken [OF p enc, of "fe_proxy e" t peer]
  have q: "proxy_at [] [] [] (fl_proxy ?y)" using r by simp
  have "fl_sink ?y = sink_head e # map (Sink_write (js_int 1)) ws @ [Sink_end (js_int 1)]" "fl_down ?y = window_messages e k"
    using r sink down by simp_all
  then have "finished e body ?y"
    using q cl c sink(2) unfolding finished_def answered_with_def sink_head_def by (auto simp del: proxy_do_fields(2,4,5))
  moreover have "work ?y < work x"
    using proxy_at_acked [OF q] proxy_at_acked [OF p] r down up by (simp add: work_def)
  ultimately show ?thesis by (simp add: advances_def stage.all_done)
qed

lemma closing_advances:
  assumes sound: "sound_flow e body" and step: "flow_step e x y" and st: "closing e body x"
  shows "advances e body x y"
proof -
  let ?c = "Control (Stream_close (js_int 1) ''done'')"
  from st obtain n flight k ws h
    where cl: "client_closed (fl_client x)" and p: "proxy_at [] [] [(js_int 1, h)] (fl_proxy x)" and ses: "hs_session h = fe_session e"
      and nf: "\<not> hs_finished h" and up: "fl_up x = flight_frames flight @ [Frame (data_frame (js_int 1) n FLAG_FIN []), ?c]"
      and down: "fl_down x = window_messages e k" and sink: "fl_sink x = sink_head e # map (Sink_write (js_int 1)) ws"
      and b: "fl_body x = []" and cat: "concat ws @ concat (map snd flight) = concat body" and ok: "pieces_ok e (map snd flight)"
      and fl: "\<forall>(j, p) \<in> set flight. j < 2 ^ 32" and n: "n < 2 ^ 32"
    unfolding closing_def by blast
  have ph: "phase_of x = Fetched" by (rule phase_closed [OF cl])
  have ack: "px_acked (fl_proxy x) = []" by (rule proxy_at_acked [OF p])
  from step show ?thesis
  proof cases
    case (up_message m q)
    then show ?thesis using up by (cases flight) (auto simp: flight_frames_def)
  next
    case (up_frame f q bs t)
    show ?thesis
    proof (cases flight)
      case Nil
      then have "f = data_frame (js_int 1) n FLAG_FIN []" "q = [?c]" "fl_up x = [Frame (data_frame (js_int 1) n FLAG_FIN []), ?c]" "concat ws = concat body"
        using up cat up_frame(2) by (simp_all add: flight_frames_def)
      then show ?thesis using fin_received [OF sound cl p _ down refl sink] up_frame by simp
    next
      case (Cons jd flight')
      then obtain j d where f: "flight = (j, d) # flight'" "f = data_frame (js_int 1) j 0 d"
          "q = flight_frames flight' @ [Frame (data_frame (js_int 1) n FLAG_FIN []), ?c]"
        using up up_frame(2) by (cases jd) (auto simp: flight_frames_def)
      have y: "y = proxy_do (onBinaryFrame (fe_proxy e) t (sr_peerId (fe_session e)) bs)
          (x\<lparr>fl_up := flight_frames flight' @ [Frame (data_frame (js_int 1) n FLAG_FIN []), ?c]\<rparr>)" using up_frame f by simp
      have okd: "pieces_ok e [d]" using ok f by simp
      note r = piece_received [OF sound p ses up [unfolded f(1)] down sink up_frame(3) [unfolded f(2)] okd y]
      have "closing e body y"
        unfolding closing_def
        by (rule exI [of _ n], rule exI [of _ flight'], rule exI [of _ "k + (if grants e h d then 1 else 0)"], rule exI [of _ "ws @ [d]"],
            rule exI [of _ "after_piece e t d h"])
          (use r cl ses nf b cat ok fl n f(1) y in \<open>simp del: proxy_do_fields(2,3,4,5)\<close>)
      then show ?thesis using r by (simp add: advances_def stage.to_close)
    qed
  next
    case (down_message d m q t)
    note r = window_to_closed [OF cl down down_message(2,1)]
    have "fl_proxy y = fl_proxy x" "fl_sink y = fl_sink x" "fl_body y = fl_body x" using down_message by simp_all
    then have "closing e body y"
      unfolding closing_def using r cl p ses nf up sink b cat ok fl n
      by (intro exI [of _ n] exI [of _ flight] exI [of _ "k - 1"] exI [of _ ws] exI [of _ h]) simp
    then show ?thesis using r by (simp add: advances_def stage.to_close)
  next
    case (down_frame d f q bs t)
    then show ?thesis using down by (cases k) (auto simp: window_messages_def)
  qed (use ack ph in simp_all)
qed

lemma finished_advances:
  assumes step: "flow_step e x y" and st: "finished e body x"
  shows "advances e body x y"
proof -
  from st obtain k where cl: "client_closed (fl_client x)" and p: "proxy_at [] [] [] (fl_proxy x)" and down: "fl_down x = window_messages e k"
      and up: "fl_up x = [] \<or> fl_up x = [Control (Stream_close (js_int 1) ''done'')]" and ans: "answered_with e (concat body) (fl_sink x)"
    unfolding finished_def by blast
  have ph: "phase_of x = Fetched" by (rule phase_closed [OF cl])
  have ack: "px_acked (fl_proxy x) = []" by (rule proxy_at_acked [OF p])
  have out: "px_out (fl_proxy x) = []" using p by (simp add: proxy_at_def)
  from step show ?thesis
  proof cases
    case (up_message m q)
    then have m: "m = Stream_close (js_int 1) ''done''" "q = []" using up by auto
    have y: "fl_proxy y = fl_proxy x" "fl_sink y = fl_sink x" "fl_down y = fl_down x" "fl_client y = fl_client x" "fl_up y = []" "fl_body y = fl_body x"
      using up_message(1) m close_taken [OF p] out by simp_all
    then have "finished e body y" using cl p down ans unfolding finished_def by auto
    moreover have "work y < work x" using y up_message(2) phase_of_cong [OF y(4)] by (simp add: work_def)
    ultimately show ?thesis by (simp add: advances_def stage.all_done)
  next
    case (up_frame f q bs t)
    then show ?thesis using up by auto
  next
    case (down_message d m q t)
    note r = window_to_closed [OF cl down down_message(2,1)]
    have "fl_proxy y = fl_proxy x" "fl_sink y = fl_sink x" using down_message by simp_all
    then have "finished e body y" using r cl p up ans unfolding finished_def by auto
    then show ?thesis using r by (simp add: advances_def stage.all_done)
  next
    case (down_frame d f q bs t)
    then show ?thesis using down by (cases k) (auto simp: window_messages_def)
  qed (use ack ph in simp_all)
qed

section \<open>Progress and delivery\<close>

lemma stage_advances:
  assumes sound: "sound_flow e body" and st: "stage e body x" and step: "flow_step e x y"
  shows "advances e body x y"
  using st
proof cases
  case opened
  then show ?thesis by (intro opened_advances [OF sound step])
next
  case fetching
  then show ?thesis by (intro fetching_advances [OF step])
next
  case (acking rest)
  then show ?thesis by (intro acking_advances [OF sound step])
next
  case transferring
  then show ?thesis by (rule transfer_advances [OF sound step])
next
  case to_close
  then show ?thesis by (rule closing_advances [OF sound step])
next
  case all_done
  then show ?thesis by (rule finished_advances [OF step])
qed

lemma flight_head_steps:
  assumes up: "fl_up x = flight_frames flight @ post" and ne: "flight \<noteq> []" and j: "\<forall>(j, p) \<in> set flight. j < 2 ^ 32"
  shows "\<exists>y. flow_step e x y"
proof -
  obtain j d flight' where f: "flight = (j, d) # flight'" using ne by (cases flight) auto
  then obtain bs where "frame_encode (data_frame (js_int 1) j 0 d) = Inr bs" using plain_encodes [of j 0 d] j by auto
  moreover have "fl_up x = Frame (data_frame (js_int 1) j 0 d) # flight_frames flight' @ post" using up f by (simp add: flight_frames_def)
  ultimately show ?thesis by (blast intro: flow_step.up_frame)
qed

text \<open>Credit never deadlocks: with nothing in flight the peer has more than half a window, so a whole piece.\<close>

lemma transfer_moves:
  assumes sound: "sound_flow e body" and tr: "transfer_at e body x rest n credit flight k ws h"
  shows "\<exists>y. flow_step e x y"
proof (cases "flight = []")
  case False
  then show ?thesis using flight_head_steps [of x flight "[]"] transfer_atD(5,12) [OF tr] by simp
next
  case True
  note f = transfer_atD [OF tr]
  show ?thesis
  proof (cases k)
    case (Suc k')
    then have "fl_down x = To_peer (sr_peerId (fe_session e)) (Stream_window (js_int 1) (int (pc_windowSize (fe_proxy e)))) # window_messages e k'"
      using f(6) by (simp add: window_messages_def)
    then show ?thesis by (blast intro: flow_step.down_message)
  next
    case 0
    show ?thesis
    proof (cases rest)
      case Nil
      then have "phase_of x = Reading" using f(17) by simp
      then show ?thesis by (cases "fl_body x") (blast intro: flow_step.read flow_step.ended)+
    next
      case (Cons p rest')
      then have "credit < int (cc_chunkSize (fe_client e))" using f(10,13) by simp
      moreover have "int (pc_windowSize (fe_proxy e)) < 2 * credit" using f(14) 0 True by (simp add: credit_law_def) arith
      ultimately have False using sound by (simp add: sound_flow_def)
      then show ?thesis ..
    qed
  qed
qed

lemma stage_moves:
  assumes sound: "sound_flow e body" and st: "stage e body x"
  shows "(\<exists>y. flow_step e x y) \<or> answered_with e (concat body) (fl_sink x)"
  using st
proof cases
  case opened
  then show ?thesis by (blast intro: flow_step.down_message)
next
  case fetching
  then show ?thesis using phase_fetching by (blast intro: flow_step.answered)
next
  case (acking rest)
  then show ?thesis
    by (auto simp: the_ack_def acked_call_def proxy_at_def intro: flow_step.up_message flow_step.resumed)
next
  case transferring
  then show ?thesis using transfer_moves [OF sound] unfolding transfer_def by blast
next
  case to_close
  then obtain n flight where f: "fl_up x = flight_frames flight @ [Frame (data_frame (js_int 1) n FLAG_FIN []), Control (Stream_close (js_int 1) ''done'')]"
      "\<forall>(j, p) \<in> set flight. j < 2 ^ 32" "n < 2 ^ 32" unfolding closing_def by blast
  obtain bs where "frame_encode (data_frame (js_int 1) n FLAG_FIN []) = Inr bs" using plain_encodes [of n FLAG_FIN "[]"] f(3) by auto
  then show ?thesis using flight_head_steps [OF f(1) _ f(2)] f(1)
    by (cases "flight = []") (auto simp: flight_frames_def intro: flow_step.up_frame)
next
  case all_done
  then show ?thesis by (simp add: finished_def)
qed

lemma requested_opened: "sound_flow e body \<Longrightarrow> stage e body (requested e body)"
  by (rule stage.opened)
    (simp_all add: requested_def proxy_do_def startHttpStream_def assignStreamId_def sendStreamOpen_def sound_flow_def emit_def new_proxy_def
      request_of_def waiting_call_def proxy_at_def js_set_def)

lemma steps_advance:
  assumes sound: "sound_flow e body" and "flow_steps e n (requested e body) x"
  shows "stage e body x \<and> n + work x \<le> work (requested e body)"
  using assms(2)
proof (induction n "requested e body" x rule: flow_steps.induct)
  case none
  then show ?case using requested_opened [OF sound] by simp
next
  case (more n y z)
  then show ?case using stage_advances [OF sound, of y z] by (auto simp: advances_def)
qed

lemma work_requested:
  assumes "sound_flow e body"
  shows "work (requested e body) = 30 + 4 * length (concat body) + length body"
  using assms
  by (simp add: work_def work_start [simplified] requested_def proxy_do_def startHttpStream_def assignStreamId_def sendStreamOpen_def sound_flow_def emit_def
      new_proxy_def phase_of_def new_client_def)


end
