(* ===== verification/Tunnel_Peer.thy ===== *)
theory Tunnel_Peer
  imports Tunnel_Client
begin

text \<open>
  What the peer of the tunnel keeps in every state its events reach: the locale \<open>event_machine\<close> is the
  argument for any component driven by events, interpreted for \<open>TunnelClient\<close> with its well-formedness.
\<close>

section \<open>Machines driven by events\<close>

inductive reaches :: "('e \<Rightarrow> 's \<Rightarrow> 's) \<Rightarrow> ('e \<Rightarrow> 's \<Rightarrow> bool) \<Rightarrow> 's \<Rightarrow> 's \<Rightarrow> bool" for step ok s where
  initially: "reaches step ok s s"
| then_event: "reaches step ok s x \<Longrightarrow> ok ev x \<Longrightarrow> reaches step ok s (step ev x)"

fun allowed :: "('e \<Rightarrow> 's \<Rightarrow> 's) \<Rightarrow> ('e \<Rightarrow> 's \<Rightarrow> bool) \<Rightarrow> 'e list \<Rightarrow> 's \<Rightarrow> bool" where
  "allowed step ok [] s \<longleftrightarrow> True"
| "allowed step ok (ev # evs) s \<longleftrightarrow> ok ev s \<and> allowed step ok evs (step ev s)"

lemma reaches_fold: "allowed step ok evs s \<Longrightarrow> reaches step ok s\<^sub>0 s \<Longrightarrow> reaches step ok s\<^sub>0 (fold step evs s)"
  by (induction evs arbitrary: s) (auto intro: reaches.then_event)

locale event_machine =
  fixes step :: "'e \<Rightarrow> 's \<Rightarrow> 's" and ok :: "'e \<Rightarrow> 's \<Rightarrow> bool" and init :: 's and inv :: "'s \<Rightarrow> bool"
  assumes starts: "inv init" and keeps: "inv s \<Longrightarrow> ok ev s \<Longrightarrow> inv (step ev s)"
begin

lemma reached: "reaches step ok init s \<Longrightarrow> inv s"
  by (induction rule: reaches.induct) (auto intro: starts keeps)

end

section \<open>A well-formed peer\<close>

text \<open>
  An open stream's request body is what its frames carried, within the limit, and it waits for credit only
  if its next piece is not covered.
\<close>

definition object_ok :: "client_config \<Rightarrow> stream_state \<Rightarrow> bool" where
  "object_ok cfg s \<longleftrightarrow>
     0 \<le> ss_credit s \<and>
     (\<not> ss_closed s \<longrightarrow> ss_bodyBytes s = length (concat (ss_bodyChunks s)) \<and> ss_bodyBytes s \<le> cc_maxRequestBody cfg) \<and>
     (case ss_phase s of Sending ps \<Rightarrow> ps \<noteq> [] \<and> ss_credit s < int (length (hd ps)) | _ \<Rightarrow> True)"

definition entry_ok :: "stream_state list \<Rightarrow> jsnum \<times> nat \<Rightarrow> bool" where
  "entry_ok objs e \<longleftrightarrow> snd e < length objs \<and> ss_streamId (objs ! snd e) = fst e \<and> \<not> ss_closed (objs ! snd e)"

definition client_wf :: "client_config \<Rightarrow> tunnel_client \<Rightarrow> bool" where
  "client_wf cfg c \<longleftrightarrow>
     wf_map (tc_streams c) \<and> length (tc_streams c) \<le> cc_maxStreams cfg \<and> list_all (entry_ok (tc_objects c)) (tc_streams c) \<and>
     list_all (object_ok cfg) (tc_objects c)"

text \<open>Events name objects that exist; a window grants no negative credit.\<close>

fun client_event_ok :: "int \<times> client_event \<Rightarrow> tunnel_client \<Rightarrow> bool" where
  "client_event_ok (now, Received (Stream_window i w)) c \<longleftrightarrow> 0 \<le> w"
| "client_event_ok (now, Fetch_failed i) c \<longleftrightarrow> i < length (tc_objects c)"
| "client_event_ok (now, Fetch_answered i st hs b) c \<longleftrightarrow> i < length (tc_objects c)"
| "client_event_ok (now, Chunk_read i chunk) c \<longleftrightarrow> i < length (tc_objects c)"
| "client_event_ok (now, Body_ended i) c \<longleftrightarrow> i < length (tc_objects c)"
| "client_event_ok (now, Read_failed i) c \<longleftrightarrow> i < length (tc_objects c)"
| "client_event_ok (now, Socket_opened i) c \<longleftrightarrow> i < length (tc_objects c)"
| "client_event_ok (now, Socket_message i b bs) c \<longleftrightarrow> i < length (tc_objects c)"
| "client_event_ok (now, Socket_ended i r) c \<longleftrightarrow> i < length (tc_objects c)"
| "client_event_ok (now, Socket_rejected i st) c \<longleftrightarrow> i < length (tc_objects c)"
| "client_event_ok (now, ev) c \<longleftrightarrow> True"

section \<open>Elementary updates\<close>

lemma wf_act [simp]: "client_wf cfg (act xs c) \<longleftrightarrow> client_wf cfg c"
  by (simp add: client_wf_def act_def)

lemma wf_act_streams [simp]: "client_wf cfg ((act xs c)\<lparr>tc_streams := m\<rparr>) \<longleftrightarrow> client_wf cfg (c\<lparr>tc_streams := m\<rparr>)"
  by (simp add: client_wf_def act_def)

lemma act_fields [simp]: "tc_objects (act xs c) = tc_objects c" "tc_streams (act xs c) = tc_streams c"
  by (simp_all add: act_def)

lemma with_object_fields [simp]:
  "tc_streams (with_object i f c) = tc_streams c" "length (tc_objects (with_object i f c)) = length (tc_objects c)"
  "i < length (tc_objects c) \<Longrightarrow> tc_objects (with_object i f c) ! i = f (tc_objects c ! i)"
  by (simp_all add: with_object_def)

text \<open>Updates that keep an object's name and do not close it.\<close>

definition tame :: "(stream_state \<Rightarrow> stream_state) \<Rightarrow> bool" where
  "tame f \<longleftrightarrow> (\<forall>s. ss_streamId (f s) = ss_streamId s \<and> ss_closed (f s) = ss_closed s)"

lemma entries_tame: "tame f \<Longrightarrow> entry_ok (objs[i := f (objs ! i)]) e \<longleftrightarrow> entry_ok objs e"
  unfolding entry_ok_def tame_def by (cases "i = snd e") (simp_all cong: conj_cong)

lemma objects_update: "list_all P objs \<Longrightarrow> P x \<Longrightarrow> list_all P (objs[i := x])"
  unfolding list_all_iff using set_update_subset_insert [of objs i x] by blast

lemma wf_with_object:
  assumes "client_wf cfg c" "tame f" "object_ok cfg (f (tc_objects c ! i))"
  shows "client_wf cfg (with_object i f c)"
  using assms objects_update [of "object_ok cfg" "tc_objects c" "f (tc_objects c ! i)" i]
  by (simp add: client_wf_def with_object_def entries_tame list_all_iff)

lemma wf_object: "client_wf cfg c \<Longrightarrow> i < length (tc_objects c) \<Longrightarrow> object_ok cfg (tc_objects c ! i)"
  by (simp add: client_wf_def list_all_length)

lemma wf_entry:
  assumes "client_wf cfg c" "js_get (tc_streams c) k = Some i"
  shows "i < length (tc_objects c)" "ss_streamId (tc_objects c ! i) = k" "\<not> ss_closed (tc_objects c ! i)"
  using assms map_of_SomeD [OF assms(2)] by (auto simp: client_wf_def list_all_iff entry_ok_def)

lemma active_is_length: "client_wf cfg c \<Longrightarrow> active_streams c = length (tc_streams c)"
proof -
  assume "client_wf cfg c"
  then have "\<forall>e \<in> set (tc_streams c). \<not> ss_closed (tc_objects c ! snd e)" by (auto simp: client_wf_def list_all_iff entry_ok_def)
  then show ?thesis by (simp add: active_streams_def case_prod_beta)
qed

lemma delete_entries: "kj \<in> set (js_delete k m) \<longleftrightarrow> kj \<in> set m \<and> fst kj \<noteq> k"
  by (auto simp: js_delete_def AList.delete_eq)

lemma js_set_entries: "kj \<in> set (js_set k v m) \<Longrightarrow> kj = (k, v) \<or> kj \<in> set m"
  by (induction m) (auto simp: js_set_def split: if_splits)

lemma delete_length: "length (js_delete k m) \<le> length m"
  by (simp add: js_delete_def length_delete_le)

lemma wf_closeStream: "client_wf cfg c \<Longrightarrow> client_wf cfg (closeStream k r c)"
proof (cases "js_get (tc_streams c) k")
  case (Some i)
  assume wf: "client_wf cfg c"
  note e = wf_entry [OF wf Some]
  let ?s = "(tc_objects c ! i)\<lparr>ss_closed := True, ss_phase := Fetched\<rparr>"
  have other: "entry_ok ((tc_objects c)[i := ?s]) kj" if "kj \<in> set (js_delete k (tc_streams c))" for kj
  proof -
    have "kj \<in> set (tc_streams c)" "fst kj \<noteq> k"
      using that by (simp_all add: delete_entries)
    then have "entry_ok (tc_objects c) kj" "snd kj \<noteq> i" using wf e(2) by (auto simp: client_wf_def list_all_iff entry_ok_def)
    then show ?thesis by (simp add: entry_ok_def)
  qed
  have "object_ok cfg ?s" using wf_object [OF wf e(1)] by (simp add: object_ok_def)
  then have "list_all (object_ok cfg) ((tc_objects c)[i := ?s])"
    using wf by (intro objects_update) (simp_all add: client_wf_def)
  then have "client_wf cfg ((with_object i (\<lambda>s. s\<lparr>ss_closed := True, ss_phase := Fetched\<rparr>) c)\<lparr>tc_streams := js_delete k (tc_streams c)\<rparr>)"
    using wf other order.trans [OF delete_length [of k "tc_streams c"]]
    by (simp add: client_wf_def with_object_def list_all_iff)
  then show ?thesis using Some e(3) by (simp add: closeStream_def Let_def)
qed (simp add: closeStream_def)

section \<open>Every handler keeps it\<close>

lemma send_pieces_bounds:
  assumes "send_pieces sid n credit ps = (out, n', credit', rest)"
  shows "(rest \<noteq> [] \<longrightarrow> credit' < int (length (hd rest))) \<and> (0 \<le> credit \<longrightarrow> 0 \<le> credit')"
  using assms
proof (induction ps arbitrary: n credit out)
  case (Cons p ps)
  show ?case
  proof (cases "credit < int (length p)")
    case False
    obtain out1 n1 c1 r1 where s: "send_pieces sid (n + 1) (credit - int (length p)) ps = (out1, n1, c1, r1)" by (metis prod_cases4)
    then show ?thesis using Cons False by (auto dest: Cons.IH)
  qed (use Cons.prems in auto)
qed simp

lemma wf_pump:
  assumes wf: "client_wf cfg c" and i: "i < length (tc_objects c)"
  shows "client_wf cfg (pump now i ps c)"
proof -
  let ?s = "tc_objects c ! i"
  obtain out n credit rest where s: "send_pieces (ss_streamId ?s) (ss_seq ?s) (ss_credit ?s) ps = (out, n, credit, rest)" by (metis prod_cases4)
  let ?f = "\<lambda>s. s\<lparr>ss_seq := n, ss_credit := credit, ss_lastActivityAt := (if out = [] then ss_lastActivityAt s else now),
      ss_phase := (if rest = [] then Reading else Sending rest)\<rparr>"
  have "object_ok cfg (?f ?s)"
    using send_pieces_bounds [OF s] wf_object [OF wf i] by (auto simp: object_ok_def)
  then have "client_wf cfg (with_object i ?f c)" by (intro wf_with_object wf) (simp_all add: tame_def)
  then show ?thesis using s by (simp add: pump_def split del: if_split)
qed

lemma wf_quiet:
  assumes wf: "client_wf cfg c" and i: "i < length (tc_objects c)" and f: "tame f"
    and same: "\<And>s. ss_credit (f s) = ss_credit s \<and> ss_bodyBytes (f s) = ss_bodyBytes s \<and> ss_bodyChunks (f s) = ss_bodyChunks s"
    and ph: "\<And>s ps. ss_phase (f s) = Sending ps \<Longrightarrow> ss_phase s = Sending ps"
  shows "client_wf cfg (with_object i f c)"
proof (rule wf_with_object [OF wf f])
  have "object_ok cfg (f s)" if "object_ok cfg s" for s
  proof -
    have c: "ss_closed (f s) = ss_closed s" using f by (simp add: tame_def)
    have "case ss_phase (f s) of Sending ps \<Rightarrow> ps \<noteq> [] \<and> ss_credit s < int (length (hd ps)) | _ \<Rightarrow> True"
      using that ph [of s] by (cases "ss_phase (f s)") (simp_all add: object_ok_def)
    then show ?thesis using that by (simp only: object_ok_def same c) blast
  qed
  then show "object_ok cfg (f (tc_objects c ! i))" using wf_object [OF wf i] by blast
qed

lemma wf_sendFin: "client_wf cfg c \<Longrightarrow> i < length (tc_objects c) \<Longrightarrow> client_wf cfg (sendFin i c)"
  by (simp add: sendFin_def Let_def, intro impI wf_quiet) (simp_all add: tame_def)

lemma wf_sendRst: "client_wf cfg c \<Longrightarrow> i < length (tc_objects c) \<Longrightarrow> client_wf cfg (sendRst i c)"
  by (simp add: sendRst_def Let_def, intro wf_quiet) (simp_all add: tame_def)

lemma wf_start_fetch: "client_wf cfg c \<Longrightarrow> i < length (tc_objects c) \<Longrightarrow> client_wf cfg (start_fetch route i body c)"
  by (simp add: start_fetch_def Let_def, intro wf_quiet) (simp_all add: tame_def)

lemma wf_openWsBridge: "client_wf cfg c \<Longrightarrow> i < length (tc_objects c) \<Longrightarrow> client_wf cfg (openWsBridge route origin protos i c)"
  by (simp add: openWsBridge_def Let_def, intro wf_quiet) (simp_all add: tame_def)

lemma objects_of_sendFin [simp]: "length (tc_objects (sendFin i c)) = length (tc_objects c)"
  by (simp add: sendFin_def Let_def)

lemma wf_fetch:
  assumes "client_wf cfg c" "i < length (tc_objects c)"
  shows "client_wf cfg (fetch_failed i c)" "client_wf cfg (fetch_answered i st hs b c)" "client_wf cfg (chunk_read cfg now i chunk c)"
    "client_wf cfg (body_ended i c)" "client_wf cfg (read_failed i c)"
proof -
  have a: "client_wf cfg (act xs c)" for xs using assms by simp
  show "client_wf cfg (fetch_failed i c)" using assms by (simp add: fetch_failed_def Let_def wf_closeStream)
  show "client_wf cfg (chunk_read cfg now i chunk c)" using assms by (simp add: chunk_read_def Let_def wf_pump)
  show "client_wf cfg (body_ended i c)" using assms by (simp add: body_ended_def Let_def wf_closeStream wf_sendFin)
  show "client_wf cfg (read_failed i c)" using assms by (simp add: read_failed_def Let_def wf_closeStream)
  have "client_wf cfg (with_object i (\<lambda>s. s\<lparr>ss_phase := Reading\<rparr>) (act xs c))" for xs
    using assms by (intro wf_quiet) (simp_all add: tame_def)
  moreover have "client_wf cfg (with_object i (\<lambda>s. s\<lparr>ss_phase := Fetched\<rparr>) (sendFin i (act xs c)))" for xs
    using assms by (intro wf_quiet wf_sendFin) (simp_all add: tame_def)
  ultimately show "client_wf cfg (fetch_answered i st hs b c)" using assms by (simp add: fetch_answered_def Let_def)
qed

lemma wf_new_object:
  assumes wf: "client_wf cfg c" and room: "\<not> cc_maxStreams cfg \<le> active_streams c"
  shows "client_wf cfg (c\<lparr>tc_objects := tc_objects c @ [new_stream now msg], tc_streams := js_set (so_streamId msg) (length (tc_objects c)) (tc_streams c)\<rparr>)"
proof -
  let ?objs = "tc_objects c @ [new_stream now msg]"
  have "entry_ok ?objs e" if "e \<in> set (js_set (so_streamId msg) (length (tc_objects c)) (tc_streams c))" for e
  proof -
    have "e \<in> insert (so_streamId msg, length (tc_objects c)) (set (tc_streams c))"
      using js_set_entries [OF that] by simp
    then show ?thesis using wf by (auto simp: entry_ok_def client_wf_def list_all_iff new_stream_def nth_append)
  qed
  moreover have "object_ok cfg (new_stream now msg)" by (simp add: object_ok_def new_stream_def)
  ultimately show ?thesis
    using wf room active_is_length [OF wf] by (simp add: client_wf_def list_all_iff length_js_set)
qed

lemma wf_onStreamOpen: "client_wf cfg c \<Longrightarrow> client_wf cfg (onStreamOpen env cfg now msg c)"
proof (cases "cc_maxStreams cfg \<le> active_streams c")
  case False
  assume wf: "client_wf cfg c"
  show ?thesis
    using wf_new_object [OF wf False, where now = now and msg = msg] False
    by (simp add: onStreamOpen_def Let_def wf_openWsBridge wf_start_fetch)
qed (simp add: onStreamOpen_def)

lemma wf_onStreamWindow:
  assumes wf: "client_wf cfg c" and w: "0 \<le> w"
  shows "client_wf cfg (onStreamWindow now k w c)"
proof (cases "js_get (tc_streams c) k")
  case (Some i)
  note e = wf_entry [OF wf Some]
  let ?f = "\<lambda>s. s\<lparr>ss_credit := ss_credit s + w, ss_lastActivityAt := now\<rparr>"
  let ?c = "with_object i ?f c"
  show ?thesis
  proof (cases "ss_phase (tc_objects c ! i)")
    case (Sending ps)
    let ?s = "tc_objects c ! i"
    have "client_wf cfg (pump now i ps ?c)"
    proof -
      obtain out n credit rest where s: "send_pieces (ss_streamId ?s) (ss_seq ?s) (ss_credit ?s + w) ps = (out, n, credit, rest)" by (metis prod_cases4)
      let ?g = "\<lambda>s. s\<lparr>ss_seq := n, ss_credit := credit, ss_lastActivityAt := (if out = [] then ss_lastActivityAt s else now),
          ss_phase := (if rest = [] then Reading else Sending rest)\<rparr>"
      have "object_ok cfg (?g (?f ?s))"
        using send_pieces_bounds [OF s] wf_object [OF wf e(1)] w by (auto simp: object_ok_def)
      then have "client_wf cfg (with_object i (\<lambda>s. ?g (?f s)) c)" by (intro wf_with_object wf) (simp_all add: tame_def)
      moreover have "with_object i ?g ?c = with_object i (\<lambda>s. ?g (?f s)) c" using e(1) by (simp add: with_object_def)
      ultimately show ?thesis using s e(1) by (simp add: pump_def split del: if_split)
    qed
    then show ?thesis using Some e Sending by (simp add: onStreamWindow_def)
  qed (use Some e wf_object [OF wf e(1)] w in \<open>auto simp: onStreamWindow_def object_ok_def tame_def intro!: wf_with_object [OF wf]\<close>)
qed (use wf in \<open>simp add: onStreamWindow_def\<close>)

lemma wf_handleControl: "client_wf cfg c \<Longrightarrow> client_event_ok (now, Received m) c \<Longrightarrow> client_wf cfg (handleControl env cfg now m c)"
  by (cases m) (simp_all add: handleControl_def wf_onStreamOpen wf_onStreamWindow wf_closeStream)

text \<open>A body frame is kept within the limit; one that passes it resets and closes the stream.\<close>

lemma wf_body_too_large:
  assumes wf: "client_wf cfg c" and e: "js_get (tc_streams c) k = Some i"
  shows "client_wf cfg (closeStream k r (sendRst i (with_object i (\<lambda>s. s\<lparr>ss_bodyBytes := n\<rparr>) c)))"
proof -
  note d = wf_entry [OF wf e]
  have f: "sendRst i (with_object i (\<lambda>s. s\<lparr>ss_bodyBytes := n\<rparr>) c) =
      act [Frame (data_frame k (ss_seq (tc_objects c ! i)) FLAG_RST [])]
        (with_object i (\<lambda>s. s\<lparr>ss_bodyBytes := n, ss_seq := ss_seq s + 1\<rparr>) c)"
    using d by (simp add: sendRst_def with_object_def act_def)
  let ?c = "with_object i (\<lambda>s. s\<lparr>ss_bodyBytes := n, ss_seq := ss_seq s + 1\<rparr>) c"
  have same: "closeStream k r (act xs ?c) =
      act (xs @ [Abort_fetch i] @ (if ss_socket (tc_objects c ! i) \<noteq> None then [Close_socket i] else []) @ [Control (Stream_close k r)])
        ((with_object i (\<lambda>s. s\<lparr>ss_bodyBytes := n, ss_seq := ss_seq s + 1, ss_closed := True, ss_phase := Fetched\<rparr>) c)
          \<lparr>tc_streams := js_delete k (tc_streams c)\<rparr>)" for xs
    using d e by (simp add: closeStream_def with_object_def act_def)
  have "client_wf cfg (closeStream k r c)" by (rule wf_closeStream [OF wf])
  then have cl: "client_wf cfg ((with_object i (\<lambda>s. s\<lparr>ss_closed := True, ss_phase := Fetched\<rparr>) c)\<lparr>tc_streams := js_delete k (tc_streams c)\<rparr>)"
    (is "client_wf cfg ?d") using d e by (simp add: closeStream_def Let_def)
  have "client_wf cfg (with_object i (\<lambda>s. s\<lparr>ss_bodyBytes := n, ss_seq := ss_seq s + 1\<rparr>) ?d)"
    using d(1) by (intro wf_with_object cl) (use wf_object [OF wf d(1)] in \<open>simp_all add: tame_def with_object_def object_ok_def\<close>)
  moreover have "with_object i (\<lambda>s. s\<lparr>ss_bodyBytes := n, ss_seq := ss_seq s + 1\<rparr>) ?d =
      (with_object i (\<lambda>s. s\<lparr>ss_bodyBytes := n, ss_seq := ss_seq s + 1, ss_closed := True, ss_phase := Fetched\<rparr>) c)
          \<lparr>tc_streams := js_delete k (tc_streams c)\<rparr>"
    using d(1) by (cases c; cases "tc_objects c ! i") (simp add: with_object_def)
  ultimately show ?thesis unfolding f same by simp
qed

lemma wf_onBodyFrame:
  assumes wf: "client_wf cfg c" and e: "js_get (tc_streams c) k = Some i"
  shows "client_wf cfg (onBodyFrame env cfg i f c)"
proof -
  note d = wf_entry [OF wf e]
  let ?s = "tc_objects c ! i"
  let ?n = "ss_bodyBytes ?s + length (fr_payload f)"
  let ?g = "\<lambda>s. s\<lparr>ss_bodyBytes := ?n, ss_bodyChunks := ss_bodyChunks s @ [fr_payload f]\<rparr>"
  have g: "with_object i (\<lambda>s. s\<lparr>ss_bodyChunks := ss_bodyChunks s @ [fr_payload f]\<rparr>) (with_object i (\<lambda>s. s\<lparr>ss_bodyBytes := ?n\<rparr>) c) = with_object i ?g c"
    using d(1) by (simp add: with_object_def)
  have kept: "client_wf cfg (with_object i ?g c)" if "\<not> cc_maxRequestBody cfg < ?n"
    using that wf_object [OF wf d(1)] d(3) by (intro wf_with_object wf) (auto simp: object_ok_def tame_def split: fetch_phase.splits)
  then have go: "client_wf cfg (start_fetch r i b (with_object i (\<lambda>s. s\<lparr>ss_awaitingBody := False\<rparr>) (with_object i ?g c)))"
    if "\<not> cc_maxRequestBody cfg < ?n" for r b
    using that d(1) by (intro wf_start_fetch wf_quiet kept) (simp_all add: tame_def)
  show ?thesis
    using wf_body_too_large [OF wf e] kept go d wf g by (simp add: onBodyFrame_def Let_def)
qed

lemma wf_handleBinaryFrame:
  assumes wf: "client_wf cfg c"
  shows "client_wf cfg (handleBinaryFrame env cfg now bs c)"
proof (cases "frame_decode MAX_FRAME_PAYLOAD bs")
  case (Inr f)
  show ?thesis
  proof (cases "js_get (tc_streams c) (fr_streamId f)")
    case (Some i)
    note d = wf_entry [OF wf Some]
    let ?c = "with_object i (\<lambda>s. s\<lparr>ss_lastActivityAt := now\<rparr>) c"
    have wf': "client_wf cfg ?c" using d(1) by (intro wf_quiet wf) (simp_all add: tame_def)
    have "client_wf cfg (onBodyFrame env cfg i f ?c)" using wf_onBodyFrame [OF wf'] Some by simp
    moreover have "client_wf cfg (onWsDataFrame i f ?c)" using wf' by (simp add: onWsDataFrame_def)
    ultimately show ?thesis using Inr Some d(3) by (simp add: handleBinaryFrame_def Let_def)
  qed (use Inr wf in \<open>simp add: handleBinaryFrame_def\<close>)
qed (use wf in \<open>simp add: handleBinaryFrame_def\<close>)

lemma wf_sockets:
  assumes "client_wf cfg c" "i < length (tc_objects c)"
  shows "client_wf cfg (socket_opened i c)" "client_wf cfg (socket_message now i b bs c)" "client_wf cfg (socket_ended i r c)"
    "client_wf cfg (socket_rejected i st c)"
proof -
  have "client_wf cfg (with_object i (\<lambda>s. s\<lparr>ss_socket := Some True\<rparr>) c)" using assms by (intro wf_quiet) (simp_all add: tame_def)
  then show "client_wf cfg (socket_opened i c)" by (simp add: socket_opened_def Let_def)
  have "client_wf cfg (with_object i (\<lambda>s. s\<lparr>ss_seq := ss_seq s + 1, ss_lastActivityAt := now\<rparr>) c)"
    using assms by (intro wf_quiet) (simp_all add: tame_def)
  then show "client_wf cfg (socket_message now i b bs c)" using assms by (simp add: socket_message_def Let_def)
  show "client_wf cfg (socket_ended i r c)" using assms by (simp add: socket_ended_def wf_closeStream)
  show "client_wf cfg (socket_rejected i st c)" using assms by (simp add: socket_rejected_def Let_def wf_closeStream)
qed

lemma wf_fold: "(\<And>x c. client_wf cfg c \<Longrightarrow> client_wf cfg (f x c)) \<Longrightarrow> client_wf cfg c \<Longrightarrow> client_wf cfg (fold f xs c)"
  by (induction xs arbitrary: c) simp_all

lemma wf_client_sweep: "client_wf cfg c \<Longrightarrow> client_wf cfg (client_sweep cfg now c)"
  unfolding client_sweep_def by (rule wf_fold) (simp_all add: sweep_one_def Let_def wf_closeStream)

lemma wf_client_stop: "client_wf cfg c \<Longrightarrow> client_wf cfg (client_stop c)"
  unfolding client_stop_def by (rule wf_fold) (simp_all add: wf_closeStream)

lemma wf_client_step:
  assumes "client_wf cfg c" "client_event_ok ev c"
  shows "client_wf cfg (client_step env cfg (fst ev) (snd ev) c)"
  using assms
  by (cases ev; cases "snd ev")
    (simp_all add: client_step_def wf_handleControl wf_handleBinaryFrame wf_fetch wf_sockets wf_client_sweep wf_client_stop)

interpretation peer: event_machine "\<lambda>ev. client_step env cfg (fst ev) (snd ev)" client_event_ok new_client "client_wf cfg" for env cfg
proof
  show "client_wf cfg new_client" by (simp add: client_wf_def new_client_def)
qed (rule wf_client_step)

text \<open>
C25: whatever the hub, the upstream server and the clock do, the peer's client keeps its bounds: it has at
most \<open>maxStreams\<close> streams, its tables agree with each other, no stream holds a request body above the
limit, and a response waits for credit only while its next piece is larger than the credit it has.
\<close>

theorem client_stays_wf:
  assumes "reaches (\<lambda>ev. client_step env cfg (fst ev) (snd ev)) client_event_ok new_client c"
  shows "client_wf cfg c"
  by (rule peer.reached [OF assms])

end
