(* ===== verification/Tunnel_Hub.thy ===== *)
theory Tunnel_Hub
  imports Tunnel_Proxy Tunnel_Peer
begin

text \<open>
  What the hub's \<open>TunnelProxy\<close> keeps in every state its events reach: its four tables, and towards every
  browser the order status, body, end.
\<close>

section \<open>The order at a response sink\<close>

datatype sink_phase = Untouched | Opened | Over | Broken

fun sink_move :: "jsnum \<Rightarrow> proxy_action \<Rightarrow> sink_phase \<Rightarrow> sink_phase" where
  "sink_move i (Sink_status j st hs) ph = (if j \<noteq> i then ph else if ph = Untouched then Opened else Broken)"
| "sink_move i (Sink_write j bs) ph = (if j \<noteq> i then ph else if ph = Opened then Opened else Broken)"
| "sink_move i (Sink_end j) ph = (if j \<noteq> i then ph else if ph = Opened then Over else Broken)"
| "sink_move i (Sink_destroy j) ph = (if j \<noteq> i then ph else if ph = Opened \<or> ph = Over then Over else Broken)"
| "sink_move i _ ph = ph"

definition sink_phase :: "jsnum \<Rightarrow> proxy_action list \<Rightarrow> sink_phase" where
  "sink_phase i as = fold (sink_move i) as Untouched"

lemma sink_phase_append [simp]: "sink_phase i (as @ bs) = fold (sink_move i) bs (sink_phase i as)"
  by (simp add: sink_phase_def)

lemma sink_phase_Nil [simp]: "sink_phase i [] = Untouched"
  by (simp add: sink_phase_def)

fun sink_action :: "proxy_action \<Rightarrow> bool" where
  "sink_action (Sink_status j st hs) = True"
| "sink_action (Sink_write j bs) = True"
| "sink_action (Sink_end j) = True"
| "sink_action (Sink_destroy j) = True"
| "sink_action _ = False"

lemma fold_no_sink: "list_all (Not \<circ> sink_action) as \<Longrightarrow> fold (sink_move i) as ph = ph"
proof (induction as)
  case (Cons a as)
  then show ?case by (cases a) auto
qed simp

section \<open>A well-formed hub\<close>

definition assigned :: "tunnel_proxy \<Rightarrow> jsnum \<Rightarrow> bool" where
  "assigned p i \<longleftrightarrow> (\<exists>k < px_nextStreamId p. i = js_int (int k))"

text \<open>
  An identifier is in one table at most, and only if it was handed out; its sink is open while its
  response stream is, untouched before and over after that.
\<close>

definition fits :: "bool \<Rightarrow> bool \<Rightarrow> bool \<Rightarrow> bool \<Rightarrow> bool \<Rightarrow> sink_phase \<Rightarrow> bool" where
  "fits pending acked http ws known ph \<longleftrightarrow>
     (pending \<longrightarrow> \<not> acked \<and> \<not> http \<and> \<not> ws) \<and> (acked \<longrightarrow> \<not> http \<and> \<not> ws) \<and> (http \<longrightarrow> \<not> ws) \<and>
     (pending \<or> acked \<or> http \<or> ws \<longrightarrow> known) \<and>
     (http \<longrightarrow> ph = Opened) \<and> (pending \<or> acked \<or> ws \<or> \<not> known \<longrightarrow> ph = Untouched) \<and> (\<not> http \<longrightarrow> ph = Untouched \<or> ph = Over)"

definition place_ok :: "tunnel_proxy \<Rightarrow> jsnum \<Rightarrow> bool" where
  "place_ok p i \<longleftrightarrow>
     fits (js_has (px_pending p) i) (js_has (px_acked p) i) (js_has (px_http p) i) (js_has (px_ws p) i) (assigned p i) (sink_phase i (px_out p))"

definition proxy_wf :: "tunnel_proxy \<Rightarrow> bool" where
  "proxy_wf p \<longleftrightarrow>
     wf_map (px_pending p) \<and> wf_map (px_acked p) \<and> wf_map (px_http p) \<and> wf_map (px_ws p) \<and>
     (\<forall>i h. js_get (px_http p) i = Some h \<longrightarrow> \<not> hs_finished h) \<and> (\<forall>i. place_ok p i)"

section \<open>Elementary updates\<close>

lemma emit_fields [simp]:
  "px_nextStreamId (emit xs p) = px_nextStreamId p" "px_pending (emit xs p) = px_pending p" "px_acked (emit xs p) = px_acked p"
  "px_http (emit xs p) = px_http p" "px_ws (emit xs p) = px_ws p" "px_out (emit xs p) = px_out p @ xs"
  "px_bytesIn (emit xs p) = px_bytesIn p" "px_bytesOut (emit xs p) = px_bytesOut p"
  by (simp_all add: emit_def)

lemma assigned_cong: "px_nextStreamId p = px_nextStreamId q \<Longrightarrow> assigned p i = assigned q i"
  by (simp add: assigned_def)

lemma has_get: "js_get m i = Some v \<Longrightarrow> js_has m i"
  by (simp add: js_has_def)

text \<open>Updates that leave every identifier in its table and every sink as it is.\<close>

lemma wf_same:
  assumes "proxy_wf p"
    and "px_nextStreamId q = px_nextStreamId p" "wf_map (px_pending q)" "wf_map (px_acked q)" "wf_map (px_http q)" "wf_map (px_ws q)"
    and "\<And>i. js_has (px_pending q) i = js_has (px_pending p) i" "\<And>i. js_has (px_acked q) i = js_has (px_acked p) i"
      "\<And>i. js_has (px_http q) i = js_has (px_http p) i" "\<And>i. js_has (px_ws q) i = js_has (px_ws p) i"
    and "\<And>i h. js_get (px_http q) i = Some h \<Longrightarrow> \<not> hs_finished h"
    and "\<And>i. sink_phase i (px_out q) = sink_phase i (px_out p)"
  shows "proxy_wf q"
  using assms by (simp add: proxy_wf_def place_ok_def assigned_def)

lemma wf_parts:
  assumes "proxy_wf p"
  shows "wf_map (px_pending p)" "wf_map (px_acked p)" "wf_map (px_http p)" "wf_map (px_ws p)"
    "\<And>i h. js_get (px_http p) i = Some h \<Longrightarrow> \<not> hs_finished h" "\<And>i. place_ok p i"
  using assms unfolding proxy_wf_def by blast+

lemma wf_emit: "proxy_wf p \<Longrightarrow> list_all (Not \<circ> sink_action) xs \<Longrightarrow> proxy_wf (emit xs p)"
  by (rule wf_same [of p]) (simp_all add: wf_parts fold_no_sink)

lemma wf_put_http:
  "proxy_wf p \<Longrightarrow> js_has (px_http p) i \<Longrightarrow> \<not> hs_finished h \<Longrightarrow> proxy_wf (p\<lparr>px_http := js_set i h (px_http p)\<rparr>)"
  by (rule wf_same [of p]) (auto simp: wf_parts split: if_splits)

lemma wf_put_ws: "proxy_wf p \<Longrightarrow> js_has (px_ws p) i \<Longrightarrow> proxy_wf (p\<lparr>px_ws := js_set i w (px_ws p)\<rparr>)"
  by (rule wf_same [of p]) (auto simp: wf_parts)

lemma wf_counters: "proxy_wf p \<Longrightarrow> proxy_wf (p\<lparr>px_bytesIn := a\<rparr>)" "proxy_wf p \<Longrightarrow> proxy_wf (p\<lparr>px_bytesOut := b\<rparr>)"
  by (rule wf_same [of p], simp_all add: wf_parts)+

lemma open_sink: "proxy_wf p \<Longrightarrow> js_has (px_http p) i \<Longrightarrow> sink_phase i (px_out p) = Opened"
  using wf_parts(6) [of p i] by (simp add: place_ok_def fits_def)

lemma wf_write: "proxy_wf p \<Longrightarrow> js_has (px_http p) i \<Longrightarrow> proxy_wf (emit [Sink_write i bs] p)"
  by (rule wf_same [of p]) (auto simp: wf_parts open_sink)

text \<open>Updates that move one identifier from table to table.\<close>

lemma wf_move:
  assumes "proxy_wf p"
    and "px_nextStreamId q = px_nextStreamId p" "wf_map (px_pending q)" "wf_map (px_acked q)" "wf_map (px_http q)" "wf_map (px_ws q)"
    and "\<And>i. i \<noteq> k \<Longrightarrow> js_has (px_pending q) i = js_has (px_pending p) i" "\<And>i. i \<noteq> k \<Longrightarrow> js_has (px_acked q) i = js_has (px_acked p) i"
      "\<And>i. i \<noteq> k \<Longrightarrow> js_has (px_http q) i = js_has (px_http p) i" "\<And>i. i \<noteq> k \<Longrightarrow> js_has (px_ws q) i = js_has (px_ws p) i"
    and "\<And>i h. js_get (px_http q) i = Some h \<Longrightarrow> \<not> hs_finished h"
    and "\<And>i. i \<noteq> k \<Longrightarrow> sink_phase i (px_out q) = sink_phase i (px_out p)"
    and "place_ok q k"
  shows "proxy_wf q"
proof -
  have "place_ok q i" for i
    using assms(2) assms(7-10,12) [of i] assms(13) wf_parts(6) [OF assms(1), of i] by (cases "i = k") (simp_all add: place_ok_def assigned_def)
  then show ?thesis using assms by (simp add: proxy_wf_def)
qed

lemma wf_drop_pending: "proxy_wf p \<Longrightarrow> proxy_wf (p\<lparr>px_pending := js_delete i (px_pending p)\<rparr>)"
  by (rule wf_move [of p _ i]) (use wf_parts [of p] in \<open>auto simp: place_ok_def fits_def assigned_def\<close>)

lemma wf_drop_ws: "proxy_wf p \<Longrightarrow> proxy_wf (p\<lparr>px_ws := js_delete i (px_ws p)\<rparr>)"
  by (rule wf_move [of p _ i]) (use wf_parts [of p] in \<open>auto simp: place_ok_def fits_def assigned_def\<close>)

section \<open>Every handler keeps it\<close>

lemma fresh_place:
  assumes "proxy_wf p"
  shows "fits (js_has (px_pending p) (js_int (int (px_nextStreamId p)))) (js_has (px_acked p) (js_int (int (px_nextStreamId p))))
    (js_has (px_http p) (js_int (int (px_nextStreamId p)))) (js_has (px_ws p) (js_int (int (px_nextStreamId p)))) False
    (sink_phase (js_int (int (px_nextStreamId p))) (px_out p))"
  using wf_parts(6) [OF assms, of "js_int (int (px_nextStreamId p))"] by (auto simp: place_ok_def fits_def assigned_def)

lemma assigned_next: "i \<noteq> js_int (int (px_nextStreamId p)) \<Longrightarrow> assigned (p\<lparr>px_nextStreamId := px_nextStreamId p + 1\<rparr>) i = assigned p i"
  by (auto simp: assigned_def less_Suc_eq)

lemma wf_assign: "proxy_wf p \<Longrightarrow> proxy_wf (p\<lparr>px_nextStreamId := px_nextStreamId p + 1\<rparr>)"
proof -
  assume wf: "proxy_wf p"
  let ?q = "p\<lparr>px_nextStreamId := px_nextStreamId p + 1\<rparr>"
  have "place_ok ?q i" for i
  proof (cases "i = js_int (int (px_nextStreamId p))")
    case True
    then show ?thesis using fresh_place [OF wf] by (simp add: place_ok_def fits_def)
  next
    case False
    then show ?thesis using wf_parts(6) [OF wf, of i] assigned_next [OF False] by (simp add: place_ok_def)
  qed
  then show ?thesis using wf by (simp add: proxy_wf_def)
qed

lemma wf_register:
  assumes wf: "proxy_wf p"
  shows "proxy_wf (p\<lparr>px_nextStreamId := px_nextStreamId p + 1, px_pending := js_set (js_int (int (px_nextStreamId p))) call (px_pending p)\<rparr>)"
proof -
  let ?i = "js_int (int (px_nextStreamId p))"
  let ?p = "p\<lparr>px_nextStreamId := px_nextStreamId p + 1\<rparr>"
  have "proxy_wf (?p\<lparr>px_pending := js_set ?i call (px_pending ?p)\<rparr>)"
    by (rule wf_move [OF wf_assign [OF wf], of _ ?i])
      (use wf_parts [OF wf] fresh_place [OF wf] in \<open>auto simp: place_ok_def fits_def assigned_def\<close>)
  then show ?thesis by simp
qed

lemma wf_sendStreamOpen:
  assumes "proxy_wf p" "so_streamId req = js_int (int (px_nextStreamId p))"
  shows "proxy_wf (snd (sendStreamOpen cfg req call peer (p\<lparr>px_nextStreamId := px_nextStreamId p + 1\<rparr>)))"
  using assms wf_assign [OF assms(1)] wf_register [OF assms(1), of call] by (simp add: sendStreamOpen_def wf_emit)

lemma wf_startHttpStream: "proxy_wf p \<Longrightarrow> proxy_wf (startHttpStream cfg s m path hs body p)"
proof -
  assume wf: "proxy_wf p"
  let ?req = "\<lparr>so_streamId = js_int (int (px_nextStreamId p)), so_sessionId = sr_sessionId s, so_method = m, so_path = path,
      so_headers = Some hs, so_upgrade = False\<rparr>"
  obtain sent q where q: "sendStreamOpen cfg ?req (Pending_http s) (sr_peerId s) (p\<lparr>px_nextStreamId := px_nextStreamId p + 1\<rparr>) = (sent, q)"
    by (metis prod.collapse)
  have "proxy_wf q" using wf_sendStreamOpen [OF wf, of ?req cfg "Pending_http s" "sr_peerId s"] q by simp
  moreover have "list_all (Not \<circ> sink_action) (map (Frame_to_peer d) fs)" for d fs by (simp add: list_all_iff)
  ultimately show ?thesis using q wf by (cases sent) (simp_all add: startHttpStream_def assignStreamId_def wf_emit)
qed

lemma wf_startWsBridge: "proxy_wf p \<Longrightarrow> proxy_wf (startWsBridge cfg s path hs p)"
  using wf_sendStreamOpen [of p] by (simp add: startWsBridge_def assignStreamId_def)

lemma wf_grantCredit: "proxy_wf p \<Longrightarrow> proxy_wf (grantCredit i n p)"
  by (cases "js_get (px_http p) i") (simp_all add: grantCredit_def wf_emit)

lemma wf_resume_acked: "proxy_wf p \<Longrightarrow> proxy_wf (resume_acked cfg now i p)"
proof (cases "js_get (px_acked p) i")
  case (Some a)
  assume wf: "proxy_wf p"
  obtain call st hs where a: "a = (call, st, hs)" by (cases a) auto
  have ack: "js_has (px_acked p) i" using Some by (rule has_get)
  note pl = wf_parts(6) [OF wf, of i]
  show ?thesis
  proof (cases call)
    case (Pending_http s)
    let ?h = "\<lparr>hs_session = s, hs_bytesOut = 0, hs_lastGranted = 0, hs_finished = False, hs_createdAt = now, hs_lastActivityAt = now\<rparr>"
    let ?p = "(emit [Sink_status i st (or_else hs [])] (p\<lparr>px_acked := js_delete i (px_acked p)\<rparr>))\<lparr>px_http := js_set i ?h (px_http p)\<rparr>"
    have "proxy_wf ?p"
      by (rule wf_move [OF wf, of _ i]) (use wf_parts [OF wf] pl ack in \<open>auto simp: place_ok_def fits_def assigned_def split: if_splits\<close>)
    then show ?thesis using Some a Pending_http by (simp add: resume_acked_def wf_grantCredit)
  next
    case (Pending_ws s)
    let ?p = "p\<lparr>px_acked := js_delete i (px_acked p)\<rparr>"
    have d: "proxy_wf ?p"
      by (rule wf_move [OF wf, of _ i]) (use wf_parts [OF wf] pl ack in \<open>auto simp: place_ok_def fits_def assigned_def\<close>)
    have "proxy_wf (?p\<lparr>px_ws := js_set i \<lparr>wt_session = s, wt_seq = 0, wt_createdAt = now, wt_lastActivityAt = now\<rparr> (px_ws ?p)\<rparr>)"
      by (rule wf_move [OF d, of _ i]) (use wf_parts [OF wf] pl ack in \<open>auto simp: place_ok_def fits_def assigned_def\<close>)
    then show ?thesis using Some a Pending_ws wf_emit [OF d] by (simp add: resume_acked_def bridge_refused_def Let_def)
  qed
qed (simp add: resume_acked_def)

lemma wf_ack_timeout: "proxy_wf p \<Longrightarrow> proxy_wf (ack_timeout i p)"
  using wf_drop_pending [of p i]
  by (auto simp: ack_timeout_def bridge_refused_def Let_def intro!: wf_emit split: option.splits pending_call.splits)

text \<open>An entry removed with its sink brought to its end.\<close>

lemma wf_end:
  assumes wf: "proxy_wf p" and "js_has (px_http p) i" and q: "px_nextStreamId q = px_nextStreamId p" "px_pending q = px_pending p"
    "px_acked q = px_acked p" "px_ws q = px_ws p" "px_http q = js_delete i m" "px_out q = px_out p @ as"
    and m: "wf_map m" "\<And>j. j \<noteq> i \<Longrightarrow> js_get m j = js_get (px_http p) j"
    and as: "fold (sink_move i) as Opened = Over" "\<And>j. j \<noteq> i \<Longrightarrow> list_all (\<lambda>a. \<forall>ph. sink_move j a ph = ph) as"
  shows "proxy_wf q"
proof (rule wf_move [OF wf, of _ i])
  have "fold (sink_move j) as ph = ph" if "j \<noteq> i" for j ph
    using as(2) [OF that] by (induction as) auto
  then show "sink_phase j (px_out q) = sink_phase j (px_out p)" if "j \<noteq> i" for j using that q by simp
  show "place_ok q i" using wf_parts(6) [OF wf, of i] assms(2) q as(1) open_sink [OF wf assms(2)] by (simp add: place_ok_def fits_def assigned_def)
  show "\<not> hs_finished h" if "js_get (px_http q) j = Some h" for j h
    using that wf_parts(5) [OF wf] m(2) q by (cases "j = i") auto
qed (use q m wf_parts [OF wf] in \<open>simp_all add: js_has_def\<close>)

lemma wf_cleanupHttp: "proxy_wf p \<Longrightarrow> proxy_wf (cleanupHttp i r p)"
proof (cases "js_get (px_http p) i")
  case (Some h)
  assume wf: "proxy_wf p"
  show ?thesis
    by (rule wf_end [OF wf has_get [OF Some], where m = "px_http p" and
          as = "Sink_destroy i # (if r \<noteq> ''done'' \<and> r \<noteq> ''stopped'' then [Log_stream_close i r] else [])"])
      (use Some wf_parts [OF wf] in \<open>simp_all add: cleanupHttp_def\<close>)
qed (simp add: cleanupHttp_def)

lemma wf_cleanupWs: "proxy_wf p \<Longrightarrow> proxy_wf (cleanupWs i r p)"
  by (cases "js_get (px_ws p) i") (simp_all add: cleanupWs_def wf_emit wf_drop_ws)

lemma wf_proxy_closeStream: "proxy_wf p \<Longrightarrow> proxy_wf (proxy_closeStream i r p)"
  by (simp add: proxy_closeStream_def wf_emit split: option.split)

lemma wf_closing:
  assumes "proxy_wf p"
  shows "proxy_wf (client_abort i p)" "proxy_wf (closeWs i r p)"
  using assms by (simp_all add: client_abort_def closeWs_def wf_cleanupHttp wf_cleanupWs wf_proxy_closeStream split: option.split)

lemma wf_onControlMessage: "proxy_wf p \<Longrightarrow> proxy_wf (onControlMessage peer msg p)"
proof (cases msg)
  case (Stream_open_ack i st hs)
  assume wf: "proxy_wf p"
  show ?thesis
  proof (cases "js_get (px_pending p) i")
    case (Some call)
    have "proxy_wf (p\<lparr>px_pending := js_delete i (px_pending p), px_acked := js_set i (call, st, hs) (px_acked p)\<rparr>)"
      by (rule wf_move [OF wf, of _ i])
        (use wf_parts [OF wf] wf_parts(6) [OF wf, of i] has_get [OF Some] in \<open>auto simp: place_ok_def fits_def assigned_def\<close>)
    then show ?thesis using Some Stream_open_ack by (simp add: onControlMessage_def)
  qed (use wf Stream_open_ack in \<open>simp add: onControlMessage_def\<close>)
qed (simp_all add: onControlMessage_def wf_cleanupHttp wf_cleanupWs)

text \<open>The frames of a response: data, a reset, the end.\<close>

lemma wf_put_http':
  "proxy_wf p \<Longrightarrow> js_has (px_http p) i \<Longrightarrow> \<not> hs_finished h \<Longrightarrow> proxy_wf (put_http i h p)"
  by (simp add: put_http_def wf_put_http)

lemma put_http_fields [simp]: "px_http (put_http i h p) = js_set i h (px_http p)" "px_out (put_http i h p) = px_out p"
  "px_nextStreamId (put_http i h p) = px_nextStreamId p" "px_pending (put_http i h p) = px_pending p" "px_acked (put_http i h p) = px_acked p"
  "px_ws (put_http i h p) = px_ws p"
  by (simp_all add: put_http_def)

lemma wf_take_payload:
  assumes "proxy_wf p" "js_has (px_http p) i" "\<not> hs_finished h"
  shows "proxy_wf (take_payload cfg i h bs p)"
proof -
  let ?h = "h\<lparr>hs_bytesOut := hs_bytesOut h + length bs\<rparr>"
  have w: "proxy_wf ((emit [Sink_write i bs] (put_http i ?h p))\<lparr>px_bytesOut := n\<rparr>)" for n
    using assms by (intro wf_counters wf_write wf_put_http') simp_all
  have "proxy_wf (grantCredit i c (put_http i (?h\<lparr>hs_lastGranted := m\<rparr>) ((emit [Sink_write i bs] (put_http i ?h p))\<lparr>px_bytesOut := n\<rparr>)))" for c m n
    using w assms(3) by (intro wf_grantCredit wf_put_http') simp_all
  with w show ?thesis using assms by (simp add: take_payload_def Let_def wf_put_http')
qed

lemma take_payload_present: "js_has (px_http p) i \<Longrightarrow> \<exists>h'. js_get (px_http (take_payload cfg i h bs p)) i = Some h'"
  by (simp add: take_payload_def Let_def grantCredit_def)

lemma wf_onHttpFrame:
  assumes wf: "proxy_wf p" and h: "js_get (px_http p) i = Some h"
  shows "proxy_wf (onHttpFrame cfg now i h f p)"
proof -
  let ?h = "h\<lparr>hs_lastActivityAt := now\<rparr>"
  let ?p1 = "take_payload cfg i ?h (fr_payload f) p"
  have nf: "\<not> hs_finished ?h" using wf_parts(5) [OF wf h] by simp
  have has: "js_has (px_http p) i" using h by (rule has_get)
  have p1: "proxy_wf ?p1" by (rule wf_take_payload [OF wf has nf])
  obtain h' where h': "js_get (px_http ?p1) i = Some h'" using take_payload_present [OF has] by blast
  have "proxy_wf (cleanupHttp i ''done'' (emit [Sink_end i] (put_http i (h'\<lparr>hs_finished := True\<rparr>) ?p1)))"
    by (rule wf_end [OF p1 has_get [OF h'], where m = "js_set i (h'\<lparr>hs_finished := True\<rparr>) (px_http ?p1)" and as = "[Sink_end i]"])
      (use wf_parts(3) [OF p1] in \<open>simp_all add: cleanupHttp_def\<close>)
  moreover have "proxy_wf (cleanupHttp i ''rst'' (emit [Sink_destroy i] (put_http i ?h p)))"
    by (rule wf_end [OF wf has, where m = "js_set i ?h (px_http p)" and as = "[Sink_destroy i, Sink_destroy i, Log_stream_close i ''rst'']"])
      (use wf_parts(3) [OF wf] nf in \<open>simp_all add: cleanupHttp_def\<close>)
  ultimately show ?thesis using p1 h' by (simp add: onHttpFrame_def Let_def)
qed

lemma wf_onWsFrame: "proxy_wf p \<Longrightarrow> js_get (px_ws p) i = Some w \<Longrightarrow> proxy_wf (onWsFrame now i w f p)"
  by (simp add: onWsFrame_def Let_def wf_cleanupWs wf_emit wf_counters wf_put_ws has_get)

lemma wf_onBinaryFrame: "proxy_wf p \<Longrightarrow> proxy_wf (onBinaryFrame cfg now peer bs p)"
  by (auto simp: onBinaryFrame_def wf_onHttpFrame wf_onWsFrame split: sum.split option.split)

lemma wf_sendWsToPeer: "proxy_wf p \<Longrightarrow> proxy_wf (sendWsToPeer now i bs b p)"
  by (auto simp: sendWsToPeer_def wf_emit wf_put_ws has_get split: option.split)

lemma has_http_closing [simp]:
  "js_has (px_http (proxy_closeStream j r p)) i = js_has (px_http p) i"
  "js_has (px_http (cleanupHttp j r p)) i = (i \<noteq> j \<and> js_has (px_http p) i)"
  by (auto simp: proxy_closeStream_def cleanupHttp_def js_has_def split: option.split)

lemma wf_sweep_http:
  assumes wf: "proxy_wf p" and has: "js_has (px_http p) (fst e)"
  shows "proxy_wf (sweep_http cfg now e p)"
proof -
  obtain i h0 where e: "e = (i, h0)" by (cases e)
  obtain h where h: "js_get (px_http p) i = Some h" using has e by (auto simp: js_has_def)
  have "proxy_wf (cleanupHttp i ''idle-timeout'' (proxy_closeStream i ''idle-timeout'' (emit [Sink_destroy i] p)))"
    by (rule wf_end [OF wf has_get [OF h], where m = "px_http p" and
          as = "[Sink_destroy i, To_peer (sr_peerId (hs_session h)) (Stream_close i ''idle-timeout''), Sink_destroy i, Log_stream_close i ''idle-timeout'']"])
      (use h wf_parts [OF wf] in \<open>simp_all add: cleanupHttp_def proxy_closeStream_def\<close>)
  then show ?thesis using wf e by (simp add: sweep_http_def)
qed

lemma has_sweep_http: "fst e \<noteq> i \<Longrightarrow> js_has (px_http (sweep_http cfg now e p)) i = js_has (px_http p) i"
  by (cases e) (simp add: sweep_http_def)

lemma wf_sweep_all:
  "distinct (map fst es) \<Longrightarrow> \<forall>e \<in> set es. js_has (px_http p) (fst e) \<Longrightarrow> proxy_wf p \<Longrightarrow> proxy_wf (fold (sweep_http cfg now) es p)"
proof (induction es arbitrary: p)
  case (Cons e es)
  have "js_has (px_http (sweep_http cfg now e p)) (fst e')" if "e' \<in> set es" for e'
  proof -
    have "fst e \<noteq> fst e'" using Cons.prems(1) that by force
    then show ?thesis using Cons.prems(2) that by (simp add: has_sweep_http)
  qed
  then show ?case using Cons.IH [of "sweep_http cfg now e p"] Cons.prems wf_sweep_http [of p e cfg now] by simp
qed simp

lemma proxy_fold: "(\<And>x p. proxy_wf p \<Longrightarrow> proxy_wf (f x p)) \<Longrightarrow> proxy_wf p \<Longrightarrow> proxy_wf (fold f xs p)"
  by (induction xs arbitrary: p) simp_all

lemma wf_proxy_sweep:
  assumes wf: "proxy_wf p"
  shows "proxy_wf (proxy_sweep cfg now p)"
proof -
  have "proxy_wf (fold (sweep_http cfg now) (px_http p) p)"
    using wf_parts(3) [OF wf] by (intro wf_sweep_all wf) (auto simp: wf_map_def js_has_keys)
  then show ?thesis unfolding proxy_sweep_def Let_def
    by (rule proxy_fold [rotated]) (auto simp: sweep_ws_def wf_cleanupWs wf_proxy_closeStream wf_emit)
qed

lemma wf_proxy_stop: "proxy_wf p \<Longrightarrow> proxy_wf (proxy_stop p)"
  unfolding proxy_stop_def Let_def by (intro proxy_fold wf_cleanupWs wf_cleanupHttp)

lemma wf_proxy_step: "proxy_wf p \<Longrightarrow> proxy_wf (proxy_step cfg now ev p)"
  by (cases ev)
    (simp_all add: proxy_step_def wf_startHttpStream wf_startWsBridge wf_resume_acked wf_ack_timeout wf_onControlMessage wf_onBinaryFrame
      wf_closing wf_sendWsToPeer wf_proxy_sweep wf_proxy_stop)

interpretation hub: event_machine "\<lambda>ev. proxy_step cfg (fst ev) (snd ev)" "\<lambda>ev p. True" new_proxy proxy_wf for cfg
proof
  show "proxy_wf new_proxy" by (simp add: proxy_wf_def new_proxy_def place_ok_def fits_def js_has_def)
qed (rule wf_proxy_step)

text \<open>What a browser may see: nothing, or the status and then only data, or that and one end.\<close>

definition sink_in_order :: "jsnum \<Rightarrow> proxy_action list \<Rightarrow> bool" where
  "sink_in_order i as \<longleftrightarrow> sink_phase i as \<noteq> Broken"

lemma fits_order: "fits pe ac ht ws kn ph \<Longrightarrow> ph \<noteq> Broken \<and> (ht \<longleftrightarrow> ph = Opened)"
  by (cases ph) (auto simp: fits_def)

text \<open>
C24: whatever peers, browsers and clocks do, the hub's proxy writes to every response in order: the status
first and once, body data only after it, and nothing but a repeated destroy after the response was
ended or destroyed. A response has begun and is not over exactly while its stream is in the hub's table.
\<close>

theorem responses_in_order:
  assumes "reaches (\<lambda>ev. proxy_step cfg (fst ev) (snd ev)) (\<lambda>ev p. True) new_proxy p"
  shows "sink_in_order i (px_out p) \<and> (js_has (px_http p) i \<longleftrightarrow> sink_phase i (px_out p) = Opened)"
proof -
  have "place_ok p i" by (rule wf_parts(6) [OF hub.reached [OF assms]])
  from fits_order [OF this [unfolded place_ok_def]] show ?thesis by (simp add: sink_in_order_def)
qed

end
