(* ===== verification/Tunnel_Facts.thy ===== *)
theory Tunnel_Facts
  imports Tunnel_Delivery Tunnel_Hub
begin

text \<open>
  What else holds of the tunnel: a concrete run, the bounds the peer keeps (credit, request bodies), the
  well-formedness of the hub's tables, and three behaviours a caller does not expect.
\<close>

section \<open>A concrete request\<close>

definition demo_flow :: flow_env where
  "demo_flow =
     \<lparr>fe_env = \<lparr>ce_route = (\<lambda>path. upstreamUrl path ''http://web'' ''http://static''), ce_origin = (\<lambda>url. url), ce_subprotocols = (\<lambda>p. [])\<rparr>,
      fe_client = \<lparr>cc_webServiceUrl = ''http://web'', cc_staticUrl = ''http://static'', cc_maxStreams = 2, cc_chunkSize = 2, cc_maxRequestBody = 10,
        cc_idleTimeoutMs = 30000, cc_maxAgeMs = 300000\<rparr>,
      fe_proxy = \<lparr>pc_windowSize = 4, pc_maxStreams = 2, pc_idleTimeoutMs = 30000, pc_maxAgeMs = 300000\<rparr>,
      fe_session = \<lparr>sr_sessionId = ''s1'', sr_peerId = ''site-1''\<rparr>,
      fe_method = ''GET'', fe_path = ''/api/x'', fe_headers = [], fe_status = 200, fe_response = [(''content-type'', ''text/plain'')]\<rparr>"

definition demo_body :: "byte list list" where
  "demo_body = [[1, 2, 3, 4, 5], [], [6, 7, 8, 9]]"

lemma demo_sound: "sound_flow demo_flow demo_body"
  by (simp add: sound_flow_def demo_flow_def demo_body_def needsBody_def MAX_FRAME_PAYLOAD_def)


text \<open>A request that posts three bytes to a peer: its stream is open, the body with it.\<close>

definition demo_post :: stream_open where
  "demo_post = (request_of demo_flow)\<lparr>so_method := ''POST''\<rparr>"

definition demo_frame :: tunnel_frame where
  "demo_frame = data_frame (js_int 1) 0 0 [1, 2, 3]"

definition demo_events :: "byte list \<Rightarrow> (int \<times> client_event) list" where
  "demo_events bs = [(0, Received (Stream_open demo_post)), (1, Received_frame bs), (2, Received (Stream_window (js_int 1) 4))]"

lemma client_stays_wf_witness:
  "\<exists>bs. frame_encode demo_frame = Inr bs \<and>
     (let c = fold (\<lambda>ev. client_step (fe_env demo_flow) (fe_client demo_flow) (fst ev) (snd ev)) (demo_events bs) new_client
      in client_wf (fe_client demo_flow) c \<and> map ss_bodyBytes (tc_objects c) = [3])"
proof -
  let ?step = "\<lambda>ev. client_step (fe_env demo_flow) (fe_client demo_flow) (fst ev) (snd ev)"
  obtain bs where bs: "frame_encode demo_frame = Inr bs"
    using plain_encodes [of 0 0 "[1, 2, 3]"] by (auto simp: demo_frame_def)
  have dec: "frame_decode MAX_FRAME_PAYLOAD bs = Inr (data_frame (js_int 1) 0 0 [1, 2, 3])"
    using plain_decodes [OF _ _ bs [unfolded demo_frame_def]] by (simp add: MAX_FRAME_PAYLOAD_def)
  have plain: "\<not> flag_set FLAG_WS_OP (js_int 0)" by (simp add: flag_set_def FLAG_WS_OP_def to_uint32_def js_int_def)
  have "reaches ?step client_event_ok new_client (fold ?step (demo_events bs) new_client)"
    by (rule reaches_fold) (simp_all add: demo_events_def reaches.initially)
  from client_stays_wf [OF this] have "client_wf (fe_client demo_flow) (fold ?step (demo_events bs) new_client)" .
  moreover have "map ss_bodyBytes (tc_objects (fold ?step (demo_events bs) new_client)) = [3]"
    by (simp add: demo_events_def client_step_def handleControl_def onStreamOpen_def demo_post_def request_of_def demo_flow_def new_client_def
        active_streams_def new_stream_def needsBody_def handleBinaryFrame_def dec onBodyFrame_def with_object_def js_set_def onStreamWindow_def plain Let_def)
  ultimately show ?thesis using bs by (auto simp: Let_def)
qed

section \<open>The hub at work\<close>

definition demo_hub :: "(int \<times> proxy_event) list" where
  "demo_hub =
     [(0, Start_http (fe_session demo_flow) ''GET'' ''/'' [] []),
      (1, From_peer ''site-1'' (Stream_open_ack (js_int 1) 200 None)),
      (2, Resume (js_int 1)),
      (3, Client_abort (js_int 1)),
      (4, From_peer ''site-1'' (Stream_close (js_int 1) ''done''))]"

lemma responses_in_order_witness:
  "let p = fold (\<lambda>ev. proxy_step (fe_proxy demo_flow) (fst ev) (snd ev)) demo_hub new_proxy in
   sink_in_order (js_int 1) (px_out p) \<and> sink_phase (js_int 1) (px_out p) = Over \<and> \<not> js_has (px_http p) (js_int 1)"
proof -
  let ?step = "\<lambda>ev. proxy_step (fe_proxy demo_flow) (fst ev) (snd ev)"
  have "reaches ?step (\<lambda>ev p. True) new_proxy (fold ?step demo_hub new_proxy)"
    by (rule reaches_fold) (simp_all add: demo_hub_def reaches.initially)
  from responses_in_order [OF this, of "js_int 1"] 
  have "sink_in_order (js_int 1) (px_out (fold ?step demo_hub new_proxy)) \<and>
      (js_has (px_http (fold ?step demo_hub new_proxy)) (js_int 1) \<longleftrightarrow> sink_phase (js_int 1) (px_out (fold ?step demo_hub new_proxy)) = Opened)" .
  moreover have "sink_phase (js_int 1) (px_out (fold ?step demo_hub new_proxy)) = Over"
    by (simp add: demo_hub_def proxy_step_def startHttpStream_def assignStreamId_def sendStreamOpen_def new_proxy_def demo_flow_def js_set_def
        onControlMessage_def js_delete_def resume_acked_def grantCredit_def client_abort_def proxy_closeStream_def cleanupHttp_def cleanupWs_def
        emit_def sink_phase_def)
  ultimately show ?thesis by (simp add: Let_def)
qed

section \<open>Behaviour a caller does not expect\<close>

subsection \<open>A request whose body is empty\<close>

definition posted :: "flow_env \<Rightarrow> flow \<Rightarrow> bool" where
  "posted e x \<longleftrightarrow> fl_sink x = [] \<and> fl_up x = [] \<and> px_acked (fl_proxy x) = [] \<and>
     (phase_of x = No_fetch \<and> (\<exists>d. fl_down x = [To_peer d (Stream_open (request_of e))] \<and> fl_client x = new_client \<or> fl_down x = []))"

lemma posted_keeps:
  assumes body: "needsBody (fe_method e)" and room: "0 < cc_maxStreams (fe_client e)" and "flow_step e x y" "posted e x"
  shows "posted e y \<and> length (fl_down y) < length (fl_down x)"
  using assms(3)
proof cases
  case (down_message d m q t)
  then have m: "m = Stream_open (request_of e)" "q = []" "fl_client x = new_client" using assms(4) by (auto simp: posted_def)
  have "handleControl (fe_env e) (fe_client e) t m new_client =
      new_client\<lparr>tc_objects := [new_stream t (request_of e)], tc_streams := [(js_int 1, 0)]\<rparr>"
    using m body room
    by (simp add: handleControl_def onStreamOpen_def active_streams_def new_client_def new_stream_def request_of_def js_set_def)
  then show ?thesis using down_message m assms(4) by (simp add: posted_def phase_of_def new_client_def new_stream_def)
qed (use assms(4) in \<open>auto simp: posted_def\<close>)

text \<open>
A POST, PUT or PATCH without a body is never answered. The hub sends no frame for an empty body, the
peer waits for the final frame of a body before it calls the upstream server: after at most one
step neither side has anything left to do, and the browser has got nothing.
\<close>

theorem empty_post_unanswered:
  assumes "needsBody (fe_method e)" "0 < cc_maxStreams (fe_client e)" "0 < pc_maxStreams (fe_proxy e)"
    and "flow_steps e n (requested e body) x"
  shows "fl_sink x = [] \<and> n \<le> 1"
proof -
  have start: "posted e (requested e body) \<and> length (fl_down (requested e body)) = 1"
    using assms(3)
    by (simp add: posted_def requested_def proxy_do_def startHttpStream_def assignStreamId_def sendStreamOpen_def emit_def new_proxy_def
        request_of_def phase_of_def new_client_def)
  from assms(4) have "posted e x \<and> n + length (fl_down x) \<le> 1"
  proof (induction n "requested e body" x rule: flow_steps.induct)
    case none
    then show ?case using start by simp
  next
    case (more n y z)
    have z: "posted e z" "length (fl_down z) < length (fl_down y)" using posted_keeps [OF assms(1,2) more(3)] more(2) by auto
    then have "Suc n + length (fl_down z) \<le> 1" using more(2) by linarith
    with z show ?case by blast
  qed
  then show ?thesis by (simp add: posted_def)
qed

lemma empty_post_unanswered_witness:
  "\<exists>x. flow_steps (demo_flow\<lparr>fe_method := ''POST''\<rparr>) 0 (requested (demo_flow\<lparr>fe_method := ''POST''\<rparr>) demo_body) x \<and> fl_sink x = []"
proof (intro exI conjI)
  let ?e = "demo_flow\<lparr>fe_method := ''POST''\<rparr>"
  show s: "flow_steps ?e 0 (requested ?e demo_body) (requested ?e demo_body)" by (rule flow_steps.none)
  show "fl_sink (requested ?e demo_body) = []"
    using empty_post_unanswered [OF _ _ _ s] by (simp add: demo_flow_def needsBody_def)
qed

subsection \<open>Responses without a body\<close>

definition plain_get :: "nat \<Rightarrow> stream_open" where
  "plain_get k = \<lparr>so_streamId = js_int (int k), so_sessionId = ''s'', so_method = ''GET'', so_path = ''/'', so_headers = None, so_upgrade = False\<rparr>"

definition bodyless_round :: "client_env \<Rightarrow> client_config \<Rightarrow> int \<Rightarrow> int \<Rightarrow> nat \<Rightarrow> tunnel_client \<Rightarrow> tunnel_client" where
  "bodyless_round env cfg now status k c =
     fetch_answered (length (tc_objects c)) status [] False (onStreamOpen env cfg now (plain_get k) c)"

definition all_leaked :: "nat \<Rightarrow> tunnel_client \<Rightarrow> bool" where
  "all_leaked k c \<longleftrightarrow> length (tc_streams c) = k \<and> active_streams c = k \<and> length (tc_objects c) = k \<and>
     (\<forall>(key, i) \<in> set (tc_streams c). i < k \<and> (\<exists>j. 0 < j \<and> j \<le> k \<and> key = js_int (int j)))"

lemma js_set_fresh: "\<not> js_has m k \<Longrightarrow> js_set k v m = m @ [(k, v)]"
  by (induction m) (auto simp: js_set_def js_has_def split: if_splits)

lemma round_leaks:
  assumes c: "all_leaked k c" and room: "k < cc_maxStreams cfg"
  shows "all_leaked (Suc k) (bodyless_round env cfg now status (Suc k) c)"
proof -
  let ?i = "js_int (int (Suc k))"
  let ?s = "(new_stream now (plain_get (Suc k)))\<lparr>ss_phase := Fetched, ss_seq := 1\<rparr>"
  have "\<not> js_has (tc_streams c) ?i" using c by (auto simp: all_leaked_def js_has_keys)
  then have st: "js_set ?i k (tc_streams c) = tc_streams c @ [(?i, k)]" by (rule js_set_fresh)
  have o: "tc_objects (bodyless_round env cfg now status (Suc k) c) = tc_objects c @ [?s]"
    "tc_streams (bodyless_round env cfg now status (Suc k) c) = tc_streams c @ [(?i, k)]"
    using c room st
    by (simp_all add: bodyless_round_def onStreamOpen_def all_leaked_def Let_def plain_get_def new_stream_def needsBody_def start_fetch_def
        with_object_def act_def fetch_answered_def sendFin_def nth_append list_update_append)
  have "filter (\<lambda>(key, i). \<not> ss_closed ((tc_objects c @ [?s]) ! i)) (tc_streams c) = filter (\<lambda>(key, i). \<not> ss_closed (tc_objects c ! i)) (tc_streams c)"
    using c by (intro filter_cong) (auto simp: all_leaked_def nth_append)
  then have "active_streams (bodyless_round env cfg now status (Suc k) c) = Suc k"
    using c o by (simp add: active_streams_def all_leaked_def nth_append new_stream_def)
  then show ?thesis using c o by (fastforce simp: all_leaked_def)
qed

lemma rounds_leak: "k \<le> cc_maxStreams cfg \<Longrightarrow> all_leaked k (fold (bodyless_round env cfg now status) [1..<Suc k] new_client)"
proof (induction k)
  case 0
  then show ?case by (simp add: all_leaked_def new_client_def active_streams_def)
next
  case (Suc k)
  then show ?case using round_leaks [of k "fold (bodyless_round env cfg now status) [1..<Suc k] new_client" cfg env now status] by simp
qed

text \<open>
A response without a body (a 204 or a 304) leaves its stream open at the peer. After as many of them
as the peer may have streams, and until the idle timeout, every further request is refused with 503.
\<close>

theorem bodyless_streams_leak:
  "tc_out (onStreamOpen env cfg now msg (fold (bodyless_round env cfg now status) [1..<Suc (cc_maxStreams cfg)] new_client)) =
     tc_out (fold (bodyless_round env cfg now status) [1..<Suc (cc_maxStreams cfg)] new_client) @
     [Control (Stream_open_ack (so_streamId msg) 503 None), Control (Stream_close (so_streamId msg) ''max-streams'')]"
  using rounds_leak [of "cc_maxStreams cfg" cfg env now status] by (simp add: all_leaked_def onStreamOpen_def act_def del: upt_Suc)

subsection \<open>Credit\<close>

fun granted :: "proxy_action list \<Rightarrow> int" where
  "granted [] = 0"
| "granted (To_peer d (Stream_window i c) # as) = c + granted as"
| "granted (a # as) = granted as"

lemma granted_append [simp]: "granted (as @ bs) = granted as + granted bs"
  by (induction as rule: granted.induct) auto

definition data_of :: "jsnum \<Rightarrow> nat \<Rightarrow> byte list \<Rightarrow> bool" where
  "data_of i d bs \<longleftrightarrow> (\<exists>f. frame_decode MAX_FRAME_PAYLOAD bs = Inr f \<and> fr_streamId f = i \<and> fr_flags f = js_int 0 \<and> length (fr_payload f) = d)"

lemma half_window_frame:
  assumes "js_get (px_http p) i = Some h" "hs_lastGranted h = hs_bytesOut h" "data_of i d bs" "0 < d" "pc_windowSize cfg \<le> 2 * d"
  shows "\<exists>h'. js_get (px_http (onBinaryFrame cfg now peer bs p)) i = Some h' \<and> hs_lastGranted h' = hs_bytesOut h' \<and>
    granted (px_out (onBinaryFrame cfg now peer bs p)) = granted (px_out p) + int (pc_windowSize cfg) \<and>
    length (sink_bytes (px_out (onBinaryFrame cfg now peer bs p))) = length (sink_bytes (px_out p)) + d"
proof -
  from assms(3) obtain f where f: "frame_decode MAX_FRAME_PAYLOAD bs = Inr f" "fr_streamId f = i" "fr_flags f = js_int 0" "length (fr_payload f) = d"
    unfolding data_of_def by blast
  then have "fr_payload f \<noteq> []" using assms(4) by auto
  then show ?thesis
    using assms f by (auto simp: onBinaryFrame_def onHttpFrame_def take_payload_def put_http_def Let_def grantCredit_def emit_def)
qed

text \<open>
Credit is not a window. Each frame of at least half a window earns the peer a whole window again, so what
it may send beyond what the hub has passed on grows with every such frame: after \<open>m\<close> of them it
has grown by \<open>m\<close> times what a window exceeds the frame.
\<close>

theorem credit_outgrows_window:
  assumes "js_get (px_http p) i = Some h" "hs_lastGranted h = hs_bytesOut h" "0 < d" "pc_windowSize cfg \<le> 2 * d" "list_all (data_of i d) bss"
  shows "granted (px_out (fold (onBinaryFrame cfg now peer) bss p)) - int (length (sink_bytes (px_out (fold (onBinaryFrame cfg now peer) bss p)))) =
    granted (px_out p) - int (length (sink_bytes (px_out p))) + int (length bss) * (int (pc_windowSize cfg) - int d)"
  using assms(1,2,5)
proof (induction bss arbitrary: p h)
  case (Cons bs bss)
  obtain h' where h': "js_get (px_http (onBinaryFrame cfg now peer bs p)) i = Some h'" "hs_lastGranted h' = hs_bytesOut h'"
      "granted (px_out (onBinaryFrame cfg now peer bs p)) = granted (px_out p) + int (pc_windowSize cfg)"
      "length (sink_bytes (px_out (onBinaryFrame cfg now peer bs p))) = length (sink_bytes (px_out p)) + d"
    using half_window_frame [OF Cons.prems(1,2) _ assms(3,4), of bs now peer] Cons.prems(3) by auto
  then show ?case using Cons.IH [OF h'(1,2)] Cons.prems(3) by (simp add: algebra_simps)
qed simp

text \<open>Two frames of half a window of four: eight bytes granted for four written.\<close>

definition two_frames :: "byte list \<Rightarrow> byte list \<Rightarrow> bool" where
  "two_frames a b \<longleftrightarrow> frame_encode (data_frame (js_int 1) 0 0 [1, 2]) = Inr a \<and> frame_encode (data_frame (js_int 1) 1 0 [3, 4]) = Inr b"

lemma two_frames_data: "two_frames a b \<Longrightarrow> list_all (data_of (js_int 1) 2) [a, b]"
  using plain_decodes [of 0 "[1, 2]" 0 a] plain_decodes [of 0 "[3, 4]" 1 b]
  by (auto simp: two_frames_def data_of_def MAX_FRAME_PAYLOAD_def)

lemma credit_outgrows_window_witness:
  "\<exists>a b. two_frames a b \<and>
     (let p = fold (\<lambda>ev. proxy_step (fe_proxy demo_flow) (fst ev) (snd ev)) (take 3 demo_hub) new_proxy;
          q = fold (onBinaryFrame (fe_proxy demo_flow) 4 ''site-1'') [a, b] p
      in granted (px_out p) = 4 \<and> granted (px_out q) - int (length (sink_bytes (px_out q))) = 8)"
proof -
  let ?cfg = "fe_proxy demo_flow"
  let ?p = "fold (\<lambda>ev. proxy_step ?cfg (fst ev) (snd ev)) (take 3 demo_hub) new_proxy"
  let ?h = "\<lparr>hs_session = fe_session demo_flow, hs_bytesOut = 0, hs_lastGranted = 0, hs_finished = False, hs_createdAt = 2, hs_lastActivityAt = 2\<rparr>"
  obtain a b where f: "two_frames a b" using plain_encodes [of 0 0 "[1, 2]"] plain_encodes [of 1 0 "[3, 4]"] by (auto simp: two_frames_def)
  have p: "js_get (px_http ?p) (js_int 1) = Some ?h \<and> granted (px_out ?p) = 4 \<and> sink_bytes (px_out ?p) = []"
    by (simp add: demo_hub_def proxy_step_def startHttpStream_def assignStreamId_def sendStreamOpen_def new_proxy_def demo_flow_def js_set_def
        onControlMessage_def js_delete_def resume_acked_def grantCredit_def emit_def)
  then have "granted (px_out (fold (onBinaryFrame ?cfg 4 ''site-1'') [a, b] ?p)) -
      int (length (sink_bytes (px_out (fold (onBinaryFrame ?cfg 4 ''site-1'') [a, b] ?p)))) = 8"
    using credit_outgrows_window [OF conjunct1 [OF p] _ _ _ two_frames_data [OF f], of ?cfg 4 "''site-1''"] by (simp add: demo_flow_def)
  then show ?thesis using f p by (intro exI [of _ a] exI [of _ b]) (simp add: Let_def)
qed

subsection \<open>The limit of streams at the hub\<close>

definition opened_by :: "proxy_config \<Rightarrow> session_ref \<Rightarrow> nat \<Rightarrow> tunnel_proxy" where
  "opened_by cfg s m = fold (\<lambda>k. startHttpStream cfg s ''GET'' ''/'' [] []) [0..<m] new_proxy"

definition established :: "proxy_config \<Rightarrow> session_ref \<Rightarrow> nat \<Rightarrow> tunnel_proxy" where
  "established cfg s m =
     fold (\<lambda>k. resume_acked cfg 0 (js_int (int k + 1))) [0..<m]
       (fold (\<lambda>k. onControlMessage (sr_peerId s) (Stream_open_ack (js_int (int k + 1)) 200 None)) [0..<m] (opened_by cfg s m))"

lemma opened_all:
  assumes "0 < pc_maxStreams cfg"
  shows "px_http (opened_by cfg s m) = [] \<and> px_ws (opened_by cfg s m) = [] \<and> px_nextStreamId (opened_by cfg s m) = Suc m \<and>
    (\<forall>k < m. js_get (px_pending (opened_by cfg s m)) (js_int (int k + 1)) = Some (Pending_http s))"
proof (induction m)
  case (Suc m)
  then show ?case using assms
    by (simp add: opened_by_def startHttpStream_def assignStreamId_def sendStreamOpen_def emit_def less_Suc_eq all_conj_distrib) 
qed (simp add: opened_by_def new_proxy_def)

lemma acked_all:
  assumes "\<forall>k < m. js_get (px_pending p) (js_int (int k + 1)) = Some (Pending_http s)" "px_http p = []" "j \<le> m"
  shows "let q = fold (\<lambda>k. onControlMessage peer (Stream_open_ack (js_int (int k + 1)) 200 None)) [0..<j] p in
    px_http q = [] \<and> (\<forall>k < m. j \<le> k \<longrightarrow> js_get (px_pending q) (js_int (int k + 1)) = Some (Pending_http s)) \<and>
    (\<forall>k < j. js_get (px_acked q) (js_int (int k + 1)) = Some (Pending_http s, 200, None))"
  using assms(3)
proof (induction j)
  case (Suc j)
  then show ?case
    by (simp add: Let_def onControlMessage_def less_Suc_eq all_conj_distrib)
qed (use assms in simp)

lemma resume_one:
  assumes "js_get (px_acked q) i = Some (Pending_http s, st, hs)"
  shows "\<exists>h. px_http (resume_acked cfg now i q) = js_set i h (px_http q) \<and> px_acked (resume_acked cfg now i q) = js_delete i (px_acked q)"
  using assms by (auto simp: resume_acked_def emit_def grantCredit_def)

lemma resumed_all:
  assumes "\<forall>k < m. js_get (px_acked p) (js_int (int k + 1)) = Some (Pending_http s, 200, None)" "px_http p = []" "j \<le> m"
  shows "let q = fold (\<lambda>k. resume_acked cfg 0 (js_int (int k + 1))) [0..<j] p in
    length (px_http q) = j \<and> (\<forall>i. js_has (px_http q) i \<longrightarrow> (\<exists>k < j. i = js_int (int k + 1))) \<and>
    (\<forall>k < m. j \<le> k \<longrightarrow> js_get (px_acked q) (js_int (int k + 1)) = Some (Pending_http s, 200, None))"
  using assms(3)
proof (induction j)
  case (Suc j)
  let ?q = "fold (\<lambda>k. resume_acked cfg 0 (js_int (int k + 1))) [0..<j] p"
  have q: "length (px_http ?q) = j" "\<And>i. js_has (px_http ?q) i \<Longrightarrow> \<exists>k < j. i = js_int (int k + 1)"
    "\<forall>k < m. j \<le> k \<longrightarrow> js_get (px_acked ?q) (js_int (int k + 1)) = Some (Pending_http s, 200, None)"
    using Suc by (simp_all add: Let_def)
  then have "js_get (px_acked ?q) (js_int (int j + 1)) = Some (Pending_http s, 200, None)" "\<not> js_has (px_http ?q) (js_int (int j + 1))"
    using Suc.prems by fastforce+
  moreover from this(1) obtain h where "px_http (resume_acked cfg 0 (js_int (int j + 1)) ?q) = js_set (js_int (int j + 1)) h (px_http ?q)"
      "px_acked (resume_acked cfg 0 (js_int (int j + 1)) ?q) = js_delete (js_int (int j + 1)) (px_acked ?q)"
    using resume_one by blast
  moreover have "fold (\<lambda>k. resume_acked cfg 0 (js_int (int k + 1))) [0..<Suc j] p = resume_acked cfg 0 (js_int (int j + 1)) ?q" by simp
  ultimately show ?case using q
    by (simp only: Let_def) (auto simp: length_js_set less_Suc_eq)
qed (use assms in \<open>simp add: js_has_def\<close>)

text \<open>
The hub's limit of streams counts established streams only. However small it is, any number of requests
that arrive before the first acknowledgement are all opened, and all become streams.
\<close>

theorem stream_limit_overrun:
  assumes "0 < pc_maxStreams cfg"
  shows "length (px_http (established cfg s m)) = m"
  using opened_all [OF assms, of s m] acked_all [of m "opened_by cfg s m" s m "sr_peerId s"]
    resumed_all [of m "fold (\<lambda>k. onControlMessage (sr_peerId s) (Stream_open_ack (js_int (int k + 1)) 200 None)) [0..<m] (opened_by cfg s m)" s m cfg]
  by (simp add: established_def Let_def)

lemma stream_limit_overrun_witness: "length (px_http (established (fe_proxy demo_flow) (fe_session demo_flow) 5)) = 5 \<and> pc_maxStreams (fe_proxy demo_flow) = 2"
  using stream_limit_overrun [of "fe_proxy demo_flow" "fe_session demo_flow" 5] by (simp add: demo_flow_def)

end
