(* ===== verification/Tunnel_Connector.thy ===== *)
theory Tunnel_Connector
  imports Js_Value
begin

text \<open>
  The outbound connection of a tunnel peer: \<open>TunnelConnector\<close> and \<open>ReconnectDelay\<close> of
  packages/ws-tunnel/src/connector. A socket is known by the generation it was created in; what the network
  does with it is an event of that generation. Each event comes with the clock, whether the current socket
  reports \<open>open\<close>, and the next random number. Text frames are parsed already; control messages the connector
  does not know are opaque. The fixed texts of log records are left out.
\<close>

section \<open>Configuration\<close>

record connector_config =
  kc_wsUrls :: "string list"
  kc_token :: string
  kc_peerId :: string
  kc_heartbeatIntervalMs :: int
  kc_registerTimeoutMs :: int
  kc_livenessTimeoutMs :: int
  kc_baseMs :: int
  kc_maxMs :: int
  kc_jitterSpanMs :: rat

text \<open>\<open>s.trim().length === 0\<close> on one-byte characters.\<close>

definition js_blank :: "string \<Rightarrow> bool" where
  "js_blank s \<longleftrightarrow> js_trim s = []"

definition delay_config_error :: "connector_config \<Rightarrow> string option" where
  "delay_config_error cfg =
     (if kc_baseMs cfg \<le> 0 then Some ''reconnect.invalid-base''
      else if kc_maxMs cfg < kc_baseMs cfg then Some ''reconnect.invalid-max''
      else if kc_jitterSpanMs cfg < 0 then Some ''reconnect.invalid-jitter-span''
      else None)"

definition connector_config_error :: "connector_config \<Rightarrow> string option" where
  "connector_config_error cfg =
     (if kc_wsUrls cfg = [] then Some ''tunnel-connector.no-url''
      else if js_blank (kc_token cfg) then Some ''tunnel-connector.no-token''
      else if js_blank (kc_peerId cfg) then Some ''tunnel-connector.no-peer-id''
      else if kc_heartbeatIntervalMs cfg \<le> 0 then Some ''tunnel-connector.invalid-interval''
      else None)"

text \<open>\<open>delayFor\<close> with the random number it draws; limits below \<open>2 ^ 53\<close> make the sum exact.\<close>

definition delayFor :: "connector_config \<Rightarrow> rat \<Rightarrow> nat \<Rightarrow> string + int" where
  "delayFor cfg jitter attempt =
     (if attempt < 1 then Inl ''reconnect.invalid-attempt''
      else if \<not> (0 \<le> jitter \<and> jitter < 1) then Inl ''reconnect.invalid-jitter''
      else Inr (min (kc_maxMs cfg) (kc_baseMs cfg * 2 ^ (attempt - 1) + \<lfloor>jitter * kc_jitterSpanMs cfg\<rfloor>)))"

section \<open>State\<close>

datatype connector_state = Offline | Connecting | Registered | Connected | Backoff

text \<open>\<open>operational config\<close> as received: an object with its \<open>heartbeatIntervalMs\<close>, or anything else.\<close>

datatype config_input = Config_object "jsval option" | Config_invalid

datatype 'm hub_text =
    Malformed
  | Json_null
  | Register_ack "string option" "config_input option"
  | Config_update "config_input option"
  | Hub_error
  | Hub_message 'm

datatype peer_text = Register_frame | Heartbeat_frame int

datatype ('m, 'o, 'b) connector_out =
    Dial nat string
  | Send_text nat peer_text
  | Send_control nat 'o
  | Send_binary nat 'b
  | Ping_socket nat
  | Close_socket nat
  | Deliver 'm
  | Deliver_binary 'b
  | Log_record string string
  | Uncaught

record ('m, 'o, 'b) connector =
  cn_state :: connector_state
  cn_socket :: "nat option"
  cn_generation :: nat
  cn_attempt :: nat
  cn_urlIndex :: nat
  cn_stopped :: bool
  cn_heartbeatTimer :: "int option"      \<comment> \<open>the interval it runs with\<close>
  cn_registerTimer :: "nat option"       \<comment> \<open>the generation it was set for\<close>
  cn_reconnectTimer :: "int option"      \<comment> \<open>the delay it was set with\<close>
  cn_lastHeartbeatSentAt :: "int option"
  cn_lastPongAt :: int
  cn_operational :: int
  cn_out :: "('m, 'o, 'b) connector_out list"

record tick =
  tk_now :: int
  tk_open :: bool
  tk_jitter :: rat

definition new_connector :: "connector_config \<Rightarrow> ('m, 'o, 'b) connector" where
  "new_connector cfg =
     \<lparr>cn_state = Offline, cn_socket = None, cn_generation = 0, cn_attempt = 0, cn_urlIndex = 0, cn_stopped = False,
      cn_heartbeatTimer = None, cn_registerTimer = None, cn_reconnectTimer = None, cn_lastHeartbeatSentAt = None,
      cn_lastPongAt = 0, cn_operational = kc_heartbeatIntervalMs cfg, cn_out = []\<rparr>"

section \<open>Helpers\<close>

definition emit :: "('m, 'o, 'b) connector_out \<Rightarrow> ('m, 'o, 'b) connector \<Rightarrow> ('m, 'o, 'b) connector" where
  "emit x c = c\<lparr>cn_out := cn_out c @ [x]\<rparr>"

definition clearTimers :: "('m, 'o, 'b) connector \<Rightarrow> ('m, 'o, 'b) connector" where
  "clearTimers c = c\<lparr>cn_heartbeatTimer := None, cn_registerTimer := None, cn_reconnectTimer := None\<rparr>"

text \<open>\<open>socket?.f()\<close>.\<close>

definition on_socket :: "(nat \<Rightarrow> ('m, 'o, 'b) connector_out) \<Rightarrow> ('m, 'o, 'b) connector \<Rightarrow> ('m, 'o, 'b) connector" where
  "on_socket f c = (case cn_socket c of None \<Rightarrow> c | Some g \<Rightarrow> emit (f g) c)"

definition send_open :: "tick \<Rightarrow> (nat \<Rightarrow> ('m, 'o, 'b) connector_out) \<Rightarrow> ('m, 'o, 'b) connector \<Rightarrow> ('m, 'o, 'b) connector" where
  "send_open tk f c = (if tk_open tk then on_socket f c else c)"

definition enterBackoff :: "connector_config \<Rightarrow> tick \<Rightarrow> ('m, 'o, 'b) connector \<Rightarrow> ('m, 'o, 'b) connector" where
  "enterBackoff cfg tk c =
     (if cn_stopped c then c
      else
        let c1 = (clearTimers c)\<lparr>cn_state := Backoff, cn_attempt := cn_attempt c + 1\<rparr> in
        case delayFor cfg (tk_jitter tk) (cn_attempt c1) of
          Inl e \<Rightarrow> emit Uncaught c1
        | Inr d \<Rightarrow> (emit (Log_record ''warn'' ''tunnel_connection_lost'') c1)\<lparr>cn_reconnectTimer := Some d\<rparr>)"

definition closeAndBackoff :: "connector_config \<Rightarrow> tick \<Rightarrow> ('m, 'o, 'b) connector \<Rightarrow> ('m, 'o, 'b) connector" where
  "closeAndBackoff cfg tk c =
     enterBackoff cfg tk (on_socket Close_socket (clearTimers (c\<lparr>cn_generation := cn_generation c + 1\<rparr>)))"

definition scheduleHeartbeat :: "('m, 'o, 'b) connector \<Rightarrow> ('m, 'o, 'b) connector" where
  "scheduleHeartbeat c = c\<lparr>cn_heartbeatTimer := Some (cn_operational c)\<rparr>"

definition sendHeartbeat :: "connector_config \<Rightarrow> tick \<Rightarrow> ('m, 'o, 'b) connector \<Rightarrow> ('m, 'o, 'b) connector" where
  "sendHeartbeat cfg tk c =
     (let c1 = on_socket Ping_socket (c\<lparr>cn_lastHeartbeatSentAt := Some (tk_now tk)\<rparr>) in
      if kc_livenessTimeoutMs cfg \<le> tk_now tk - cn_lastPongAt c1
      then closeAndBackoff cfg tk (emit (Log_record ''warn'' ''tunnel_connection_lost'') c1)
      else
        let c2 = send_open tk (\<lambda>g. Send_text g (Heartbeat_frame (tk_now tk))) c1 in
        if cn_state c2 = Registered then c2\<lparr>cn_state := Connected\<rparr> else c2)"

text \<open>The schema: an optional integer between 1000 and 300000; unknown keys are dropped.\<close>

definition parse_operational :: "config_input \<Rightarrow> int option option" where
  "parse_operational inp =
     (case inp of
        Config_invalid \<Rightarrow> None
      | Config_object v \<Rightarrow>
          (case v of
             None \<Rightarrow> Some None
           | Some JUndefined \<Rightarrow> Some None
           | Some (JNum (Fin q)) \<Rightarrow> if q \<in> \<int> \<and> 1000 \<le> q \<and> q \<le> 300000 then Some (Some \<lfloor>q\<rfloor>) else None
           | Some _ \<Rightarrow> None))"

definition applyOperationalConfig :: "config_input \<Rightarrow> ('m, 'o, 'b) connector \<Rightarrow> ('m, 'o, 'b) connector" where
  "applyOperationalConfig inp c =
     (case parse_operational inp of
        None \<Rightarrow> emit (Log_record ''warn'' ''tunnel_config_rejected'') c
      | Some v \<Rightarrow>
          let c1 = (case v of None \<Rightarrow> c | Some n \<Rightarrow> c\<lparr>cn_operational := n\<rparr>);
              c2 = (if cn_state c1 = Connected \<or> cn_state c1 = Registered then scheduleHeartbeat c1 else c1)
          in emit (Log_record ''info'' ''tunnel_connected'') c2)"

section \<open>Dialling\<close>

definition tryUrl :: "string \<Rightarrow> ('m, 'o, 'b) connector \<Rightarrow> ('m, 'o, 'b) connector" where
  "tryUrl url c =
     (if cn_stopped c then c
      else emit (Dial (cn_generation c + 1) url)
             (c\<lparr>cn_generation := cn_generation c + 1, cn_socket := Some (cn_generation c + 1)\<rparr>))"

definition connect_hub :: "connector_config \<Rightarrow> ('m, 'o, 'b) connector \<Rightarrow> ('m, 'o, 'b) connector" where
  "connect_hub cfg c =
     (let c1 = (clearTimers c)\<lparr>cn_urlIndex := 0, cn_state := Connecting\<rparr> in
      case kc_wsUrls cfg of [] \<Rightarrow> c1 | url # _ \<Rightarrow> tryUrl url c1)"

definition connector_start :: "connector_config \<Rightarrow> ('m, 'o, 'b) connector \<Rightarrow> ('m, 'o, 'b) connector" where
  "connector_start cfg c = (if cn_state c \<noteq> Offline then c else connect_hub cfg (c\<lparr>cn_stopped := False\<rparr>))"

definition connector_stop :: "('m, 'o, 'b) connector \<Rightarrow> ('m, 'o, 'b) connector" where
  "connector_stop c = (on_socket Close_socket (clearTimers (c\<lparr>cn_stopped := True\<rparr>)))\<lparr>cn_socket := None, cn_state := Offline\<rparr>"

definition is_connected :: "('m, 'o, 'b) connector \<Rightarrow> bool" where
  "is_connected c \<longleftrightarrow> cn_state c = Connected"

definition sendControl :: "tick \<Rightarrow> 'o \<Rightarrow> ('m, 'o, 'b) connector \<Rightarrow> ('m, 'o, 'b) connector" where
  "sendControl tk m = send_open tk (\<lambda>g. Send_control g m)"

definition sendBinary :: "tick \<Rightarrow> 'b \<Rightarrow> ('m, 'o, 'b) connector \<Rightarrow> ('m, 'o, 'b) connector" where
  "sendBinary tk b = send_open tk (\<lambda>g. Send_binary g b)"

section \<open>Socket events\<close>

text \<open>\<open>handleMessage\<close>: the JSON text \<open>null\<close> parses, and reading its \<open>type\<close> throws.\<close>

definition register_acked :: "connector_config \<Rightarrow> tick \<Rightarrow> config_input option \<Rightarrow> ('m, 'o, 'b) connector \<Rightarrow> ('m, 'o, 'b) connector" where
  "register_acked cfg tk inp c =
     (let c1 = c\<lparr>cn_registerTimer := None\<rparr>;
          c2 = (case inp of None \<Rightarrow> c1 | Some i \<Rightarrow> applyOperationalConfig i c1);
          c3 = sendHeartbeat cfg tk (c2\<lparr>cn_attempt := 0, cn_state := Registered\<rparr>)
      in emit (Log_record ''info'' ''tunnel_connected'') (scheduleHeartbeat c3))"

definition handleMessage :: "connector_config \<Rightarrow> tick \<Rightarrow> 'm hub_text \<Rightarrow> ('m, 'o, 'b) connector \<Rightarrow> ('m, 'o, 'b) connector" where
  "handleMessage cfg tk msg c =
     (case msg of
        Malformed \<Rightarrow> c
      | Json_null \<Rightarrow> emit Uncaught c
      | Register_ack st inp \<Rightarrow>
          if st = Some ''ok'' then register_acked cfg tk inp c
          else closeAndBackoff cfg tk (emit (Log_record ''warn'' ''tunnel_register_rejected'') c)
      | Config_update inp \<Rightarrow> (case inp of None \<Rightarrow> c | Some i \<Rightarrow> applyOperationalConfig i c)
      | Hub_error \<Rightarrow> emit (Log_record ''warn'' ''tunnel_connection_lost'') c
      | Hub_message m \<Rightarrow> emit (Deliver m) c)"

datatype ('m, 'b) socket_signal =
    Opened | Text_received "'m hub_text" | Binary_received 'b | Closed | Socket_error | Pong_received | Rejected int

definition on_opened :: "connector_config \<Rightarrow> tick \<Rightarrow> nat \<Rightarrow> ('m, 'o, 'b) connector \<Rightarrow> ('m, 'o, 'b) connector" where
  "on_opened cfg tk g c =
     (if cn_stopped c then c
      else (emit (Send_text g Register_frame) (c\<lparr>cn_lastPongAt := tk_now tk\<rparr>))\<lparr>cn_registerTimer := Some g\<rparr>)"

definition on_closed :: "connector_config \<Rightarrow> tick \<Rightarrow> ('m, 'o, 'b) connector \<Rightarrow> ('m, 'o, 'b) connector" where
  "on_closed cfg tk c = (if cn_stopped c then c\<lparr>cn_state := Offline\<rparr> else enterBackoff cfg tk c)"

definition on_rejected :: "connector_config \<Rightarrow> tick \<Rightarrow> int \<Rightarrow> ('m, 'o, 'b) connector \<Rightarrow> ('m, 'o, 'b) connector" where
  "on_rejected cfg tk code c =
     (let c1 = (if code = 401 \<or> code = 403 then emit (Log_record ''warn'' ''tunnel_register_rejected'') c else c);
          c2 = c1\<lparr>cn_urlIndex := cn_urlIndex c1 + 1\<rparr>
      in if cn_urlIndex c2 < length (kc_wsUrls cfg) then tryUrl (kc_wsUrls cfg ! cn_urlIndex c2) c2
         else enterBackoff cfg tk c2)"

definition socket_event :: "connector_config \<Rightarrow> tick \<Rightarrow> nat \<Rightarrow> ('m, 'b) socket_signal \<Rightarrow> ('m, 'o, 'b) connector \<Rightarrow> ('m, 'o, 'b) connector" where
  "socket_event cfg tk g ev c =
     (if g \<noteq> cn_generation c then c
      else case ev of
        Opened \<Rightarrow> on_opened cfg tk g c
      | Text_received m \<Rightarrow> handleMessage cfg tk m c
      | Binary_received b \<Rightarrow> emit (Deliver_binary b) c
      | Closed \<Rightarrow> on_closed cfg tk c
      | Socket_error \<Rightarrow> emit (Log_record ''warn'' ''tunnel_connection_lost'') c
      | Pong_received \<Rightarrow> c\<lparr>cn_lastPongAt := tk_now tk\<rparr>
      | Rejected code \<Rightarrow> on_rejected cfg tk code c)"

section \<open>Timers\<close>

definition register_timeout :: "connector_config \<Rightarrow> tick \<Rightarrow> ('m, 'o, 'b) connector \<Rightarrow> ('m, 'o, 'b) connector" where
  "register_timeout cfg tk c =
     (case cn_registerTimer c of
        None \<Rightarrow> c
      | Some g \<Rightarrow>
          let c1 = c\<lparr>cn_registerTimer := None\<rparr> in
          if g \<noteq> cn_generation c then c1
          else closeAndBackoff cfg tk (emit (Log_record ''warn'' ''tunnel_connection_lost'') c1))"

definition heartbeat_tick :: "connector_config \<Rightarrow> tick \<Rightarrow> ('m, 'o, 'b) connector \<Rightarrow> ('m, 'o, 'b) connector" where
  "heartbeat_tick cfg tk c = (if cn_heartbeatTimer c = None then c else sendHeartbeat cfg tk c)"

definition reconnect_tick :: "connector_config \<Rightarrow> ('m, 'o, 'b) connector \<Rightarrow> ('m, 'o, 'b) connector" where
  "reconnect_tick cfg c = (if cn_reconnectTimer c = None then c else connect_hub cfg c)"

section \<open>The connector as a transition system\<close>

datatype ('m, 'o, 'b) connector_event =
    Start
  | Stop
  | Socket nat "('m, 'b) socket_signal"
  | Register_timeout
  | Heartbeat_tick
  | Reconnect_tick
  | Control_out 'o
  | Binary_out 'b

definition connector_step :: "connector_config \<Rightarrow> tick \<Rightarrow> ('m, 'o, 'b) connector_event \<Rightarrow> ('m, 'o, 'b) connector \<Rightarrow> ('m, 'o, 'b) connector" where
  "connector_step cfg tk ev c =
     (case ev of
        Start \<Rightarrow> connector_start cfg c
      | Stop \<Rightarrow> connector_stop c
      | Socket g e \<Rightarrow> socket_event cfg tk g e c
      | Register_timeout \<Rightarrow> register_timeout cfg tk c
      | Heartbeat_tick \<Rightarrow> heartbeat_tick cfg tk c
      | Reconnect_tick \<Rightarrow> reconnect_tick cfg c
      | Control_out m \<Rightarrow> sendControl tk m c
      | Binary_out b \<Rightarrow> sendBinary tk b c)"

fun connector_run :: "connector_config \<Rightarrow> (tick \<times> ('m, 'o, 'b) connector_event) list \<Rightarrow> ('m, 'o, 'b) connector \<Rightarrow> ('m, 'o, 'b) connector" where
  "connector_run cfg [] c = c"
| "connector_run cfg ((tk, ev) # evs) c = connector_run cfg evs (connector_step cfg tk ev c)"

end
