(* ===== verification/Connector_Facts.thy ===== *)
theory Connector_Facts
  imports Tunnel_Connector Prelude
begin

text \<open>
  The life of the outbound connection: it never gets stuck, it notices a dead link, a stopped connector touches
  the network no more; which hubs it tries; and what a late acknowledgement does after \<open>stop\<close>.
\<close>

section \<open>Fields of the helpers\<close>

lemma connector_emit_fields [simp]:
  "cn_state (emit x c) = cn_state c" "cn_socket (emit x c) = cn_socket c" "cn_generation (emit x c) = cn_generation c"
  "cn_attempt (emit x c) = cn_attempt c" "cn_urlIndex (emit x c) = cn_urlIndex c" "cn_stopped (emit x c) = cn_stopped c"
  "cn_heartbeatTimer (emit x c) = cn_heartbeatTimer c" "cn_registerTimer (emit x c) = cn_registerTimer c"
  "cn_reconnectTimer (emit x c) = cn_reconnectTimer c" "cn_lastPongAt (emit x c) = cn_lastPongAt c"
  "cn_operational (emit x c) = cn_operational c" "cn_out (emit x c) = cn_out c @ [x]"
  by (simp_all add: emit_def)

lemma clearTimers_fields [simp]:
  "cn_state (clearTimers c) = cn_state c" "cn_socket (clearTimers c) = cn_socket c" "cn_generation (clearTimers c) = cn_generation c"
  "cn_attempt (clearTimers c) = cn_attempt c" "cn_urlIndex (clearTimers c) = cn_urlIndex c" "cn_stopped (clearTimers c) = cn_stopped c"
  "cn_heartbeatTimer (clearTimers c) = None" "cn_registerTimer (clearTimers c) = None"
  "cn_reconnectTimer (clearTimers c) = None" "cn_lastPongAt (clearTimers c) = cn_lastPongAt c"
  "cn_operational (clearTimers c) = cn_operational c" "cn_out (clearTimers c) = cn_out c"
  by (simp_all add: clearTimers_def)

lemma on_socket_fields [simp]:
  "cn_state (on_socket f c) = cn_state c" "cn_socket (on_socket f c) = cn_socket c" "cn_generation (on_socket f c) = cn_generation c"
  "cn_attempt (on_socket f c) = cn_attempt c" "cn_urlIndex (on_socket f c) = cn_urlIndex c" "cn_stopped (on_socket f c) = cn_stopped c"
  "cn_heartbeatTimer (on_socket f c) = cn_heartbeatTimer c" "cn_registerTimer (on_socket f c) = cn_registerTimer c"
  "cn_reconnectTimer (on_socket f c) = cn_reconnectTimer c" "cn_lastPongAt (on_socket f c) = cn_lastPongAt c"
  "cn_operational (on_socket f c) = cn_operational c"
  "cn_out (on_socket f c) = cn_out c @ (case cn_socket c of None \<Rightarrow> [] | Some g \<Rightarrow> [f g])"
  by (simp_all add: on_socket_def split: option.split)

lemma send_open_fields [simp]:
  "cn_state (send_open tk f c) = cn_state c" "cn_socket (send_open tk f c) = cn_socket c" "cn_generation (send_open tk f c) = cn_generation c"
  "cn_attempt (send_open tk f c) = cn_attempt c" "cn_urlIndex (send_open tk f c) = cn_urlIndex c" "cn_stopped (send_open tk f c) = cn_stopped c"
  "cn_heartbeatTimer (send_open tk f c) = cn_heartbeatTimer c" "cn_registerTimer (send_open tk f c) = cn_registerTimer c"
  "cn_reconnectTimer (send_open tk f c) = cn_reconnectTimer c" "cn_lastPongAt (send_open tk f c) = cn_lastPongAt c"
  "cn_operational (send_open tk f c) = cn_operational c"
  "cn_out (send_open tk f c) = cn_out c @ (if tk_open tk then case cn_socket c of None \<Rightarrow> [] | Some g \<Rightarrow> [f g] else [])"
  by (simp_all add: send_open_def)

definition fair_tick :: "tick \<Rightarrow> bool" where
  "fair_tick tk \<longleftrightarrow> 0 \<le> tk_jitter tk \<and> tk_jitter tk < 1"

lemma delayFor_fair: "fair_tick tk \<Longrightarrow> \<exists>d. delayFor cfg (tk_jitter tk) (Suc n) = Inr d"
  by (simp add: fair_tick_def delayFor_def)

lemma enterBackoff_fair:
  assumes "fair_tick tk" "\<not> cn_stopped c"
  shows "cn_reconnectTimer (enterBackoff cfg tk c) \<noteq> None" "cn_state (enterBackoff cfg tk c) = Backoff"
  using delayFor_fair [OF assms(1), of cfg "cn_attempt c"] assms(2) by (auto simp: enterBackoff_def Let_def)

lemma enterBackoff_fields [simp]:
  "cn_socket (enterBackoff cfg tk c) = cn_socket c" "cn_generation (enterBackoff cfg tk c) = cn_generation c"
  "cn_stopped (enterBackoff cfg tk c) = cn_stopped c" "cn_urlIndex (enterBackoff cfg tk c) = cn_urlIndex c"
  "cn_lastPongAt (enterBackoff cfg tk c) = cn_lastPongAt c" "cn_operational (enterBackoff cfg tk c) = cn_operational c"
  by (simp_all add: enterBackoff_def Let_def split: sum.split)

lemma closeAndBackoff_fields [simp]:
  "cn_socket (closeAndBackoff cfg tk c) = cn_socket c" "cn_generation (closeAndBackoff cfg tk c) = Suc (cn_generation c)"
  "cn_stopped (closeAndBackoff cfg tk c) = cn_stopped c" "cn_lastPongAt (closeAndBackoff cfg tk c) = cn_lastPongAt c"
  by (simp_all add: closeAndBackoff_def)

lemma closeAndBackoff_fair:
  assumes "fair_tick tk" "\<not> cn_stopped c"
  shows "cn_reconnectTimer (closeAndBackoff cfg tk c) \<noteq> None" "cn_state (closeAndBackoff cfg tk c) = Backoff"
  unfolding closeAndBackoff_def by (rule enterBackoff_fair [OF assms(1)], simp add: assms(2))+

section \<open>What each event sends\<close>

text \<open>Outputs that leave the process.\<close>

fun on_network :: "('m, 'o, 'b) connector_out \<Rightarrow> bool" where
  "on_network (Deliver m) = False"
| "on_network (Deliver_binary b) = False"
| "on_network (Log_record l k) = False"
| "on_network Uncaught = False"
| "on_network _ = True"

fun is_dial :: "('m, 'o, 'b) connector_out \<Rightarrow> bool" where
  "is_dial (Dial g url) = True"
| "is_dial _ = False"

definition dials :: "('m, 'o, 'b) connector \<Rightarrow> ('m, 'o, 'b) connector_out list" where
  "dials c = filter is_dial (cn_out c)"

definition network :: "('m, 'o, 'b) connector \<Rightarrow> ('m, 'o, 'b) connector_out list" where
  "network c = filter on_network (cn_out c)"

lemma dials_emit [simp]: "dials (emit x c) = dials c @ (if is_dial x then [x] else [])"
  by (simp add: dials_def)

lemma dials_update [simp]:
  "dials (c\<lparr>cn_state := a\<rparr>) = dials c" "dials (c\<lparr>cn_socket := b\<rparr>) = dials c" "dials (c\<lparr>cn_generation := n\<rparr>) = dials c"
  "dials (c\<lparr>cn_attempt := n\<rparr>) = dials c" "dials (c\<lparr>cn_urlIndex := n\<rparr>) = dials c" "dials (c\<lparr>cn_stopped := p\<rparr>) = dials c"
  "dials (c\<lparr>cn_heartbeatTimer := t\<rparr>) = dials c" "dials (c\<lparr>cn_registerTimer := r\<rparr>) = dials c" "dials (c\<lparr>cn_reconnectTimer := t\<rparr>) = dials c"
  "dials (c\<lparr>cn_lastHeartbeatSentAt := t\<rparr>) = dials c" "dials (c\<lparr>cn_lastPongAt := i\<rparr>) = dials c" "dials (c\<lparr>cn_operational := i\<rparr>) = dials c"
  by (simp_all add: dials_def)

lemma network_emit [simp]: "network (emit x c) = network c @ (if on_network x then [x] else [])"
  by (simp add: network_def)

lemma network_update [simp]:
  "network (c\<lparr>cn_state := a\<rparr>) = network c" "network (c\<lparr>cn_socket := b\<rparr>) = network c" "network (c\<lparr>cn_generation := n\<rparr>) = network c"
  "network (c\<lparr>cn_attempt := n\<rparr>) = network c" "network (c\<lparr>cn_urlIndex := n\<rparr>) = network c" "network (c\<lparr>cn_stopped := p\<rparr>) = network c"
  "network (c\<lparr>cn_heartbeatTimer := t\<rparr>) = network c" "network (c\<lparr>cn_registerTimer := r\<rparr>) = network c" "network (c\<lparr>cn_reconnectTimer := t\<rparr>) = network c"
  "network (c\<lparr>cn_lastHeartbeatSentAt := t\<rparr>) = network c" "network (c\<lparr>cn_lastPongAt := i\<rparr>) = network c" "network (c\<lparr>cn_operational := i\<rparr>) = network c"
  by (simp_all add: network_def)

lemma dials_helpers [simp]:
  "dials (clearTimers c) = dials c"
  "(\<And>g. \<not> is_dial (f g)) \<Longrightarrow> dials (on_socket f c) = dials c"
  "(\<And>g. \<not> is_dial (f g)) \<Longrightarrow> dials (send_open tk f c) = dials c"
  "dials (enterBackoff cfg tk c) = dials c"
  "dials (scheduleHeartbeat c) = dials c"
  by (simp_all add: clearTimers_def on_socket_def send_open_def enterBackoff_def scheduleHeartbeat_def Let_def split: option.split sum.split)

lemma dials_handlers [simp]:
  "dials (closeAndBackoff cfg tk c) = dials c"
  "dials (sendHeartbeat cfg tk c) = dials c"
  "dials (applyOperationalConfig i c) = dials c"
  by (simp_all add: closeAndBackoff_def sendHeartbeat_def applyOperationalConfig_def Let_def split: option.split)

lemma dials_message [simp]: "dials (handleMessage cfg tk m c) = dials c"
  by (simp add: handleMessage_def register_acked_def Let_def split: hub_text.split option.split)

lemma network_unplugged [simp]:
  "network (clearTimers c) = network c"
  "cn_socket c = None \<Longrightarrow> network (on_socket f c) = network c"
  "cn_socket c = None \<Longrightarrow> network (send_open tk f c) = network c"
  "network (enterBackoff cfg tk c) = network c"
  "network (scheduleHeartbeat c) = network c"
  by (simp_all add: clearTimers_def on_socket_def send_open_def enterBackoff_def scheduleHeartbeat_def Let_def split: sum.split)

section \<open>After \<open>stop\<close>\<close>

definition unplugged :: "('m, 'o, 'b) connector \<Rightarrow> bool" where
  "unplugged c \<longleftrightarrow> cn_stopped c \<and> cn_socket c = None"

lemma unplugged_helpers [simp]:
  "unplugged (emit x c) = unplugged c" "unplugged (clearTimers c) = unplugged c" "unplugged (on_socket f c) = unplugged c"
  "unplugged (send_open tk f c) = unplugged c" "unplugged (enterBackoff cfg tk c) = unplugged c"
  "unplugged (scheduleHeartbeat c) = unplugged c" "unplugged (closeAndBackoff cfg tk c) = unplugged c"
  by (simp_all add: unplugged_def scheduleHeartbeat_def)

lemma unplugged_update [simp]:
  "unplugged (c\<lparr>cn_state := a\<rparr>) = unplugged c" "unplugged (c\<lparr>cn_generation := n\<rparr>) = unplugged c"
  "unplugged (c\<lparr>cn_attempt := n\<rparr>) = unplugged c" "unplugged (c\<lparr>cn_urlIndex := n\<rparr>) = unplugged c"
  "unplugged (c\<lparr>cn_heartbeatTimer := t\<rparr>) = unplugged c" "unplugged (c\<lparr>cn_registerTimer := r\<rparr>) = unplugged c" "unplugged (c\<lparr>cn_reconnectTimer := t\<rparr>) = unplugged c"
  "unplugged (c\<lparr>cn_lastHeartbeatSentAt := t\<rparr>) = unplugged c" "unplugged (c\<lparr>cn_lastPongAt := i\<rparr>) = unplugged c" "unplugged (c\<lparr>cn_operational := i\<rparr>) = unplugged c"
  by (simp_all add: unplugged_def)

text \<open>A handler that leaves an unplugged connector unplugged and the network alone.\<close>

definition silent :: "(('m, 'o, 'b) connector \<Rightarrow> ('m, 'o, 'b) connector) \<Rightarrow> bool" where
  "silent f \<longleftrightarrow> (\<forall>c. unplugged c \<longrightarrow> unplugged (f c) \<and> network (f c) = network c)"

lemma silentI: "(\<And>c. unplugged c \<Longrightarrow> unplugged (f c) \<and> network (f c) = network c) \<Longrightarrow> silent f"
  by (simp add: silent_def)

lemma silentD: "silent f \<Longrightarrow> unplugged c \<Longrightarrow> unplugged (f c)" "silent f \<Longrightarrow> unplugged c \<Longrightarrow> network (f c) = network c"
  by (simp_all add: silent_def)

lemma unplugged_socket: "unplugged c \<Longrightarrow> cn_socket c = None" "unplugged c \<Longrightarrow> cn_stopped c"
  by (simp_all add: unplugged_def)

lemma silent_closeAndBackoff: "silent (closeAndBackoff cfg tk)"
  by (rule silentI) (simp add: closeAndBackoff_def unplugged_socket)

lemma silent_heartbeat: "silent (sendHeartbeat cfg tk)"
  by (rule silentI) (simp add: sendHeartbeat_def closeAndBackoff_def Let_def unplugged_socket)

lemma silent_config: "silent (applyOperationalConfig i)"
  by (rule silentI) (auto simp: applyOperationalConfig_def Let_def split: option.split)

lemma silent_acked: "silent (register_acked cfg tk inp)"
  by (rule silentI)
    (simp add: register_acked_def Let_def silentD [OF silent_heartbeat] silentD [OF silent_config] split: option.split)

lemma silent_message: "silent (handleMessage cfg tk m)"
  by (rule silentI)
    (simp add: handleMessage_def silentD [OF silent_acked] silentD [OF silent_config] silentD [OF silent_closeAndBackoff]
      split: hub_text.split option.split)

lemma silent_socket: "silent (socket_event cfg tk g ev)"
  by (rule silentI)
    (simp add: socket_event_def silentD [OF silent_message] on_opened_def on_closed_def on_rejected_def tryUrl_def Let_def unplugged_socket
      split: socket_signal.split)

lemma silent_step: "ev \<noteq> Start \<Longrightarrow> silent (connector_step cfg tk ev)"
proof (cases ev)
  case Stop
  then show ?thesis
    by (intro silentI) (simp add: connector_step_def connector_stop_def unplugged_def network_def [symmetric])
next
  case Register_timeout
  then show ?thesis
    by (intro silentI) (simp add: connector_step_def register_timeout_def Let_def silentD [OF silent_closeAndBackoff] split: option.split)
next
  case Reconnect_tick
  then show ?thesis
    by (auto simp: silent_def connector_step_def reconnect_tick_def connect_hub_def tryUrl_def Let_def unplugged_socket split: list.split)
qed (use silent_heartbeat [of cfg tk] silent_socket [of cfg tk] in
    \<open>auto simp: silent_def connector_step_def heartbeat_tick_def sendControl_def sendBinary_def unplugged_socket\<close>)

text \<open>
  Once stopped, and until the next start, the connector dials, sends and pings nothing, whatever the
  sockets and timers still deliver.
\<close>

theorem stopped_is_silent:
  assumes "Start \<notin> snd ` set evs"
  shows "network (connector_run cfg evs (connector_stop c)) = network (connector_stop c)"
proof -
  have "unplugged s \<Longrightarrow> network (connector_run cfg evs s) = network s" for s :: "('a, 'b, 'c) connector"
    using assms
  proof (induction evs arbitrary: s)
    case (Cons e evs)
    obtain tk ev where e: "e = (tk, ev)" by fastforce
    with Cons.prems silent_step [of ev cfg tk] have "unplugged (connector_step cfg tk ev s)" "network (connector_step cfg tk ev s) = network s"
      by (auto simp: silent_def)
    then show ?case using Cons e by simp
  qed simp
  then show ?thesis by (simp add: connector_stop_def unplugged_def)
qed

text \<open>
  An acknowledgement that arrives after \<open>stop\<close> makes the connector report a connection it does not have:
  the heartbeat timer runs again, and a later \<open>start\<close> dials nothing.
\<close>

theorem late_ack_reports_connected:
  assumes "tk_now tk - cn_lastPongAt c < kc_livenessTimeoutMs cfg"
    and "c' = connector_run cfg [(tk, Socket (cn_generation c) (Text_received (Register_ack (Some ''ok'') None))), (tk', Start)] (connector_stop c)"
  shows "is_connected c' \<and> cn_socket c' = None \<and> cn_heartbeatTimer c' \<noteq> None \<and> dials c' = dials c"
  using assms
  by (simp add: connector_step_def socket_event_def handleMessage_def register_acked_def connector_stop_def sendHeartbeat_def Let_def
      connector_start_def is_connected_def scheduleHeartbeat_def)

section \<open>Which hubs are dialled\<close>

text \<open>
  The spare addresses are dialled only when a hub answers the upgrade with a refusal: while the
  connection attempts merely fail, every attempt goes to the first address.
\<close>

theorem unreachable_hub_no_failover:
  assumes "\<forall>(tk, ev) \<in> set evs. \<forall>g code. ev \<noteq> Socket g (Rejected code)"
    and "Dial g url \<in> set (cn_out (connector_run cfg evs (new_connector cfg)))"
  shows "url = hd (kc_wsUrls cfg)"
proof -
  define P where "P c \<longleftrightarrow> (\<forall>g url. Dial g url \<in> set (dials c) \<longrightarrow> url = hd (kc_wsUrls cfg))" for c :: "('a, 'b, 'c) connector"
  have dial: "P c \<Longrightarrow> P (connect_hub cfg c)" for c
    by (auto simp: P_def connect_hub_def tryUrl_def Let_def split: list.split)
  have step: "P (connector_step cfg tk ev c)" if "P c" "\<forall>g code. ev \<noteq> Socket g (Rejected code)" for tk ev c
  proof (cases ev)
    case (Socket g e)
    then show ?thesis using that
      by (auto simp: P_def connector_step_def socket_event_def on_opened_def on_closed_def split: socket_signal.split)
  next
    case Start
    have "P (c\<lparr>cn_stopped := False\<rparr>)" using that(1) by (simp add: P_def)
    with Start that dial show ?thesis by (simp add: connector_step_def connector_start_def)
  qed (use that dial in \<open>auto simp: connector_step_def connector_stop_def register_timeout_def heartbeat_tick_def
      reconnect_tick_def sendControl_def sendBinary_def Let_def P_def split: option.split\<close>)
  have "P c \<Longrightarrow> P (connector_run cfg evs c)" for c
    using assms(1)
  proof (induction evs arbitrary: c)
    case (Cons e evs)
    then show ?case using step by (cases e) auto
  qed simp
  moreover have "P (new_connector cfg)" by (simp add: P_def new_connector_def dials_def)
  ultimately have "P (connector_run cfg evs (new_connector cfg))" by blast
  then show ?thesis using assms(2) by (auto simp: P_def dials_def)
qed

text \<open>
  Refusals walk through the addresses: from a fresh attempt, one refusal after the other dials every
  address once, in order, and after the last one the connector backs off.
\<close>

fun refusals :: "tick \<Rightarrow> int list \<Rightarrow> nat \<Rightarrow> (tick \<times> ('m, 'o, 'b) connector_event) list" where
  "refusals tk [] g = []"
| "refusals tk (code # codes) g = (tk, Socket g (Rejected code)) # refusals tk codes (Suc g)"

lemma refusals_walk:
  assumes "fair_tick tk" "\<not> cn_stopped c" "length codes = length (kc_wsUrls cfg) - cn_urlIndex c" "cn_urlIndex c < length (kc_wsUrls cfg)"
  shows "let c' = connector_run cfg (refusals tk codes (cn_generation c)) c in
    cn_state c' = Backoff \<and> cn_reconnectTimer c' \<noteq> None \<and>
    dials c' = dials c @ map (\<lambda>i. Dial (cn_generation c + i) (kc_wsUrls cfg ! (cn_urlIndex c + i))) [1..<length codes]"
  using assms(2-4)
proof (induction codes arbitrary: c)
  case (Cons code codes)
  let ?c1 = "(if code = 401 \<or> code = 403 then emit (Log_record ''warn'' ''tunnel_register_rejected'') c else c)\<lparr>cn_urlIndex := Suc (cn_urlIndex c)\<rparr>"
  have step: "connector_step cfg tk (Socket (cn_generation c) (Rejected code)) c =
      (if Suc (cn_urlIndex c) < length (kc_wsUrls cfg) then tryUrl (kc_wsUrls cfg ! Suc (cn_urlIndex c)) ?c1 else enterBackoff cfg tk ?c1)"
    by (simp add: connector_step_def socket_event_def on_rejected_def Let_def)
  have c1: "\<not> cn_stopped ?c1" "dials ?c1 = dials c" "cn_generation ?c1 = cn_generation c" using Cons.prems(1) by simp_all
  show ?case
  proof (cases "Suc (cn_urlIndex c) < length (kc_wsUrls cfg)")
    case False
    have "Suc (length codes) = length (kc_wsUrls cfg) - cn_urlIndex c" using Cons.prems(2) by simp
    then have "length codes = 0" using False Cons.prems(3) by arith
    then have "codes = []" by simp
    then show ?thesis using False step enterBackoff_fair [OF assms(1) c1(1)] c1 by (simp add: Let_def)
  next
    case True
    let ?c2 = "tryUrl (kc_wsUrls cfg ! Suc (cn_urlIndex c)) ?c1"
    have c2: "\<not> cn_stopped ?c2" "cn_generation ?c2 = Suc (cn_generation c)" "cn_urlIndex ?c2 = Suc (cn_urlIndex c)"
      "dials ?c2 = dials c @ [Dial (Suc (cn_generation c)) (kc_wsUrls cfg ! Suc (cn_urlIndex c))]"
      using Cons.prems(1) by (simp_all add: tryUrl_def)
    have upt: "[Suc 0..<Suc (length codes)] = Suc 0 # map Suc [Suc 0..<length codes]"
      using True Cons.prems by (simp add: upt_conv_Cons map_Suc_upt del: upt_Suc)
    have "length codes = length (kc_wsUrls cfg) - cn_urlIndex ?c2" "cn_urlIndex ?c2 < length (kc_wsUrls cfg)"
      using Cons.prems(2) True c2(3) by simp_all
    note IH = Cons.IH [OF c2(1) this, unfolded Let_def c2]
    have run: "connector_run cfg (refusals tk (code # codes) (cn_generation c)) c = connector_run cfg (refusals tk codes (Suc (cn_generation c))) ?c2"
      using step True by simp
    show ?thesis using IH unfolding Let_def run by (simp add: upt comp_def del: upt_Suc)
  qed
qed simp

theorem refusals_try_every_hub:
  assumes "kc_wsUrls cfg \<noteq> []" "fair_tick tk" "\<not> cn_stopped c" "length codes = length (kc_wsUrls cfg)"
    and "c' = connector_run cfg (refusals tk codes (Suc (cn_generation c))) (connect_hub cfg c)"
  shows "cn_state c' = Backoff \<and> cn_reconnectTimer c' \<noteq> None \<and>
    dials c' = dials c @ map (\<lambda>i. Dial (Suc (cn_generation c) + i) (kc_wsUrls cfg ! i)) [0..<length (kc_wsUrls cfg)]"
proof -
  obtain u us where u: "kc_wsUrls cfg = u # us" using assms(1) by (cases "kc_wsUrls cfg") auto
  have c1: "\<not> cn_stopped (connect_hub cfg c)" "cn_generation (connect_hub cfg c) = Suc (cn_generation c)" "cn_urlIndex (connect_hub cfg c) = 0"
    "dials (connect_hub cfg c) = dials c @ [Dial (Suc (cn_generation c)) u]"
    using assms(3) by (simp_all add: connect_hub_def tryUrl_def u Let_def)
  have "[0..<length (kc_wsUrls cfg)] = 0 # [1..<length (kc_wsUrls cfg)]" by (simp add: u upt_conv_Cons del: upt_Suc)
  then show ?thesis
    using refusals_walk [OF assms(2) c1(1), of codes cfg] c1 assms(4,5) u by (simp add: Let_def del: upt_Suc)
qed

section \<open>Dead links\<close>

lemma heartbeat_alive:
  assumes "\<not> kc_livenessTimeoutMs cfg \<le> tk_now tk - cn_lastPongAt c"
  shows "cn_stopped (sendHeartbeat cfg tk c) = cn_stopped c" "cn_heartbeatTimer (sendHeartbeat cfg tk c) = cn_heartbeatTimer c"
    "cn_lastPongAt (sendHeartbeat cfg tk c) = cn_lastPongAt c" "cn_socket (sendHeartbeat cfg tk c) = cn_socket c"
  using assms by (simp_all add: sendHeartbeat_def Let_def)

lemma closeAndBackoff_closes:
  assumes "cn_socket c = Some g"
  shows "Close_socket g \<in> set (cn_out (closeAndBackoff cfg tk c))"
  using assms by (simp add: closeAndBackoff_def enterBackoff_def Let_def split: sum.split)

lemma heartbeat_dead:
  assumes "kc_livenessTimeoutMs cfg \<le> tk_now tk - cn_lastPongAt c" "fair_tick tk" "\<not> cn_stopped c" "cn_socket c = Some g"
  shows "cn_state (sendHeartbeat cfg tk c) = Backoff \<and> cn_reconnectTimer (sendHeartbeat cfg tk c) \<noteq> None \<and>
    cn_heartbeatTimer (sendHeartbeat cfg tk c) = None \<and> Close_socket g \<in> set (cn_out (sendHeartbeat cfg tk c))"
proof -
  let ?c = "emit (Log_record ''warn'' ''tunnel_connection_lost'') (on_socket Ping_socket (c\<lparr>cn_lastHeartbeatSentAt := Some (tk_now tk)\<rparr>))"
  have eq: "sendHeartbeat cfg tk c = closeAndBackoff cfg tk ?c" using assms(1) by (simp add: sendHeartbeat_def Let_def)
  have "cn_heartbeatTimer (closeAndBackoff cfg tk d) = None" for d :: "('a, 'b, 'c) connector"
    by (simp add: closeAndBackoff_def enterBackoff_def Let_def split: sum.split)
  then show ?thesis unfolding eq
    using closeAndBackoff_fair [OF assms(2), of ?c cfg] closeAndBackoff_closes [of ?c g cfg tk] assms(3,4) by simp
qed

text \<open>
  A link on which no pong arrives is given up by the first heartbeat after the liveness limit: its socket
  is closed and a reconnection is pending, however many heartbeats were sent before.
\<close>

theorem dead_link_given_up:
  assumes "\<not> cn_stopped c" "cn_socket c = Some g" "cn_heartbeatTimer c \<noteq> None" "\<forall>tk \<in> set tks. fair_tick tk"
    and "\<exists>tk \<in> set tks. cn_lastPongAt c + kc_livenessTimeoutMs cfg \<le> tk_now tk"
    and "c' = connector_run cfg (map (\<lambda>tk. (tk, Heartbeat_tick)) tks) c"
  shows "cn_state c' = Backoff \<and> cn_reconnectTimer c' \<noteq> None \<and> Close_socket g \<in> set (cn_out c')"
  using assms
proof (induction tks arbitrary: c)
  case (Cons tk tks)
  have step: "connector_step cfg tk Heartbeat_tick c = sendHeartbeat cfg tk c"
    using Cons.prems(3) by (auto simp: connector_step_def heartbeat_tick_def)
  show ?case
  proof (cases "kc_livenessTimeoutMs cfg \<le> tk_now tk - cn_lastPongAt c")
    case True
    let ?d = "sendHeartbeat cfg tk c"
    have d: "cn_state ?d = Backoff" "cn_reconnectTimer ?d \<noteq> None" "cn_heartbeatTimer ?d = None" "Close_socket g \<in> set (cn_out ?d)"
      using heartbeat_dead [OF True _ Cons.prems(1,2)] Cons.prems(4) by auto
    have "cn_heartbeatTimer d = None \<Longrightarrow> connector_run cfg (map (\<lambda>tk. (tk, Heartbeat_tick)) tks) d = d" for d :: "('a, 'b, 'c) connector"
      by (induction tks) (auto simp: connector_step_def heartbeat_tick_def)
    then show ?thesis using d Cons.prems(6) step by simp
  next
    case False
    then have late: "\<exists>t \<in> set tks. cn_lastPongAt (sendHeartbeat cfg tk c) + kc_livenessTimeoutMs cfg \<le> tk_now t"
      using Cons.prems(5) by (auto simp: heartbeat_alive [OF False])
    show ?thesis
      by (rule Cons.IH [OF _ _ _ _ late]) (use Cons.prems step in \<open>simp_all add: heartbeat_alive [OF False]\<close>)
  qed
qed simp

section \<open>A started connector has something to wait for\<close>

text \<open>A socket answers by opening, closing or being refused; \<open>A\<close> collects the generations that did.\<close>

fun answered :: "('m, 'o, 'b) connector_event \<Rightarrow> nat set" where
  "answered (Socket g Opened) = {g}"
| "answered (Socket g Closed) = {g}"
| "answered (Socket g (Rejected code)) = {g}"
| "answered _ = {}"

definition possible :: "('m, 'o, 'b) connector \<Rightarrow> ('m, 'o, 'b) connector_event \<Rightarrow> bool" where
  "possible c ev \<longleftrightarrow> (\<forall>g e. ev = Socket g e \<longrightarrow> g \<le> cn_generation c)"

inductive connector_reach :: "connector_config \<Rightarrow> ('m, 'o, 'b) connector \<Rightarrow> nat set \<Rightarrow> bool" for cfg where
  init: "connector_reach cfg (new_connector cfg) {}"
| step: "connector_reach cfg c A \<Longrightarrow> fair_tick tk \<Longrightarrow> possible c ev \<Longrightarrow> connector_reach cfg (connector_step cfg tk ev c) (A \<union> answered ev)"

text \<open>What the connector waits for: a timer, or the answer of the socket it dialled last.\<close>

definition awaits :: "('m, 'o, 'b) connector \<Rightarrow> nat set \<Rightarrow> bool" where
  "awaits c A \<longleftrightarrow>
     cn_heartbeatTimer c \<noteq> None \<or> cn_registerTimer c = Some (cn_generation c) \<or> cn_reconnectTimer c \<noteq> None \<or>
     (cn_generation c \<notin> A \<and> (\<exists>url. Dial (cn_generation c) url \<in> set (cn_out c)))"

definition at_rest :: "('m, 'o, 'b) connector \<Rightarrow> bool" where
  "at_rest c \<longleftrightarrow> cn_stopped c \<or> cn_state c = Offline"

definition live :: "('m, 'o, 'b) connector \<Rightarrow> nat set \<Rightarrow> bool" where
  "live c A \<longleftrightarrow> at_rest c \<or> awaits c A"

lemma live_backoff: "fair_tick tk \<Longrightarrow> live (enterBackoff cfg tk c) A"
proof (cases "cn_stopped c")
  case True
  then show ?thesis by (simp add: live_def at_rest_def)
next
  case False
  assume "fair_tick tk"
  from enterBackoff_fair(1) [OF this False] show ?thesis by (auto simp: live_def awaits_def)
qed

lemma live_close: "fair_tick tk \<Longrightarrow> live (closeAndBackoff cfg tk c) A"
  by (simp add: closeAndBackoff_def live_backoff)

lemma live_dial:
  assumes "Suc (cn_generation c) \<notin> A"
  shows "live (tryUrl url c) A"
  using assms by (auto simp: live_def at_rest_def awaits_def tryUrl_def)

lemma live_connect:
  assumes "kc_wsUrls cfg \<noteq> []" "Suc (cn_generation c) \<notin> A"
  shows "live (connect_hub cfg c) A"
  using assms by (cases "kc_wsUrls cfg") (simp_all add: connect_hub_def live_dial)

lemma live_emit [simp]: "live c A \<Longrightarrow> live (emit x c) A"
  by (auto simp: live_def at_rest_def awaits_def)

lemma live_send [simp]: "live c A \<Longrightarrow> live (send_open tk f c) A"
  by (simp add: send_open_def on_socket_def split: option.split)

lemma live_scheduled: "live (scheduleHeartbeat c) A"
  by (simp add: live_def awaits_def scheduleHeartbeat_def)

lemma live_config: "live c A \<Longrightarrow> live (applyOperationalConfig i c) A"
  by (auto simp: applyOperationalConfig_def Let_def live_def at_rest_def awaits_def scheduleHeartbeat_def split: option.split)

lemma live_message: "fair_tick tk \<Longrightarrow> live c A \<Longrightarrow> live (handleMessage cfg tk m c) A"
  by (simp add: handleMessage_def register_acked_def live_scheduled live_close live_config Let_def split: hub_text.split option.split)

lemma live_heartbeat: "fair_tick tk \<Longrightarrow> cn_heartbeatTimer c \<noteq> None \<Longrightarrow> live (sendHeartbeat cfg tk c) A"
proof (cases "kc_livenessTimeoutMs cfg \<le> tk_now tk - cn_lastPongAt c")
  case True
  then show "fair_tick tk \<Longrightarrow> live (sendHeartbeat cfg tk c) A" by (simp add: sendHeartbeat_def Let_def live_close)
next
  case False
  then show "cn_heartbeatTimer c \<noteq> None \<Longrightarrow> live (sendHeartbeat cfg tk c) A" by (simp add: heartbeat_alive live_def awaits_def)
qed

lemma live_offline [simp]: "live (c\<lparr>cn_state := Offline\<rparr>) A"
  by (simp add: live_def at_rest_def)

lemma live_socket:
  assumes "fair_tick tk" "live c A" "\<forall>g \<in> A. g \<le> cn_generation c" "g \<le> cn_generation c"
  shows "live (socket_event cfg tk g e c) (A \<union> answered (Socket g e))"
proof (cases "g = cn_generation c")
  case False
  have "live c (A \<union> {g})" using assms(2) False by (auto simp: live_def awaits_def)
  with False assms(2) show ?thesis by (cases e) (simp_all add: socket_event_def)
next
  case True
  then show ?thesis
  proof (cases e)
    case Opened
    then show ?thesis using True by (auto simp: socket_event_def on_opened_def live_def awaits_def at_rest_def)
  next
    case Closed
    then show ?thesis using True assms(1) by (simp add: socket_event_def on_closed_def live_backoff)
  next
    case (Rejected code)
    have "Suc (cn_generation c) \<notin> A \<union> {g}" using assms(3,4) by auto
    then show ?thesis using True Rejected assms(1)
      by (auto simp: socket_event_def on_rejected_def Let_def intro!: live_dial live_backoff)
  next
    case Pong_received
    then show ?thesis using True assms(2) by (auto simp: socket_event_def live_def at_rest_def awaits_def)
  qed (use True assms in \<open>simp_all add: socket_event_def live_message\<close>)
qed

lemma generation_handlers [simp]:
  "cn_generation (scheduleHeartbeat c) = cn_generation c" "cn_generation (applyOperationalConfig i c) = cn_generation c"
  by (simp_all add: scheduleHeartbeat_def applyOperationalConfig_def Let_def split: option.split)

lemma generation_heartbeat: "cn_generation c \<le> cn_generation (sendHeartbeat cfg tk c)"
  by (simp add: sendHeartbeat_def Let_def)

lemma generation_acked: "cn_generation c \<le> cn_generation (register_acked cfg tk inp c)"
proof -
  let ?c2 = "case inp of None \<Rightarrow> c\<lparr>cn_registerTimer := None\<rparr> | Some i \<Rightarrow> applyOperationalConfig i (c\<lparr>cn_registerTimer := None\<rparr>)"
  have "cn_generation ?c2 = cn_generation c" by (simp split: option.split)
  then show ?thesis
    using generation_heartbeat [of "?c2\<lparr>cn_attempt := 0, cn_state := Registered\<rparr>" cfg tk] by (simp add: register_acked_def Let_def)
qed

lemma generation_message: "cn_generation c \<le> cn_generation (handleMessage cfg tk m c)"
  by (cases m) (simp_all add: handleMessage_def generation_acked split: option.split)

lemma generation_dial: "cn_generation c \<le> cn_generation (tryUrl url c)" "cn_generation c \<le> cn_generation (connect_hub cfg c)"
  by (simp_all add: tryUrl_def connect_hub_def Let_def split: list.split)

lemma generation_rejected: "cn_generation c \<le> cn_generation (on_rejected cfg tk code c)"
  by (simp add: on_rejected_def tryUrl_def Let_def)

lemma generation_socket: "cn_generation c \<le> cn_generation (socket_event cfg tk g e c)"
  by (cases e) (simp_all add: socket_event_def on_opened_def on_closed_def generation_message generation_rejected)

lemma generation_grows: "cn_generation c \<le> cn_generation (connector_step cfg tk ev c)"
  using generation_dial(2) [of "c\<lparr>cn_stopped := False\<rparr>" cfg]
  by (cases ev)
    (simp_all add: connector_step_def connector_start_def connector_stop_def generation_socket register_timeout_def heartbeat_tick_def
      generation_heartbeat reconnect_tick_def generation_dial sendControl_def sendBinary_def Let_def split: option.split)

lemma live_step:
  assumes "kc_wsUrls cfg \<noteq> []" "fair_tick tk" "possible c ev" "live c A" "\<forall>g \<in> A. g \<le> cn_generation c"
  shows "live (connector_step cfg tk ev c) (A \<union> answered ev)"
proof (cases ev)
  case Start
  have "Suc (cn_generation c) \<notin> A" using assms(5) by auto
  then show ?thesis using Start assms(1,4) live_connect [of cfg "c\<lparr>cn_stopped := False\<rparr>" A]
    by (auto simp: connector_step_def connector_start_def)
next
  case Stop
  then show ?thesis by (simp add: connector_step_def connector_stop_def live_def at_rest_def)
next
  case (Socket g e)
  then show ?thesis using live_socket [OF assms(2,4,5), of g cfg e] assms(3) by (simp add: connector_step_def possible_def)
next
  case Register_timeout
  have "live (c\<lparr>cn_registerTimer := None\<rparr>) A" if "cn_registerTimer c \<noteq> Some (cn_generation c)"
    using assms(4) that by (auto simp: live_def at_rest_def awaits_def)
  then show ?thesis using Register_timeout assms(2,4)
    by (auto simp: connector_step_def register_timeout_def Let_def live_close split: option.split)
next
  case Heartbeat_tick
  then show ?thesis using assms(2,4) live_heartbeat [of tk c cfg A] by (auto simp: connector_step_def heartbeat_tick_def)
next
  case Reconnect_tick
  have "Suc (cn_generation c) \<notin> A" using assms(5) by auto
  then show ?thesis using Reconnect_tick assms(1,4) live_connect [of cfg c A]
    by (auto simp: connector_step_def reconnect_tick_def)
qed (use assms(4) in \<open>simp_all add: connector_step_def sendControl_def sendBinary_def\<close>)

text \<open>
  C37: A started connector never gets stuck: in every reachable state that is not stopped or offline a timer
  runs or the socket dialled last has not answered yet.
\<close>

theorem connector_never_stuck:
  assumes "connector_config_error cfg = None" "connector_reach cfg c A" "\<not> cn_stopped c" "cn_state c \<noteq> Offline"
  shows "awaits c A"
proof -
  have urls: "kc_wsUrls cfg \<noteq> []" using assms(1) by (auto simp: connector_config_error_def)
  from assms(2) have "live c A \<and> (\<forall>g \<in> A. g \<le> cn_generation c)"
  proof induction
    case (step c A tk ev)
    have "\<forall>g \<in> answered ev. g \<le> cn_generation c"
      using step.hyps(3) by (cases ev rule: answered.cases) (simp_all add: possible_def)
    then show ?case
      using live_step [OF urls step.hyps(2,3)] step.IH generation_grows [of c cfg tk ev] by (meson UnE order_trans)
  qed (simp add: live_def at_rest_def new_connector_def)
  then show ?thesis using assms(3,4) by (simp add: live_def at_rest_def)
qed

section \<open>A concrete connector\<close>

definition demo_connector_config :: connector_config where
  "demo_connector_config = \<lparr>kc_wsUrls = [''main'', ''spare''], kc_token = ''t'', kc_peerId = ''p'', kc_heartbeatIntervalMs = 15000,
     kc_registerTimeoutMs = 10000, kc_livenessTimeoutMs = 45000, kc_baseMs = 1000, kc_maxMs = 60000, kc_jitterSpanMs = 500\<rparr>"

definition at_ms :: "int \<Rightarrow> tick" where
  "at_ms t = \<lparr>tk_now = t, tk_open = True, tk_jitter = 0\<rparr>"

definition demo_connected :: "(nat, nat, nat) connector" where
  "demo_connected = connector_run demo_connector_config
     [(at_ms 0, Start), (at_ms 10, Socket 1 Opened), (at_ms 20, Socket 1 (Text_received (Register_ack (Some ''ok'') None)))]
     (new_connector demo_connector_config)"

lemmas connector_defs =
  connector_step_def connector_start_def connect_hub_def tryUrl_def socket_event_def on_opened_def on_closed_def handleMessage_def
  register_acked_def sendHeartbeat_def scheduleHeartbeat_def enterBackoff_def delayFor_def heartbeat_tick_def reconnect_tick_def
  demo_connector_config_def at_ms_def new_connector_def Let_def

lemma demo_connected_state:
  "cn_state demo_connected = Connected" "cn_socket demo_connected = Some 1" "cn_generation demo_connected = 1"
  "cn_stopped demo_connected = False" "cn_heartbeatTimer demo_connected = Some 15000" "cn_lastPongAt demo_connected = 10"
  "dials demo_connected = [Dial 1 ''main'']"
  by (simp_all add: demo_connected_def connector_defs dials_def)

lemma fair_at_ms [simp]: "fair_tick (at_ms t)"
  by (simp add: fair_tick_def at_ms_def)

lemma stopped_is_silent_witness:
  "network (connector_run demo_connector_config [(at_ms 30, Socket 1 (Text_received (Register_ack (Some ''ok'') None))), (at_ms 20000, Heartbeat_tick)]
     (connector_stop demo_connected)) = network (connector_stop demo_connected)"
  by (rule stopped_is_silent) simp

lemma late_ack_reports_connected_witness:
  "is_connected (connector_run demo_connector_config [(at_ms 30, Socket (cn_generation demo_connected) (Text_received (Register_ack (Some ''ok'') None))), (at_ms 40, Start)]
     (connector_stop demo_connected))"
  using late_ack_reports_connected [of "at_ms 30" demo_connected demo_connector_config, OF _ refl, of "at_ms 40"]
  by (simp add: demo_connected_state) (simp add: at_ms_def demo_connector_config_def)

lemma unreachable_hub_no_failover_witness:
  "\<exists>g. Dial g ''main'' \<in> set (cn_out (connector_run demo_connector_config
     [(at_ms 0, Start), (at_ms 5, Socket 1 Socket_error), (at_ms 5, Socket 1 Closed), (at_ms 1005, Reconnect_tick)]
     (new_connector demo_connector_config :: (nat, nat, nat) connector))) \<and> g = 2 \<and> ''main'' = hd (kc_wsUrls demo_connector_config)"
proof -
  let ?evs = "[(at_ms 0, Start), (at_ms 5, Socket 1 Socket_error), (at_ms 5, Socket 1 Closed), (at_ms 1005, Reconnect_tick)]"
  have d: "Dial 2 ''main'' \<in> set (cn_out (connector_run demo_connector_config ?evs (new_connector demo_connector_config :: (nat, nat, nat) connector)))"
    by (simp add: connector_defs)
  have "''main'' = hd (kc_wsUrls demo_connector_config)"
    by (rule unreachable_hub_no_failover [OF _ d]) simp
  with d show ?thesis by blast
qed

lemma dead_link_given_up_witness:
  "cn_state (connector_run demo_connector_config (map (\<lambda>tk. (tk, Heartbeat_tick)) [at_ms 15020, at_ms 30020, at_ms 45020]) demo_connected) = Backoff"
proof -
  let ?c = "connector_run demo_connector_config (map (\<lambda>tk. (tk, Heartbeat_tick)) [at_ms 15020, at_ms 30020, at_ms 45020]) demo_connected"
  have "cn_state ?c = Backoff \<and> cn_reconnectTimer ?c \<noteq> None \<and> Close_socket 1 \<in> set (cn_out ?c)"
    by (rule dead_link_given_up [OF _ _ _ _ _ refl])
      (simp_all only: demo_connected_state, simp_all add: demo_connector_config_def at_ms_def fair_tick_def)
  then show ?thesis ..
qed

lemma connector_never_stuck_witness:
  "awaits (connector_step demo_connector_config (at_ms 0) Start (new_connector demo_connector_config :: (nat, nat, nat) connector)) {}"
proof (rule connector_never_stuck)
  have "connector_reach demo_connector_config (connector_step demo_connector_config (at_ms 0) Start (new_connector demo_connector_config :: (nat, nat, nat) connector))
      ({} \<union> answered (Start :: (nat, nat, nat) connector_event))"
    by (rule connector_reach.step [OF connector_reach.init]) (simp_all add: possible_def)
  then show "connector_reach demo_connector_config (connector_step demo_connector_config (at_ms 0) Start (new_connector demo_connector_config :: (nat, nat, nat) connector)) {}"
    by simp
qed (simp_all add: connector_config_error_def js_blank_def js_trim_def is_ws_def connector_defs)

end
