(* ===== verification/Tunnel_Sessions.thy ===== *)
theory Tunnel_Sessions
  imports Tunnel_Connector Prelude
begin

text \<open>
  Sessions over the tunnel (packages/ws-tunnel): \<open>HubSessionStore\<close> and \<open>SessionGateway\<close> of the hub,
  \<open>ClientSessionStore\<close> and \<open>ClientSessionServer\<close> of the peer, and the hub's \<open>HubPeerRegistry\<close>. A call of
  \<open>openSession\<close> waits twice, for the acknowledgement and for the audit record; the model is cut at these
  points, so calls overlap freely. The token signer is a parameter.
\<close>

section \<open>The hub's session store\<close>

record tunnel_user =
  tu_id :: string
  tu_username :: string
  tu_role :: string

record hub_session =
  sn_sessionId :: string
  sn_peerId :: string
  sn_token :: string
  sn_user :: tunnel_user
  sn_peerRole :: string
  sn_createdAt :: int
  sn_lastActivityAt :: int
  sn_bytesIn :: nat
  sn_bytesOut :: nat

type_synonym session_map = "(string, hub_session) jsmap"

definition store_register :: "hub_session \<Rightarrow> session_map \<Rightarrow> session_map" where
  "store_register n m = js_set (sn_sessionId n) n m"

definition byToken :: "int \<Rightarrow> string \<Rightarrow> session_map \<Rightarrow> hub_session option \<times> session_map" where
  "byToken now token m =
     (case find_first (\<lambda>(i, n). sn_token n = token) m of
        None \<Rightarrow> (None, m)
      | Some (i, n) \<Rightarrow> (Some (n\<lparr>sn_lastActivityAt := now\<rparr>), js_set i (n\<lparr>sn_lastActivityAt := now\<rparr>) m))"

definition countFor :: "string \<Rightarrow> session_map \<Rightarrow> nat" where
  "countFor peer m = length (filter (\<lambda>(i, n). sn_peerId n = peer) m)"

definition sessionForPeer :: "string \<Rightarrow> session_map \<Rightarrow> hub_session option" where
  "sessionForPeer peer m = map_option snd (find_first (\<lambda>(i, n). sn_peerId n = peer) m)"

definition hub_expired :: "int \<Rightarrow> int \<Rightarrow> int \<Rightarrow> hub_session \<Rightarrow> bool" where
  "hub_expired ttlMs idleMs now n \<longleftrightarrow> ttlMs \<le> now - sn_createdAt n \<or> idleMs \<le> now - sn_lastActivityAt n"

definition hub_sweep :: "int \<Rightarrow> int \<Rightarrow> int \<Rightarrow> session_map \<Rightarrow> hub_session list \<times> session_map" where
  "hub_sweep ttlMs idleMs now m =
     (map snd (filter (\<lambda>(i, n). hub_expired ttlMs idleMs now n) m), filter (\<lambda>(i, n). \<not> hub_expired ttlMs idleMs now n) m)"

section \<open>The gateway\<close>

record gateway_config =
  gc_maxSessionsPerPeer :: nat
  gc_ttlMs :: int
  gc_idleTimeoutMs :: int

definition default_gateway_config :: gateway_config where
  "default_gateway_config = \<lparr>gc_maxSessionsPerPeer = 1, gc_ttlMs = 4 * 60 * 60 * 1000, gc_idleTimeoutMs = 15 * 60 * 1000\<rparr>"

record open_input =
  oi_hubId :: string
  oi_peerId :: string
  oi_user :: tunnel_user
  oi_remoteIp :: "string option"

datatype session_error = Session_offline | Session_ack_timeout | Session_audit_failed

datatype session_message =
    Open_session string tunnel_user
  | Session_end string string

datatype gateway_out =
    Gateway_control string session_message
  | Audit_open string open_input string      \<comment> \<open>session, input, role on the peer\<close>
  | Audit_close string string nat nat
  | Open_result string "session_error + string \<times> string \<times> int \<times> string"

record gateway =
  gw_sessions :: session_map
  gw_pending :: "(string, open_input) jsmap"               \<comment> \<open>calls that wait for the acknowledgement\<close>
  gw_auditing :: "(string, open_input \<times> hub_session \<times> int) jsmap"   \<comment> \<open>calls that wait for the audit\<close>
  gw_out :: "gateway_out list"

definition new_gateway :: gateway where
  "new_gateway = \<lparr>gw_sessions = [], gw_pending = [], gw_auditing = [], gw_out = []\<rparr>"

definition gw_emit :: "gateway_out \<Rightarrow> gateway \<Rightarrow> gateway" where
  "gw_emit x g = g\<lparr>gw_out := gw_out g @ [x]\<rparr>"

definition mapSessionRole :: "string \<Rightarrow> string" where
  "mapSessionRole r = r"

definition announce_end :: "string \<Rightarrow> hub_session \<Rightarrow> gateway \<Rightarrow> gateway" where
  "announce_end reason n g =
     gw_emit (Audit_close (sn_sessionId n) reason (sn_bytesIn n) (sn_bytesOut n))
       (gw_emit (Gateway_control (sn_peerId n) (Session_end (sn_sessionId n) reason)) g)"

definition closeSession :: "string \<Rightarrow> string \<Rightarrow> gateway \<Rightarrow> gateway" where
  "closeSession sid reason g =
     (case js_get (gw_sessions g) sid of
        None \<Rightarrow> g
      | Some n \<Rightarrow> announce_end reason n (g\<lparr>gw_sessions := js_delete sid (gw_sessions g)\<rparr>))"

definition replace_existing :: "gateway_config \<Rightarrow> string \<Rightarrow> gateway \<Rightarrow> gateway" where
  "replace_existing cfg peer g =
     (if gc_maxSessionsPerPeer cfg \<le> countFor peer (gw_sessions g) then
        (case sessionForPeer peer (gw_sessions g) of
           None \<Rightarrow> g
         | Some n \<Rightarrow> closeSession (sn_sessionId n) ''replaced'' g)
      else g)"

text \<open>\<open>openSession\<close> up to its first wait; \<open>sid\<close> is the fresh identifier, \<open>up\<close> what the channel says of the peer.\<close>

definition open_begin :: "gateway_config \<Rightarrow> string \<Rightarrow> open_input \<Rightarrow> bool \<Rightarrow> gateway \<Rightarrow> gateway" where
  "open_begin cfg sid inp up g =
     (let g1 = replace_existing cfg (oi_peerId inp) g in
      if \<not> up then gw_emit (Open_result sid (Inl Session_offline)) g1
      else gw_emit (Gateway_control (oi_peerId inp) (Open_session sid ((oi_user inp)\<lparr>tu_role := mapSessionRole (tu_role (oi_user inp))\<rparr>)))
             (g1\<lparr>gw_pending := js_set sid inp (gw_pending g1)\<rparr>))"

definition acked_session :: "int \<Rightarrow> string \<Rightarrow> string \<Rightarrow> open_input \<Rightarrow> hub_session" where
  "acked_session now sid token inp =
     \<lparr>sn_sessionId = sid, sn_peerId = oi_peerId inp, sn_token = token, sn_user = oi_user inp,
      sn_peerRole = mapSessionRole (tu_role (oi_user inp)), sn_createdAt = now, sn_lastActivityAt = now, sn_bytesIn = 0, sn_bytesOut = 0\<rparr>"

definition on_ack :: "int \<Rightarrow> string \<Rightarrow> string \<Rightarrow> int \<Rightarrow> gateway \<Rightarrow> gateway" where
  "on_ack now sid token expiresInSec g =
     (case js_get (gw_pending g) sid of
        None \<Rightarrow> g
      | Some inp \<Rightarrow>
          gw_emit (Audit_open sid inp (mapSessionRole (tu_role (oi_user inp))))
            (g\<lparr>gw_pending := js_delete sid (gw_pending g),
               gw_auditing := js_set sid (inp, acked_session now sid token inp, expiresInSec) (gw_auditing g)\<rparr>))"

definition on_ack_timeout :: "string \<Rightarrow> gateway \<Rightarrow> gateway" where
  "on_ack_timeout sid g =
     (if js_has (gw_pending g) sid
      then gw_emit (Open_result sid (Inl Session_ack_timeout)) (g\<lparr>gw_pending := js_delete sid (gw_pending g)\<rparr>)
      else g)"

definition on_audited :: "string \<Rightarrow> bool \<Rightarrow> gateway \<Rightarrow> gateway" where
  "on_audited sid ok g =
     (case js_get (gw_auditing g) sid of
        None \<Rightarrow> g
      | Some (inp, n, expiresInSec) \<Rightarrow>
          let g1 = g\<lparr>gw_auditing := js_delete sid (gw_auditing g)\<rparr> in
          if ok then gw_emit (Open_result sid (Inr (sid, sn_token n, expiresInSec, sn_peerRole n)))
                       (g1\<lparr>gw_sessions := store_register n (gw_sessions g1)\<rparr>)
          else gw_emit (Open_result sid (Inl Session_audit_failed)) g1)"

definition gateway_sweep :: "gateway_config \<Rightarrow> int \<Rightarrow> gateway \<Rightarrow> gateway" where
  "gateway_sweep cfg now g =
     (case hub_sweep (gc_ttlMs cfg) (gc_idleTimeoutMs cfg) now (gw_sessions g) of
        (expired, m) \<Rightarrow> fold (announce_end ''expired'') expired (g\<lparr>gw_sessions := m\<rparr>))"

definition sessionByToken :: "int \<Rightarrow> string \<Rightarrow> gateway \<Rightarrow> gateway" where
  "sessionByToken now token g = g\<lparr>gw_sessions := snd (byToken now token (gw_sessions g))\<rparr>"

section \<open>The gateway as a transition system\<close>

datatype gateway_event =
    Begin string open_input bool
  | Ack int string string int
  | Ack_timeout string
  | Audited string bool
  | Close string string
  | Sweep int
  | Lookup int string

fun gateway_step :: "gateway_config \<Rightarrow> gateway_event \<Rightarrow> gateway \<Rightarrow> gateway" where
  "gateway_step cfg (Begin sid inp up) g = open_begin cfg sid inp up g"
| "gateway_step cfg (Ack now sid token e) g = on_ack now sid token e g"
| "gateway_step cfg (Ack_timeout sid) g = on_ack_timeout sid g"
| "gateway_step cfg (Audited sid ok) g = on_audited sid ok g"
| "gateway_step cfg (Close sid reason) g = closeSession sid reason g"
| "gateway_step cfg (Sweep now) g = gateway_sweep cfg now g"
| "gateway_step cfg (Lookup now token) g = sessionByToken now token g"

text \<open>A call takes an identifier no call had before.\<close>

fun begun :: "gateway_event list \<Rightarrow> string list" where
  "begun [] = []"
| "begun (Begin sid inp up # evs) = sid # begun evs"
| "begun (ev # evs) = begun evs"

definition gateway_run :: "gateway_config \<Rightarrow> gateway_event list \<Rightarrow> gateway \<Rightarrow> gateway" where
  "gateway_run cfg evs g = fold (gateway_step cfg) evs g"

section \<open>The peer's sessions\<close>

record client_session =
  cs_sessionId :: string
  cs_user :: tunnel_user
  cs_createdAt :: int
  cs_lastActivityAt :: int

record token_payload =
  tp_sessionId :: string
  tp_sub :: string
  tp_username :: string
  tp_role :: string

record token_signer =
  tk_sign :: "token_payload \<Rightarrow> int \<Rightarrow> string option"    \<comment> \<open>\<open>None\<close>: signing rejects\<close>
  tk_verify :: "int \<Rightarrow> string \<Rightarrow> token_payload option"

type_synonym client_sessions = "(string, client_session) jsmap"

definition session_payload :: "string \<Rightarrow> tunnel_user \<Rightarrow> token_payload" where
  "session_payload sid user = \<lparr>tp_sessionId = sid, tp_sub = tu_id user, tp_username = tu_username user, tp_role = tu_role user\<rparr>"

text \<open>The session is stored before the token is signed.\<close>

definition peer_open :: "token_signer \<Rightarrow> int \<Rightarrow> int \<Rightarrow> string \<Rightarrow> tunnel_user \<Rightarrow> client_sessions \<Rightarrow> (string \<times> int) option \<times> client_sessions" where
  "peer_open sg ttlSec now sid user m =
     (map_option (\<lambda>t. (t, ttlSec)) (tk_sign sg (session_payload sid user) ttlSec),
      js_set sid \<lparr>cs_sessionId = sid, cs_user = user, cs_createdAt = now, cs_lastActivityAt = now\<rparr> m)"

definition authenticate :: "token_signer \<Rightarrow> int \<Rightarrow> string \<Rightarrow> client_sessions \<Rightarrow> tunnel_user option \<times> client_sessions" where
  "authenticate sg now token m =
     (case tk_verify sg now token of
        None \<Rightarrow> (None, m)
      | Some p \<Rightarrow>
          (case js_get m (tp_sessionId p) of
             None \<Rightarrow> (None, m)
           | Some c \<Rightarrow> (Some (cs_user c), js_set (tp_sessionId p) (c\<lparr>cs_lastActivityAt := now\<rparr>) m)))"

definition peer_end :: "string \<Rightarrow> client_sessions \<Rightarrow> client_sessions" where
  "peer_end sid m = js_delete sid m"

text \<open>The code divides the milliseconds by 1000 and compares seconds.\<close>

definition peer_sweep :: "int \<Rightarrow> int \<Rightarrow> int \<Rightarrow> client_sessions \<Rightarrow> client_sessions" where
  "peer_sweep ttlSec idleSec now m =
     filter (\<lambda>(i, c). \<not> (ttlSec * 1000 \<le> now - cs_createdAt c \<or> idleSec * 1000 \<le> now - cs_lastActivityAt c)) m"

datatype peer_event =
    From_hub int session_message
  | Authenticate int string
  | Peer_sweep int

text \<open>\<open>ClientSessionServer\<close>: an acknowledgement goes out only for a signed token.\<close>

definition peer_message :: "token_signer \<Rightarrow> int \<Rightarrow> int \<Rightarrow> session_message \<Rightarrow> client_sessions \<Rightarrow> (string \<times> string \<times> int) option \<times> client_sessions" where
  "peer_message sg ttlSec now msg m =
     (case msg of
        Open_session sid user \<Rightarrow>
          (case peer_open sg ttlSec now sid user m of (r, m') \<Rightarrow> (map_option (\<lambda>(t, e). (sid, t, e)) r, m'))
      | Session_end sid reason \<Rightarrow> (None, peer_end sid m))"

definition peer_step :: "token_signer \<Rightarrow> int \<Rightarrow> int \<Rightarrow> peer_event \<Rightarrow> client_sessions \<Rightarrow> client_sessions" where
  "peer_step sg ttlSec idleSec ev m =
     (case ev of
        From_hub now msg \<Rightarrow> snd (peer_message sg ttlSec now msg m)
      | Authenticate now token \<Rightarrow> snd (authenticate sg now token m)
      | Peer_sweep now \<Rightarrow> peer_sweep ttlSec idleSec now m)"

section \<open>The hub's peer registry\<close>

record peer_service =
  ps_id :: string
  ps_meta :: "(string option \<times> string option) option"

record peer_record =
  pr_peerId :: string
  pr_peerType :: string
  pr_services :: "peer_service list"

definition dedupeById :: "peer_service list \<Rightarrow> peer_service list" where
  "dedupeById services = map snd (fold (\<lambda>x. js_set (ps_id x) x) services [])"

definition registry_register :: "string \<Rightarrow> string \<Rightarrow> peer_service list option \<Rightarrow> (string, peer_record) jsmap \<Rightarrow> string + (string, peer_record) jsmap" where
  "registry_register peerId peerType services m =
     (if js_blank peerId then Inl ''hub-peer-registry.no-peer-id''
      else Inr (js_set peerId \<lparr>pr_peerId = peerId, pr_peerType = peerType, pr_services = dedupeById (or_else services [])\<rparr> m))"

definition updateServices :: "string \<Rightarrow> peer_service list \<Rightarrow> (string, peer_record) jsmap \<Rightarrow> (string, peer_record) jsmap" where
  "updateServices peerId services m =
     (case js_get m peerId of None \<Rightarrow> m | Some r \<Rightarrow> js_set peerId (r\<lparr>pr_services := dedupeById services\<rparr>) m)"

definition servicesOf :: "string \<Rightarrow> (string, peer_record) jsmap \<Rightarrow> peer_service list" where
  "servicesOf peerId m = (case js_get m peerId of None \<Rightarrow> [] | Some r \<Rightarrow> pr_services r)"

end
