(* ===== verification/Session_Facts.thy ===== *)
theory Session_Facts
  imports Tunnel_Sessions
begin

text \<open>
  What sessions guarantee: nothing is open that was not audited, an ended session is announced to its peer,
  one session per peer while calls do not overlap, and a revoked session opens nothing on the peer.
\<close>

section \<open>Fields\<close>

lemma gw_emit_fields [simp]:
  "gw_sessions (gw_emit x g) = gw_sessions g" "gw_pending (gw_emit x g) = gw_pending g"
  "gw_auditing (gw_emit x g) = gw_auditing g" "gw_out (gw_emit x g) = gw_out g @ [x]"
  by (simp_all add: gw_emit_def)

lemma announce_end_fields [simp]:
  "gw_sessions (announce_end r n g) = gw_sessions g" "gw_pending (announce_end r n g) = gw_pending g"
  "gw_auditing (announce_end r n g) = gw_auditing g"
  "gw_out (announce_end r n g) = gw_out g @ [Gateway_control (sn_peerId n) (Session_end (sn_sessionId n) r),
     Audit_close (sn_sessionId n) r (sn_bytesIn n) (sn_bytesOut n)]"
  by (simp_all add: announce_end_def)

lemma announce_all:
  "gw_sessions (fold (announce_end r) ns g) = gw_sessions g" "gw_pending (fold (announce_end r) ns g) = gw_pending g"
  "gw_auditing (fold (announce_end r) ns g) = gw_auditing g"
  "set (gw_out (fold (announce_end r) ns g)) = set (gw_out g) \<union>
     (\<Union>n \<in> set ns. {Gateway_control (sn_peerId n) (Session_end (sn_sessionId n) r), Audit_close (sn_sessionId n) r (sn_bytesIn n) (sn_bytesOut n)})"
  by (induction ns arbitrary: g) auto

section \<open>The invariant\<close>

text \<open>A peer and a session in a message that ends it.\<close>

definition announced :: "gateway_out list \<Rightarrow> string \<Rightarrow> string \<Rightarrow> bool" where
  "announced out peer sid \<longleftrightarrow> (\<exists>r. Gateway_control peer (Session_end sid r) \<in> set out)"

definition session_ok :: "gateway \<Rightarrow> string \<Rightarrow> hub_session \<Rightarrow> bool" where
  "session_ok g sid n \<longleftrightarrow> sn_sessionId n = sid \<and>
     (\<exists>inp. Audit_open sid inp (sn_peerRole n) \<in> set (gw_out g) \<and> oi_peerId inp = sn_peerId n \<and> oi_user inp = sn_user n)"

definition gateway_wf :: "gateway \<Rightarrow> bool" where
  "gateway_wf g \<longleftrightarrow>
     wf_map (gw_sessions g) \<and> wf_map (gw_pending g) \<and> wf_map (gw_auditing g) \<and>
     (\<forall>sid n. js_get (gw_sessions g) sid = Some n \<longrightarrow> session_ok g sid n) \<and>
     (\<forall>sid inp n e. js_get (gw_auditing g) sid = Some (inp, n, e) \<longrightarrow> session_ok g sid n) \<and>
     (\<forall>sid r. Open_result sid (Inr r) \<in> set (gw_out g) \<longrightarrow>
        (\<exists>inp role. Audit_open sid inp role \<in> set (gw_out g) \<and> (js_has (gw_sessions g) sid \<or> announced (gw_out g) (oi_peerId inp) sid)))"

section \<open>Counting entries\<close>

definition cnt :: "('v \<Rightarrow> bool) \<Rightarrow> ('k, 'v) jsmap \<Rightarrow> nat" where
  "cnt P m = length (filter (\<lambda>(i, x). P x) m)"

lemma cnt_simps [simp]: "cnt P [] = 0" "cnt P ((i, x) # m) = (if P x then Suc (cnt P m) else cnt P m)"
  by (simp_all add: cnt_def)

lemma cnt_set: "js_get m k = None \<Longrightarrow> cnt P (js_set k v m) = cnt P m + (if P v then 1 else 0)"
  by (induction m) (auto simp: js_set_def)

lemma cnt_set_same: "js_get m k = Some u \<Longrightarrow> P v = P u \<Longrightarrow> cnt P (js_set k v m) = cnt P m"
  by (induction m) (auto simp: js_set_def)

lemma cnt_set_le: "cnt P (js_set k v m) \<le> cnt P m + (if P v then 1 else 0)"
  by (induction m) (auto simp: js_set_def)

lemma cnt_delete_absent: "js_get m k = None \<Longrightarrow> js_delete k m = m"
  by (induction m) (auto simp: js_delete_def AList.delete_eq)

lemma cnt_delete: "wf_map m \<Longrightarrow> js_get m k = Some v \<Longrightarrow> cnt P m = cnt P (js_delete k m) + (if P v then 1 else 0)"
proof (induction m)
  case (Cons a m)
  obtain i x where a: "a = (i, x)" by fastforce
  show ?case
  proof (cases "i = k")
    case True
    then have "js_get m k = None" using Cons.prems(1) a by (auto simp: wf_map_def map_of_eq_None_iff)
    then have "js_delete k ((i, x) # m) = m" using cnt_delete_absent [of m k] True by (simp add: js_delete_def AList.delete_eq)
    then show ?thesis using a True Cons.prems(2) by simp
  next
    case False
    then have "js_delete k ((i, x) # m) = (i, x) # js_delete k m" by (simp add: js_delete_def AList.delete_eq)
    then show ?thesis using Cons a False by (simp add: wf_map_def)
  qed
qed simp

lemma cnt_filter_le: "cnt P (filter Q m) \<le> cnt P m"
  by (induction m) auto

lemma cnt_found: "0 < cnt P m \<Longrightarrow> \<exists>i x. find_first (\<lambda>(i, x). P x) m = Some (i, x) \<and> (i, x) \<in> set m \<and> P x"
  by (induction m) (auto split: if_splits)

lemma countFor_cnt: "countFor peer m = cnt (\<lambda>n. sn_peerId n = peer) m"
  by (simp add: countFor_def cnt_def)

lemma found_in: "find_first P xs = Some x \<Longrightarrow> x \<in> set xs \<and> P x"
  by (induction xs) (auto split: if_splits)

lemma has_member: "(i, x) \<in> set m \<Longrightarrow> js_has m i"
  by (force simp: js_has_keys)

section \<open>Nothing is open that was not audited\<close>

lemma session_ok_out: "session_ok g sid n \<Longrightarrow> set (gw_out g) \<subseteq> set (gw_out g') \<Longrightarrow> session_ok g' sid n"
  unfolding session_ok_def by blast

lemma wf_session: "gateway_wf g \<Longrightarrow> js_get (gw_sessions g) sid = Some n \<Longrightarrow> session_ok g sid n"
  by (simp add: gateway_wf_def)

lemma announced_out: "announced out p sid \<Longrightarrow> set out \<subseteq> set out' \<Longrightarrow> announced out' p sid"
  unfolding announced_def by blast

text \<open>A step that only appends outputs other than results and shrinks the tables.\<close>

lemma gateway_wf_shrink:
  assumes "gateway_wf g" "set (gw_out g) \<subseteq> set (gw_out g')"
    and "wf_map (gw_sessions g')" "wf_map (gw_pending g')" "wf_map (gw_auditing g')"
    and "\<And>sid n'. js_get (gw_sessions g') sid = Some n' \<Longrightarrow>
       \<exists>n. js_get (gw_sessions g) sid = Some n \<and> sn_sessionId n' = sn_sessionId n \<and> sn_peerRole n' = sn_peerRole n \<and> sn_peerId n' = sn_peerId n \<and> sn_user n' = sn_user n"
    and "\<And>sid x. js_get (gw_auditing g') sid = Some x \<Longrightarrow> js_get (gw_auditing g) sid = Some x"
    and "\<And>sid r. Open_result sid (Inr r) \<in> set (gw_out g') \<Longrightarrow> Open_result sid (Inr r) \<in> set (gw_out g)"
    and "\<And>sid n. js_get (gw_sessions g) sid = Some n \<Longrightarrow> js_has (gw_sessions g') sid \<or> announced (gw_out g') (sn_peerId n) sid"
  shows "gateway_wf g'"
  unfolding gateway_wf_def
proof (intro conjI allI impI)
  fix sid n' assume n': "js_get (gw_sessions g') sid = Some n'"
  obtain n where n: "js_get (gw_sessions g) sid = Some n" "sn_sessionId n' = sn_sessionId n" "sn_peerRole n' = sn_peerRole n"
    "sn_peerId n' = sn_peerId n" "sn_user n' = sn_user n" using assms(6) [OF n'] by blast
  have "session_ok g sid n" using assms(1) n(1) by (simp add: gateway_wf_def)
  then show "session_ok g' sid n'" using assms(2) n(2-5) unfolding session_ok_def by auto
next
  fix sid inp n e assume "js_get (gw_auditing g') sid = Some (inp, n, e)"
  then have "session_ok g sid n" using assms(1,7) unfolding gateway_wf_def by blast
  then show "session_ok g' sid n" using assms(2) by (rule session_ok_out)
next
  fix sid r assume "Open_result sid (Inr r) \<in> set (gw_out g')"
  then have r: "Open_result sid (Inr r) \<in> set (gw_out g)" by (rule assms(8))
  then obtain inp role where i: "Audit_open sid inp role \<in> set (gw_out g)" "js_has (gw_sessions g) sid \<or> announced (gw_out g) (oi_peerId inp) sid"
    using assms(1) unfolding gateway_wf_def by blast
  show "\<exists>inp role. Audit_open sid inp role \<in> set (gw_out g') \<and> (js_has (gw_sessions g') sid \<or> announced (gw_out g') (oi_peerId inp) sid)"
  proof (cases "js_has (gw_sessions g) sid")
    case True
    then obtain n where n: "js_get (gw_sessions g) sid = Some n" by (auto simp: js_has_def)
    then obtain inp' where i': "Audit_open sid inp' (sn_peerRole n) \<in> set (gw_out g)" "oi_peerId inp' = sn_peerId n"
      using assms(1) unfolding gateway_wf_def session_ok_def by blast
    show ?thesis using i' assms(2) assms(9) [OF n] by (intro exI [of _ inp'] exI [of _ "sn_peerRole n"]) auto
  next
    case False
    then show ?thesis using i assms(2) announced_out [OF _ assms(2)] by blast
  qed
qed (use assms in simp_all)

lemma wf_closeSession:
  assumes "gateway_wf g"
  shows "gateway_wf (closeSession sid r g)"
proof (cases "js_get (gw_sessions g) sid")
  case (Some n)
  then have n: "sn_sessionId n = sid" using assms by (auto simp: gateway_wf_def session_ok_def)
  show ?thesis
    using assms Some n unfolding closeSession_def
    by (intro gateway_wf_shrink [OF assms]) (auto simp: gateway_wf_def announced_def js_has_def split: if_splits)
qed (use assms in \<open>simp add: closeSession_def\<close>)

fun granted :: "gateway_out \<Rightarrow> bool" where
  "granted (Open_result sid (Inr r)) = True"
| "granted _ = False"

lemma ws_emit_wf:
  assumes "gateway_wf g" "\<not> granted x"
  shows "gateway_wf (gw_emit x g)"
  by (rule gateway_wf_shrink [OF assms(1)]) (use assms in \<open>auto simp: gateway_wf_def js_has_def\<close>)

lemma wf_pending:
  assumes "gateway_wf g" "wf_map m"
  shows "gateway_wf (g\<lparr>gw_pending := m\<rparr>)"
  by (rule gateway_wf_shrink [OF assms(1)]) (use assms in \<open>auto simp: gateway_wf_def js_has_def\<close>)

lemma wf_sweep:
  assumes "gateway_wf g"
  shows "gateway_wf (gateway_sweep cfg now g)"
proof -
  define P where "P = hub_expired (gc_ttlMs cfg) (gc_idleTimeoutMs cfg) now"
  define ns where "ns = map snd (filter (\<lambda>(i, n). P n) (gw_sessions g))"
  define m where "m = filter (\<lambda>(i, n). \<not> P n) (gw_sessions g)"
  have wf: "wf_map (gw_sessions g)" "wf_map (gw_pending g)" "wf_map (gw_auditing g)" using assms by (simp_all add: gateway_wf_def)
  have get: "js_get m sid = (case js_get (gw_sessions g) sid of Some n \<Rightarrow> if \<not> P n then Some n else None | None \<Rightarrow> None)" for sid
    unfolding m_def by (rule js_get_filter [OF wf(1)])
  have ended: "n \<in> set ns \<and> sn_sessionId n = sid" if "js_get (gw_sessions g) sid = Some n" "P n" for sid n
  proof -
    have "(sid, n) \<in> set (filter (\<lambda>(i, n). P n) (gw_sessions g))" using map_of_SomeD [OF that(1)] that(2) by simp
    then have "n \<in> set ns" unfolding ns_def by (force simp: image_iff)
    then show ?thesis using assms that(1) by (simp add: gateway_wf_def session_ok_def)
  qed
  have eq: "gateway_sweep cfg now g = fold (announce_end ''expired'') ns (g\<lparr>gw_sessions := m\<rparr>)"
    by (simp add: gateway_sweep_def hub_sweep_def ns_def m_def P_def)
  show ?thesis unfolding eq
  proof (rule gateway_wf_shrink [OF assms])
    fix sid n assume n: "js_get (gw_sessions g) sid = Some n"
    show "js_has (gw_sessions (fold (announce_end ''expired'') ns (g\<lparr>gw_sessions := m\<rparr>))) sid \<or>
        announced (gw_out (fold (announce_end ''expired'') ns (g\<lparr>gw_sessions := m\<rparr>))) (sn_peerId n) sid"
    proof (cases "P n")
      case True
      then show ?thesis using ended [OF n True] by (auto simp: announce_all announced_def)
    qed (simp add: announce_all get n js_has_def)
  next
    fix sid n' assume "js_get (gw_sessions (fold (announce_end ''expired'') ns (g\<lparr>gw_sessions := m\<rparr>))) sid = Some n'"
    then have "js_get (gw_sessions g) sid = Some n'" by (simp add: announce_all get split: option.splits if_splits)
    then show "\<exists>n. js_get (gw_sessions g) sid = Some n \<and> sn_sessionId n' = sn_sessionId n \<and> sn_peerRole n' = sn_peerRole n \<and> sn_peerId n' = sn_peerId n \<and> sn_user n' = sn_user n"
      by blast
  qed (use wf in \<open>auto simp: announce_all m_def\<close>)
qed

lemma wf_lookup:
  assumes "gateway_wf g"
  shows "gateway_wf (sessionByToken now token g)"
proof (cases "find_first (\<lambda>(i, n). sn_token n = token) (gw_sessions g)")
  case None
  then show ?thesis using assms by (simp add: sessionByToken_def byToken_def)
next
  case (Some x)
  obtain i n where x: "x = (i, n)" by fastforce
  have wf: "wf_map (gw_sessions g)" "wf_map (gw_pending g)" "wf_map (gw_auditing g)" using assms by (simp_all add: gateway_wf_def)
  have n: "js_get (gw_sessions g) i = Some n" using found_in [OF Some] js_get_in_set [OF wf(1)] by (simp add: x)
  have eq: "sessionByToken now token g = g\<lparr>gw_sessions := js_set i (n\<lparr>sn_lastActivityAt := now\<rparr>) (gw_sessions g)\<rparr>"
    by (simp add: sessionByToken_def byToken_def Some x)
  show ?thesis unfolding eq
    by (rule gateway_wf_shrink [OF assms]) (use wf n in \<open>auto simp: js_has_def split: if_splits\<close>)
qed

lemma wf_begin:
  assumes "gateway_wf g"
  shows "gateway_wf (open_begin cfg sid inp up g)"
proof -
  have r: "gateway_wf (replace_existing cfg (oi_peerId inp) g)"
    using assms wf_closeSession by (simp add: replace_existing_def split: option.split)
  then have "wf_map (js_set sid inp (gw_pending (replace_existing cfg (oi_peerId inp) g)))" by (simp add: gateway_wf_def)
  from wf_pending [OF r this] r show ?thesis
    by (auto simp: open_begin_def Let_def intro!: ws_emit_wf)
qed

lemma wf_ack:
  assumes "gateway_wf g"
  shows "gateway_wf (on_ack now sid token e g)"
proof (cases "js_get (gw_pending g) sid")
  case (Some inp)
  let ?g = "on_ack now sid token e g"
  have out: "set (gw_out g) \<subseteq> set (gw_out ?g)" and s: "gw_sessions ?g = gw_sessions g"
    by (auto simp: on_ack_def Some Let_def)
  have res: "Open_result i (Inr r) \<in> set (gw_out ?g) \<longleftrightarrow> Open_result i (Inr r) \<in> set (gw_out g)" for i r
    by (simp add: on_ack_def Some Let_def)
  have aud: "session_ok ?g i n" if "js_get (gw_auditing ?g) i = Some (inp', n, e')" for i inp' n e'
  proof (cases "i = sid")
    case True
    then show ?thesis using that by (auto simp: on_ack_def Some acked_session_def session_ok_def)
  next
    case False
    then have "js_get (gw_auditing g) i = Some (inp', n, e')" using that by (simp add: on_ack_def Some Let_def)
    then have "session_ok g i n" using assms unfolding gateway_wf_def by blast
    then show ?thesis using out by (rule session_ok_out)
  qed
  have "wf_map (gw_pending ?g)" "wf_map (gw_auditing ?g)" using assms by (simp_all add: on_ack_def Some Let_def gateway_wf_def)
  moreover have "session_ok ?g i n" if "js_get (gw_sessions ?g) i = Some n" for i n
    using session_ok_out [OF wf_session [OF assms] out] that by (simp add: s)
  moreover have "\<exists>inp role. Audit_open i inp role \<in> set (gw_out ?g) \<and> (js_has (gw_sessions ?g) i \<or> announced (gw_out ?g) (oi_peerId inp) i)"
    if "Open_result i (Inr r) \<in> set (gw_out ?g)" for i r
    using assms that out announced_out [OF _ out] unfolding res s gateway_wf_def by blast
  moreover have "wf_map (gw_sessions ?g)" using assms s by (simp add: gateway_wf_def)
  ultimately show ?thesis using aud unfolding gateway_wf_def by simp
qed (use assms in \<open>simp add: on_ack_def\<close>)

lemma wf_timeout:
  assumes "gateway_wf g"
  shows "gateway_wf (on_ack_timeout sid g)"
proof -
  have "wf_map (js_delete sid (gw_pending g))" using assms by (simp add: gateway_wf_def)
  from ws_emit_wf [OF wf_pending [OF assms this]] assms show ?thesis by (simp add: on_ack_timeout_def)
qed

lemma wf_audited:
  assumes "gateway_wf g"
  shows "gateway_wf (on_audited sid ok g)"
proof (cases "js_get (gw_auditing g) sid")
  case (Some x)
  obtain inp n e where x: "x = (inp, n, e)" by (cases x) auto
  let ?g = "g\<lparr>gw_auditing := js_delete sid (gw_auditing g)\<rparr>"
  have g: "gateway_wf ?g"
    by (rule gateway_wf_shrink [OF assms]) (use assms in \<open>auto simp: gateway_wf_def js_has_def split: if_splits\<close>)
  have n: "session_ok g sid n" using assms Some x unfolding gateway_wf_def by blast
  then have id: "sn_sessionId n = sid" by (simp add: session_ok_def)
  show ?thesis
  proof (cases ok)
    case False
    then show ?thesis using g by (simp add: on_audited_def Some x ws_emit_wf)
  next
    case True
    let ?h = "on_audited sid True g"
    have out: "set (gw_out g) \<subseteq> set (gw_out ?h)" and s: "gw_sessions ?h = js_set sid n (gw_sessions g)"
      by (auto simp: on_audited_def Some x Let_def store_register_def id)
    have res: "Open_result i (Inr r) \<in> set (gw_out ?h) \<Longrightarrow> Open_result i (Inr r) \<in> set (gw_out g) \<or> i = sid" for i r
      by (auto simp: on_audited_def Some x Let_def)
    have "\<exists>inp role. Audit_open i inp role \<in> set (gw_out ?h) \<and> (js_has (gw_sessions ?h) i \<or> announced (gw_out ?h) (oi_peerId inp) i)"
      if "Open_result i (Inr r) \<in> set (gw_out ?h)" for i r
    proof (cases "i = sid")
      case True
      then show ?thesis using n out by (auto simp: s session_ok_def)
    next
      case False
      then have "Open_result i (Inr r) \<in> set (gw_out g)" using res [OF that] by blast
      then show ?thesis using assms out announced_out [OF _ out] unfolding gateway_wf_def s by (metis (no_types, lifting) js_has_set subsetD)
    qed
    moreover have "session_ok ?h i n'" if "js_get (gw_sessions ?h) i = Some n'" for i n'
      using session_ok_out [OF wf_session [OF assms] out, of i n'] session_ok_out [OF n out] that by (auto simp: s split: if_splits)
    moreover have "session_ok ?h i n'" if "js_get (gw_auditing ?h) i = Some (inp', n', e')" for i inp' n' e'
    proof -
      have "js_get (gw_auditing g) i = Some (inp', n', e')" using that by (simp add: on_audited_def Some x Let_def split: if_splits)
      then have "session_ok g i n'" using assms unfolding gateway_wf_def by blast
      then show ?thesis using out by (rule session_ok_out)
    qed
    moreover have "wf_map (gw_sessions ?h)" "wf_map (gw_pending ?h)" "wf_map (gw_auditing ?h)"
      using assms by (auto simp: on_audited_def Some x Let_def gateway_wf_def store_register_def)
    ultimately show ?thesis using True unfolding gateway_wf_def by simp
  qed
qed (use assms in \<open>simp add: on_audited_def\<close>)

lemma wf_step: "gateway_wf g \<Longrightarrow> gateway_wf (gateway_step cfg ev g)"
  by (cases ev) (simp_all add: wf_begin wf_ack wf_timeout wf_audited wf_closeSession wf_sweep wf_lookup)

lemma wf_run: "gateway_wf g \<Longrightarrow> gateway_wf (gateway_run cfg evs g)"
  by (induction evs arbitrary: g) (simp_all add: gateway_run_def wf_step)

lemma wf_new: "gateway_wf new_gateway"
  by (simp add: gateway_wf_def new_gateway_def)


section \<open>One session per peer\<close>

text \<open>The calls for a peer that have been announced to it and are not decided yet.\<close>

definition inflight :: "string \<Rightarrow> gateway \<Rightarrow> nat" where
  "inflight peer g = cnt (\<lambda>inp. oi_peerId inp = peer) (gw_pending g) + cnt (\<lambda>(inp, n, e). sn_peerId n = peer) (gw_auditing g)"

definition calm :: "gateway \<Rightarrow> gateway_event \<Rightarrow> bool" where
  "calm g ev \<longleftrightarrow> (case ev of Begin sid inp up \<Rightarrow> inflight (oi_peerId inp) g = 0 | _ \<Rightarrow> True)"

fun calm_run :: "gateway_config \<Rightarrow> gateway_event list \<Rightarrow> gateway \<Rightarrow> bool" where
  "calm_run cfg [] g = True"
| "calm_run cfg (ev # evs) g = (calm g ev \<and> calm_run cfg evs (gateway_step cfg ev g))"

definition limited :: "gateway_config \<Rightarrow> gateway \<Rightarrow> bool" where
  "limited cfg g \<longleftrightarrow> (\<forall>p. countFor p (gw_sessions g) + inflight p g \<le> gc_maxSessionsPerPeer cfg)"

lemma inflight_fields [simp]:
  "inflight p (gw_emit x g) = inflight p g" "inflight p (g\<lparr>gw_sessions := m\<rparr>) = inflight p g"
  "inflight p (announce_end r n g) = inflight p g" "inflight p (fold (announce_end r) ns g) = inflight p g"
  by (simp_all add: inflight_def announce_all)

lemma limited_emit [simp]: "limited cfg (gw_emit x g) = limited cfg g"
  by (simp add: limited_def)

lemma limited_le:
  assumes "limited cfg g" "\<And>p. countFor p (gw_sessions g') \<le> countFor p (gw_sessions g)" "\<And>p. inflight p g' \<le> inflight p g"
  shows "limited cfg g'"
  unfolding limited_def
proof
  fix p
  have "countFor p (gw_sessions g) + inflight p g \<le> gc_maxSessionsPerPeer cfg" using assms(1) by (simp add: limited_def)
  with assms(2) [of p] assms(3) [of p] show "countFor p (gw_sessions g') + inflight p g' \<le> gc_maxSessionsPerPeer cfg" by linarith
qed

lemma closed_count:
  assumes "gateway_wf g" "js_get (gw_sessions g) sid = Some n"
  shows "countFor p (gw_sessions g) = countFor p (gw_sessions (closeSession sid r g)) + (if sn_peerId n = p then 1 else 0)"
  using cnt_delete [of "gw_sessions g" sid n "\<lambda>n. sn_peerId n = p"] assms
  by (simp add: closeSession_def countFor_cnt gateway_wf_def)

lemma closed_inflight [simp]: "inflight p (closeSession sid r g) = inflight p g"
  by (simp add: closeSession_def split: option.split)

lemma limited_close: "gateway_wf g \<Longrightarrow> limited cfg g \<Longrightarrow> limited cfg (closeSession sid r g)"
proof (cases "js_get (gw_sessions g) sid")
  case (Some n)
  assume g: "gateway_wf g" "limited cfg g"
  have "countFor p (gw_sessions (closeSession sid r g)) \<le> countFor p (gw_sessions g)" for p
    using closed_count [OF g(1) Some, of p r] by simp
  with g(2) show ?thesis by (rule limited_le) simp
qed (simp add: closeSession_def)

lemma replaced_count:
  assumes "gateway_wf g" "limited cfg g" "0 < gc_maxSessionsPerPeer cfg"
  shows "countFor p (gw_sessions (replace_existing cfg p g)) < gc_maxSessionsPerPeer cfg"
proof (cases "gc_maxSessionsPerPeer cfg \<le> countFor p (gw_sessions g)")
  case True
  then have "0 < cnt (\<lambda>n. sn_peerId n = p) (gw_sessions g)" using assms(3) by (simp add: countFor_cnt)
  then obtain i n where n: "find_first (\<lambda>(i, n). sn_peerId n = p) (gw_sessions g) = Some (i, n)" "(i, n) \<in> set (gw_sessions g)" "sn_peerId n = p"
    using cnt_found by blast
  have get: "js_get (gw_sessions g) i = Some n" using n(2) assms(1) js_get_in_set by (fastforce simp: gateway_wf_def)
  then have i: "sn_sessionId n = i" using wf_session [OF assms(1)] by (simp add: session_ok_def)
  have "countFor p (gw_sessions g) \<le> gc_maxSessionsPerPeer cfg" using assms(2) unfolding limited_def by (meson add_leD1)
  then show ?thesis using closed_count [OF assms(1) get, of p "''replaced''"] True n
    by (simp add: replace_existing_def sessionForPeer_def i)
qed (simp add: replace_existing_def)

lemma limited_begin:
  assumes "gateway_wf g" "limited cfg g" "0 < gc_maxSessionsPerPeer cfg" "inflight (oi_peerId inp) g = 0"
  shows "limited cfg (open_begin cfg sid inp up g)"
proof -
  let ?g = "replace_existing cfg (oi_peerId inp) g"
  have l: "limited cfg ?g" using assms(1,2) limited_close by (simp add: replace_existing_def split: option.split)
  have i: "inflight p ?g = inflight p g" for p by (simp add: replace_existing_def split: option.split)
  show ?thesis
  proof (cases up)
    case True
    have "countFor p (gw_sessions ?g) + inflight p (?g\<lparr>gw_pending := js_set sid inp (gw_pending ?g)\<rparr>) \<le> gc_maxSessionsPerPeer cfg" for p
    proof (cases "p = oi_peerId inp")
      case True
      have "inflight p (?g\<lparr>gw_pending := js_set sid inp (gw_pending ?g)\<rparr>) \<le> inflight p ?g + 1"
        using cnt_set_le [of "\<lambda>inp. oi_peerId inp = p" sid inp "gw_pending ?g"] True by (simp add: inflight_def)
      then show ?thesis using replaced_count [OF assms(1-3), of p] assms(4) True by (simp add: i)
    next
      case False
      have "inflight p (?g\<lparr>gw_pending := js_set sid inp (gw_pending ?g)\<rparr>) \<le> inflight p ?g"
        using cnt_set_le [of "\<lambda>inp. oi_peerId inp = p" sid inp "gw_pending ?g"] False by (simp add: inflight_def)
      moreover have "countFor p (gw_sessions ?g) + inflight p ?g \<le> gc_maxSessionsPerPeer cfg" using l by (simp add: limited_def)
      ultimately show ?thesis by linarith
    qed
    with True show ?thesis by (simp add: open_begin_def Let_def limited_def)
  qed (use l in \<open>simp add: open_begin_def Let_def\<close>)
qed

lemma limited_ack:
  assumes "gateway_wf g" "limited cfg g"
  shows "limited cfg (on_ack now sid token e g)"
proof (cases "js_get (gw_pending g) sid")
  case (Some inp)
  have wf: "wf_map (gw_pending g)" using assms(1) by (simp add: gateway_wf_def)
  have "inflight p (on_ack now sid token e g) \<le> inflight p g" for p
    using cnt_delete [OF wf Some, of "\<lambda>inp. oi_peerId inp = p"]
      cnt_set_le [of "\<lambda>(inp, n, e). sn_peerId n = p" sid "(inp, acked_session now sid token inp, e)" "gw_auditing g"]
    by (cases "oi_peerId inp = p") (simp_all add: on_ack_def Some inflight_def acked_session_def)
  note this [unfolded on_ack_def Some option.case]
  then show ?thesis unfolding on_ack_def Some option.case by (intro limited_le [OF assms(2)]) simp_all
qed (use assms(2) in \<open>simp add: on_ack_def\<close>)

lemma limited_timeout: "limited cfg g \<Longrightarrow> limited cfg (on_ack_timeout sid g)"
proof -
  assume l: "limited cfg g"
  have "cnt P (js_delete sid (gw_pending g)) \<le> cnt P (gw_pending g)" for P
    by (simp add: js_delete_def AList.delete_eq cnt_filter_le)
  then have "inflight p (on_ack_timeout sid g) \<le> inflight p g" for p by (simp add: on_ack_timeout_def inflight_def)
  then show ?thesis by (intro limited_le [OF l]) (simp_all add: on_ack_timeout_def)
qed

lemma limited_audited:
  assumes "gateway_wf g" "limited cfg g"
  shows "limited cfg (on_audited sid ok g)"
proof (cases "js_get (gw_auditing g) sid")
  case (Some x)
  obtain inp n e where x: "x = (inp, n, e)" by (cases x) auto
  have wf: "wf_map (gw_auditing g)" using assms(1) by (simp add: gateway_wf_def)
  have "countFor p (gw_sessions (on_audited sid ok g)) + inflight p (on_audited sid ok g) \<le> countFor p (gw_sessions g) + inflight p g" for p
    using cnt_delete [OF wf Some, of "\<lambda>(inp, n, e). sn_peerId n = p"] cnt_set_le [of "\<lambda>n. sn_peerId n = p" "sn_sessionId n" n "gw_sessions g"]
    by (cases "sn_peerId n = p"; cases ok) (simp_all add: on_audited_def Some x Let_def inflight_def store_register_def countFor_cnt)
  with assms(2) show ?thesis unfolding limited_def by (meson order_trans)
qed (use assms(2) in \<open>simp add: on_audited_def\<close>)

lemma lookup_count: "gateway_wf g \<Longrightarrow> countFor p (snd (byToken now token (gw_sessions g))) = countFor p (gw_sessions g)"
proof (cases "find_first (\<lambda>(i, n). sn_token n = token) (gw_sessions g)")
  case (Some y)
  assume g: "gateway_wf g"
  obtain i n where y: "y = (i, n)" by fastforce
  have "js_get (gw_sessions g) i = Some n"
    using found_in [OF Some] g js_get_in_set by (fastforce simp: y gateway_wf_def)
  then show ?thesis using cnt_set_same [of "gw_sessions g" i n "\<lambda>n. sn_peerId n = p"] by (simp add: byToken_def Some y countFor_cnt)
qed (simp add: byToken_def)

lemma limited_step:
  assumes "gateway_wf g" "limited cfg g" "0 < gc_maxSessionsPerPeer cfg" "calm g ev"
  shows "limited cfg (gateway_step cfg ev g)"
proof (cases ev)
  case (Begin sid inp up)
  then show ?thesis using limited_begin [OF assms(1-3)] assms(4) by (simp add: calm_def)
next
  case (Sweep now)
  then show ?thesis
    by (intro limited_le [OF assms(2)]) (simp_all add: gateway_sweep_def hub_sweep_def announce_all countFor_cnt cnt_filter_le)
next
  case (Lookup now token)
  then show ?thesis by (intro limited_le [OF assms(2)]) (simp_all add: sessionByToken_def lookup_count [OF assms(1)])
qed (use assms in \<open>simp_all add: limited_close limited_ack limited_timeout limited_audited\<close>)

text \<open>
  While no two calls for a peer overlap, no peer ever has more sessions than the limit: a further call
  replaces one.
\<close>

theorem session_limit_kept:
  assumes "0 < gc_maxSessionsPerPeer cfg" "calm_run cfg evs new_gateway"
  shows "countFor p (gw_sessions (gateway_run cfg evs new_gateway)) \<le> gc_maxSessionsPerPeer cfg"
proof -
  have "gateway_wf g \<Longrightarrow> limited cfg g \<Longrightarrow> calm_run cfg evs g \<Longrightarrow> limited cfg (gateway_run cfg evs g)" for g
  proof (induction evs arbitrary: g)
    case (Cons ev evs)
    then show ?case using limited_step [OF Cons.prems(1,2) assms(1), of ev] wf_step by (simp add: gateway_run_def)
  qed (simp add: gateway_run_def)
  from this [OF wf_new _ assms(2)] have "limited cfg (gateway_run cfg evs new_gateway)"
    by (simp add: limited_def new_gateway_def inflight_def countFor_cnt)
  then show ?thesis unfolding limited_def by (meson add_leD1)
qed

section \<open>Revocation\<close>

text \<open>The last word of the hub about a session: opened for a user, or ended.\<close>

fun says :: "string \<Rightarrow> session_message \<Rightarrow> tunnel_user option option \<Rightarrow> tunnel_user option option" where
  "says sid (Open_session s u) w = (if s = sid then Some (Some u) else w)"
| "says sid (Session_end s r) w = (if s = sid then Some None else w)"

definition word :: "string \<Rightarrow> session_message list \<Rightarrow> tunnel_user option option" where
  "word sid msgs = fold (says sid) msgs None"

fun inbox :: "string \<Rightarrow> gateway_out list \<Rightarrow> session_message list" where
  "inbox peer [] = []"
| "inbox peer (Gateway_control p m # out) = (if p = peer then m # inbox peer out else inbox peer out)"
| "inbox peer (x # out) = inbox peer out"

lemma inbox_append [simp]: "inbox peer (xs @ ys) = inbox peer xs @ inbox peer ys"
  by (induction xs rule: inbox.induct) auto

lemma word_snoc [simp]: "word sid (msgs @ [m]) = says sid m (word sid msgs)"
  by (simp add: word_def)

lemma word_Nil [simp]: "word sid [] = None"
  by (simp add: word_def)

fun hub_messages :: "peer_event list \<Rightarrow> session_message list" where
  "hub_messages [] = []"
| "hub_messages (From_hub now m # evs) = m # hub_messages evs"
| "hub_messages (ev # evs) = hub_messages evs"

lemma hub_messages_append [simp]: "hub_messages (xs @ ys) = hub_messages xs @ hub_messages ys"
  by (induction xs rule: hub_messages.induct) auto

definition peer_run :: "token_signer \<Rightarrow> int \<Rightarrow> int \<Rightarrow> peer_event list \<Rightarrow> client_sessions" where
  "peer_run sg ttlSec idleSec evs = fold (peer_step sg ttlSec idleSec) evs []"

lemma peer_run_word:
  "wf_map (peer_run sg ttl idle evs) \<and>
   (\<forall>sid c. js_get (peer_run sg ttl idle evs) sid = Some c \<longrightarrow> word sid (hub_messages evs) = Some (Some (cs_user c)))"
proof (induction evs rule: rev_induct)
  case (snoc ev evs)
  let ?m = "peer_run sg ttl idle evs"
  have step: "peer_run sg ttl idle (evs @ [ev]) = peer_step sg ttl idle ev ?m" by (simp add: peer_run_def)
  show ?case
  proof (cases ev)
    case (From_hub now msg)
    then show ?thesis unfolding step using snoc
      by (cases msg) (auto simp: peer_step_def peer_message_def peer_open_def peer_end_def split: if_splits)
  next
    case (Authenticate now token)
    then show ?thesis unfolding step using snoc
      by (auto simp: peer_step_def authenticate_def split: option.splits if_splits)
  next
    case (Peer_sweep now)
    define P where "P c \<longleftrightarrow> \<not> (ttl * 1000 \<le> now - cs_createdAt c \<or> idle * 1000 \<le> now - cs_lastActivityAt c)" for c :: client_session
    have m: "peer_step sg ttl idle ev ?m = filter (\<lambda>(i, c). P c) ?m" by (simp add: Peer_sweep peer_step_def peer_sweep_def P_def)
    have wf: "wf_map ?m" using snoc by blast
    have get: "js_get (filter (\<lambda>(i, c). P c) ?m) sid = Some c \<Longrightarrow> js_get ?m sid = Some c" for sid c
      by (simp add: js_get_filter [OF wf, of "\<lambda>i. P" sid] split: option.splits if_splits)
    show ?thesis unfolding step m using snoc get by (auto simp: Peer_sweep)
  qed
qed (simp add: peer_run_def)

text \<open>
  A token opens a session on the peer only while the hub's last word about the session is that it is open,
  and it opens it for the user the hub named.
\<close>

theorem token_needs_open_session:
  assumes "fst (authenticate sg now token (peer_run sg ttl idle evs)) = Some u"
  shows "\<exists>p. tk_verify sg now token = Some p \<and> word (tp_sessionId p) (hub_messages evs) = Some (Some u)"
  using assms peer_run_word [of sg ttl idle evs] by (auto simp: authenticate_def split: option.splits)

definition known_ids :: "gateway \<Rightarrow> string set \<Rightarrow> bool" where
  "known_ids g K \<longleftrightarrow>
     (\<forall>sid. js_has (gw_pending g) sid \<or> js_has (gw_auditing g) sid \<or> js_has (gw_sessions g) sid \<longrightarrow> sid \<in> K) \<and>
     (\<forall>peer sid. announced (gw_out g) peer sid \<longrightarrow> sid \<in> K \<and> word sid (inbox peer (gw_out g)) = Some None)"

lemma announced_append: "announced (xs @ ys) peer sid \<longleftrightarrow> announced xs peer sid \<or> announced ys peer sid"
  by (auto simp: announced_def)

lemma known_keys:
  assumes "known_ids g K" "gw_out g' = gw_out g"
    and "\<And>sid. js_has (gw_pending g') sid \<or> js_has (gw_auditing g') sid \<or> js_has (gw_sessions g') sid \<Longrightarrow>
      js_has (gw_pending g) sid \<or> js_has (gw_auditing g) sid \<or> js_has (gw_sessions g) sid"
  shows "known_ids g' K"
  using assms unfolding known_ids_def by metis

lemma known_emit:
  assumes "known_ids g K" "\<And>p m. x \<noteq> Gateway_control p m"
  shows "known_ids (gw_emit x g) K"
proof -
  have "inbox peer [x] = []" "\<not> announced [x] peer sid" for peer sid
    using assms(2) by (cases x; auto simp: announced_def)+
  then show ?thesis using assms(1) by (simp add: known_ids_def announced_append)
qed

lemma known_announce:
  assumes "known_ids g K" "sn_sessionId n \<in> K"
  shows "known_ids (announce_end r n g) K"
proof -
  have "known_ids (gw_emit (Gateway_control (sn_peerId n) (Session_end (sn_sessionId n) r)) g) K"
    using assms unfolding known_ids_def by (auto simp: announced_append announced_def)
  then show ?thesis unfolding announce_end_def by (rule known_emit) simp
qed

lemma known_announce_all:
  "known_ids g K \<Longrightarrow> (\<And>n. n \<in> set ns \<Longrightarrow> sn_sessionId n \<in> K) \<Longrightarrow> known_ids (fold (announce_end r) ns g) K"
  by (induction ns arbitrary: g) (auto intro: known_announce)

lemma known_close:
  assumes "gateway_wf g" "known_ids g K"
  shows "known_ids (closeSession sid r g) K"
proof (cases "js_get (gw_sessions g) sid")
  case (Some n)
  have "sn_sessionId n = sid" using wf_session [OF assms(1) Some] by (simp add: session_ok_def)
  then have "sn_sessionId n \<in> K" using assms(2) Some by (auto simp: known_ids_def js_has_def)
  moreover have "known_ids (g\<lparr>gw_sessions := js_delete sid (gw_sessions g)\<rparr>) K"
    by (rule known_keys [OF assms(2)]) auto
  ultimately show ?thesis by (simp add: closeSession_def Some known_announce)
qed (use assms in \<open>simp add: closeSession_def\<close>)

lemma known_begin:
  assumes "gateway_wf g" "known_ids g K" "sid \<notin> K"
  shows "known_ids (open_begin cfg sid inp up g) (insert sid K)"
proof -
  let ?g = "replace_existing cfg (oi_peerId inp) g"
  have g: "known_ids ?g K" using assms(1,2) known_close by (simp add: replace_existing_def split: option.split)
  then have g': "known_ids ?g (insert sid K)" unfolding known_ids_def by blast
  have "\<not> announced (gw_out ?g) peer sid" for peer using g assms(3) unfolding known_ids_def by blast
  then have "known_ids (gw_emit (Gateway_control (oi_peerId inp) (Open_session sid u)) (?g\<lparr>gw_pending := js_set sid inp (gw_pending ?g)\<rparr>)) (insert sid K)" for u
    using g' unfolding known_ids_def by (auto simp: announced_append announced_def)
  with g' show ?thesis by (simp add: open_begin_def Let_def known_emit)
qed

lemma known_step:
  assumes "gateway_wf g" "known_ids g K" "\<And>sid inp up. ev = Begin sid inp up \<Longrightarrow> sid \<notin> K"
  shows "known_ids (gateway_step cfg ev g) (K \<union> set (begun [ev]))"
proof (cases ev)
  case (Begin sid inp up)
  then show ?thesis using known_begin [OF assms(1,2), of sid] assms(3) by simp
next
  case (Ack now sid token e)
  show ?thesis
  proof (cases "js_get (gw_pending g) sid")
    case (Some inp)
    have "known_ids (g\<lparr>gw_pending := js_delete sid (gw_pending g), gw_auditing := js_set sid (inp, acked_session now sid token inp, e) (gw_auditing g)\<rparr>) K"
      by (rule known_keys [OF assms(2)]) (use Some in \<open>auto simp: js_has_def split: if_splits\<close>)
    then show ?thesis using Ack Some by (simp add: on_ack_def known_emit)
  qed (use Ack assms(2) in \<open>simp add: on_ack_def\<close>)
next
  case (Ack_timeout sid)
  have "known_ids (g\<lparr>gw_pending := js_delete sid (gw_pending g)\<rparr>) K" by (rule known_keys [OF assms(2)]) auto
  then show ?thesis using Ack_timeout assms(2) by (simp add: on_ack_timeout_def known_emit)
next
  case (Audited sid ok)
  show ?thesis
  proof (cases "js_get (gw_auditing g) sid")
    case (Some x)
    obtain inp n e where x: "x = (inp, n, e)" by (cases x) auto
    have n: "sn_sessionId n = sid" using assms(1) Some x unfolding gateway_wf_def session_ok_def by blast
    have "known_ids (g\<lparr>gw_auditing := js_delete sid (gw_auditing g), gw_sessions := store_register n (gw_sessions g)\<rparr>) K"
      by (rule known_keys [OF assms(2)]) (use Some x n in \<open>auto simp: js_has_def store_register_def split: if_splits\<close>)
    moreover have "known_ids (g\<lparr>gw_auditing := js_delete sid (gw_auditing g)\<rparr>) K"
      by (rule known_keys [OF assms(2)]) auto
    ultimately have "known_ids (g\<lparr>gw_auditing := js_delete sid (gw_auditing g), gw_sessions := store_register n (gw_sessions g)\<rparr>) K"
      "known_ids (g\<lparr>gw_auditing := js_delete sid (gw_auditing g)\<rparr>) K" by blast+
    then show ?thesis using Audited Some by (simp add: on_audited_def x Let_def known_emit)
  qed (use Audited assms(2) in \<open>simp add: on_audited_def\<close>)
next
  case (Close sid r)
  then show ?thesis using known_close [OF assms(1,2)] by simp
next
  case (Sweep now)
  obtain ns m where nm: "hub_sweep (gc_ttlMs cfg) (gc_idleTimeoutMs cfg) now (gw_sessions g) = (ns, m)" by fastforce
  have wf: "wf_map (gw_sessions g)" using assms(1) by (simp add: gateway_wf_def)
  have sub: "set m \<subseteq> set (gw_sessions g)" "set ns \<subseteq> snd ` set (gw_sessions g)" using nm by (auto simp: hub_sweep_def)
  have "sn_sessionId n \<in> K" if "n \<in> set ns" for n
  proof -
    have "n \<in> snd ` set (gw_sessions g)" using that sub(2) by blast
    then obtain i where "(i, n) \<in> set (gw_sessions g)" by auto
    then have "js_get (gw_sessions g) i = Some n" using js_get_in_set [OF wf] by blast
    then show ?thesis using wf_session [OF assms(1)] assms(2) unfolding known_ids_def session_ok_def js_has_def by (metis option.distinct(1))
  qed
  moreover have "known_ids (g\<lparr>gw_sessions := m\<rparr>) K"
    by (rule known_keys [OF assms(2)]) (use sub(1) in \<open>auto simp: js_has_keys\<close>)
  ultimately show ?thesis using Sweep by (simp add: gateway_sweep_def nm known_announce_all)
next
  case (Lookup now token)
  have "js_has (snd (byToken now token (gw_sessions g))) sid \<Longrightarrow> js_has (gw_sessions g) sid" for sid
    by (auto simp: byToken_def dest!: found_in dest: has_member split: option.splits)
  then have "known_ids (sessionByToken now token g) K"
    by (intro known_keys [OF assms(2)]) (auto simp: sessionByToken_def)
  then show ?thesis using Lookup by simp
qed

lemma known_run:
  "gateway_wf g \<Longrightarrow> known_ids g K \<Longrightarrow> distinct (begun evs) \<Longrightarrow> set (begun evs) \<inter> K = {} \<Longrightarrow>
   known_ids (gateway_run cfg evs g) (K \<union> set (begun evs))"
proof (induction evs arbitrary: g K)
  case (Cons ev evs)
  have split: "begun (ev # evs) = begun [ev] @ begun evs" by (cases ev) simp_all
  have "sid \<notin> K" if "ev = Begin sid inp up" for sid inp up using Cons.prems(4) that by auto
  then have "known_ids (gateway_step cfg ev g) (K \<union> set (begun [ev]))" by (rule known_step [OF Cons.prems(1,2)])
  from Cons.IH [OF wf_step [OF Cons.prems(1)] this] Cons.prems(3,4) split show ?case
    by (simp add: gateway_run_def Un_assoc Int_Un_distrib2 disjoint_iff)
      (metis Un_assoc Un_iff gateway_run_def)
qed (simp add: gateway_run_def)

text \<open>
  A session that was granted and is not open any more is closed at the peer: once the peer has received
  what the hub sent, whatever else it did between, no token of the session is accepted there.
\<close>

theorem closed_session_rejected:
  assumes "g = gateway_run cfg evs new_gateway" "distinct (begun evs)"
    and "Open_result sid (Inr r) \<in> set (gw_out g)" "\<not> js_has (gw_sessions g) sid"
  shows "\<exists>inp role. Audit_open sid inp role \<in> set (gw_out g) \<and>
    (\<forall>pevs sg ttl idle now token p. hub_messages pevs = inbox (oi_peerId inp) (gw_out g) \<longrightarrow>
       tk_verify sg now token = Some p \<longrightarrow> tp_sessionId p = sid \<longrightarrow>
       fst (authenticate sg now token (peer_run sg ttl idle pevs)) = None)"
proof -
  have wf: "gateway_wf g" using wf_run [OF wf_new] assms(1) by blast
  have "known_ids new_gateway {}" by (simp add: known_ids_def new_gateway_def announced_def js_has_def)
  from known_run [OF wf_new this assms(2), of cfg] have known: "known_ids g (set (begun evs))" by (simp add: assms(1))
  obtain inp role where inp: "Audit_open sid inp role \<in> set (gw_out g)" "announced (gw_out g) (oi_peerId inp) sid"
    using wf assms(3,4) unfolding gateway_wf_def by blast
  have ended: "word sid (inbox (oi_peerId inp) (gw_out g)) = Some None" using known inp(2) unfolding known_ids_def by blast
  have "fst (authenticate sg now token (peer_run sg ttl idle pevs)) = None"
    if "hub_messages pevs = inbox (oi_peerId inp) (gw_out g)" "tk_verify sg now token = Some p" "tp_sessionId p = sid"
    for pevs sg ttl idle now token p
  proof -
    have "js_get (peer_run sg ttl idle pevs) sid = None"
      using peer_run_word [of sg ttl idle pevs] that(1) ended by (cases "js_get (peer_run sg ttl idle pevs) sid") fastforce+
    with that(2,3) show ?thesis by (simp add: authenticate_def)
  qed
  with inp(1) show ?thesis by blast
qed

text \<open>
  Two overlapping calls for one peer both find the limit free: with the default limit of one session the
  peer ends with two.
\<close>

definition demo_user :: tunnel_user where
  "demo_user = \<lparr>tu_id = ''1'', tu_username = ''u'', tu_role = ''guest''\<rparr>"

definition demo_open :: open_input where
  "demo_open = \<lparr>oi_hubId = ''h'', oi_peerId = ''p'', oi_user = demo_user, oi_remoteIp = None\<rparr>"

theorem overlapping_calls_exceed_limit:
  "gc_maxSessionsPerPeer default_gateway_config = 1 \<and>
   countFor ''p'' (gw_sessions (gateway_run default_gateway_config
     [Begin ''a'' demo_open True, Begin ''b'' demo_open True, Ack 5 ''a'' ''ta'' 60, Ack 6 ''b'' ''tb'' 60, Audited ''a'' True, Audited ''b'' True]
     new_gateway)) = 2"
  by (simp add: gateway_run_def open_begin_def replace_existing_def countFor_def new_gateway_def default_gateway_config_def gw_emit_def
      on_ack_def acked_session_def on_audited_def store_register_def demo_open_def demo_user_def Let_def js_set_def js_delete_def AList.delete_eq)

section \<open>A concrete session\<close>

definition demo_events :: "gateway_event list" where
  "demo_events = [Begin ''a'' demo_open True, Ack 5 ''a'' ''ta'' 60, Audited ''a'' True, Begin ''b'' demo_open True, Ack 9 ''b'' ''tb'' 60, Audited ''b'' True]"

lemmas gateway_defs =
  gateway_run_def open_begin_def replace_existing_def countFor_def sessionForPeer_def new_gateway_def default_gateway_config_def gw_emit_def
  closeSession_def announce_end_def on_ack_def acked_session_def on_audited_def store_register_def demo_open_def demo_user_def
  mapSessionRole_def Let_def js_set_def js_delete_def AList.delete_eq

lemma demo_gateway:
  "gateway_run default_gateway_config demo_events new_gateway =
     \<lparr>gw_sessions = [(''b'', acked_session 9 ''b'' ''tb'' demo_open)], gw_pending = [], gw_auditing = [],
      gw_out = [Gateway_control ''p'' (Open_session ''a'' demo_user), Audit_open ''a'' demo_open ''guest'', Open_result ''a'' (Inr (''a'', ''ta'', 60, ''guest'')),
        Gateway_control ''p'' (Session_end ''a'' ''replaced''), Audit_close ''a'' ''replaced'' 0 0,
        Gateway_control ''p'' (Open_session ''b'' demo_user), Audit_open ''b'' demo_open ''guest'', Open_result ''b'' (Inr (''b'', ''tb'', 60, ''guest''))]\<rparr>"
  by (simp add: demo_events_def gateway_defs)


lemma session_limit_kept_witness:
  "countFor ''p'' (gw_sessions (gateway_run default_gateway_config demo_events new_gateway)) \<le> gc_maxSessionsPerPeer default_gateway_config"
proof (rule session_limit_kept)
  show "calm_run default_gateway_config demo_events new_gateway"
    by (simp add: demo_events_def calm_def inflight_def cnt_def gateway_defs)
qed (simp add: default_gateway_config_def)

definition demo_signer :: token_signer where
  "demo_signer = \<lparr>tk_sign = (\<lambda>p e. Some (tp_sessionId p)),
     tk_verify = (\<lambda>now t. Some \<lparr>tp_sessionId = t, tp_sub = ''1'', tp_username = ''u'', tp_role = ''guest''\<rparr>)\<rparr>"

definition demo_peer_events :: "peer_event list" where
  "demo_peer_events = [From_hub 1 (Open_session ''a'' demo_user), Authenticate 2 ''a'', From_hub 7 (Session_end ''a'' ''replaced''), Peer_sweep 8,
     From_hub 8 (Open_session ''b'' demo_user)]"

lemma closed_session_rejected_witness:
  "fst (authenticate demo_signer 10 ''a'' (peer_run demo_signer 14400 900 demo_peer_events)) = None"
proof -
  let ?g = "gateway_run default_gateway_config demo_events new_gateway"
  have "Open_result ''a'' (Inr (''a'', ''ta'', 60, ''guest'')) \<in> set (gw_out ?g)" "\<not> js_has (gw_sessions ?g) ''a''" "distinct (begun demo_events)"
    by (simp_all add: demo_gateway js_has_def) (simp add: demo_events_def)
  from closed_session_rejected [OF refl this(3,1,2)] obtain inp role where
    inp: "Audit_open ''a'' inp role \<in> set (gw_out ?g)" "\<And>pevs sg ttl idle now token p. hub_messages pevs = inbox (oi_peerId inp) (gw_out ?g) \<Longrightarrow>
       tk_verify sg now token = Some p \<Longrightarrow> tp_sessionId p = ''a'' \<Longrightarrow> fst (authenticate sg now token (peer_run sg ttl idle pevs)) = None"
    by blast
  have "oi_peerId inp = ''p''" using inp(1) by (auto simp: demo_gateway demo_open_def)
  then have "hub_messages demo_peer_events = inbox (oi_peerId inp) (gw_out ?g)" by (simp add: demo_gateway demo_peer_events_def)
  then show ?thesis by (rule inp(2)) (simp add: demo_signer_def, simp)
qed

end
