(* ===== verification/User_Store.thy ===== *)
theory User_Store
  imports Prelude
begin

text \<open>
  The users of the web service: \<open>UserRepository\<close>, with each SQL statement as a function on the two tables
  \<open>users\<close> and \<open>mfa_recovery\<close>, and the two throttles that count failed attempts in Redis. The Redis
  commands are a parameter (\<open>redis\<close>); \<open>redis_ok\<close> states what their documentation says of them. The
  length limits of the columns are left out: the requests are limited by the schemas.
\<close>

section \<open>Users\<close>

text \<open>
  The five roles of the table; a tunnel session carries its role as a string that is cast without a check, so
  any other string can occur too.
\<close>

datatype role = Role_admin | Role_teknik | Role_guest | Role_boss | Role_developer | Role_other string

text \<open>Times are database or wall clock milliseconds; a user read from a token has no dates.\<close>

record user =
  us_id :: string
  us_username :: string
  us_role :: role
  us_name :: string
  us_fieldIds :: "string list option"
  us_mustChangePassword :: "bool option"
  us_mfaEnabled :: "bool option"
  us_createdAt :: "int option"
  us_updatedAt :: "int option"

record user_row =
  ur_id :: string
  ur_username :: string
  ur_password_hash :: string
  ur_role :: role
  ur_name :: string
  ur_field_ids :: "string list option"
  ur_must_change_password :: "bool option"
  ur_totp_secret :: "string option"
  ur_mfa_enabled :: "bool option"
  ur_refresh_token :: "string option"
  ur_refresh_token_expires_at :: "int option"
  ur_created_at :: int
  ur_updated_at :: int

record recovery_row =
  rc_user_id :: string
  rc_code_hash :: string
  rc_used :: bool

record user_db =
  db_users :: "user_row list"
  db_recovery :: "recovery_row list"

definition toUser :: "user_row \<Rightarrow> user" where
  "toUser row =
     \<lparr>us_id = ur_id row, us_username = ur_username row, us_role = ur_role row, us_name = ur_name row,
      us_fieldIds = ur_field_ids row, us_mustChangePassword = Some (ur_must_change_password row = Some True),
      us_mfaEnabled = Some (ur_mfa_enabled row = Some True),
      us_createdAt = Some (ur_created_at row), us_updatedAt = Some (ur_updated_at row)\<rparr>"

section \<open>The statements of the repository\<close>

definition findByUsername :: "string \<Rightarrow> user_db \<Rightarrow> user option" where
  "findByUsername username db = map_option toUser (find_first (\<lambda>row. ur_username row = username) (db_users db))"

definition findById :: "string \<Rightarrow> user_db \<Rightarrow> user option" where
  "findById i db = map_option toUser (find_first (\<lambda>row. ur_id row = i) (db_users db))"

definition passwordHashByUsername :: "string \<Rightarrow> user_db \<Rightarrow> string option" where
  "passwordHashByUsername username db =
     map_option ur_password_hash (find_first (\<lambda>row. ur_username row = username) (db_users db))"

definition totpSecretByUserId :: "string \<Rightarrow> user_db \<Rightarrow> string option" where
  "totpSecretByUserId i db = Option.bind (find_first (\<lambda>row. ur_id row = i) (db_users db)) ur_totp_secret"

definition list_users :: "user_db \<Rightarrow> user list" where
  "list_users db = map toUser (sort_key ur_created_at (db_users db))"

definition usersByFieldIds :: "string list \<Rightarrow> user_db \<Rightarrow> user list" where
  "usersByFieldIds ids db =
     map toUser (sort_key ur_created_at
       (filter (\<lambda>row. case ur_field_ids row of None \<Rightarrow> False | Some fs \<Rightarrow> list_ex (\<lambda>f. f \<in> set ids) fs) (db_users db)))"

text \<open>An \<open>INSERT\<close> that breaks \<open>UNIQUE (username)\<close> or the primary key is an error.\<close>

definition new_row :: "string \<Rightarrow> int \<Rightarrow> string \<Rightarrow> string \<Rightarrow> role \<Rightarrow> string \<Rightarrow> string list \<Rightarrow> bool \<Rightarrow> user_row" where
  "new_row uuid now username passwordHash role name fieldIds must =
     \<lparr>ur_id = uuid, ur_username = username, ur_password_hash = passwordHash, ur_role = role, ur_name = name,
      ur_field_ids = Some fieldIds, ur_must_change_password = Some must, ur_totp_secret = None,
      ur_mfa_enabled = Some False, ur_refresh_token = None, ur_refresh_token_expires_at = None,
      ur_created_at = now, ur_updated_at = now\<rparr>"

definition create_user :: "string \<Rightarrow> int \<Rightarrow> string \<Rightarrow> string \<Rightarrow> role \<Rightarrow> string \<Rightarrow> string list option \<Rightarrow> user_db \<Rightarrow> (string + user) \<times> user_db" where
  "create_user uuid now username passwordHash role name fieldIds db =
     (if list_ex (\<lambda>row. ur_username row = username \<or> ur_id row = uuid) (db_users db)
      then (Inl ''duplicate key value violates unique constraint'', db)
      else
        let row = new_row uuid now username passwordHash role name (case fieldIds of Some fs \<Rightarrow> fs | None \<Rightarrow> []) False
        in (Inr (toUser row), db\<lparr>db_users := db_users db @ [row]\<rparr>))"

text \<open>\<open>UPDATE users SET ... WHERE id = $n\<close>: the primary key makes it at most one row.\<close>

definition update_row :: "string \<Rightarrow> (user_row \<Rightarrow> user_row) \<Rightarrow> user_db \<Rightarrow> user_db" where
  "update_row i f db = db\<lparr>db_users := map (\<lambda>row. if ur_id row = i then f row else row) (db_users db)\<rparr>"

definition returning :: "string \<Rightarrow> string \<Rightarrow> user_db \<Rightarrow> (string + user) \<times> user_db" where
  "returning message i db = (case findById i db of None \<Rightarrow> Inl message | Some u \<Rightarrow> Inr u, db)"

record user_update =
  up_username :: "string option"
  up_password_hash :: "string option"
  up_role :: "role option"
  up_name :: "string option"
  up_field_ids :: "string list option"
  up_must_change_password :: "bool option"

definition assign :: "'a option \<Rightarrow> 'a \<Rightarrow> 'a" where
  "assign v old = (case v of Some x \<Rightarrow> x | None \<Rightarrow> old)"

definition apply_update :: "int \<Rightarrow> user_update \<Rightarrow> user_row \<Rightarrow> user_row" where
  "apply_update now f row =
     row\<lparr>ur_username := assign (up_username f) (ur_username row),
         ur_password_hash := assign (up_password_hash f) (ur_password_hash row),
         ur_role := assign (up_role f) (ur_role row),
         ur_name := assign (up_name f) (ur_name row),
         ur_field_ids := assign (map_option Some (up_field_ids f)) (ur_field_ids row),
         ur_must_change_password := assign (map_option Some (up_must_change_password f)) (ur_must_change_password row),
         ur_updated_at := now\<rparr>"

definition update_user :: "int \<Rightarrow> string \<Rightarrow> user_update \<Rightarrow> user_db \<Rightarrow> (string + user) \<times> user_db" where
  "update_user now i f db =
     (if (case up_username f of None \<Rightarrow> False
          | Some n \<Rightarrow> list_ex (\<lambda>row. ur_id row = i) (db_users db) \<and>
                      list_ex (\<lambda>row. ur_username row = n \<and> ur_id row \<noteq> i) (db_users db))
      then (Inl ''duplicate key value violates unique constraint'', db)
      else returning (''Failed to update user: '' @ i) i (update_row i (apply_update now f) db))"

text \<open>\<open>mfa_recovery\<close> refers to the user with \<open>ON DELETE CASCADE\<close>.\<close>

definition delete_user :: "string \<Rightarrow> user_db \<Rightarrow> user_db" where
  "delete_user i db =
     \<lparr>db_users = filter (\<lambda>row. ur_id row \<noteq> i) (db_users db),
      db_recovery = (if list_ex (\<lambda>row. ur_id row = i) (db_users db)
                     then filter (\<lambda>r. rc_user_id r \<noteq> i) (db_recovery db) else db_recovery db)\<rparr>"

definition storeRefreshToken :: "(string \<Rightarrow> string) \<Rightarrow> string \<Rightarrow> string \<Rightarrow> int \<Rightarrow> user_db \<Rightarrow> user_db" where
  "storeRefreshToken sha256Hex i token expiresAt =
     update_row i (\<lambda>row. row\<lparr>ur_refresh_token := Some (sha256Hex token), ur_refresh_token_expires_at := Some expiresAt\<rparr>)"

definition findByRefreshToken :: "(string \<Rightarrow> string) \<Rightarrow> int \<Rightarrow> string \<Rightarrow> user_db \<Rightarrow> user option" where
  "findByRefreshToken sha256Hex now token db =
     map_option toUser
       (find_first (\<lambda>row. ur_refresh_token row = Some (sha256Hex token) \<and>
                (case ur_refresh_token_expires_at row of Some e \<Rightarrow> now < e | None \<Rightarrow> False)) (db_users db))"

definition clearRefreshToken :: "string \<Rightarrow> user_db \<Rightarrow> user_db" where
  "clearRefreshToken i =
     update_row i (\<lambda>row. row\<lparr>ur_refresh_token := None, ur_refresh_token_expires_at := None\<rparr>)"

definition setTotpSecret :: "int \<Rightarrow> string \<Rightarrow> string \<Rightarrow> user_db \<Rightarrow> user_db" where
  "setTotpSecret now i secret =
     update_row i (\<lambda>row. row\<lparr>ur_totp_secret := Some secret, ur_mfa_enabled := Some False, ur_updated_at := now\<rparr>)"

definition enableMfa :: "int \<Rightarrow> string \<Rightarrow> user_db \<Rightarrow> (string + user) \<times> user_db" where
  "enableMfa now i db =
     returning (''Failed to enable MFA for user: '' @ i) i
       (update_row i (\<lambda>row. row\<lparr>ur_mfa_enabled := Some True, ur_updated_at := now\<rparr>) db)"

definition disable_row :: "int \<Rightarrow> string \<Rightarrow> user_db \<Rightarrow> (string + user) \<times> user_db" where
  "disable_row now i db =
     returning (''Failed to disable MFA for user: '' @ i) i
       (update_row i (\<lambda>row. row\<lparr>ur_mfa_enabled := Some False, ur_totp_secret := None, ur_updated_at := now\<rparr>) db)"

definition delete_codes :: "string \<Rightarrow> user_db \<Rightarrow> user_db" where
  "delete_codes i db = db\<lparr>db_recovery := filter (\<lambda>r. rc_user_id r \<noteq> i) (db_recovery db)\<rparr>"

text \<open>The insertion of a code of a user that does not exist breaks the foreign key.\<close>

definition insert_code :: "string \<Rightarrow> string \<Rightarrow> user_db \<Rightarrow> (string + unit) \<times> user_db" where
  "insert_code i codeHash db =
     (if list_ex (\<lambda>row. ur_id row = i) (db_users db)
      then (Inr (), db\<lparr>db_recovery := db_recovery db @ [\<lparr>rc_user_id = i, rc_code_hash = codeHash, rc_used = False\<rparr>]\<rparr>)
      else (Inl ''insert violates foreign key constraint'', db))"

definition unspent :: "string \<Rightarrow> string \<Rightarrow> recovery_row \<Rightarrow> bool" where
  "unspent i codeHash r \<longleftrightarrow> rc_user_id r = i \<and> rc_code_hash r = codeHash \<and> \<not> rc_used r"

definition consumeRecoveryCode :: "string \<Rightarrow> string \<Rightarrow> user_db \<Rightarrow> bool \<times> user_db" where
  "consumeRecoveryCode i codeHash db =
     (list_ex (unspent i codeHash) (db_recovery db),
      db\<lparr>db_recovery := map (\<lambda>r. if unspent i codeHash r then r\<lparr>rc_used := True\<rparr> else r) (db_recovery db)\<rparr>)"

record seed_user =
  sd_username :: string
  sd_password :: string
  sd_role :: role
  sd_name :: string
  sd_mustChangePassword :: "bool option"

text \<open>\<open>INSERT ... ON CONFLICT (username) DO NOTHING\<close>.\<close>

fun seed_users :: "(nat \<Rightarrow> string) \<Rightarrow> (string \<Rightarrow> nat \<Rightarrow> string) \<Rightarrow> int \<Rightarrow> nat \<Rightarrow> seed_user list \<Rightarrow> user_db \<Rightarrow> user_db" where
  "seed_users uuid hash now n [] db = db"
| "seed_users uuid hash now n (sd # sds) db =
     seed_users uuid hash now (Suc n) sds
       (if list_ex (\<lambda>row. ur_username row = sd_username sd) (db_users db) then db
        else db\<lparr>db_users := db_users db @
               [new_row (uuid n) now (sd_username sd) (hash (sd_password sd) n) (sd_role sd) (sd_name sd) []
                  (sd_mustChangePassword sd = Some True)]\<rparr>)"

section \<open>Failed attempts\<close>

text \<open>A counter, or the text of a key set by the program; and when the key expires.\<close>

datatype redis_value = Count nat | Text string

record 'r redis =
  rd_look :: "'r \<Rightarrow> string \<Rightarrow> (redis_value \<times> int option) option"
  rd_get :: "string \<Rightarrow> int \<Rightarrow> 'r \<Rightarrow> redis_value option"
  rd_incr :: "string \<Rightarrow> int \<Rightarrow> 'r \<Rightarrow> nat \<times> 'r"
  rd_expire :: "string \<Rightarrow> nat \<Rightarrow> int \<Rightarrow> 'r \<Rightarrow> 'r"
  rd_set_ex :: "string \<Rightarrow> redis_value \<Rightarrow> nat \<Rightarrow> int \<Rightarrow> 'r \<Rightarrow> 'r"
  rd_del :: "string list \<Rightarrow> int \<Rightarrow> 'r \<Rightarrow> 'r"

fun live_key :: "int \<Rightarrow> (redis_value \<times> int option) option \<Rightarrow> (redis_value \<times> int option) option" where
  "live_key now None = None"
| "live_key now (Some (v, None)) = Some (v, None)"
| "live_key now (Some (v, Some e)) = (if now < e then Some (v, Some e) else None)"

text \<open>
  The documented effect of the commands: \<open>INCR\<close> counts from zero when the key is gone and keeps its
  expiry, \<open>EXPIRE\<close> does not create a key, \<open>SET EX\<close> replaces value and expiry, \<open>DEL\<close> removes keys.
\<close>

definition get_law :: "'r redis \<Rightarrow> bool" where
  "get_law R \<longleftrightarrow> (\<forall>k t r. rd_get R k t r = map_option fst (live_key t (rd_look R r k)))"

definition incr_law :: "'r redis \<Rightarrow> bool" where
  "incr_law R \<longleftrightarrow>
     (\<forall>k t r. case live_key t (rd_look R r k) of
        None \<Rightarrow> fst (rd_incr R k t r) = 1 \<and> rd_look R (snd (rd_incr R k t r)) = (rd_look R r)(k \<mapsto> (Count 1, None))
      | Some (Count n, e) \<Rightarrow> fst (rd_incr R k t r) = Suc n \<and>
          rd_look R (snd (rd_incr R k t r)) = (rd_look R r)(k \<mapsto> (Count (Suc n), e))
      | Some (Text x, e) \<Rightarrow> \<exists>v. rd_look R (snd (rd_incr R k t r)) = (rd_look R r)(k := v))"

definition expire_law :: "'r redis \<Rightarrow> bool" where
  "expire_law R \<longleftrightarrow>
     (\<forall>k n t r. rd_look R (rd_expire R k n t r) =
        (case live_key t (rd_look R r k) of
           None \<Rightarrow> rd_look R r
         | Some (v, e) \<Rightarrow> (rd_look R r)(k \<mapsto> (v, Some (t + int n * 1000)))))"

definition set_law :: "'r redis \<Rightarrow> bool" where
  "set_law R \<longleftrightarrow>
     (\<forall>k v n t r. rd_look R (rd_set_ex R k v n t r) = (rd_look R r)(k \<mapsto> (v, Some (t + int n * 1000))))"

definition del_law :: "'r redis \<Rightarrow> bool" where
  "del_law R \<longleftrightarrow> (\<forall>ks t r k. rd_look R (rd_del R ks t r) k = (if k \<in> set ks then None else rd_look R r k))"

definition redis_ok :: "'r redis \<Rightarrow> bool" where
  "redis_ok R \<longleftrightarrow> get_law R \<and> incr_law R \<and> expire_law R \<and> set_law R \<and> del_law R"

end
