(* ===== verification/User_Auth.thy ===== *)
theory User_Auth
  imports User_Store Tamper_Log Tunnel_Sessions "HOL-Library.Word"
begin

text \<open>
  Authentication in the web service: the Redis throttles, \<open>TokenAdapter\<close>, the TOTP and password adapters and
  the use cases (\<open>LoginUseCase\<close>, \<open>MfaLoginUseCase\<close>, \<open>MfaEnrollUseCase\<close>, \<open>RefreshTokenUseCase\<close>,
  \<open>ChangePasswordUseCase\<close>, the user management), composed into \<open>auth_step\<close>. Password hashing, HS256,
  SHA-256, TOTP, random values and Redis are parameters; every call to the database, to Redis or to the
  audit log may fail (\<open>ae_outage\<close>). The clock stands still during a request.
\<close>

section \<open>Environment and state\<close>

text \<open>What is signed: the access, refresh and mfa tokens, and the session tokens of the tunnel with their tag.\<close>

datatype jwt_claims =
    Access_claims (cl_sub: string) (cl_username: string) (cl_role: role) (cl_name: string)
      (cl_fieldIds: "string list option") (cl_mustChangePassword: "bool option") (cl_mfaEnabled: "bool option")
  | Refresh_claims (cl_sub: string) (cl_jti: string)
  | Mfa_claims (cl_sub: string)
  | Session_claims string token_payload

record throttle_config =
  th_maxFailures :: nat
  th_windowSeconds :: nat
  th_lockSeconds :: nat

record auth_config =
  accessTokenExpirySeconds :: int
  refreshTokenExpirySeconds :: int
  mfaTokenExpirySeconds :: int

datatype resource = Database | Redis | Audit_log

record 'r auth_env =
  ae_config :: auth_config
  ae_redis :: "'r redis"
  ae_outage :: "resource \<Rightarrow> nat \<Rightarrow> string option"   \<comment> \<open>the error of the n-th external call, if it fails\<close>
  ae_loginThrottle :: "throttle_config option"
  ae_totpThrottle :: "throttle_config option"
  ae_audited :: bool
  ae_uuid :: "nat \<Rightarrow> string"
  ae_random :: "nat \<Rightarrow> 8 word list"   \<comment> \<open>five random bytes\<close>
  ae_sha256Hex :: "string \<Rightarrow> string"
  ae_hashPassword :: "string \<Rightarrow> nat \<Rightarrow> string"
  ae_verifyPassword :: "string \<Rightarrow> string \<Rightarrow> bool option"   \<comment> \<open>\<open>None\<close>: throws\<close>
  ae_generateSecret :: "nat \<Rightarrow> string"
  ae_keyuri :: "string \<Rightarrow> string \<Rightarrow> string"
  ae_checkCode :: "int \<Rightarrow> string \<Rightarrow> string \<Rightarrow> bool option"
  ae_signJwt :: "jwt_claims \<Rightarrow> int \<Rightarrow> string"
  ae_jwtVerify :: "string \<Rightarrow> int \<Rightarrow> jwt_claims option"   \<comment> \<open>signature, algorithm and expiry\<close>

record auth_entry =
  en_level :: log_level
  en_category :: log_category
  en_eventCode :: string
  en_subject :: string

record 'r auth_state =
  wa_db :: user_db
  wa_redis :: 'r
  wa_log :: "auth_entry list"
  wa_nonce :: nat
  wa_calls :: nat
  wa_now :: int

type_synonym ('r, 'a) auth = "('r auth_state, string, 'a) comp"

definition call :: "'r auth_env \<Rightarrow> resource \<Rightarrow> ('r, 'a) auth \<Rightarrow> ('r, 'a) auth" where
  "call env res f s =
     (let s1 = s\<lparr>wa_calls := Suc (wa_calls s)\<rparr> in
      case ae_outage env res (wa_calls s) of
        Some err \<Rightarrow> (Inl err, s1)
      | None \<Rightarrow> f s1)"

definition query :: "'r auth_env \<Rightarrow> (user_db \<Rightarrow> 'a) \<Rightarrow> ('r, 'a) auth" where
  "query env f = call env Database (\<lambda>s. (Inr (f (wa_db s)), s))"

definition exec_sql :: "'r auth_env \<Rightarrow> (user_db \<Rightarrow> user_db) \<Rightarrow> ('r, unit) auth" where
  "exec_sql env f = call env Database (\<lambda>s. (Inr (), s\<lparr>wa_db := f (wa_db s)\<rparr>))"

definition statement :: "'r auth_env \<Rightarrow> (user_db \<Rightarrow> (string + 'a) \<times> user_db) \<Rightarrow> ('r, 'a) auth" where
  "statement env f = call env Database (\<lambda>s. case f (wa_db s) of (r, db) \<Rightarrow> (r, s\<lparr>wa_db := db\<rparr>))"

definition redis_command :: "'r auth_env \<Rightarrow> (int \<Rightarrow> 'r \<Rightarrow> 'a \<times> 'r) \<Rightarrow> ('r, 'a) auth" where
  "redis_command env f = call env Redis (\<lambda>s. case f (wa_now s) (wa_redis s) of (x, r) \<Rightarrow> (Inr x, s\<lparr>wa_redis := r\<rparr>))"

definition next_nonce :: "('r, nat) auth" where
  "next_nonce s = (Inr (wa_nonce s), s\<lparr>wa_nonce := Suc (wa_nonce s)\<rparr>)"

definition clock :: "('r, int) auth" where
  "clock s = (Inr (wa_now s), s)"

text \<open>\<open>try { await m } catch { return x }\<close>.\<close>

definition catchC :: "('s, 'e, 'a) comp \<Rightarrow> 'a \<Rightarrow> ('s, 'e, 'a) comp" where
  "catchC m x s = (case m s of (Inl e, s') \<Rightarrow> (Inr x, s') | (Inr y, s') \<Rightarrow> (Inr y, s'))"

definition log_entry :: "'r auth_env \<Rightarrow> log_level \<Rightarrow> log_category \<Rightarrow> string \<Rightarrow> string \<Rightarrow> ('r, unit) auth" where
  "log_entry env lvl cat code subject =
     (if ae_audited env
      then call env Audit_log (\<lambda>s. (Inr (), s\<lparr>wa_log := wa_log s @
             [\<lparr>en_level = lvl, en_category = cat, en_eventCode = code, en_subject = subject\<rparr>]\<rparr>))
      else returnC ())"

section \<open>Throttles\<close>

text \<open>\<open>RedisLoginThrottle\<close> and \<open>RedisTotpThrottle\<close> differ in the keys only.\<close>

definition fail_key :: "string \<Rightarrow> string \<Rightarrow> string" where
  "fail_key kind who = kind @ '':fail:'' @ who"

definition lock_key :: "string \<Rightarrow> string \<Rightarrow> string" where
  "lock_key kind who = kind @ '':lock:'' @ who"

definition th_isLocked :: "'r auth_env \<Rightarrow> string \<Rightarrow> string \<Rightarrow> ('r, bool) auth" where
  "th_isLocked env kind who =
     redis_command env (\<lambda>t r. (rd_get (ae_redis env) (lock_key kind who) t r \<noteq> None, r))"

definition th_recordFailure :: "'r auth_env \<Rightarrow> throttle_config \<Rightarrow> string \<Rightarrow> string \<Rightarrow> ('r, unit) auth" where
  "th_recordFailure env cfg kind who =
     bindC (redis_command env (rd_incr (ae_redis env) (fail_key kind who))) (\<lambda>count.
     bindC (if count = 1
            then redis_command env (\<lambda>t r. ((), rd_expire (ae_redis env) (fail_key kind who) (th_windowSeconds cfg) t r))
            else returnC ()) (\<lambda>_.
     if th_maxFailures cfg \<le> count
     then redis_command env (\<lambda>t r. ((), rd_set_ex (ae_redis env) (lock_key kind who) (Text ''1'') (th_lockSeconds cfg) t r))
     else returnC ()))"

definition th_recordSuccess :: "'r auth_env \<Rightarrow> string \<Rightarrow> string \<Rightarrow> ('r, unit) auth" where
  "th_recordSuccess env kind who =
     redis_command env (\<lambda>t r. ((), rd_del (ae_redis env) [fail_key kind who, lock_key kind who] t r))"

section \<open>Tokens\<close>

definition epoch_seconds :: "int \<Rightarrow> int" where
  "epoch_seconds now = now div 1000"

definition access_claims :: "user \<Rightarrow> jwt_claims" where
  "access_claims u =
     Access_claims (us_id u) (us_username u) (us_role u) (us_name u)
       (Some (case us_fieldIds u of Some fs \<Rightarrow> fs | None \<Rightarrow> []))
       (Some (us_mustChangePassword u = Some True)) (Some (us_mfaEnabled u = Some True))"

definition signAccess :: "'r auth_env \<Rightarrow> user \<Rightarrow> ('r, string) auth" where
  "signAccess env u =
     bindC clock (\<lambda>now. returnC (ae_signJwt env (access_claims u)
       (epoch_seconds now + accessTokenExpirySeconds (ae_config env))))"

definition signRefresh :: "'r auth_env \<Rightarrow> user \<Rightarrow> ('r, string) auth" where
  "signRefresh env u =
     bindC clock (\<lambda>now. bindC next_nonce (\<lambda>n.
       returnC (ae_signJwt env (Refresh_claims (us_id u) (ae_uuid env n))
         (epoch_seconds now + refreshTokenExpirySeconds (ae_config env)))))"

definition signMfa :: "'r auth_env \<Rightarrow> string \<Rightarrow> ('r, string) auth" where
  "signMfa env i =
     bindC clock (\<lambda>now. returnC (ae_signJwt env (Mfa_claims i)
       (epoch_seconds now + mfaTokenExpirySeconds (ae_config env))))"

definition token_user :: "jwt_claims \<Rightarrow> user option" where
  "token_user c =
     (case c of
        Access_claims sub username role name fieldIds must mfa \<Rightarrow>
          Some \<lparr>us_id = sub, us_username = username, us_role = role, us_name = name,
                us_fieldIds = Some (case fieldIds of Some fs \<Rightarrow> fs | None \<Rightarrow> []),
                us_mustChangePassword = Some (must = Some True), us_mfaEnabled = Some (mfa = Some True),
                us_createdAt = None, us_updatedAt = None\<rparr>
      | _ \<Rightarrow> None)"

definition verifyAccess :: "'r auth_env \<Rightarrow> int \<Rightarrow> string \<Rightarrow> user option" where
  "verifyAccess env now token = Option.bind (ae_jwtVerify env token (epoch_seconds now)) token_user"

definition verifyRefresh :: "'r auth_env \<Rightarrow> int \<Rightarrow> string \<Rightarrow> (string \<times> string) option" where
  "verifyRefresh env now token =
     (case ae_jwtVerify env token (epoch_seconds now) of Some (Refresh_claims sub jti) \<Rightarrow> Some (sub, jti) | _ \<Rightarrow> None)"

definition verifyMfa :: "'r auth_env \<Rightarrow> int \<Rightarrow> string \<Rightarrow> string option" where
  "verifyMfa env now token =
     (case ae_jwtVerify env token (epoch_seconds now) of Some (Mfa_claims sub) \<Rightarrow> Some sub | _ \<Rightarrow> None)"

text \<open>\<open>JoseTokenSigner\<close>: the session tokens of the tunnel, under a tag of their own.\<close>

definition session_signer :: "'r auth_env \<Rightarrow> string \<Rightarrow> int \<Rightarrow> token_signer" where
  "session_signer env tag now0 =
     \<lparr>tk_sign = (\<lambda>p ttl. Some (ae_signJwt env (Session_claims tag p) (epoch_seconds now0 + ttl))),
      tk_verify = (\<lambda>now token.
        case ae_jwtVerify env token (epoch_seconds now) of
          Some (Session_claims t p) \<Rightarrow> if t = tag then Some p else None
        | _ \<Rightarrow> None)\<rparr>"

section \<open>Passwords and codes\<close>

definition pw_verify :: "'r auth_env \<Rightarrow> string \<Rightarrow> string \<Rightarrow> bool" where
  "pw_verify env password hash = (ae_verifyPassword env password hash = Some True)"

definition six_digits :: "string \<Rightarrow> bool" where
  "six_digits code \<longleftrightarrow> length code = 6 \<and> list_all (\<lambda>c. of_char c \<in> {48::nat..57}) code"

definition isCodeValid :: "'r auth_env \<Rightarrow> int \<Rightarrow> string \<Rightarrow> string \<Rightarrow> bool" where
  "isCodeValid env now secret code =
     (six_digits code \<and> ae_checkCode env now secret code = Some True)"

definition upper_hex :: "nat \<Rightarrow> char" where
  "upper_hex n = (if n < 10 then char_of (48 + n) else char_of (55 + n))"

definition hex_byte :: "8 word \<Rightarrow> string" where
  "hex_byte b = [upper_hex (unat b div 16), upper_hex (unat b mod 16)]"

definition recovery_code :: "8 word list \<Rightarrow> string" where
  "recovery_code bytes = (let raw = concat (map hex_byte bytes) in take 5 raw @ ''-'' @ drop 5 raw)"

definition RECOVERY_CODE_COUNT :: nat where
  "RECOVERY_CODE_COUNT = 10"

definition newRecoveryCodes :: "'r auth_env \<Rightarrow> ('r, string list) auth" where
  "newRecoveryCodes env =
     seqC (\<lambda>_. bindC next_nonce (\<lambda>n. returnC (recovery_code (ae_random env n)))) [0..<RECOVERY_CODE_COUNT]"

section \<open>Use cases\<close>

text \<open>
  The messages of \<open>Result.err\<close>, in the order of the files: ``Hesap gecici kilitli'', ``Gecici olarak giris
  yapilamiyor'', ``Gecersiz kullanici adi veya sifre'', ``Denetim kaydi tutulamadi'' (three of them),
  ``Gecersiz veya suresi dolmus mfa token'', ``MFA dogrulamasi gecici kilitli'', ``Kullanici bulunamadi'',
  ``MFA yapilandirmasi bulunamadi'', ``Gecersiz dogrulama kodu'', ``MFA kaydi bulunamadi'', ``Gecersiz refresh
  token'', ``Gecersiz mevcut sifre'', ``Yeni sifre eskisinden farkli olmali'', ``Bu kullanici adi zaten
  kullaniliyor'', ``Kendinizi silemezsiniz''.
\<close>

datatype refusal =
    Account_locked | Login_unavailable | Bad_credentials | Audit_unavailable
  | Mfa_token_invalid | Mfa_locked | User_unknown | Mfa_not_configured | Bad_code | Mfa_not_enrolled
  | Bad_refresh_token | Wrong_password | Same_password | Name_taken | Self_deletion

record auth_response =
  ar_accessToken :: string
  ar_refreshToken :: string
  ar_user :: user

datatype login_outcome = Tokens auth_response | Mfa_required string user

text \<open>A use case rejects (\<open>Inl\<close>) or returns a \<open>Result\<close>.\<close>

type_synonym ('r, 'a) use_case = "('r, refusal + 'a) auth"

definition refuse :: "refusal \<Rightarrow> ('r, 'a) use_case" where
  "refuse e = returnC (Inl e)"

definition accept :: "'a \<Rightarrow> ('r, 'a) use_case" where
  "accept x = returnC (Inr x)"

definition sign_pair :: "'r auth_env \<Rightarrow> user \<Rightarrow> ('r, auth_response) auth" where
  "sign_pair env u =
     bindC (signAccess env u) (\<lambda>a. bindC (signRefresh env u) (\<lambda>r.
       returnC \<lparr>ar_accessToken = a, ar_refreshToken = r, ar_user = u\<rparr>))"

definition logLogin :: "'r auth_env \<Rightarrow> string \<Rightarrow> log_category \<Rightarrow> string \<Rightarrow> ('r, unit) auth" where
  "logLogin env code cat username =
     log_entry env (if cat = Security then Warn else Info) cat code username"

definition logLoginSafe :: "'r auth_env \<Rightarrow> string \<Rightarrow> log_category \<Rightarrow> string \<Rightarrow> ('r, unit) auth" where
  "logLoginSafe env code cat username = catchC (logLogin env code cat username) ()"

definition login_recordFailure :: "'r auth_env \<Rightarrow> string \<Rightarrow> ('r, unit) auth" where
  "login_recordFailure env username =
     (case ae_loginThrottle env of
        None \<Rightarrow> returnC ()
      | Some cfg \<Rightarrow>
          catchC
            (bindC (th_isLocked env ''login'' username) (\<lambda>wasLocked.
             bindC (th_recordFailure env cfg ''login'' username) (\<lambda>_.
             bindC (th_isLocked env ''login'' username) (\<lambda>nowLocked.
             if nowLocked \<and> \<not> wasLocked then logLoginSafe env ''login_locked'' Security username else returnC ())))) ())"

definition login_recordSuccess :: "'r auth_env \<Rightarrow> string \<Rightarrow> ('r, unit) auth" where
  "login_recordSuccess env username =
     (case ae_loginThrottle env of
        None \<Rightarrow> returnC ()
      | Some cfg \<Rightarrow> catchC (th_recordSuccess env ''login'' username) ())"

text \<open>The lock is asked for before anything else; while it cannot be read nobody logs in.\<close>

definition lock_check :: "'r auth_env \<Rightarrow> string \<Rightarrow> ('r, refusal option) auth" where
  "lock_check env username =
     (case ae_loginThrottle env of
        None \<Rightarrow> returnC None
      | Some cfg \<Rightarrow>
          catchC (bindC (th_isLocked env ''login'' username) (\<lambda>locked.
                    returnC (if locked then Some Account_locked else None)))
            (Some Login_unavailable))"

definition failed_login :: "'r auth_env \<Rightarrow> string \<Rightarrow> ('r, login_outcome) use_case" where
  "failed_login env username =
     bindC (logLoginSafe env ''login_failed'' Security username) (\<lambda>_.
     bindC (login_recordFailure env username) (\<lambda>_. refuse Bad_credentials))"

definition WEEK_MS :: int where
  "WEEK_MS = 7 * 24 * 60 * 60 * 1000"

definition store_refresh :: "'r auth_env \<Rightarrow> auth_response \<Rightarrow> ('r, unit) auth" where
  "store_refresh env resp =
     bindC clock (\<lambda>now. exec_sql env (storeRefreshToken (ae_sha256Hex env) (us_id (ar_user resp)) (ar_refreshToken resp) (now + WEEK_MS)))"

definition login_tokens :: "'r auth_env \<Rightarrow> user \<Rightarrow> ('r, login_outcome) use_case" where
  "login_tokens env u =
     (if us_mfaEnabled u = Some True
      then bindC (signMfa env (us_id u)) (\<lambda>t. accept (Mfa_required t u))
      else bindC (sign_pair env u) (\<lambda>resp. bindC (store_refresh env resp) (\<lambda>_. accept (Tokens resp))))"

definition password_accepted :: "'r auth_env \<Rightarrow> string \<Rightarrow> user \<Rightarrow> ('r, login_outcome) use_case" where
  "password_accepted env username u =
     bindC (catchC (bindC (logLogin env ''login_succeeded'' Audit username) (\<lambda>_. returnC True)) False) (\<lambda>logged.
     if \<not> logged then refuse Audit_unavailable
     else bindC (login_recordSuccess env username) (\<lambda>_. login_tokens env u))"

definition login_verify :: "'r auth_env \<Rightarrow> string \<Rightarrow> string \<Rightarrow> ('r, login_outcome) use_case" where
  "login_verify env username password =
     bindC (query env (findByUsername username)) (\<lambda>found.
     case found of
       None \<Rightarrow> failed_login env username
     | Some u \<Rightarrow>
         bindC (query env (passwordHashByUsername username)) (\<lambda>stored.
         case stored of
           None \<Rightarrow> failed_login env username
         | Some hash \<Rightarrow>
             if hash = [] \<or> \<not> pw_verify env password hash then failed_login env username
             else password_accepted env username u))"

definition login :: "'r auth_env \<Rightarrow> string \<Rightarrow> string \<Rightarrow> ('r, login_outcome) use_case" where
  "login env username password =
     bindC (lock_check env username) (\<lambda>refused.
     case refused of Some e \<Rightarrow> refuse e | None \<Rightarrow> login_verify env username password)"

definition refresh :: "'r auth_env \<Rightarrow> string \<Rightarrow> ('r, auth_response) use_case" where
  "refresh env token =
     bindC clock (\<lambda>now.
     case verifyRefresh env now token of
       None \<Rightarrow> refuse Bad_refresh_token
     | Some (sub, jti) \<Rightarrow>
         bindC (query env (findByRefreshToken (ae_sha256Hex env) now token)) (\<lambda>found.
         case found of
           Some u \<Rightarrow>
             if us_id u \<noteq> sub then bindC (exec_sql env (clearRefreshToken sub)) (\<lambda>_. refuse Bad_refresh_token)
             else bindC (sign_pair env u) (\<lambda>resp. bindC (store_refresh env resp) (\<lambda>_. accept resp))
         | None \<Rightarrow> bindC (exec_sql env (clearRefreshToken sub)) (\<lambda>_. refuse Bad_refresh_token)))"

subsection \<open>The second factor\<close>

definition log_mfa_failure :: "'r auth_env \<Rightarrow> string \<Rightarrow> ('r, unit) auth" where
  "log_mfa_failure env subject = catchC (log_entry env Warn Security ''mfa_login_failed'' subject) ()"

definition totp_lock_check :: "'r auth_env \<Rightarrow> string \<Rightarrow> ('r, bool) auth" where
  "totp_lock_check env i =
     (case ae_totpThrottle env of
        None \<Rightarrow> returnC False
      | Some cfg \<Rightarrow>
          catchC (bindC (th_isLocked env ''totp'' i) (\<lambda>locked.
                    if locked then bindC (log_mfa_failure env i) (\<lambda>_. returnC True) else returnC False)) True)"

text \<open>A failure that cannot be counted is answered as a lock.\<close>

definition totp_failure :: "'r auth_env \<Rightarrow> string \<Rightarrow> ('r, 'a) use_case" where
  "totp_failure env i =
     (case ae_totpThrottle env of
        None \<Rightarrow> refuse Bad_code
      | Some cfg \<Rightarrow>
          catchC (bindC (th_recordFailure env cfg ''totp'' i) (\<lambda>_. refuse Bad_code)) (Inl Mfa_locked))"

definition totp_success :: "'r auth_env \<Rightarrow> string \<Rightarrow> ('r, unit) auth" where
  "totp_success env i =
     (case ae_totpThrottle env of None \<Rightarrow> returnC () | Some cfg \<Rightarrow> catchC (th_recordSuccess env ''totp'' i) ())"

definition check_second_factor :: "'r auth_env \<Rightarrow> string \<Rightarrow> string \<Rightarrow> string \<Rightarrow> ('r, bool) auth" where
  "check_second_factor env i secret code =
     bindC clock (\<lambda>now.
     if isCodeValid env now secret code then returnC True
     else call env Database (\<lambda>s. case consumeRecoveryCode i (ae_sha256Hex env code) (wa_db s) of
            (hit, db) \<Rightarrow> (Inr hit, s\<lparr>wa_db := db\<rparr>)))"

definition mfa_verify :: "'r auth_env \<Rightarrow> string \<Rightarrow> string \<Rightarrow> ('r, auth_response) use_case" where
  "mfa_verify env sub code =
     bindC (query env (findById sub)) (\<lambda>found.
     case found of
       None \<Rightarrow> refuse User_unknown
     | Some u \<Rightarrow>
         bindC (query env (totpSecretByUserId (us_id u))) (\<lambda>stored.
         case stored of
           None \<Rightarrow> refuse Mfa_not_configured
         | Some secret \<Rightarrow>
             if secret = [] then refuse Mfa_not_configured
             else
               bindC (check_second_factor env (us_id u) secret code) (\<lambda>ok.
               if ok then bindC (totp_success env (us_id u)) (\<lambda>_. bindC (sign_pair env u) accept)
               else bindC (log_mfa_failure env (us_username u)) (\<lambda>_. totp_failure env (us_id u)))))"

definition mfaLogin :: "'r auth_env \<Rightarrow> string \<Rightarrow> string \<Rightarrow> ('r, auth_response) use_case" where
  "mfaLogin env mfaToken code =
     bindC clock (\<lambda>now.
     case verifyMfa env now mfaToken of
       None \<Rightarrow> refuse Mfa_token_invalid
     | Some sub \<Rightarrow>
         bindC (totp_lock_check env sub) (\<lambda>locked.
         if locked then refuse Mfa_locked else mfa_verify env sub code))"

definition mfa_enroll :: "'r auth_env \<Rightarrow> string \<Rightarrow> ('r, string \<times> string) use_case" where
  "mfa_enroll env i =
     bindC next_nonce (\<lambda>n.
     bindC (query env (findById i)) (\<lambda>found.
     case found of
       None \<Rightarrow> refuse User_unknown
     | Some u \<Rightarrow>
         bindC clock (\<lambda>now.
         bindC (exec_sql env (setTotpSecret now i (ae_generateSecret env n))) (\<lambda>_.
         accept (ae_generateSecret env n, ae_keyuri env (ae_generateSecret env n) (us_username u))))))"

definition storeRecoveryCodes :: "'r auth_env \<Rightarrow> string \<Rightarrow> string list \<Rightarrow> ('r, unit) auth" where
  "storeRecoveryCodes env i hashes =
     bindC (exec_sql env (delete_codes i)) (\<lambda>_.
     bindC (seqC (\<lambda>h. statement env (insert_code i h)) hashes) (\<lambda>_. returnC ()))"

definition confirm_enrolled :: "'r auth_env \<Rightarrow> string \<Rightarrow> ('r, string list \<times> auth_response) use_case" where
  "confirm_enrolled env i =
     bindC (totp_success env i) (\<lambda>_.
     bindC (newRecoveryCodes env) (\<lambda>codes.
     bindC (catchC (bindC (log_entry env Info Audit ''mfa_enrolled'' i) (\<lambda>_. returnC True)) False) (\<lambda>logged.
     if \<not> logged then refuse Audit_unavailable
     else
       bindC clock (\<lambda>now.
       bindC (statement env (enableMfa now i)) (\<lambda>u.
       bindC (storeRecoveryCodes env i (map (ae_sha256Hex env) codes)) (\<lambda>_.
       bindC (sign_pair env u) (\<lambda>resp. accept (codes, resp))))))))"

definition mfa_confirm :: "'r auth_env \<Rightarrow> string \<Rightarrow> string \<Rightarrow> ('r, string list \<times> auth_response) use_case" where
  "mfa_confirm env i code =
     bindC (totp_lock_check env i) (\<lambda>locked.
     if locked then refuse Mfa_locked
     else
       bindC (query env (totpSecretByUserId i)) (\<lambda>stored.
       case stored of
         None \<Rightarrow> refuse Mfa_not_enrolled
       | Some secret \<Rightarrow>
           if secret = [] then refuse Mfa_not_enrolled
           else
             bindC clock (\<lambda>now.
             if \<not> isCodeValid env now secret code
             then bindC (log_mfa_failure env i) (\<lambda>_. totp_failure env i)
             else confirm_enrolled env i)))"

definition disableMfa :: "'r auth_env \<Rightarrow> string \<Rightarrow> ('r, user) auth" where
  "disableMfa env i =
     bindC clock (\<lambda>now.
     bindC (statement env (disable_row now i)) (\<lambda>u.
     bindC (exec_sql env (delete_codes i)) (\<lambda>_. returnC u)))"

definition mfa_reset :: "'r auth_env \<Rightarrow> string \<Rightarrow> ('r, unit) use_case" where
  "mfa_reset env i =
     bindC (catchC (bindC (log_entry env Info Audit ''mfa_reset'' i) (\<lambda>_. returnC True)) False) (\<lambda>logged.
     if \<not> logged then refuse Audit_unavailable
     else bindC (disableMfa env i) (\<lambda>_. accept ()))"

subsection \<open>Passwords and accounts\<close>

definition no_update :: user_update where
  "no_update = \<lparr>up_username = None, up_password_hash = None, up_role = None, up_name = None, up_field_ids = None, up_must_change_password = None\<rparr>"

definition hash_password :: "'r auth_env \<Rightarrow> string \<Rightarrow> ('r, string) auth" where
  "hash_password env password = bindC next_nonce (\<lambda>n. returnC (ae_hashPassword env password n))"

definition changePassword :: "'r auth_env \<Rightarrow> string \<Rightarrow> string \<Rightarrow> string \<Rightarrow> ('r, auth_response) use_case" where
  "changePassword env i old new =
     bindC (query env (findById i)) (\<lambda>found.
     case found of
       None \<Rightarrow> refuse User_unknown
     | Some u \<Rightarrow>
         bindC (query env (passwordHashByUsername (us_username u))) (\<lambda>stored.
         case stored of
           None \<Rightarrow> refuse User_unknown
         | Some hash \<Rightarrow>
             if hash = [] then refuse User_unknown
             else if \<not> pw_verify env old hash then refuse Wrong_password
             else if old = new then refuse Same_password
             else
               bindC (hash_password env new) (\<lambda>newHash.
               bindC clock (\<lambda>now.
               bindC (statement env (update_user now i
                 (no_update\<lparr>up_password_hash := Some newHash, up_must_change_password := Some False\<rparr>))) (\<lambda>updated.
               bindC (sign_pair env updated) accept)))))"

definition logout :: "'r auth_env \<Rightarrow> string \<Rightarrow> ('r, unit) use_case" where
  "logout env i = bindC (exec_sql env (clearRefreshToken i)) (\<lambda>_. accept ())"

record create_request =
  cq_username :: string
  cq_password :: string
  cq_role :: role
  cq_name :: string
  cq_fieldIds :: "string list option"

definition createUser :: "'r auth_env \<Rightarrow> create_request \<Rightarrow> ('r, user) use_case" where
  "createUser env req =
     bindC (query env (findByUsername (cq_username req))) (\<lambda>existing.
     if existing \<noteq> None then refuse Name_taken
     else
       bindC (hash_password env (cq_password req)) (\<lambda>hash.
       bindC clock (\<lambda>now. bindC next_nonce (\<lambda>n.
       bindC (statement env (create_user (ae_uuid env n) now (cq_username req) hash (cq_role req) (cq_name req) None)) accept))))"

record update_request =
  uq_username :: "string option"
  uq_password :: "string option"
  uq_role :: "role option"
  uq_name :: "string option"
  uq_fieldIds :: "string list option"

definition updateUser :: "'r auth_env \<Rightarrow> string \<Rightarrow> update_request \<Rightarrow> ('r, user) use_case" where
  "updateUser env i req =
     bindC (query env (findById i)) (\<lambda>found.
     case found of
       None \<Rightarrow> refuse User_unknown
     | Some u \<Rightarrow>
         bindC (case uq_password req of
                  None \<Rightarrow> returnC None
                | Some p \<Rightarrow> bindC (hash_password env p) (\<lambda>h. returnC (Some h))) (\<lambda>newHash.
         bindC clock (\<lambda>now.
         bindC (statement env (update_user now i
           (no_update\<lparr>up_username := uq_username req, up_password_hash := newHash, up_role := uq_role req, up_name := uq_name req\<rparr>)))
         accept)))"

definition deleteUser :: "'r auth_env \<Rightarrow> string \<Rightarrow> string \<Rightarrow> ('r, unit) use_case" where
  "deleteUser env i current =
     (if i = current then refuse Self_deletion
      else bindC (exec_sql env (delete_user i)) (\<lambda>_. accept ()))"

definition listUsers :: "'r auth_env \<Rightarrow> ('r, user list) use_case" where
  "listUsers env = bindC (query env list_users) accept"

section \<open>Runs\<close>

datatype auth_request =
    Login string string
  | Mfa_login string string
  | Refresh string
  | Mfa_enroll string
  | Mfa_confirm string string
  | Mfa_reset string
  | Change_password string string string
  | Logout string
  | Create_user create_request
  | Update_user string update_request
  | Delete_user string string
  | List_users

datatype auth_result =
    Rejected string
  | Refused refusal
  | Logged_in login_outcome
  | Authenticated auth_response
  | Enrolling string string
  | Enrolled "string list" auth_response
  | Account user
  | Accounts "user list"
  | Done

fun outcome :: "('a \<Rightarrow> auth_result) \<Rightarrow> string + (refusal + 'a) \<Rightarrow> auth_result" where
  "outcome f (Inl err) = Rejected err"
| "outcome f (Inr (Inl e)) = Refused e"
| "outcome f (Inr (Inr x)) = f x"

definition answer :: "('a \<Rightarrow> auth_result) \<Rightarrow> ('r, 'a) use_case \<Rightarrow> 'r auth_state \<Rightarrow> auth_result \<times> 'r auth_state" where
  "answer f m s = (outcome f (fst (m s)), snd (m s))"

fun auth_handle :: "'r auth_env \<Rightarrow> auth_request \<Rightarrow> 'r auth_state \<Rightarrow> auth_result \<times> 'r auth_state" where
  "auth_handle env (Login u p) = answer Logged_in (login env u p)"
| "auth_handle env (Mfa_login t c) = answer Authenticated (mfaLogin env t c)"
| "auth_handle env (Refresh t) = answer Authenticated (refresh env t)"
| "auth_handle env (Mfa_enroll i) = answer (\<lambda>(a, b). Enrolling a b) (mfa_enroll env i)"
| "auth_handle env (Mfa_confirm i c) = answer (\<lambda>(a, b). Enrolled a b) (mfa_confirm env i c)"
| "auth_handle env (Mfa_reset i) = answer (\<lambda>_. Done) (mfa_reset env i)"
| "auth_handle env (Change_password i a b) = answer Authenticated (changePassword env i a b)"
| "auth_handle env (Logout i) = answer (\<lambda>_. Done) (logout env i)"
| "auth_handle env (Create_user r) = answer Account (createUser env r)"
| "auth_handle env (Update_user i r) = answer Account (updateUser env i r)"
| "auth_handle env (Delete_user i c) = answer (\<lambda>_. Done) (deleteUser env i c)"
| "auth_handle env List_users = answer Accounts (listUsers env)"

text \<open>A run: each request comes at a time of its own, in the order in which the service takes them.\<close>

definition auth_step :: "'r auth_env \<Rightarrow> int \<times> auth_request \<Rightarrow> 'r auth_state \<Rightarrow> auth_result \<times> 'r auth_state" where
  "auth_step env ev s = auth_handle env (snd ev) (s\<lparr>wa_now := fst ev\<rparr>)"

fun auth_run :: "'r auth_env \<Rightarrow> (int \<times> auth_request) list \<Rightarrow> 'r auth_state \<Rightarrow> auth_result list \<times> 'r auth_state" where
  "auth_run env [] s = ([], s)"
| "auth_run env (ev # evs) s =
     (let (r, s1) = auth_step env ev s; (rs, s2) = auth_run env evs s1 in (r # rs, s2))"

end
