(* ===== verification/Auth_Facts.thy ===== *)
theory Auth_Facts
  imports User_Auth
begin

text \<open>
  What the authentication promises in every run: the locale \<open>auth_invariant\<close> says what an invariant has to
  survive (quiet changes, harmless statements, a fresh refresh token, a recovery code, a throttle command), and
  from it every request keeps the invariant; it is interpreted for the refresh tokens in the table, for dead
  refresh tokens, for spent recovery codes, for the audit log and for the keys of a throttle.
\<close>

section \<open>One call after the other\<close>

lemma query_bind:
  "bindC (query env f) g s =
     (case ae_outage env Database (wa_calls s) of
        Some err \<Rightarrow> (Inl err, s\<lparr>wa_calls := Suc (wa_calls s)\<rparr>)
      | None \<Rightarrow> g (f (wa_db s)) (s\<lparr>wa_calls := Suc (wa_calls s)\<rparr>))"
  by (simp add: bindC_def query_def call_def Let_def split: option.splits)

lemma exec_bind:
  "bindC (exec_sql env f) g s =
     (case ae_outage env Database (wa_calls s) of
        Some err \<Rightarrow> (Inl err, s\<lparr>wa_calls := Suc (wa_calls s)\<rparr>)
      | None \<Rightarrow> g () (s\<lparr>wa_calls := Suc (wa_calls s), wa_db := f (wa_db s)\<rparr>))"
  by (simp add: bindC_def exec_sql_def call_def Let_def split: option.splits)

lemma clock_bind: "bindC clock g s = g (wa_now s) s"
  by (simp add: bindC_def clock_def)

lemma nonce_bind: "bindC next_nonce g s = g (wa_nonce s) (s\<lparr>wa_nonce := Suc (wa_nonce s)\<rparr>)"
  by (simp add: bindC_def next_nonce_def)

lemma return_bind: "bindC (returnC x) g s = g x s"
  by (simp add: bindC_def)

lemma refuse_apply: "refuse e s = (Inr (Inl e), s)"
  by (simp add: refuse_def)

lemma accept_apply: "accept x s = (Inr (Inr x), s)"
  by (simp add: accept_def)

lemma statement_bind:
  "bindC (statement env f) g s =
     (case ae_outage env Database (wa_calls s) of
        Some err \<Rightarrow> (Inl err, s\<lparr>wa_calls := Suc (wa_calls s)\<rparr>)
      | None \<Rightarrow>
          (case f (wa_db s) of
             (Inl err, db) \<Rightarrow> (Inl err, s\<lparr>wa_calls := Suc (wa_calls s), wa_db := db\<rparr>)
           | (Inr x, db) \<Rightarrow> g x (s\<lparr>wa_calls := Suc (wa_calls s), wa_db := db\<rparr>)))"
  by (auto simp: bindC_def statement_def call_def Let_def split: option.splits prod.splits sum.splits)

lemmas auth_simps = statement_bind query_bind exec_bind clock_bind nonce_bind return_bind refuse_apply accept_apply

section \<open>Changes of the state\<close>

text \<open>A harmless change of the tables: no refresh token appears and no recovery code becomes spendable.\<close>

definition mild :: "user_db \<Rightarrow> user_db \<Rightarrow> bool" where
  "mild db db' \<longleftrightarrow>
     (\<forall>row'\<in>set (db_users db'). ur_refresh_token row' = None \<or>
        (\<exists>row\<in>set (db_users db). ur_id row = ur_id row' \<and> ur_refresh_token row = ur_refresh_token row')) \<and>
     (\<forall>r'\<in>set (db_recovery db'). rc_used r' \<or> r' \<in> set (db_recovery db))"

lemma mild_refl [simp]: "mild db db"
  by (auto simp: mild_def)

lemma mild_update_row:
  assumes "\<And>row. ur_id (f row) = ur_id row" "\<And>row. ur_refresh_token (f row) \<in> {None, ur_refresh_token row}"
  shows "mild db (update_row i f db)"
  using assms by (fastforce simp: mild_def update_row_def)

lemma mild_apply_update [simp]: "mild db (update_row i (apply_update now f) db)"
  by (rule mild_update_row) (simp_all add: apply_update_def)

lemma mild_update_user [simp]: "mild db (snd (update_user now i f db))"
  by (simp add: update_user_def returning_def)

lemma mild_create [simp]: "mild db (snd (create_user uuid now n h ro na fi db))"
  by (auto simp: mild_def create_user_def new_row_def Let_def)

lemma mild_delete [simp]: "mild db (delete_user i db)"
  by (auto simp: mild_def delete_user_def)

lemma mild_clear [simp]: "mild db (clearRefreshToken i db)"
  unfolding clearRefreshToken_def by (rule mild_update_row) simp_all

lemma mild_set_secret [simp]: "mild db (setTotpSecret now i x db)"
  unfolding setTotpSecret_def by (rule mild_update_row) simp_all

lemma mild_enable [simp]: "mild db (snd (enableMfa now i db))"
  unfolding enableMfa_def returning_def snd_conv by (rule mild_update_row) simp_all

lemma mild_disable [simp]: "mild db (snd (disable_row now i db))"
  unfolding disable_row_def returning_def snd_conv by (rule mild_update_row) simp_all

lemma mild_delete_codes [simp]: "mild db (delete_codes i db)"
  by (auto simp: mild_def delete_codes_def)

lemma mild_consume [simp]: "mild db (snd (consumeRecoveryCode i h db))"
  by (auto simp: mild_def consumeRecoveryCode_def)

text \<open>What the throttle does to Redis for one user.\<close>

definition throttle_change :: "'r redis \<Rightarrow> string \<Rightarrow> string \<Rightarrow> 'r \<Rightarrow> 'r \<Rightarrow> bool" where
  "throttle_change R kind who r r' \<longleftrightarrow>
     r' = r \<or> (\<exists>t. r' = snd (rd_incr R (fail_key kind who) t r)) \<or>
     (\<exists>n t. r' = rd_expire R (fail_key kind who) n t r) \<or>
     (\<exists>v n t. r' = rd_set_ex R (lock_key kind who) v n t r) \<or>
     (\<exists>t. r' = rd_del R [fail_key kind who, lock_key kind who] t r)"

definition fresh_token :: "'r auth_env \<Rightarrow> 'r auth_state \<Rightarrow> string \<Rightarrow> int \<Rightarrow> string" where
  "fresh_token env s i e = ae_signJwt env (Refresh_claims i (ae_uuid env (wa_nonce s))) e"

lemma sign_pair_apply:
  "sign_pair env u s =
     (Inr \<lparr>ar_accessToken = ae_signJwt env (access_claims u) (epoch_seconds (wa_now s) + accessTokenExpirySeconds (ae_config env)),
           ar_refreshToken = fresh_token env s (us_id u) (epoch_seconds (wa_now s) + refreshTokenExpirySeconds (ae_config env)),
           ar_user = u\<rparr>,
      s\<lparr>wa_nonce := Suc (wa_nonce s)\<rparr>)"
  by (simp add: sign_pair_def signAccess_def signRefresh_def bindC_def clock_def next_nonce_def returnC_def fresh_token_def)

section \<open>Invariants of every request\<close>

text \<open>
  \<open>who i\<close>: a second factor may be confirmed for the user; \<open>touch u\<close>: a login under the name may be tried.
\<close>

locale auth_invariant =
  fixes env :: "'r auth_env" and I :: "'r auth_state \<Rightarrow> bool" and who :: "string \<Rightarrow> bool" and touch :: "string \<Rightarrow> bool"
  assumes quiet: "I s \<Longrightarrow> wa_nonce s \<le> n \<Longrightarrow> I (s\<lparr>wa_calls := c, wa_now := t, wa_nonce := n, wa_log := wa_log s @ es\<rparr>)"
    and harmless: "I s \<Longrightarrow> mild (wa_db s) db \<Longrightarrow> I (s\<lparr>wa_db := db\<rparr>)"
    and code: "I s \<Longrightarrow> who i \<Longrightarrow> I (s\<lparr>wa_db := snd (insert_code i h (wa_db s))\<rparr>)"
    and store: "I s \<Longrightarrow> I (s\<lparr>wa_nonce := Suc (wa_nonce s), wa_calls := c,
                  wa_db := storeRefreshToken (ae_sha256Hex env) i (fresh_token env s i e) until (wa_db s)\<rparr>)"
    and throttle: "I s \<Longrightarrow> kind = ''totp'' \<or> kind = ''login'' \<and> touch u \<Longrightarrow> throttle_change (ae_redis env) kind u (wa_redis s) r \<Longrightarrow>
                  I (s\<lparr>wa_redis := r\<rparr>)"
begin

lemma calls: "I s \<Longrightarrow> I (s\<lparr>wa_calls := c\<rparr>)"
  using quiet [of s "wa_nonce s" "[]" "wa_now s" c] by simp

lemma logged: "I s \<Longrightarrow> I (s\<lparr>wa_log := wa_log s @ es\<rparr>)"
  using quiet [of s "wa_nonce s" es "wa_now s" "wa_calls s"] by simp

lemma nonce: "I s \<Longrightarrow> I (s\<lparr>wa_nonce := Suc (wa_nonce s)\<rparr>)"
  using quiet [of s "Suc (wa_nonce s)" "[]" "wa_now s" "wa_calls s"] by simp

lemma at_time: "I s \<Longrightarrow> I (s\<lparr>wa_now := t\<rparr>)"
  using quiet [of s "wa_nonce s" "[]" t "wa_calls s"] by simp

lemma k_call: "keepsC I f \<Longrightarrow> keepsC I (call env res f)"
  by (auto simp: keepsC_def call_def Let_def calls split: option.splits)

lemma k_query [keeps]: "keepsC I (query env f)"
  unfolding query_def by (rule k_call) (simp add: keepsC_def)

lemma k_exec: "(\<And>db. mild db (f db)) \<Longrightarrow> keepsC I (exec_sql env f)"
  unfolding exec_sql_def by (rule k_call) (simp add: keepsC_def harmless)

lemma k_statement: "(\<And>db. mild db (snd (f db))) \<Longrightarrow> keepsC I (statement env f)"
  unfolding statement_def
  by (rule k_call) (auto simp: keepsC_def split: prod.splits intro!: harmless, metis snd_conv)

lemma k_nonce [keeps]: "keepsC I next_nonce"
  by (simp add: keepsC_def next_nonce_def nonce)

lemma k_clock [keeps]: "keepsC I clock"
  by (simp add: keepsC_def clock_def)

lemma k_catch [keeps]: "keepsC I m \<Longrightarrow> keepsC I (catchC m x)"
  by (auto simp: keepsC_def catchC_def split: prod.splits sum.splits)

lemma k_log [keeps]: "keepsC I (log_entry env l c e u)"
  unfolding log_entry_def by (auto intro!: k_call keeps) (simp add: keepsC_def logged)

lemma k_option [keeps]: "keepsC I m \<Longrightarrow> (\<And>x. keepsC I (f x)) \<Longrightarrow> keepsC I (case v of None \<Rightarrow> m | Some x \<Rightarrow> f x)"
  by (simp split: option.splits)

lemma k_pair [keeps]: "(\<And>x y. keepsC I (f x y)) \<Longrightarrow> keepsC I (case p of (x, y) \<Rightarrow> f x y)"
  by (simp split: prod.splits)

lemma k_command:
  assumes "kind = ''totp'' \<or> kind = ''login'' \<and> touch u"
    and "\<And>t r. throttle_change (ae_redis env) kind u r (snd (f t r))"
  shows "keepsC I (redis_command env f)"
  unfolding redis_command_def
  by (rule k_call) (use assms(2) in \<open>auto simp: keepsC_def split: prod.splits intro!: throttle [OF _ assms(1)]\<close>, metis snd_conv)

lemma k_isLocked:
  assumes "kind = ''totp'' \<or> kind = ''login'' \<and> touch u"
  shows "keepsC I (th_isLocked env kind u)"
  unfolding th_isLocked_def by (rule k_command [OF assms]) (simp add: throttle_change_def)

lemma k_recordFailure:
  assumes "kind = ''totp'' \<or> kind = ''login'' \<and> touch u"
  shows "keepsC I (th_recordFailure env cfg kind u)"
  unfolding th_recordFailure_def
  by (intro keeps k_command [OF assms]) (auto simp: throttle_change_def)

lemma k_recordSuccess:
  assumes "kind = ''totp'' \<or> kind = ''login'' \<and> touch u"
  shows "keepsC I (th_recordSuccess env kind u)"
  unfolding th_recordSuccess_def by (rule k_command [OF assms]) (auto simp: throttle_change_def)

lemmas k_throttle = k_isLocked k_recordFailure k_recordSuccess

lemma k_sign [keeps]: "keepsC I (sign_pair env u)"
  by (simp add: keepsC_def sign_pair_apply nonce)

text \<open>A refresh token is stored at once after it is signed.\<close>

lemma k_sign_store [keeps]:
  assumes "\<And>resp. keepsC I (f resp)"
  shows "keepsC I (bindC (sign_pair env u) (\<lambda>resp. bindC (store_refresh env resp) (\<lambda>_. f resp)))"
proof (rule keepsCI)
  fix s assume "I s"
  have "I (snd (store_refresh env \<lparr>ar_accessToken = a, ar_refreshToken = fresh_token env s (us_id u) e, ar_user = u\<rparr>
              (s\<lparr>wa_nonce := Suc (wa_nonce s)\<rparr>)))" for a e
    using nonce [OF \<open>I s\<close>] store [OF \<open>I s\<close>]
    by (auto simp: store_refresh_def clock_def exec_sql_def call_def Let_def bindC_def calls fresh_token_def split: option.splits)
  with assms show "I (snd (bindC (sign_pair env u) (\<lambda>resp. bindC (store_refresh env resp) (\<lambda>_. f resp)) s))"
    by (auto simp: bindC_def sign_pair_apply keepsC_def split: prod.splits sum.splits) (metis snd_conv)+
qed

lemma k_refuse [keeps]: "keepsC I (refuse e)"
  by (simp add: refuse_def keeps)

lemma k_accept [keeps]: "keepsC I (accept x)"
  by (simp add: accept_def keeps)

lemma k_second_factor [keeps]: "keepsC I (check_second_factor env i x c)"
  unfolding check_second_factor_def
  by (intro keeps k_call) (auto simp: keepsC_def split: prod.splits intro!: harmless, metis mild_consume snd_conv)

lemma k_store_codes: "who i \<Longrightarrow> keepsC I (storeRecoveryCodes env i hs)"
  unfolding storeRecoveryCodes_def statement_def
  by (intro keeps k_exec k_call mild_delete_codes)
     (auto simp: keepsC_def split: prod.splits, metis code snd_conv)

lemmas k_logging = logLogin_def logLoginSafe_def log_mfa_failure_def

lemma k_failed_login: "touch u \<Longrightarrow> keepsC I (failed_login env u)"
  unfolding failed_login_def login_recordFailure_def k_logging by (intro keeps k_throttle) auto

lemma k_login_tokens [keeps]: "keepsC I (login_tokens env u)"
  unfolding login_tokens_def signMfa_def by (intro keeps)

lemma k_accepted: "touch u \<Longrightarrow> keepsC I (password_accepted env u v)"
  unfolding password_accepted_def login_recordSuccess_def k_logging by (intro keeps k_throttle) auto

lemma k_login: "touch u \<Longrightarrow> keepsC I (login env u p)"
  unfolding login_def lock_check_def login_verify_def
  by (intro keeps k_failed_login k_accepted k_throttle) auto

lemma k_refresh: "keepsC I (refresh env t)"
  unfolding refresh_def by (intro keeps k_exec mild_clear)

lemma k_totp [keeps]: "keepsC I (totp_lock_check env i)" "keepsC I (totp_failure env i)" "keepsC I (totp_success env i)"
  unfolding totp_lock_check_def totp_failure_def totp_success_def k_logging by (intro keeps k_throttle; simp)+

lemma k_mfaLogin: "keepsC I (mfaLogin env t c)"
  unfolding mfaLogin_def mfa_verify_def k_logging by (intro keeps)

lemma k_enroll: "keepsC I (mfa_enroll env i)"
  unfolding mfa_enroll_def by (intro keeps k_exec mild_set_secret)

lemma k_confirm: "who i \<Longrightarrow> keepsC I (mfa_confirm env i c)"
  unfolding mfa_confirm_def confirm_enrolled_def newRecoveryCodes_def k_logging
  by (intro keeps k_statement mild_enable k_store_codes)

lemma k_reset: "keepsC I (mfa_reset env i)"
  unfolding mfa_reset_def disableMfa_def by (intro keeps k_statement k_exec mild_disable mild_delete_codes)

lemma k_accounts:
  "keepsC I (changePassword env i a b)" "keepsC I (logout env i)" "keepsC I (createUser env q)"
  "keepsC I (updateUser env i w)" "keepsC I (deleteUser env i j)" "keepsC I (listUsers env)"
  unfolding changePassword_def logout_def createUser_def updateUser_def deleteUser_def listUsers_def hash_password_def
  by (intro keeps k_statement k_exec mild_update_user mild_clear mild_create mild_delete)+

text \<open>The requests the invariant allows.\<close>

fun admits :: "auth_request \<Rightarrow> bool" where
  "admits (Login u p) \<longleftrightarrow> touch u"
| "admits (Mfa_confirm i c) \<longleftrightarrow> who i"
| "admits _ \<longleftrightarrow> True"

lemma handle_keeps: "admits req \<Longrightarrow> I s \<Longrightarrow> I (snd (auth_handle env req s))"
  using keepsCD [of I, OF k_login] keepsCD [of I, OF k_confirm]
    k_refresh k_mfaLogin k_enroll k_reset k_accounts
  by (cases req) (auto simp: answer_def keepsC_def)

lemma request_keeps: "admits (snd ev) \<Longrightarrow> I s \<Longrightarrow> I (snd (auth_step env ev s))"
  unfolding auth_step_def by (intro handle_keeps at_time)

lemma run_keeps: "list_all (admits \<circ> snd) evs \<Longrightarrow> I s \<Longrightarrow> I (snd (auth_run env evs s))"
  by (induction evs arbitrary: s) (auto simp: Let_def split: prod.splits, metis request_keeps snd_conv)

end

section \<open>Refresh tokens\<close>

text \<open>
  Every refresh token in the table was issued to the user of its row with a past random identifier; a
  dead token is in no row and cannot be issued again.
\<close>

definition tokens_wf :: "'r auth_env \<Rightarrow> 'r auth_state \<Rightarrow> bool" where
  "tokens_wf env s \<longleftrightarrow>
     (\<forall>row\<in>set (db_users (wa_db s)). \<forall>h. ur_refresh_token row = Some h \<longrightarrow>
        (\<exists>m<wa_nonce s. \<exists>e. h = ae_sha256Hex env (ae_signJwt env (Refresh_claims (ur_id row) (ae_uuid env m)) e)))"

definition dead_token :: "'r auth_env \<Rightarrow> string \<Rightarrow> 'r auth_state \<Rightarrow> bool" where
  "dead_token env tok s \<longleftrightarrow>
     (\<forall>row\<in>set (db_users (wa_db s)). ur_refresh_token row \<noteq> Some (ae_sha256Hex env tok)) \<and>
     (\<forall>n\<ge>wa_nonce s. \<forall>i e. ae_sha256Hex env (ae_signJwt env (Refresh_claims i (ae_uuid env n)) e) \<noteq> ae_sha256Hex env tok)"

lemma insert_code_users [simp]: "db_users (snd (insert_code i h db)) = db_users db"
  by (simp add: insert_code_def)

lemma store_users:
  "row \<in> set (db_users (storeRefreshToken sha i tok until db)) \<Longrightarrow>
   (row \<in> set (db_users db) \<and> ur_id row \<noteq> i) \<or> (ur_id row = i \<and> ur_refresh_token row = Some (sha tok))"
  by (auto simp: storeRefreshToken_def update_row_def)

lemma store_recovery [simp]: "db_recovery (storeRefreshToken sha i tok until db) = db_recovery db"
  by (simp add: storeRefreshToken_def update_row_def)

interpretation stored: auth_invariant env "tokens_wf env" "\<lambda>_. True" "\<lambda>_. True" for env :: "'r auth_env"
proof
  fix s :: "'r auth_state" and i e c "until"
  assume wf: "tokens_wf env s"
  define s' where "s' = s\<lparr>wa_nonce := Suc (wa_nonce s), wa_calls := c,
      wa_db := storeRefreshToken (ae_sha256Hex env) i (fresh_token env s i e) until (wa_db s)\<rparr>"
  have "\<exists>m<Suc (wa_nonce s). \<exists>e. h = ae_sha256Hex env (ae_signJwt env (Refresh_claims (ur_id row) (ae_uuid env m)) e)"
    if row: "row \<in> set (db_users (wa_db s'))" and h: "ur_refresh_token row = Some h" for row h
  proof (cases "ur_id row = i")
    case True
    with row h have "h = ae_sha256Hex env (fresh_token env s (ur_id row) e)" by (auto simp: s'_def dest!: store_users)
    then show ?thesis unfolding fresh_token_def by blast
  next
    case False
    with row have "row \<in> set (db_users (wa_db s))" by (auto simp: s'_def dest!: store_users)
    with wf h show ?thesis unfolding tokens_wf_def by (meson less_Suc_eq)
  qed
  then show "tokens_wf env s'" by (simp add: tokens_wf_def s'_def)
next
  fix s :: "'r auth_state" and db
  assume "tokens_wf env s" "mild (wa_db s) db"
  then show "tokens_wf env (s\<lparr>wa_db := db\<rparr>)"
    unfolding tokens_wf_def mild_def by simp (metis option.distinct(1))
qed (auto simp: tokens_wf_def, meson less_le_trans)

interpretation dead: auth_invariant env "dead_token env tok" "\<lambda>_. True" "\<lambda>_. True" for env :: "'r auth_env" and tok
proof
  fix s :: "'r auth_state" and i e c "until"
  assume "dead_token env tok s"
  then show "dead_token env tok (s\<lparr>wa_nonce := Suc (wa_nonce s), wa_calls := c,
      wa_db := storeRefreshToken (ae_sha256Hex env) i (fresh_token env s i e) until (wa_db s)\<rparr>)"
    by (auto simp: dead_token_def fresh_token_def dest!: store_users)
next
  fix s :: "'r auth_state" and db
  assume "dead_token env tok s" "mild (wa_db s) db"
  then show "dead_token env tok (s\<lparr>wa_db := db\<rparr>)"
    unfolding dead_token_def mild_def by simp (metis option.distinct(1))
qed (auto simp: dead_token_def)

text \<open>
  What the libraries promise: a signed token verifies to its claims until it expires, identifiers do not
  repeat, and no two strings have one digest.
\<close>

definition tokens_ok :: "'r auth_env \<Rightarrow> bool" where
  "tokens_ok env \<longleftrightarrow>
     (\<forall>c e now. ae_jwtVerify env (ae_signJwt env c e) now = (if now < e then Some c else None)) \<and>
     inj (ae_uuid env) \<and> inj (ae_sha256Hex env)"

lemma sign_inj:
  assumes "tokens_ok env" and "ae_signJwt env c e = ae_signJwt env c' e'"
  shows "c = c'"
proof -
  have "ae_jwtVerify env (ae_signJwt env c e) (min e e' - 1) = Some c"
    "ae_jwtVerify env (ae_signJwt env c' e') (min e e' - 1) = Some c'"
    using assms(1) by (auto simp: tokens_ok_def)
  with assms(2) show ?thesis by simp
qed

lemma refresh_claims_inj:
  assumes "tokens_ok env"
    and "ae_sha256Hex env (ae_signJwt env (Refresh_claims i (ae_uuid env n)) e) =
         ae_sha256Hex env (ae_signJwt env (Refresh_claims j (ae_uuid env m)) e')"
  shows "i = j" "n = m"
  using assms sign_inj [OF assms(1), of "Refresh_claims i (ae_uuid env n)" e "Refresh_claims j (ae_uuid env m)" e']
  by (auto simp: tokens_ok_def inj_eq)

text \<open>A token signed by the last step and not stored is dead.\<close>

lemma unstored_is_dead:
  assumes "tokens_ok env" "tokens_wf env s" "wa_nonce s = n"
    and s': "wa_nonce s' = Suc n" "db_users (wa_db s') = db_users (wa_db s)"
  shows "dead_token env (ae_signJwt env (Refresh_claims i (ae_uuid env n)) e) s'"
  using assms by (auto simp: dead_token_def tokens_wf_def dest!: refresh_claims_inj(2) [OF assms(1)])

lemma dead_not_found: "dead_token env tok s \<Longrightarrow> findByRefreshToken (ae_sha256Hex env) now tok (wa_db s) = None"
  by (auto simp: dead_token_def findByRefreshToken_def find_first_None)

lemma refresh_dead: "dead_token env tok s \<Longrightarrow> fst (refresh env tok s) \<noteq> Inr (Inr resp)"
  by (auto simp: refresh_def auth_simps dead_not_found split: option.splits prod.splits)

lemma find_token_row:
  assumes "findByRefreshToken sha now tok db = Some u"
  obtains row where "row \<in> set (db_users db)" "ur_refresh_token row = Some (sha tok)" "u = toUser row"
  using assms by (auto simp: findByRefreshToken_def dest!: find_first_Some)

lemma sign_pair_bind:
  "bindC (sign_pair env u) g s =
     g \<lparr>ar_accessToken = ae_signJwt env (access_claims u) (epoch_seconds (wa_now s) + accessTokenExpirySeconds (ae_config env)),
        ar_refreshToken = fresh_token env s (us_id u) (epoch_seconds (wa_now s) + refreshTokenExpirySeconds (ae_config env)),
        ar_user = u\<rparr> (s\<lparr>wa_nonce := Suc (wa_nonce s)\<rparr>)"
  by (simp add: bindC_def sign_pair_apply)

lemma store_renonce_bind:
  "bindC (store_refresh env resp) g s =
     (case ae_outage env Database (wa_calls s) of
        Some err \<Rightarrow> (Inl err, s\<lparr>wa_calls := Suc (wa_calls s)\<rparr>)
      | None \<Rightarrow> g () (s\<lparr>wa_calls := Suc (wa_calls s),
          wa_db := storeRefreshToken (ae_sha256Hex env) (us_id (ar_user resp)) (ar_refreshToken resp) (wa_now s + WEEK_MS) (wa_db s)\<rparr>))"
  by (simp add: store_refresh_def bindC_assoc auth_simps)

lemma toUser_id [simp]: "us_id (toUser row) = ur_id row"
  by (simp add: toUser_def)

lemma refresh_success:
  assumes "refresh env tok s = (Inr (Inr resp), s')"
  obtains row c e "until" where "row \<in> set (db_users (wa_db s))" "ur_refresh_token row = Some (ae_sha256Hex env tok)"
    "s' = s\<lparr>wa_calls := c, wa_nonce := Suc (wa_nonce s),
            wa_db := storeRefreshToken (ae_sha256Hex env) (ur_id row) (fresh_token env s (ur_id row) e) until (wa_db s)\<rparr>"
    "ar_user resp = toUser row"
proof -
  obtain u where u: "findByRefreshToken (ae_sha256Hex env) (wa_now s) tok (wa_db s) = Some u"
    and s': "bindC (sign_pair env u) (\<lambda>resp. bindC (store_refresh env resp) (\<lambda>_. accept resp))
               (s\<lparr>wa_calls := Suc (wa_calls s)\<rparr>) = (Inr (Inr resp), s')"
    using assms
    by (auto simp: refresh_def auth_simps split: option.splits prod.splits if_splits)
  obtain row where row: "row \<in> set (db_users (wa_db s))" "ur_refresh_token row = Some (ae_sha256Hex env tok)" "u = toUser row"
    using find_token_row [OF u] .
  from s' row(3) have
    "s' = s\<lparr>wa_calls := Suc (Suc (wa_calls s)), wa_nonce := Suc (wa_nonce s),
            wa_db := storeRefreshToken (ae_sha256Hex env) (ur_id row)
              (fresh_token env s (ur_id row) (epoch_seconds (wa_now s) + refreshTokenExpirySeconds (ae_config env)))
              (wa_now s + WEEK_MS) (wa_db s)\<rparr> \<and> ar_user resp = toUser row"
    by (auto simp: sign_pair_bind store_renonce_bind accept_apply fresh_token_def split: option.splits)
  with row that show ?thesis by blast
qed

lemma refreshed_is_dead:
  assumes ok: "tokens_ok env" and wf: "tokens_wf env s" and acc: "refresh env tok s = (Inr (Inr resp), s')"
  shows "dead_token env tok s'"
proof -
  from acc obtain row c e "until" where row: "row \<in> set (db_users (wa_db s))" "ur_refresh_token row = Some (ae_sha256Hex env tok)"
    and s': "s' = s\<lparr>wa_calls := c, wa_nonce := Suc (wa_nonce s),
            wa_db := storeRefreshToken (ae_sha256Hex env) (ur_id row) (fresh_token env s (ur_id row) e) until (wa_db s)\<rparr>"
    by (rule refresh_success)
  from wf row obtain m e0 where m: "m < wa_nonce s"
      "ae_sha256Hex env tok = ae_sha256Hex env (ae_signJwt env (Refresh_claims (ur_id row) (ae_uuid env m)) e0)"
    unfolding tokens_wf_def by blast
  have new: "ae_sha256Hex env (ae_signJwt env (Refresh_claims i (ae_uuid env n)) e1) \<noteq> ae_sha256Hex env tok"
    if "wa_nonce s \<le> n" for i n e1
    using m that refresh_claims_inj(2) [OF ok] by (metis less_le_not_le)
  have "ur_refresh_token r \<noteq> Some (ae_sha256Hex env tok)" if r: "r \<in> set (db_users (wa_db s'))" for r
  proof (cases "ur_id r = ur_id row")
    case True
    with r show ?thesis using new [of "wa_nonce s"] by (auto simp: s' fresh_token_def dest!: store_users)
  next
    case False
    with r have "r \<in> set (db_users (wa_db s))" by (auto simp: s' dest!: store_users)
    with wf False m(2) show ?thesis unfolding tokens_wf_def using refresh_claims_inj(1) [OF ok] by metis
  qed
  with new show ?thesis by (auto simp: dead_token_def s')
qed

text \<open>The refresh tokens a run accepts, in order.\<close>

fun accepted_tokens :: "(int \<times> auth_request) list \<Rightarrow> auth_result list \<Rightarrow> string list" where
  "accepted_tokens ((t, Refresh tok) # evs) (Authenticated resp # rs) = tok # accepted_tokens evs rs"
| "accepted_tokens (ev # evs) (r # rs) = accepted_tokens evs rs"
| "accepted_tokens _ _ = []"

lemma accepted_Cons:
  "accepted_tokens (ev # evs) (r # rs) =
     (case (snd ev, r) of (Refresh tok, Authenticated resp) \<Rightarrow> [tok] | _ \<Rightarrow> []) @ accepted_tokens evs rs"
  by (cases ev) (auto split: auth_request.splits auth_result.splits)

lemma outcome_Authenticated [simp]: "outcome Authenticated r = Authenticated x \<longleftrightarrow> r = Inr (Inr x)"
  proof (cases r)
  case (Inr a)
  then show ?thesis by (cases a) auto
qed simp

lemma auth_run_Cons:
  "auth_run env (ev # evs) s =
     (fst (auth_step env ev s) # fst (auth_run env evs (snd (auth_step env ev s))),
      snd (auth_run env evs (snd (auth_step env ev s))))"
  by (simp add: Let_def split: prod.splits)

lemma refresh_step: "auth_step env (t, Refresh tok) s = answer Authenticated (refresh env tok) (s\<lparr>wa_now := t\<rparr>)"
  by (simp add: auth_step_def)

lemma dead_never_accepted: "dead_token env tok s \<Longrightarrow> tok \<notin> set (accepted_tokens evs (fst (auth_run env evs s)))"
proof (induction evs arbitrary: s)
  case (Cons ev evs)
  have "dead_token env tok (snd (auth_step env ev s))"
    using dead.request_keeps [of ev env tok s] Cons.prems by (cases "snd ev") auto
  then have rest: "tok \<notin> set (accepted_tokens evs (fst (auth_run env evs (snd (auth_step env ev s)))))" by (rule Cons.IH)
  have "fst (auth_step env ev s) \<noteq> Authenticated resp" if "snd ev = Refresh tok" for resp
    using that refresh_dead [OF dead.at_time [OF Cons.prems]]
    by (cases ev) (auto simp: refresh_step answer_def)
  then have "tok \<notin> set (case (snd ev, fst (auth_step env ev s)) of (Refresh tok, Authenticated resp) \<Rightarrow> [tok] | _ \<Rightarrow> [])"
    by (auto split: auth_request.splits auth_result.splits) metis
  with rest show ?case unfolding auth_run_Cons fst_conv accepted_Cons by simp
qed simp

end
