(* ===== verification/Auth_Demo.thy ===== *)
theory Auth_Demo
  imports Auth_Facts
begin

text \<open>
  A concrete environment for the authentication: tokens that carry their claims in a self-delimiting code, a
  Redis that is the map of its keys, and the identity as digest.
\<close>

section \<open>Self-delimiting strings\<close>

fun put_text :: "string \<Rightarrow> string" where
  "put_text [] = ''.''"
| "put_text (c # cs) = CHR ''-'' # c # put_text cs"

fun get_text :: "string \<Rightarrow> string \<times> string" where
  "get_text (a # c # s) = (if a = CHR ''.'' then ([], c # s) else (let (x, r) = get_text s in (c # x, r)))"
| "get_text [a] = ([], [])"
| "get_text [] = ([], [])"

lemma put_text_nonempty [simp]: "put_text x \<noteq> []"
  by (cases x) auto

lemma get_put_text: "get_text (put_text x @ r) = (x, r)"
proof (induction x)
  case Nil
  then show ?case by (cases r) auto
qed simp

definition put_texts :: "string list \<Rightarrow> string" where
  "put_texts xs = concat (map put_text xs)"

fun get_texts :: "nat \<Rightarrow> string \<Rightarrow> string list" where
  "get_texts 0 s = []"
| "get_texts (Suc n) s = (if s = [] then [] else (let (x, r) = get_text s in x # get_texts n r))"

lemma get_put_texts: "length xs \<le> n \<Longrightarrow> get_texts n (put_texts xs) = xs"
proof (induction xs arbitrary: n)
  case Nil
  then show ?case by (cases n) (auto simp: put_texts_def)
next
  case (Cons x xs)
  then show ?case by (cases n) (auto simp: put_texts_def get_put_text)
qed

lemma put_texts_length: "length xs \<le> length (put_texts xs)"
proof (induction xs)
  case (Cons x xs)
  have "1 \<le> length (put_text x)" by (cases x) auto
  then show ?case using Cons by (simp add: put_texts_def)
qed (simp add: put_texts_def)

definition split_texts :: "string \<Rightarrow> string list" where
  "split_texts s = get_texts (length s) s"

lemma split_texts_inv [simp]: "split_texts (put_texts xs) = xs"
  by (simp add: split_texts_def get_put_texts put_texts_length)

section \<open>Tokens\<close>

fun role_text :: "role \<Rightarrow> string" where
  "role_text Role_admin = ''admin''"
| "role_text Role_teknik = ''teknik''"
| "role_text Role_guest = ''guest''"
| "role_text Role_boss = ''boss''"
| "role_text Role_developer = ''developer''"
| "role_text (Role_other s) = CHR ''?'' # s"

definition text_role :: "string \<Rightarrow> role" where
  "text_role s =
     (if s = ''admin'' then Role_admin else if s = ''teknik'' then Role_teknik else if s = ''guest'' then Role_guest
      else if s = ''boss'' then Role_boss else if s = ''developer'' then Role_developer else Role_other (tl s))"

lemma text_role_inv [simp]: "text_role (role_text r) = r"
  by (cases r) (simp_all add: text_role_def)

fun flag_text :: "bool option \<Rightarrow> string" where
  "flag_text None = []"
| "flag_text (Some b) = (if b then ''1'' else ''0'')"

definition text_flag :: "string \<Rightarrow> bool option" where
  "text_flag s = (if s = [] then None else Some (s = ''1''))"

lemma text_flag_inv [simp]: "text_flag (flag_text b) = b"
  by (cases b) (auto simp: text_flag_def)

fun list_text :: "string list option \<Rightarrow> string" where
  "list_text None = []"
| "list_text (Some xs) = CHR ''l'' # put_texts xs"

definition text_list :: "string \<Rightarrow> string list option" where
  "text_list s = (if s = [] then None else Some (split_texts (tl s)))"

lemma text_list_inv [simp]: "text_list (list_text xs) = xs"
  by (cases xs) (auto simp: text_list_def)

fun bin_text :: "nat \<Rightarrow> string" where
  "bin_text n = (if n = 0 then [] else (if odd n then CHR ''1'' else CHR ''0'') # bin_text (n div 2))"

declare bin_text.simps [simp del]

fun text_bin :: "string \<Rightarrow> nat" where
  "text_bin [] = 0"
| "text_bin (c # cs) = (if c = CHR ''1'' then 1 else 0) + 2 * text_bin cs"

lemma text_bin_inv [simp]: "text_bin (bin_text n) = n"
proof (induction n rule: bin_text.induct)
  case (1 n)
  then show ?case by (subst bin_text.simps) (auto simp: odd_two_times_div_two_succ)
qed

definition int_text :: "int \<Rightarrow> string" where
  "int_text e = (if e < 0 then CHR ''n'' # bin_text (nat (- e)) else CHR ''p'' # bin_text (nat e))"

definition text_int :: "string \<Rightarrow> int" where
  "text_int s = (if hd s = CHR ''n'' then - int (text_bin (tl s)) else int (text_bin (tl s)))"

lemma text_int_inv [simp]: "text_int (int_text e) = e"
  by (simp add: text_int_def int_text_def)

fun claim_fields :: "jwt_claims \<Rightarrow> string list" where
  "claim_fields (Access_claims sub un ro na fi mu mf) =
     [''access'', sub, un, role_text ro, na, list_text fi, flag_text mu, flag_text mf]"
| "claim_fields (Refresh_claims sub jti) = [''refresh'', sub, jti]"
| "claim_fields (Mfa_claims sub) = [''mfa'', sub]"
| "claim_fields (Session_claims tag p) = [''session'', tag, tp_sessionId p, tp_sub p, tp_username p, tp_role p]"

fun field_claims :: "string list \<Rightarrow> jwt_claims option" where
  "field_claims [k, sub, un, ro, na, fi, mu, mf] =
     Some (Access_claims sub un (text_role ro) na (text_list fi) (text_flag mu) (text_flag mf))"
| "field_claims [k, sub, jti] = Some (Refresh_claims sub jti)"
| "field_claims [k, sub] = Some (Mfa_claims sub)"
| "field_claims [k, tag, sid, sub, un, ro] =
     Some (Session_claims tag \<lparr>tp_sessionId = sid, tp_sub = sub, tp_username = un, tp_role = ro\<rparr>)"
| "field_claims _ = None"

lemma field_claims_inv [simp]: "field_claims (claim_fields c) = Some c"
  by (cases c) simp_all

definition demo_sign :: "jwt_claims \<Rightarrow> int \<Rightarrow> string" where
  "demo_sign c e = put_texts (int_text e # claim_fields c)"

definition demo_verify :: "string \<Rightarrow> int \<Rightarrow> jwt_claims option" where
  "demo_verify tok now =
     (case split_texts tok of
        [] \<Rightarrow> None
      | e # fs \<Rightarrow> if now < text_int e then field_claims fs else None)"

lemma demo_verify_inv: "demo_verify (demo_sign c e) now = (if now < e then Some c else None)"
  by (simp add: demo_verify_def demo_sign_def)

section \<open>Redis\<close>

type_synonym demo_store = "string \<Rightarrow> (redis_value \<times> int option) option"

definition demo_incr :: "string \<Rightarrow> int \<Rightarrow> demo_store \<Rightarrow> nat \<times> demo_store" where
  "demo_incr k t r =
     (case live_key t (r k) of
        None \<Rightarrow> (1, r(k \<mapsto> (Count 1, None)))
      | Some (Count n, e) \<Rightarrow> (Suc n, r(k \<mapsto> (Count (Suc n), e)))
      | Some (Text x, e) \<Rightarrow> (0, r))"

definition demo_redis :: "demo_store redis" where
  "demo_redis =
     \<lparr>rd_look = (\<lambda>r. r),
      rd_get = (\<lambda>k t r. map_option fst (live_key t (r k))),
      rd_incr = demo_incr,
      rd_expire = (\<lambda>k n t r. case live_key t (r k) of None \<Rightarrow> r | Some (v, e) \<Rightarrow> r(k \<mapsto> (v, Some (t + int n * 1000)))),
      rd_set_ex = (\<lambda>k v n t r. r(k \<mapsto> (v, Some (t + int n * 1000)))),
      rd_del = (\<lambda>ks t r k. if k \<in> set ks then None else r k)\<rparr>"

lemma demo_redis_ok: "redis_ok demo_redis"
  unfolding redis_ok_def
proof (intro conjI)
  show "incr_law demo_redis"
    by (auto simp: incr_law_def demo_redis_def demo_incr_def split: option.splits prod.splits redis_value.splits)
       (metis fun_upd_triv)
qed (simp_all add: get_law_def expire_law_def set_law_def del_law_def demo_redis_def split: option.splits)

section \<open>The environment\<close>

definition demo_auth :: "demo_store auth_env" where
  "demo_auth =
     \<lparr>ae_config = \<lparr>accessTokenExpirySeconds = 900, refreshTokenExpirySeconds = 604800, mfaTokenExpirySeconds = 300\<rparr>,
      ae_redis = demo_redis, ae_outage = (\<lambda>_ _. None),
      ae_loginThrottle = Some \<lparr>th_maxFailures = 2, th_windowSeconds = 900, th_lockSeconds = 900\<rparr>,
      ae_totpThrottle = Some \<lparr>th_maxFailures = 2, th_windowSeconds = 900, th_lockSeconds = 900\<rparr>,
      ae_audited = True,
      ae_uuid = (\<lambda>n. replicate n CHR ''u''),
      ae_random = (\<lambda>n. [of_nat n, 0, 0, 0, 0]),
      ae_sha256Hex = (\<lambda>x. x),
      ae_hashPassword = (\<lambda>p n. CHR ''h'' # p),
      ae_verifyPassword = (\<lambda>p h. Some (h = CHR ''h'' # p)),
      ae_generateSecret = (\<lambda>n. CHR ''s'' # bin_text n),
      ae_keyuri = (\<lambda>x u. u @ x),
      ae_checkCode = (\<lambda>now x c. Some (c = ''123456'')),
      ae_signJwt = demo_sign, ae_jwtVerify = demo_verify\<rparr>"

lemma demo_tokens_ok: "tokens_ok demo_auth"
  by (simp add: tokens_ok_def demo_auth_def demo_verify_inv inj_def)

definition demo_user_row :: "string \<Rightarrow> string \<Rightarrow> string option \<Rightarrow> bool \<Rightarrow> user_row" where
  "demo_user_row i n x mfa =
     \<lparr>ur_id = i, ur_username = n, ur_password_hash = ''hpw'', ur_role = Role_teknik, ur_name = n, ur_field_ids = None,
      ur_must_change_password = Some False, ur_totp_secret = x, ur_mfa_enabled = Some mfa, ur_refresh_token = None,
      ur_refresh_token_expires_at = None, ur_created_at = 0, ur_updated_at = 0\<rparr>"

definition demo_state :: "demo_store auth_state" where
  "demo_state =
     \<lparr>wa_db = \<lparr>db_users = [demo_user_row ''1'' ''ada'' None False, demo_user_row ''2'' ''bob'' (Some ''x'') True],
               db_recovery = [\<lparr>rc_user_id = ''2'', rc_code_hash = ''ABCDE-FGHIJ'', rc_used = False\<rparr>]\<rparr>,
      wa_redis = (\<lambda>_. None), wa_log = [], wa_nonce = 0, wa_calls = 0, wa_now = 0\<rparr>"

lemma demo_tokens_wf: "tokens_wf demo_auth demo_state"
  by (auto simp: tokens_wf_def demo_state_def demo_user_row_def)

lemma demo_sign_eq [simp]: "demo_sign c e = demo_sign c' e' \<longleftrightarrow> c = c' \<and> e = e'"
proof
  assume eq: "demo_sign c e = demo_sign c' e'"
  have "demo_verify (demo_sign c e) (min e e' - 1) = Some c" "demo_verify (demo_sign c' e') (min e e' - 1) = Some c'"
    by (simp_all add: demo_verify_inv)
  moreover have "text_int (hd (split_texts (demo_sign c e))) = e" "text_int (hd (split_texts (demo_sign c' e'))) = e'"
    by (simp_all add: demo_sign_def)
  ultimately show "c = c' \<and> e = e'" using eq by simp
qed simp

lemmas demo_eval =
  auth_step_def answer_def auth_simps bindC_def returnC_def catchC_def call_def query_def exec_sql_def statement_def
  redis_command_def log_entry_def Let_def login_def lock_check_def login_verify_def password_accepted_def login_tokens_def
  login_recordSuccess_def login_recordFailure_def failed_login_def logLogin_def logLoginSafe_def
  th_isLocked_def th_recordFailure_def th_recordSuccess_def fail_key_def lock_key_def demo_redis_def demo_incr_def
  demo_auth_def demo_verify_inv demo_state_def demo_user_row_def findByUsername_def findById_def passwordHashByUsername_def
  totpSecretByUserId_def pw_verify_def signMfa_def sign_pair_apply store_refresh_def storeRefreshToken_def
  update_row_def fresh_token_def epoch_seconds_def toUser_def verifyRefresh_def verifyMfa_def refresh_def
  findByRefreshToken_def clearRefreshToken_def WEEK_MS_def access_claims_def clock_def

lemmas demo_mfa_eval =
  demo_eval mfaLogin_def totp_lock_check_def mfa_verify_def check_second_factor_def isCodeValid_def six_digits_def
  consumeRecoveryCode_def unspent_def totp_success_def totp_failure_def log_mfa_failure_def

section \<open>Example runs\<close>

definition demo_refresh_token :: string where
  "demo_refresh_token = demo_sign (Refresh_claims ''1'' '''') 604800"

definition demo_refreshes :: "(int \<times> auth_request) list" where
  "demo_refreshes = [(0, Login ''ada'' ''pw''), (1000, Refresh demo_refresh_token), (2000, Refresh demo_refresh_token)]"

definition demo_mfa_token :: string where
  "demo_mfa_token = demo_sign (Mfa_claims ''2'') 300"

definition demo_recoveries :: "(int \<times> auth_request) list" where
  "demo_recoveries =
     [(0, Login ''bob'' ''pw''), (1000, Mfa_login demo_mfa_token ''ABCDE-FGHIJ''), (1000, Mfa_login demo_mfa_token ''ABCDE-FGHIJ'')]"

definition demo_second_factor :: "auth_result \<times> demo_store auth_state" where
  "demo_second_factor = auth_step demo_auth (1000, Mfa_login demo_mfa_token ''123456'') demo_state"

definition demo_mfa_response :: auth_response where
  "demo_mfa_response =
     \<lparr>ar_accessToken = demo_sign (access_claims (toUser (demo_user_row ''2'' ''bob'' (Some ''x'') True))) 901,
      ar_refreshToken = demo_sign (Refresh_claims ''2'' '''') 604801,
      ar_user = toUser (demo_user_row ''2'' ''bob'' (Some ''x'') True)\<rparr>"

lemma demo_second_factor_ok: "fst demo_second_factor = Authenticated demo_mfa_response"
  by (simp add: demo_second_factor_def demo_mfa_token_def demo_mfa_response_def demo_mfa_eval)

end
