(* ===== verification/Auth_Lockout.thy ===== *)
theory Auth_Lockout
  imports Auth_Demo
begin

text \<open>
  How many passwords can be tried. The locale \<open>guessing\<close> is the contract of a throttle with its client: a budget
  of wrong guesses that every refused guess uses up and nothing else raises. The Redis login throttle keeps it
  within a span of time shorter than its window and its lock; overlapping attempts do not.
\<close>

section \<open>The contract\<close>

locale guessing =
  fixes step :: "'e \<Rightarrow> 's \<Rightarrow> 'o \<times> 's" and valid :: "'e \<Rightarrow> 's \<Rightarrow> bool" and guess :: "'e \<Rightarrow> 'o \<Rightarrow> bool" and budget :: "'s \<Rightarrow> nat"
  assumes spends: "valid e s \<Longrightarrow> guess e (fst (step e s)) \<Longrightarrow> budget (snd (step e s)) < budget s"
    and keeps: "valid e s \<Longrightarrow> budget (snd (step e s)) \<le> budget s"
begin

fun play :: "'e list \<Rightarrow> 's \<Rightarrow> 'o list \<times> 's" where
  "play [] s = ([], s)"
| "play (e # es) s = (fst (step e s) # fst (play es (snd (step e s))), snd (play es (snd (step e s))))"

fun valid_run :: "'e list \<Rightarrow> 's \<Rightarrow> bool" where
  "valid_run [] s \<longleftrightarrow> True"
| "valid_run (e # es) s \<longleftrightarrow> valid e s \<and> valid_run es (snd (step e s))"

definition guesses :: "'e list \<Rightarrow> 'o list \<Rightarrow> nat" where
  "guesses es os = length (filter (\<lambda>(e, r). guess e r) (zip es os))"

lemma bounded: "valid_run es s \<Longrightarrow> guesses es (fst (play es s)) \<le> budget s"
proof (induction es arbitrary: s)
  case (Cons e es)
  then have "guesses es (fst (play es (snd (step e s)))) \<le> budget (snd (step e s))" by simp
  with Cons.prems spends [of e s] keeps [of e s] show ?case by (auto simp: guesses_def)
qed (simp add: guesses_def)

end

section \<open>The login throttle\<close>

lemma keys_differ:
  "fail_key ''login'' u \<noteq> lock_key k w" "fail_key ''login'' u \<noteq> fail_key ''totp'' w"
  "lock_key ''login'' u \<noteq> fail_key k w" "lock_key ''login'' u \<noteq> lock_key ''totp'' w"
  if "k = ''login'' \<or> k = ''totp''"
  using that by (auto simp: fail_key_def lock_key_def)

lemma keys_inj: "fail_key k u = fail_key k w \<longleftrightarrow> u = w" "lock_key k u = lock_key k w \<longleftrightarrow> u = w"
  by (simp_all add: fail_key_def lock_key_def)

text \<open>The two keys of a name, and how many wrong passwords can still be tried up to a time.\<close>

type_synonym key_state = "(redis_value \<times> int option) option"

definition login_keys :: "'r auth_env \<Rightarrow> string \<Rightarrow> 'r auth_state \<Rightarrow> key_state \<times> key_state" where
  "login_keys env u s =
     (rd_look (ae_redis env) (wa_redis s) (fail_key ''login'' u), rd_look (ae_redis env) (wa_redis s) (lock_key ''login'' u))"

fun lasts :: "int \<Rightarrow> key_state \<Rightarrow> bool" where
  "lasts until None \<longleftrightarrow> False"
| "lasts until (Some (v, None)) \<longleftrightarrow> True"
| "lasts until (Some (v, Some e)) \<longleftrightarrow> until < e"

fun guess_budget :: "nat \<Rightarrow> int \<Rightarrow> int \<Rightarrow> key_state \<times> key_state \<Rightarrow> nat" where
  "guess_budget m until now (f, l) =
     (if lasts until l then 0
      else case live_key now f of
        None \<Rightarrow> m
      | Some (Count n, e) \<Rightarrow> if lasts until (Some (Count n, e)) then max 1 (m - n) else m + (m - Suc n)
      | Some (Text x, e) \<Rightarrow> 0)"

definition counting :: "key_state \<times> key_state \<Rightarrow> bool" where
  "counting ks \<longleftrightarrow> (case fst ks of Some (Text x, e) \<Rightarrow> False | Some (Count n, e) \<Rightarrow> 0 < n | None \<Rightarrow> True)"

lemma live_cases: "live_key now f = None \<or> live_key now f = f"
  by (cases "(now, f)" rule: live_key.cases) auto

lemma live_later: "t \<le> t' \<Longrightarrow> live_key t f = None \<Longrightarrow> live_key t' f = None"
  by (cases "(t, f)" rule: live_key.cases) (auto split: if_splits)

lemma live_lasts: "lasts until f \<Longrightarrow> t \<le> until \<Longrightarrow> live_key t f = f"
  by (cases "(t, f)" rule: live_key.cases) auto

lemma budget_later:
  assumes "t \<le> t'" "t' \<le> until" "1 \<le> m" "counting (f, l)"
  shows "guess_budget m until t' (f, l) \<le> guess_budget m until t (f, l)"
proof (cases "lasts until f")
  case True
  with assms have "live_key t f = f" "live_key t' f = f" using live_lasts by auto
  then show ?thesis by simp
next
  case False
  with assms live_cases [of t f] live_cases [of t' f] live_later [of t t' f] show ?thesis
    by (auto simp: counting_def split: option.splits prod.splits redis_value.splits)
qed

lemma budget_bound: "1 \<le> m \<Longrightarrow> counting (f, l) \<Longrightarrow> guess_budget m until t (f, l) < 2 * m"
  using live_cases [of t f]
  by (auto simp: counting_def split: option.splits prod.splits redis_value.splits)

text \<open>One more failure.\<close>

definition fail_keys :: "throttle_config \<Rightarrow> int \<Rightarrow> key_state \<times> key_state \<Rightarrow> key_state \<times> key_state" where
  "fail_keys cfg now ks =
     (let locked = Some (Text ''1'', Some (now + int (th_lockSeconds cfg) * 1000)) in
      case live_key now (fst ks) of
        Some (Count n, e) \<Rightarrow> (Some (Count (Suc n), e), if th_maxFailures cfg \<le> Suc n then locked else snd ks)
      | _ \<Rightarrow> (Some (Count 1, Some (now + int (th_windowSeconds cfg) * 1000)),
              if th_maxFailures cfg \<le> 1 then locked else snd ks))"

lemma budget_spent:
  assumes "t \<le> until" "until < t + int (th_windowSeconds cfg) * 1000" "until < t + int (th_lockSeconds cfg) * 1000"
    and "1 \<le> th_maxFailures cfg" "counting (f, l)" "live_key t l = None"
  shows "guess_budget (th_maxFailures cfg) until t (fail_keys cfg t (f, l)) < guess_budget (th_maxFailures cfg) until t (f, l)"
proof -
  have l: "\<not> lasts until l" using assms(1, 6) live_lasts [of "until" l t] by (cases l) auto
  from live_cases [of t f] show ?thesis
  proof
    assume none: "live_key t f = None"
    with assms l show ?thesis by (auto simp: fail_keys_def Let_def)
  next
    assume same: "live_key t f = f"
    show ?thesis
    proof (cases f)
      case None
      with assms l show ?thesis by (auto simp: fail_keys_def Let_def)
    next
      case (Some a)
      with assms(5) obtain n e where f: "f = Some (Count n, e)"
        by (cases a; cases "fst a") (auto simp: counting_def)
      have "live_key t (Some (Count (Suc n), e)) = Some (Count (Suc n), e)" using same f by (cases e) (auto split: if_splits)
      moreover have "lasts until (Some (Count (Suc n), e)) = lasts until (Some (Count n, e))" by (cases e) auto
      ultimately show ?thesis using assms l f same by (auto simp: fail_keys_def Let_def)
    qed
  qed
qed

section \<open>Logins and the two keys\<close>

text \<open>Redis answers every command; the other services may fail.\<close>

definition redis_up :: "'r auth_env \<Rightarrow> bool" where
  "redis_up env \<longleftrightarrow> redis_ok (ae_redis env) \<and> (\<forall>n. ae_outage env Redis n = None)"

lemma command_bind:
  "redis_up env \<Longrightarrow> bindC (redis_command env f) g s =
     (case f (wa_now s) (wa_redis s) of (x, r) \<Rightarrow> g x (s\<lparr>wa_calls := Suc (wa_calls s), wa_redis := r\<rparr>))"
  by (simp add: redis_up_def bindC_def redis_command_def call_def Let_def split: prod.splits)

lemma command_apply:
  "redis_up env \<Longrightarrow> redis_command env f s =
     (case f (wa_now s) (wa_redis s) of (x, r) \<Rightarrow> (Inr x, s\<lparr>wa_calls := Suc (wa_calls s), wa_redis := r\<rparr>))"
  by (simp add: redis_up_def redis_command_def call_def Let_def split: prod.splits)

definition same_redis :: "'r auth_state \<Rightarrow> 'r auth_state \<Rightarrow> bool" where
  "same_redis s s' \<longleftrightarrow> wa_redis s' = wa_redis s \<and> wa_now s' = wa_now s"

lemma log_entry_same: "same_redis s (snd (log_entry env lv ca co u s))"
  by (simp add: same_redis_def log_entry_def call_def Let_def split: option.splits)

lemma logLoginSafe_done: "\<exists>s'. logLoginSafe env co ca u s = (Inr (), s') \<and> same_redis s s'"
  using log_entry_same [of s env "if ca = Security then Warn else Info" ca co u]
  by (auto simp: logLoginSafe_def logLogin_def catchC_def split: prod.splits sum.splits)

lemma isLocked_bind:
  assumes "redis_up env"
  shows "bindC (th_isLocked env k u) g s =
     g (live_key (wa_now s) (rd_look (ae_redis env) (wa_redis s) (lock_key k u)) \<noteq> None) (s\<lparr>wa_calls := Suc (wa_calls s)\<rparr>)"
  using assms by (simp add: th_isLocked_def command_bind) (simp add: redis_up_def redis_ok_def get_law_def)

text \<open>The commands of a recorded failure, in terms of the two keys.\<close>

definition failed_redis :: "'r auth_env \<Rightarrow> throttle_config \<Rightarrow> string \<Rightarrow> int \<Rightarrow> 'r \<Rightarrow> 'r" where
  "failed_redis env cfg u now r =
     (let R = ae_redis env; count = fst (rd_incr R (fail_key ''login'' u) now r); r1 = snd (rd_incr R (fail_key ''login'' u) now r);
          r2 = (if count = 1 then rd_expire R (fail_key ''login'' u) (th_windowSeconds cfg) now r1 else r1)
      in if th_maxFailures cfg \<le> count then rd_set_ex R (lock_key ''login'' u) (Text ''1'') (th_lockSeconds cfg) now r2 else r2)"

lemma recordFailure_apply:
  assumes "redis_up env"
  shows "\<exists>c. th_recordFailure env cfg ''login'' u s =
     (Inr (), s\<lparr>wa_calls := c, wa_redis := failed_redis env cfg u (wa_now s) (wa_redis s)\<rparr>)"
  using assms by (auto simp: th_recordFailure_def command_bind command_apply failed_redis_def Let_def return_bind split: prod.splits)

lemma redis_incr:
  assumes "redis_ok R"
  shows "live_key t (rd_look R r k) = None \<Longrightarrow>
           fst (rd_incr R k t r) = 1 \<and> rd_look R (snd (rd_incr R k t r)) = (rd_look R r)(k \<mapsto> (Count 1, None))"
    and "live_key t (rd_look R r k) = Some (Count n, e) \<Longrightarrow>
           fst (rd_incr R k t r) = Suc n \<and> rd_look R (snd (rd_incr R k t r)) = (rd_look R r)(k \<mapsto> (Count (Suc n), e))"
proof -
  have "incr_law R" using assms by (simp add: redis_ok_def)
  note incr = this [unfolded incr_law_def, rule_format, of k t r]
  show "live_key t (rd_look R r k) = None \<Longrightarrow>
      fst (rd_incr R k t r) = 1 \<and> rd_look R (snd (rd_incr R k t r)) = (rd_look R r)(k \<mapsto> (Count 1, None))"
    using incr by simp
  show "live_key t (rd_look R r k) = Some (Count n, e) \<Longrightarrow>
      fst (rd_incr R k t r) = Suc n \<and> rd_look R (snd (rd_incr R k t r)) = (rd_look R r)(k \<mapsto> (Count (Suc n), e))"
    using incr by simp
qed

lemma redis_looks:
  assumes "redis_ok R"
  shows "rd_look R (rd_expire R k n t r) =
           (case live_key t (rd_look R r k) of None \<Rightarrow> rd_look R r | Some (v, e) \<Rightarrow> (rd_look R r)(k \<mapsto> (v, Some (t + int n * 1000))))"
    and "rd_look R (rd_set_ex R k v n t r) = (rd_look R r)(k \<mapsto> (v, Some (t + int n * 1000)))"
    and "rd_look R (rd_del R ks t r) k = (if k \<in> set ks then None else rd_look R r k)"
  using assms by (simp_all add: redis_ok_def expire_law_def set_law_def del_law_def)

text \<open>A recorded failure is \<open>fail_keys\<close> on the keys of the name.\<close>

lemma failed_redis_keys:
  assumes "redis_ok (ae_redis env)" "counting (login_keys env u s)"
  shows "login_keys env u (s\<lparr>wa_calls := c, wa_redis := failed_redis env cfg u (wa_now s) (wa_redis s)\<rparr>) =
         fail_keys cfg (wa_now s) (login_keys env u s)"
proof -
  let ?R = "ae_redis env" and ?f = "fail_key ''login'' u" and ?l = "lock_key ''login'' u" and ?t = "wa_now s"
  define r1 where "r1 = snd (rd_incr ?R ?f ?t (wa_redis s))"
  have keys: "?f \<noteq> ?l" "?l \<noteq> ?f" using keys_differ by auto
  note looks = redis_looks [OF assms(1)]
  show ?thesis
  proof (cases "live_key ?t (rd_look ?R (wa_redis s) ?f)")
    case None
    with redis_incr(1) [OF assms(1) None]
    have "fst (rd_incr ?R ?f ?t (wa_redis s)) = 1" "rd_look ?R r1 = (rd_look ?R (wa_redis s))(?f \<mapsto> (Count 1, None))"
      by (simp_all add: r1_def)
    with None keys show ?thesis
      by (simp add: login_keys_def failed_redis_def fail_keys_def Let_def looks flip: r1_def)
  next
    case (Some a)
    with live_cases [of ?t "rd_look ?R (wa_redis s) ?f"] have "rd_look ?R (wa_redis s) ?f = Some a" by simp
    with assms(2) obtain n e where a: "a = (Count n, e)" "0 < n"
      by (cases a; cases "fst a") (auto simp: counting_def login_keys_def)
    with Some redis_incr(2) [OF assms(1) Some [unfolded a]]
    have "fst (rd_incr ?R ?f ?t (wa_redis s)) = Suc n" "rd_look ?R r1 = (rd_look ?R (wa_redis s))(?f \<mapsto> (Count (Suc n), e))"
      by (simp_all add: r1_def)
    with Some a keys show ?thesis
      by (simp add: login_keys_def failed_redis_def fail_keys_def Let_def looks flip: r1_def)
  qed
qed

lemma same_keys: "same_redis s s' \<Longrightarrow> login_keys env u s' = login_keys env u s"
  by (simp add: same_redis_def login_keys_def)

lemma same_trans: "same_redis s s' \<Longrightarrow> same_redis s' s'' \<Longrightarrow> same_redis s s''"
  by (simp add: same_redis_def)

lemma same_calls [simp]: "same_redis s (s\<lparr>wa_calls := c\<rparr>)"
  by (simp add: same_redis_def)

lemma calls_keys [simp]: "login_keys env u (s\<lparr>wa_calls := c\<rparr>) = login_keys env u s"
  by (simp add: login_keys_def)

text \<open>A wrong password is recorded as one failure.\<close>

lemma failed_login_keys:
  assumes up: "redis_up env" and cfg: "ae_loginThrottle env = Some cfg" and count: "counting (login_keys env u s)"
  shows "\<exists>s'. failed_login env u s = (Inr (Inl Bad_credentials), s') \<and>
           login_keys env u s' = fail_keys cfg (wa_now s) (login_keys env u s)"
proof -
  have ok: "redis_ok (ae_redis env)" using up by (simp add: redis_up_def)
  obtain s1 where s1: "logLoginSafe env ''login_failed'' Security u s = (Inr (), s1)" "same_redis s s1"
    using logLoginSafe_done by blast
  obtain c where rec: "th_recordFailure env cfg ''login'' u (s1\<lparr>wa_calls := Suc (wa_calls s1)\<rparr>) =
      (Inr (), s1\<lparr>wa_calls := c, wa_redis := failed_redis env cfg u (wa_now s1) (wa_redis s1)\<rparr>)"
    using recordFailure_apply [OF up, of cfg u "s1\<lparr>wa_calls := Suc (wa_calls s1)\<rparr>"] by auto
  define s2 where "s2 = s1\<lparr>wa_calls := c, wa_redis := failed_redis env cfg u (wa_now s1) (wa_redis s1)\<rparr>"
  have keys: "login_keys env u s2 = fail_keys cfg (wa_now s) (login_keys env u s)"
    unfolding s2_def using failed_redis_keys [OF ok, of u s1 cfg c] count s1(2) same_keys [OF s1(2)]
    by (simp add: same_redis_def)
  obtain s3 where s3: "logLoginSafe env ''login_locked'' Security u (s2\<lparr>wa_calls := Suc c\<rparr>) = (Inr (), s3)"
    "same_redis (s2\<lparr>wa_calls := Suc c\<rparr>) s3" using logLoginSafe_done by blast
  have "\<exists>s'. login_recordFailure env u s1 = (Inr (), s') \<and> same_redis s2 s'"
    using s3 by (auto simp: login_recordFailure_def cfg catchC_def isLocked_bind [OF up] bindC_def [of "th_recordFailure _ _ _ _"] rec [folded s2_def]
        s2_def same_redis_def)
  then obtain s' where "login_recordFailure env u s1 = (Inr (), s')" "same_redis s2 s'" by blast
  with s1(1) keys show ?thesis by (simp add: failed_login_def refuse_apply same_keys [of s2 s'])
qed

text \<open>A login that is refused: one more failure after a look at the lock, or no change of the keys.\<close>

definition guessed :: "'r auth_env \<Rightarrow> throttle_config \<Rightarrow> string \<Rightarrow> refusal \<Rightarrow> 'r auth_state \<Rightarrow> 'r auth_state \<Rightarrow> bool" where
  "guessed env cfg u e s s' \<longleftrightarrow>
     (if e = Bad_credentials
      then live_key (wa_now s) (snd (login_keys env u s)) = None \<and>
           login_keys env u s' = fail_keys cfg (wa_now s) (login_keys env u s)
      else login_keys env u s' = login_keys env u s)"

lemma password_accepted_refused:
  assumes "password_accepted env u v s = (Inr (Inl e), s')"
  shows "e = Audit_unavailable \<and> same_redis s s'"
proof -
  obtain b s1 where c: "catchC (bindC (logLogin env ''login_succeeded'' Audit u) (\<lambda>_. returnC True)) False s = (Inr b, s1)"
    and r: "(if \<not> b then refuse Audit_unavailable else bindC (login_recordSuccess env u) (\<lambda>_. login_tokens env v)) s1 = (Inr (Inl e), s')"
    using assms unfolding password_accepted_def by (rule bindC_InrE)
  have "same_redis s s1"
    using c log_entry_same [of s env Info Audit "''login_succeeded''" u]
    by (auto simp: catchC_def logLogin_def bindC_def returnC_def split: prod.splits sum.splits)
  moreover have "login_tokens env v s2 \<noteq> (Inr (Inl e), s')" for s2
    by (auto simp: login_tokens_def signMfa_def bindC_assoc auth_simps sign_pair_bind store_renonce_bind split: option.splits)
  ultimately show ?thesis
    using r by (auto simp: refuse_apply bindC_def [of "login_recordSuccess _ _"] split: if_splits prod.splits sum.splits)
qed

lemma login_verify_cases:
  assumes "login_verify env u p s = (Inr r, s')"
  shows "\<exists>c. failed_login env u (s\<lparr>wa_calls := c\<rparr>) = (Inr r, s') \<or>
             (\<exists>v. password_accepted env u v (s\<lparr>wa_calls := c\<rparr>) = (Inr r, s'))"
  using assms by (auto simp: login_verify_def query_bind split: option.splits if_splits)

lemma login_guess:
  assumes up: "redis_up env" and cfg: "ae_loginThrottle env = Some cfg" and count: "counting (login_keys env u s)"
    and run: "login env u p s = (Inr (Inl e), s')"
  shows "guessed env cfg u e s s'"
proof -
  let ?s1 = "s\<lparr>wa_calls := Suc (wa_calls s)\<rparr>"
  have check: "lock_check env u s = (Inr (if live_key (wa_now s) (snd (login_keys env u s)) \<noteq> None then Some Account_locked else None), ?s1)"
    unfolding lock_check_def cfg option.case catchC_def isLocked_bind [OF up] returnC_apply login_keys_def by simp
  show ?thesis
  proof (cases "live_key (wa_now s) (snd (login_keys env u s)) = None")
    case False
    with check have "lock_check env u s = (Inr (Some Account_locked), ?s1)" by simp
    with run have "e = Account_locked" "s' = ?s1" by (simp_all add: login_def refuse_apply)
    then show ?thesis by (simp add: guessed_def)
  next
    case True
    with check have "lock_check env u s = (Inr None, ?s1)" by simp
    with run have verify: "login_verify env u p ?s1 = (Inr (Inl e), s')" by (simp add: login_def)
    have failed: "guessed env cfg u e s s'" if f: "failed_login env u s2 = (Inr (Inl e), s')" and same: "same_redis s s2" for s2
    proof -
      have "counting (login_keys env u s2)" using count same_keys [OF same] by metis
      from failed_login_keys [OF up cfg this] f have "e = Bad_credentials"
        "login_keys env u s' = fail_keys cfg (wa_now s2) (login_keys env u s2)" by auto
      with True same_keys [OF same, of env u] same show ?thesis by (simp add: guessed_def same_redis_def)
    qed
    have passed: "guessed env cfg u e s s'" if f: "password_accepted env u v s2 = (Inr (Inl e), s')" and same: "same_redis s s2" for v s2
      using password_accepted_refused [OF f] same_keys [OF same_trans [OF same]] by (simp add: guessed_def)
    from login_verify_cases [OF verify] show ?thesis
    proof (elim exE disjE)
      fix c assume "failed_login env u (?s1\<lparr>wa_calls := c\<rparr>) = (Inr (Inl e), s')"
      then show ?thesis by (rule failed) (simp add: same_redis_def)
    next
      fix c v assume "password_accepted env u v (?s1\<lparr>wa_calls := c\<rparr>) = (Inr (Inl e), s')"
      then show ?thesis by (rule passed) (simp add: same_redis_def)
    qed
  qed
qed

section \<open>The throttle keeps the contract\<close>

lemma incr_other:
  assumes "redis_ok R" "k' \<noteq> k"
  shows "rd_look R (snd (rd_incr R k t r)) k' = rd_look R r k'"
proof -
  have "incr_law R" using assms(1) by (simp add: redis_ok_def)
  from this [unfolded incr_law_def, rule_format, of k t r] assms(2) show ?thesis
    by (auto split: option.splits prod.splits redis_value.splits)
qed

lemma change_other:
  assumes "redis_ok R" "throttle_change R kind w r r'" "k \<noteq> fail_key kind w" "k \<noteq> lock_key kind w"
  shows "rd_look R r' k = rd_look R r k"
  using assms redis_looks [OF assms(1)] incr_other [OF assms(1)]
  by (auto simp: throttle_change_def split: option.splits)

interpretation others: auth_invariant env "\<lambda>s. redis_up env \<longrightarrow> login_keys env u s = ks" "\<lambda>_. True" "\<lambda>w. w \<noteq> u"
  for env :: "'r auth_env" and u ks
proof
  fix s :: "'r auth_state" and kind w r
  assume "redis_up env \<longrightarrow> login_keys env u s = ks" "kind = ''totp'' \<or> kind = ''login'' \<and> w \<noteq> u"
    "throttle_change (ae_redis env) kind w (wa_redis s) r"
  note assms = this
  show "redis_up env \<longrightarrow> login_keys env u (s\<lparr>wa_redis := r\<rparr>) = ks"
  proof
    assume up: "redis_up env"
    then have ok: "redis_ok (ae_redis env)" by (simp add: redis_up_def)
    have "fail_key ''login'' u \<noteq> fail_key kind w" "fail_key ''login'' u \<noteq> lock_key kind w"
      "lock_key ''login'' u \<noteq> fail_key kind w" "lock_key ''login'' u \<noteq> lock_key kind w"
      using assms(2) by (auto simp: fail_key_def lock_key_def)
    with assms(1) up change_other [OF ok assms(3)] show "login_keys env u (s\<lparr>wa_redis := r\<rparr>) = ks"
      by (simp add: login_keys_def)
  qed
qed (auto simp: login_keys_def)

lemma counting_incr:
  assumes "redis_ok R" and "counting (rd_look R r k, l)"
  shows "counting (rd_look R (snd (rd_incr R k t r)) k, l')"
proof (cases "live_key t (rd_look R r k)")
  case None
  from redis_incr(1) [OF assms(1) this] show ?thesis by (simp add: counting_def)
next
  case (Some a)
  with live_cases [of t "rd_look R r k"] have "rd_look R r k = Some a" by simp
  with assms(2) obtain n e where "a = (Count n, e)" by (cases a; cases "fst a") (auto simp: counting_def)
  with redis_incr(2) [OF assms(1)] Some show ?thesis by (simp add: counting_def)
qed

lemma counting_expire:
  assumes "redis_ok R" and "counting (rd_look R r k, l)"
  shows "counting (rd_look R (rd_expire R k n t r) k, l')"
  using assms(2) live_cases [of t "rd_look R r k"]
  by (auto simp: redis_looks(1) [OF assms(1)] counting_def split: option.splits prod.splits redis_value.splits)

lemma counting_change:
  assumes ok: "redis_ok R" and change: "throttle_change R kind w r r'" and k: "k = fail_key kind w" "k \<noteq> lock_key kind w"
    and count: "counting (rd_look R r k, l)"
  shows "counting (rd_look R r' k, l')"
  using change unfolding throttle_change_def k(1) [symmetric]
proof (elim disjE exE)
  assume "r' = r" then show ?thesis using count by (simp add: counting_def)
next
  fix t assume "r' = snd (rd_incr R k t r)" then show ?thesis using counting_incr [OF ok count] by simp
next
  fix n t assume "r' = rd_expire R k n t r" then show ?thesis using counting_expire [OF ok count] by simp
next
  fix v n t assume "r' = rd_set_ex R (lock_key kind w) v n t r"
  then show ?thesis using count k(2) by (simp add: redis_looks(2) [OF ok] counting_def)
next
  fix t assume "r' = rd_del R [k, lock_key kind w] t r"
  then show ?thesis by (simp add: redis_looks(3) [OF ok] counting_def)
qed

interpretation counted: auth_invariant env "\<lambda>s. redis_up env \<longrightarrow> counting (login_keys env u s)" "\<lambda>_. True" "\<lambda>_. True"
  for env :: "'r auth_env" and u
proof
  fix s :: "'r auth_state" and kind w r
  assume I: "redis_up env \<longrightarrow> counting (login_keys env u s)" and kind: "kind = ''totp'' \<or> kind = ''login'' \<and> True"
    and change: "throttle_change (ae_redis env) kind w (wa_redis s) r"
  show "redis_up env \<longrightarrow> counting (login_keys env u (s\<lparr>wa_redis := r\<rparr>))"
  proof
    assume "redis_up env"
    then have ok: "redis_ok (ae_redis env)" by (simp add: redis_up_def)
    show "counting (login_keys env u (s\<lparr>wa_redis := r\<rparr>))"
    proof (cases "fail_key ''login'' u = fail_key kind w")
      case False
      moreover have "fail_key ''login'' u \<noteq> lock_key kind w" using keys_differ(1) kind by blast
      ultimately have "rd_look (ae_redis env) r (fail_key ''login'' u) = rd_look (ae_redis env) (wa_redis s) (fail_key ''login'' u)"
        using change_other [OF ok change] by blast
      with I \<open>redis_up env\<close> show ?thesis by (simp add: login_keys_def counting_def)
    next
      case True
      let ?k = "fail_key ''login'' u"
      have lock: "?k \<noteq> lock_key kind w" using keys_differ(1) kind by blast
      have base: "counting (rd_look (ae_redis env) (wa_redis s) ?k, None)"
        using I \<open>redis_up env\<close> by (simp add: login_keys_def counting_def)
      have "counting (rd_look (ae_redis env) r ?k, None)"
        by (rule counting_change [OF ok change True lock base])
      then show ?thesis by (simp add: login_keys_def counting_def)
    qed
  qed
qed (auto simp: login_keys_def)

type_synonym 'r timed = "int \<times> 'r auth_state"

text \<open>The state with the time of the last request.\<close>

definition timed_step :: "'r auth_env \<Rightarrow> int \<times> auth_request \<Rightarrow> 'r timed \<Rightarrow> auth_result \<times> 'r timed" where
  "timed_step env ev st = (case auth_step env ev (snd st) of (r, s') \<Rightarrow> (r, (fst ev, s')))"

definition login_of :: "string \<Rightarrow> auth_request \<Rightarrow> bool" where
  "login_of u req \<longleftrightarrow> (case req of Login w p \<Rightarrow> w = u | _ \<Rightarrow> False)"

definition wrong_guess :: "string \<Rightarrow> int \<times> auth_request \<Rightarrow> auth_result \<Rightarrow> bool" where
  "wrong_guess u ev r \<longleftrightarrow> login_of u (snd ev) \<and> r = Refused Bad_credentials"

definition attempt_ok :: "'r auth_env \<Rightarrow> throttle_config \<Rightarrow> string \<Rightarrow> int \<Rightarrow> int \<times> auth_request \<Rightarrow> 'r timed \<Rightarrow> bool" where
  "attempt_ok env cfg u until ev st \<longleftrightarrow>
     redis_up env \<and> ae_loginThrottle env = Some cfg \<and> 1 \<le> th_maxFailures cfg \<and> counting (login_keys env u (snd st)) \<and>
     fst st \<le> fst ev \<and> fst ev \<le> until \<and> until < fst ev + int (th_windowSeconds cfg) * 1000 \<and>
     until < fst ev + int (th_lockSeconds cfg) * 1000 \<and>
     (login_of u (snd ev) \<longrightarrow> (\<exists>e. fst (auth_step env ev (snd st)) = Refused e))"

definition timed_budget :: "'r auth_env \<Rightarrow> throttle_config \<Rightarrow> string \<Rightarrow> int \<Rightarrow> 'r timed \<Rightarrow> nat" where
  "timed_budget env cfg u until st = guess_budget (th_maxFailures cfg) until (fst st) (login_keys env u (snd st))"

lemma outcome_Refused: "(\<And>y. f y \<noteq> Refused e) \<Longrightarrow> outcome f r = Refused e \<longleftrightarrow> r = Inr (Inl e)"
proof (cases r)
  case (Inr a)
  then show "(\<And>y. f y \<noteq> Refused e) \<Longrightarrow> outcome f r = Refused e \<longleftrightarrow> r = Inr (Inl e)" by (cases a) auto
qed simp

lemma attempt_cases:
  assumes ok: "attempt_ok env cfg u until ev st"
  shows "(wrong_guess u ev (fst (auth_step env ev (snd st))) \<and>
            live_key (fst ev) (snd (login_keys env u (snd st))) = None \<and>
            login_keys env u (snd (auth_step env ev (snd st))) = fail_keys cfg (fst ev) (login_keys env u (snd st))) \<or>
         (\<not> wrong_guess u ev (fst (auth_step env ev (snd st))) \<and>
            login_keys env u (snd (auth_step env ev (snd st))) = login_keys env u (snd st))"
proof (cases "login_of u (snd ev)")
  case False
  have up: "redis_up env" using ok by (simp add: attempt_ok_def)
  have "login_keys env u (snd (auth_step env ev (snd st))) = login_keys env u (snd st)"
    using others.request_keeps [where u = u and ev = ev and env = env and ks = "login_keys env u (snd st)" and s = "snd st"] False up
    by (cases "snd ev") (auto simp: login_of_def)
  with False show ?thesis by (simp add: wrong_guess_def)
next
  case True
  then obtain p where ev: "snd ev = Login u p" by (cases "snd ev") (auto simp: login_of_def)
  define s1 where "s1 = (snd st)\<lparr>wa_now := fst ev\<rparr>"
  have keys: "login_keys env u s1 = login_keys env u (snd st)" "wa_now s1 = fst ev" by (simp_all add: s1_def login_keys_def)
  obtain e s' where step: "auth_step env ev (snd st) = (Refused e, s')"
    using ok True by (auto simp: attempt_ok_def prod_eq_iff)
  then have "login env u p s1 = (Inr (Inl e), s')"
    by (auto simp: auth_step_def ev answer_def s1_def prod_eq_iff outcome_Refused)
  then have "guessed env cfg u e s1 s'"
    using ok by (intro login_guess) (simp_all add: attempt_ok_def keys)
  with step True keys show ?thesis by (auto simp: guessed_def wrong_guess_def split: if_splits)
qed

interpretation attempts: guessing "timed_step env" "attempt_ok env cfg u until" "wrong_guess u" "timed_budget env cfg u until"
  for env :: "'r auth_env" and cfg u "until"
proof
  fix ev and st :: "'r timed"
  assume ok: "attempt_ok env cfg u until ev st"
  obtain f l where fl: "login_keys env u (snd st) = (f, l)" by (cases "login_keys env u (snd st)")
  have later: "guess_budget (th_maxFailures cfg) until (fst ev) (f, l) \<le> guess_budget (th_maxFailures cfg) until (fst st) (f, l)"
    using ok fl by (intro budget_later) (simp_all add: attempt_ok_def)
  have step: "timed_budget env cfg u until (snd (timed_step env ev st)) =
      guess_budget (th_maxFailures cfg) until (fst ev) (login_keys env u (snd (auth_step env ev (snd st))))"
    by (simp add: timed_budget_def timed_step_def split: prod.splits)
  have result: "fst (timed_step env ev st) = fst (auth_step env ev (snd st))" by (simp add: timed_step_def split: prod.splits)
  have spent: "guess_budget (th_maxFailures cfg) until (fst ev) (fail_keys cfg (fst ev) (f, l)) <
      guess_budget (th_maxFailures cfg) until (fst ev) (f, l)" if "live_key (fst ev) l = None"
    using ok fl that by (intro budget_spent) (simp_all add: attempt_ok_def)
  show "timed_budget env cfg u until (snd (timed_step env ev st)) < timed_budget env cfg u until st"
    if "wrong_guess u ev (fst (timed_step env ev st))"
    using attempt_cases [OF ok] that spent later unfolding step result by (auto simp: fl timed_budget_def)
  show "timed_budget env cfg u until (snd (timed_step env ev st)) \<le> timed_budget env cfg u until st"
    using attempt_cases [OF ok] spent later unfolding step by (auto simp: fl timed_budget_def)
qed

lemma timed_run: "fst (attempts.play env evs (t, s)) = fst (auth_run env evs s)"
proof (induction evs arbitrary: t s)
  case (Cons ev evs)
  have "timed_step env ev (t, s) = (fst (auth_step env ev s), (fst ev, snd (auth_step env ev s)))"
    by (simp add: timed_step_def split: prod.splits)
  then show ?case using Cons by (simp add: auth_run_Cons del: auth_run.simps)
qed simp

lemma timed_valid:
  assumes env: "redis_up env" "ae_loginThrottle env = Some cfg" "1 \<le> th_maxFailures cfg"
    and span: "until < from_t + int (th_windowSeconds cfg) * 1000" "until < from_t + int (th_lockSeconds cfg) * 1000"
  shows "counting (login_keys env u s) \<Longrightarrow> sorted (t # map fst evs) \<Longrightarrow> \<forall>ev\<in>set evs. from_t \<le> fst ev \<and> fst ev \<le> until \<Longrightarrow>
    \<forall>(ev, r)\<in>set (zip evs (fst (auth_run env evs s))). login_of u (snd ev) \<longrightarrow> (\<exists>e. r = Refused e) \<Longrightarrow>
    attempts.valid_run env cfg u until evs (t, s)"
proof (induction evs arbitrary: t s)
  case (Cons ev evs)
  have step: "timed_step env ev (t, s) = (fst (auth_step env ev s), (fst ev, snd (auth_step env ev s)))"
    by (simp add: timed_step_def split: prod.splits)
  have "redis_up env \<longrightarrow> counting (login_keys env u (snd (auth_step env ev s)))"
    using counted.request_keeps [where u = u and ev = ev and env = env and s = s] Cons.prems(1) by (cases "snd ev") auto
  with env(1) have "counting (login_keys env u (snd (auth_step env ev s)))" by simp
  then have "attempts.valid_run env cfg u until evs (fst ev, snd (auth_step env ev s))"
    using Cons.prems by (intro Cons.IH) (auto simp: auth_run_Cons simp del: auth_run.simps)
  moreover have "attempt_ok env cfg u until ev (t, s)"
    using env span Cons.prems by (auto simp: attempt_ok_def auth_run_Cons simp del: auth_run.simps)
  ultimately show ?case by (simp add: step)
qed simp

text \<open>How many logins under a name were answered with ``wrong user name or password''.\<close>

definition wrong_guesses :: "string \<Rightarrow> (int \<times> auth_request) list \<Rightarrow> auth_result list \<Rightarrow> nat" where
  "wrong_guesses u evs rs = length (filter (\<lambda>(ev, r). wrong_guess u ev r) (zip evs rs))"


definition demo_guesses :: "(int \<times> auth_request) list" where
  "demo_guesses = [(0, Login ''ada'' ''a''), (10, Login ''ada'' ''b''), (20, Login ''ada'' ''pw'')]"

lemma demo_guesses_refused:
  "fst (auth_run demo_auth demo_guesses demo_state) = [Refused Bad_credentials, Refused Bad_credentials, Refused Account_locked]"
  by (simp add: demo_guesses_def demo_eval)


end
