(* ===== verification/Auth_Props.thy ===== *)
theory Auth_Props
  imports Auth_Demo
begin

text \<open>
  The properties of the authentication: one use per refresh token and per recovery code, tokens that cannot be
  refreshed, audited logins, the effect of an unfinished enrolment; with a concrete environment.
\<close>

section \<open>Tokens that were never stored\<close>

definition signs_last :: "'r auth_env \<Rightarrow> ('a \<Rightarrow> auth_response) \<Rightarrow> ('r, 'a) use_case \<Rightarrow> bool" where
  "signs_last env g m \<longleftrightarrow>
     (\<forall>s x s'. tokens_wf env s \<longrightarrow> m s = (Inr (Inr x), s') \<longrightarrow> dead_token env (ar_refreshToken (g x)) s')"

named_theorems signing \<open>computations whose last act is to sign a pair of tokens\<close>

lemma signs_bind [signing]:
  "keepsC (tokens_wf env) m \<Longrightarrow> (\<And>x. signs_last env g (f x)) \<Longrightarrow> signs_last env g (bindC m f)"
  unfolding signs_last_def by (metis bindC_InrE keepsC_result)

lemma signs_refuse [signing]: "signs_last env g (refuse e)"
  by (simp add: signs_last_def refuse_apply)

lemma signs_if [signing]: "signs_last env g m \<Longrightarrow> signs_last env g n \<Longrightarrow> signs_last env g (if b then m else n)"
  by simp

lemma signs_option [signing]:
  "signs_last env g m \<Longrightarrow> (\<And>x. signs_last env g (f x)) \<Longrightarrow> signs_last env g (case v of None \<Rightarrow> m | Some x \<Rightarrow> f x)"
  by (simp split: option.splits)

lemma signs_pair:
  assumes "tokens_ok env" "\<And>resp. g (f resp) = resp"
  shows "signs_last env g (bindC (sign_pair env u) (\<lambda>resp. accept (f resp)))"
  using assms by (auto simp: signs_last_def sign_pair_bind accept_apply fresh_token_def intro!: unstored_is_dead)

lemma signs_failure [signing]: "signs_last env g (totp_failure env i)"
  by (auto simp: signs_last_def totp_failure_def refuse_apply catchC_def bindC_def split: option.splits prod.splits sum.splits)

lemmas signs_keeps =
  stored.k_totp stored.k_log stored.k_catch stored.k_clock stored.k_query stored.k_second_factor stored.k_nonce
  stored.k_statement mild_enable mild_update_user keeps

lemma mfaLogin_signs:
  assumes "tokens_ok env"
  shows "signs_last env id (mfaLogin env t c)"
  unfolding mfaLogin_def mfa_verify_def log_mfa_failure_def
  by (rule signs_pair [OF assms, of id "\<lambda>x. x", simplified] | rule signing | rule signs_keeps)+

lemma confirm_signs:
  assumes "tokens_ok env"
  shows "signs_last env snd (mfa_confirm env i c)"
  unfolding mfa_confirm_def confirm_enrolled_def newRecoveryCodes_def log_mfa_failure_def
  by (rule signs_pair [OF assms], simp | rule signing | rule signs_keeps stored.k_store_codes TrueI)+

lemma change_signs:
  assumes "tokens_ok env"
  shows "signs_last env id (changePassword env i a b)"
  unfolding changePassword_def hash_password_def
  by (rule signs_pair [OF assms, of id "\<lambda>x. x", simplified] | rule signing | rule signs_keeps)+

fun issued_pair :: "auth_request \<Rightarrow> auth_result \<Rightarrow> auth_response option" where
  "issued_pair (Mfa_login t c) (Authenticated resp) = Some resp"
| "issued_pair (Change_password i a b) (Authenticated resp) = Some resp"
| "issued_pair (Mfa_confirm i c) (Enrolled codes resp) = Some resp"
| "issued_pair _ _ = None"

lemma outcome_Enrolled: "outcome (\<lambda>(a, b). Enrolled a b) r = Enrolled x y \<longleftrightarrow> r = Inr (Inr (x, y))"
proof (cases r)
  case (Inr a)
  then show ?thesis by (cases a) auto
qed simp

lemma issued_pair_dead:
  assumes ok: "tokens_ok env" and wf: "tokens_wf env s"
    and step: "auth_step env (t, req) s = (r, s')" and pair: "issued_pair req r = Some resp"
  shows "dead_token env (ar_refreshToken resp) s'"
proof -
  define s1 where "s1 = s\<lparr>wa_now := t\<rparr>"
  have wf1: "tokens_wf env s1" unfolding s1_def by (rule stored.at_time [OF wf])
  show ?thesis using pair
  proof (cases "(req, r)" rule: issued_pair.cases)
    case (1 tok c resp')
    with pair step have "mfaLogin env tok c s1 = (Inr (Inr resp), s')"
      by (auto simp: auth_step_def answer_def s1_def prod_eq_iff)
    then show ?thesis using mfaLogin_signs [OF ok, of tok c] wf1 unfolding signs_last_def by fastforce
  next
    case (2 i a b resp')
    with pair step have "changePassword env i a b s1 = (Inr (Inr resp), s')"
      by (auto simp: auth_step_def answer_def s1_def prod_eq_iff)
    then show ?thesis using change_signs [OF ok, of i a b] wf1 unfolding signs_last_def by fastforce
  next
    case (3 i c codes resp')
    with pair step have "mfa_confirm env i c s1 = (Inr (Inr (codes, resp)), s')"
      by (auto simp: auth_step_def answer_def s1_def prod_eq_iff outcome_Enrolled)
    then show ?thesis using confirm_signs [OF ok, of i c] wf1 unfolding signs_last_def by fastforce
  qed simp_all
qed



text \<open>
  The refresh token that comes with a login by second factor, with a confirmed enrolment or with a password
  change is never accepted: these pairs are signed and not stored, so the first use is taken for a stolen token.
\<close>

theorem second_factor_refresh_refused:
  assumes "tokens_ok env" and "tokens_wf env s"
    and "auth_step env (t, req) s = (r, s')" and "issued_pair req r = Some resp"
  shows "ar_refreshToken resp \<notin> set (accepted_tokens evs (fst (auth_run env evs s')))"
  using issued_pair_dead [OF assms] by (rule dead_never_accepted)

lemma second_factor_refresh_refused_witness:
  "fst demo_second_factor = Authenticated demo_mfa_response \<and>
   ar_refreshToken demo_mfa_response \<notin>
     set (accepted_tokens [(2000, Refresh (ar_refreshToken demo_mfa_response))]
       (fst (auth_run demo_auth [(2000, Refresh (ar_refreshToken demo_mfa_response))] (snd demo_second_factor))))"
proof
  show "fst demo_second_factor = Authenticated demo_mfa_response" by (rule demo_second_factor_ok)
  then have "auth_step demo_auth (1000, Mfa_login demo_mfa_token ''123456'') demo_state =
      (Authenticated demo_mfa_response, snd demo_second_factor)"
    by (simp add: demo_second_factor_def prod_eq_iff)
  then show "ar_refreshToken demo_mfa_response \<notin>
      set (accepted_tokens [(2000, Refresh (ar_refreshToken demo_mfa_response))]
        (fst (auth_run demo_auth [(2000, Refresh (ar_refreshToken demo_mfa_response))] (snd demo_second_factor))))"
    by (rule second_factor_refresh_refused [OF demo_tokens_ok demo_tokens_wf]) simp
qed

section \<open>Recovery codes\<close>

definition spent :: "string \<Rightarrow> string \<Rightarrow> 'r auth_state \<Rightarrow> bool" where
  "spent i h s \<longleftrightarrow> \<not> list_ex (unspent i h) (db_recovery (wa_db s))"

interpretation spent: auth_invariant env "spent i h" "\<lambda>j. j \<noteq> i" "\<lambda>_. True" for env :: "'r auth_env" and i h
proof
  fix s :: "'r auth_state" and db
  assume "spent i h s" "mild (wa_db s) db"
  then show "spent i h (s\<lparr>wa_db := db\<rparr>)" by (auto simp: spent_def list_ex_iff mild_def unspent_def)
qed (auto simp: spent_def list_ex_iff unspent_def insert_code_def split: if_splits)

text \<open>A code that is not six digits passes only as a recovery code, which it spends.\<close>

lemma second_factor_spends:
  assumes "check_second_factor env i x c s = (Inr True, s')" and "\<not> six_digits c"
  shows "\<not> spent i (ae_sha256Hex env c) s \<and> spent i (ae_sha256Hex env c) s'"
  using assms
  by (auto simp: check_second_factor_def auth_simps isCodeValid_def call_def Let_def spent_def consumeRecoveryCode_def
      list_ex_iff unspent_def split: option.splits prod.splits)

lemma findById_id: "findById i db = Some u \<Longrightarrow> us_id u = i"
  by (auto simp: findById_def dest!: find_first_Some)

lemma refused_not_accepted:
  "bindC (log_mfa_failure env n) (\<lambda>_. totp_failure env i) s \<noteq> (Inr (Inr x), s')"
  by (auto simp: totp_failure_def refuse_apply catchC_def bindC_def split: option.splits prod.splits sum.splits)

lemma mfaLogin_spends:
  assumes "mfaLogin env t c s = (Inr (Inr resp), s')" and "\<not> six_digits c"
  shows "\<not> spent (us_id (ar_user resp)) (ae_sha256Hex env c) s \<and> spent (us_id (ar_user resp)) (ae_sha256Hex env c) s'"
proof -
  obtain sub s1 where locked: "totp_lock_check env sub s = (Inr False, s1)" and v: "mfa_verify env sub c s1 = (Inr (Inr resp), s')"
    using assms(1) by (auto simp: mfaLogin_def auth_simps bindC_def [of "totp_lock_check _ _"] split: option.splits prod.splits sum.splits if_splits)
  then obtain u x s3 where u: "findById sub (wa_db s1) = Some u"
    and ok: "check_second_factor env (us_id u) x c (s1\<lparr>wa_calls := Suc (Suc (wa_calls s1))\<rparr>) = (Inr True, s3)"
    and fin: "bindC (totp_success env (us_id u)) (\<lambda>_. bindC (sign_pair env u) accept) s3 = (Inr (Inr resp), s')"
    by (auto simp: mfa_verify_def auth_simps bindC_def [of "check_second_factor _ _ _ _"] refused_not_accepted
        split: option.splits prod.splits sum.splits if_splits)
  have resp: "ar_user resp = u"
    using fin by (auto simp: bindC_def [of "totp_success _ _"] sign_pair_bind accept_apply split: prod.splits sum.splits)
  have before: "\<not> spent (us_id u) (ae_sha256Hex env c) s1" and after: "spent (us_id u) (ae_sha256Hex env c) s3"
    using second_factor_spends [OF ok assms(2)] by (simp_all add: spent_def)
  have "spent (us_id u) (ae_sha256Hex env c) s \<Longrightarrow> spent (us_id u) (ae_sha256Hex env c) s1"
    using spent.k_totp(1) locked by (metis keepsC_result)
  moreover have "keepsC (spent (us_id u) (ae_sha256Hex env c)) (bindC (totp_success env (us_id u)) (\<lambda>_. bindC (sign_pair env u) accept))"
    by (intro keeps spent.k_totp spent.k_sign spent.k_accept)
  then have "spent (us_id u) (ae_sha256Hex env c) s'" using after fin by (rule keepsC_result)
  ultimately show ?thesis using before resp by blast
qed

text \<open>The logins that a recovery code completed, for one user and one code.\<close>

fun recovered :: "string \<Rightarrow> string \<Rightarrow> auth_request \<Rightarrow> auth_result \<Rightarrow> bool" where
  "recovered i c (Mfa_login t c') (Authenticated resp) \<longleftrightarrow> c' = c \<and> us_id (ar_user resp) = i"
| "recovered i c _ _ \<longleftrightarrow> False"

definition recoveries :: "string \<Rightarrow> string \<Rightarrow> (int \<times> auth_request) list \<Rightarrow> auth_result list \<Rightarrow> nat" where
  "recoveries i c evs rs = length (filter (\<lambda>(ev, r). recovered i c (snd ev) r) (zip evs rs))"

definition confirms :: "string \<Rightarrow> auth_request \<Rightarrow> bool" where
  "confirms i req \<longleftrightarrow> (case req of Mfa_confirm j c \<Rightarrow> j = i | _ \<Rightarrow> False)"

lemma recovered_step:
  assumes "recovered i c (snd ev) (fst (auth_step env ev s))" and "\<not> six_digits c"
  shows "\<not> spent i (ae_sha256Hex env c) s \<and> spent i (ae_sha256Hex env c) (snd (auth_step env ev s))"
proof -
  from assms(1) obtain t resp where ev: "snd ev = Mfa_login t c" and r: "fst (auth_step env ev s) = Authenticated resp"
    and i: "us_id (ar_user resp) = i" by (cases "(i, c, snd ev, fst (auth_step env ev s))" rule: recovered.cases) auto
  have "mfaLogin env t c (s\<lparr>wa_now := fst ev\<rparr>) = (Inr (Inr resp), snd (auth_step env ev s))"
    using ev r by (auto simp: auth_step_def answer_def prod_eq_iff)
  from mfaLogin_spends [OF this assms(2)] i show ?thesis by (simp add: spent_def)
qed

lemma spent_never_recovers:
  assumes "\<not> six_digits c" "list_all (\<lambda>ev. \<not> confirms i (snd ev)) evs" "spent i (ae_sha256Hex env c) s"
  shows "recoveries i c evs (fst (auth_run env evs s)) = 0"
  using assms(2, 3)
proof (induction evs arbitrary: s)
  case (Cons ev evs)
  have "spent i (ae_sha256Hex env c) (snd (auth_step env ev s))"
    using spent.request_keeps [where env = env and i = i and h = "ae_sha256Hex env c" and ev = ev and s = s] Cons.prems by (cases "snd ev") (auto simp: confirms_def)
  with Cons.IH Cons.prems(1) have "recoveries i c evs (fst (auth_run env evs (snd (auth_step env ev s)))) = 0" by simp
  moreover have "\<not> recovered i c (snd ev) (fst (auth_step env ev s))"
    using recovered_step [OF _ assms(1)] Cons.prems(2) by blast
  ultimately show ?case unfolding auth_run_Cons by (simp add: recoveries_def)
qed (simp add: recoveries_def)

text \<open>
  A recovery code completes at most one login of its user, in every sequence of requests in which the user
  does not enrol anew; a code that has been used is refused from then on.
\<close>

theorem recovery_code_used_once:
  assumes "\<not> six_digits c" and "list_all (\<lambda>ev. \<not> confirms i (snd ev)) evs"
  shows "recoveries i c evs (fst (auth_run env evs s)) \<le> 1"
  using assms(2)
proof (induction evs arbitrary: s)
  case (Cons ev evs)
  show ?case
  proof (cases "recovered i c (snd ev) (fst (auth_step env ev s))")
    case True
    with spent_never_recovers [OF assms(1), of i evs env "snd (auth_step env ev s)"] recovered_step [OF True assms(1)] Cons.prems
    show ?thesis unfolding auth_run_Cons by (simp add: recoveries_def)
  next
    case False
    with Cons.IH [of "snd (auth_step env ev s)"] Cons.prems show ?thesis unfolding auth_run_Cons by (simp add: recoveries_def)
  qed
qed (simp add: recoveries_def)

lemma recovery_code_used_once_witness:
  "recoveries ''2'' ''ABCDE-FGHIJ'' demo_recoveries (fst (auth_run demo_auth demo_recoveries demo_state)) = 1 \<and>
   recoveries ''2'' ''ABCDE-FGHIJ'' demo_recoveries (fst (auth_run demo_auth demo_recoveries demo_state)) \<le> 1"
proof
  show "recoveries ''2'' ''ABCDE-FGHIJ'' demo_recoveries (fst (auth_run demo_auth demo_recoveries demo_state)) = 1"
    by (simp add: demo_recoveries_def demo_mfa_token_def demo_mfa_eval recoveries_def)
  show "recoveries ''2'' ''ABCDE-FGHIJ'' demo_recoveries (fst (auth_run demo_auth demo_recoveries demo_state)) \<le> 1"
    by (rule recovery_code_used_once) (simp_all add: six_digits_def demo_recoveries_def confirms_def)
qed

end
