(* ===== verification/Auth_Logins.thy ===== *)
theory Auth_Logins
  imports Auth_Lockout Auth_Props
begin

text \<open>
  Logins and their records: every login has its audit entry; what an unfinished enrolment does to the second
  factor; and the guesses of overlapping logins, which the lock does not bound.
\<close>

section \<open>Every login is recorded\<close>

definition login_record :: "string \<Rightarrow> auth_entry \<Rightarrow> bool" where
  "login_record u e \<longleftrightarrow> en_category e = Audit \<and> en_eventCode e = ''login_succeeded'' \<and> en_subject e = u"

definition login_records :: "string \<Rightarrow> 'r auth_state \<Rightarrow> nat" where
  "login_records u s = length (filter (login_record u) (wa_log s))"

definition recorded :: "string \<Rightarrow> nat \<Rightarrow> 'r auth_state \<Rightarrow> bool" where
  "recorded u c s \<longleftrightarrow> c \<le> login_records u s"

interpretation recorded: auth_invariant env "recorded u c" "\<lambda>_. True" "\<lambda>_. True" for env :: "'r auth_env" and u c
  by unfold_locales (auto simp: recorded_def login_records_def)

lemma accepted_recorded:
  assumes audited: "ae_audited env" and start: "recorded u c s"
    and acc: "password_accepted env u v s = (Inr (Inr x), s')"
  shows "recorded u (Suc c) s'"
proof -
  obtain b s1 where log: "catchC (bindC (logLogin env ''login_succeeded'' Audit u) (\<lambda>_. returnC True)) False s = (Inr b, s1)"
    and rest: "(if \<not> b then refuse Audit_unavailable else bindC (login_recordSuccess env u) (\<lambda>_. login_tokens env v)) s1 = (Inr (Inr x), s')"
    using acc unfolding password_accepted_def by (rule bindC_InrE)
  have b: b using rest by (cases b) (auto simp: refuse_apply)
  with log start audited have "recorded u (Suc c) s1"
    by (auto simp: catchC_def logLogin_def log_entry_def call_def Let_def bindC_def returnC_def recorded_def login_records_def
        login_record_def split: option.splits prod.splits sum.splits)
  moreover have "keepsC (recorded u (Suc c)) (bindC (login_recordSuccess env u) (\<lambda>_. login_tokens env v))"
    unfolding login_recordSuccess_def by (intro keeps recorded.k_option recorded.k_catch recorded.k_throttle recorded.k_login_tokens) auto
  ultimately show ?thesis using rest b by (auto dest: keepsC_result)
qed

lemma failed_login_refuses: "failed_login env u s \<noteq> (Inr (Inr x), s')"
  by (auto simp: failed_login_def bindC_def refuse_apply split: prod.splits sum.splits)

lemma login_recorded:
  assumes "ae_audited env" "recorded u c s" "login env u p s = (Inr (Inr x), s')"
  shows "recorded u (Suc c) s'"
proof -
  obtain s1 where check: "lock_check env u s = (Inr None, s1)" and verify: "login_verify env u p s1 = (Inr (Inr x), s')"
    using assms(3) unfolding login_def by (rule bindC_InrE) (auto simp: refuse_apply split: option.splits)
  have "keepsC (recorded u c) (lock_check env u)"
    unfolding lock_check_def by (intro keeps recorded.k_option recorded.k_catch recorded.k_throttle) auto
  with check assms(2) have "recorded u c s1" by (metis keepsC_result)
  then have "recorded u c (s1\<lparr>wa_calls := n\<rparr>)" for n by (simp add: recorded_def login_records_def)
  with login_verify_cases [OF verify] accepted_recorded [OF assms(1)] failed_login_refuses show ?thesis by blast
qed

fun let_through :: "auth_result \<Rightarrow> bool" where
  "let_through (Logged_in x) \<longleftrightarrow> True"
| "let_through _ \<longleftrightarrow> False"

lemma let_through_iff: "let_through r \<longleftrightarrow> (\<exists>x. r = Logged_in x)"
  by (cases r) auto

definition logins_of :: "string \<Rightarrow> (int \<times> auth_request) list \<Rightarrow> auth_result list \<Rightarrow> nat" where
  "logins_of u evs rs =
     length (filter (\<lambda>(ev, r). login_of u (snd ev) \<and> let_through r) (zip evs rs))"

lemma outcome_Logged_in: "outcome Logged_in r = Logged_in x \<longleftrightarrow> r = Inr (Inr x)"
proof (cases r)
  case (Inr a)
  then show ?thesis by (cases a) auto
qed simp

lemma step_recorded:
  assumes "ae_audited env" "recorded u c s" "login_of u (snd ev)" "fst (auth_step env ev s) = Logged_in x"
  shows "recorded u (Suc c) (snd (auth_step env ev s))"
proof -
  obtain p where ev: "snd ev = Login u p" using assms(3) by (cases "snd ev") (auto simp: login_of_def)
  have "login env u p (s\<lparr>wa_now := fst ev\<rparr>) = (Inr (Inr x), snd (auth_step env ev s))"
    using assms(4) ev by (auto simp: auth_step_def answer_def prod_eq_iff outcome_Logged_in)
  then show ?thesis using assms(2) by (intro login_recorded [OF assms(1)]) (auto simp: recorded_def login_records_def)
qed

text \<open>
  C31: No login without its record. In every sequence of requests, with failures of every service at any point,
  the audit log gains for each user name at least one \<open>login_succeeded\<close> entry per login that was let through.
\<close>

theorem logins_are_audited:
  assumes "ae_audited env"
  shows "logins_of u evs (fst (auth_run env evs s)) + login_records u s \<le> login_records u (snd (auth_run env evs s))"
proof (induction evs arbitrary: s)
  case (Cons ev evs)
  let ?s1 = "snd (auth_step env ev s)"
  have kept: "recorded u (login_records u s) ?s1"
    using recorded.request_keeps [where u = u and c = "login_records u s" and ev = ev and env = env and s = s]
    by (cases "snd ev") (auto simp: recorded_def)
  have new: "recorded u (Suc (login_records u s)) ?s1"
    if "login_of u (snd ev)" "fst (auth_step env ev s) = Logged_in x" for x
    using that by (intro step_recorded [OF assms]) (auto simp: recorded_def)
  from Cons.IH [of ?s1] kept new show ?case
    unfolding auth_run_Cons by (auto simp: logins_of_def recorded_def let_through_iff)
qed (simp add: logins_of_def)

lemma logins_are_audited_witness:
  "logins_of ''ada'' demo_refreshes (fst (auth_run demo_auth demo_refreshes demo_state)) = 1 \<and>
   logins_of ''ada'' demo_refreshes (fst (auth_run demo_auth demo_refreshes demo_state)) + login_records ''ada'' demo_state
     \<le> login_records ''ada'' (snd (auth_run demo_auth demo_refreshes demo_state))"
proof
  show "logins_of ''ada'' demo_refreshes (fst (auth_run demo_auth demo_refreshes demo_state)) = 1"
    by (simp add: demo_refreshes_def demo_refresh_token_def demo_eval logins_of_def login_of_def)
  show "logins_of ''ada'' demo_refreshes (fst (auth_run demo_auth demo_refreshes demo_state)) + login_records ''ada'' demo_state
      \<le> login_records ''ada'' (snd (auth_run demo_auth demo_refreshes demo_state))"
    by (rule logins_are_audited) (simp add: demo_auth_def)
qed

section \<open>An unfinished enrolment\<close>

definition services_up :: "'r auth_env \<Rightarrow> bool" where
  "services_up env \<longleftrightarrow> redis_ok (ae_redis env) \<and> (\<forall>res n. ae_outage env res n = None)"

lemma services_redis: "services_up env \<Longrightarrow> redis_up env"
  by (simp add: services_up_def redis_up_def)

definition account_locked :: "'r auth_env \<Rightarrow> string \<Rightarrow> 'r auth_state \<Rightarrow> bool" where
  "account_locked env u s \<longleftrightarrow> ae_loginThrottle env \<noteq> None \<and> live_key (wa_now s) (snd (login_keys env u s)) \<noteq> None"

lemma lock_check_up:
  assumes "services_up env"
  shows "\<exists>c. lock_check env u s = (Inr (if account_locked env u s then Some Account_locked else None), s\<lparr>wa_calls := c\<rparr>)"
proof (cases "ae_loginThrottle env")
  case None
  then show ?thesis by (intro exI [of _ "wa_calls s"]) (simp add: lock_check_def account_locked_def)
next
  case (Some cfg)
  then show ?thesis
    unfolding lock_check_def option.case catchC_def isLocked_bind [OF services_redis [OF assms]] returnC_apply
    by (auto simp: account_locked_def login_keys_def)
qed

lemma login_tokens_up:
  "services_up env \<Longrightarrow>
     if us_mfaEnabled v = Some True then \<exists>t. fst (login_tokens env v s) = Inr (Inr (Mfa_required t v))
     else \<exists>resp. fst (login_tokens env v s) = Inr (Inr (Tokens resp))"
  by (auto simp: services_up_def login_tokens_def signMfa_def bindC_assoc auth_simps sign_pair_bind store_renonce_bind)

lemma password_accepted_up:
  assumes "services_up env"
  shows "if us_mfaEnabled v = Some True then \<exists>t. fst (password_accepted env u v s) = Inr (Inr (Mfa_required t v))
         else \<exists>resp. fst (password_accepted env u v s) = Inr (Inr (Tokens resp))"
proof -
  obtain s1 where log: "catchC (bindC (logLogin env ''login_succeeded'' Audit u) (\<lambda>_. returnC True)) False s = (Inr True, s1)"
    using assms by (cases "ae_audited env") (auto simp: services_up_def catchC_def logLogin_def log_entry_def call_def Let_def bindC_def)
  have "fst (login_recordSuccess env u s1) = Inr ()"
    by (auto simp: login_recordSuccess_def catchC_def split: option.splits prod.splits sum.splits)
  then obtain s2 where rec: "login_recordSuccess env u s1 = (Inr (), s2)" by (metis prod.collapse)
  have "password_accepted env u v s = login_tokens env v s2"
    unfolding password_accepted_def bindC_def [of "catchC _ _"] bindC_def [of "login_recordSuccess _ _"] by (simp add: log rec)
  then show ?thesis using login_tokens_up [OF assms, of v s2] by simp
qed

text \<open>While every service answers, a login is decided by the lock, the row and the password.\<close>

lemma login_up:
  assumes up: "services_up env"
  shows "(\<exists>x. fst (login env u p s) = Inr (Inr x)) \<longleftrightarrow>
    \<not> account_locked env u s \<and>
    (\<exists>row. find_first (\<lambda>row. ur_username row = u) (db_users (wa_db s)) = Some row \<and>
       ur_password_hash row \<noteq> [] \<and> pw_verify env p (ur_password_hash row))"
    and "find_first (\<lambda>row. ur_username row = u) (db_users (wa_db s)) = Some row \<Longrightarrow>
      fst (login env u p s) = Inr (Inr x) \<Longrightarrow>
      (if ur_mfa_enabled row = Some True then \<exists>t. x = Mfa_required t (toUser row) else \<exists>resp. x = Tokens resp)"
proof -
  obtain c where check: "lock_check env u s = (Inr (if account_locked env u s then Some Account_locked else None), s\<lparr>wa_calls := c\<rparr>)"
    using lock_check_up [OF up] by blast
  have bind: "bindC (lock_check env u) g s = g (if account_locked env u s then Some Account_locked else None) (s\<lparr>wa_calls := c\<rparr>)" for g
    using check by (rule bindC_Inr)
  have no: "fst (failed_login env u s') \<noteq> Inr (Inr x)" for s' x using failed_login_refuses by (metis prod.collapse)
  have mfa: "us_mfaEnabled (toUser row) = Some True \<longleftrightarrow> ur_mfa_enabled row = Some True" for row by (simp add: toUser_def)
  note acc = password_accepted_up [OF up]
  have run: "fst (login env u p s) =
      (if account_locked env u s then Inr (Inl Account_locked)
       else case find_first (\<lambda>row. ur_username row = u) (db_users (wa_db s)) of
         None \<Rightarrow> fst (failed_login env u (s\<lparr>wa_calls := Suc c\<rparr>))
       | Some row \<Rightarrow>
           if ur_password_hash row = [] \<or> \<not> pw_verify env p (ur_password_hash row)
           then fst (failed_login env u (s\<lparr>wa_calls := Suc (Suc c)\<rparr>))
           else fst (password_accepted env u (toUser row) (s\<lparr>wa_calls := Suc (Suc c)\<rparr>)))"
    using up by (simp add: login_def bind refuse_apply login_verify_def query_bind services_up_def
        findByUsername_def passwordHashByUsername_def split: option.splits)
  show "(\<exists>x. fst (login env u p s) = Inr (Inr x)) \<longleftrightarrow>
    \<not> account_locked env u s \<and>
    (\<exists>row. find_first (\<lambda>row. ur_username row = u) (db_users (wa_db s)) = Some row \<and>
       ur_password_hash row \<noteq> [] \<and> pw_verify env p (ur_password_hash row))"
    unfolding run using no acc by (auto split: option.splits if_splits) (metis)+
  show "find_first (\<lambda>row. ur_username row = u) (db_users (wa_db s)) = Some row \<Longrightarrow>
      fst (login env u p s) = Inr (Inr x) \<Longrightarrow>
      (if ur_mfa_enabled row = Some True then \<exists>t. x = Mfa_required t (toUser row) else \<exists>resp. x = Tokens resp)"
    unfolding run using no acc [of "toUser row" u "s\<lparr>wa_calls := Suc (Suc c)\<rparr>"] by (auto simp: mfa split: option.splits if_splits)
qed

text \<open>The enrolment keeps the row of a name but for the second factor.\<close>

lemma find_update:
  assumes "\<And>row. ur_username (f row) = ur_username row"
  shows "find_first (\<lambda>row. ur_username row = u) (map (\<lambda>row. if ur_id row = i then f row else row) rows) =
         map_option (\<lambda>row. if ur_id row = i then f row else row) (find_first (\<lambda>row. ur_username row = u) rows)"
  using assms by (induction rows) auto

lemma enroll_up:
  assumes "services_up env" "findById i (wa_db s) = Some v"
  shows "\<exists>x uri c. mfa_enroll env i s =
    (Inr (Inr (x, uri)), s\<lparr>wa_nonce := Suc (wa_nonce s), wa_calls := c, wa_db := setTotpSecret (wa_now s) i x (wa_db s)\<rparr>)"
  using assms by (auto simp: services_up_def mfa_enroll_def auth_simps)

lemma find_first_id: "row \<in> set rows \<Longrightarrow> \<exists>r. find_first (\<lambda>r. ur_id r = ur_id row) rows = Some r"
  by (cases "find_first (\<lambda>r. ur_id r = ur_id row) rows") (auto simp: find_first_None)

text \<open>
  Starting an enrolment switches the second factor off. If a login now asks a user for the second factor, then
  after a mere \<open>POST /mfa/enroll\<close> of that user, confirmed by no code, the same login gets its tokens with the
  password alone; setTotpSecret clears \<open>mfa_enabled\<close> and drops the secret that was in use.
\<close>

theorem enrolling_drops_second_factor:
  assumes up: "services_up env"
    and asked: "fst (auth_step env (t, Login u p) s) = Logged_in (Mfa_required tok v)"
  shows "\<exists>resp. fst (auth_step env (t, Login u p) (snd (auth_step env (t0, Mfa_enroll (us_id v)) s))) = Logged_in (Tokens resp)"
proof -
  let ?s = "s\<lparr>wa_now := t\<rparr>" and ?find = "find_first (\<lambda>row. ur_username row = u)"
  have login: "fst (login env u p ?s) = Inr (Inr (Mfa_required tok v))"
    using asked by (auto simp: auth_step_def answer_def outcome_Logged_in)
  then obtain row where row: "?find (db_users (wa_db s)) = Some row" and free: "\<not> account_locked env u ?s"
    and pw: "ur_password_hash row \<noteq> []" "pw_verify env p (ur_password_hash row)"
    using login_up(1) [OF up, of u p ?s] by auto
  have v: "v = toUser row" using login_up(2) [OF up, of u ?s row p] row login by (auto split: if_splits)
  from row have "row \<in> set (db_users (wa_db s))" by (auto dest: find_first_Some)
  then obtain w where "findById (us_id v) (wa_db s) = Some w"
    using find_first_id by (fastforce simp: v findById_def)
  then obtain x uri c where enroll: "mfa_enroll env (us_id v) (s\<lparr>wa_now := t0\<rparr>) =
      (Inr (Inr (x, uri)), s\<lparr>wa_now := t0, wa_nonce := Suc (wa_nonce s), wa_calls := c,
         wa_db := setTotpSecret t0 (us_id v) x (wa_db s)\<rparr>)"
    using enroll_up [OF up, of "us_id v" "s\<lparr>wa_now := t0\<rparr>" w] by auto
  define s1 where "s1 = snd (auth_step env (t0, Mfa_enroll (us_id v)) s)\<lparr>wa_now := t\<rparr>"
  have s1: "s1 = s\<lparr>wa_now := t, wa_nonce := Suc (wa_nonce s), wa_calls := c, wa_db := setTotpSecret t0 (us_id v) x (wa_db s)\<rparr>"
    by (simp add: s1_def auth_step_def answer_def enroll)
  define row' where "row' = row\<lparr>ur_totp_secret := Some x, ur_mfa_enabled := Some False, ur_updated_at := t0\<rparr>"
  have row': "?find (db_users (wa_db s1)) = Some row'"
    by (simp add: s1 setTotpSecret_def update_row_def find_update row v row'_def)
  have "\<not> account_locked env u s1" using free by (simp add: account_locked_def s1 login_keys_def)
  with row' pw login_up(1) [OF up, of u p s1] obtain y where y: "fst (login env u p s1) = Inr (Inr y)" by (auto simp: row'_def)
  with login_up(2) [OF up row' y] have "\<exists>resp. y = Tokens resp" by (simp add: row'_def)
  with y show ?thesis by (auto simp: auth_step_def answer_def s1_def)
qed

lemma enrolling_drops_second_factor_witness:
  "\<exists>resp. fst (auth_step demo_auth (9, Login ''bob'' ''pw'') (snd (auth_step demo_auth (5, Mfa_enroll ''2'') demo_state))) =
     Logged_in (Tokens resp)"
proof -
  let ?bob = "toUser (demo_user_row ''2'' ''bob'' (Some ''x'') True)"
  have "fst (auth_step demo_auth (9, Login ''bob'' ''pw'') demo_state) = Logged_in (Mfa_required (demo_sign (Mfa_claims ''2'') 300) ?bob)"
    by (simp add: demo_eval)
  from enrolling_drops_second_factor [OF _ this, of 5] demo_redis_ok show ?thesis
    by (simp add: services_up_def demo_auth_def toUser_def demo_user_row_def)
qed

section \<open>Overlapping logins\<close>

text \<open>
  Several logins under one name, each of which has asked for the lock before any of them has compared its
  password: the requests wait for Redis and the database between the two.
\<close>

fun check_all :: "'r auth_env \<Rightarrow> string \<Rightarrow> string list \<Rightarrow> 'r auth_state \<Rightarrow> refusal option list \<times> 'r auth_state" where
  "check_all env u [] s = ([], s)"
| "check_all env u (p # ps) s =
     (case lock_check env u s of
        (Inr r, s1) \<Rightarrow> (case check_all env u ps s1 of (rs, s2) \<Rightarrow> (r # rs, s2))
      | (Inl err, s1) \<Rightarrow> ([], s1))"

fun verify_all :: "'r auth_env \<Rightarrow> string \<Rightarrow> string list \<Rightarrow> refusal option list \<Rightarrow> 'r auth_state \<Rightarrow> auth_result list \<times> 'r auth_state" where
  "verify_all env u (p # ps) (r # rs) s =
     (let (x, s1) = (case r of Some e \<Rightarrow> (Refused e, s) | None \<Rightarrow> answer Logged_in (login_verify env u p) s);
          (xs, s2) = verify_all env u ps rs s1
      in (x # xs, s2))"
| "verify_all env u _ _ s = ([], s)"

definition overlapping_logins :: "'r auth_env \<Rightarrow> string \<Rightarrow> string list \<Rightarrow> 'r auth_state \<Rightarrow> auth_result list" where
  "overlapping_logins env u ps s = (case check_all env u ps s of (rs, s1) \<Rightarrow> fst (verify_all env u ps rs s1))"

lemma db_keeps [keeps]:
  "keepsC (\<lambda>s. wa_db s = db) (redis_command env f)" "keepsC (\<lambda>s. wa_db s = db) (log_entry env lv ca co u)"
  "keepsC (\<lambda>s. wa_db s = db) (m :: ('r, 'a) auth) \<Longrightarrow> keepsC (\<lambda>s. wa_db s = db) (catchC m x)"
  by (auto simp: keepsC_def redis_command_def log_entry_def catchC_def call_def Let_def split: option.splits prod.splits sum.splits)

lemma failed_login_db: "wa_db (snd (failed_login env u s)) = wa_db s"
proof -
  have "keepsC (\<lambda>t. wa_db t = wa_db s) (failed_login env u)"
    unfolding failed_login_def login_recordFailure_def logLoginSafe_def logLogin_def th_isLocked_def th_recordFailure_def refuse_def
    by (cases "ae_loginThrottle env") (simp_all, (intro keeps)+)
  then show ?thesis by (auto dest: keepsCD)
qed

lemma failed_login_result: "fst (failed_login env u s) = Inr (Inl Bad_credentials)"
proof -
  have "fst (logLoginSafe env c a u s) = Inr ()" "fst (login_recordFailure env u s) = Inr ()" for c a s
    by (auto simp: logLoginSafe_def login_recordFailure_def catchC_def split: option.splits prod.splits sum.splits)
  then show ?thesis
    by (auto simp: failed_login_def bindC_def refuse_apply split: prod.splits sum.splits) (metis fst_conv sum.distinct(1))+
qed

lemma check_all_up:
  assumes "services_up env"
  shows "\<not> account_locked env u s \<Longrightarrow> \<exists>c. check_all env u ps s = (replicate (length ps) None, s\<lparr>wa_calls := c\<rparr>)"
proof (induction ps arbitrary: s)
  case Nil
  then show ?case by (intro exI [of _ "wa_calls s"]) simp
next
  case (Cons p ps)
  obtain c where c: "lock_check env u s = (Inr None, s\<lparr>wa_calls := c\<rparr>)" using lock_check_up [OF assms, of u s] Cons.prems by auto
  have "\<not> account_locked env u (s\<lparr>wa_calls := c\<rparr>)" using Cons.prems by (simp add: account_locked_def)
  from Cons.IH [OF this] c show ?case by auto
qed

lemma verify_all_wrong:
  assumes up: "services_up env" and row: "find_first (\<lambda>row. ur_username row = u) (db_users (wa_db s)) = Some row"
    and wrong: "\<forall>p\<in>set ps. \<not> pw_verify env p (ur_password_hash row)"
  shows "fst (verify_all env u ps (replicate (length ps) None) s) = replicate (length ps) (Refused Bad_credentials)"
  using row wrong
proof (induction ps arbitrary: s)
  case (Cons p ps)
  define s1 where "s1 = s\<lparr>wa_calls := Suc (Suc (wa_calls s))\<rparr>"
  have "login_verify env u p s = failed_login env u s1"
    using up Cons.prems by (simp add: login_verify_def query_bind services_up_def findByUsername_def passwordHashByUsername_def s1_def)
  then have step: "answer Logged_in (login_verify env u p) s = (Refused Bad_credentials, snd (failed_login env u s1))"
    by (simp add: answer_def failed_login_result)
  have "wa_db (snd (failed_login env u s1)) = wa_db s" by (simp add: failed_login_db s1_def)
  with Cons.prems Cons.IH [of "snd (failed_login env u s1)"] show ?case by (simp add: step case_prod_beta)
qed simp

text \<open>
  The lock does not bound guesses that overlap: whatever \<open>maxFailures\<close> is, any number of logins that have all
  passed the lock before one of them has failed compare all their passwords.
\<close>

theorem overlapping_guesses_unbounded:
  assumes "services_up env" "\<not> account_locked env u s"
    and "find_first (\<lambda>row. ur_username row = u) (db_users (wa_db s)) = Some row"
    and "\<forall>p\<in>set ps. \<not> pw_verify env p (ur_password_hash row)"
  shows "overlapping_logins env u ps s = replicate (length ps) (Refused Bad_credentials)"
proof -
  obtain c where "check_all env u ps s = (replicate (length ps) None, s\<lparr>wa_calls := c\<rparr>)"
    using check_all_up [OF assms(1, 2)] by blast
  with verify_all_wrong [OF assms(1), of u "s\<lparr>wa_calls := c\<rparr>" row ps] assms(3, 4) show ?thesis
    by (simp add: overlapping_logins_def)
qed

lemma overlapping_guesses_unbounded_witness:
  "overlapping_logins demo_auth ''ada'' [''a'', ''b'', ''c''] demo_state =
     [Refused Bad_credentials, Refused Bad_credentials, Refused Bad_credentials] \<and>
   th_maxFailures (the (ae_loginThrottle demo_auth)) = 2"
proof
  have "overlapping_logins demo_auth ''ada'' [''a'', ''b'', ''c''] demo_state =
      replicate (length [''a'', ''b'', ''c'']) (Refused Bad_credentials)"
    by (rule overlapping_guesses_unbounded [where row = "demo_user_row ''1'' ''ada'' None False"])
       (use demo_redis_ok in \<open>simp_all add: services_up_def demo_auth_def demo_state_def demo_user_row_def account_locked_def
          login_keys_def demo_redis_def pw_verify_def\<close>)
  then show "overlapping_logins demo_auth ''ada'' [''a'', ''b'', ''c''] demo_state =
      [Refused Bad_credentials, Refused Bad_credentials, Refused Bad_credentials]"
    by (simp add: numeral_eq_Suc)
qed (simp add: demo_auth_def)

end
