(* ===== verification/Access_Control.thy ===== *)
theory Access_Control
  imports User_Auth Tunnel_Proxy
begin

text \<open>
  Who may call what in the web service: the hook of \<open>rbac.ts\<close> in front of every route, the session
  authenticator of the container tier, the checks of the routes themselves, and the routes of \<open>auth-routes.ts\<close>
  with their statuses. The router and the JSON parser are Fastify's: a request is its raw URL, method and
  headers, and a body field is its string if it is one.
\<close>

section \<open>Permissions\<close>

record route_permission =
  rp_path :: string
  rp_methods :: "string list"
  rp_roles :: "role list"

definition permission :: "string \<Rightarrow> string list \<Rightarrow> role list \<Rightarrow> route_permission" where
  "permission p ms rs = \<lparr>rp_path = p, rp_methods = ms, rp_roles = rs\<rparr>"

definition ROUTE_PERMISSIONS :: "route_permission list" where
  "ROUTE_PERMISSIONS =
     [permission ''/api/auth/users'' [''*''] [Role_admin],
      permission ''/api/commands'' [''*''] [Role_admin, Role_teknik],
      permission ''/api/fields/'' [''POST''] [Role_admin, Role_teknik, Role_boss, Role_guest, Role_developer],
      permission ''/api/fields'' [''GET''] [Role_admin, Role_teknik, Role_boss, Role_guest, Role_developer],
      permission ''/api/data/'' [''*''] [Role_admin, Role_teknik, Role_guest, Role_boss, Role_developer],
      permission ''/api/notifications'' [''GET''] [Role_admin, Role_boss]]"

definition PUBLIC_PREFIXES :: "string list" where
  "PUBLIC_PREFIXES =
     [''/health'', ''/docs'', ''/api/auth/login'', ''/api/auth/refresh'', ''/ws/telemetry'', ''/ws/field'',
      ''/containers/'', ''/fields/'']"

definition MUST_CHANGE_ALLOWLIST :: "string list" where
  "MUST_CHANGE_ALLOWLIST = [''/api/auth/change-password'', ''/api/auth/logout'', ''/api/auth/refresh'']"

definition MFA_ALLOWLIST :: "string list" where
  "MFA_ALLOWLIST =
     [''/api/auth/mfa'', ''/api/auth/logout'', ''/api/auth/refresh'', ''/api/auth/change-password'', ''/api/auth/session'']"

definition matchesRoutePermission :: "route_permission \<Rightarrow> string \<Rightarrow> string \<Rightarrow> bool" where
  "matchesRoutePermission p path method \<longleftrightarrow>
     starts_with (rp_path p) path \<and> (take 1 (rp_methods p) = [''*''] \<or> method \<in> set (rp_methods p))"

definition matchesPublicPrefix :: "string \<Rightarrow> string \<Rightarrow> bool" where
  "matchesPublicPrefix path prefix \<longleftrightarrow>
     (if prefix \<noteq> [] \<and> last prefix = CHR ''/'' then starts_with prefix path
      else path = prefix \<or>
           starts_with prefix path \<and> length prefix < length path \<and> path ! length prefix \<in> {CHR ''/'', CHR ''?''})"

section \<open>The hook\<close>

record http_request =
  rq_url :: string
  rq_method :: string
  rq_headers :: "(string \<times> string) list"

definition header :: "http_request \<Rightarrow> string \<Rightarrow> string option" where
  "header req n = map_of (rq_headers req) n"

text \<open>The hook lets the request pass, with the user it found (none on a public path), or answers it.\<close>

datatype hook_result = Pass "user option" | Deny nat string

definition applyRolePermissions :: "user \<Rightarrow> string \<Rightarrow> string \<Rightarrow> hook_result" where
  "applyRolePermissions u path method =
     (case find_first (\<lambda>p. matchesRoutePermission p path method) ROUTE_PERMISSIONS of
        Some p \<Rightarrow> if us_role u \<in> set (rp_roles p) then Pass (Some u) else Deny 403 ''Bu islem icin yetkiniz yok''
      | None \<Rightarrow> Pass (Some u))"

definition bearer_user :: "'r auth_env \<Rightarrow> int \<Rightarrow> string \<Rightarrow> user option" where
  "bearer_user env now authHeader = verifyAccess env now (drop 7 authHeader)"

definition must_change_refused :: "user \<Rightarrow> string \<Rightarrow> bool" where
  "must_change_refused u path \<longleftrightarrow>
     us_mustChangePassword u = Some True \<and> us_role u \<noteq> Role_guest \<and> \<not> list_ex (\<lambda>p. starts_with p path) MUST_CHANGE_ALLOWLIST"

definition mfa_refused :: "role list \<Rightarrow> user \<Rightarrow> string \<Rightarrow> bool" where
  "mfa_refused required u path \<longleftrightarrow>
     us_role u \<in> set required \<and> us_mfaEnabled u \<noteq> Some True \<and> \<not> list_ex (\<lambda>p. starts_with p path) MFA_ALLOWLIST"

definition check_token_user :: "role list \<Rightarrow> user \<Rightarrow> http_request \<Rightarrow> hook_result" where
  "check_token_user required u req =
     (if must_change_refused u (rq_url req) then Deny 403 ''Sifre degisimi gerekli''
      else if mfa_refused required u (rq_url req) then Deny 403 ''MFA kaydi gerekli''
      else applyRolePermissions u (rq_url req) (rq_method req))"

definition bearer_hook :: "'r auth_env \<Rightarrow> role list \<Rightarrow> int \<Rightarrow> http_request \<Rightarrow> hook_result" where
  "bearer_hook env required now req =
     (case header req ''authorization'' of
        None \<Rightarrow> Deny 401 ''Yetkilendirme gerekli''
      | Some h \<Rightarrow>
          if \<not> starts_with ''Bearer '' h then Deny 401 ''Yetkilendirme gerekli''
          else case bearer_user env now h of
            None \<Rightarrow> Deny 401 ''Gecersiz veya suresi dolmus token''
          | Some u \<Rightarrow> check_token_user required u req)"

text \<open>
  With a session authenticator (container tier) a cookie whose text contains the cookie's name takes the place
  of the bearer token, and neither a pending password change nor a missing second factor is looked at.
\<close>

definition createRbacHook ::
  "'r auth_env \<Rightarrow> (string option \<Rightarrow> user option) option \<Rightarrow> string \<Rightarrow> role list \<Rightarrow> int \<Rightarrow> http_request \<Rightarrow> hook_result" where
  "createRbacHook env sessions cookieName required now req =
     (if list_ex (matchesPublicPrefix (rq_url req)) PUBLIC_PREFIXES then Pass None
      else case (sessions, header req ''cookie'') of
        (Some authenticator, Some cookie) \<Rightarrow>
          if js_includes cookie cookieName
          then (case authenticator (Some cookie) of
                  None \<Rightarrow> Deny 401 ''Gecersiz veya suresi dolmus oturum''
                | Some u \<Rightarrow> applyRolePermissions u (rq_url req) (rq_method req))
          else bearer_hook env required now req
      | _ \<Rightarrow> bearer_hook env required now req)"

section \<open>Sessions of the container tier\<close>

definition role_of :: "string \<Rightarrow> role" where
  "role_of s =
     (if s = ''admin'' then Role_admin else if s = ''teknik'' then Role_teknik else if s = ''guest'' then Role_guest
      else if s = ''boss'' then Role_boss else if s = ''developer'' then Role_developer else Role_other s)"

definition role_name :: "role \<Rightarrow> string" where
  "role_name r =
     (case r of Role_admin \<Rightarrow> ''admin'' | Role_teknik \<Rightarrow> ''teknik'' | Role_guest \<Rightarrow> ''guest'' | Role_boss \<Rightarrow> ''boss''
      | Role_developer \<Rightarrow> ''developer'' | Role_other s \<Rightarrow> s)"

definition toTunnelUser :: "user \<Rightarrow> tunnel_user" where
  "toTunnelUser u = \<lparr>tu_id = us_id u, tu_username = us_username u, tu_role = role_name (us_role u)\<rparr>"

definition toWebUser :: "tunnel_user \<Rightarrow> user" where
  "toWebUser t =
     \<lparr>us_id = tu_id t, us_username = tu_username t, us_role = role_of (tu_role t), us_name = tu_username t,
      us_fieldIds = Some [], us_mustChangePassword = Some False, us_mfaEnabled = None,
      us_createdAt = None, us_updatedAt = None\<rparr>"

definition authenticateToken :: "token_signer \<Rightarrow> int \<Rightarrow> string \<Rightarrow> user option" where
  "authenticateToken sg now token =
     map_option (\<lambda>p. toWebUser \<lparr>tu_id = tp_sub p, tu_username = tp_username p, tu_role = tp_role p\<rparr>) (tk_verify sg now token)"

definition session_authenticate :: "token_signer \<Rightarrow> string \<Rightarrow> int \<Rightarrow> string option \<Rightarrow> user option" where
  "session_authenticate sg cookieName now cookieHeader =
     Option.bind (sessionCookieValue cookieHeader cookieName) (authenticateToken sg now)"

section \<open>Checks of the routes\<close>

definition SYSTEM_USER :: user where
  "SYSTEM_USER =
     \<lparr>us_id = ''system'', us_username = ''system'', us_role = Role_admin, us_name = ''system'', us_fieldIds = Some [],
      us_mustChangePassword = Some False, us_mfaEnabled = None, us_createdAt = None, us_updatedAt = None\<rparr>"

definition authorizeCommand :: "string option \<Rightarrow> user option \<Rightarrow> http_request \<Rightarrow> user option" where
  "authorizeCommand internalToken u req =
     (if (case (internalToken, header req ''x-internal-token'') of
            (Some t, Some h) \<Rightarrow> t \<noteq> [] \<and> h = t
          | _ \<Rightarrow> False)
      then Some SYSTEM_USER
      else case u of
        None \<Rightarrow> None
      | Some v \<Rightarrow> if us_role v \<noteq> Role_admin \<and> us_role v \<noteq> Role_teknik then None else Some v)"

definition authorizeAdmin :: "user option \<Rightarrow> user option" where
  "authorizeAdmin u = (case u of Some v \<Rightarrow> if us_role v \<noteq> Role_admin then None else Some v | None \<Rightarrow> None)"

definition userCanAccessField :: "user \<Rightarrow> string \<Rightarrow> bool" where
  "userCanAccessField u fieldId \<longleftrightarrow>
     (if us_role u = Role_admin \<or> us_role u = Role_boss then True
      else if us_role u = Role_guest \<or> us_role u = Role_developer then True
      else fieldId \<in> set (case us_fieldIds u of Some fs \<Rightarrow> fs | None \<Rightarrow> []))"

text \<open>A route behind the hook: what the hook answers, or the check of the route on what it let pass.\<close>

definition guarded :: "hook_result \<Rightarrow> (user option \<Rightarrow> user option) \<Rightarrow> nat + user" where
  "guarded h check =
     (case h of
        Deny n e \<Rightarrow> Inl n
      | Pass u \<Rightarrow> (case check u of Some v \<Rightarrow> Inr v | None \<Rightarrow> Inl 403))"

section \<open>The routes of authentication\<close>

text \<open>The schemas: a field of the body is a string within the bounds, or the body is refused.\<close>

definition text_in :: "nat \<Rightarrow> nat \<Rightarrow> string option \<Rightarrow> bool" where
  "text_in lo hi v \<longleftrightarrow> (case v of None \<Rightarrow> False | Some x \<Rightarrow> lo \<le> length x \<and> length x \<le> hi)"

definition text_from :: "nat \<Rightarrow> string option \<Rightarrow> bool" where
  "text_from lo v \<longleftrightarrow> (case v of None \<Rightarrow> False | Some x \<Rightarrow> lo \<le> length x)"

definition optional_in :: "nat \<Rightarrow> nat \<Rightarrow> string option \<Rightarrow> bool" where
  "optional_in lo hi v \<longleftrightarrow> v = None \<or> text_in lo hi v"

datatype auth_route =
    Post_login "string option" "string option"
  | Post_login_mfa "string option" "string option"
  | Post_mfa_enroll
  | Post_mfa_confirm "string option"
  | Post_mfa_reset "string option"
  | Post_refresh "string option"
  | Post_logout
  | Post_change_password "string option" "string option"
  | Get_users
  | Post_users create_request
  | Put_user string update_request
  | Delete_user_route string

text \<open>
  The request a route makes of the use cases, or its status where the schema or the route refuses; the use cases
  of the second factor are configured (without them their routes answer 404).
\<close>

definition table_role :: "role \<Rightarrow> bool" where
  "table_role r \<longleftrightarrow> (case r of Role_other s \<Rightarrow> False | _ \<Rightarrow> True)"

definition created_ok :: "create_request \<Rightarrow> bool" where
  "created_ok q \<longleftrightarrow> text_in 1 100 (Some (cq_username q)) \<and> text_in 4 100 (Some (cq_password q)) \<and> text_in 1 200 (Some (cq_name q)) \<and>
     table_role (cq_role q)"

definition updated_ok :: "update_request \<Rightarrow> bool" where
  "updated_ok q \<longleftrightarrow> optional_in 1 100 (uq_username q) \<and> optional_in 4 100 (uq_password q) \<and> optional_in 1 200 (uq_name q) \<and>
     (case uq_role q of None \<Rightarrow> True | Some r \<Rightarrow> table_role r)"

definition route_request :: "user \<Rightarrow> auth_route \<Rightarrow> nat + auth_request" where
  "route_request actor route =
     (case route of
        Post_login u p \<Rightarrow> if text_from 1 u \<and> text_from 1 p then Inr (Login (the u) (the p)) else Inl 400
      | Post_login_mfa t c \<Rightarrow> if text_from 10 t \<and> text_in 6 16 c then Inr (Mfa_login (the t) (the c)) else Inl 400
      | Post_mfa_enroll \<Rightarrow> Inr (Mfa_enroll (us_id actor))
      | Post_mfa_confirm c \<Rightarrow> if text_in 6 16 c then Inr (Mfa_confirm (us_id actor) (the c)) else Inl 400
      | Post_mfa_reset i \<Rightarrow>
          if us_role actor \<noteq> Role_admin then Inl 403
          else if \<not> text_from 1 i then Inl 400 else Inr (Mfa_reset (the i))
      | Post_refresh t \<Rightarrow> if text_from 1 t then Inr (Refresh (the t)) else Inl 400
      | Post_logout \<Rightarrow> Inr (Logout (us_id actor))
      | Post_change_password a b \<Rightarrow>
          if text_from 1 a \<and> text_in 8 100 b then Inr (Change_password (us_id actor) (the a) (the b)) else Inl 400
      | Get_users \<Rightarrow> Inr List_users
      | Post_users q \<Rightarrow> if created_ok q then Inr (Create_user q) else Inl 400
      | Put_user i q \<Rightarrow> if updated_ok q then Inr (Update_user i q) else Inl 400
      | Delete_user_route i \<Rightarrow> Inr (Delete_user i (us_id actor)))"

fun refusal_status :: "auth_request \<Rightarrow> refusal \<Rightarrow> nat" where
  "refusal_status (Login u p) e = (if e = Account_locked then 429 else 401)"
| "refusal_status (Mfa_login t c) e = (if e = Mfa_locked then 429 else 401)"
| "refusal_status (Mfa_confirm i c) e = (if e = Mfa_locked then 429 else 400)"
| "refusal_status (Refresh t) e = 401"
| "refusal_status (Update_user i q) e = (if e = User_unknown then 404 else 400)"
| "refusal_status (Delete_user i c) e = (if e = User_unknown then 404 else 400)"
| "refusal_status _ e = 400"

definition result_status :: "auth_request \<Rightarrow> auth_result \<Rightarrow> nat" where
  "result_status req r =
     (case r of
        Rejected err \<Rightarrow> 500
      | Refused e \<Rightarrow> refusal_status req e
      | Account u \<Rightarrow> (case req of Create_user q \<Rightarrow> 201 | _ \<Rightarrow> 200)
      | _ \<Rightarrow> 200)"

definition auth_route_handle :: "'r auth_env \<Rightarrow> user \<Rightarrow> auth_route \<Rightarrow> 'r auth_state \<Rightarrow> (nat \<times> auth_result option) \<times> 'r auth_state" where
  "auth_route_handle env actor route s =
     (case route_request actor route of
        Inl status \<Rightarrow> ((status, None), s)
      | Inr req \<Rightarrow> (case auth_handle env req s of (r, s') \<Rightarrow> ((result_status req r, Some r), s')))"

text \<open>The two routes that only read: the session of the caller, with the mark of a tunnel cookie, and one account.\<close>

definition session_route :: "user option \<Rightarrow> http_request \<Rightarrow> nat \<times> (user \<times> bool) option" where
  "session_route actor req =
     (case actor of
        None \<Rightarrow> (401, None)
      | Some u \<Rightarrow>
          let cookie = (case header req ''cookie'' of Some c \<Rightarrow> c | None \<Rightarrow> [])
          in (200, Some (u, js_includes cookie ''container_session='' \<or> js_includes cookie ''field_session='')))"

definition user_route :: "'r auth_env \<Rightarrow> string \<Rightarrow> ('r, nat \<times> user option) auth" where
  "user_route env i =
     bindC (query env (findById i)) (\<lambda>found.
     case found of None \<Rightarrow> returnC (404, None) | Some u \<Rightarrow> returnC (200, Some u))"

end
