(* ===== verification/Access_Facts.thy ===== *)
theory Access_Facts
  imports Access_Control Action_Executor Auth_Demo
begin

text \<open>
  What the hook lets through, and what it does to the calls of the management service, which carry a token that
  only the routes behind the hook would look at.
\<close>

section \<open>Who passes the hook\<close>

lemma starts_with_self [simp]: "starts_with p (p @ q)"
  by (induction p) auto

lemma starts_with_iff: "starts_with p x \<longleftrightarrow> (\<exists>q. x = p @ q)"
proof
  show "starts_with p x \<Longrightarrow> \<exists>q. x = p @ q" by (induction p x rule: starts_with.induct) auto
qed auto

text \<open>A user the hook identified: from a session cookie, or from a bearer token that holds what it must hold.\<close>

definition identified ::
  "'r auth_env \<Rightarrow> (string option \<Rightarrow> user option) option \<Rightarrow> string \<Rightarrow> role list \<Rightarrow> int \<Rightarrow> http_request \<Rightarrow> user \<Rightarrow> bool" where
  "identified env sessions cookieName required now req u \<longleftrightarrow>
     (\<exists>auth cookie. sessions = Some auth \<and> header req ''cookie'' = Some cookie \<and> js_includes cookie cookieName \<and> auth (Some cookie) = Some u) \<or>
     (\<exists>tok. header req ''authorization'' = Some (''Bearer '' @ tok) \<and> verifyAccess env now tok = Some u \<and>
        \<not> must_change_refused u (rq_url req) \<and> \<not> mfa_refused required u (rq_url req))"

lemma role_pass: "applyRolePermissions u path m = Pass r \<Longrightarrow> r = Some u"
  by (auto simp: applyRolePermissions_def split: option.splits if_splits)

lemma bearer_pass:
  assumes "bearer_hook env required now req = Pass r"
  shows "\<exists>u. r = Some u \<and> identified env sessions cookieName required now req u \<and>
           applyRolePermissions u (rq_url req) (rq_method req) = Pass r"
  using assms
  by (auto simp: bearer_hook_def bearer_user_def check_token_user_def identified_def starts_with_iff split: option.splits if_splits
      dest: role_pass)

lemma hook_pass:
  assumes "createRbacHook env sessions cookieName required now req = Pass r"
    and "\<not> list_ex (matchesPublicPrefix (rq_url req)) PUBLIC_PREFIXES"
  shows "\<exists>u. r = Some u \<and> identified env sessions cookieName required now req u \<and>
           applyRolePermissions u (rq_url req) (rq_method req) = Pass r"
proof (cases "bearer_hook env required now req = Pass r")
  case True
  then show ?thesis by (rule bearer_pass)
next
  case False
  with assms obtain auth cookie where s: "sessions = Some auth" "header req ''cookie'' = Some cookie" "js_includes cookie cookieName"
    and a: "(case auth (Some cookie) of None \<Rightarrow> Deny 401 ''Gecersiz veya suresi dolmus oturum''
                | Some u \<Rightarrow> applyRolePermissions u (rq_url req) (rq_method req)) = Pass r"
    by (auto simp: createRbacHook_def split: option.splits if_splits)
  then show ?thesis by (auto simp: identified_def split: option.splits dest: role_pass)
qed

lemma commands_not_public: "\<not> list_ex (matchesPublicPrefix (''/api/commands'' @ q)) PUBLIC_PREFIXES"
  by (simp add: PUBLIC_PREFIXES_def matchesPublicPrefix_def)

lemma command_roles: "applyRolePermissions u (''/api/commands'' @ q) m = Pass r \<Longrightarrow> us_role u \<in> {Role_admin, Role_teknik}"
  by (auto simp: applyRolePermissions_def ROUTE_PERMISSIONS_def permission_def matchesRoutePermission_def split: if_splits)

text \<open>
  C6: Only operators reach the command routes. A request whose URL starts with \<open>/api/commands\<close> passes the hook
  only with a user of the role admin or teknik, whom a valid session cookie or an access token names; with an
  access token the user has no pending password change and, where the role needs it, a second factor.
\<close>

theorem commands_need_operator:
  assumes "createRbacHook env sessions cookieName required now req = Pass r"
    and "starts_with ''/api/commands'' (rq_url req)"
  shows "\<exists>u. r = Some u \<and> us_role u \<in> {Role_admin, Role_teknik} \<and>
    ((\<exists>auth cookie. sessions = Some auth \<and> header req ''cookie'' = Some cookie \<and> auth (Some cookie) = Some u) \<or>
     (\<exists>tok. header req ''authorization'' = Some (''Bearer '' @ tok) \<and> verifyAccess env now tok = Some u \<and>
        us_mustChangePassword u \<noteq> Some True \<and> (us_role u \<in> set required \<longrightarrow> us_mfaEnabled u = Some True)))"
proof -
  obtain q where q: "rq_url req = ''/api/commands'' @ q" using assms(2) by (auto simp: starts_with_iff)
  obtain u where u: "r = Some u" "identified env sessions cookieName required now req u"
    "applyRolePermissions u (rq_url req) (rq_method req) = Pass r"
    using hook_pass [OF assms(1)] commands_not_public [of q] q by auto
  have role: "us_role u \<in> {Role_admin, Role_teknik}" using u(3) command_roles unfolding q by blast
  then have "\<not> must_change_refused u (rq_url req) \<longleftrightarrow> us_mustChangePassword u \<noteq> Some True"
    "\<not> mfa_refused required u (rq_url req) \<longleftrightarrow> (us_role u \<in> set required \<longrightarrow> us_mfaEnabled u = Some True)"
    by (auto simp: q must_change_refused_def mfa_refused_def MUST_CHANGE_ALLOWLIST_def MFA_ALLOWLIST_def)
  with u role show ?thesis unfolding identified_def by auto
qed

definition demo_access :: "user \<Rightarrow> string" where
  "demo_access u = demo_sign (access_claims u) 900"

definition demo_operator :: user where
  "demo_operator = toUser (demo_user_row ''1'' ''ada'' None False)"

definition demo_request :: http_request where
  "demo_request = \<lparr>rq_url = ''/api/commands/execute'', rq_method = ''POST'',
     rq_headers = [(''authorization'', ''Bearer '' @ demo_access demo_operator)]\<rparr>"

definition demo_claimed :: user where
  "demo_claimed = demo_operator\<lparr>us_fieldIds := Some [], us_createdAt := None, us_updatedAt := None\<rparr>"

lemma demo_hook: "createRbacHook demo_auth None ''container_session'' [Role_admin] 0 demo_request = Pass (Some demo_claimed)"
  by (simp add: createRbacHook_def demo_request_def PUBLIC_PREFIXES_def matchesPublicPrefix_def bearer_hook_def header_def
      bearer_user_def verifyAccess_def demo_access_def demo_auth_def demo_verify_inv epoch_seconds_def token_user_def access_claims_def
      check_token_user_def must_change_refused_def mfa_refused_def demo_operator_def demo_user_row_def toUser_def demo_claimed_def
      applyRolePermissions_def ROUTE_PERMISSIONS_def permission_def matchesRoutePermission_def)

lemma commands_need_operator_witness:
  "us_role demo_claimed \<in> {Role_admin, Role_teknik} \<and> us_mustChangePassword demo_claimed \<noteq> Some True"
  using commands_need_operator [OF demo_hook] by (auto simp: demo_request_def)

section \<open>The raw URL\<close>

text \<open>
  The permissions are matched against the URL as it was sent. A percent-encoded letter, which the router decodes
  before it looks for the route, takes the request out of every entry: any identified user passes.
\<close>

theorem encoded_path_unchecked:
  assumes "bearer_user env now h = Some u" "header req ''authorization'' = Some h" "starts_with ''Bearer '' h"
    and "rq_url req = ''/api/%63ommands/execute''" "us_mustChangePassword u \<noteq> Some True" "us_role u \<notin> set required"
  shows "createRbacHook env None cookieName required now req = Pass (Some u)"
  using assms
  by (simp add: createRbacHook_def PUBLIC_PREFIXES_def matchesPublicPrefix_def bearer_hook_def check_token_user_def
      must_change_refused_def mfa_refused_def applyRolePermissions_def ROUTE_PERMISSIONS_def permission_def matchesRoutePermission_def)

section \<open>The calls of the management service\<close>

text \<open>The answer of the hook as the caller reads it, and a server with the hook in front of its routes.\<close>

definition hook_answer :: "nat \<Rightarrow> string \<Rightarrow> http_answer" where
  "hook_answer status err =
     \<lparr>ha_status = status, ha_body = Some \<lparr>hb_results = None, hb_status = None, hb_reason = None, hb_error = Some err\<rparr>\<rparr>"

definition behind_hook :: "'w http_channel \<Rightarrow> (http_request \<Rightarrow> hook_result) \<Rightarrow> bool" where
  "behind_hook ch hook \<longleftrightarrow>
     (\<forall>path headers payload w status err.
        hook \<lparr>rq_url = path, rq_method = ''POST'', rq_headers = headers\<rparr> = Deny status err \<longrightarrow>
        fst (hc_fetch ch (trim_slashes (hc_baseUrl ch) @ path) headers payload w) = Inr (hook_answer status err))"

lemma channel_denied:
  assumes "\<not> list_ex (matchesPublicPrefix path) PUBLIC_PREFIXES"
  shows "createRbacHook env sessions cookieName required now
           \<lparr>rq_url = path, rq_method = ''POST'', rq_headers = channel_headers ch traceId\<rparr> = Deny 401 ''Yetkilendirme gerekli''"
proof -
  have "map_of (channel_headers ch traceId) ''authorization'' = None" "map_of (channel_headers ch traceId) ''cookie'' = None"
    by (auto simp: channel_headers_def split: option.splits)
  with assms show ?thesis by (simp add: createRbacHook_def bearer_hook_def header_def split: option.splits)
qed

lemma fields_not_public: "\<not> list_ex (matchesPublicPrefix (''/api/fields/'' @ q)) PUBLIC_PREFIXES"
  by (simp add: PUBLIC_PREFIXES_def matchesPublicPrefix_def)

lemma runs_not_public:
  "\<not> list_ex (matchesPublicPrefix (''/api/'' @ (case kind of Maneuver \<Rightarrow> ''maneuvers'' | Operation \<Rightarrow> ''operations'') @ q)) PUBLIC_PREFIXES"
  by (cases kind) (simp_all add: PUBLIC_PREFIXES_def matchesPublicPrefix_def)

lemma channel_token:
  "hc_token ch = Some t \<Longrightarrow> t \<noteq> [] \<Longrightarrow>
   authorizeCommand (Some t) None \<lparr>rq_url = path, rq_method = ''POST'', rq_headers = channel_headers ch traceId\<rparr> = Some SYSTEM_USER"
  by (simp add: authorizeCommand_def header_def channel_headers_def)

text \<open>
  The internal token opens nothing. Behind the hook every container command and every maneuver or operation
  that the rule engine sends over HTTP fails with the 401 of the hook, although the check of the route itself
  would take the call for the system user: the calls carry \<open>x-internal-token\<close> and no bearer token, and the
  routes that accept it are never reached.
\<close>

theorem internal_calls_refused:
  assumes "behind_hook ch (createRbacHook env sessions cookieName required now)"
    and "hc_token ch = Some t" "t \<noteq> []"
    and "hc_encode ch (hc_fieldId ch) = Some f" "hc_encode ch containerId = Some c" "hc_encode ch name = Some n"
  shows "fst (http_container_send ch containerId deviceId command ps traceId w) = Inr (False, Some ''Yetkilendirme gerekli'') \<and>
    fst (http_operation_execute ch kind name ps traceId w) = Inr (False, False, Some ''Yetkilendirme gerekli'') \<and>
    authorizeCommand (Some t) None \<lparr>rq_url = path, rq_method = ''POST'', rq_headers = channel_headers ch traceId\<rparr> = Some SYSTEM_USER"
proof (intro conjI)
  have denied: "fst (hc_fetch ch (trim_slashes (hc_baseUrl ch) @ path) (channel_headers ch traceId) payload w) =
      Inr (hook_answer 401 ''Yetkilendirme gerekli'')"
    if "\<not> list_ex (matchesPublicPrefix path) PUBLIC_PREFIXES" for path payload
    using assms(1) channel_denied [OF that] unfolding behind_hook_def by blast
  show "fst (http_container_send ch containerId deviceId command ps traceId w) = Inr (False, Some ''Yetkilendirme gerekli'')"
    using assms denied [OF fields_not_public [of "f @ ''/containers/'' @ c @ ''/commands''"], of "One_command deviceId command (or_else ps [])"]
    by (auto simp: http_container_send_def container_answer_def hook_answer_def response_ok_def or_else_def split: prod.splits sum.splits)
  show "fst (http_operation_execute ch kind name ps traceId w) = Inr (False, False, Some ''Yetkilendirme gerekli'')"
    using assms denied [OF runs_not_public [of kind "''/'' @ n @ ''/execute''"], of "Run_params (or_else ps [])"]
    by (auto simp: http_operation_execute_def operation_answer_def hook_answer_def response_ok_def split: prod.splits sum.splits)
qed (use assms in \<open>simp add: channel_token\<close>)

definition demo_channel :: "unit http_channel" where
  "demo_channel =
     \<lparr>hc_baseUrl = ''http://f'', hc_fieldId = ''f1'', hc_token = Some ''secret'', hc_encode = Some,
      hc_fetch = (\<lambda>url headers payload w.
        (Inr (case createRbacHook demo_auth None ''container_session'' [Role_admin] 0
                 \<lparr>rq_url = drop (length ''http://f'') url, rq_method = ''POST'', rq_headers = headers\<rparr> of
                Deny status err \<Rightarrow> hook_answer status err
              | Pass u \<Rightarrow> hook_answer 404 ''Not Found''), w))\<rparr>"

lemma internal_calls_refused_witness:
  "fst (http_container_send demo_channel ''c1'' ''pcs'' ''stop'' None ''t'' ()) = Inr (False, Some ''Yetkilendirme gerekli'') \<and>
   authorizeCommand (Some ''secret'') None
     \<lparr>rq_url = ''/api/operations/x/execute'', rq_method = ''POST'', rq_headers = channel_headers demo_channel ''t''\<rparr> = Some SYSTEM_USER"
proof -
  have "behind_hook demo_channel (createRbacHook demo_auth None ''container_session'' [Role_admin] 0)"
    by (simp add: behind_hook_def demo_channel_def trim_slashes_def)
  from internal_calls_refused [OF this, of "''secret''" "''f1''" "''c1''" "''c1''" "''x''" "''x''"] show ?thesis
    by (simp add: demo_channel_def)
qed

section \<open>Technicians without a field\<close>

text \<open>
  The schemas of \<open>POST /users\<close> and \<open>PUT /users/:id\<close> accept \<open>fieldIds\<close> and the use cases drop them: a technician
  made through the API may see no field, and no update changes that.
\<close>

theorem technician_has_no_field:
  assumes "createUser env q s = (Inr (Inr u), s')" and "cq_role q = Role_teknik"
  shows "\<not> userCanAccessField u f"
proof -
  have "us_role u = Role_teknik \<and> us_fieldIds u = Some []"
    using assms
    by (auto simp: createUser_def auth_simps hash_password_def bindC_assoc Let_def
        create_user_def new_row_def toUser_def split: option.splits prod.splits sum.splits if_splits)
  then show ?thesis by (simp add: userCanAccessField_def)
qed

theorem update_keeps_fields:
  assumes "updateUser env i q s = (r, s')"
  shows "map ur_field_ids (db_users (wa_db s')) = map ur_field_ids (db_users (wa_db s))"
  using assms
  by (auto simp: updateUser_def auth_simps hash_password_def bindC_assoc Let_def
      update_user_def returning_def update_row_def apply_update_def no_update_def assign_def
      split: option.splits prod.splits sum.splits if_splits)

end
