(* ===== verification/Hub_Credentials.thy ===== *)
theory Hub_Credentials
  imports Tunnel_Sessions
begin

text \<open>
  The identities of peers in the hub service (packages/ws-tunnel-hub): \<open>SqlitePeerCredentialStore\<close> with each
  statement as a function on its two tables, the stores of the environment mode, and the use cases
  \<open>CreateBootstrap\<close>, \<open>ClaimBootstrap\<close> and the first half of \<open>RevokePeer\<close>. The locale \<open>credential_store\<close> is the
  port \<open>IPeerBootstrapRepository\<close> with \<open>IPeerCredentialsStore\<close>: what its operations do to the identity of each
  peer. SHA-256 and the random secrets are parameters.
\<close>

section \<open>Errors of the use cases\<close>

datatype hub_kind =
  Validation_kind | Unauthorized_kind | Forbidden_kind | Not_found_kind | Conflict_kind | Transient_kind | Fatal_kind

text \<open>The kind and the code of a \<open>DomainError\<close>.\<close>

type_synonym hub_error = "hub_kind \<times> string"

definition statusForKind :: "hub_kind \<Rightarrow> nat" where
  "statusForKind k =
     (case k of Validation_kind \<Rightarrow> 400 | Unauthorized_kind \<Rightarrow> 401 | Forbidden_kind \<Rightarrow> 403 | Not_found_kind \<Rightarrow> 404
      | Conflict_kind \<Rightarrow> 409 | Transient_kind \<Rightarrow> 503 | Fatal_kind \<Rightarrow> 500)"

section \<open>The tables\<close>

record credential =
  kr_tokenHash :: string
  kr_revoked :: bool

record invitation =
  iv_tokenHash :: string
  iv_expiresAt :: int
  iv_used :: bool

text \<open>Both tables have the peer as primary key.\<close>

record credential_db =
  cd_credentials :: "(string, credential) jsmap"
  cd_bootstrap :: "(string, invitation) jsmap"

definition empty_credentials :: credential_db where
  "empty_credentials = \<lparr>cd_credentials = [], cd_bootstrap = []\<rparr>"

definition store_authenticate :: "(string \<Rightarrow> string) \<Rightarrow> string \<Rightarrow> credential_db \<Rightarrow> bool" where
  "store_authenticate sha token db \<longleftrightarrow>
     token \<noteq> [] \<and> list_ex (\<lambda>(p, k). kr_tokenHash k = sha token \<and> \<not> kr_revoked k) (cd_credentials db)"

definition store_createBootstrap :: "string \<Rightarrow> string \<Rightarrow> int \<Rightarrow> credential_db \<Rightarrow> credential_db" where
  "store_createBootstrap peerId tokenHash expiresAt db =
     db\<lparr>cd_bootstrap := js_set peerId \<lparr>iv_tokenHash = tokenHash, iv_expiresAt = expiresAt, iv_used = False\<rparr> (cd_bootstrap db)\<rparr>"

definition claimable :: "string \<Rightarrow> int \<Rightarrow> invitation \<Rightarrow> bool" where
  "claimable tokenHash now i \<longleftrightarrow> iv_tokenHash i = tokenHash \<and> \<not> iv_used i \<and> now < iv_expiresAt i"

definition store_claim :: "string \<Rightarrow> string \<Rightarrow> string \<Rightarrow> int \<Rightarrow> credential_db \<Rightarrow> bool \<times> credential_db" where
  "store_claim peerId bootstrapTokenHash secretHash now db =
     (case js_get (cd_bootstrap db) peerId of
        None \<Rightarrow> (False, db)
      | Some i \<Rightarrow>
          if claimable bootstrapTokenHash now i
          then (True, db\<lparr>cd_bootstrap := js_set peerId (i\<lparr>iv_used := True\<rparr>) (cd_bootstrap db),
                         cd_credentials := js_set peerId \<lparr>kr_tokenHash = secretHash, kr_revoked = False\<rparr> (cd_credentials db)\<rparr>)
          else (False, db))"

definition store_revoke :: "string \<Rightarrow> credential_db \<Rightarrow> credential_db" where
  "store_revoke peerId db =
     \<lparr>cd_credentials = (case js_get (cd_credentials db) peerId of
        None \<Rightarrow> cd_credentials db | Some k \<Rightarrow> js_set peerId (k\<lparr>kr_revoked := True\<rparr>) (cd_credentials db)),
      cd_bootstrap = js_delete peerId (cd_bootstrap db)\<rparr>"

text \<open>
  The stores of the environment mode, for peers and for consumers: one token, kept as its hash, refused when it is
  blank; the comparison takes constant time.
\<close>

definition env_store :: "(string \<Rightarrow> string) \<Rightarrow> string \<Rightarrow> string option" where
  "env_store sha token = (if js_blank token then None else Some (sha token))"

definition env_verify :: "(string \<Rightarrow> string) \<Rightarrow> string \<Rightarrow> string \<Rightarrow> bool" where
  "env_verify sha expected token \<longleftrightarrow> token \<noteq> [] \<and> sha token = expected"

section \<open>The use cases\<close>

record hub_env =
  he_sha :: "string \<Rightarrow> string"
  he_secret :: "nat \<Rightarrow> string"        \<comment> \<open>the n-th random secret\<close>
  he_bootstrapTtlMs :: int
  he_staleTimeoutMs :: int
  he_consumerHash :: string
  he_peerHash :: "string option"   \<comment> \<open>environment mode: the hash of the one peer token\<close>

definition DEFAULT_BOOTSTRAP_TTL_MS :: int where
  "DEFAULT_BOOTSTRAP_TTL_MS = 24 * 60 * 60 * 1000"

text \<open>\<open>generateSecret\<close> takes the next random secret.\<close>

record enrolment =
  en_db :: credential_db
  en_drawn :: nat

definition new_enrolment :: enrolment where
  "new_enrolment = \<lparr>en_db = empty_credentials, en_drawn = 0\<rparr>"

definition generateSecret :: "hub_env \<Rightarrow> enrolment \<Rightarrow> string \<times> enrolment" where
  "generateSecret env s = (he_secret env (en_drawn s), s\<lparr>en_drawn := Suc (en_drawn s)\<rparr>)"

definition create_bootstrap :: "hub_env \<Rightarrow> int \<Rightarrow> string \<Rightarrow> enrolment \<Rightarrow> (hub_error + string \<times> int) \<times> enrolment" where
  "create_bootstrap env now peerId s =
     (if js_blank peerId then (Inl (Validation_kind, ''hub.bootstrap.no-peer-id''), s)
      else case generateSecret env s of
        (token, s1) \<Rightarrow>
          let expiresAt = now + he_bootstrapTtlMs env
          in (Inr (token, expiresAt), s1\<lparr>en_db := store_createBootstrap peerId (he_sha env token) expiresAt (en_db s1)\<rparr>))"

definition claim_bootstrap :: "hub_env \<Rightarrow> int \<Rightarrow> string \<Rightarrow> string \<Rightarrow> enrolment \<Rightarrow> (hub_error + string) \<times> enrolment" where
  "claim_bootstrap env now peerId bootstrapToken s =
     (if js_blank peerId \<or> js_blank bootstrapToken then (Inl (Validation_kind, ''hub.bootstrap.invalid-input''), s)
      else case generateSecret env s of
        (secret, s1) \<Rightarrow>
          (case store_claim peerId (he_sha env bootstrapToken) (he_sha env secret) now (en_db s1) of
             (claimed, db) \<Rightarrow>
               (if claimed then Inr secret else Inl (Validation_kind, ''hub.bootstrap.invalid''), s1\<lparr>en_db := db\<rparr>)))"

definition revoke_identity :: "string \<Rightarrow> enrolment \<Rightarrow> (hub_error + unit) \<times> enrolment" where
  "revoke_identity peerId s =
     (if js_blank peerId then (Inl (Validation_kind, ''hub.revoke.no-peer-id''), s)
      else (Inr (), s\<lparr>en_db := store_revoke peerId (en_db s)\<rparr>))"

text \<open>\<open>AuthenticatePeerToken\<close> over the store of the mode, \<open>AuthenticateConsumerToken\<close>.\<close>

definition authenticate_peer :: "hub_env \<Rightarrow> string \<Rightarrow> enrolment \<Rightarrow> bool" where
  "authenticate_peer env token s =
     (case he_peerHash env of
        Some h \<Rightarrow> env_verify (he_sha env) h token
      | None \<Rightarrow> store_authenticate (he_sha env) token (en_db s))"

definition authenticate_consumer :: "hub_env \<Rightarrow> string \<Rightarrow> bool" where
  "authenticate_consumer env token = env_verify (he_sha env) (he_consumerHash env) token"

section \<open>The life of an identity\<close>

text \<open>What a peer has: the hash of its secret, unless revoked, and the invitation it may still claim.\<close>

record identity =
  id_secret :: "string option"
  id_invitation :: "(string \<times> int) option"

type_synonym identities = "string \<Rightarrow> identity"

definition no_identity :: identity where
  "no_identity = \<lparr>id_secret = None, id_invitation = None\<rparr>"

definition invite :: "string \<Rightarrow> string \<Rightarrow> int \<Rightarrow> identities \<Rightarrow> identities" where
  "invite p h e a = a(p := (a p)\<lparr>id_invitation := Some (h, e)\<rparr>)"

definition may_claim :: "string \<Rightarrow> string \<Rightarrow> int \<Rightarrow> identities \<Rightarrow> bool" where
  "may_claim p h now a \<longleftrightarrow> (\<exists>e. id_invitation (a p) = Some (h, e) \<and> now < e)"

definition enrol :: "string \<Rightarrow> string \<Rightarrow> identities \<Rightarrow> identities" where
  "enrol p secret a = a(p := \<lparr>id_secret = Some secret, id_invitation = None\<rparr>)"

definition forget :: "string \<Rightarrow> identities \<Rightarrow> identities" where
  "forget p a = a(p := no_identity)"

definition known :: "string \<Rightarrow> identities \<Rightarrow> bool" where
  "known h a \<longleftrightarrow> (\<exists>p. id_secret (a p) = Some h)"

locale credential_store =
  fixes sha :: "string \<Rightarrow> string"
    and auth :: "string \<Rightarrow> 'db \<Rightarrow> bool"
    and create :: "string \<Rightarrow> string \<Rightarrow> int \<Rightarrow> 'db \<Rightarrow> 'db"
    and claim :: "string \<Rightarrow> string \<Rightarrow> string \<Rightarrow> int \<Rightarrow> 'db \<Rightarrow> bool \<times> 'db"
    and revoke :: "string \<Rightarrow> 'db \<Rightarrow> 'db"
    and abs :: "'db \<Rightarrow> identities"
    and ok :: "'db \<Rightarrow> bool"
  assumes ok_create: "ok db \<Longrightarrow> ok (create p h e db)"
    and ok_claim: "ok db \<Longrightarrow> ok (snd (claim p h k now db))"
    and ok_revoke: "ok db \<Longrightarrow> ok (revoke p db)"
    and auth_abs: "ok db \<Longrightarrow> auth token db \<longleftrightarrow> token \<noteq> [] \<and> known (sha token) (abs db)"
    and create_abs: "ok db \<Longrightarrow> abs (create p h e db) = invite p h e (abs db)"
    and claim_fst: "ok db \<Longrightarrow> fst (claim p h k now db) \<longleftrightarrow> may_claim p h now (abs db)"
    and claim_abs: "ok db \<Longrightarrow> abs (snd (claim p h k now db)) = (if may_claim p h now (abs db) then enrol p k (abs db) else abs db)"
    and revoke_abs: "ok db \<Longrightarrow> abs (revoke p db) = forget p (abs db)"
begin

text \<open>A claimed invitation is gone; the secret it gave is known until the peer is revoked or enrolled again.\<close>

lemma claim_once: "ok db \<Longrightarrow> fst (claim p h k now db) \<Longrightarrow> \<not> fst (claim p h' k' now' (snd (claim p h k now db)))"
  by (simp add: claim_fst claim_abs ok_claim may_claim_def enrol_def)

lemma claimed_known: "ok db \<Longrightarrow> fst (claim p (sha t) (sha secret) now db) \<Longrightarrow> secret \<noteq> [] \<Longrightarrow> auth secret (snd (claim p (sha t) (sha secret) now db))"
  by (auto simp: claim_fst claim_abs auth_abs ok_claim enrol_def known_def)

lemma revoked_unknown:
  assumes "ok db" "\<And>q. q \<noteq> p \<Longrightarrow> id_secret (abs db q) \<noteq> Some (sha secret)"
  shows "\<not> auth secret (revoke p db)"
  using assms by (auto simp: auth_abs ok_revoke revoke_abs forget_def no_identity_def known_def split: if_splits)

lemma expired_refused: "ok db \<Longrightarrow> id_invitation (abs db p) = Some (h, e) \<Longrightarrow> e \<le> now \<Longrightarrow> \<not> fst (claim p h k now db)"
  by (simp add: claim_fst may_claim_def)

end

section \<open>The tables implement the identities\<close>

definition identities_of :: "credential_db \<Rightarrow> identities" where
  "identities_of db p =
     \<lparr>id_secret = (case js_get (cd_credentials db) p of
        None \<Rightarrow> None | Some k \<Rightarrow> if kr_revoked k then None else Some (kr_tokenHash k)),
      id_invitation = (case js_get (cd_bootstrap db) p of
        None \<Rightarrow> None | Some i \<Rightarrow> if iv_used i then None else Some (iv_tokenHash i, iv_expiresAt i))\<rparr>"

definition wf_credentials :: "credential_db \<Rightarrow> bool" where
  "wf_credentials db \<longleftrightarrow> wf_map (cd_credentials db) \<and> wf_map (cd_bootstrap db)"

lemma wf_empty_credentials [simp]: "wf_credentials empty_credentials"
  by (simp add: wf_credentials_def empty_credentials_def)

lemma known_rows:
  assumes "wf_credentials db"
  shows "known h (identities_of db) \<longleftrightarrow> list_ex (\<lambda>(p, k). kr_tokenHash k = h \<and> \<not> kr_revoked k) (cd_credentials db)"
proof -
  have "known h (identities_of db) \<longleftrightarrow> (\<exists>p k. js_get (cd_credentials db) p = Some k \<and> kr_tokenHash k = h \<and> \<not> kr_revoked k)"
    by (auto simp: known_def identities_of_def split: option.splits if_splits)
  also have "\<dots> \<longleftrightarrow> (\<exists>p k. (p, k) \<in> set (cd_credentials db) \<and> kr_tokenHash k = h \<and> \<not> kr_revoked k)"
    using assms by (simp add: wf_credentials_def js_get_in_set)
  finally show ?thesis by (auto simp: list_ex_iff)
qed

interpretation tables: credential_store sha "store_authenticate sha" store_createBootstrap store_claim store_revoke identities_of wf_credentials
  for sha
proof
  fix db p h e k now token
  assume wf: "wf_credentials db"
  show "wf_credentials (store_createBootstrap p h e db)" "wf_credentials (store_revoke p db)"
    "wf_credentials (snd (store_claim p h k now db))"
    using wf by (auto simp: wf_credentials_def store_createBootstrap_def store_revoke_def store_claim_def split: option.splits)
  show "store_authenticate sha token db \<longleftrightarrow> token \<noteq> [] \<and> known (sha token) (identities_of db)"
    by (simp add: store_authenticate_def known_rows [OF wf])
  show "identities_of (store_createBootstrap p h e db) = invite p h e (identities_of db)"
    by (auto simp: identities_of_def store_createBootstrap_def invite_def fun_eq_iff)
  show "fst (store_claim p h k now db) \<longleftrightarrow> may_claim p h now (identities_of db)"
    by (auto simp: store_claim_def claimable_def may_claim_def identities_of_def split: option.splits)
  show "identities_of (snd (store_claim p h k now db)) =
      (if may_claim p h now (identities_of db) then enrol p k (identities_of db) else identities_of db)"
    by (auto simp: store_claim_def claimable_def may_claim_def identities_of_def enrol_def fun_eq_iff split: option.splits)
  show "identities_of (store_revoke p db) = forget p (identities_of db)"
    by (auto simp: identities_of_def store_revoke_def forget_def no_identity_def fun_eq_iff split: option.splits)
qed

end
