(* ===== verification/Hub_Peers.thy ===== *)
theory Hub_Peers
  imports Hub_Credentials Tunnel_Proxy
begin

text \<open>
  The peers of the hub service (packages/ws-tunnel-hub): \<open>PeerConnectionTracker\<close>, \<open>RegisterPeer\<close>,
  \<open>DisconnectPeer\<close>, \<open>PeerChannelHub\<close> with its sockets, the consumer channel, \<open>RelayControl\<close>, \<open>DiscoverPeers\<close> and
  \<open>HealthCheck\<close>. A socket is a number; what arrives on it is an event. A registration waits for the credential
  store and goes on in a later event. The hub's messages, its calls of the proxy and an exception that nobody
  handles are an outgoing list.
\<close>

section \<open>The connection tracker\<close>

datatype peer_status = Peer_idle | Peer_connected | Peer_stale | Peer_error

record tracker_entry =
  tr_status :: peer_status
  tr_lastSeenAt :: int

type_synonym tracker = "(string, tracker_entry) jsmap"

definition markConnected :: "int \<Rightarrow> string \<Rightarrow> tracker \<Rightarrow> tracker" where
  "markConnected now p m = js_set p \<lparr>tr_status = Peer_connected, tr_lastSeenAt = now\<rparr> m"

definition markHeartbeat :: "int \<Rightarrow> string \<Rightarrow> tracker \<Rightarrow> tracker" where
  "markHeartbeat now p m =
     (case js_get m p of
        None \<Rightarrow> m
      | Some e \<Rightarrow> js_set p \<lparr>tr_status = (if tr_status e = Peer_error then Peer_error else Peer_connected), tr_lastSeenAt = now\<rparr> m)"

definition markError :: "string \<Rightarrow> tracker \<Rightarrow> tracker" where
  "markError p m = (case js_get m p of None \<Rightarrow> m | Some e \<Rightarrow> js_set p (e\<lparr>tr_status := Peer_error\<rparr>) m)"

definition markClosed :: "string \<Rightarrow> tracker \<Rightarrow> tracker" where
  "markClosed p m = js_delete p m"

definition statusOf :: "tracker \<Rightarrow> string \<Rightarrow> peer_status" where
  "statusOf m p = (case js_get m p of None \<Rightarrow> Peer_idle | Some e \<Rightarrow> tr_status e)"

definition tracker_isConnected :: "tracker \<Rightarrow> string \<Rightarrow> bool" where
  "tracker_isConnected m p \<longleftrightarrow> statusOf m p = Peer_connected"

definition tracker_sweep :: "int \<Rightarrow> int \<Rightarrow> tracker \<Rightarrow> tracker" where
  "tracker_sweep staleTimeoutMs now m =
     map (\<lambda>(p, e). (p, if tr_status e = Peer_connected \<and> tr_lastSeenAt e \<le> now - staleTimeoutMs
                       then e\<lparr>tr_status := Peer_stale\<rparr> else e)) m"

section \<open>Frames of a peer\<close>

text \<open>
  A text frame after \<open>JSON.parse\<close>: the value \<open>null\<close>, whose fields cannot be read; a register frame with its two
  strings; the frames the hub knows; any other. Of the services it is said whether they are an array of
  announcements without unknown members; the lengths are checked here.
\<close>

datatype services_field = Services_absent | Services_malformed | Services_listed "peer_service list"

datatype peer_frame =
    Not_json
  | Null_frame
  | Register_frame string string services_field
  | Heartbeat_frame
  | Session_ack_frame string string int
  | Stream_frame stream_message
  | Other_frame string

definition TUNNEL_PEER_TYPES :: "string list" where
  "TUNNEL_PEER_TYPES = [''container'', ''field'', ''device'']"

definition meta_text_ok :: "string option \<Rightarrow> bool" where
  "meta_text_ok v \<longleftrightarrow> (case v of None \<Rightarrow> True | Some x \<Rightarrow> 1 \<le> length x \<and> length x \<le> 256)"

definition announcement_ok :: "peer_service \<Rightarrow> bool" where
  "announcement_ok x \<longleftrightarrow> 1 \<le> length (ps_id x) \<and> length (ps_id x) \<le> 128 \<and>
     (case ps_meta x of None \<Rightarrow> True | Some (title, icon) \<Rightarrow> meta_text_ok title \<and> meta_text_ok icon)"

definition parseServices :: "services_field \<Rightarrow> peer_service list option" where
  "parseServices raw =
     (case raw of
        Services_absent \<Rightarrow> Some []
      | Services_malformed \<Rightarrow> None
      | Services_listed xs \<Rightarrow> if list_all announcement_ok xs then Some xs else None)"

section \<open>The state of the hub\<close>

datatype socket_state = Sock_open | Sock_closing | Sock_closed

text \<open>What the handlers of one socket remember; \<open>pn_pending\<close> is the register call that waits for the store, with its answer.\<close>

record peer_conn =
  pn_token :: string
  pn_state :: socket_state
  pn_handled :: bool
  pn_pending :: "(bool \<times> string \<times> string \<times> services_field) option"
  pn_peer :: "string option"

datatype channel_text =
    Register_ok
  | Register_rejected string
  | Session_text session_message
  | Relayed_text string

datatype hub_out =
    Peer_send nat channel_text
  | Peer_close nat nat string
  | Consumer_send nat string peer_frame
  | Proxy_event proxy_event
  | Thrown nat
  | Answer nat nat                       \<comment> \<open>request, status\<close>
  | Answer_issued nat string int         \<comment> \<open>request, bootstrap token, expiry\<close>
  | Answer_secret nat string
  | Answer_session nat string string int
  | Browser_refused nat nat string       \<comment> \<open>WebSocket request, close code and reason\<close>

record hub =
  hu_ids :: enrolment
  hu_registry :: "(string, peer_record) jsmap"
  hu_tracker :: tracker
  hu_sockets :: "(string, nat) jsmap"
  hu_conns :: "(nat, peer_conn) jsmap"
  hu_consumers :: "nat list"
  hu_gateway :: gateway
  hu_out :: "hub_out list"

definition new_hub :: hub where
  "new_hub = \<lparr>hu_ids = new_enrolment, hu_registry = [], hu_tracker = [], hu_sockets = [], hu_conns = [],
     hu_consumers = [], hu_gateway = new_gateway, hu_out = []\<rparr>"

definition hub_emit :: "hub_out list \<Rightarrow> hub \<Rightarrow> hub" where
  "hub_emit xs h = h\<lparr>hu_out := hu_out h @ xs\<rparr>"

text \<open>\<open>isConnected\<close> and \<open>sendControl\<close> of the channel.\<close>

definition hub_isConnected :: "hub \<Rightarrow> string \<Rightarrow> bool" where
  "hub_isConnected h p \<longleftrightarrow> js_has (hu_sockets h) p"

definition channel_sendControl :: "string \<Rightarrow> channel_text \<Rightarrow> hub \<Rightarrow> hub" where
  "channel_sendControl p m h =
     (case js_get (hu_sockets h) p of
        None \<Rightarrow> h
      | Some k \<Rightarrow>
          (case js_get (hu_conns h) k of
             Some c \<Rightarrow> if pn_state c = Sock_open then hub_emit [Peer_send k m] h else h
           | None \<Rightarrow> h))"

text \<open>A call of the gateway; its messages go out through the channel.\<close>

fun deliver_gateway :: "gateway_out list \<Rightarrow> hub \<Rightarrow> hub" where
  "deliver_gateway [] h = h"
| "deliver_gateway (Gateway_control p m # outs) h = deliver_gateway outs (channel_sendControl p (Session_text m) h)"
| "deliver_gateway (out # outs) h = deliver_gateway outs h"

definition call_gateway :: "(gateway \<Rightarrow> gateway) \<Rightarrow> hub \<Rightarrow> hub" where
  "call_gateway f h =
     (let g = f (hu_gateway h)
      in deliver_gateway (drop (length (gw_out (hu_gateway h))) (gw_out g)) (h\<lparr>hu_gateway := g\<rparr>))"

section \<open>Registration\<close>

definition set_conn :: "nat \<Rightarrow> peer_conn \<Rightarrow> hub \<Rightarrow> hub" where
  "set_conn k c h = h\<lparr>hu_conns := js_set k c (hu_conns h)\<rparr>"

definition close_conn :: "nat \<Rightarrow> nat \<Rightarrow> string \<Rightarrow> hub \<Rightarrow> hub" where
  "close_conn k code reason h =
     (case js_get (hu_conns h) k of
        None \<Rightarrow> h
      | Some c \<Rightarrow>
          if pn_state c = Sock_open
          then hub_emit [Peer_close k code reason] (set_conn k (c\<lparr>pn_state := Sock_closing\<rparr>) h) else h)"

definition send_conn :: "nat \<Rightarrow> channel_text \<Rightarrow> hub \<Rightarrow> hub" where
  "send_conn k m h =
     (case js_get (hu_conns h) k of
        None \<Rightarrow> h
      | Some c \<Rightarrow> if pn_state c = Sock_open then hub_emit [Peer_send k m] h else h)"

definition reject_conn :: "nat \<Rightarrow> string \<Rightarrow> hub \<Rightarrow> hub" where
  "reject_conn k reason h = close_conn k 1008 reason (send_conn k (Register_rejected reason) h)"

text \<open>\<open>RegisterPeer.execute\<close> after the answer of the store; \<open>None\<close> is an exception of the registry.\<close>

definition registerPeer ::
  "int \<Rightarrow> bool \<Rightarrow> string \<Rightarrow> string \<Rightarrow> services_field \<Rightarrow> hub \<Rightarrow> (hub_error + hub) option" where
  "registerPeer now authenticated p peerType raw h =
     (if \<not> authenticated then Some (Inl (Forbidden_kind, ''hub.register.unauthorized''))
      else if peerType \<notin> set TUNNEL_PEER_TYPES then Some (Inl (Validation_kind, ''hub.register.bad-peer-type''))
      else case parseServices raw of
        None \<Rightarrow> Some (Inl (Validation_kind, ''hub.register.bad-services''))
      | Some services \<Rightarrow>
          (case registry_register p peerType (Some services) (hu_registry h) of
             Inl _ \<Rightarrow> None
           | Inr reg \<Rightarrow> Some (Inr (h\<lparr>hu_registry := reg, hu_tracker := markConnected now p (hu_tracker h)\<rparr>))))"

definition disconnectPeer :: "string \<Rightarrow> hub \<Rightarrow> hub" where
  "disconnectPeer p h = h\<lparr>hu_registry := js_delete p (hu_registry h), hu_tracker := markClosed p (hu_tracker h)\<rparr>"

text \<open>A peer that registers again may have restarted: the session it had is closed.\<close>

definition drop_stale_session :: "string \<Rightarrow> gateway \<Rightarrow> gateway" where
  "drop_stale_session p g =
     (case sessionForPeer p (gw_sessions g) of None \<Rightarrow> g | Some n \<Rightarrow> closeSession (sn_sessionId n) ''peer-reconnect'' g)"

definition attach :: "nat \<Rightarrow> string \<Rightarrow> hub \<Rightarrow> hub" where
  "attach k p h =
     (let h1 = (case js_get (hu_sockets h) p of
                  None \<Rightarrow> h | Some old \<Rightarrow> if old = k then h else close_conn old 1000 ''replaced'' h);
          h2 = call_gateway (drop_stale_session p) (h1\<lparr>hu_sockets := js_set p k (hu_sockets h1)\<rparr>);
          h3 = send_conn k Register_ok h2
      in case js_get (hu_conns h3) k of None \<Rightarrow> h3 | Some c \<Rightarrow> set_conn k (c\<lparr>pn_peer := Some p\<rparr>) h3)"

definition finish_register :: "int \<Rightarrow> nat \<Rightarrow> hub \<Rightarrow> hub" where
  "finish_register now k h =
     (case js_get (hu_conns h) k of
        None \<Rightarrow> h
      | Some c \<Rightarrow>
          (case pn_pending c of
             None \<Rightarrow> h
           | Some (authenticated, p, peerType, raw) \<Rightarrow>
               let h1 = set_conn k (c\<lparr>pn_pending := None\<rparr>) h in
               (case registerPeer now authenticated p peerType raw h1 of
                  None \<Rightarrow> hub_emit [Thrown k] h1
                | Some (Inl e) \<Rightarrow> reject_conn k (snd e) h1
                | Some (Inr h2) \<Rightarrow> attach k p h2)))"

definition begin_register :: "hub_env \<Rightarrow> nat \<Rightarrow> peer_conn \<Rightarrow> peer_frame \<Rightarrow> hub \<Rightarrow> hub" where
  "begin_register env k c frame h =
     (case frame of
        Register_frame p peerType raw \<Rightarrow>
          set_conn k (c\<lparr>pn_handled := True, pn_pending := Some (authenticate_peer env (pn_token c) (hu_ids h), p, peerType, raw)\<rparr>) h
      | Null_frame \<Rightarrow> hub_emit [Thrown k] (set_conn k (c\<lparr>pn_handled := True\<rparr>) h)
      | _ \<Rightarrow> reject_conn k ''bad-register'' (set_conn k (c\<lparr>pn_handled := True\<rparr>) h))"

section \<open>Messages, frames and the end of a socket\<close>

definition consumer_publish :: "string \<Rightarrow> peer_frame \<Rightarrow> hub \<Rightarrow> hub" where
  "consumer_publish p frame h = hub_emit (map (\<lambda>c. Consumer_send c p frame) (hu_consumers h)) h"

text \<open>A control message goes to the gateway and the proxy, then to the consumers.\<close>

definition control_message :: "int \<Rightarrow> string \<Rightarrow> peer_frame \<Rightarrow> hub \<Rightarrow> hub" where
  "control_message now p frame h =
     consumer_publish p frame
       (case frame of
          Session_ack_frame sid token e \<Rightarrow> call_gateway (on_ack now sid token e) h
        | Stream_frame m \<Rightarrow> hub_emit [Proxy_event (From_peer p m)] h
        | _ \<Rightarrow> h)"

definition on_peer_text :: "hub_env \<Rightarrow> int \<Rightarrow> nat \<Rightarrow> peer_frame \<Rightarrow> hub \<Rightarrow> hub" where
  "on_peer_text env now k frame h =
     (case js_get (hu_conns h) k of
        None \<Rightarrow> h
      | Some c \<Rightarrow>
          if pn_state c = Sock_closed \<or> frame = Not_json then h
          else if \<not> pn_handled c then begin_register env k c frame h
          else case pn_peer c of
            None \<Rightarrow> h
          | Some p \<Rightarrow>
              (case frame of
                 Heartbeat_frame \<Rightarrow> h\<lparr>hu_tracker := markHeartbeat now p (hu_tracker h)\<rparr>
               | Null_frame \<Rightarrow> hub_emit [Thrown k] h
               | _ \<Rightarrow> control_message now p frame h))"

definition peer_binary :: "nat \<Rightarrow> byte list \<Rightarrow> hub \<Rightarrow> hub" where
  "peer_binary k data h =
     (case js_get (hu_conns h) k of
        None \<Rightarrow> h
      | Some c \<Rightarrow>
          if pn_state c = Sock_closed then h
          else case pn_peer c of None \<Rightarrow> h | Some p \<Rightarrow> hub_emit [Proxy_event (Frame_from_peer p data)] h)"

definition detach :: "string \<Rightarrow> nat \<Rightarrow> hub \<Rightarrow> hub" where
  "detach p k h =
     (if js_get (hu_sockets h) p = Some k then disconnectPeer p (h\<lparr>hu_sockets := js_delete p (hu_sockets h)\<rparr>) else h)"

definition peer_closed :: "nat \<Rightarrow> hub \<Rightarrow> hub" where
  "peer_closed k h =
     (case js_get (hu_conns h) k of
        None \<Rightarrow> h
      | Some c \<Rightarrow>
          let h1 = set_conn k (c\<lparr>pn_state := Sock_closed\<rparr>) h
          in case pn_peer c of None \<Rightarrow> h1 | Some p \<Rightarrow> detach p k h1)"

definition peer_failed :: "nat \<Rightarrow> hub \<Rightarrow> hub" where
  "peer_failed k h =
     (case js_get (hu_conns h) k of
        None \<Rightarrow> h
      | Some c \<Rightarrow> (case pn_peer c of None \<Rightarrow> h | Some p \<Rightarrow> h\<lparr>hu_tracker := markError p (hu_tracker h)\<rparr>))"

definition disconnect :: "string \<Rightarrow> hub \<Rightarrow> hub" where
  "disconnect p h =
     (case js_get (hu_sockets h) p of
        None \<Rightarrow> h
      | Some k \<Rightarrow> disconnectPeer p (close_conn k 1008 ''revoked'' (h\<lparr>hu_sockets := js_delete p (hu_sockets h)\<rparr>)))"

text \<open>\<open>accept\<close> behind the route \<open>/ws/peer\<close>: any bearer token opens a socket, the store sees it at the registration.\<close>

definition accept_peer :: "nat \<Rightarrow> string \<Rightarrow> hub \<Rightarrow> hub" where
  "accept_peer k token h =
     (if js_has (hu_conns h) k then h
      else set_conn k \<lparr>pn_token = token, pn_state = Sock_open, pn_handled = False, pn_pending = None, pn_peer = None\<rparr> h)"

definition revokePeer :: "string \<Rightarrow> hub \<Rightarrow> (hub_error + unit) \<times> hub" where
  "revokePeer p h =
     (case revoke_identity p (hu_ids h) of
        (Inl e, ids) \<Rightarrow> (Inl e, h\<lparr>hu_ids := ids\<rparr>)
      | (Inr _, ids) \<Rightarrow> (Inr (), disconnect p (h\<lparr>hu_ids := ids\<rparr>)))"

section \<open>Relay, discovery, health\<close>

definition relay_send :: "string \<Rightarrow> string \<Rightarrow> hub \<Rightarrow> (hub_error + unit) \<times> hub" where
  "relay_send p message h =
     (if \<not> js_has (hu_registry h) p then (Inl (Not_found_kind, ''hub.relay.peer-not-found''), h)
      else if \<not> hub_isConnected h p then (Inl (Transient_kind, ''hub.relay.peer-offline''), h)
      else (Inr (), channel_sendControl p (Relayed_text message) h))"

record peer_summary =
  sm_peerId :: string
  sm_peerType :: string
  sm_status :: peer_status
  sm_services :: "peer_service list"

definition toPeerSummaries :: "peer_record list \<Rightarrow> tracker \<Rightarrow> peer_summary list" where
  "toPeerSummaries peers m =
     map (\<lambda>r. \<lparr>sm_peerId = pr_peerId r, sm_peerType = pr_peerType r, sm_status = statusOf m (pr_peerId r), sm_services = pr_services r\<rparr>) peers"

definition discover_peers :: "hub \<Rightarrow> peer_summary list" where
  "discover_peers h = toPeerSummaries (map snd (hu_registry h)) (hu_tracker h)"

definition discover_services :: "string \<Rightarrow> hub \<Rightarrow> hub_error + peer_service list" where
  "discover_services p h =
     (if js_has (hu_registry h) p then Inr (servicesOf p (hu_registry h)) else Inl (Not_found_kind, ''hub.discovery.peer-not-found''))"

definition health_check :: "hub \<Rightarrow> nat \<times> nat" where
  "health_check h =
     (length (hu_registry h), length (filter (\<lambda>(i, r). tracker_isConnected (hu_tracker h) (pr_peerId r)) (hu_registry h)))"

end
