(* ===== verification/Hub_Access.thy ===== *)
theory Hub_Access
  imports Hub_Peers
begin

text \<open>
  Access to the services of a peer through the hub: \<open>OpenServiceAccess\<close>, \<open>OpenSession\<close> and the routes of the
  hub service (access-routes.ts, session-routes.ts, admin-routes.ts, bootstrap-routes.ts, control-routes.ts),
  and all of it as the steps of one state. A call that opens a session waits for the gateway and goes on in a
  later event. Routing, the parsing of bodies and the lower case of header names are Fastify's.
\<close>

section \<open>Access to a service\<close>

record hub_config =
  hf_hubId :: "string option"
  hf_allowlist :: path_allowlist
  hf_cookieName :: string
  hf_peerSessionCookie :: "string option"
  hf_hostMap :: "(string, string \<times> string) jsmap option"
  hf_gateway :: gateway_config

record access_request =
  aq_peerId :: string
  aq_serviceId :: string
  aq_path :: string
  aq_session :: "hub_session option"
  aq_user :: "tunnel_user option"
  aq_remoteIp :: "string option"
  aq_rootMount :: bool

definition pathAllowed :: "hub_config \<Rightarrow> string \<Rightarrow> bool \<Rightarrow> bool" where
  "pathAllowed cfg path rootMount \<longleftrightarrow>
     (if \<not> rootMount then isPathAllowed path (hf_allowlist cfg)
      else \<not> list_ex (\<lambda>p. clean_path path = p \<or> has_prefix p (clean_path path)) (or_else (blockedPrefixes (hf_allowlist cfg)) []))"

datatype access_step = Granted hub_session string | Refused_access hub_error | Must_open open_input

text \<open>\<open>authorize\<close> up to the session it has to open.\<close>

definition authorize_begin :: "hub_config \<Rightarrow> access_request \<Rightarrow> hub \<Rightarrow> access_step" where
  "authorize_begin cfg q h =
     (if \<not> list_ex (\<lambda>x. ps_id x = aq_serviceId q) (servicesOf (aq_peerId q) (hu_registry h))
      then Refused_access (Not_found_kind, ''hub.access.service-not-found'')
      else if \<not> tracker_isConnected (hu_tracker h) (aq_peerId q) then Refused_access (Transient_kind, ''hub.access.peer-offline'')
      else if \<not> pathAllowed cfg (aq_path q) (aq_rootMount q) then Refused_access (Forbidden_kind, ''hub.access.path-denied'')
      else case aq_session q of
        Some n \<Rightarrow> Granted n (aq_path q)
      | None \<Rightarrow>
          (case aq_user q of
             None \<Rightarrow> Refused_access (Forbidden_kind, ''hub.access.no-user'')
           | Some u \<Rightarrow>
               (case sessionForPeer (aq_peerId q) (gw_sessions (hu_gateway h)) of
                  Some n \<Rightarrow> Granted n (aq_path q)
                | None \<Rightarrow> Must_open \<lparr>oi_hubId = or_else (hf_hubId cfg) (aq_peerId q), oi_peerId = aq_peerId q,
                            oi_user = u, oi_remoteIp = aq_remoteIp q\<rparr>)))"

definition session_hub_error :: "session_error \<Rightarrow> hub_error" where
  "session_hub_error e =
     (case e of Session_offline \<Rightarrow> (Transient_kind, ''session.offline'') | Session_ack_timeout \<Rightarrow> (Transient_kind, ''session.ack-timeout'')
      | Session_audit_failed \<Rightarrow> (Fatal_kind, ''session.audit-failed''))"

type_synonym open_outcome = "session_error + string \<times> string \<times> int \<times> string"

definition authorize_end :: "access_request \<Rightarrow> open_outcome \<Rightarrow> hub \<Rightarrow> access_step" where
  "authorize_end q r h =
     (case r of
        Inl e \<Rightarrow> Refused_access (session_hub_error e)
      | Inr _ \<Rightarrow>
          (case sessionForPeer (aq_peerId q) (gw_sessions (hu_gateway h)) of
             Some n \<Rightarrow> Granted n (aq_path q)
           | None \<Rightarrow> Refused_access (Transient_kind, ''hub.access.session-missing'')))"

text \<open>\<open>OpenSession\<close>: the checks before the gateway is asked.\<close>

definition open_session_begin :: "hub_config \<Rightarrow> string \<Rightarrow> tunnel_user \<Rightarrow> string option \<Rightarrow> hub \<Rightarrow> hub_error + open_input" where
  "open_session_begin cfg p u ip h =
     (if \<not> js_has (hu_registry h) p then Inl (Not_found_kind, ''hub.session.peer-not-found'')
      else if \<not> tracker_isConnected (hu_tracker h) p then Inl (Transient_kind, ''hub.session.peer-offline'')
      else Inr \<lparr>oi_hubId = or_else (hf_hubId cfg) p, oi_peerId = p, oi_user = u, oi_remoteIp = ip\<rparr>)"

section \<open>Requests\<close>

text \<open>A request as the handlers see it: header names in lower case, a repeated header joined already.\<close>

record browser_request =
  br_method :: string
  br_url :: "string option"
  br_headers :: "(string, string) jsmap"
  br_params :: "(string \<times> string) option"     \<comment> \<open>\<open>:peerId\<close> and \<open>:serviceId\<close>\<close>
  br_wildcard :: string
  br_ip :: "string option"
  br_body :: "byte list"

definition req_header :: "browser_request \<Rightarrow> string \<Rightarrow> string option" where
  "req_header r n = js_get (br_headers r) n"

definition hub_bearerToken :: "browser_request \<Rightarrow> string option" where
  "hub_bearerToken r =
     (case req_header r ''authorization'' of
        None \<Rightarrow> None | Some a \<Rightarrow> if has_prefix ''Bearer '' a then Some (drop 7 a) else None)"

definition authorizedConsumer :: "hub_env \<Rightarrow> browser_request \<Rightarrow> bool" where
  "authorizedConsumer env r \<longleftrightarrow> (case hub_bearerToken r of None \<Rightarrow> False | Some t \<Rightarrow> authenticate_consumer env t)"

record access_context =
  ax_peerId :: string
  ax_serviceId :: string
  ax_root :: bool

definition resolveAccessContext :: "hub_config \<Rightarrow> browser_request \<Rightarrow> access_context option" where
  "resolveAccessContext cfg r =
     (case (req_header r ''host'', hf_hostMap cfg) of
        (Some host, Some m) \<Rightarrow>
          (case js_get m (to_lower host) of
             Some (p, x) \<Rightarrow> Some \<lparr>ax_peerId = p, ax_serviceId = x, ax_root = True\<rparr>
           | None \<Rightarrow> (case br_params r of Some (p, x) \<Rightarrow> if p \<noteq> [] \<and> x \<noteq> [] then Some \<lparr>ax_peerId = p, ax_serviceId = x, ax_root = False\<rparr> else None
                      | None \<Rightarrow> None))
      | _ \<Rightarrow> (case br_params r of Some (p, x) \<Rightarrow> if p \<noteq> [] \<and> x \<noteq> [] then Some \<lparr>ax_peerId = p, ax_serviceId = x, ax_root = False\<rparr> else None
              | None \<Rightarrow> None))"

text \<open>\<open>url.split("?")[1]\<close>: what follows the first question mark, up to the next.\<close>

definition queryOf :: "browser_request \<Rightarrow> string option" where
  "queryOf r = (case br_url r of None \<Rightarrow> None
     | Some u \<Rightarrow> (case split_on CHR ''?'' u of a # b # rest \<Rightarrow> Some b | _ \<Rightarrow> None))"

definition with_query :: "string \<Rightarrow> browser_request \<Rightarrow> string" where
  "with_query path r = (case queryOf r of None \<Rightarrow> path | Some q \<Rightarrow> if q = [] then path else path @ ''?'' @ q)"

definition httpPath :: "browser_request \<Rightarrow> access_context \<Rightarrow> string" where
  "httpPath r x = (if ax_root x then or_else (br_url r) ''/'' else with_query (''/'' @ br_wildcard r) r)"

definition wsPath :: "browser_request \<Rightarrow> access_context \<Rightarrow> string" where
  "wsPath r x = (if ax_root x then or_else (br_url r) ''/'' else with_query (''/ws/'' @ br_wildcard r) r)"

definition userFromHeaders :: "browser_request \<Rightarrow> tunnel_user option" where
  "userFromHeaders r =
     (case (req_header r ''x-tunnel-user-id'', req_header r ''x-tunnel-user-username'', req_header r ''x-tunnel-user-role'') of
        (Some i, Some n, Some role) \<Rightarrow> Some \<lparr>tu_id = i, tu_username = n, tu_role = role\<rparr>
      | _ \<Rightarrow> None)"

definition HOP_BY_HOP :: "string list" where
  "HOP_BY_HOP = [''host'', ''connection'', ''keep-alive'', ''content-length'', ''transfer-encoding'', ''upgrade'', ''te'',
     ''trailer'', ''proxy-authorization'', ''proxy-authenticate'']"

definition forwarded :: "bool \<Rightarrow> string \<Rightarrow> bool" where
  "forwarded dropAuthorization n \<longleftrightarrow>
     n \<notin> set HOP_BY_HOP \<and> \<not> has_prefix ''x-tunnel-'' n \<and> \<not> (dropAuthorization \<and> n = ''authorization'')"

definition forwardHeaders :: "bool \<Rightarrow> (string, string) jsmap \<Rightarrow> headers" where
  "forwardHeaders dropAuthorization hs =
     fold (\<lambda>(n, v) out. if forwarded dropAuthorization (to_lower n) then js_set (to_lower n) v out else out) hs []"

definition WS_DROP :: "string list" where
  "WS_DROP = [''sec-websocket-key'', ''sec-websocket-version'', ''sec-websocket-extensions'', ''origin'']"

definition forwardWsHeaders :: "bool \<Rightarrow> (string, string) jsmap \<Rightarrow> headers" where
  "forwardWsHeaders dropAuthorization hs = filter (\<lambda>(n, v). n \<notin> set WS_DROP) (forwardHeaders dropAuthorization hs)"

text \<open>The cookie that the application of the peer expects is put behind the browser's own cookies.\<close>

definition add_session_cookie :: "hub_config \<Rightarrow> string \<Rightarrow> headers \<Rightarrow> headers" where
  "add_session_cookie cfg token hs =
     (case hf_peerSessionCookie cfg of
        None \<Rightarrow> hs
      | Some name \<Rightarrow>
          if name = [] then hs
          else let c = name @ ''='' @ token in
               js_set ''cookie'' (case js_get hs ''cookie'' of
                  Some old \<Rightarrow> if old = [] then c else old @ ''; '' @ c | None \<Rightarrow> c) hs)"

text \<open>\<open>TunnelProxy.authenticate\<close>: the session of the browser's cookie, if it belongs to the peer; its activity is noted.\<close>

definition cookie_session :: "hub_config \<Rightarrow> int \<Rightarrow> string option \<Rightarrow> string \<Rightarrow> hub \<Rightarrow> hub_session option \<times> hub" where
  "cookie_session cfg now cookieHeader p h =
     (case sessionCookieValue cookieHeader (hf_cookieName cfg) of
        None \<Rightarrow> (None, h)
      | Some token \<Rightarrow>
          if token = [] then (None, h)
          else case byToken now token (gw_sessions (hu_gateway h)) of
            (found, m) \<Rightarrow>
              (case found of None \<Rightarrow> None | Some n \<Rightarrow> if sn_peerId n = p then Some n else None,
               h\<lparr>hu_gateway := (hu_gateway h)\<lparr>gw_sessions := m\<rparr>\<rparr>))"

definition session_ref_of :: "hub_session \<Rightarrow> session_ref" where
  "session_ref_of n = \<lparr>sr_sessionId = sn_sessionId n, sr_peerId = sn_peerId n\<rparr>"

text \<open>A call that waits for a session: an HTTP or WebSocket access, or \<open>POST /sessions\<close>.\<close>

datatype access_kind = Http_access | Ws_access

datatype waiting =
    Access_waits access_kind nat browser_request access_request bool
  | Session_waits nat

section \<open>The handlers\<close>

record hub_service =
  hv_hub :: hub
  hv_waiting :: "(string, waiting) jsmap"

definition in_hub :: "(hub \<Rightarrow> hub) \<Rightarrow> hub_service \<Rightarrow> hub_service" where
  "in_hub f w = w\<lparr>hv_hub := f (hv_hub w)\<rparr>"

definition refuse_access :: "access_kind \<Rightarrow> nat \<Rightarrow> hub_error \<Rightarrow> hub_service \<Rightarrow> hub_service" where
  "refuse_access kind rid e =
     in_hub (hub_emit [case kind of Http_access \<Rightarrow> Answer rid (statusForKind (fst e)) | Ws_access \<Rightarrow> Browser_refused rid 1008 (snd e)])"

text \<open>What a grant starts: a stream of the proxy with the headers that go on.\<close>

definition start_access :: "hub_config \<Rightarrow> access_kind \<Rightarrow> browser_request \<Rightarrow> bool \<Rightarrow> hub_session \<Rightarrow> string \<Rightarrow> hub_service \<Rightarrow> hub_service" where
  "start_access cfg kind r viaConsumer n path =
     in_hub (hub_emit [Proxy_event (case kind of
        Http_access \<Rightarrow> Start_http (session_ref_of n) (br_method r) path
          (add_session_cookie cfg (sn_token n) (forwardHeaders viaConsumer (br_headers r))) (br_body r)
      | Ws_access \<Rightarrow> Start_ws (session_ref_of n) path (Some (forwardWsHeaders viaConsumer (br_headers r))))])"

definition open_for :: "hub_config \<Rightarrow> string \<Rightarrow> open_input \<Rightarrow> waiting \<Rightarrow> hub_service \<Rightarrow> hub_service" where
  "open_for cfg sid inp call w =
     (let h = call_gateway (open_begin (hf_gateway cfg) sid inp (hub_isConnected (hv_hub w) (oi_peerId inp))) (hv_hub w)
      in w\<lparr>hv_hub := h, hv_waiting := js_set sid call (hv_waiting w)\<rparr>)"

text \<open>
  The two access handlers: the cookie of a session, or the token of a consumer with a user. A stale cookie
  without a bearer token is answered 401 too, with a header that clears the cookie (left out).
\<close>

definition stale_cookie :: "hub_config \<Rightarrow> browser_request \<Rightarrow> bool" where
  "stale_cookie cfg r \<longleftrightarrow> sessionCookieValue (req_header r ''cookie'') (hf_cookieName cfg) \<noteq> None"

definition refuse_browser :: "hub_env \<Rightarrow> hub_config \<Rightarrow> access_kind \<Rightarrow> nat \<Rightarrow> browser_request \<Rightarrow> hub_service \<Rightarrow> hub_service" where
  "refuse_browser env cfg kind rid r =
     in_hub (hub_emit [case kind of
        Http_access \<Rightarrow> Answer rid 401
      | Ws_access \<Rightarrow> Browser_refused rid 1008
          (if authorizedConsumer env r then ''kullanici gerekli''
           else if stale_cookie cfg r then ''oturum suresi doldu'' else ''consumer token gerekli'')])"

definition access_handler :: "hub_env \<Rightarrow> hub_config \<Rightarrow> int \<Rightarrow> access_kind \<Rightarrow> nat \<Rightarrow> string \<Rightarrow> browser_request \<Rightarrow> hub_service \<Rightarrow> hub_service" where
  "access_handler env cfg now kind rid sid r w =
     (case resolveAccessContext cfg r of
        None \<Rightarrow> in_hub (hub_emit [case kind of Http_access \<Rightarrow> Answer rid 404 | Ws_access \<Rightarrow> Browser_refused rid 1008 ''peer/servis eksik'']) w
      | Some x \<Rightarrow>
          (case cookie_session cfg now (req_header r ''cookie'') (ax_peerId x) (hv_hub w) of
             (session, h) \<Rightarrow>
               let w1 = w\<lparr>hv_hub := h\<rparr>; user = userFromHeaders r;
                   q = \<lparr>aq_peerId = ax_peerId x, aq_serviceId = ax_serviceId x,
                        aq_path = (case kind of Http_access \<Rightarrow> httpPath r x | Ws_access \<Rightarrow> wsPath r x),
                        aq_session = session, aq_user = user, aq_remoteIp = br_ip r, aq_rootMount = ax_root x\<rparr>
               in if session = None \<and>
                     (\<not> authorizedConsumer env r \<or> user = None)
                  then refuse_browser env cfg kind rid r w1
                  else case authorize_begin cfg q h of
                    Granted n path \<Rightarrow> start_access cfg kind r (session = None) n path w1
                  | Refused_access e \<Rightarrow> refuse_access kind rid e w1
                  | Must_open inp \<Rightarrow> open_for cfg sid inp (Access_waits kind rid r q (session = None)) w1))"

text \<open>The result of the gateway for a call, if it has one.\<close>

definition open_result :: "string \<Rightarrow> gateway_out list \<Rightarrow> open_outcome option" where
  "open_result sid outs =
     Option.bind (find_first (\<lambda>x. case x of Open_result i r \<Rightarrow> i = sid | _ \<Rightarrow> False) outs)
       (\<lambda>x. case x of Open_result i r \<Rightarrow> Some r | _ \<Rightarrow> None)"

definition resume_access :: "hub_config \<Rightarrow> string \<Rightarrow> hub_service \<Rightarrow> hub_service" where
  "resume_access cfg sid w =
     (case (js_get (hv_waiting w) sid, open_result sid (gw_out (hu_gateway (hv_hub w)))) of
        (Some call, Some r) \<Rightarrow>
          let w1 = w\<lparr>hv_waiting := js_delete sid (hv_waiting w)\<rparr> in
          (case call of
             Access_waits kind rid req q viaConsumer \<Rightarrow>
               (case authorize_end q r (hv_hub w) of
                  Granted n path \<Rightarrow> start_access cfg kind req viaConsumer n path w1
                | Refused_access e \<Rightarrow> refuse_access kind rid e w1
                | Must_open inp \<Rightarrow> w1)
           | Session_waits rid \<Rightarrow>
               (case r of
                  Inl e \<Rightarrow> in_hub (hub_emit [Answer rid (statusForKind (fst (session_hub_error e)))]) w1
                | Inr (i, token, e, role) \<Rightarrow> in_hub (hub_emit [Answer_session rid i token e]) w1))
      | _ \<Rightarrow> w)"

section \<open>The routes of consumers and peers\<close>

definition sessions_route ::
  "hub_env \<Rightarrow> hub_config \<Rightarrow> nat \<Rightarrow> string \<Rightarrow> browser_request \<Rightarrow> (string \<times> tunnel_user) option \<Rightarrow> hub_service \<Rightarrow> hub_service" where
  "sessions_route env cfg rid sid r body w =
     (if \<not> authorizedConsumer env r then in_hub (hub_emit [Answer rid 401]) w
      else case body of
        None \<Rightarrow> in_hub (hub_emit [Answer rid 400]) w
      | Some (p, u) \<Rightarrow>
          (case open_session_begin cfg p u (br_ip r) (hv_hub w) of
             Inl e \<Rightarrow> in_hub (hub_emit [Answer rid (statusForKind (fst e))]) w
           | Inr inp \<Rightarrow> open_for cfg sid inp (Session_waits rid) w))"

definition admin_create_route :: "hub_env \<Rightarrow> int \<Rightarrow> nat \<Rightarrow> browser_request \<Rightarrow> string option \<Rightarrow> hub \<Rightarrow> hub" where
  "admin_create_route env now rid r peerId h =
     (if \<not> authorizedConsumer env r then hub_emit [Answer rid 401] h
      else case peerId of
        None \<Rightarrow> hub_emit [Answer rid 400] h
      | Some p \<Rightarrow>
          (case create_bootstrap env now p (hu_ids h) of
             (Inl e, ids) \<Rightarrow> hub_emit [Answer rid (statusForKind (fst e))] (h\<lparr>hu_ids := ids\<rparr>)
           | (Inr (token, expiresAt), ids) \<Rightarrow> hub_emit [Answer_issued rid token expiresAt] (h\<lparr>hu_ids := ids\<rparr>)))"

definition admin_revoke_route :: "hub_env \<Rightarrow> nat \<Rightarrow> browser_request \<Rightarrow> string \<Rightarrow> hub \<Rightarrow> hub" where
  "admin_revoke_route env rid r p h =
     (if \<not> authorizedConsumer env r then hub_emit [Answer rid 401] h
      else case revokePeer p h of
        (Inl e, h1) \<Rightarrow> hub_emit [Answer rid (statusForKind (fst e))] h1
      | (Inr _, h1) \<Rightarrow> hub_emit [Answer rid 200] h1)"

definition claim_route :: "hub_env \<Rightarrow> int \<Rightarrow> nat \<Rightarrow> (string \<times> string) option \<Rightarrow> hub \<Rightarrow> hub" where
  "claim_route env now rid body h =
     (case body of
        None \<Rightarrow> hub_emit [Answer rid 400] h
      | Some (p, token) \<Rightarrow>
          (case claim_bootstrap env now p token (hu_ids h) of
             (Inl e, ids) \<Rightarrow> hub_emit [Answer rid (statusForKind (fst e))] (h\<lparr>hu_ids := ids\<rparr>)
           | (Inr secret, ids) \<Rightarrow> hub_emit [Answer_secret rid secret] (h\<lparr>hu_ids := ids\<rparr>)))"

definition control_route :: "hub_env \<Rightarrow> nat \<Rightarrow> browser_request \<Rightarrow> string \<Rightarrow> string option \<Rightarrow> hub \<Rightarrow> hub" where
  "control_route env rid r p body h =
     (if \<not> authorizedConsumer env r then hub_emit [Answer rid 401] h
      else case body of
        None \<Rightarrow> hub_emit [Answer rid 400] h
      | Some m \<Rightarrow>
          (case relay_send p m h of
             (Inl e, h1) \<Rightarrow> hub_emit [Answer rid (statusForKind (fst e))] h1
           | (Inr _, h1) \<Rightarrow> hub_emit [Answer rid 200] h1))"

definition consumer_open :: "hub_env \<Rightarrow> nat \<Rightarrow> browser_request \<Rightarrow> hub \<Rightarrow> hub" where
  "consumer_open env c r h =
     (if authorizedConsumer env r then h\<lparr>hu_consumers := List.insert c (hu_consumers h)\<rparr>
      else hub_emit [Browser_refused c 1008 ''consumer token gerekli''] h)"

section \<open>The hub as a transition system\<close>

text \<open>Each event comes with the time; \<open>Session_event\<close> is a timer, the audit or the sweep of the gateway.\<close>

datatype hub_event =
    Peer_accept nat string
  | Peer_text nat peer_frame
  | Registered nat
  | Peer_binary nat "byte list"
  | Peer_closed nat
  | Peer_failed nat
  | Stale_sweep
  | Admin_create nat browser_request "string option"
  | Admin_revoke nat browser_request string
  | Claim nat "(string \<times> string) option"
  | Control nat browser_request string "string option"
  | Consumer_accept nat browser_request
  | Consumer_closed nat
  | Open_sessions nat string browser_request "(string \<times> tunnel_user) option"
  | Access access_kind nat string browser_request
  | Session_timeout string
  | Session_audited string bool
  | Session_sweep
  | Resumed string

fun hub_step :: "hub_env \<Rightarrow> hub_config \<Rightarrow> int \<times> hub_event \<Rightarrow> hub_service \<Rightarrow> hub_service" where
  "hub_step env cfg (now, Peer_accept k token) w = in_hub (accept_peer k token) w"
| "hub_step env cfg (now, Peer_text k frame) w = in_hub (on_peer_text env now k frame) w"
| "hub_step env cfg (now, Registered k) w = in_hub (finish_register now k) w"
| "hub_step env cfg (now, Peer_binary k data) w = in_hub (peer_binary k data) w"
| "hub_step env cfg (now, Peer_closed k) w = in_hub (peer_closed k) w"
| "hub_step env cfg (now, Peer_failed k) w = in_hub (peer_failed k) w"
| "hub_step env cfg (now, Stale_sweep) w =
     in_hub (\<lambda>h. h\<lparr>hu_tracker := tracker_sweep (he_staleTimeoutMs env) now (hu_tracker h)\<rparr>) w"
| "hub_step env cfg (now, Admin_create rid r p) w = in_hub (admin_create_route env now rid r p) w"
| "hub_step env cfg (now, Admin_revoke rid r p) w = in_hub (admin_revoke_route env rid r p) w"
| "hub_step env cfg (now, Claim rid body) w = in_hub (claim_route env now rid body) w"
| "hub_step env cfg (now, Control rid r p body) w = in_hub (control_route env rid r p body) w"
| "hub_step env cfg (now, Consumer_accept c r) w = in_hub (consumer_open env c r) w"
| "hub_step env cfg (now, Consumer_closed c) w = in_hub (\<lambda>h. h\<lparr>hu_consumers := remove1 c (hu_consumers h)\<rparr>) w"
| "hub_step env cfg (now, Open_sessions rid sid r body) w = sessions_route env cfg rid sid r body w"
| "hub_step env cfg (now, Access kind rid sid r) w = access_handler env cfg now kind rid sid r w"
| "hub_step env cfg (now, Session_timeout sid) w = in_hub (call_gateway (on_ack_timeout sid)) w"
| "hub_step env cfg (now, Session_audited sid ok) w = in_hub (call_gateway (on_audited sid ok)) w"
| "hub_step env cfg (now, Session_sweep) w = in_hub (call_gateway (gateway_sweep (hf_gateway cfg) now)) w"
| "hub_step env cfg (now, Resumed sid) w = resume_access cfg sid w"

definition hub_run :: "hub_env \<Rightarrow> hub_config \<Rightarrow> (int \<times> hub_event) list \<Rightarrow> hub_service \<Rightarrow> hub_service" where
  "hub_run env cfg evs w = fold (hub_step env cfg) evs w"

definition new_hub_service :: hub_service where
  "new_hub_service = \<lparr>hv_hub = new_hub, hv_waiting = []\<rparr>"

end
