(* ===== verification/Hub_Enrolment.thy ===== *)
theory Hub_Enrolment
  imports Hub_Credentials
begin

text \<open>
  The enrolment of peers: the use cases over the tables do what the same steps do to the identities of the
  peers, and an invitation is good for one claim.
\<close>

section \<open>Runs of the use cases\<close>

datatype enrol_event = Invite string | Enrol string string | Expel string

datatype enrol_result = Invited string int | Enrolled_secret string | Expelled | Enrol_error hub_error

definition enrol_step :: "hub_env \<Rightarrow> int \<times> enrol_event \<Rightarrow> enrolment \<Rightarrow> enrol_result \<times> enrolment" where
  "enrol_step env ev s =
     (case ev of
        (now, Invite p) \<Rightarrow>
          (case create_bootstrap env now p s of (Inl e, s') \<Rightarrow> (Enrol_error e, s') | (Inr (t, x), s') \<Rightarrow> (Invited t x, s'))
      | (now, Enrol p t) \<Rightarrow>
          (case claim_bootstrap env now p t s of (Inl e, s') \<Rightarrow> (Enrol_error e, s') | (Inr k, s') \<Rightarrow> (Enrolled_secret k, s'))
      | (now, Expel p) \<Rightarrow>
          (case revoke_identity p s of (Inl e, s') \<Rightarrow> (Enrol_error e, s') | (Inr _, s') \<Rightarrow> (Expelled, s')))"

fun enrol_run :: "hub_env \<Rightarrow> (int \<times> enrol_event) list \<Rightarrow> enrolment \<Rightarrow> enrol_result list \<times> enrolment" where
  "enrol_run env [] s = ([], s)"
| "enrol_run env (ev # evs) s =
     (let (r, s1) = enrol_step env ev s; (rs, s2) = enrol_run env evs s1 in (r # rs, s2))"

section \<open>The same steps on identities\<close>

text \<open>The number of secrets drawn, and the identity of each peer.\<close>

definition spec_step :: "hub_env \<Rightarrow> int \<times> enrol_event \<Rightarrow> nat \<times> identities \<Rightarrow> enrol_result \<times> nat \<times> identities" where
  "spec_step env ev na =
     (case (ev, na) of
        ((now, Invite p), n, a) \<Rightarrow>
          if js_blank p then (Enrol_error (Validation_kind, ''hub.bootstrap.no-peer-id''), n, a)
          else (Invited (he_secret env n) (now + he_bootstrapTtlMs env), Suc n,
                invite p (he_sha env (he_secret env n)) (now + he_bootstrapTtlMs env) a)
      | ((now, Enrol p t), n, a) \<Rightarrow>
          if js_blank p \<or> js_blank t then (Enrol_error (Validation_kind, ''hub.bootstrap.invalid-input''), n, a)
          else if may_claim p (he_sha env t) now a
          then (Enrolled_secret (he_secret env n), Suc n, enrol p (he_sha env (he_secret env n)) a)
          else (Enrol_error (Validation_kind, ''hub.bootstrap.invalid''), Suc n, a)
      | ((now, Expel p), n, a) \<Rightarrow>
          if js_blank p then (Enrol_error (Validation_kind, ''hub.revoke.no-peer-id''), n, a)
          else (Expelled, n, forget p a))"

fun spec_run :: "hub_env \<Rightarrow> (int \<times> enrol_event) list \<Rightarrow> nat \<times> identities \<Rightarrow> enrol_result list \<times> nat \<times> identities" where
  "spec_run env [] na = ([], na)"
| "spec_run env (ev # evs) na =
     (let (r, na1) = spec_step env ev na; (rs, na2) = spec_run env evs na1 in (r # rs, na2))"

definition view :: "enrolment \<Rightarrow> nat \<times> identities" where
  "view s = (en_drawn s, identities_of (en_db s))"

lemmas enrolment_defs = create_bootstrap_def claim_bootstrap_def revoke_identity_def generateSecret_def Let_def

lemma step_wf: "wf_credentials (en_db s) \<Longrightarrow> wf_credentials (en_db (snd (enrol_step env ev s)))"
  using tables.ok_claim [of "en_db s"]
  by (auto simp: enrol_step_def enrolment_defs tables.ok_create tables.ok_revoke split_beta split: enrol_event.splits)

lemma step_simulates:
  assumes "wf_credentials (en_db s)"
  shows "spec_step env ev (view s) = (fst (enrol_step env ev s), view (snd (enrol_step env ev s)))"
  using assms tables.claim_fst [OF assms] tables.claim_abs [OF assms]
  by (auto simp: spec_step_def enrol_step_def view_def enrolment_defs tables.create_abs tables.revoke_abs split_beta
      split: enrol_event.splits)

lemma run_simulates:
  assumes "wf_credentials (en_db s)"
  shows "spec_run env evs (view s) = (fst (enrol_run env evs s), view (snd (enrol_run env evs s))) \<and>
    wf_credentials (en_db (snd (enrol_run env evs s)))"
  using assms
proof (induction evs arbitrary: s)
  case (Cons ev evs)
  let ?s1 = "snd (enrol_step env ev s)"
  show ?case using Cons.IH [of ?s1] step_wf [OF Cons.prems, of env ev] step_simulates [OF Cons.prems, of env ev]
    by (simp add: Let_def split_beta)
qed simp

text \<open>
  C34: The tables implement the identities. Along every sequence of invitations, claims and revocations the use
  cases over the two SQL tables return what the same steps on the identities of the peers return, the tables
  hold those identities, and a token is accepted exactly if it is not empty and its hash is the secret of a
  peer that is enrolled and not revoked.
\<close>

theorem credentials_refine:
  "spec_run env evs (0, \<lambda>_. no_identity) = (fst (enrol_run env evs new_enrolment), view (snd (enrol_run env evs new_enrolment))) \<and>
   (\<forall>token. store_authenticate (he_sha env) token (en_db (snd (enrol_run env evs new_enrolment))) =
      (token \<noteq> [] \<and> known (he_sha env token) (snd (snd (spec_run env evs (0, \<lambda>_. no_identity))))))"
proof -
  have start: "wf_credentials (en_db new_enrolment)" "view new_enrolment = (0, \<lambda>_. no_identity)"
    by (simp add: new_enrolment_def)
      (auto simp: view_def new_enrolment_def identities_of_def empty_credentials_def no_identity_def)
  note run = run_simulates [OF start(1), of env evs, unfolded start(2)]
  then show ?thesis using tables.auth_abs [of "en_db (snd (enrol_run env evs new_enrolment))"] by (simp add: view_def)
qed

section \<open>One claim per invitation\<close>

text \<open>How often a token was claimed in a run.\<close>

fun claims_of :: "string \<Rightarrow> (int \<times> enrol_event) list \<Rightarrow> enrol_result list \<Rightarrow> nat" where
  "claims_of t ((now, Enrol p t') # evs) (Enrolled_secret k # rs) = (if t' = t then 1 else 0) + claims_of t evs rs"
| "claims_of t (ev # evs) (r # rs) = claims_of t evs rs"
| "claims_of t evs rs = 0"

text \<open>A token that can still be claimed was drawn already, and for one peer.\<close>

definition open_for_claim :: "hub_env \<Rightarrow> string \<Rightarrow> string \<Rightarrow> identities \<Rightarrow> bool" where
  "open_for_claim env t p a \<longleftrightarrow> (\<exists>x. id_invitation (a p) = Some (he_sha env t, x))"

definition claim_state :: "hub_env \<Rightarrow> string \<Rightarrow> bool \<Rightarrow> nat \<times> identities \<Rightarrow> bool" where
  "claim_state env t spent na \<longleftrightarrow>
     (\<forall>p q. open_for_claim env t p (snd na) \<longrightarrow> open_for_claim env t q (snd na) \<longrightarrow> p = q) \<and>
     (\<forall>p. open_for_claim env t p (snd na) \<longrightarrow> \<not> spent) \<and>
     ((spent \<or> (\<exists>p. open_for_claim env t p (snd na))) \<longrightarrow> t \<in> he_secret env ` {..<fst na})"

lemma claim_state_step:
  assumes "inj (he_sha env)" "inj (he_secret env)" "claim_state env t spent na" "spec_step env ev na = (r, na')"
  shows "claim_state env t (spent \<or> claims_of t [ev] [r] = 1) na' \<and> (claims_of t [ev] [r] = 1 \<longrightarrow> \<not> spent) \<and> claims_of t [ev] [r] \<le> 1"
proof -
  obtain n a where na: "na = (n, a)" by (cases na)
  have drawn: "he_secret env n \<notin> he_secret env ` {..<n}" using assms(2) by (auto dest: injD)
  have grow: "he_secret env ` {..<n} \<subseteq> he_secret env ` {..<Suc n}" by auto
  have sha: "he_sha env x = he_sha env y \<longleftrightarrow> x = y" for x y using assms(1) by (auto dest: injD)
  obtain now e where ev: "ev = (now, e)" by (cases ev)
  show ?thesis
  proof (cases e)
    case (Invite p)
    then show ?thesis
      using assms(3,4) drawn grow unfolding claim_state_def
      by (auto simp: na ev spec_step_def open_for_claim_def invite_def sha split: if_splits)
  next
    case (Enrol p t')
    then show ?thesis
      using assms(3,4) grow unfolding claim_state_def
      by (auto simp: na ev spec_step_def open_for_claim_def enrol_def may_claim_def sha split: if_splits)
  next
    case (Expel p)
    then show ?thesis
      using assms(3,4) unfolding claim_state_def
      by (auto simp: na ev spec_step_def open_for_claim_def forget_def no_identity_def split: if_splits)
  qed
qed

lemma claims_of_Cons: "claims_of t (ev # evs) (r # rs) = claims_of t [ev] [r] + claims_of t evs rs"
  by (cases "(t, ev # evs, r # rs)" rule: claims_of.cases) auto

lemma claims_spec:
  assumes "inj (he_sha env)" "inj (he_secret env)" "claim_state env t spent na"
  shows "claims_of t evs (fst (spec_run env evs na)) + (if spent then 1 else 0) \<le> 1"
  using assms(3)
proof (induction evs arbitrary: na spent)
  case (Cons ev evs)
  obtain r na1 where step: "spec_step env ev na = (r, na1)" by (cases "spec_step env ev na")
  note s = claim_state_step [OF assms(1,2) Cons.prems step]
  have "claims_of t evs (fst (spec_run env evs na1)) + (if spent \<or> claims_of t [ev] [r] = 1 then 1 else 0) \<le> 1"
    using Cons.IH s by blast
  moreover have "fst (spec_run env (ev # evs) na) = r # fst (spec_run env evs na1)" by (simp add: step Let_def split_beta)
  ultimately show ?case using s claims_of_Cons [of t ev evs r "fst (spec_run env evs na1)"] by (auto split: if_splits)
qed simp

text \<open>
  C13: An invitation is claimed once. While hashes and random secrets do not collide, no bootstrap token is
  exchanged for a secret twice, whatever is invited, claimed and revoked in between.
\<close>

theorem bootstrap_claimed_once:
  assumes "inj (he_sha env)" and "inj (he_secret env)"
  shows "claims_of token evs (fst (enrol_run env evs new_enrolment)) \<le> 1"
proof -
  have "claim_state env token False (view new_enrolment)"
    by (simp add: claim_state_def open_for_claim_def view_def new_enrolment_def identities_of_def empty_credentials_def)
  from claims_spec [OF assms this, of evs] show ?thesis
    using run_simulates [of new_enrolment env evs] by (simp add: new_enrolment_def)
qed

definition demo_hub_env :: hub_env where
  "demo_hub_env = \<lparr>he_sha = (\<lambda>x. x), he_secret = (\<lambda>n. replicate (Suc n) CHR ''s''), he_bootstrapTtlMs = DEFAULT_BOOTSTRAP_TTL_MS,
     he_staleTimeoutMs = 45000, he_consumerHash = ''consumer'', he_peerHash = None\<rparr>"

lemma demo_hub_inj: "inj (he_sha demo_hub_env)" "inj (he_secret demo_hub_env)"
proof -
  show "inj (he_sha demo_hub_env)" by (simp add: demo_hub_env_def inj_def)
  have "m = n" if "replicate (Suc m) CHR ''s'' = replicate (Suc n) CHR ''s''" for m n
    using arg_cong [OF that, of length] by simp
  then show "inj (he_secret demo_hub_env)" by (simp add: demo_hub_env_def inj_def)
qed

definition demo_claims :: "(int \<times> enrol_event) list" where
  "demo_claims = [(0, Invite ''p''), (1, Enrol ''p'' ''s''), (2, Enrol ''p'' ''s''), (3, Expel ''p''), (4, Enrol ''p'' ''s'')]"

lemma demo_claim_results:
  "fst (enrol_run demo_hub_env demo_claims new_enrolment) =
    [Invited ''s'' DEFAULT_BOOTSTRAP_TTL_MS, Enrolled_secret ''ss'', Enrol_error (Validation_kind, ''hub.bootstrap.invalid''),
     Expelled, Enrol_error (Validation_kind, ''hub.bootstrap.invalid'')]"
  by (simp add: demo_claims_def enrol_step_def enrolment_defs demo_hub_env_def new_enrolment_def empty_credentials_def js_blank_def
      js_trim_def is_ws_def store_createBootstrap_def store_claim_def store_revoke_def claimable_def js_set_def js_delete_def
      DEFAULT_BOOTSTRAP_TTL_MS_def)

lemma bootstrap_claimed_once_witness:
  "claims_of ''s'' demo_claims (fst (enrol_run demo_hub_env demo_claims new_enrolment)) = 1"
  using bootstrap_claimed_once [OF demo_hub_inj, of "''s''" demo_claims]
  by (simp add: demo_claim_results) (simp add: demo_claims_def)

end
