(* ===== verification/Hub_Facts.thy ===== *)
theory Hub_Facts
  imports Hub_Access Hub_Enrolment
begin

text \<open>
  The sockets of the hub in every state its events reach: the registry and the tracker follow the sockets, and a
  peer is reachable only over a socket whose token the store accepted when the peer registered. A token is not
  bound to the name under which its holder registers; what follows from that.
\<close>

section \<open>The face of the hub\<close>

text \<open>What the handlers change of sockets, registry, tracker and connections; the state of a socket is left out.\<close>

type_synonym conn_face = "string \<times> bool \<times> (bool \<times> string \<times> string \<times> services_field) option \<times> string option"

definition conn_face :: "peer_conn \<Rightarrow> conn_face" where
  "conn_face c = (pn_token c, pn_handled c, pn_pending c, pn_peer c)"

definition sock :: "hub \<Rightarrow> string \<Rightarrow> nat option" where "sock h = js_get (hu_sockets h)"
definition reg :: "hub \<Rightarrow> string \<Rightarrow> bool" where "reg h = js_has (hu_registry h)"
definition trk :: "hub \<Rightarrow> string \<Rightarrow> bool" where "trk h = js_has (hu_tracker h)"
definition conn :: "hub \<Rightarrow> nat \<Rightarrow> conn_face option" where "conn h k = map_option conn_face (js_get (hu_conns h) k)"

lemmas face_defs = sock_def reg_def trk_def conn_def

definition same_face :: "hub \<Rightarrow> hub \<Rightarrow> bool" where
  "same_face h h' \<longleftrightarrow> sock h' = sock h \<and> reg h' = reg h \<and> trk h' = trk h \<and> conn h' = conn h"

lemma same_faceD: "same_face h h' \<Longrightarrow> sock h' = sock h" "same_face h h' \<Longrightarrow> reg h' = reg h"
    "same_face h h' \<Longrightarrow> trk h' = trk h" "same_face h h' \<Longrightarrow> conn h' = conn h"
  by (simp_all add: same_face_def)

lemma same_face_refl [simp]: "same_face h h"
  by (simp add: same_face_def)

lemma same_face_trans: "same_face a b \<Longrightarrow> same_face b c \<Longrightarrow> same_face a c"
  by (simp add: same_face_def)

text \<open>An update of the fields that the face does not show.\<close>

lemma same_face_update [simp]:
  "same_face h (h'\<lparr>hu_out := x\<rparr>) = same_face h h'" "same_face h (h'\<lparr>hu_gateway := g\<rparr>) = same_face h h'"
  "same_face h (h'\<lparr>hu_ids := i\<rparr>) = same_face h h'" "same_face h (h'\<lparr>hu_consumers := c\<rparr>) = same_face h h'"
  by (auto simp: same_face_def face_defs fun_eq_iff)

lemma face_update [simp]:
  "sock (h\<lparr>hu_out := x\<rparr>) = sock h" "reg (h\<lparr>hu_out := x\<rparr>) = reg h" "trk (h\<lparr>hu_out := x\<rparr>) = trk h" "conn (h\<lparr>hu_out := x\<rparr>) = conn h"
  "sock (h\<lparr>hu_ids := i\<rparr>) = sock h" "reg (h\<lparr>hu_ids := i\<rparr>) = reg h" "trk (h\<lparr>hu_ids := i\<rparr>) = trk h" "conn (h\<lparr>hu_ids := i\<rparr>) = conn h"
  by (auto simp: face_defs fun_eq_iff)

lemma face_emit [simp]: "same_face h (hub_emit xs h') = same_face h h'"
  by (simp add: hub_emit_def)

lemma face_emitted [simp]: "sock (hub_emit xs h) = sock h" "reg (hub_emit xs h) = reg h" "trk (hub_emit xs h) = trk h" "conn (hub_emit xs h) = conn h"
  by (simp_all add: hub_emit_def)

lemma face_sendControl [simp]: "same_face h (channel_sendControl p m h') = same_face h h'"
  by (simp add: channel_sendControl_def split: option.splits)

lemma face_deliver [simp]: "same_face h (deliver_gateway outs h') = same_face h h'"
  by (induction outs h' rule: deliver_gateway.induct) auto

lemma face_gateway [simp]: "same_face h (call_gateway f h') = same_face h h'"
  by (simp add: call_gateway_def Let_def)

lemma face_send_conn [simp]: "same_face h (send_conn k m h') = same_face h h'"
  by (simp add: send_conn_def split: option.splits)

lemma face_set_conn [simp]:
  "sock (set_conn k c h) = sock h" "reg (set_conn k c h) = reg h" "trk (set_conn k c h) = trk h"
  "conn (set_conn k c h) = (conn h)(k \<mapsto> conn_face c)"
  by (auto simp: set_conn_def face_defs fun_eq_iff)

lemma conn_face_state [simp]: "conn_face (c\<lparr>pn_state := x\<rparr>) = conn_face c"
  by (simp add: conn_face_def)

lemma conn_same: "js_get (hu_conns h) k = Some c \<Longrightarrow> (conn h)(k \<mapsto> conn_face c) = conn h"
  by (auto simp: conn_def fun_eq_iff)

lemma face_close_conn [simp]: "same_face h (close_conn k code r h') = same_face h h'"
  by (simp add: close_conn_def same_face_def conn_same split: option.splits)

lemma face_reject [simp]: "same_face h (reject_conn k r h') = same_face h h'"
  by (simp add: reject_conn_def)

lemma face_control [simp]: "same_face h (control_message now p frame h') = same_face h h'"
  by (simp add: control_message_def consumer_publish_def split: peer_frame.splits)

lemma face_heartbeat [simp]: "same_face h (h\<lparr>hu_tracker := markHeartbeat now p (hu_tracker h)\<rparr>)"
  by (auto simp: same_face_def face_defs markHeartbeat_def fun_eq_iff js_has_def split: option.splits)

lemma face_failed [simp]: "same_face h (peer_failed k h)"
  by (auto simp: peer_failed_def same_face_def face_defs markError_def fun_eq_iff js_has_def split: option.splits)

lemma sweep_has: "js_has (tracker_sweep t now m) p = js_has m p"
  by (induction m) (auto simp: tracker_sweep_def js_has_def split: if_splits)

lemma face_sweep [simp]: "same_face h (h\<lparr>hu_tracker := tracker_sweep t now (hu_tracker h)\<rparr>)"
  by (auto simp: same_face_def face_defs sweep_has fun_eq_iff)

lemma face_binary [simp]: "same_face h (peer_binary k d h)"
  by (simp add: peer_binary_def split: option.splits)

lemma face_create [simp]: "same_face h (admin_create_route env now rid r p h)"
  by (simp add: admin_create_route_def split: option.splits prod.splits sum.splits)

lemma face_claim [simp]: "same_face h (claim_route env now rid b h)"
  by (simp add: claim_route_def split: option.splits prod.splits sum.splits)

lemma face_relay [simp]: "same_face h (control_route env rid r p b h)"
  by (auto simp: control_route_def relay_send_def split: option.splits)

lemma face_consumer [simp]: "same_face h (consumer_open env c r h)"
  by (simp add: consumer_open_def)

lemma face_in_hub [simp]: "hv_hub (in_hub f w) = f (hv_hub w)"
  by (simp add: in_hub_def)

lemma face_open_for [simp]: "same_face h (hv_hub (open_for cfg sid inp call w)) = same_face h (hv_hub w)"
  by (simp add: open_for_def Let_def)

lemma face_sessions [simp]: "same_face (hv_hub w) (hv_hub (sessions_route env cfg rid sid r b w))"
  by (simp add: sessions_route_def split: option.splits sum.splits)

lemma face_cookie: "cookie_session cfg now ck p h = (n, h') \<Longrightarrow> same_face h h' \<and> hu_ids h' = hu_ids h"
  by (auto simp: cookie_session_def split: option.splits if_splits prod.splits)

lemma face_start [simp]: "same_face h (hv_hub (start_access cfg kind r v n path w)) = same_face h (hv_hub w)"
  by (simp add: start_access_def)

lemma face_refuse [simp]: "same_face h (hv_hub (refuse_access kind rid e w)) = same_face h (hv_hub w)"
    "same_face h (hv_hub (refuse_browser env cfg kind rid r w)) = same_face h (hv_hub w)"
  by (simp_all add: refuse_access_def refuse_browser_def)

lemma face_access [simp]: "same_face (hv_hub w) (hv_hub (access_handler env cfg now kind rid sid r w))"
  by (auto simp: access_handler_def Let_def dest: face_cookie split: option.splits prod.splits access_step.splits)

lemma face_resume [simp]: "same_face (hv_hub w) (hv_hub (resume_access cfg sid w))"
  by (simp add: resume_access_def Let_def split: option.splits waiting.splits access_step.splits sum.splits)

section \<open>The steps that change it\<close>

lemma face_accept:
  "sock (accept_peer k tok h) = sock h" "reg (accept_peer k tok h) = reg h" "trk (accept_peer k tok h) = trk h"
  "conn (accept_peer k tok h) = (if conn h k = None then (conn h)(k \<mapsto> (tok, False, None, None)) else conn h)"
  by (auto simp: accept_peer_def js_has_def conn_face_def conn_def)

text \<open>A frame changes the connection only when it is the first.\<close>

inductive first_frame :: "hub_env \<Rightarrow> enrolment \<Rightarrow> peer_frame \<Rightarrow> conn_face \<Rightarrow> conn_face \<Rightarrow> bool" for env ids where
  register: "first_frame env ids (Register_frame p ty raw) (tok, False, pd, pr) (tok, True, Some (authenticate_peer env tok ids, p, ty, raw), pr)"
| other: "first_frame env ids frame (tok, False, pd, pr) (tok, True, pd, pr)"

inductive_cases first_frameE: "first_frame env ids frame c c'"

lemma face_text:
  "sock (on_peer_text env now k frame h) = sock h \<and> reg (on_peer_text env now k frame h) = reg h \<and> trk (on_peer_text env now k frame h) = trk h \<and>
   (conn (on_peer_text env now k frame h) = conn h \<or>
    (\<exists>c c'. conn h k = Some c \<and> first_frame env (hu_ids h) frame c c' \<and> conn (on_peer_text env now k frame h) = (conn h)(k \<mapsto> c')))"
proof (cases "js_get (hu_conns h) k")
  case None
  then show ?thesis by (simp add: on_peer_text_def)
next
  case (Some c)
  show ?thesis
  proof (cases "pn_state c = Sock_closed \<or> frame = Not_json \<or> pn_handled c")
    case True
    then have "same_face h (on_peer_text env now k frame h)"
      using Some by (auto simp: on_peer_text_def split: option.splits peer_frame.splits)
    then show ?thesis by (simp add: same_face_def)
  next
    case False
    then have run: "on_peer_text env now k frame h = begin_register env k c frame h" using Some by (simp add: on_peer_text_def)
    have old: "conn h k = Some (conn_face c)" using Some by (simp add: conn_def)
    have rejected: "sock (reject_conn k r x) = sock x" "reg (reject_conn k r x) = reg x" "trk (reject_conn k r x) = trk x"
      "conn (reject_conn k r x) = conn x" for r x
      using face_reject [of x k r x] by (simp_all add: same_face_def)
    have reg_case: "first_frame env (hu_ids h) (Register_frame p ty raw) (conn_face c)
        (conn_face (c\<lparr>pn_handled := True, pn_pending := Some (authenticate_peer env (pn_token c) (hu_ids h), p, ty, raw)\<rparr>))" for p ty raw
      using False first_frame.register [of env "hu_ids h" p ty raw "pn_token c" "pn_pending c" "pn_peer c"] by (simp add: conn_face_def)
    have other_case: "first_frame env (hu_ids h) frame (conn_face c) (conn_face (c\<lparr>pn_handled := True\<rparr>))"
      using False first_frame.other [of env "hu_ids h" frame "pn_token c" "pn_pending c" "pn_peer c"] by (simp add: conn_face_def)
    have "\<exists>c'. first_frame env (hu_ids h) frame (conn_face c) (conn_face c') \<and> conn (begin_register env k c frame h) = (conn h)(k \<mapsto> conn_face c')"
    proof (cases frame)
      case (Register_frame p ty raw)
      then show ?thesis using reg_case [of p ty raw] unfolding begin_register_def by (simp only: peer_frame.simps face_set_conn) blast
    next
      case Null_frame
      then show ?thesis using other_case unfolding begin_register_def by (simp only: peer_frame.simps face_emitted face_set_conn) blast
    qed (use other_case in \<open>simp only: begin_register_def peer_frame.simps rejected face_set_conn, blast\<close>)+
    moreover have "sock (begin_register env k c frame h) = sock h" "reg (begin_register env k c frame h) = reg h" "trk (begin_register env k c frame h) = trk h"
      by (simp_all add: begin_register_def rejected split: peer_frame.splits)
    ultimately show ?thesis using old unfolding run by blast
  qed
qed

lemma registry_has: "registry_register p ty xs m = Inr m' \<Longrightarrow> js_has m' q = (q = p \<or> js_has m q)"
  by (auto simp: registry_register_def split: if_splits)

lemma tracker_has: "js_has (markConnected now p m) q = (q = p \<or> js_has m q)"
  by (simp add: markConnected_def)

lemma registered_face:
  assumes "registerPeer now a p ty raw h = Some (Inr h')"
  shows "a \<and> sock h' = sock h \<and> conn h' = conn h \<and> reg h' = (reg h)(p := True) \<and> trk h' = (trk h)(p := True)"
  using assms
  by (auto simp: registerPeer_def face_defs fun_eq_iff registry_has tracker_has split: if_splits option.splits sum.splits)

lemma face_attach:
  assumes "conn h k = Some (tok, hn, pd, pr)"
  shows "sock (attach k p h) = (sock h)(p \<mapsto> k)" "reg (attach k p h) = reg h" "trk (attach k p h) = trk h"
    "conn (attach k p h) = (conn h)(k \<mapsto> (tok, hn, pd, Some p))"
proof -
  define h1 where "h1 = (case js_get (hu_sockets h) p of None \<Rightarrow> h | Some old \<Rightarrow> if old = k then h else close_conn old 1000 ''replaced'' h)"
  have h1: "same_face h h1" unfolding h1_def by (simp split: option.splits)
  define h2 where "h2 = h1\<lparr>hu_sockets := js_set p k (hu_sockets h1)\<rparr>"
  have h2: "sock h2 = (sock h)(p \<mapsto> k)" "reg h2 = reg h" "trk h2 = trk h" "conn h2 = conn h"
    using h1 by (auto simp: h2_def same_face_def face_defs fun_eq_iff)
  define h3 where "h3 = send_conn k Register_ok (call_gateway (drop_stale_session p) h2)"
  have h3: "same_face h2 h3" by (simp add: h3_def)
  then have "conn h3 k = Some (tok, hn, pd, pr)" using h2(4) assms by (simp add: same_face_def)
  then obtain c where c: "js_get (hu_conns h3) k = Some c" "conn_face c = (tok, hn, pd, pr)" by (auto simp: conn_def)
  have "attach k p h = set_conn k (c\<lparr>pn_peer := Some p\<rparr>) h3"
    using c(1) by (simp add: attach_def Let_def flip: h1_def h2_def h3_def)
  moreover have "conn_face (c\<lparr>pn_peer := Some p\<rparr>) = (tok, hn, pd, Some p)" using c(2) by (simp add: conn_face_def)
  ultimately show "sock (attach k p h) = (sock h)(p \<mapsto> k)" "reg (attach k p h) = reg h" "trk (attach k p h) = trk h"
    "conn (attach k p h) = (conn h)(k \<mapsto> (tok, hn, pd, Some p))"
    using h2 h3 by (simp_all add: same_face_def)
qed

text \<open>The end of a registration, as a relation between faces.\<close>

inductive registration :: "nat \<Rightarrow> hub \<Rightarrow> hub \<Rightarrow> bool" for k h h' where
  nothing: "same_face h h' \<Longrightarrow> registration k h h'"
| refused: "conn h k = Some (tok, hn, Some x, pr) \<Longrightarrow> sock h' = sock h \<Longrightarrow> reg h' = reg h \<Longrightarrow> trk h' = trk h \<Longrightarrow>
    conn h' = (conn h)(k \<mapsto> (tok, hn, None, pr)) \<Longrightarrow> registration k h h'"
| attached: "conn h k = Some (tok, hn, Some (True, p, ty, raw), pr) \<Longrightarrow> sock h' = (sock h)(p \<mapsto> k) \<Longrightarrow> reg h' = (reg h)(p := True) \<Longrightarrow>
    trk h' = (trk h)(p := True) \<Longrightarrow> conn h' = (conn h)(k \<mapsto> (tok, hn, None, Some p)) \<Longrightarrow> registration k h h'"

lemma face_finish: "registration k h (finish_register now k h)"
proof (cases "js_get (hu_conns h) k")
  case None
  then show ?thesis by (auto simp: finish_register_def intro: registration.nothing)
next
  case (Some c)
  show ?thesis
  proof (cases "pn_pending c")
    case None
    then show ?thesis using Some by (auto simp: finish_register_def intro: registration.nothing)
  next
    case pending: (Some x)
    obtain a p ty raw where x: "x = (a, p, ty, raw)" by (cases x)
    define h1 where "h1 = set_conn k (c\<lparr>pn_pending := None\<rparr>) h"
    have old: "conn h k = Some (pn_token c, pn_handled c, Some (a, p, ty, raw), pn_peer c)"
      using Some pending x by (simp add: conn_def conn_face_def)
    have h1: "sock h1 = sock h" "reg h1 = reg h" "trk h1 = trk h" "conn h1 = (conn h)(k \<mapsto> (pn_token c, pn_handled c, None, pn_peer c))"
      by (simp_all add: h1_def conn_face_def)
    have run: "finish_register now k h = (case registerPeer now a p ty raw h1 of None \<Rightarrow> hub_emit [Thrown k] h1
        | Some (Inl e) \<Rightarrow> reject_conn k (snd e) h1 | Some (Inr h2) \<Rightarrow> attach k p h2)"
      using Some pending x by (simp add: finish_register_def Let_def flip: h1_def)
    have stop: "registration k h h'" if "same_face h1 h'" for h'
      using refused [OF old, of h'] that h1 by (simp add: same_face_def)
    show ?thesis
    proof (cases "\<exists>h2. registerPeer now a p ty raw h1 = Some (Inr h2)")
      case True
      then obtain h2 where h2: "registerPeer now a p ty raw h1 = Some (Inr h2)" by blast
      note f = registered_face [OF this]
      have "conn h2 k = Some (pn_token c, pn_handled c, None, pn_peer c)" using f h1 by simp
      from face_attach [OF this, of p] f h1 have "registration k h (attach k p h2)"
        using attached [of h k "pn_token c" "pn_handled c" p ty raw "pn_peer c" "attach k p h2"] old by simp
      then show ?thesis by (simp add: run h2)
    next
      case False
      then show ?thesis unfolding run by (auto split: option.splits sum.splits intro: stop)
    qed
  qed
qed

text \<open>The end of a socket and a revocation take a peer out, or nothing.\<close>

definition removed :: "string \<Rightarrow> hub \<Rightarrow> hub \<Rightarrow> bool" where
  "removed p h h' \<longleftrightarrow> sock h' = (sock h)(p := None) \<and> reg h' = (reg h)(p := False) \<and> trk h' = (trk h)(p := False) \<and> conn h' = conn h"

lemma removed_disconnect: "same_face h h' \<Longrightarrow> removed p h (disconnectPeer p (h'\<lparr>hu_sockets := js_delete p (hu_sockets h')\<rparr>))"
  by (auto simp: removed_def same_face_def disconnectPeer_def markClosed_def face_defs fun_eq_iff)

lemma face_closed: "same_face h (peer_closed k h) \<or> (\<exists>p. removed p h (peer_closed k h))"
proof (cases "js_get (hu_conns h) k")
  case (Some c)
  define h1 where "h1 = set_conn k (c\<lparr>pn_state := Sock_closed\<rparr>) h"
  have h1: "same_face h h1" using Some by (simp add: h1_def same_face_def conn_same)
  then have "same_face h (detach p k h1) \<or> removed p h (detach p k h1)" for p by (simp add: detach_def removed_disconnect)
  then show ?thesis using Some h1 by (auto simp: peer_closed_def Let_def simp flip: h1_def split: option.splits)
qed (simp add: peer_closed_def)

lemma face_disconnect: "same_face h (disconnect p h) \<or> removed p h (disconnect p h)"
proof (cases "js_get (hu_sockets h) p")
  case (Some k)
  have eq: "close_conn k 1008 ''revoked'' (h\<lparr>hu_sockets := js_delete p (hu_sockets h)\<rparr>) =
      (close_conn k 1008 ''revoked'' h)\<lparr>hu_sockets := js_delete p (hu_sockets (close_conn k 1008 ''revoked'' h))\<rparr>"
    by (auto simp: close_conn_def hub_emit_def set_conn_def split: option.splits)
  have "same_face h (close_conn k 1008 ''revoked'' h)" by simp
  from removed_disconnect [OF this, of p] show ?thesis using Some by (simp add: disconnect_def eq)
qed (simp add: disconnect_def)

lemma face_revoke: "same_face h (admin_revoke_route env rid r p h) \<or> removed p h (admin_revoke_route env rid r p h)"
proof -
  have "same_face h (disconnect p (h\<lparr>hu_ids := i\<rparr>)) \<or> removed p h (disconnect p (h\<lparr>hu_ids := i\<rparr>))" for i
    using face_disconnect [of "h\<lparr>hu_ids := i\<rparr>" p] by (simp add: same_face_def removed_def)
  moreover have "removed p h (hub_emit xs h') = removed p h h'" for xs h' by (simp add: removed_def)
  ultimately show ?thesis by (auto simp: admin_revoke_route_def revokePeer_def split: prod.splits sum.splits)
qed

text \<open>Every event in one case distinction.\<close>

inductive face_step :: "hub_env \<Rightarrow> hub_event \<Rightarrow> hub \<Rightarrow> hub \<Rightarrow> bool" for env where
  still: "same_face h h' \<Longrightarrow> face_step env ev h h'"
| accepted: "conn h k = None \<Longrightarrow> sock h' = sock h \<Longrightarrow> reg h' = reg h \<Longrightarrow> trk h' = trk h \<Longrightarrow>
    conn h' = (conn h)(k \<mapsto> (tok, False, None, None)) \<Longrightarrow> face_step env (Peer_accept k tok) h h'"
| framed: "conn h k = Some c \<Longrightarrow> first_frame env (hu_ids h) frame c c' \<Longrightarrow> sock h' = sock h \<Longrightarrow> reg h' = reg h \<Longrightarrow> trk h' = trk h \<Longrightarrow>
    conn h' = (conn h)(k \<mapsto> c') \<Longrightarrow> face_step env (Peer_text k frame) h h'"
| finished: "registration k h h' \<Longrightarrow> face_step env (Registered k) h h'"
| gone: "removed p h h' \<Longrightarrow> face_step env ev h h'"

lemma hub_face: "face_step env ev (hv_hub w) (hv_hub (hub_step env cfg (now, ev) w))"
proof (cases ev)
  case (Peer_accept k tok)
  then show ?thesis
    using face_accept [of k tok "hv_hub w"] accepted [of "hv_hub w" k "accept_peer k tok (hv_hub w)"] still
    by (cases "conn (hv_hub w) k") (simp_all add: same_face_def)
next
  case (Peer_text k frame)
  then show ?thesis
    using face_text [of env now k frame "hv_hub w"] framed [of "hv_hub w" k _ env frame _ "on_peer_text env now k frame (hv_hub w)"] still
    by (fastforce simp: same_face_def)
next
  case (Peer_closed k)
  then show ?thesis using face_closed [of "hv_hub w" k] still gone by auto
next
  case (Admin_revoke rid r p)
  then show ?thesis using face_revoke [of "hv_hub w" env rid r p] still gone by auto
qed (simp_all add: still finished face_finish)

end
