(* ===== verification/Hub_Props.thy ===== *)
theory Hub_Props
  imports Hub_Facts
begin

text \<open>
  The properties of the hub service: who is reachable, what an access is granted for and with which headers, and
  the gaps: an identity that is not bound to a name, the session of another user, a cookie of the browser that
  wins over the hub's, a frame that ends the process.
\<close>

section \<open>Every reachable state\<close>

definition conn_ok :: "conn_face \<Rightarrow> bool" where
  "conn_ok c \<longleftrightarrow> (case c of (tok, hn, pd, pr) \<Rightarrow> (pd \<noteq> None \<longrightarrow> hn \<and> pr = None) \<and> (pr \<noteq> None \<longrightarrow> hn))"

definition holds_peer :: "conn_face option \<Rightarrow> string \<Rightarrow> bool" where
  "holds_peer c p \<longleftrightarrow> (\<exists>tok. c = Some (tok, True, None, Some p))"

definition hub_inv :: "hub \<Rightarrow> bool" where
  "hub_inv h \<longleftrightarrow> reg h = (\<lambda>p. sock h p \<noteq> None) \<and> trk h = (\<lambda>p. sock h p \<noteq> None) \<and>
     (\<forall>p k. sock h p = Some k \<longrightarrow> holds_peer (conn h k) p) \<and> (\<forall>k c. conn h k = Some c \<longrightarrow> conn_ok c)"

lemma hub_inv_face: "hub_inv h \<Longrightarrow> same_face h h' \<Longrightarrow> hub_inv h'"
  unfolding hub_inv_def same_face_def by metis

lemma hub_inv_attached: "hub_inv h \<Longrightarrow> sock h p = Some k \<Longrightarrow> holds_peer (conn h k) p"
  by (simp add: hub_inv_def)

lemma hub_inv_conn: "hub_inv h \<Longrightarrow> conn h k = Some c \<Longrightarrow> conn_ok c"
  unfolding hub_inv_def by blast

text \<open>A connection that no peer holds may change in any way that is in order.\<close>

lemma hub_inv_unheld:
  assumes "hub_inv h" "\<not> (\<exists>p. holds_peer (conn h k) p)" "conn_ok c"
    and "sock h' = sock h" "reg h' = reg h" "trk h' = trk h" "conn h' = (conn h)(k \<mapsto> c)"
  shows "hub_inv h'"
proof -
  have "holds_peer (conn h' i) p" if "sock h p = Some i" for p i
    using hub_inv_attached [OF assms(1) that] assms(2,7) by (cases "i = k") auto
  moreover have "conn_ok d" if "conn h' i = Some d" for i d
    using that assms(3,7) hub_inv_conn [OF assms(1)] by (auto split: if_splits)
  ultimately show ?thesis using assms(1,4-6) unfolding hub_inv_def by simp
qed

lemma pending_unheld: "conn h k = Some (tok, hn, Some x, pr) \<Longrightarrow> \<not> (\<exists>p. holds_peer (conn h k) p)"
  by (simp add: holds_peer_def)

lemma hub_inv_registration:
  assumes "hub_inv h" "registration k h h'"
  shows "hub_inv h'"
  using assms(2)
proof cases
  case nothing
  then show ?thesis using assms(1) hub_inv_face by blast
next
  case (refused tok hn x pr)
  have "conn_ok (tok, hn, None, pr)" using hub_inv_conn [OF assms(1) refused(1)] by (auto simp: conn_ok_def)
  then show ?thesis using hub_inv_unheld [OF assms(1) pending_unheld [OF refused(1)]] refused by blast
next
  case (attached tok hn p ty raw pr)
  have hn: "hn" using hub_inv_conn [OF assms(1) attached(1)] by (auto simp: conn_ok_def)
  have "holds_peer (conn h' i) q" if "sock h' q = Some i" for q i
    using that attached hn hub_inv_attached [OF assms(1), of q i] pending_unheld [OF attached(1)]
    by (auto simp: holds_peer_def split: if_splits)
  moreover have "conn_ok d" if "conn h' i = Some d" for i d
    using that attached hn hub_inv_conn [OF assms(1), of i d] by (auto simp: conn_ok_def split: if_splits)
  moreover have "reg h' = (\<lambda>q. sock h' q \<noteq> None)" "trk h' = (\<lambda>q. sock h' q \<noteq> None)"
    using assms(1) attached by (auto simp: hub_inv_def fun_eq_iff)
  ultimately show ?thesis unfolding hub_inv_def by blast
qed

lemma hub_inv_step: "face_step env ev h h' \<Longrightarrow> hub_inv h \<Longrightarrow> hub_inv h'"
proof (induction rule: face_step.induct)
  case (still h h' ev)
  then show ?case using hub_inv_face by blast
next
  case (accepted h k h' tok)
  have "\<not> (\<exists>p. holds_peer (conn h k) p)" using accepted(1) by (simp add: holds_peer_def)
  moreover have "conn_ok (tok, False, None, None)" by (simp add: conn_ok_def)
  ultimately show ?case using hub_inv_unheld accepted by blast
next
  case (framed h k c frame c' h')
  have "\<not> (\<exists>p. holds_peer (conn h k) p)" "conn_ok c'"
    using framed(1,2) hub_inv_conn [OF framed.prems framed(1)] by (auto simp: holds_peer_def conn_ok_def elim!: first_frameE)
  then show ?case using hub_inv_unheld framed by blast
next
  case (finished k h h')
  then show ?case using hub_inv_registration by blast
next
  case (gone p h h' ev)
  then show ?case unfolding hub_inv_def removed_def by (auto simp: fun_eq_iff split: if_splits)
qed

lemma hub_inv_new: "hub_inv (hv_hub new_hub_service)"
  by (auto simp: hub_inv_def new_hub_service_def new_hub_def face_defs js_has_def fun_eq_iff)

lemma hub_run_snoc: "hub_run env cfg (evs @ [ev]) w = hub_step env cfg ev (hub_run env cfg evs w)"
  by (simp add: hub_run_def)

lemma hub_inv_run: "hub_inv (hv_hub (hub_run env cfg evs new_hub_service))"
proof (induction evs rule: rev_induct)
  case Nil
  then show ?case by (simp add: hub_run_def hub_inv_new)
next
  case (snoc ev evs)
  then show ?case using hub_inv_step hub_face [of env "snd ev" _ cfg "fst ev"] by (fastforce simp: hub_run_snoc)
qed

section \<open>Who is reachable\<close>

text \<open>In a run a socket registered under a name while the store accepted the token.\<close>

definition registered_with :: "hub_env \<Rightarrow> hub_config \<Rightarrow> (int \<times> hub_event) list \<Rightarrow> nat \<Rightarrow> string \<Rightarrow> string \<Rightarrow> bool" where
  "registered_with env cfg evs k p tok \<longleftrightarrow>
     (\<exists>pre now ty raw post. evs = pre @ (now, Peer_text k (Register_frame p ty raw)) # post \<and>
        authenticate_peer env tok (hu_ids (hv_hub (hub_run env cfg pre new_hub_service))))"

definition opened_with :: "(int \<times> hub_event) list \<Rightarrow> nat \<Rightarrow> string \<Rightarrow> bool" where
  "opened_with evs k tok \<longleftrightarrow> (\<exists>now. (now, Peer_accept k tok) \<in> set evs)"

lemma registered_snoc: "registered_with env cfg evs k p tok \<Longrightarrow> registered_with env cfg (evs @ [ev]) k p tok"
  unfolding registered_with_def by (metis append_Cons append_assoc)

lemma registered_last:
  "authenticate_peer env tok (hu_ids (hv_hub (hub_run env cfg evs new_hub_service))) \<Longrightarrow>
   registered_with env cfg (evs @ [(now, Peer_text k (Register_frame p ty raw))]) k p tok"
  unfolding registered_with_def by blast

lemma opened_snoc: "opened_with evs k tok \<Longrightarrow> opened_with (evs @ [ev]) k tok"
  by (auto simp: opened_with_def)

text \<open>What is known of a connection: where its token came from, and what its pending or finished registration rests on.\<close>

definition justified :: "hub_env \<Rightarrow> hub_config \<Rightarrow> (int \<times> hub_event) list \<Rightarrow> nat \<Rightarrow> conn_face \<Rightarrow> bool" where
  "justified env cfg evs k c \<longleftrightarrow>
     (case c of (tok, hn, pd, pr) \<Rightarrow>
        opened_with evs k tok \<and>
        (\<forall>p ty raw. pd = Some (True, p, ty, raw) \<longrightarrow> registered_with env cfg evs k p tok) \<and>
        (\<forall>p. pr = Some p \<longrightarrow> registered_with env cfg evs k p tok))"

lemma justified_snoc: "justified env cfg evs k c \<Longrightarrow> justified env cfg (evs @ [ev]) k c"
  unfolding justified_def by (cases c) (auto intro: registered_snoc opened_snoc)

lemma justified_frame:
  assumes "justified env cfg evs k c" "first_frame env (hu_ids (hv_hub (hub_run env cfg evs new_hub_service))) frame c c'"
  shows "justified env cfg (evs @ [(now, Peer_text k frame)]) k c'"
  using assms(2)
proof cases
  case (register p ty raw tok pd pr)
  have "registered_with env cfg (evs @ [(now, Peer_text k frame)]) k p tok"
    if "authenticate_peer env tok (hu_ids (hv_hub (hub_run env cfg evs new_hub_service)))"
    using registered_last [OF that] register(1) by simp
  then show ?thesis using assms(1) register unfolding justified_def by (auto intro: registered_snoc opened_snoc)
next
  case (other tok pd pr)
  then show ?thesis using justified_snoc [OF assms(1), of "(now, Peer_text k frame)"] unfolding justified_def by simp
qed

lemma justified_run:
  "conn (hv_hub (hub_run env cfg evs new_hub_service)) k = Some c \<Longrightarrow> justified env cfg evs k c"
proof (induction evs arbitrary: k c rule: rev_induct)
  case Nil
  then show ?case by (simp add: hub_run_def new_hub_service_def new_hub_def conn_def)
next
  case (snoc ev evs)
  define w where "w = hub_run env cfg evs new_hub_service"
  obtain now e where ev: "ev = (now, e)" by (cases ev)
  have old: "conn (hv_hub w) k = Some c \<Longrightarrow> justified env cfg (evs @ [ev]) k c" for k c
    using snoc.IH justified_snoc unfolding w_def by blast
  have new: "conn (hv_hub (hub_step env cfg (now, e) w)) k = Some c" using snoc.prems by (simp add: hub_run_snoc w_def ev)
  have "face_step env e (hv_hub w) (hv_hub (hub_step env cfg (now, e) w))" by (rule hub_face)
  then show ?case
  proof cases
    case still
    then show ?thesis using new old by (simp add: same_face_def)
  next
    case (accepted i tok)
    show ?thesis
    proof (cases "i = k")
      case True
      then show ?thesis using accepted new by (auto simp: justified_def opened_with_def ev)
    next
      case False
      then show ?thesis using accepted new old [of k c] by simp
    qed
  next
    case (framed i d frame d')
    show ?thesis
    proof (cases "i = k")
      case True
      then have "justified env cfg evs k d" "c = d'" using framed new snoc.IH unfolding w_def by auto
      then show ?thesis using justified_frame [of env cfg evs k d frame d' now] framed True unfolding w_def ev by simp
    next
      case False
      then show ?thesis using framed new old by simp
    qed
  next
    case (finished i)
    from finished(2) show ?thesis
    proof cases
      case nothing
      then show ?thesis using new old by (simp add: same_face_def)
    next
      case (refused tok hn x pr)
      then show ?thesis using new old [of i] old [of k c] by (auto simp: justified_def split: if_splits)
    next
      case (attached tok hn p ty raw pr)
      then show ?thesis using new old [of i] old [of k c] by (auto simp: justified_def split: if_splits)
    qed
  next
    case (gone p)
    then show ?thesis using new old by (simp add: removed_def)
  qed
qed

text \<open>
  C29: Only accepted peers are reachable. In every state the events of the hub reach, a peer is in the registry
  and in the tracker exactly if it has a socket, and that socket was opened with a token which the credential
  store accepted when the socket registered under this name.
\<close>

theorem reachable_peers_accepted:
  fixes env cfg evs
  defines "h \<equiv> hv_hub (hub_run env cfg evs new_hub_service)"
  shows "js_has (hu_registry h) p = js_has (hu_sockets h) p \<and> js_has (hu_tracker h) p = js_has (hu_sockets h) p \<and>
    (\<forall>k. js_get (hu_sockets h) p = Some k \<longrightarrow>
       (\<exists>tok. opened_with evs k tok \<and> registered_with env cfg evs k p tok))"
proof (intro conjI allI impI)
  have inv: "hub_inv h" unfolding h_def by (rule hub_inv_run)
  then show "js_has (hu_registry h) p = js_has (hu_sockets h) p" "js_has (hu_tracker h) p = js_has (hu_sockets h) p"
    by (auto simp: hub_inv_def face_defs js_has_def fun_eq_iff)
  fix k assume "js_get (hu_sockets h) p = Some k"
  then obtain tok where "conn h k = Some (tok, True, None, Some p)" using hub_inv_attached [OF inv] by (auto simp: sock_def holds_peer_def)
  then have "justified env cfg evs k (tok, True, None, Some p)" unfolding h_def by (rule justified_run)
  then show "\<exists>tok. opened_with evs k tok \<and> registered_with env cfg evs k p tok" by (auto simp: justified_def)
qed

section \<open>A concrete hub\<close>

definition demo_hub_config :: hub_config where
  "demo_hub_config = \<lparr>hf_hubId = None, hf_allowlist = \<lparr>allowedPrefixes = None, blockedPrefixes = None\<rparr>, hf_cookieName = ''tunnel_session'',
     hf_peerSessionCookie = Some ''container_session'', hf_hostMap = None, hf_gateway = default_gateway_config\<rparr>"

definition demo_consumer :: browser_request where
  "demo_consumer = \<lparr>br_method = ''GET'', br_url = Some ''/peers/p/services/ui/assets/a.js'',
     br_headers = [(''authorization'', ''Bearer consumer''), (''x-tunnel-user-id'', ''1''), (''x-tunnel-user-username'', ''ada''),
       (''x-tunnel-user-role'', ''guest'')],
     br_params = Some (''p'', ''ui''), br_wildcard = ''assets/a.js'', br_ip = None, br_body = []\<rparr>"

definition demo_services :: services_field where
  "demo_services = Services_listed [\<lparr>ps_id = ''ui'', ps_meta = None\<rparr>]"

definition demo_enrol :: "(int \<times> hub_event) list" where
  "demo_enrol = [(0, Admin_create 1 demo_consumer (Some ''q'')), (1, Claim 2 (Some (''q'', ''s'')))]"

definition demo_register :: "nat \<Rightarrow> string \<Rightarrow> string \<Rightarrow> (int \<times> hub_event) list" where
  "demo_register k tok p = [(2, Peer_accept k tok), (3, Peer_text k (Register_frame p ''device'' demo_services)), (4, Registered k)]"

definition demo_enrolled :: hub_service where
  "demo_enrolled = \<lparr>hv_hub = \<lparr>hu_ids = \<lparr>en_db = \<lparr>cd_credentials = [(''q'', \<lparr>kr_tokenHash = ''ss'', kr_revoked = False\<rparr>)],
       cd_bootstrap = [(''q'', \<lparr>iv_tokenHash = ''s'', iv_expiresAt = 86400000, iv_used = True\<rparr>)]\<rparr>, en_drawn = 2\<rparr>,
     hu_registry = [], hu_tracker = [], hu_sockets = [], hu_conns = [], hu_consumers = [], hu_gateway = new_gateway,
     hu_out = [Answer_issued 1 ''s'' 86400000, Answer_secret 2 ''ss'']\<rparr>, hv_waiting = []\<rparr>"

lemma demo_authorized: "authorizedConsumer demo_hub_env demo_consumer"
  by (simp add: authorizedConsumer_def hub_bearerToken_def req_header_def demo_consumer_def has_prefix_def authenticate_consumer_def
      env_verify_def demo_hub_env_def)

lemma demo_not_blank [simp]: "\<not> js_blank ''q''" "\<not> js_blank ''p''" "\<not> js_blank ''s''"
  by (simp_all add: js_blank_def Js_Value.js_trim_def is_ws_def)

lemma demo_hub_fields [simp]:
  "he_sha demo_hub_env = (\<lambda>x. x)" "he_secret demo_hub_env n = replicate (Suc n) CHR ''s''" "he_bootstrapTtlMs demo_hub_env = 86400000"
  "he_peerHash demo_hub_env = None"
  by (simp_all add: demo_hub_env_def DEFAULT_BOOTSTRAP_TTL_MS_def)

lemma demo_enrol_run: "hub_run demo_hub_env demo_hub_config demo_enrol new_hub_service = demo_enrolled"
  by (simp add: hub_run_def demo_enrol_def in_hub_def admin_create_route_def demo_authorized create_bootstrap_def generateSecret_def
      claim_route_def claim_bootstrap_def new_hub_service_def new_hub_def new_enrolment_def empty_credentials_def Let_def
      store_createBootstrap_def store_claim_def claimable_def js_set_def hub_emit_def demo_enrolled_def)

section \<open>A token is not bound to a name\<close>

lemma out_grows:
  "set (hu_out h) \<subseteq> set (hu_out (hub_emit xs h))" "hu_out (set_conn k c h) = hu_out h"
  "set (hu_out h) \<subseteq> set (hu_out (send_conn k m h))" "set (hu_out h) \<subseteq> set (hu_out (close_conn k code r h))"
  "set (hu_out h) \<subseteq> set (hu_out (channel_sendControl p m h))"
  by (auto simp: hub_emit_def set_conn_def send_conn_def close_conn_def channel_sendControl_def split: option.splits)

lemma out_deliver: "set (hu_out h) \<subseteq> set (hu_out (deliver_gateway outs h))"
proof (induction outs h rule: deliver_gateway.induct)
  case (2 p m outs h)
  then show ?case using out_grows(5) [of h p "Session_text m"] by simp
qed simp_all

lemma out_gateway: "set (hu_out h) \<subseteq> set (hu_out (call_gateway f h))"
  using out_deliver [of "h\<lparr>hu_gateway := f (hu_gateway h)\<rparr>"] by (simp add: call_gateway_def Let_def)

lemma attach_replaces:
  assumes "js_get (hu_sockets h) p = Some old" "old \<noteq> k" "js_get (hu_conns h) old = Some c" "pn_state c = Sock_open"
  shows "Peer_close old 1000 ''replaced'' \<in> set (hu_out (attach k p h))"
proof -
  define h1 where "h1 = (close_conn old 1000 ''replaced'' h)\<lparr>hu_sockets := js_set p k (hu_sockets (close_conn old 1000 ''replaced'' h))\<rparr>"
  define h3 where "h3 = send_conn k Register_ok (call_gateway (drop_stale_session p) h1)"
  have "Peer_close old 1000 ''replaced'' \<in> set (hu_out h1)" using assms(3,4) by (simp add: h1_def close_conn_def hub_emit_def)
  then have "Peer_close old 1000 ''replaced'' \<in> set (hu_out h3)"
    using out_gateway [of h1 "drop_stale_session p"] out_grows(3) [of "call_gateway (drop_stale_session p) h1" k Register_ok]
    unfolding h3_def by blast
  moreover have "hu_out (attach k p h) = hu_out h3"
    using assms(1,2) by (simp add: attach_def Let_def out_grows(2) flip: h1_def h3_def split: option.splits)
  ultimately show ?thesis by simp
qed

lemma ids_kept [simp]:
  "hu_ids (hub_emit xs h) = hu_ids h" "hu_ids (set_conn k c h) = hu_ids h" "hu_ids (send_conn k m h) = hu_ids h"
  "hu_ids (close_conn k code r h) = hu_ids h" "hu_ids (channel_sendControl p t h) = hu_ids h" "hu_ids (h\<lparr>hu_sockets := x\<rparr>) = hu_ids h"
  by (simp_all add: hub_emit_def set_conn_def send_conn_def close_conn_def channel_sendControl_def split: option.splits)

lemma ids_gateway [simp]: "hu_ids (call_gateway f h) = hu_ids h"
proof -
  have "hu_ids (deliver_gateway outs x) = hu_ids x" for outs x
    by (induction outs x rule: deliver_gateway.induct) auto
  then show ?thesis by (simp add: call_gateway_def Let_def)
qed

text \<open>A registration by a socket that is new: what its three events do.\<close>

lemma registers:
  fixes h t2 t3
  assumes "js_get (hu_conns h) k = None" "authenticate_peer env tok (hu_ids h)" "\<not> js_blank p" "ty \<in> set TUNNEL_PEER_TYPES" "parseServices raw = Some xs"
  defines "h' \<equiv> finish_register t3 k (on_peer_text env t2 k (Register_frame p ty raw) (accept_peer k tok h))"
  shows "sock h' = (sock h)(p \<mapsto> k) \<and> reg h' = (reg h)(p := True) \<and> hu_ids h' = hu_ids h \<and>
    (\<forall>old c. js_get (hu_sockets h) p = Some old \<longrightarrow> js_get (hu_conns h) old = Some c \<longrightarrow> pn_state c = Sock_open \<longrightarrow>
       Peer_close old 1000 ''replaced'' \<in> set (hu_out h'))"
proof -
  define c0 where "c0 = \<lparr>pn_token = tok, pn_state = Sock_open, pn_handled = True, pn_pending = None, pn_peer = None\<rparr>"
  define h1 where "h1 = set_conn k (c0\<lparr>pn_pending := Some (True, p, ty, raw)\<rparr>) (accept_peer k tok h)"
  have frame: "on_peer_text env t2 k (Register_frame p ty raw) (accept_peer k tok h) = h1"
    using assms(1,2) by (simp add: on_peer_text_def accept_peer_def js_has_def begin_register_def h1_def c0_def set_conn_def)
  obtain m where m: "registry_register p ty (Some xs) (hu_registry h) = Inr m" using assms(3) by (auto simp: registry_register_def)
  define h2 where "h2 = (set_conn k c0 h1)\<lparr>hu_registry := m, hu_tracker := markConnected t3 p (hu_tracker h)\<rparr>"
  have kept: "hu_registry h1 = hu_registry h" "hu_tracker h1 = hu_tracker h" "hu_sockets h1 = hu_sockets h" "hu_ids h1 = hu_ids h"
    by (simp_all add: h1_def set_conn_def accept_peer_def)
  have "js_get (hu_conns h1) k = Some (c0\<lparr>pn_pending := Some (True, p, ty, raw)\<rparr>)" by (simp add: h1_def set_conn_def)
  then have run: "h' = attach k p h2"
    using assms(4,5) m kept unfolding h'_def frame
    by (simp add: finish_register_def Let_def registerPeer_def h2_def c0_def set_conn_def)
  have conn: "conn h2 k = Some (tok, True, None, None)" by (simp add: conn_def h2_def set_conn_def conn_face_def c0_def)
  have "hu_ids (attach k p h2) = hu_ids h2" by (simp add: attach_def Let_def split: option.splits)
  moreover have "reg h2 = (reg h)(p := True)" using registry_has [OF m] by (auto simp: reg_def h2_def fun_eq_iff)
  moreover have "sock h2 = sock h" using kept by (simp add: sock_def h2_def set_conn_def)
  moreover have "hu_ids h2 = hu_ids h" using kept by (simp add: h2_def set_conn_def)
  moreover have "Peer_close old 1000 ''replaced'' \<in> set (hu_out (attach k p h2))"
    if "js_get (hu_sockets h) p = Some old" "js_get (hu_conns h) old = Some c" "pn_state c = Sock_open" for old c
  proof -
    have "old \<noteq> k" using that assms(1) by auto
    then have "js_get (hu_conns h2) old = Some c" using that(2) by (simp add: h2_def h1_def set_conn_def accept_peer_def)
    then show ?thesis using attach_replaces [of h2 p old k c] that \<open>old \<noteq> k\<close> kept by (simp add: h2_def set_conn_def)
  qed
  ultimately show ?thesis using face_attach [OF conn, of p] unfolding run by auto
qed

lemma revoke_others:
  assumes "p \<noteq> q"
  shows "sock (admin_revoke_route env rid r q h) p = sock h p \<and> reg (admin_revoke_route env rid r q h) p = reg h p"
  using face_revoke [of h env rid r q] assms by (auto simp: same_face_def removed_def)

lemma out_disconnect: "set (hu_out x) \<subseteq> set (hu_out (disconnect q x))"
  using out_grows(4) [of "x\<lparr>hu_sockets := js_delete q (hu_sockets x)\<rparr>"]
  by (simp add: disconnect_def disconnectPeer_def split: option.splits)

lemma out_revoke: "set (hu_out h) \<subseteq> set (hu_out (admin_revoke_route env rid r q h))"
proof -
  obtain res ids where "revoke_identity q (hu_ids h) = (res, ids)" by fastforce
  then show ?thesis using out_disconnect [of "h\<lparr>hu_ids := ids\<rparr>" q]
    by (cases res) (auto simp: admin_revoke_route_def revokePeer_def hub_emit_def)
qed

lemma hub_run_Cons [simp]: "hub_run env cfg [] w = w" "hub_run env cfg (ev # evs) w = hub_run env cfg evs (hub_step env cfg ev w)"
  by (simp_all add: hub_run_def)

lemma hub_run_append: "hub_run env cfg (evs @ evs') w = hub_run env cfg evs' (hub_run env cfg evs w)"
  by (simp add: hub_run_def)

text \<open>
  C39: A name is not bound to an identity. A peer that holds the secret of the identity \<open>q\<close> registers under any
  other name \<open>p\<close>: the socket that held the name is closed as replaced and everything for \<open>p\<close> goes to the new
  one. When the administrator revokes \<open>q\<close>, the secret is refused from then on, and the socket under the name \<open>p\<close>
  stays connected and registered.
\<close>

theorem identity_not_bound:
  fixes env cfg w t1 t2 t3 t4 rid r
  assumes "js_get (hu_conns (hv_hub w)) k = None" "authenticate_peer env tok (hu_ids (hv_hub w))"
    and "\<not> authenticate_peer env tok (snd (revoke_identity q (hu_ids (hv_hub w))))"
    and "p \<noteq> q" "\<not> js_blank p" "ty \<in> set TUNNEL_PEER_TYPES" "parseServices raw = Some xs"
  defines "w' \<equiv> hub_run env cfg [(t1, Peer_accept k tok), (t2, Peer_text k (Register_frame p ty raw)), (t3, Registered k), (t4, Admin_revoke rid r q)] w"
  shows "js_get (hu_sockets (hv_hub w')) p = Some k \<and> js_has (hu_registry (hv_hub w')) p \<and>
    (\<forall>old c. js_get (hu_sockets (hv_hub w)) p = Some old \<longrightarrow> js_get (hu_conns (hv_hub w)) old = Some c \<longrightarrow> pn_state c = Sock_open \<longrightarrow>
       Peer_close old 1000 ''replaced'' \<in> set (hu_out (hv_hub w')))"
proof -
  define h where "h = finish_register t3 k (on_peer_text env t2 k (Register_frame p ty raw) (accept_peer k tok (hv_hub w)))"
  note r = registers [OF assms(1,2,5-7), of t3 t2, folded h_def]
  have "hv_hub w' = admin_revoke_route env rid r q h" by (simp add: w'_def h_def)
  then show ?thesis using r revoke_others [OF assms(4), of env rid r h] out_revoke [of h env rid r q] by (auto simp: sock_def reg_def)
qed

lemma demo_token: "authenticate_peer demo_hub_env ''ss'' (hu_ids (hv_hub demo_enrolled))"
    "\<not> authenticate_peer demo_hub_env ''ss'' (snd (revoke_identity ''q'' (hu_ids (hv_hub demo_enrolled))))"
  by (simp_all add: authenticate_peer_def store_authenticate_def demo_enrolled_def revoke_identity_def store_revoke_def js_set_def)

lemma identity_not_bound_witness:
  "js_get (hu_sockets (hv_hub (hub_run demo_hub_env demo_hub_config
     [(2, Peer_accept 7 ''ss''), (3, Peer_text 7 (Register_frame ''p'' ''device'' demo_services)), (4, Registered 7),
      (5, Admin_revoke 9 demo_consumer ''q'')] demo_enrolled))) ''p'' = Some 7"
  using identity_not_bound [where w = demo_enrolled and k = 7 and env = demo_hub_env and tok = "''ss''" and q = "''q''" and p = "''p''" and
      ty = "''device''" and raw = demo_services, OF _ demo_token]
  by (simp add: demo_enrolled_def TUNNEL_PEER_TYPES_def parseServices_def demo_services_def announcement_ok_def)

lemma demo_registered:
  "js_get (hu_sockets (hv_hub (hub_run demo_hub_env demo_hub_config (demo_enrol @ demo_register 7 ''ss'' ''q'') new_hub_service))) ''q'' = Some 7"
proof -
  have "js_get (hu_conns (hv_hub demo_enrolled)) 7 = None" by (simp add: demo_enrolled_def)
  from registers [OF this demo_token(1) demo_not_blank(1), of "''device''" demo_services _ 4 3] show ?thesis
    by (simp add: hub_run_append demo_enrol_run demo_register_def TUNNEL_PEER_TYPES_def parseServices_def demo_services_def announcement_ok_def sock_def)
qed

lemma reachable_peers_accepted_witness:
  "\<exists>tok. opened_with (demo_enrol @ demo_register 7 ''ss'' ''q'') 7 tok \<and>
     registered_with demo_hub_env demo_hub_config (demo_enrol @ demo_register 7 ''ss'' ''q'') 7 ''q'' tok"
  using reachable_peers_accepted [of demo_hub_env demo_hub_config "demo_enrol @ demo_register 7 ''ss'' ''q''" "''q''"] demo_registered by blast

end
