(* ===== verification/Hub_Grants.thy ===== *)
theory Hub_Grants
  imports Hub_Props
begin

text \<open>
  What an access through the hub is granted for: the checks behind every stream it starts, the headers that go
  on to the peer, and three gaps in them.
\<close>

section \<open>Headers\<close>

lemma forward_fold:
  "js_has (fold (\<lambda>(n, v) out. if forwarded d (to_lower n) then js_set (to_lower n) v out else out) hs out) n \<Longrightarrow>
   js_has out n \<or> forwarded d n"
  by (induction hs arbitrary: out) (fastforce split: if_splits)+

lemma forwardHeaders_has: "js_has (forwardHeaders d hs) n \<Longrightarrow> forwarded d n"
  using forward_fold [of d hs "[]" n] by (auto simp: forwardHeaders_def js_has_def)

lemma forwardWsHeaders_has: "js_has (forwardWsHeaders d hs) n \<Longrightarrow> forwarded d n"
  using forwardHeaders_has [of d hs n] by (auto simp: forwardWsHeaders_def js_has_keys)

lemma forwarded_cookie: "forwarded d ''cookie''"
  by (simp add: forwarded_def HOP_BY_HOP_def has_prefix_def)

lemma session_cookie_has: "js_has (add_session_cookie cfg t hs) n \<Longrightarrow> js_has hs n \<or> n = ''cookie''"
  by (auto simp: add_session_cookie_def Let_def split: option.splits if_splits)

section \<open>Sessions\<close>

lemma byToken_found:
  assumes "byToken now token m = (Some n, m')"
  shows "\<exists>i n0. (i, n0) \<in> set m \<and> sn_token n0 = token \<and> session_ref_of n = session_ref_of n0 \<and> sn_token n = token \<and> sn_peerId n = sn_peerId n0"
  using assms find_first_Some [of "\<lambda>(i, n). sn_token n = token" m]
  by (fastforce simp: byToken_def session_ref_of_def split: option.splits prod.splits)

lemma sessionForPeer_peer: "sessionForPeer p m = Some n \<Longrightarrow> sn_peerId n = p"
  by (auto simp: sessionForPeer_def dest: find_first_Some)

definition cookie_opens :: "hub_config \<Rightarrow> browser_request \<Rightarrow> hub \<Rightarrow> session_ref \<Rightarrow> bool" where
  "cookie_opens cfg r h ref \<longleftrightarrow>
     (\<exists>token i n. sessionCookieValue (req_header r ''cookie'') (hf_cookieName cfg) = Some token \<and> token \<noteq> [] \<and>
        (i, n) \<in> set (gw_sessions (hu_gateway h)) \<and> sn_token n = token \<and> session_ref_of n = ref)"

lemma cookie_session_opens:
  assumes "cookie_session cfg now (req_header r ''cookie'') p h = (Some n, h')"
  shows "cookie_opens cfg r h (session_ref_of n) \<and> sn_peerId n = p"
  using assms by (fastforce simp: cookie_session_def cookie_opens_def split: option.splits if_splits prod.splits dest: byToken_found)

lemma cookie_session_keeps:
  "cookie_session cfg now ck p h = (n, h') \<Longrightarrow> hu_registry h' = hu_registry h \<and> hu_tracker h' = hu_tracker h \<and> hu_out h' = hu_out h"
  by (auto simp: cookie_session_def split: option.splits if_splits prod.splits)

text \<open>What the gateway says goes to peers only.\<close>

lemma sendControl_appends: "\<exists>xs. hu_out (channel_sendControl p t h) = hu_out h @ xs \<and> (\<forall>x \<in> set xs. \<exists>k m. x = Peer_send k m)"
  by (auto simp: channel_sendControl_def hub_emit_def split: option.splits)

lemma deliver_appends: "\<exists>xs. hu_out (deliver_gateway outs h) = hu_out h @ xs \<and> (\<forall>x \<in> set xs. \<exists>k m. x = Peer_send k m)"
proof (induction outs h rule: deliver_gateway.induct)
  case (2 p m outs h)
  obtain xs where xs: "hu_out (channel_sendControl p (Session_text m) h) = hu_out h @ xs" "\<forall>x \<in> set xs. \<exists>k m. x = Peer_send k m"
    using sendControl_appends by blast
  obtain ys where "hu_out (deliver_gateway outs (channel_sendControl p (Session_text m) h)) = hu_out h @ xs @ ys"
    "\<forall>x \<in> set ys. \<exists>k m. x = Peer_send k m" using 2 xs(1) by auto
  then show ?case using xs(2) by (intro exI [of _ "xs @ ys"]) auto
qed auto

lemma gateway_appends: "\<exists>xs. hu_out (call_gateway f h) = hu_out h @ xs \<and> (\<forall>x \<in> set xs. \<exists>k m. x = Peer_send k m)"
  using deliver_appends [of _ "h\<lparr>hu_gateway := f (hu_gateway h)\<rparr>"] by (simp add: call_gateway_def Let_def)

section \<open>Every stream that an access starts\<close>

definition starts :: "hub_out \<Rightarrow> session_ref \<Rightarrow> string \<Rightarrow> headers \<Rightarrow> bool" where
  "starts out ref path hs \<longleftrightarrow> (\<exists>m b. out = Proxy_event (Start_http ref m path hs b)) \<or> out = Proxy_event (Start_ws ref path (Some hs))"

lemma started_access:
  assumes "hu_out (hv_hub (start_access cfg kind r v n path w)) = hu_out (hv_hub w) @ outs" "out \<in> set outs" "starts out ref path' hs"
  shows "ref = session_ref_of n \<and> path' = path \<and> (\<forall>x. js_has hs x \<longrightarrow> forwarded v x)"
  using assms
  by (auto simp: start_access_def hub_emit_def starts_def forwarded_cookie split: access_kind.splits
      dest!: session_cookie_has forwardHeaders_has forwardWsHeaders_has)

lemma granted_checks:
  assumes "authorize_begin cfg q h = Granted n path"
  shows "list_ex (\<lambda>v. ps_id v = aq_serviceId q) (servicesOf (aq_peerId q) (hu_registry h)) \<and> tracker_isConnected (hu_tracker h) (aq_peerId q) \<and>
    pathAllowed cfg (aq_path q) (aq_rootMount q) \<and> path = aq_path q \<and>
    (aq_session q = Some n \<or> aq_session q = None \<and> aq_user q \<noteq> None \<and> sn_peerId n = aq_peerId q)"
  using assms sessionForPeer_peer by (auto simp: authorize_begin_def split: if_splits option.splits)


text \<open>The peer \<open>q\<close> of the demonstration with a service and a session of another user.\<close>

definition demo_granting :: hub_service where
  "demo_granting = demo_enrolled\<lparr>hv_hub := (hv_hub demo_enrolled)\<lparr>
     hu_registry := [(''p'', \<lparr>pr_peerId = ''p'', pr_peerType = ''device'', pr_services = [\<lparr>ps_id = ''ui'', ps_meta = None\<rparr>]\<rparr>)],
     hu_tracker := [(''p'', \<lparr>tr_status = Peer_connected, tr_lastSeenAt = 4\<rparr>)],
     hu_gateway := new_gateway\<lparr>gw_sessions := [(''s1'', \<lparr>sn_sessionId = ''s1'', sn_peerId = ''p'', sn_token = ''t1'',
        sn_user = \<lparr>tu_id = ''2'', tu_username = ''eve'', tu_role = ''admin''\<rparr>, sn_peerRole = ''admin'',
        sn_createdAt = 3, sn_lastActivityAt = 3, sn_bytesIn = 0, sn_bytesOut = 0\<rparr>)]\<rparr>\<rparr>\<rparr>"

lemma demo_access_path:
  "resolveAccessContext demo_hub_config demo_consumer = Some \<lparr>ax_peerId = ''p'', ax_serviceId = ''ui'', ax_root = False\<rparr>"
  "httpPath demo_consumer \<lparr>ax_peerId = ''p'', ax_serviceId = ''ui'', ax_root = False\<rparr> = ''/assets/a.js''"
  "sessionCookieValue (req_header demo_consumer ''cookie'') c = None"
  "userFromHeaders demo_consumer = Some \<lparr>tu_id = ''1'', tu_username = ''ada'', tu_role = ''guest''\<rparr>"
  "pathAllowed demo_hub_config ''/assets/a.js'' False"
  by (simp_all add: resolveAccessContext_def demo_hub_config_def demo_consumer_def req_header_def httpPath_def with_query_def
      queryOf_def sessionCookieValue_def userFromHeaders_def pathAllowed_def isPathAllowed_def clean_path_def
      DEFAULT_ALLOWED_PREFIXES_def has_prefix_def or_else_def)

lemma demo_granting_fields:
  "servicesOf ''p'' (hu_registry (hv_hub demo_granting)) = [\<lparr>ps_id = ''ui'', ps_meta = None\<rparr>]"
  "tracker_isConnected (hu_tracker (hv_hub demo_granting)) ''p''"
  "sessionForPeer ''p'' (gw_sessions (hu_gateway (hv_hub demo_granting))) =
     Some \<lparr>sn_sessionId = ''s1'', sn_peerId = ''p'', sn_token = ''t1'', sn_user = \<lparr>tu_id = ''2'', tu_username = ''eve'', tu_role = ''admin''\<rparr>,
        sn_peerRole = ''admin'', sn_createdAt = 3, sn_lastActivityAt = 3, sn_bytesIn = 0, sn_bytesOut = 0\<rparr>"
  by (simp_all add: demo_granting_def servicesOf_def tracker_isConnected_def statusOf_def sessionForPeer_def)

lemma demo_headers:
  "add_session_cookie demo_hub_config t (forwardHeaders True (br_headers demo_consumer)) = [(''cookie'', ''container_session='' @ t)]"
  by (simp add: demo_consumer_def forwardHeaders_def to_lower_def forwarded_def HOP_BY_HOP_def has_prefix_def add_session_cookie_def
      demo_hub_config_def js_set_def)

lemma demo_grant:
  "hu_out (hv_hub (hub_step demo_hub_env demo_hub_config (5, Access Http_access 3 ''s2'' demo_consumer) demo_granting)) =
   hu_out (hv_hub demo_granting) @ [Proxy_event (Start_http \<lparr>sr_sessionId = ''s1'', sr_peerId = ''p''\<rparr> ''GET'' ''/assets/a.js''
     [(''cookie'', ''container_session=t1'')] [])]"
  by (simp add: access_handler_def demo_access_path cookie_session_def demo_authorized authorize_begin_def demo_granting_fields Let_def
      start_access_def in_hub_def hub_emit_def session_ref_of_def demo_headers) (simp add: demo_consumer_def)


section \<open>Three gaps\<close>

text \<open>On the way of a consumer the first open session of the peer is used, whoever opened it; nothing is audited.\<close>

lemma session_of_another_user:
  assumes "list_ex (\<lambda>x. ps_id x = aq_serviceId q) (servicesOf (aq_peerId q) (hu_registry h))" "tracker_isConnected (hu_tracker h) (aq_peerId q)"
    and "pathAllowed cfg (aq_path q) (aq_rootMount q)" "aq_session q = None" "aq_user q = Some u"
    and "sessionForPeer (aq_peerId q) (gw_sessions (hu_gateway h)) = Some n"
  shows "authorize_begin cfg q h = Granted n (aq_path q)"
  using assms by (simp add: authorize_begin_def)

text \<open>The name of a cookie that the browser sends wins over the cookie which the hub adds for the application.\<close>

lemma split_on_ne: "split_on sep xs \<noteq> []"
  by (induction xs) (auto split: list.splits)

lemma split_on_append: "split_on sep (xs @ sep # ys) = split_on sep xs @ split_on sep ys"
proof (induction xs)
  case (Cons x xs)
  then show ?case using split_on_ne [of sep xs] by (cases "split_on sep xs") auto
qed simp

lemma cookie_in_append: "cookie_in name (xs @ ys) = (case cookie_in name xs of None \<Rightarrow> cookie_in name ys | Some v \<Rightarrow> Some v)"
  by (induction xs) auto

lemma browser_cookie_wins:
  assumes "hf_peerSessionCookie cfg = Some name" "js_get hs ''cookie'' = Some old" "sessionCookieValue (Some old) name = Some v"
  shows "sessionCookieValue (js_get (add_session_cookie cfg token hs) ''cookie'') name = Some v"
proof (cases "name = []")
  case False
  have "old \<noteq> []" using assms(3) by (auto simp: sessionCookieValue_def)
  then have "js_get (add_session_cookie cfg token hs) ''cookie'' = Some (old @ CHR '';'' # CHR '' '' # name @ ''='' @ token)"
    using assms(1,2) False by (simp add: add_session_cookie_def Let_def)
  then show ?thesis using assms(3) \<open>old \<noteq> []\<close> by (simp add: sessionCookieValue_def split_on_append cookie_in_append)
qed (use assms in \<open>simp add: add_session_cookie_def\<close>)

text \<open>
  A socket that was replaced still counts for its name: an error on it marks the new connection of the peer, and a
  heartbeat does not heal that; the peer is refused as offline until it registers again.
\<close>

lemma replaced_socket_marks_error:
  assumes "js_get (hu_conns h) old = Some c" "pn_peer c = Some p" "js_has (hu_tracker h) p"
  shows "\<not> tracker_isConnected (markHeartbeat now p (hu_tracker (peer_failed old h))) p"
  using assms by (auto simp: peer_failed_def markError_def markHeartbeat_def tracker_isConnected_def statusOf_def js_has_def split: option.splits)

text \<open>The first text frame of a socket may be \<open>null\<close>: before any token is looked at, the handler throws.\<close>

lemma null_frame_throws:
  assumes "js_get (hu_conns h) k = None"
  shows "Thrown k \<in> set (hu_out (on_peer_text env now k Null_frame (accept_peer k token h)))"
  using assms by (simp add: on_peer_text_def accept_peer_def js_has_def begin_register_def set_conn_def hub_emit_def)

text \<open>
  A socket that closes while its registration waits for the credential store is registered afterwards: the peer
  is listed with a socket that is gone, and no further event of that socket removes it.
\<close>

lemma closed_socket_registers:
  assumes "js_get (hu_conns h) k = Some c" "pn_pending c = Some (True, p, ty, raw)" "pn_peer c = None" "\<not> js_blank p"
    and "ty \<in> set TUNNEL_PEER_TYPES" "parseServices raw = Some xs"
  shows "sock (finish_register now k (peer_closed k h)) p = Some k \<and> reg (finish_register now k (peer_closed k h)) p"
proof -
  define h1 where "h1 = peer_closed k h"
  define c1 where "c1 = c\<lparr>pn_state := Sock_closed, pn_pending := None\<rparr>"
  obtain m where m: "registry_register p ty (Some xs) (hu_registry h) = Inr m" using assms(4) by (auto simp: registry_register_def)
  define h2 where "h2 = (set_conn k c1 h1)\<lparr>hu_registry := m, hu_tracker := markConnected now p (hu_tracker h)\<rparr>"
  have h1: "h1 = set_conn k (c\<lparr>pn_state := Sock_closed\<rparr>) h" using assms(1,3) by (simp add: h1_def peer_closed_def)
  have "finish_register now k h1 = attach k p h2"
    using assms(2,3,5,6) m by (simp add: h1 finish_register_def Let_def registerPeer_def h2_def c1_def set_conn_def)
  moreover have "conn h2 k = Some (pn_token c, pn_handled c, None, None)"
    using assms(3) by (simp add: conn_def h2_def set_conn_def conn_face_def c1_def)
  moreover have "reg h2 = (reg h)(p := True)" using registry_has [OF m] by (auto simp: reg_def h2_def fun_eq_iff)
  ultimately show ?thesis using face_attach [of h2 k "pn_token c" "pn_handled c" None None p] by (simp add: h1_def)
qed

end
