(* ===== verification/Field_Events.thy ===== *)
theory Field_Events
  imports Js_Json "HOL-Library.Multiset"
begin

text \<open>
  The events of the fields on their way to the boss (services/web-service): the use case and the feed behind
  \<open>GET /api/events\<close> on a field, \<open>FieldEventCollector\<close> of the boss, which polls the fields through the hub, and
  the notifications read from its table. Times are whole milliseconds. A poll, the answer of a field and the
  end of a pull are separate events, so polls overlap each other and the growth of the log. The locale
  \<open>ordered_feed\<close> is what the collector relies on in the feed.
\<close>

section \<open>The feed of a field\<close>

record log_row =
  lg_ts :: int
  lg_level :: string
  lg_category :: string
  lg_code :: string
  lg_message :: string
  lg_context :: json
  lg_seq :: nat
  lg_correlationId :: "string option"

record event_dto =
  ev_eventId :: string
  ev_timestamp :: int
  ev_level :: string
  ev_category :: string
  ev_code :: string
  ev_message :: string
  ev_context :: "(string, string) jsmap option"

definition UPLINK_EVENT_WHITELIST :: "string list" where
  "UPLINK_EVENT_WHITELIST = [''device_alarm'', ''device_alarm_cleared'', ''alarm_resolved'', ''session_open'', ''session_end'',
     ''operation_started'', ''operation_completed'', ''operation_failed'', ''operation_rolled_back'']"

definition DEFAULT_LIMIT :: int where "DEFAULT_LIMIT = 200"
definition MAX_LIMIT :: int where "MAX_LIMIT = 1000"

text \<open>\<open>String(value)\<close> of a primitive; other values are left out.\<close>

fun context_text :: "json \<Rightarrow> string option" where
  "context_text (VStr s) = Some s"
| "context_text (VNum x) = Some (show_num x)"
| "context_text (VBool b) = Some (if b then ''true'' else ''false'')"
| "context_text v = None"

fun json_entries :: "json \<Rightarrow> (string \<times> json) list" where
  "json_entries (VObj es) = es"
| "json_entries (VArr xs) = map (\<lambda>(i, v). (show_nat i, v)) (enumerate 0 xs)"
| "json_entries v = []"

definition stringifyContext :: "json \<Rightarrow> (string, string) jsmap option" where
  "stringifyContext c =
     (let out = List.map_filter (\<lambda>(k, v). map_option (Pair k) (context_text v)) (json_entries c)
      in if out = [] then None else Some out)"

definition event_id :: "string \<Rightarrow> log_row \<Rightarrow> string" where
  "event_id fieldId row = fieldId @ '':'' @ (case lg_correlationId row of Some c \<Rightarrow> c | None \<Rightarrow> show_nat (lg_seq row))"

definition toDto :: "string \<Rightarrow> log_row \<Rightarrow> event_dto" where
  "toDto fieldId row =
     \<lparr>ev_eventId = event_id fieldId row, ev_timestamp = lg_ts row,
      ev_level = (if lg_level row = ''error'' then ''error'' else if lg_level row = ''warn'' then ''warn'' else ''info''),
      ev_category = (if lg_category row = ''security'' then ''security'' else ''app''),
      ev_code = lg_code row, ev_message = lg_message row, ev_context = stringifyContext (lg_context row)\<rparr>"

text \<open>The limit of a request, a Number: at least 1, at most 1000.\<close>

fun feed_limit :: "jsnum option \<Rightarrow> nat" where
  "feed_limit None = nat DEFAULT_LIMIT"
| "feed_limit (Some (Fin x)) = nat (min MAX_LIMIT (max 1 (if x < 0 then \<lceil>x\<rceil> else \<lfloor>x\<rfloor>)))"
| "feed_limit (Some n) = nat DEFAULT_LIMIT"

text \<open>\<open>LogEventFeed.listAfter\<close>: the whitelisted rows after a time in the order of time, at most \<open>limit\<close>; rows of one
  time stay in the order of the log, which SQL leaves open.\<close>

definition wanted :: "string list \<Rightarrow> int \<Rightarrow> log_row \<Rightarrow> bool" where
  "wanted codes after row \<longleftrightarrow> after < lg_ts row \<and> lg_code row \<in> set codes"

definition listAfter :: "string list \<Rightarrow> int \<Rightarrow> nat \<Rightarrow> log_row list \<Rightarrow> log_row list" where
  "listAfter codes after limit rows = take limit (sort_key lg_ts (filter (wanted codes after) rows))"

definition listFieldEvents :: "string \<Rightarrow> int option \<Rightarrow> jsnum option \<Rightarrow> log_row list \<Rightarrow> event_dto list" where
  "listFieldEvents fieldId after limit rows =
     map (toDto fieldId) (listAfter UPLINK_EVENT_WHITELIST (or_else after 0) (feed_limit limit) rows)"

section \<open>The collector\<close>

definition COLLECTED_EVENT_CODES :: "string list" where
  "COLLECTED_EVENT_CODES = [''device_alarm'', ''device_alarm_cleared'', ''alarm_resolved'', ''session_open'', ''session_end'']"

definition BACKLOG_WINDOW_MS :: int where "BACKLOG_WINDOW_MS = 60 * 60 * 1000"
definition OVERLAP_MS :: int where "OVERLAP_MS = 2000"

record stored_event =
  st_event :: event_dto
  st_receivedAt :: int

type_synonym field_events = "(string \<times> string, stored_event) jsmap"

record collector =
  co_cursors :: "(string, int) jsmap"
  co_events :: field_events

definition new_collector :: collector where
  "new_collector = \<lparr>co_cursors = [], co_events = []\<rparr>"

record hub_peer =
  hp_peerId :: string
  hp_peerType :: string
  hp_status :: string

definition poll_fields :: "hub_peer list \<Rightarrow> string list" where
  "poll_fields peers = map hp_peerId (filter (\<lambda>p. hp_peerType p = ''field'' \<and> hp_status p = ''connected'') peers)"

definition pull_after :: "int \<Rightarrow> int option \<Rightarrow> int" where
  "pull_after now cursor = (case cursor of None \<Rightarrow> now - BACKLOG_WINDOW_MS | Some c \<Rightarrow> c - OVERLAP_MS)"

text \<open>\<open>INSERT ... ON CONFLICT DO NOTHING\<close>; an event whose statement fails is logged and left out.\<close>

definition collect_event :: "string \<Rightarrow> string list \<Rightarrow> int \<Rightarrow> event_dto \<Rightarrow> field_events \<Rightarrow> field_events" where
  "collect_event fieldId fails now e m =
     (if ev_code e \<notin> set COLLECTED_EVENT_CODES \<or> ev_eventId e \<in> set fails \<or> js_has m (fieldId, ev_eventId e) then m
      else js_set (fieldId, ev_eventId e) \<lparr>st_event = e\<lparr>ev_context := Some (or_else (ev_context e) [])\<rparr>, st_receivedAt = now\<rparr> m)"

definition pull_end :: "string \<Rightarrow> int option \<Rightarrow> event_dto list \<Rightarrow> string list \<Rightarrow> int \<Rightarrow> collector \<Rightarrow> collector" where
  "pull_end fieldId cursor events fails now co =
     (if events = [] then co
      else let co1 = co\<lparr>co_events := fold (collect_event fieldId fails now) events (co_events co)\<rparr>; lastMs = ev_timestamp (last events)
           in if cursor = None \<or> the cursor < lastMs then co1\<lparr>co_cursors := js_set fieldId lastMs (co_cursors co1)\<rparr> else co1)"

section \<open>Fields and boss together\<close>

text \<open>A pull on its way: the cursor it read, the time it asks for, and the answer of the field once it has one.\<close>

record pull =
  pl_field :: string
  pl_cursor :: "int option"
  pl_after :: int
  pl_answer :: "event_dto list option"

record event_net =
  nt_logs :: "(string, log_row list) jsmap"
  nt_pulls :: "(nat, pull) jsmap"
  nt_next :: nat
  nt_collector :: collector

definition new_net :: event_net where
  "new_net = \<lparr>nt_logs = [], nt_pulls = [], nt_next = 0, nt_collector = new_collector\<rparr>"

definition rows_of :: "event_net \<Rightarrow> string \<Rightarrow> log_row list" where
  "rows_of s f = or_else (js_get (nt_logs s) f) []"

definition cursor_of :: "event_net \<Rightarrow> string \<Rightarrow> int option" where
  "cursor_of s f = js_get (co_cursors (nt_collector s)) f"

record feed_config =
  fd_batchSize :: int
  fd_fieldId :: "string \<Rightarrow> string"    \<comment> \<open>the name a field gives itself in its event ids\<close>

definition start_pull :: "int \<Rightarrow> string \<Rightarrow> event_net \<Rightarrow> event_net" where
  "start_pull now f s =
     s\<lparr>nt_pulls := js_set (nt_next s) \<lparr>pl_field = f, pl_cursor = cursor_of s f, pl_after = pull_after now (cursor_of s f), pl_answer = None\<rparr> (nt_pulls s),
       nt_next := Suc (nt_next s)\<rparr>"

text \<open>
  \<open>Polled None\<close>: the discovery failed. \<open>Pull_failed\<close>: no answer, an error status or a body that does not parse.
  \<open>Pull_done\<close> names the events whose statements fail.
\<close>

datatype net_event =
    Logged string log_row
  | Polled int "hub_peer list option"
  | Field_answered nat
  | Pull_failed nat
  | Pull_done nat "string list" int

definition answer_pull :: "feed_config \<Rightarrow> nat \<Rightarrow> event_net \<Rightarrow> event_net" where
  "answer_pull cfg i s =
     (case js_get (nt_pulls s) i of
        None \<Rightarrow> s
      | Some p \<Rightarrow>
          s\<lparr>nt_pulls := js_set i (p\<lparr>pl_answer := Some (listFieldEvents (fd_fieldId cfg (pl_field p)) (Some (pl_after p))
              (Some (js_int (fd_batchSize cfg))) (rows_of s (pl_field p)))\<rparr>) (nt_pulls s)\<rparr>)"

definition finish_pull :: "nat \<Rightarrow> string list \<Rightarrow> int \<Rightarrow> event_net \<Rightarrow> event_net" where
  "finish_pull i fails now s =
     (case js_get (nt_pulls s) i of
        None \<Rightarrow> s
      | Some p \<Rightarrow>
          (case pl_answer p of
             None \<Rightarrow> s
           | Some events \<Rightarrow>
               s\<lparr>nt_pulls := js_delete i (nt_pulls s),
                 nt_collector := pull_end (pl_field p) (pl_cursor p) events fails now (nt_collector s)\<rparr>))"

fun net_step :: "feed_config \<Rightarrow> net_event \<Rightarrow> event_net \<Rightarrow> event_net" where
  "net_step cfg (Logged f row) s = s\<lparr>nt_logs := js_set f (rows_of s f @ [row]) (nt_logs s)\<rparr>"
| "net_step cfg (Polled now None) s = s"
| "net_step cfg (Polled now (Some peers)) s = fold (start_pull now) (poll_fields peers) s"
| "net_step cfg (Field_answered i) s = answer_pull cfg i s"
| "net_step cfg (Pull_failed i) s = s\<lparr>nt_pulls := js_delete i (nt_pulls s)\<rparr>"
| "net_step cfg (Pull_done i fails now) s = finish_pull i fails now s"

definition net_run :: "feed_config \<Rightarrow> net_event list \<Rightarrow> event_net \<Rightarrow> event_net" where
  "net_run cfg evs s = fold (net_step cfg) evs s"

section \<open>Notifications\<close>

record notification =
  no_fieldId :: string
  no_fieldName :: string
  no_event :: event_dto

definition reader_list :: "(string, string) jsmap \<Rightarrow> int option \<Rightarrow> nat \<Rightarrow> field_events \<Rightarrow> (string \<times> string option \<times> stored_event) list" where
  "reader_list names after limit m =
     take limit (sort_key (\<lambda>(f, n, e). - st_receivedAt e)
       (map (\<lambda>((f, i), e). (f, js_get names f, e))
          (filter (\<lambda>((f, i), e). case after of None \<Rightarrow> True | Some t \<Rightarrow> t < st_receivedAt e) m)))"

definition countSince :: "int \<Rightarrow> field_events \<Rightarrow> nat" where
  "countSince after m = length (filter (\<lambda>((f, i), e). after < st_receivedAt e) m)"

fun notification_limit :: "jsnum option \<Rightarrow> nat" where
  "notification_limit (Some (Fin x)) = (if 0 < x then nat (min \<lfloor>x\<rfloor> 500) else 100)"
| "notification_limit n = 100"

definition list_notifications :: "(string, string) jsmap \<Rightarrow> jsnum option \<Rightarrow> int option \<Rightarrow> field_events \<Rightarrow> notification list" where
  "list_notifications names limit after m =
     map (\<lambda>(f, n, e). \<lparr>no_fieldId = f, no_fieldName = or_else n f, no_event = st_event e\<rparr>)
       (reader_list names after (notification_limit limit) m)"

section \<open>What the collector relies on in the feed\<close>

locale ordered_feed =
  fixes feed :: "int \<Rightarrow> nat \<Rightarrow> log_row list \<Rightarrow> log_row list"
    and good :: "int \<Rightarrow> log_row \<Rightarrow> bool"
  assumes prefix: "\<exists>ys. mset ys = mset (filter (good after) rows) \<and> sorted (map lg_ts ys) \<and> feed after limit rows = take limit ys"
    and good_later: "good after row \<Longrightarrow> after < lg_ts row"
begin

lemma sound: "row \<in> set (feed after limit rows) \<Longrightarrow> row \<in> set rows \<and> good after row"
proof -
  assume r: "row \<in> set (feed after limit rows)"
  obtain ys where ys: "mset ys = mset (filter (good after) rows)" "feed after limit rows = take limit ys" using prefix by blast
  have "row \<in> set ys" using r ys(2) by (auto dest: in_set_takeD)
  then show ?thesis using mset_eq_setD [OF ys(1)] by auto
qed

text \<open>Up to the time of its last row, and beyond if it is not full, an answer is complete.\<close>

lemma complete:
  assumes "row \<in> set rows" "good after row" "length (feed after limit rows) < limit \<or> lg_ts row < lg_ts (last (feed after limit rows))"
    and "feed after limit rows \<noteq> [] \<or> 0 < limit"
  shows "row \<in> set (feed after limit rows)"
proof -
  obtain ys where ys: "mset ys = mset (filter (good after) rows)" "sorted (map lg_ts ys)" "feed after limit rows = take limit ys"
    using prefix by blast
  have "row \<in> set ys" using mset_eq_setD [OF ys(1)] assms(1,2) by auto
  then obtain i where i: "i < length ys" "ys ! i = row" by (auto simp: in_set_conv_nth)
  have "i < limit"
  proof (rule ccontr)
    assume "\<not> i < limit"
    then have l: "limit \<le> i" "length (take limit ys) = limit" using i(1) by auto
    then have "0 < limit" using assms(4) ys(3) by auto
    then have "take limit ys \<noteq> []" using l i(1) by auto
    then have "last (take limit ys) = ys ! (limit - 1)" using last_conv_nth [of "take limit ys"] l i(1) \<open>0 < limit\<close> by simp
    moreover have "lg_ts (ys ! (limit - 1)) \<le> lg_ts (ys ! i)"
      using sorted_nth_mono [OF ys(2), of "limit - 1" i] l i(1) by simp
    ultimately show False using assms(3) ys(3) l(2) i(2) by auto
  qed
  then show ?thesis using i ys(3) by (auto simp: in_set_conv_nth intro!: exI [of _ i])
qed

text \<open>If enough rows lie at or before a time, the answer does not get past it.\<close>

lemma saturated:
  assumes "limit \<le> length (filter (\<lambda>r. good after r \<and> lg_ts r \<le> c) rows)" "row \<in> set (feed after limit rows)"
  shows "lg_ts row \<le> c"
proof (rule ccontr)
  assume late: "\<not> lg_ts row \<le> c"
  obtain ys where ys: "mset ys = mset (filter (good after) rows)" "sorted (map lg_ts ys)" "feed after limit rows = take limit ys"
    using prefix by blast
  obtain i where i: "i < limit" "i < length ys" "ys ! i = row" using assms(2) ys(3) by (auto simp: in_set_conv_nth)
  have "r \<in> set (take i ys)" if r: "r \<in> set ys" "lg_ts r \<le> c" for r
  proof -
    obtain j where j: "j < length ys" "ys ! j = r" using r(1) by (auto simp: in_set_conv_nth)
    have "j < i"
    proof (rule ccontr)
      assume "\<not> j < i"
      then have "lg_ts (ys ! i) \<le> lg_ts (ys ! j)" using sorted_nth_mono [OF ys(2), of i j] j(1) by simp
      then show False using late r(2) i(3) j(2) by simp
    qed
    then show ?thesis using j by (auto simp: in_set_conv_nth intro!: exI [of _ j])
  qed
  then have "filter (\<lambda>r. lg_ts r \<le> c) (drop i ys) = []"
  proof -
    have "lg_ts (ys ! i) \<le> lg_ts r" if "r \<in> set (drop i ys)" for r
      using that sorted_nth_mono [OF ys(2), of i] by (auto simp: in_set_conv_nth)
    then show ?thesis using late i(3) by (fastforce simp: filter_empty_conv)
  qed
  then have "length (filter (\<lambda>r. lg_ts r \<le> c) ys) \<le> i"
    using length_filter_le [of "\<lambda>r. lg_ts r \<le> c" "take i ys"] by (subst append_take_drop_id [of i ys, symmetric]) (simp del: append_take_drop_id)
  moreover have "length (filter (\<lambda>r. lg_ts r \<le> c) ys) = length (filter (\<lambda>r. good after r \<and> lg_ts r \<le> c) rows)"
  proof -
    have "mset (filter (\<lambda>r. lg_ts r \<le> c) ys) = filter_mset (\<lambda>r. lg_ts r \<le> c) (mset (filter (good after) rows))" by (simp add: ys(1))
    also have "\<dots> = mset (filter (\<lambda>r. good after r \<and> lg_ts r \<le> c) rows)" by (simp add: filter_filter_mset conj_commute)
    finally show ?thesis by (metis size_mset)
  qed
  ultimately show False using assms(1) i(1) by simp
qed

end

interpretation log_feed: ordered_feed "listAfter codes" "wanted codes" for codes
proof
  show "\<exists>ys. mset ys = mset (filter (wanted codes after) rows) \<and> sorted (map lg_ts ys) \<and> listAfter codes after limit rows = take limit ys"
    for after rows limit
    by (intro exI [of _ "sort_key lg_ts (filter (wanted codes after) rows)"]) (simp add: listAfter_def)
  show "wanted codes after row \<Longrightarrow> after < lg_ts row" for after row by (simp add: wanted_def)
qed

end
