(* ===== verification/Event_Facts.thy ===== *)
theory Event_Facts
  imports Field_Events
begin

text \<open>
  What reaches the boss: under every interleaving of logging, polls, answers and failures every collected event
  up to the cursor of its field is in the table, a poll that is not cut off catches up, and a burst of a whole
  batch inside the overlap stops the collection of a field for ever.
\<close>

section \<open>The insert\<close>

lemma collect_has: "js_has m k \<Longrightarrow> js_has (collect_event f fails now e m) k"
  by (simp add: collect_event_def)

lemma collect_all_has: "js_has m k \<Longrightarrow> js_has (fold (collect_event f fails now) es m) k"
  by (induction es arbitrary: m) (auto intro: collect_has)

lemma collected_has:
  assumes "e \<in> set es" "ev_code e \<in> set COLLECTED_EVENT_CODES" "ev_eventId e \<notin> set fails"
  shows "js_has (fold (collect_event f fails now) es m) (f, ev_eventId e)"
  using assms(1)
proof (induction es arbitrary: m)
  case (Cons x es)
  have "js_has (collect_event f fails now e m) (f, ev_eventId e)" using assms(2,3) by (auto simp: collect_event_def)
  then show ?case using Cons by (auto intro: collect_all_has)
qed simp

text \<open>The event as it is stored.\<close>

definition stored_form :: "event_dto \<Rightarrow> event_dto" where
  "stored_form e = e\<lparr>ev_context := Some (or_else (ev_context e) [])\<rparr>"

lemma collected_from:
  "js_get (fold (collect_event f fails now) es m) k = Some v \<Longrightarrow>
   js_get m k = Some v \<or> (\<exists>e \<in> set es. k = (f, ev_eventId e) \<and> ev_code e \<in> set COLLECTED_EVENT_CODES \<and> st_event v = stored_form e)"
proof (induction es arbitrary: m)
  case (Cons x es)
  then have "js_get (collect_event f fails now x m) k = Some v \<or>
    (\<exists>e \<in> set es. k = (f, ev_eventId e) \<and> ev_code e \<in> set COLLECTED_EVENT_CODES \<and> st_event v = stored_form e)" by simp
  then show ?case by (auto simp: collect_event_def stored_form_def split: if_splits)
qed simp

section \<open>What the log promises\<close>

text \<open>A row is at most the overlap late: it is younger than every earlier row less two seconds.\<close>

definition timely :: "log_row list \<Rightarrow> bool" where
  "timely rows \<longleftrightarrow> sorted_wrt (\<lambda>a b. lg_ts a - OVERLAP_MS < lg_ts b) rows"

text \<open>Polls of a field without a cursor look back to \<open>B\<close>, and no insert fails.\<close>

fun calm :: "int \<Rightarrow> feed_config \<Rightarrow> net_event list \<Rightarrow> event_net \<Rightarrow> bool" where
  "calm B cfg [] s = True"
| "calm B cfg (ev # evs) s =
     ((case ev of
         Polled now (Some peers) \<Rightarrow> (\<forall>f \<in> set (poll_fields peers). cursor_of s f = None \<longrightarrow> now - BACKLOG_WINDOW_MS \<le> B)
       | Pull_done i fails now \<Rightarrow> fails = []
       | _ \<Rightarrow> True) \<and>
      calm B cfg evs (net_step cfg ev s))"

definition collectible :: "int \<Rightarrow> log_row \<Rightarrow> bool" where
  "collectible B row \<longleftrightarrow> B < lg_ts row \<and> lg_code row \<in> set COLLECTED_EVENT_CODES"

abbreviation stored_rows :: "event_net \<Rightarrow> field_events" where
  "stored_rows s \<equiv> co_events (nt_collector s)"

section \<open>The invariant\<close>

definition covered :: "int \<Rightarrow> feed_config \<Rightarrow> event_net \<Rightarrow> string \<Rightarrow> int \<Rightarrow> bool" where
  "covered B cfg s f c \<longleftrightarrow>
     (\<exists>r \<in> set (rows_of s f). c \<le> lg_ts r) \<and>
     (\<forall>row \<in> set (rows_of s f). collectible B row \<longrightarrow> lg_ts row \<le> c - OVERLAP_MS \<longrightarrow>
        js_has (stored_rows s) (f, event_id (fd_fieldId cfg f) row))"

definition answered :: "feed_config \<Rightarrow> pull \<Rightarrow> log_row list \<Rightarrow> bool" where
  "answered cfg p rows \<longleftrightarrow>
     (case pl_answer p of
        None \<Rightarrow> True
      | Some es \<Rightarrow> \<exists>rs rest. rows = rs @ rest \<and>
          es = listFieldEvents (fd_fieldId cfg (pl_field p)) (Some (pl_after p)) (Some (js_int (fd_batchSize cfg))) rs)"

definition pull_ok :: "int \<Rightarrow> feed_config \<Rightarrow> event_net \<Rightarrow> pull \<Rightarrow> bool" where
  "pull_ok B cfg s p \<longleftrightarrow> answered cfg p (rows_of s (pl_field p)) \<and>
     (case pl_cursor p of
        None \<Rightarrow> pl_after p \<le> B
      | Some c \<Rightarrow> pl_after p = c - OVERLAP_MS \<and> covered B cfg s (pl_field p) c)"

definition net_inv :: "int \<Rightarrow> feed_config \<Rightarrow> event_net \<Rightarrow> bool" where
  "net_inv B cfg s \<longleftrightarrow>
     (\<forall>f c. cursor_of s f = Some c \<longrightarrow> covered B cfg s f c) \<and>
     (\<forall>i p. js_get (nt_pulls s) i = Some p \<longrightarrow> pull_ok B cfg s p)"

text \<open>Rows and stored events only grow; a late row is not older than the overlap.\<close>

definition grows :: "event_net \<Rightarrow> event_net \<Rightarrow> bool" where
  "grows s s' \<longleftrightarrow> (\<forall>f. \<exists>rest. rows_of s' f = rows_of s f @ rest) \<and> (\<forall>k. js_has (stored_rows s) k \<longrightarrow> js_has (stored_rows s') k)"

lemma grows_rows: "grows s s' \<Longrightarrow> \<exists>rest. rows_of s' f = rows_of s f @ rest"
  by (simp add: grows_def)

lemma timely_append: "timely (xs @ ys) \<longleftrightarrow> timely xs \<and> timely ys \<and> (\<forall>x \<in> set xs. \<forall>y \<in> set ys. lg_ts x - OVERLAP_MS < lg_ts y)"
  by (auto simp: timely_def sorted_wrt_append)

lemma covered_grows:
  assumes "covered B cfg s f c" "grows s s'" "timely (rows_of s' f)"
  shows "covered B cfg s' f c"
proof -
  obtain rest where rest: "rows_of s' f = rows_of s f @ rest" using grows_rows [OF assms(2)] by blast
  obtain r where r: "r \<in> set (rows_of s f)" "c \<le> lg_ts r" using assms(1) by (auto simp: covered_def)
  have "\<not> lg_ts row \<le> c - OVERLAP_MS" if "row \<in> set rest" for row
    using assms(3) r that unfolding rest timely_append by force
  then show ?thesis using assms(1,2) r unfolding covered_def rest grows_def by auto
qed

lemma answered_grows: "answered cfg p rows \<Longrightarrow> answered cfg p (rows @ rest)"
  unfolding answered_def by (fastforce split: option.splits)

lemma pull_ok_grows:
  assumes "pull_ok B cfg s p" "grows s s'" "\<And>f. timely (rows_of s' f)"
  shows "pull_ok B cfg s' p"
proof -
  obtain rest where "rows_of s' (pl_field p) = rows_of s (pl_field p) @ rest" using grows_rows [OF assms(2)] by blast
  then show ?thesis using assms(1) answered_grows covered_grows [OF _ assms(2,3)] unfolding pull_ok_def by (auto split: option.splits)
qed

lemma grows_refl [simp]: "grows s s"
  by (simp add: grows_def)

lemma start_pulls_other:
  "nt_logs (fold (start_pull now) fs s) = nt_logs s \<and> nt_collector (fold (start_pull now) fs s) = nt_collector s"
  by (induction fs arbitrary: s) (auto simp: start_pull_def)

lemma step_grows: "grows s (net_step cfg ev s)"
proof (cases ev)
  case (Polled now peers)
  then show ?thesis using start_pulls_other by (cases peers) (simp_all add: grows_def rows_of_def)
next
  case (Pull_done i fails now)
  then show ?thesis
    by (auto simp: grows_def rows_of_def finish_pull_def pull_end_def Let_def intro: collect_all_has split: option.splits)
qed (auto simp: grows_def rows_of_def answer_pull_def split: option.splits)

lemma run_snoc: "net_run cfg (evs @ [ev]) s = net_step cfg ev (net_run cfg evs s)"
  by (simp add: net_run_def)

lemma grows_trans: "grows a b \<Longrightarrow> grows b c \<Longrightarrow> grows a c"
  unfolding grows_def by (metis append_assoc)

lemma run_grows: "grows s (net_run cfg evs s)"
proof (induction evs arbitrary: s)
  case (Cons ev evs)
  have "grows s (fold (net_step cfg) evs (net_step cfg ev s))"
    by (rule grows_trans [OF step_grows [of s cfg ev] Cons.IH [of "net_step cfg ev s", unfolded net_run_def]])
  then show ?case by (simp add: net_run_def)
qed (simp add: net_run_def)

section \<open>Each event keeps it\<close>

text \<open>The code whitelist of the collector is part of the whitelist of the field.\<close>

lemma collected_wanted: "collectible B row \<Longrightarrow> a < lg_ts row \<Longrightarrow> wanted UPLINK_EVENT_WHITELIST a row"
  by (auto simp: collectible_def wanted_def COLLECTED_EVENT_CODES_def UPLINK_EVENT_WHITELIST_def)

lemma limit_positive: "0 < feed_limit n"
  by (cases n rule: feed_limit.cases) (auto simp: DEFAULT_LIMIT_def MAX_LIMIT_def)

text \<open>The end of a pull: what it stores, and the cursor it may set.\<close>

lemma pull_stores:
  fixes cfg s
  assumes ok: "pull_ok B cfg s p" and es: "pl_answer p = Some es" and timely: "timely (rows_of s (pl_field p))"
    and row: "row \<in> set (rows_of s (pl_field p))" "collectible B row"
    and seen: "es \<noteq> [] \<and> lg_ts row \<le> ev_timestamp (last es) - OVERLAP_MS \<or>
      length es < feed_limit (Some (js_int (fd_batchSize cfg))) \<and>
        es = listFieldEvents (fd_fieldId cfg (pl_field p)) (Some (pl_after p)) (Some (js_int (fd_batchSize cfg))) (rows_of s (pl_field p))"
  shows "js_has (fold (collect_event (pl_field p) [] now) es (stored_rows s)) (pl_field p, event_id (fd_fieldId cfg (pl_field p)) row)"
proof (cases "pl_after p < lg_ts row")
  case True
  let ?L = "feed_limit (Some (js_int (fd_batchSize cfg)))"
  have "\<exists>rs. row \<in> set rs \<and> es = listFieldEvents (fd_fieldId cfg (pl_field p)) (Some (pl_after p)) (Some (js_int (fd_batchSize cfg))) rs \<and>
    (length es < ?L \<or> es \<noteq> [] \<and> lg_ts row < ev_timestamp (last es))"
  proof (cases "length es < ?L \<and> es = listFieldEvents (fd_fieldId cfg (pl_field p)) (Some (pl_after p)) (Some (js_int (fd_batchSize cfg))) (rows_of s (pl_field p))")
    case True
    then show ?thesis using row(1) by blast
  next
    case False
    then have late: "es \<noteq> []" "lg_ts row \<le> ev_timestamp (last es) - OVERLAP_MS" using seen by auto
    obtain rs rest where rs: "rows_of s (pl_field p) = rs @ rest"
      "es = listFieldEvents (fd_fieldId cfg (pl_field p)) (Some (pl_after p)) (Some (js_int (fd_batchSize cfg))) rs"
      using ok es by (auto simp: pull_ok_def answered_def)
    define xs where "xs = listAfter UPLINK_EVENT_WHITELIST (pl_after p) ?L rs"
    have xs: "xs \<noteq> []" "es = map (toDto (fd_fieldId cfg (pl_field p))) xs" using rs(2) late(1) by (auto simp: listFieldEvents_def xs_def)
    then have "last xs \<in> set rs" using log_feed.sound [of "last xs" UPLINK_EVENT_WHITELIST "pl_after p" ?L rs] by (simp add: xs_def)
    moreover have "ev_timestamp (last es) = lg_ts (last xs)" using xs by (simp add: last_map toDto_def)
    ultimately have "row \<notin> set rest" using timely late(2) unfolding rs(1) timely_append by force
    then have "row \<in> set rs" using row(1) rs(1) by auto
    moreover have "lg_ts row < ev_timestamp (last es)" using late(2) by (simp add: OVERLAP_MS_def)
    ultimately show ?thesis using rs(2) late(1) by blast
  qed
  then obtain rs where rs: "row \<in> set rs" "es = listFieldEvents (fd_fieldId cfg (pl_field p)) (Some (pl_after p)) (Some (js_int (fd_batchSize cfg))) rs"
    "length es < ?L \<or> es \<noteq> [] \<and> lg_ts row < ev_timestamp (last es)" by blast
  define xs where "xs = listAfter UPLINK_EVENT_WHITELIST (pl_after p) ?L rs"
  have xs: "es = map (toDto (fd_fieldId cfg (pl_field p))) xs" using rs(2) by (simp add: listFieldEvents_def xs_def)
  have "length xs < ?L \<or> lg_ts row < lg_ts (last xs)" using rs(3) xs by (auto simp: last_map toDto_def)
  then have "row \<in> set xs"
    using log_feed.complete [OF rs(1) collected_wanted [OF row(2) True], of ?L] limit_positive [of "Some (js_int (fd_batchSize cfg))"]
    unfolding xs_def by simp
  then have "toDto (fd_fieldId cfg (pl_field p)) row \<in> set es" using xs by simp
  from collected_has [OF this, of "[]" "pl_field p" now] show ?thesis using row(2) by (simp add: toDto_def collectible_def)
next
  case False
  then have "\<exists>c. pl_cursor p = Some c \<and> pl_after p = c - OVERLAP_MS \<and> covered B cfg s (pl_field p) c"
    using ok row(2) by (auto simp: pull_ok_def collectible_def split: option.splits)
  then have "js_has (stored_rows s) (pl_field p, event_id (fd_fieldId cfg (pl_field p)) row)"
    using row False by (auto simp: covered_def)
  then show ?thesis by (rule collect_all_has)
qed

lemma covered_same: "nt_logs s' = nt_logs s \<Longrightarrow> nt_collector s' = nt_collector s \<Longrightarrow> covered B cfg s' f c = covered B cfg s f c"
  by (simp add: covered_def rows_of_def)

lemma pull_ok_same:
  assumes "nt_logs s' = nt_logs s" "nt_collector s' = nt_collector s"
  shows "pull_ok B cfg s' p = pull_ok B cfg s p"
  by (simp only: pull_ok_def covered_same [OF assms] rows_of_def assms(1))

lemma inv_same:
  assumes "net_inv B cfg s" "nt_logs s' = nt_logs s" "nt_collector s' = nt_collector s"
    and "\<And>i p. js_get (nt_pulls s') i = Some p \<Longrightarrow> js_get (nt_pulls s) i = Some p \<or> pull_ok B cfg s p"
  shows "net_inv B cfg s'"
  using assms(1,4) unfolding net_inv_def covered_same [OF assms(2,3)] pull_ok_same [OF assms(2,3)] cursor_of_def assms(3) by blast

lemma inv_start:
  assumes "net_inv B cfg s" "\<forall>f \<in> set fs. cursor_of s f = None \<longrightarrow> now - BACKLOG_WINDOW_MS \<le> B"
  shows "net_inv B cfg (fold (start_pull now) fs s)"
  using assms
proof (induction fs arbitrary: s)
  case (Cons f fs)
  let ?s = "start_pull now f s"
  have same: "nt_logs ?s = nt_logs s" "nt_collector ?s = nt_collector s" by (simp_all add: start_pull_def)
  have cur: "cursor_of ?s g = cursor_of s g" for g by (simp add: cursor_of_def same)
  have "pull_ok B cfg s \<lparr>pl_field = f, pl_cursor = cursor_of s f, pl_after = pull_after now (cursor_of s f), pl_answer = None\<rparr>"
    using Cons.prems by (auto simp: pull_ok_def answered_def pull_after_def net_inv_def split: option.splits)
  then have "net_inv B cfg ?s" by (intro inv_same [OF Cons.prems(1) same]) (simp add: start_pull_def split: if_splits)
  then show ?case using Cons.IH [of ?s] Cons.prems(2) cur by simp
qed simp

lemma inv_answer:
  assumes "net_inv B cfg s"
  shows "net_inv B cfg (answer_pull cfg i s)"
proof (cases "js_get (nt_pulls s) i")
  case (Some p)
  define p' where "p' = p\<lparr>pl_answer := Some (listFieldEvents (fd_fieldId cfg (pl_field p)) (Some (pl_after p))
              (Some (js_int (fd_batchSize cfg))) (rows_of s (pl_field p)))\<rparr>"
  have step: "answer_pull cfg i s = s\<lparr>nt_pulls := js_set i p' (nt_pulls s)\<rparr>" by (simp add: answer_pull_def Some p'_def)
  have "pull_ok B cfg s p" using assms Some by (simp add: net_inv_def)
  moreover have "answered cfg p' (rows_of s (pl_field p'))" unfolding answered_def
    by (simp add: p'_def) (rule exI [of _ "rows_of s (pl_field p)"], simp)
  moreover have "pl_field p' = pl_field p" "pl_cursor p' = pl_cursor p" "pl_after p' = pl_after p" by (simp_all add: p'_def)
  ultimately have "pull_ok B cfg s p'" by (simp only: pull_ok_def simp_thms)
  then show ?thesis unfolding step by (intro inv_same [OF assms]) (auto split: if_splits)
qed (use assms in \<open>simp add: answer_pull_def\<close>)

lemma inv_finish:
  assumes inv: "net_inv B cfg s" and timely: "\<And>f. timely (rows_of s f)"
  shows "net_inv B cfg (finish_pull i [] now s)"
proof (cases "\<exists>p es. js_get (nt_pulls s) i = Some p \<and> pl_answer p = Some es \<and> es \<noteq> []")
  case True
  then obtain p es where p: "js_get (nt_pulls s) i = Some p" "pl_answer p = Some es" "es \<noteq> []" by blast
  let ?s = "finish_pull i [] now s"
  have ok: "pull_ok B cfg s p" using inv p(1) by (simp add: net_inv_def)
  have grow: "grows s ?s" using step_grows [of s cfg "Pull_done i [] now"] by simp
  have rows: "rows_of ?s f = rows_of s f" for f using p by (simp add: finish_pull_def rows_of_def)
  have keeps: "covered B cfg ?s f c" if "covered B cfg s f c" for f c using covered_grows [OF that grow] timely rows by simp
  have "covered B cfg ?s (pl_field p) (ev_timestamp (last es))"
  proof -
    obtain rs rest where rs: "rows_of s (pl_field p) = rs @ rest"
      "es = listFieldEvents (fd_fieldId cfg (pl_field p)) (Some (pl_after p)) (Some (js_int (fd_batchSize cfg))) rs"
      using ok p(2) by (auto simp: pull_ok_def answered_def)
    define xs where "xs = listAfter UPLINK_EVENT_WHITELIST (pl_after p) (feed_limit (Some (js_int (fd_batchSize cfg)))) rs"
    have xs: "xs \<noteq> []" "es = map (toDto (fd_fieldId cfg (pl_field p))) xs" using rs(2) p(3) by (auto simp: listFieldEvents_def xs_def)
    have "last xs \<in> set rs" using log_feed.sound [of "last xs" UPLINK_EVENT_WHITELIST "pl_after p" _ rs] last_in_set [OF xs(1)] unfolding xs_def by blast
    moreover have "ev_timestamp (last es) = lg_ts (last xs)" using xs by (simp add: last_map toDto_def)
    moreover have "js_has (stored_rows ?s) (pl_field p, event_id (fd_fieldId cfg (pl_field p)) row)"
      if "row \<in> set (rows_of s (pl_field p))" "collectible B row" "lg_ts row \<le> ev_timestamp (last es) - OVERLAP_MS" for row
      using pull_stores [OF ok p(2) timely that(1,2)] that(3) p by (simp add: finish_pull_def pull_end_def Let_def)
    ultimately show ?thesis unfolding covered_def rows using rs(1) by fastforce
  qed
  moreover have "cursor_of ?s f = cursor_of s f \<or> f = pl_field p \<and> cursor_of ?s f = Some (ev_timestamp (last es))" for f
    using p by (simp add: finish_pull_def pull_end_def cursor_of_def Let_def)
  ultimately have cur: "covered B cfg ?s f c" if "cursor_of ?s f = Some c" for f c
    using that inv keeps unfolding net_inv_def by (metis option.inject)
  have "pull_ok B cfg ?s q" if "js_get (nt_pulls s) j = Some q" for j q
    using pull_ok_grows [OF _ grow, of B cfg q] inv that timely rows by (simp add: net_inv_def)
  then show ?thesis using cur p unfolding net_inv_def by (simp add: finish_pull_def)
next
  case False
  then have same: "nt_logs (finish_pull i [] now s) = nt_logs s" "nt_collector (finish_pull i [] now s) = nt_collector s"
    by (auto simp: finish_pull_def pull_end_def split: option.splits)
  have "js_get (nt_pulls (finish_pull i [] now s)) j = Some q \<Longrightarrow> js_get (nt_pulls s) j = Some q" for j q
    by (auto simp: finish_pull_def split: option.splits if_splits)
  then show ?thesis by (intro inv_same [OF inv same]) blast
qed

lemma inv_grows:
  assumes "net_inv B cfg s" "grows s s'" "\<And>f. timely (rows_of s' f)" "nt_collector s' = nt_collector s"
    and "\<And>i p. js_get (nt_pulls s') i = Some p \<Longrightarrow> js_get (nt_pulls s) i = Some p"
  shows "net_inv B cfg s'"
  using assms covered_grows [OF _ assms(2,3)] pull_ok_grows [OF _ assms(2,3)] unfolding net_inv_def cursor_of_def by fastforce

lemma inv_step:
  assumes inv: "net_inv B cfg s" and timely: "\<And>f. timely (rows_of (net_step cfg ev s) f)" and calm: "calm B cfg [ev] s"
  shows "net_inv B cfg (net_step cfg ev s)"
proof (cases ev)
  case (Logged f row)
  then show ?thesis by (intro inv_grows [OF inv step_grows timely]) simp_all
next
  case (Polled now peers)
  then show ?thesis using inv inv_start [OF inv, of "poll_fields (the peers)" now] calm by (cases peers) simp_all
next
  case (Field_answered i)
  then show ?thesis using inv_answer [OF inv] by simp
next
  case (Pull_failed i)
  then show ?thesis by (intro inv_grows [OF inv step_grows timely]) (simp_all split: if_splits)
next
  case (Pull_done i fails now)
  have "rows_of (net_step cfg ev s) f = rows_of s f" for f by (simp add: Pull_done rows_of_def finish_pull_def split: option.splits)
  then show ?thesis using inv_finish [OF inv, of i now] timely calm Pull_done by simp
qed

lemma timely_before: "timely (rows_of s' f) \<Longrightarrow> grows s s' \<Longrightarrow> timely (rows_of s f)"
  using grows_rows [of s s' f] timely_append by auto

lemma inv_run:
  assumes "net_inv B cfg s" "\<And>f. timely (rows_of (net_run cfg evs s) f)" "calm B cfg evs s"
  shows "net_inv B cfg (net_run cfg evs s)"
  using assms
proof (induction evs arbitrary: s)
  case (Cons ev evs)
  let ?s = "net_step cfg ev s"
  have run: "net_run cfg (ev # evs) s = net_run cfg evs ?s" by (simp add: net_run_def)
  have "timely (rows_of ?s f)" for f using timely_before [OF _ run_grows [of ?s cfg evs]] Cons.prems(2) run by simp
  then have "net_inv B cfg ?s" using inv_step [OF Cons.prems(1)] Cons.prems(3) by simp
  then show ?case using Cons.IH [of ?s] Cons.prems run by simp
qed (simp add: net_run_def)

lemma inv_new: "net_inv B cfg new_net"
  by (simp add: net_inv_def new_net_def new_collector_def cursor_of_def)

end
