(* ===== verification/Event_Props.thy ===== *)
theory Event_Props
  imports Event_Facts
begin

text \<open>The properties of the event collection, on the concrete feed, and a field whose burst stops it.\<close>

section \<open>Stored events are logged events\<close>

definition origin :: "feed_config \<Rightarrow> event_net \<Rightarrow> bool" where
  "origin cfg s \<longleftrightarrow>
     (\<forall>f i v. js_get (stored_rows s) (f, i) = Some v \<longrightarrow>
        (\<exists>row \<in> set (rows_of s f). i = event_id (fd_fieldId cfg f) row \<and> lg_code row \<in> set COLLECTED_EVENT_CODES \<and>
           st_event v = stored_form (toDto (fd_fieldId cfg f) row))) \<and>
     (\<forall>i p. js_get (nt_pulls s) i = Some p \<longrightarrow> answered cfg p (rows_of s (pl_field p)))"

lemma origin_step:
  assumes "origin cfg s"
  shows "origin cfg (net_step cfg ev s)"
proof -
  let ?s = "net_step cfg ev s"
  have stored: "\<exists>row \<in> set (rows_of s f). i = event_id (fd_fieldId cfg f) row \<and> lg_code row \<in> set COLLECTED_EVENT_CODES \<and>
      st_event v = stored_form (toDto (fd_fieldId cfg f) row)" if v: "js_get (stored_rows ?s) (f, i) = Some v" for f i v
  proof (cases "js_get (stored_rows s) (f, i) = Some v")
    case False
    then obtain j fails now p es where p: "ev = Pull_done j fails now" "js_get (nt_pulls s) j = Some p" "pl_answer p = Some es"
      using v start_pulls_other by (cases ev; cases "case ev of Polled now ps \<Rightarrow> ps | _ \<Rightarrow> None")
        (auto simp: answer_pull_def finish_pull_def split: option.splits)
    have "js_get (fold (collect_event (pl_field p) fails now) es (stored_rows s)) (f, i) = Some v"
      using v False p by (simp add: finish_pull_def pull_end_def Let_def split: if_splits)
    then obtain e where e: "e \<in> set es" "f = pl_field p" "i = ev_eventId e" "ev_code e \<in> set COLLECTED_EVENT_CODES" "st_event v = stored_form e"
      using collected_from False by blast
    have "answered cfg p (rows_of s (pl_field p))" using assms p(2) by (simp add: origin_def)
    then obtain rs rest where rs: "rows_of s f = rs @ rest" "es = listFieldEvents (fd_fieldId cfg f) (Some (pl_after p)) (Some (js_int (fd_batchSize cfg))) rs"
      using p(3) e(2) by (auto simp: answered_def)
    then obtain row where row: "e = toDto (fd_fieldId cfg f) row"
      "row \<in> set (listAfter UPLINK_EVENT_WHITELIST (pl_after p) (feed_limit (Some (js_int (fd_batchSize cfg)))) rs)"
      using e(1) by (auto simp: listFieldEvents_def)
    then show ?thesis using log_feed.sound [OF row(2)] e rs(1) by (auto simp: toDto_def)
  qed (use assms in \<open>auto simp: origin_def\<close>)
  have "answered cfg p (rows_of ?s (pl_field p))" if p: "js_get (nt_pulls ?s) i = Some p" for i p
  proof -
    obtain rest where rest: "rows_of ?s (pl_field p) = rows_of s (pl_field p) @ rest" using grows_rows [OF step_grows] by blast
    have "answered cfg p (rows_of s (pl_field p))"
    proof (cases "js_get (nt_pulls s) i = Some p")
      case False
      show ?thesis
      proof (cases ev)
        case (Polled now ps)
        have "js_get (nt_pulls (fold (start_pull now) fs t)) i = Some p \<Longrightarrow> js_get (nt_pulls t) i = Some p \<or> pl_answer p = None" for fs t
          by (induction fs arbitrary: t) (fastforce simp: start_pull_def split: if_splits)+
        from this [of "poll_fields (the ps)" s] show ?thesis using p False Polled by (cases ps) (auto simp: answered_def)
      next
        case (Field_answered j)
        then obtain q where q: "p = q\<lparr>pl_answer := Some (listFieldEvents (fd_fieldId cfg (pl_field q)) (Some (pl_after q))
              (Some (js_int (fd_batchSize cfg))) (rows_of s (pl_field q)))\<rparr>"
          using p False by (auto simp: answer_pull_def split: option.splits if_splits)
        show ?thesis unfolding answered_def by (simp add: q) (rule exI [of _ "rows_of s (pl_field q)"], simp)
      qed (use p False in \<open>auto simp: finish_pull_def split: option.splits if_splits\<close>)
    qed (use assms in \<open>auto simp: origin_def\<close>)
    then show ?thesis using answered_grows rest by simp
  qed
  moreover have "set (rows_of s f) \<subseteq> set (rows_of ?s f)" for f using grows_rows [OF step_grows [of s cfg ev], of f] by auto
  ultimately show ?thesis using stored unfolding origin_def by blast
qed

lemma origin_run: "origin cfg (net_run cfg evs new_net)"
proof (induction evs rule: rev_induct)
  case (snoc ev evs)
  then show ?case using origin_step by (simp add: run_snoc)
qed (simp add: net_run_def origin_def new_net_def new_collector_def)

lemma stored_of_row:
  fixes cfg evs
  defines "s \<equiv> net_run cfg evs new_net"
  assumes "js_has (stored_rows s) (f, event_id (fd_fieldId cfg f) row)" "row \<in> set (rows_of s f)"
    and "inj_on (event_id (fd_fieldId cfg f)) (set (rows_of s f))"
  shows "\<exists>v. js_get (stored_rows s) (f, event_id (fd_fieldId cfg f) row) = Some v \<and> st_event v = stored_form (toDto (fd_fieldId cfg f) row)"
proof -
  obtain v where v: "js_get (stored_rows s) (f, event_id (fd_fieldId cfg f) row) = Some v" using assms(2) by (auto simp: js_has_def)
  then obtain row' where "row' \<in> set (rows_of s f)" "event_id (fd_fieldId cfg f) row = event_id (fd_fieldId cfg f) row'"
    "st_event v = stored_form (toDto (fd_fieldId cfg f) row')"
    using origin_run [of cfg evs] unfolding origin_def s_def by blast
  then show ?thesis using v assms(3,4) by (auto dest: inj_onD)
qed

section \<open>No event is lost\<close>

text \<open>
  C8: Every event up to the cursor is stored. Under every interleaving of logging, polls, answers, failed pulls
  and ends of pulls: when no row is logged more than two seconds late, no insert fails and the ids of the rows
  differ, every row with a collected code that lies two seconds before the cursor of its field, back to the
  first poll's hour, is in the table with its content.
\<close>

theorem collected_up_to_cursor:
  fixes cfg evs
  defines "s \<equiv> net_run cfg evs new_net"
  assumes "calm B cfg evs new_net" "\<And>g. timely (rows_of s g)" "inj_on (event_id (fd_fieldId cfg f)) (set (rows_of s f))"
    and "cursor_of s f = Some c" "row \<in> set (rows_of s f)" "collectible B row" "lg_ts row \<le> c - OVERLAP_MS"
  shows "\<exists>v. js_get (stored_rows s) (f, event_id (fd_fieldId cfg f) row) = Some v \<and> st_event v = stored_form (toDto (fd_fieldId cfg f) row)"
proof -
  have "net_inv B cfg s" unfolding s_def using inv_run [OF inv_new] assms(2,3) by (simp add: s_def)
  then have "js_has (stored_rows s) (f, event_id (fd_fieldId cfg f) row)"
    using assms(5-8) by (auto simp: net_inv_def covered_def)
  then show ?thesis using stored_of_row assms(4,6) unfolding s_def by blast
qed


section \<open>A burst stops the collection\<close>

definition stuck :: "feed_config \<Rightarrow> string \<Rightarrow> int \<Rightarrow> event_net \<Rightarrow> bool" where
  "stuck cfg f c s \<longleftrightarrow>
     cursor_of s f = Some c \<and>
     feed_limit (Some (js_int (fd_batchSize cfg))) \<le>
       length (filter (\<lambda>r. wanted UPLINK_EVENT_WHITELIST (c - OVERLAP_MS) r \<and> lg_ts r \<le> c) (rows_of s f)) \<and>
     (\<forall>i p. js_get (nt_pulls s) i = Some p \<longrightarrow> pl_field p = f \<longrightarrow>
        pl_cursor p = Some c \<and> pl_after p = c - OVERLAP_MS \<and>
        (case pl_answer p of None \<Rightarrow> True | Some es \<Rightarrow> \<forall>e \<in> set es. ev_timestamp e \<le> c))"

lemma stuck_pull:
  assumes "stuck cfg f c s" "js_get (nt_pulls s) i = Some p" "pl_field p = f"
  shows "pl_cursor p = Some c \<and> (\<forall>es. pl_answer p = Some es \<longrightarrow> (\<forall>e \<in> set es. ev_timestamp e \<le> c))"
proof -
  have "pl_cursor p = Some c \<and> (case pl_answer p of None \<Rightarrow> True | Some es \<Rightarrow> \<forall>e \<in> set es. ev_timestamp e \<le> c)"
    using assms unfolding stuck_def by blast
  then show ?thesis by auto
qed

lemma stuck_answer:
  assumes "feed_limit (Some (js_int (fd_batchSize cfg))) \<le>
       length (filter (\<lambda>r. wanted UPLINK_EVENT_WHITELIST (c - OVERLAP_MS) r \<and> lg_ts r \<le> c) rows)"
    and "e \<in> set (listFieldEvents n (Some (c - OVERLAP_MS)) (Some (js_int (fd_batchSize cfg))) rows)"
  shows "ev_timestamp e \<le> c"
  using assms(2) log_feed.saturated [OF assms(1)] by (auto simp: listFieldEvents_def toDto_def)

lemma stuck_start:
  assumes "stuck cfg f c s"
  shows "stuck cfg f c (fold (start_pull now) fs s)"
  using assms
proof (induction fs arbitrary: s)
  case (Cons g fs)
  have "stuck cfg f c (start_pull now g s)"
    using Cons.prems by (auto simp: stuck_def start_pull_def cursor_of_def rows_of_def pull_after_def)
  then show ?case using Cons.IH by simp
qed simp

lemma stuck_step:
  assumes "stuck cfg f c s"
  shows "stuck cfg f c (net_step cfg ev s) \<and>
    (\<forall>i v. js_get (stored_rows (net_step cfg ev s)) (f, i) = Some v \<longrightarrow>
       js_get (stored_rows s) (f, i) = Some v \<or> ev_timestamp (st_event v) \<le> c)"
proof (cases ev)
  case (Logged g row)
  obtain rest where "rows_of (net_step cfg ev s) f = rows_of s f @ rest" using grows_rows [OF step_grows] by blast
  then show ?thesis using assms Logged by (auto simp: stuck_def cursor_of_def)
next
  case (Polled now ps)
  then show ?thesis using assms stuck_start [OF assms] start_pulls_other by (cases ps) auto
next
  case (Field_answered i)
  then show ?thesis using assms stuck_answer [of cfg c "rows_of s f"]
    by (auto simp: stuck_def answer_pull_def cursor_of_def rows_of_def split: option.splits if_splits)
next
  case (Pull_failed i)
  then show ?thesis using assms by (auto simp: stuck_def cursor_of_def rows_of_def)
next
  case (Pull_done i fails now)
  show ?thesis
  proof (cases "\<exists>p es. js_get (nt_pulls s) i = Some p \<and> pl_answer p = Some es \<and> es \<noteq> []")
    case True
    then obtain p es where p: "js_get (nt_pulls s) i = Some p" "pl_answer p = Some es" "es \<noteq> []" by blast
    let ?s = "net_step cfg ev s"
    have same: "pl_cursor p = Some c" "\<forall>e \<in> set es. ev_timestamp e \<le> c" if "pl_field p = f"
      using stuck_pull [OF assms p(1) that] p(2) by auto
    have cur: "\<not> c < ev_timestamp (last es) \<and> pl_cursor p = Some c" if "pl_field p = f"
      using same [OF that] last_in_set [OF p(3)] by (simp add: not_less)
    have "cursor_of ?s f = Some c"
      using cur p assms by (auto simp: Pull_done finish_pull_def pull_end_def Let_def cursor_of_def stuck_def)
    moreover have "rows_of ?s f = rows_of s f" "nt_pulls ?s = js_delete i (nt_pulls s)"
      using p by (simp_all add: Pull_done finish_pull_def rows_of_def)
    ultimately have "stuck cfg f c ?s" using assms by (auto simp: stuck_def)
    moreover have "js_get (stored_rows s) (f, k) = Some v \<or> ev_timestamp (st_event v) \<le> c"
      if "js_get (stored_rows ?s) (f, k) = Some v" for k v
    proof -
      have "js_get (fold (collect_event (pl_field p) fails now) es (stored_rows s)) (f, k) = Some v"
        using that p by (simp add: Pull_done finish_pull_def pull_end_def Let_def split: if_splits)
      then have "js_get (stored_rows s) (f, k) = Some v \<or> (\<exists>e \<in> set es. f = pl_field p \<and> st_event v = stored_form e)"
        using collected_from by fastforce
      then show ?thesis using same(2) by (auto simp: stored_form_def)
    qed
    ultimately show ?thesis by blast
  next
    case False
    then have same: "nt_collector (net_step cfg ev s) = nt_collector s" "rows_of (net_step cfg ev s) f = rows_of s f"
      "\<And>j p. js_get (nt_pulls (net_step cfg ev s)) j = Some p \<Longrightarrow> js_get (nt_pulls s) j = Some p"
      by (auto simp: Pull_done finish_pull_def pull_end_def rows_of_def split: option.splits if_splits)
    have "stuck cfg f c (net_step cfg ev s)"
      using assms unfolding stuck_def cursor_of_def same(1,2) using same(3) by blast
    then show ?thesis by (simp add: same(1))
  qed
qed

text \<open>
  C40: A burst stops the collection of a field. Once a whole batch of whitelisted rows lies in the two seconds
  before the cursor, every poll asks for the same rows again: the cursor never moves again, and no event after
  it is ever stored, whatever is logged, polled and answered from then on.
\<close>

theorem burst_stops_collection:
  assumes "cursor_of s f = Some c"
    and "feed_limit (Some (js_int (fd_batchSize cfg))) \<le>
       length (filter (\<lambda>r. wanted UPLINK_EVENT_WHITELIST (c - OVERLAP_MS) r \<and> lg_ts r \<le> c) (rows_of s f))"
    and "\<And>i p. js_get (nt_pulls s) i = Some p \<Longrightarrow> pl_field p \<noteq> f"
  shows "cursor_of (net_run cfg evs s) f = Some c \<and>
    (\<forall>i v. js_get (stored_rows (net_run cfg evs s)) (f, i) = Some v \<longrightarrow>
       js_get (stored_rows s) (f, i) = Some v \<or> ev_timestamp (st_event v) \<le> c)"
proof -
  have start: "stuck cfg f c s" using assms by (auto simp: stuck_def)
  have "stuck cfg f c (net_run cfg evs s) \<and>
    (\<forall>i v. js_get (stored_rows (net_run cfg evs s)) (f, i) = Some v \<longrightarrow>
       js_get (stored_rows s) (f, i) = Some v \<or> ev_timestamp (st_event v) \<le> c)"
  proof (induction evs rule: rev_induct)
    case (snoc ev evs)
    then show ?case using stuck_step [of cfg f c "net_run cfg evs s" ev] unfolding run_snoc by blast
  qed (simp add: net_run_def start)
  then show ?thesis by (simp add: stuck_def)
qed

section \<open>A concrete field\<close>

definition demo_feed :: feed_config where
  "demo_feed = \<lparr>fd_batchSize = 2, fd_fieldId = (\<lambda>f. f)\<rparr>"

definition demo_row :: "int \<Rightarrow> string \<Rightarrow> log_row" where
  "demo_row ts i = \<lparr>lg_ts = ts, lg_level = ''warn'', lg_category = ''app'', lg_code = ''device_alarm'', lg_message = [], lg_context = VUndef,
     lg_seq = 0, lg_correlationId = Some i\<rparr>"

definition demo_peers :: "hub_peer list" where
  "demo_peers = [\<lparr>hp_peerId = ''f'', hp_peerType = ''field'', hp_status = ''connected''\<rparr>]"

definition demo_round :: "nat \<Rightarrow> int \<Rightarrow> net_event list" where
  "demo_round i now = [Polled now (Some demo_peers), Field_answered i, Pull_done i [] now]"

definition demo_log :: "net_event list" where
  "demo_log = [Logged ''f'' (demo_row 10000 ''a'')] @ demo_round 0 10000 @ [Logged ''f'' (demo_row 13000 ''b'')] @ demo_round 1 13000"

lemma demo_limit: "feed_limit (Some (js_int (fd_batchSize demo_feed))) = 2"
  by (simp add: demo_feed_def js_int_def MAX_LIMIT_def)

lemmas demo_event_defs = demo_feed_def demo_row_def demo_peers_def demo_round_def poll_fields_def start_pull_def answer_pull_def finish_pull_def
  pull_end_def pull_after_def rows_of_def cursor_of_def listFieldEvents_def listAfter_def wanted_def UPLINK_EVENT_WHITELIST_def
  COLLECTED_EVENT_CODES_def BACKLOG_WINDOW_MS_def OVERLAP_MS_def toDto_def event_id_def stringifyContext_def collect_event_def

lemma demo_log_run:
  "net_run demo_feed demo_log new_net = \<lparr>nt_logs = [(''f'', [demo_row 10000 ''a'', demo_row 13000 ''b''])], nt_pulls = [], nt_next = 2,
     nt_collector = \<lparr>co_cursors = [(''f'', 13000)],
       co_events = [((''f'', ''f:a''), \<lparr>st_event = stored_form (toDto ''f'' (demo_row 10000 ''a'')), st_receivedAt = 10000\<rparr>),
         ((''f'', ''f:b''), \<lparr>st_event = stored_form (toDto ''f'' (demo_row 13000 ''b'')), st_receivedAt = 13000\<rparr>)]\<rparr>\<rparr>"
  by (simp add: net_run_def demo_log_def new_net_def new_collector_def demo_event_defs js_set_def js_delete_def stored_form_def js_int_def MAX_LIMIT_def
      js_has_def List.map_filter_def)

lemma demo_fieldId [simp]: "fd_fieldId demo_feed f = f"
  by (simp add: demo_feed_def)

lemma demo_timely: "timely (rows_of (net_run demo_feed demo_log new_net) g)"
  by (simp add: demo_log_run rows_of_def timely_def demo_row_def OVERLAP_MS_def)

lemma demo_ids: "inj_on (event_id (fd_fieldId demo_feed ''f'')) (set (rows_of (net_run demo_feed demo_log new_net) ''f''))"
  by (simp add: demo_log_run rows_of_def event_id_def demo_row_def inj_on_def)

lemma calm_append: "calm B cfg (xs @ ys) s \<longleftrightarrow> calm B cfg xs s \<and> calm B cfg ys (net_run cfg xs s)"
  by (induction xs arbitrary: s) (auto simp: net_run_def)

lemma demo_calm: "calm 0 demo_feed demo_log new_net"
  by (simp add: demo_log_def demo_round_def demo_peers_def poll_fields_def BACKLOG_WINDOW_MS_def start_pull_def answer_pull_def finish_pull_def
      pull_end_def pull_after_def rows_of_def cursor_of_def new_net_def new_collector_def js_set_def js_delete_def listFieldEvents_def listAfter_def
      wanted_def demo_row_def UPLINK_EVENT_WHITELIST_def demo_feed_def js_int_def MAX_LIMIT_def toDto_def)

lemma collected_up_to_cursor_witness:
  "\<exists>v. js_get (stored_rows (net_run demo_feed demo_log new_net)) (''f'', ''f:a'') = Some v \<and> ev_timestamp (st_event v) = 10000"
  using collected_up_to_cursor [OF demo_calm demo_timely demo_ids, of 13000 "demo_row 10000 ''a''"]
  by (simp add: demo_log_run cursor_of_def rows_of_def collectible_def demo_row_def COLLECTED_EVENT_CODES_def OVERLAP_MS_def event_id_def
      stored_form_def toDto_def)

definition demo_start :: "net_event list" where
  "demo_start = [Logged ''f'' (demo_row 10000 ''a'')]"

lemma demo_start_run: "net_run demo_feed demo_start new_net = new_net\<lparr>nt_logs := [(''f'', [demo_row 10000 ''a''])]\<rparr>"
  by (simp add: net_run_def demo_start_def new_net_def rows_of_def js_set_def)


text \<open>Two alarms in one second under a batch of two: the alarm an hour later is never stored.\<close>

definition demo_burst :: event_net where
  "demo_burst = new_net\<lparr>nt_logs := [(''f'', [demo_row 10000 ''a'', demo_row 10500 ''b''])],
     nt_collector := \<lparr>co_cursors = [(''f'', 10500)], co_events = []\<rparr>\<rparr>"

lemma burst_stops_collection_witness:
  "cursor_of (net_run demo_feed (Logged ''f'' (demo_row 3610500 ''c'') # demo_round 0 3610600 @ demo_round 1 3620600) demo_burst) ''f'' = Some 10500"
  using burst_stops_collection [of demo_burst "''f''" 10500 demo_feed "Logged ''f'' (demo_row 3610500 ''c'') # demo_round 0 3610600 @ demo_round 1 3620600"]
  unfolding demo_limit by (simp add: demo_burst_def cursor_of_def new_net_def rows_of_def wanted_def demo_row_def UPLINK_EVENT_WHITELIST_def OVERLAP_MS_def)

end
