(* ===== verification/Remote_Operations.thy ===== *)
theory Remote_Operations
  imports Operation_Executor Access_Control Js_Json
begin

text \<open>
  Runs of maneuvers and operations over HTTP (services/web-service): the use case and the routes of
  maneuver-routes.ts, which a container and a field serve, and the two clients that call them through the hub:
  \<open>HubManeuverChannel\<close>, with which a field runs a maneuver on a container, and \<open>OperationRequester\<close>, with which
  the boss runs an operation on a field. The way through the hub is a parameter, a \<open>relay\<close>: it answers a call
  with a status and the body as parsed JSON (none if it is not JSON) or is rejected. A member of a response
  whose value is undefined is left out, as in its JSON text; a parsed object has each name once.
\<close>

section \<open>Results as JSON\<close>

definition opt_member :: "string \<Rightarrow> string option \<Rightarrow> (string \<times> json) list" where
  "opt_member k v = (case v of None \<Rightarrow> [] | Some s \<Rightarrow> [(k, VStr s)])"

definition outcome_json :: "step_outcome \<Rightarrow> json" where
  "outcome_json oc =
     VObj ((''stepIndex'', VNum (js_int (int (oc_stepIndex oc)))) # opt_member ''system'' (oc_system oc) @
       opt_member ''maneuver'' (oc_maneuver oc) @ opt_member ''deviceId'' (oc_deviceId oc) @
       opt_member ''command'' (oc_command oc) @ (''success'', VBool (oc_success oc)) # opt_member ''reason'' (oc_reason oc))"

definition run_members :: "run_result \<Rightarrow> (string \<times> json) list" where
  "run_members r =
     [(''runId'', VStr (rr_runId r)), (''kind'', VStr (kind_name (rr_kind r))), (''name'', VStr (rr_name r)),
      (''status'', VStr (status_name (rr_status r))), (''outcomes'', VArr (map outcome_json (rr_outcomes r)))] @
     opt_member ''reason'' (rr_reason r)"

definition error_body :: "string \<Rightarrow> json" where
  "error_body e = VObj [(''error'', VStr e)]"

section \<open>The routes of a run\<close>

text \<open>\<open>None\<close> is the result \<open>timeout\<close>.\<close>

fun reply_for :: "run_result option \<Rightarrow> nat \<times> json" where
  "reply_for None = (202, VObj [(''status'', VStr ''running'')])"
| "reply_for (Some r) =
     (case rr_status r of
        run_status.Rejected \<Rightarrow>
          (if rr_reason r = Some ''not_found'' then 404 else if rr_reason r = Some ''missing_param'' then 400
           else if rr_reason r = Some ''disabled'' then 409 else 503,
           VObj (opt_member ''error'' (rr_reason r) @ run_members r))
      | Failed \<Rightarrow> (422, VObj (run_members r))
      | _ \<Rightarrow> (200, VObj (run_members r)))"

record execute_body =
  eb_params :: params
  eb_deviceIds :: "string list option"
  eb_systems :: "string list option"
  eb_timerSeconds :: "jsnum option"

definition nonempty_header :: "http_request \<Rightarrow> string \<Rightarrow> string option" where
  "nonempty_header req n = (case header req n of Some v \<Rightarrow> if v = [] then None else Some v | None \<Rightarrow> None)"

definition traceFrom :: "http_request \<Rightarrow> string option" where
  "traceFrom req = nonempty_header req ''x-gd-trace-id''"

definition bossOperationId :: "http_request \<Rightarrow> string option" where
  "bossOperationId req = nonempty_header req ''x-gd-operation-id''"

definition EXECUTE_TIMEOUT_MS :: int where "EXECUTE_TIMEOUT_MS = 15000"

text \<open>The options of a run, for a run of the boss and for any other.\<close>

definition run_options :: "run_kind \<Rightarrow> http_request \<Rightarrow> user \<Rightarrow> execute_body \<Rightarrow> execute_options" where
  "run_options kind req u b =
     (let boss = (case kind of Operation \<Rightarrow> bossOperationId req | Maneuver \<Rightarrow> None) in
      \<lparr>x_deviceIds = eb_deviceIds b,
       x_trigger = Some (case boss of Some i \<Rightarrow> ''boss:'' @ i | None \<Rightarrow> ''manual''),
       x_createdBy = Some (case boss of Some i \<Rightarrow> ''boss'' | None \<Rightarrow> us_username u),
       x_traceId = traceFrom req, x_timerSeconds = eb_timerSeconds b,
       x_remoteSystem = (case eb_systems b of Some (x # xs) \<Rightarrow> Some x | _ \<Rightarrow> None), x_remoteTimeoutMs = None\<rparr>)"

text \<open>The identifier and the time stamps of a run, and the milliseconds it takes.\<close>

record run_clock =
  rk_runId :: string
  rk_startedAt :: string
  rk_finishedAt :: string
  rk_took :: int

text \<open>The race against the timeout: a run that loses goes on in the background.\<close>

definition execute_command :: "'w exec_env \<Rightarrow> run_clock \<Rightarrow> run_kind \<Rightarrow> string \<Rightarrow> params \<Rightarrow> execute_options \<Rightarrow> ('w, run_result option) xcomp" where
  "execute_command env k kind name ps opts s =
     (case execute env (rk_runId k) (rk_startedAt k) (rk_finishedAt k) kind name ps opts s of
        (r, s') \<Rightarrow>
          (if EXECUTE_TIMEOUT_MS \<le> rk_took k then Inr None
           else (case r of Inl e \<Rightarrow> Inl e | Inr x \<Rightarrow> Inr (Some x)), s'))"

text \<open>The body is what the schema gives: the issues that refuse it, or the parsed body.\<close>

definition execute_route ::
  "string option \<Rightarrow> 'w exec_env option \<Rightarrow> run_clock \<Rightarrow> run_kind \<Rightarrow> string \<Rightarrow> user option \<Rightarrow> http_request \<Rightarrow> json + execute_body \<Rightarrow>
   'w xstate \<Rightarrow> (nat \<times> json) \<times> 'w xstate" where
  "execute_route internalToken executor k kind name u req body s =
     (case authorizeCommand internalToken u req of
        None \<Rightarrow> ((403, error_body ''Bu islem icin yetkiniz yok''), s)
      | Some v \<Rightarrow>
          (case executor of
             None \<Rightarrow> ((503, error_body ''executor_unavailable''), s)
           | Some env \<Rightarrow>
               (case body of
                  Inl issues \<Rightarrow> ((400, VObj [(''error'', issues)]), s)
                | Inr b \<Rightarrow>
                    (case execute_command env k kind name (eb_params b) (run_options kind req v b) s of
                       (Inl e, s') \<Rightarrow> ((500, error_body ''Internal server error''), s')
                     | (Inr r, s') \<Rightarrow> (reply_for r, s')))))"

section \<open>Calls through the hub\<close>

definition uri_char :: "char \<Rightarrow> bool" where
  "uri_char c \<longleftrightarrow> (let n = (of_char c :: nat) in 48 \<le> n \<and> n \<le> 57 \<or> 65 \<le> n \<and> n \<le> 90 \<or> 97 \<le> n \<and> n \<le> 122 \<or>
     n \<in> {33, 39, 40, 41, 42, 45, 46, 95, 126})"

definition percent :: "nat \<Rightarrow> string" where
  "percent n = CHR ''%'' # [upper_hex (n div 16), upper_hex (n mod 16)]"

text \<open>The percent form of the UTF-8 bytes.\<close>

definition encodeURIComponent :: "string \<Rightarrow> string" where
  "encodeURIComponent s =
     concat (map (\<lambda>c. let n = (of_char c :: nat) in
        if uri_char c then [c] else if n < 128 then percent n else percent (192 + n div 64) @ percent (128 + n mod 64)) s)"

record access_call =
  ac_peerId :: string
  ac_serviceId :: string
  ac_path :: string
  ac_method :: string
  ac_headers :: "(string \<times> string) list"
  ac_body :: json

type_synonym http_answer = "nat \<times> json option"

type_synonym 'w relay = "access_call \<Rightarrow> ('w, string, http_answer) comp"

definition SYSTEM_USER_HEADERS :: "(string \<times> string) list" where
  "SYSTEM_USER_HEADERS =
     [(''x-tunnel-user-id'', ''system''), (''x-tunnel-user-username'', ''system''), (''x-tunnel-user-role'', ''admin'')]"

fun value_json :: "jsval \<Rightarrow> json" where
  "value_json JUndefined = VUndef"
| "value_json JNull = VNull"
| "value_json (JNum x) = VNum x"
| "value_json (JStr s) = VStr s"
| "value_json (JBool b) = VBool b"

definition params_json :: "params \<Rightarrow> json" where
  "params_json ps = VObj (map (\<lambda>(k, v). (k, value_json v)) ps)"

text \<open>A member of a parsed value that is neither null nor undefined.\<close>

fun member_of :: "json \<Rightarrow> string \<Rightarrow> json option" where
  "member_of (VObj es) k = js_get es k"
| "member_of v k = None"

definition text_member :: "json \<Rightarrow> string \<Rightarrow> string option" where
  "text_member v k = (case member_of v k of Some (VStr s) \<Rightarrow> Some s | _ \<Rightarrow> None)"

section \<open>A maneuver on a container\<close>

definition maneuver_call :: "string \<Rightarrow> string \<Rightarrow> string \<Rightarrow> params \<Rightarrow> jsnum option \<Rightarrow> access_call" where
  "maneuver_call serviceId system mnv ps timer =
     \<lparr>ac_peerId = system, ac_serviceId = serviceId, ac_path = ''/api/maneuvers/'' @ encodeURIComponent mnv @ ''/execute'', ac_method = ''POST'',
      ac_headers = SYSTEM_USER_HEADERS,
      ac_body = VObj ((''params'', params_json ps) #
        (case timer of None \<Rightarrow> [] | Some d \<Rightarrow> [(''timer'', VObj [(''durationSeconds'', VNum d)])]))\<rparr>"

definition channel_answer :: "http_answer \<Rightarrow> bool \<times> string option" where
  "channel_answer r =
     (case r of (status, body) \<Rightarrow>
        if status = 200 then (True, None)
        else if status = 404 \<or> status = 503 then (False, Some ''system_unreachable'')
        else (False, Some (or_else (case body of None \<Rightarrow> None | Some b \<Rightarrow> text_member b ''error'') ''remote_execution_failed'')))"

definition hub_maneuver :: "'w relay \<Rightarrow> string \<Rightarrow> string \<Rightarrow> string \<Rightarrow> params \<Rightarrow> jsnum option \<Rightarrow> ('w, string, bool \<times> string option) comp" where
  "hub_maneuver relay serviceId system mnv ps timer w =
     (case relay (maneuver_call serviceId system mnv ps timer) w of
        (Inl e, w') \<Rightarrow> (Inr (False, Some ''system_unreachable''), w')
      | (Inr r, w') \<Rightarrow> (Inr (channel_answer r), w'))"

text \<open>The channel as the remote channel of an executor, which stops waiting after its limit.\<close>

definition as_remote ::
  "'w relay \<Rightarrow> string \<Rightarrow> (jsnum \<Rightarrow> 'w \<Rightarrow> bool) \<Rightarrow> string \<Rightarrow> string \<Rightarrow> params \<Rightarrow> jsnum option \<Rightarrow> jsnum \<Rightarrow>
   ('w, string, (bool \<times> string option) option) comp" where
  "as_remote relay serviceId on_time system mnv ps timer limit w =
     (case hub_maneuver relay serviceId system mnv ps timer w of
        (Inl e, w') \<Rightarrow> (if on_time limit w then Inl e else Inr None, w')
      | (Inr x, w') \<Rightarrow> (Inr (if on_time limit w then Some x else None), w'))"

section \<open>An operation on a field\<close>

record op_step_result =
  os_step :: jsnum
  os_system :: "string option"
  os_maneuver :: "string option"
  os_ok :: bool
  os_reason :: "string option"

record op_answer =
  qa_operationId :: string
  qa_status :: run_status
  qa_reason :: "string option"
  qa_results :: "op_step_result list option"

text \<open>Reading a member of null throws; \<open>None\<close> is that exception.\<close>

definition step_result :: "nat \<Rightarrow> json \<Rightarrow> op_step_result option" where
  "step_result i o' =
     (if o' = VNull \<or> o' = VUndef then None
      else Some \<lparr>os_step = (case member_of o' ''stepIndex'' of Some (VNum x) \<Rightarrow> x | _ \<Rightarrow> js_int (int i)),
        os_system = text_member o' ''system'', os_maneuver = text_member o' ''maneuver'',
        os_ok = (member_of o' ''success'' = Some (VBool True)), os_reason = text_member o' ''reason''\<rparr>)"

fun step_results :: "nat \<Rightarrow> json list \<Rightarrow> op_step_result list option" where
  "step_results i [] = Some []"
| "step_results i (v # vs) =
     (case step_result i v of
        None \<Rightarrow> None
      | Some x \<Rightarrow> map_option (Cons x) (step_results (Suc i) vs))"

definition mapResults :: "json option \<Rightarrow> op_step_result list option option" where
  "mapResults outcomes =
     (case outcomes of
        Some (VArr (v # vs)) \<Rightarrow> map_option Some (step_results 0 (v # vs))
      | _ \<Rightarrow> Some None)"

definition some_text :: "string option \<Rightarrow> string option" where
  "some_text x = (if x = Some [] then None else x)"

definition reasonOf :: "json option \<Rightarrow> string option" where
  "reasonOf body =
     (case body of
        None \<Rightarrow> None
      | Some b \<Rightarrow> (case some_text (text_member b ''reason'') of Some r \<Rightarrow> Some r | None \<Rightarrow> some_text (text_member b ''error'')))"

definition body_member :: "json option \<Rightarrow> string \<Rightarrow> json option" where
  "body_member body k = (case body of None \<Rightarrow> None | Some b \<Rightarrow> member_of b k)"

definition answer_with :: "string \<Rightarrow> run_status \<Rightarrow> json option \<Rightarrow> unit + op_answer" where
  "answer_with opId status body =
     (case mapResults (body_member body ''outcomes'') of
        None \<Rightarrow> Inl ()
      | Some rs \<Rightarrow> Inr \<lparr>qa_operationId = opId, qa_status = status, qa_reason = reasonOf body, qa_results = rs\<rparr>)"

definition plain_answer :: "string \<Rightarrow> run_status \<Rightarrow> string \<Rightarrow> op_answer" where
  "plain_answer opId status reason = \<lparr>qa_operationId = opId, qa_status = status, qa_reason = Some reason, qa_results = None\<rparr>"

definition read_answer :: "string \<Rightarrow> http_answer \<Rightarrow> unit + op_answer" where
  "read_answer opId r =
     (case r of (status, body) \<Rightarrow>
        if status = 200 then
          answer_with opId (if body_member body ''status'' = Some (VStr ''failed'') then Failed
                            else if body_member body ''status'' = Some (VStr ''rolled_back'') then Rolled_back else Completed) body
        else if status = 202 then Inr (plain_answer opId Failed ''still_running'')
        else if status = 422 then answer_with opId Failed body
        else if 400 \<le> status \<and> status < 500 then Inr (plain_answer opId run_status.Rejected (or_else (reasonOf body) ''invalid_request''))
        else Inr (plain_answer opId Failed (or_else (reasonOf body) (''remote_http_'' @ show_nat status))))"

definition operation_call :: "string \<Rightarrow> string \<Rightarrow> string \<Rightarrow> string \<Rightarrow> params \<Rightarrow> string option \<Rightarrow> access_call" where
  "operation_call serviceId fieldId opId name ps trace =
     \<lparr>ac_peerId = fieldId, ac_serviceId = serviceId, ac_path = ''/api/operations/'' @ encodeURIComponent name @ ''/execute'', ac_method = ''POST'',
      ac_headers = SYSTEM_USER_HEADERS @ (''x-gd-operation-id'', opId) # (case trace of None \<Rightarrow> [] | Some t \<Rightarrow> [(''x-gd-trace-id'', t)]),
      ac_body = VObj [(''params'', params_json ps)]\<rparr>"

record 'w requester =
  or_relay :: "'w relay"
  or_serviceId :: string
  or_on_time :: "'w \<Rightarrow> bool"    \<comment> \<open>whether the answer comes before the timeout\<close>

definition requester_send ::
  "'w requester \<Rightarrow> string \<Rightarrow> string \<Rightarrow> string \<Rightarrow> params \<Rightarrow> string option \<Rightarrow> ('w, unit, op_answer option) comp" where
  "requester_send q fieldId opId name ps trace w =
     (case or_relay q (operation_call (or_serviceId q) fieldId opId name ps trace) w of
        (Inl e, w') \<Rightarrow> (Inr None, w')
      | (Inr r, w') \<Rightarrow>
          (if or_on_time q w then (case read_answer opId r of Inl e \<Rightarrow> Inl e | Inr a \<Rightarrow> Inr (Some a)) else Inr None, w'))"

definition step_result_json :: "op_step_result \<Rightarrow> json" where
  "step_result_json x =
     VObj ((''step'', VNum (os_step x)) # opt_member ''system'' (os_system x) @ opt_member ''maneuver'' (os_maneuver x) @
       (''ok'', VBool (os_ok x)) # opt_member ''reason'' (os_reason x))"

definition answer_json :: "op_answer \<Rightarrow> json" where
  "answer_json a =
     VObj ([(''type'', VStr ''operation-result''), (''operationId'', VStr (qa_operationId a)), (''status'', VStr (status_name (qa_status a)))] @
       opt_member ''reason'' (qa_reason a) @
       (case qa_results a of None \<Rightarrow> [] | Some rs \<Rightarrow> [(''results'', VArr (map step_result_json rs))]))"

definition boss_route ::
  "string option \<Rightarrow> 'w requester option \<Rightarrow> string \<Rightarrow> string \<Rightarrow> string \<Rightarrow> user option \<Rightarrow> http_request \<Rightarrow> json + params \<Rightarrow> 'w \<Rightarrow> (nat \<times> json) \<times> 'w" where
  "boss_route internalToken requester opId fieldId name u req body w =
     (case authorizeCommand internalToken u req of
        None \<Rightarrow> ((403, error_body ''Bu islem icin yetkiniz yok''), w)
      | Some v \<Rightarrow>
          (case requester of
             None \<Rightarrow> ((503, error_body ''operation_requester_unavailable''), w)
           | Some q \<Rightarrow>
               (case body of
                  Inl issues \<Rightarrow> ((400, VObj [(''error'', issues)]), w)
                | Inr ps \<Rightarrow>
                    (case requester_send q fieldId opId name ps (traceFrom req) w of
                       (Inl e, w') \<Rightarrow> ((500, error_body ''Internal server error''), w')
                     | (Inr None, w') \<Rightarrow> ((503, error_body ''operation_timeout''), w')
                     | (Inr (Some a), w') \<Rightarrow> ((200, VObj [(''result'', answer_json a)]), w')))))"

end
