(* ===== verification/Remote_Facts.thy ===== *)
theory Remote_Facts
  imports Remote_Operations Executor_Facts
begin

text \<open>
  What the callers of a run are told: the boss about an operation of a field, a field about a maneuver of a
  container. The first is the run itself, up to some refusals; the second takes a maneuver that failed and was
  rolled back for a success.
\<close>

section \<open>Members of a result\<close>

lemma opt_member_get [simp]: "js_get (opt_member k v) k' = (if k' = k then map_option VStr v else None)"
  by (simp add: opt_member_def split: option.splits)

lemma text_member_obj [simp]: "text_member (VObj es) k = (case js_get es k of Some (VStr s) \<Rightarrow> Some s | _ \<Rightarrow> None)"
  by (simp add: text_member_def)

lemma opt_text [simp]:
  "case_option None (case_json None None (\<lambda>b. None) (\<lambda>n. None) Some (\<lambda>l. None) (\<lambda>l. None) \<circ> VStr) x = x"
  by (cases x) simp_all

lemma run_member_get [simp]:
  "js_get (run_members r) ''reason'' = map_option VStr (rr_reason r)"
  "js_get (run_members r) ''status'' = Some (VStr (status_name (rr_status r)))"
  "js_get (run_members r) ''outcomes'' = Some (VArr (map outcome_json (rr_outcomes r)))"
  "js_get (run_members r) ''error'' = None"
  by (simp_all add: run_members_def)

definition outcome_members :: "step_outcome \<Rightarrow> (string \<times> json) list" where
  "outcome_members oc =
     (''stepIndex'', VNum (js_int (int (oc_stepIndex oc)))) # opt_member ''system'' (oc_system oc) @
       opt_member ''maneuver'' (oc_maneuver oc) @ opt_member ''deviceId'' (oc_deviceId oc) @
       opt_member ''command'' (oc_command oc) @ (''success'', VBool (oc_success oc)) # opt_member ''reason'' (oc_reason oc)"

lemma outcome_member_get [simp]:
  "js_get (outcome_members oc) ''stepIndex'' = Some (VNum (js_int (int (oc_stepIndex oc))))"
  "js_get (outcome_members oc) ''system'' = map_option VStr (oc_system oc)"
  "js_get (outcome_members oc) ''maneuver'' = map_option VStr (oc_maneuver oc)"
  "js_get (outcome_members oc) ''success'' = Some (VBool (oc_success oc))"
  "js_get (outcome_members oc) ''reason'' = map_option VStr (oc_reason oc)"
  by (simp_all add: outcome_members_def map_add_def split: option.splits)

lemma error_member_get [simp]:
  "js_get (opt_member ''error'' x @ run_members r) k =
     (if k = ''error'' \<and> x \<noteq> None then map_option VStr x else js_get (run_members r) k)"
  by (auto simp: map_add_def split: option.splits)

section \<open>What the boss is told\<close>

definition told_status :: "run_result \<Rightarrow> run_status" where
  "told_status r =
     (if rr_status r = run_status.Rejected \<and> rr_reason r \<notin> {Some ''not_found'', Some ''missing_param'', Some ''disabled''} then Failed else rr_status r)"

definition told_reason :: "run_result \<Rightarrow> string option" where
  "told_reason r =
     (case some_text (rr_reason r) of
        Some x \<Rightarrow> Some x
      | None \<Rightarrow> if rr_status r = run_status.Rejected then Some (''remote_http_'' @ show_nat 503) else None)"

definition told_step :: "step_outcome \<Rightarrow> op_step_result" where
  "told_step oc =
     \<lparr>os_step = js_int (int (oc_stepIndex oc)), os_system = oc_system oc, os_maneuver = oc_maneuver oc, os_ok = oc_success oc, os_reason = oc_reason oc\<rparr>"

definition told_results :: "run_result \<Rightarrow> op_step_result list option" where
  "told_results r = (if rr_status r = run_status.Rejected \<or> rr_outcomes r = [] then None else Some (map told_step (rr_outcomes r)))"

lemma step_result_json_of [simp]: "step_result i (outcome_json oc) = Some (told_step oc)"
  by (simp add: step_result_def outcome_json_def told_step_def flip: outcome_members_def)

lemma step_results_json_of [simp]: "step_results i (map outcome_json ocs) = Some (map told_step ocs)"
  by (induction ocs arbitrary: i) auto

lemma mapResults_run [simp]:
  "mapResults (Some (VArr (map outcome_json ocs))) = Some (if ocs = [] then None else Some (map told_step ocs))"
  by (cases ocs) (auto simp: mapResults_def simp del: step_results.simps(2) step_results_json_of
      intro: step_results_json_of [where ocs = "_ # _", simplified])

text \<open>
  C35: What the boss is told of a run is the run: for every result that a field answers in time, the status, the
  reason and the results of all steps are read back from the response as they were, except that a refusal for
  any reason other than an unknown or disabled operation or a missing parameter arrives as a failure.
\<close>

theorem boss_reports_run:
  "read_answer opId (map_prod id Some (reply_for (Some r))) =
     Inr \<lparr>qa_operationId = opId, qa_status = told_status r, qa_reason = told_reason r, qa_results = told_results r\<rparr>"
proof (cases "rr_status r")
  case Rejected
  then show ?thesis
    by (auto simp: read_answer_def plain_answer_def reasonOf_def told_status_def told_reason_def told_results_def some_text_def
        simp del: map_of_append split: option.splits)
qed (auto simp del: map_of_append simp: read_answer_def answer_with_def body_member_def reasonOf_def told_status_def told_reason_def told_results_def some_text_def
    split: option.splits)

section \<open>What a field is told of a maneuver\<close>

text \<open>The response of a container to the call of a field.\<close>

lemma channel_reads_run:
  "channel_answer (map_prod id Some (reply_for (Some r))) =
     (if rr_status r \<in> {Completed, Rolled_back} then (True, None)
      else if rr_status r = Failed then (False, Some ''remote_execution_failed'')
      else if rr_reason r \<in> {Some ''missing_param'', Some ''disabled''} then (False, rr_reason r)
      else (False, Some ''system_unreachable''))"
  by (cases "rr_status r") (auto simp: channel_answer_def)

lemma running_is_a_failure:
  "channel_answer (map_prod id Some (reply_for None)) = (False, Some ''remote_execution_failed'')"
  by (simp add: channel_answer_def)

lemma route_replies_run:
  assumes "authorizeCommand tok u req = Some v" "rk_took k < EXECUTE_TIMEOUT_MS"
    and "execute env (rk_runId k) (rk_startedAt k) (rk_finishedAt k) kind name (eb_params b) (run_options kind req v b) s = (Inr r, s')"
  shows "execute_route tok (Some env) k kind name u req (Inr b) s = (reply_for (Some r), s')"
  using assms by (simp add: execute_route_def execute_command_def)

lemma remote_step_told:
  assumes "remote_execute env = Some (as_remote relay svc on_time)" "on_time DEFAULT_REMOTE_TIMEOUT_MS (world s)"
    and "relay (maneuver_call svc system mnv ps timer) (world s) = (Inr reply, w')"
  shows "runRemoteStep env system mnv ps timer None None s = (channel_answer reply, s\<lparr>world := w'\<rparr>)"
  using assms by (cases "channel_answer reply") (simp add: runRemoteStep_def in_world_def as_remote_def hub_maneuver_def)

text \<open>
  C19: A maneuver that failed counts as done once it was rolled back. When a container answers a field in time and
  its run of the maneuver ended in a rollback, the outcome of the remote step is a success without a reason: an
  operation of that step is completed, and its own rollback does not start.
\<close>

theorem remote_rollback_is_success:
  assumes "authorizeCommand tok u req = Some v" "rk_took k < EXECUTE_TIMEOUT_MS"
    and "execute container (rk_runId k) (rk_startedAt k) (rk_finishedAt k) Maneuver mnv (eb_params b) (run_options Maneuver req v b) sc = (Inr r, sc')"
    and "rr_status r = Rolled_back"
    and "relay (maneuver_call svc system mnv ps (timer_seconds dt)) (world s) =
           (Inr (map_prod id Some (fst (execute_route tok (Some container) k Maneuver mnv u req (Inr b) sc))), w')"
    and "remote_execute env = Some (as_remote relay svc on_time)" "on_time DEFAULT_REMOTE_TIMEOUT_MS (world s)"
    and "o_steps op = [RemoteStep system mnv (Some ps)]" "o_mode op = Sequential"
  shows "runOperation env op eps gids dt None None s =
    (Inr ([plain_outcome 0 (Some system) (Some mnv) True None], True, False), s\<lparr>world := w'\<rparr>)"
proof -
  have "fst (execute_route tok (Some container) k Maneuver mnv u req (Inr b) sc) = reply_for (Some r)"
    by (simp add: route_replies_run [OF assms(1-3)])
  then have "runRemoteStep env system mnv ps (timer_seconds dt) None None s = ((True, None), s\<lparr>world := w'\<rparr>)"
    using remote_step_told [OF assms(6,7,5)] channel_reads_run [of r] assms(4) by simp
  then show ?thesis
    by (simp add: runOperation_def operation_steps_run_def runOperationStep_def bindC_def assms(8,9) plain_outcome_def)
qed

section \<open>A concrete container\<close>

definition demo_maneuver :: maneuver_record where
  "demo_maneuver = (sample_maneuver ''up'')\<lparr>m_onFailure := Some Rollback, m_rollbackSteps := Some [sample_step ''d1'']\<rparr>"

definition demo_container :: "string list exec_env" where
  "demo_container = (sample_plant (returnC ()))\<lparr>e_registry := \<lparr>maneuvers = [(''up'', MRecord demo_maneuver)], operations = [], db_source = None\<rparr>\<rparr>"

definition demo_clock :: run_clock where
  "demo_clock = \<lparr>rk_runId = ''r1'', rk_startedAt = [], rk_finishedAt = [], rk_took = 40\<rparr>"

definition demo_call :: http_request where
  "demo_call = \<lparr>rq_url = ''/api/maneuvers/up/execute'', rq_method = ''POST'', rq_headers = []\<rparr>"

definition demo_body :: execute_body where
  "demo_body = \<lparr>eb_params = [], eb_deviceIds = None, eb_systems = None, eb_timerSeconds = None\<rparr>"

definition demo_field :: "(nat \<times> json option) \<Rightarrow> string list exec_env" where
  "demo_field reply = (sample_plant (returnC ()))\<lparr>remote_execute := Some (as_remote (\<lambda>c w. (Inr reply, w @ [ac_path c])) ''web'' (\<lambda>l w. True))\<rparr>"

definition demo_operation :: operation_record where
  "demo_operation = \<lparr>o_name = ''op'', o_label = ''op'', o_mode = Sequential, o_onFailure = Some Rollback,
     o_steps = [RemoteStep ''c1'' ''up'' (Some [])], o_rollback = Some [RemoteStep ''c1'' ''down'' None]\<rparr>"

lemma demo_operator: "authorizeCommand None (Some SYSTEM_USER) demo_call = Some SYSTEM_USER"
  by (simp add: authorizeCommand_def SYSTEM_USER_def)

lemma demo_run:
  "\<exists>r s'. execute demo_container ''r1'' [] [] Maneuver ''up'' [] (run_options Maneuver demo_call SYSTEM_USER demo_body) sample_state = (Inr r, s') \<and>
     rr_status r = Rolled_back"
  by (simp add: execute_def demo_container_def sample_plant_def resolve_record_def file_index_def validateDivideTotal_def divide_steps_def
      demo_maneuver_def sample_maneuver_def check_precondition_def in_world_def Let_def sample_state_def started_run_def runRecord_def
      runManeuver_def runStepList_def allC_def resolveStep_def target_ids_def mapresC_cases bindC_def sample_step_def executeStep_def
      run_target_def push_outcome_def scheduleTimer_def applyDivideTotal_def run_options_def demo_call_def demo_body_def traceFrom_def
      nonempty_header_def header_def audit_def divide_params_ok_def runRollbackSteps_def rollback_step_def rollback_target_def finishBestEffort_def)

lemma remote_rollback_is_success_witness:
  "\<exists>s'. runOperation (demo_field (map_prod id Some (fst (execute_route None (Some demo_container) demo_clock Maneuver ''up'' (Some SYSTEM_USER)
       demo_call (Inr demo_body) sample_state)))) demo_operation [] None None None None sample_state =
     (Inr ([plain_outcome 0 (Some ''c1'') (Some ''up'') True None], True, False), s') \<and> length (world s') = 1"
proof -
  let ?answer = "map_prod id Some (fst (execute_route None (Some demo_container) demo_clock Maneuver ''up'' (Some SYSTEM_USER) demo_call (Inr demo_body) sample_state))"
  obtain r s' where run: "execute demo_container (rk_runId demo_clock) (rk_startedAt demo_clock) (rk_finishedAt demo_clock) Maneuver ''up''
      (eb_params demo_body) (run_options Maneuver demo_call SYSTEM_USER demo_body) sample_state = (Inr r, s')" "rr_status r = Rolled_back"
    using demo_run by (auto simp: demo_clock_def demo_body_def)
  have "runOperation (demo_field ?answer) demo_operation [] None None None None sample_state =
     (Inr ([plain_outcome 0 (Some ''c1'') (Some ''up'') True None], True, False),
      sample_state\<lparr>world := world sample_state @ [ac_path (maneuver_call ''web'' ''c1'' ''up'' [] None)]\<rparr>)"
    by (rule remote_rollback_is_success [OF demo_operator _ run, where relay = "\<lambda>c w. (Inr ?answer, w @ [ac_path c])" and svc = "''web''"
          and on_time = "\<lambda>l w. True" and ps = "[]"])
      (simp_all add: demo_clock_def EXECUTE_TIMEOUT_MS_def timer_seconds_def demo_field_def demo_operation_def)
  then show ?thesis by (simp add: sample_state_def)
qed

end
