(* ===== verification/Command_Routes.thy ===== *)
theory Command_Routes
  imports Command_Bus Access_Control Remote_Operations
begin

text \<open>
  The command routes of a container (services/web-service, command-routes.tels): one command, several commands in
  parallel or in sequence with their timed stops, the trace of the writes (command-write-store.tels), and the
  proxy with which a field forwards commands to a container (field-container-commands.tels). A request is its
  parsed body; a clock reading and the file system are functions of the world, as in Command_Bus. The calls of a
  parallel request run one after the other in the order \<open>cr_completion\<close>. Calls whose result nobody waits for
  (the trace, the audit) act on the world and nothing else.
\<close>

section \<open>Requests and replies\<close>

text \<open>\<open>if (command)\<close>: the empty name counts as none.\<close>

definition named :: "resolved_step \<Rightarrow> string option" where
  "named st = (case r_command st of Some c \<Rightarrow> if c = [] then None else Some c | None \<Rightarrow> None)"

definition route_step_ok :: "resolved_step \<Rightarrow> bool" where
  "route_step_ok st \<longleftrightarrow>
     r_deviceId st \<noteq> [] \<and>
     (case r_telemetries st of None \<Rightarrow> True | Some tels \<Rightarrow> list_all (\<lambda>t. ct_name t \<noteq> [] \<and> ct_value t \<notin> {JUndefined, JNull}) tels) \<and>
     (case r_timer st of None \<Rightarrow> True | Some t \<Rightarrow> timer_ok t) \<and>
     (named st \<noteq> None \<or> or_else (r_telemetries st) [] \<noteq> [])"

record step_reply =
  sr_deviceId :: string
  sr_command :: "string option"
  sr_success :: bool
  sr_validated :: "bool option"
  sr_reason :: "string option"

datatype command_reply =
    Refused nat string
  | Executed nat step_reply
  | Executed_multi nat "step_reply list" run_mode

record config_point =
  cp_name :: string
  cp_registerAddress :: "int option"
  cp_registerTableType :: "string option"

record write_entry =
  we_deviceId :: string
  we_command :: string
  we_label :: "string option"
  we_name :: string
  we_registerAddress :: "int option"
  we_registerTableType :: "string option"
  we_value :: string
  we_success :: bool

record timer_audit =
  ta_deviceId :: string
  ta_command :: string
  ta_durationMs :: jsnum
  ta_success :: bool
  ta_error :: "string option"

text \<open>The telemetry list and the labels of a device file, which the other parts of a device file leave out, are functions.\<close>

record 'w command_routes =
  cr_source :: "string \<Rightarrow> device_config_file option"
  cr_points :: "string \<Rightarrow> config_point list"
  cr_label :: "string \<Rightarrow> string \<Rightarrow> string option"
  cr_now :: "'w \<Rightarrow> int"
  cr_stamp :: "'w \<Rightarrow> string"
  cr_send :: "traced_job \<Rightarrow> jsnum \<Rightarrow> ('w, string, queue_result) comp"
  cr_add :: "command_job \<Rightarrow> jsnum \<Rightarrow> ('w, string, unit) comp"
  cr_writes :: "(write_entry list \<Rightarrow> ('w, string, unit) comp) option"
  cr_log :: "(timer_audit \<Rightarrow> ('w, string, unit) comp) option"
  cr_completion :: "nat \<Rightarrow> nat list"

section \<open>The trace of the writes\<close>

fun string_of :: "jsval \<Rightarrow> string" where
  "string_of JUndefined = ''undefined''"
| "string_of JNull = ''null''"
| "string_of (JNum x) = show_num x"
| "string_of (JStr s) = s"
| "string_of (JBool b) = (if b then ''true'' else ''false'')"

definition write_entries :: "'w command_routes \<Rightarrow> string \<Rightarrow> string \<Rightarrow> string option \<Rightarrow> telemetry list \<Rightarrow> bool \<Rightarrow> write_entry list" where
  "write_entries env deviceId commandName label tels ok =
     map (\<lambda>t. let p = find_first (\<lambda>p. cp_name p = t_name t) (cr_points env deviceId) in
        \<lparr>we_deviceId = deviceId, we_command = commandName, we_label = label, we_name = t_name t,
         we_registerAddress = (case p of None \<Rightarrow> None | Some p \<Rightarrow> cp_registerAddress p),
         we_registerTableType = (case p of None \<Rightarrow> None | Some p \<Rightarrow> cp_registerTableType p),
         we_value = string_of (t_value t), we_success = ok\<rparr>) tels"

text \<open>\<open>CommandWriteStore.record\<close> issues no statement for an empty list; what fails is swallowed.\<close>

definition recordWrites :: "'w command_routes \<Rightarrow> string \<Rightarrow> string \<Rightarrow> string option \<Rightarrow> telemetry list \<Rightarrow> bool \<Rightarrow> 'w \<Rightarrow> 'w" where
  "recordWrites env deviceId commandName label tels ok w =
     (case cr_writes env of
        None \<Rightarrow> w
      | Some rec \<Rightarrow> (let es = write_entries env deviceId commandName label tels ok in if es = [] then w else snd (rec es w)))"

definition write_limit :: "int option \<Rightarrow> nat" where
  "write_limit limit = nat (min (max 1 (or_else limit 100)) 500)"

text \<open>\<open>CommandWriteStore.list\<close> on the table, each row with its time: the newest first, rows of one time as stored.\<close>

definition list_writes :: "int option \<Rightarrow> string option \<Rightarrow> (int \<times> write_entry) list \<Rightarrow> (int \<times> write_entry) list" where
  "list_writes limit deviceId rows =
     take (write_limit limit) (sort_key (\<lambda>(t, e). - t)
       (filter (\<lambda>(t, e). case deviceId of None \<Rightarrow> True | Some d \<Rightarrow> d = [] \<or> we_deviceId e = d) rows))"

section \<open>The job of a step\<close>

definition raw_of :: "'w command_routes \<Rightarrow> resolved_step \<Rightarrow> 'w \<Rightarrow> command_job" where
  "raw_of env st w = raw_job st (cr_now env w) (cr_stamp env w)"

definition built_job :: "'w command_routes \<Rightarrow> resolved_step \<Rightarrow> string \<Rightarrow> 'w \<Rightarrow> resolution_error + command_job" where
  "built_job env st c w = build_job (cr_source env) (cr_now env w) (cr_stamp env w) (r_deviceId st) c (r_params st)"

definition config_of :: "'w command_routes \<Rightarrow> resolved_step \<Rightarrow> string \<Rightarrow> resolution_error + command_config" where
  "config_of env st c =
     (case cr_source env (r_deviceId st) of
        None \<Rightarrow> Inl Device_not_found
      | Some cfg \<Rightarrow> (case js_get (or_else (d_commands cfg) []) c of None \<Rightarrow> Inl Command_not_found | Some cmd \<Rightarrow> Inr cmd))"

definition traced :: "command_job \<Rightarrow> string option \<Rightarrow> traced_job" where
  "traced job trace = command_job.extend job (traced_job.fields trace)"

fun refusal_text :: "string \<Rightarrow> string \<Rightarrow> resolution_error \<Rightarrow> string" where
  "refusal_text d c Device_not_found = ''Device not found: '' @ d"
| "refusal_text d c Command_not_found = ''Command not found: '' @ c"
| "refusal_text d c (Missing_param k) = ''Missing required param: '' @ k"

text \<open>The job of \<open>POST /execute\<close>, and the one of a step of \<open>POST /execute-multi\<close>, put together in another way.\<close>

definition single_job :: "'w command_routes \<Rightarrow> string option \<Rightarrow> resolved_step \<Rightarrow> 'w \<Rightarrow> resolution_error + traced_job \<times> command_config option" where
  "single_job env trace st w =
     (case named st of
        None \<Rightarrow> Inr (traced (raw_of env st w) trace, None)
      | Some c \<Rightarrow>
          (case config_of env st c of
             Inl e \<Rightarrow> Inl e
           | Inr cmd \<Rightarrow> (case built_job env st c w of Inl e \<Rightarrow> Inl e | Inr job \<Rightarrow> Inr (traced job trace, Some cmd))))"

definition multi_validate :: "command_config \<Rightarrow> job_validate option" where
  "multi_validate cmd =
     map_option (\<lambda>v. \<lparr>jv_minWaitMs = v_minWaitMs v, jv_timeoutMs = or_else (c_timeoutMs cmd) (js_int 3000), jv_reads = v_reads v\<rparr>) (c_validate cmd)"

definition multi_job :: "'w command_routes \<Rightarrow> string option \<Rightarrow> resolved_step \<Rightarrow> 'w \<Rightarrow> resolution_error + traced_job \<times> command_config option" where
  "multi_job env trace st w =
     (let jobId = r_deviceId st @ ''-'' @ or_else (r_command st) ''raw'' @ ''-'' @ show_int (cr_now env w);
          job = (\<lambda>tels fin pulse cmd.
            traced \<lparr>j_jobId = jobId, j_deviceId = r_deviceId st, j_timestamp = cr_stamp env w, j_telemetries = tels,
              j_atomic = (case cmd of None \<Rightarrow> True | Some c \<Rightarrow> or_else (c_atomic c) True), j_pulse = pulse, j_finalize = fin,
              j_validate = (case cmd of None \<Rightarrow> None | Some c \<Rightarrow> multi_validate c)\<rparr> trace)
      in case named st of
           None \<Rightarrow> Inr (job (j_telemetries (raw_of env st w)) None False None, None)
         | Some c \<Rightarrow>
             (case config_of env st c of
                Inl e \<Rightarrow> Inl e
              | Inr cmd \<Rightarrow>
                  (case built_job env st c w of
                     Inl e \<Rightarrow> Inl e
                   | Inr b \<Rightarrow> Inr (job (j_telemetries b) (j_finalize b) (j_pulse b) (Some cmd), Some cmd))))"

definition route_wait :: "command_config option \<Rightarrow> jsnum" where
  "route_wait cmd = js_add (or_else (case cmd of None \<Rightarrow> None | Some c \<Rightarrow> c_timeoutMs c) (js_int 3000)) (js_int 2000)"

definition step_reply_of :: "resolved_step \<Rightarrow> queue_result \<Rightarrow> step_reply" where
  "step_reply_of st r =
     \<lparr>sr_deviceId = r_deviceId st, sr_command = r_command st, sr_success = qr_success r, sr_validated = qr_validated r, sr_reason = qr_reason r\<rparr>"

definition trace_step :: "'w command_routes \<Rightarrow> resolved_step \<Rightarrow> traced_job \<Rightarrow> bool \<Rightarrow> 'w \<Rightarrow> 'w" where
  "trace_step env st job ok =
     recordWrites env (r_deviceId st) (or_else (r_command st) ''raw'')
       (case named st of None \<Rightarrow> None | Some c \<Rightarrow> cr_label env (r_deviceId st) c) (j_telemetries job) ok"

section \<open>One command\<close>

text \<open>\<open>Inl\<close> is an exception, which the error handler answers with status 500.\<close>

definition execute_one :: "'w command_routes \<Rightarrow> string option \<Rightarrow> resolved_step \<Rightarrow> ('w, string, command_reply) comp" where
  "execute_one env trace st w =
     (if \<not> route_step_ok st then (Inr (Refused 400 ''command or telemetries required''), w)
      else case single_job env trace st w of
        Inl e \<Rightarrow>
          (Inr (Refused (case e of Missing_param k \<Rightarrow> 400 | _ \<Rightarrow> 404) (refusal_text (r_deviceId st) (or_else (r_command st) []) e)), w)
      | Inr (job, cmd) \<Rightarrow>
          (case cr_send env job (route_wait cmd) w of
             (Inl e, w1) \<Rightarrow> (Inl e, w1)
           | (Inr r, w1) \<Rightarrow>
               (Inr (Executed (if qr_success r then 200 else 422) (step_reply_of st r)), trace_step env st job (qr_success r) w1)))"

section \<open>Several commands\<close>

definition logTimerSchedule :: "'w command_routes \<Rightarrow> string \<Rightarrow> string \<Rightarrow> jsnum \<Rightarrow> bool \<Rightarrow> string option \<Rightarrow> 'w \<Rightarrow> 'w" where
  "logTimerSchedule env deviceId stop delay ok err w =
     (case cr_log env of
        None \<Rightarrow> w
      | Some put \<Rightarrow> snd (put \<lparr>ta_deviceId = deviceId, ta_command = stop, ta_durationMs = delay, ta_success = ok, ta_error = err\<rparr> w))"

definition schedule_stop :: "'w command_routes \<Rightarrow> resolved_step \<Rightarrow> command_timer \<Rightarrow> 'w \<Rightarrow> 'w" where
  "schedule_stop env st t w =
     (let stop = or_else (stopCommand t) ''stop''; d = r_deviceId st; report = logTimerSchedule env d stop (durationMs t)
      in case build_job (cr_source env) (cr_now env w) (cr_stamp env w) d stop (Some []) of
           Inl e \<Rightarrow> report False (Some (''Error: '' @ resolution_code e)) w
         | Inr job \<Rightarrow>
             (case cr_add env job (durationMs t) w of
                (Inl e, w1) \<Rightarrow> report False (Some e) w1
              | (Inr u, w1) \<Rightarrow> report True None w1))"

definition execute_step :: "'w command_routes \<Rightarrow> string option \<Rightarrow> resolved_step \<Rightarrow> ('w, string, step_reply) comp" where
  "execute_step env trace st w =
     (case multi_job env trace st w of
        Inl e \<Rightarrow>
          (Inr \<lparr>sr_deviceId = r_deviceId st, sr_command = r_command st, sr_success = False, sr_validated = None,
             sr_reason = Some (refusal_text (r_deviceId st) (or_else (r_command st) []) e)\<rparr>, w)
      | Inr (job, cmd) \<Rightarrow>
          (case cr_send env job (route_wait cmd) w of
             (Inl e, w1) \<Rightarrow> (Inl e, w1)
           | (Inr r, w1) \<Rightarrow>
               let w2 = trace_step env st job (qr_success r) w1
               in (Inr (step_reply_of st r),
                   case r_timer st of None \<Rightarrow> w2 | Some t \<Rightarrow> if qr_success r then schedule_stop env st t w2 else w2)))"

text \<open>The chain of a sequential request, with the replies so far.\<close>

fun run_sequence :: "(resolved_step \<Rightarrow> ('w, string, step_reply) comp) \<Rightarrow> bool \<Rightarrow> step_reply list \<Rightarrow> resolved_step list \<Rightarrow> ('w, string, step_reply list) comp" where
  "run_sequence f stop acc [] w = (Inr acc, w)"
| "run_sequence f stop acc (st # rest) w =
     (if list_ex (\<lambda>r. \<not> sr_success r) acc \<and> stop then run_sequence f stop acc rest w
      else case f st w of
             (Inl e, w1) \<Rightarrow> (Inl e, w1)
           | (Inr r, w1) \<Rightarrow> run_sequence f stop (acc @ [r]) rest w1)"

definition internal_error :: "resolved_step \<Rightarrow> step_reply" where
  "internal_error st =
     \<lparr>sr_deviceId = r_deviceId st, sr_command = r_command st, sr_success = False, sr_validated = None, sr_reason = Some ''Internal error''\<rparr>"

definition run_parallel :: "'w command_routes \<Rightarrow> (resolved_step \<Rightarrow> ('w, string, step_reply) comp) \<Rightarrow> resolved_step list \<Rightarrow> 'w \<Rightarrow> step_reply list \<times> 'w" where
  "run_parallel env f steps w =
     (let order = cr_completion env (length steps)
      in case settledC (\<lambda>i. f (steps ! i)) order w of
           (rs, w') \<Rightarrow>
             (map (\<lambda>i. case js_get (zip order rs) i of Some (Inr r) \<Rightarrow> r | _ \<Rightarrow> internal_error (steps ! i)) [0..<length steps], w'))"

definition multi_reply :: "run_mode \<Rightarrow> step_reply list \<Rightarrow> command_reply" where
  "multi_reply mode rs = Executed_multi (if list_all sr_success rs then 200 else 422) rs mode"

definition execute_multi :: "'w command_routes \<Rightarrow> string option \<Rightarrow> resolved_step list \<Rightarrow> run_mode \<Rightarrow> bool \<Rightarrow> ('w, string, command_reply) comp" where
  "execute_multi env trace steps mode stop w =
     (if steps = [] \<or> \<not> list_all route_step_ok steps then (Inr (Refused 400 ''command or telemetries required''), w)
      else case mode of
        Sequential \<Rightarrow>
          (case run_sequence (execute_step env trace) stop [] steps w of
             (Inl e, w') \<Rightarrow> (Inl e, w')
           | (Inr rs, w') \<Rightarrow> (Inr (multi_reply mode rs), w'))
      | Parallel \<Rightarrow> (case run_parallel env (execute_step env trace) steps w of (rs, w') \<Rightarrow> (Inr (multi_reply mode rs), w')))"

section \<open>The proxy of a field\<close>

text \<open>The schema of the field has no timer and drops what it does not know.\<close>

definition field_step :: "resolved_step \<Rightarrow> resolved_step" where
  "field_step st = st\<lparr>r_timer := None\<rparr>"

definition telemetry_json :: "command_telemetry \<Rightarrow> json" where
  "telemetry_json t = VObj [(''name'', VStr (ct_name t)), (''value'', value_json (ct_value t)), (''unit'', VStr (or_else (ct_unit t) []))]"

definition step_json :: "resolved_step \<Rightarrow> json" where
  "step_json st =
     VObj ((''deviceId'', VStr (r_deviceId st)) # opt_member ''command'' (r_command st) @
       (case r_telemetries st of None \<Rightarrow> [] | Some tels \<Rightarrow> [(''telemetries'', VArr (map telemetry_json tels))]) @
       (case r_params st of None \<Rightarrow> [] | Some ps \<Rightarrow> [(''params'', params_json ps)]))"

definition proxy_call :: "string \<Rightarrow> string \<Rightarrow> string \<Rightarrow> resolved_step list \<Rightarrow> run_mode \<Rightarrow> bool \<Rightarrow> access_call" where
  "proxy_call serviceId containerId trace steps mode stop =
     \<lparr>ac_peerId = containerId, ac_serviceId = serviceId, ac_path = ''/api/commands/execute-multi'', ac_method = ''POST'',
      ac_headers = (''content-type'', ''application/json'') # (''x-gd-trace-id'', trace) # SYSTEM_USER_HEADERS,
      ac_body = VObj [(''commands'', VArr (map step_json (map field_step steps))),
        (''mode'', VStr (case mode of Parallel \<Rightarrow> ''parallel'' | Sequential \<Rightarrow> ''sequential'')),
        (''onFailure'', VStr (if stop then ''stop'' else ''continue''))]\<rparr>"

text \<open>The body of the response: empty, parsed, or no JSON.\<close>

datatype upstream_body = Empty_body | Json_body json | Other_body

fun parseUpstreamBody :: "upstream_body \<Rightarrow> json" where
  "parseUpstreamBody Empty_body = VObj [(''results'', VArr [])]"
| "parseUpstreamBody (Json_body v) = v"
| "parseUpstreamBody Other_body = VObj [(''results'', VArr []), (''error'', VStr ''invalid_upstream_response'')]"

text \<open>The body is checked before the rights; \<open>generated\<close> is the trace id made up where the request has none.\<close>

definition container_command ::
  "string option \<Rightarrow> (access_call \<Rightarrow> ('w, string, nat \<times> upstream_body) comp) \<Rightarrow> (nat \<Rightarrow> json \<Rightarrow> 'w \<Rightarrow> 'w) \<Rightarrow> string \<Rightarrow> string \<Rightarrow> string \<Rightarrow>
   user option \<Rightarrow> http_request \<Rightarrow> json + resolved_step list \<times> run_mode \<times> bool \<Rightarrow> 'w \<Rightarrow> (nat \<times> json) \<times> 'w" where
  "container_command internalToken hub audit_command serviceId containerId generated u req body w =
     (case body of
        Inl issues \<Rightarrow> ((400, VObj [(''error'', issues)]), w)
      | Inr (steps, mode, stop) \<Rightarrow>
          (case authorizeCommand internalToken u req of
             None \<Rightarrow> ((403, error_body ''Bu islem icin yetkiniz yok''), w)
           | Some v \<Rightarrow>
               (case hub (proxy_call serviceId containerId (or_else (traceFrom req) generated) steps mode stop) w of
                  (Inl e, w1) \<Rightarrow> ((502, error_body ''hub_stream_failed''), w1)
                | (Inr (status, b), w1) \<Rightarrow> ((status, parseUpstreamBody b), audit_command status (parseUpstreamBody b) w1))))"

end
