(* ===== verification/Command_Route_Facts.thy ===== *)
theory Command_Route_Facts
  imports Command_Routes
begin

text \<open>
  What a container does with the commands of a request: one command and a request of one command are the same
  run, two commands for one device in the same millisecond are one job, and a timed stop survives neither the
  route of one command nor the way through a field.
\<close>

section \<open>The jobs of both routes\<close>

lemma build_job_config:
  assumes "built_job env st c w = Inr b" "config_of env st c = Inr cmd"
  shows "b = \<lparr>j_jobId = r_deviceId st @ ''-'' @ c @ ''-'' @ show_int (cr_now env w), j_deviceId = r_deviceId st,
     j_timestamp = cr_stamp env w, j_telemetries = j_telemetries b, j_atomic = or_else (c_atomic cmd) True, j_pulse = j_pulse b,
     j_finalize = j_finalize b, j_validate = multi_validate cmd\<rparr>"
  using assms
  by (auto simp: built_job_def build_job_def config_of_def multi_validate_def split: option.splits)

lemma multi_job_is_single:
  assumes "r_command st \<noteq> Some []"
  shows "multi_job env trace st w = single_job env trace st w"
proof (cases "named st")
  case None
  then have "r_command st = None" using assms by (auto simp: named_def split: option.splits if_splits)
  then show ?thesis using None by (simp add: multi_job_def single_job_def raw_of_def raw_job_def)
next
  case (Some c)
  then have c: "r_command st = Some c" by (auto simp: named_def split: option.splits if_splits)
  show ?thesis
  proof (cases "config_of env st c")
    case (Inr cmd)
    then show ?thesis using Some c build_job_config [of env st c w _ cmd]
      by (cases "built_job env st c w") (auto simp: multi_job_def single_job_def Let_def intro: arg_cong [where f = "\<lambda>j. traced j trace"])
  qed (simp add: multi_job_def single_job_def Some Let_def)
qed


section \<open>Replies of a parallel request\<close>

lemma settled_from_call:
  "(k, Inr x) \<in> set (zip order (fst (settledC g order w))) \<Longrightarrow> \<exists>v v'. g k v = (Inr x, v')"
proof (induction order arbitrary: w)
  case (Cons i order)
  obtain r v where r: "g i w = (r, v)" by (cases "g i w")
  have "fst (settledC g (i # order) w) = r # fst (settledC g order v)" by (simp add: r split: prod.splits)
  then show ?case using Cons r by auto
qed simp

lemma parallel_replies_in_order:
  assumes "\<And>st w r w'. f st w = (Inr r, w') \<Longrightarrow> sr_deviceId r = r_deviceId st" "i < length steps"
  shows "length (fst (run_parallel env f steps w)) = length steps \<and> sr_deviceId (fst (run_parallel env f steps w) ! i) = r_deviceId (steps ! i)"
proof -
  have "sr_deviceId r = r_deviceId (steps ! k)"
    if "(k, Inr r) \<in> set (zip order (fst (settledC (\<lambda>i. f (steps ! i)) order w)))" for k r order
    using settled_from_call [OF that] assms(1) by blast
  then show ?thesis using assms(2)
    by (auto simp: run_parallel_def Let_def internal_error_def case_prod_beta split: option.splits sum.splits dest!: map_of_SomeD)
qed

section \<open>Two commands in one millisecond\<close>

lemma multi_job_id:
  assumes "multi_job env trace st w = Inr (job, cmd)"
  shows "j_jobId job = r_deviceId st @ ''-'' @ or_else (r_command st) ''raw'' @ ''-'' @ show_int (cr_now env w)"
  using assms by (auto simp: multi_job_def Let_def traced_def command_job.defs traced_job.defs split: option.splits sum.splits)


section \<open>Timed stops\<close>

lemma single_ignores_timer:
  "timer_ok t \<Longrightarrow> execute_one env trace (st\<lparr>r_timer := Some t\<rparr>) = execute_one env trace (st\<lparr>r_timer := None\<rparr>)"
  by (rule ext) (simp add: execute_one_def route_step_ok_def named_def single_job_def raw_of_def raw_job_def config_of_def built_job_def
      step_reply_of_def trace_step_def split: option.splits sum.splits prod.splits)

lemma proxy_call_field: "proxy_call svc cid tr (map field_step steps) mode stop = proxy_call svc cid tr steps mode stop"
  by (simp add: proxy_call_def field_step_def comp_def)

lemma add_irrelevant [simp]:
  "built_job (env\<lparr>cr_add := f\<rparr>) = built_job env" "config_of (env\<lparr>cr_add := f\<rparr>) = config_of env" "raw_of (env\<lparr>cr_add := f\<rparr>) = raw_of env"
  "write_entries (env\<lparr>cr_add := f\<rparr>) = write_entries env"
  by (simp_all add: fun_eq_iff built_job_def config_of_def raw_of_def write_entries_def)

lemma add_irrelevant_job [simp]:
  "multi_job (env\<lparr>cr_add := f\<rparr>) = multi_job env" "recordWrites (env\<lparr>cr_add := f\<rparr>) = recordWrites env"
  "trace_step (env\<lparr>cr_add := f\<rparr>) = trace_step env"
  by (simp_all add: fun_eq_iff multi_job_def recordWrites_def trace_step_def Let_def split: option.splits sum.splits)

lemma untimed_step: "execute_step (env\<lparr>cr_add := f\<rparr>) trace (field_step st) = execute_step env trace (field_step st)"
  by (simp add: fun_eq_iff execute_step_def field_step_def Let_def split: sum.splits prod.splits)

lemma settledC_cong: "(\<And>x. x \<in> set xs \<Longrightarrow> f x = g x) \<Longrightarrow> settledC f xs w = settledC g xs w"
  by (induction xs arbitrary: w) (simp_all add: Let_def split: prod.splits)

lemma run_sequence_cong: "(\<And>x. x \<in> set xs \<Longrightarrow> f x = g x) \<Longrightarrow> run_sequence f stop acc xs w = run_sequence g stop acc xs w"
  by (induction f stop acc xs w rule: run_sequence.induct) (simp_all split: sum.split prod.split)

text \<open>
  A timed stop does not survive the way through a field: the body for the container is the same with and without
  timers, and a container that runs it never adds a delayed job, whatever the queue would do with one.
\<close>

theorem timed_stop_lost:
  assumes "\<And>n. set (cr_completion env n) \<subseteq> {..<n}"
  shows "proxy_call svc cid tr steps mode stop = proxy_call svc cid tr (map field_step steps) mode stop \<and>
   execute_multi (env\<lparr>cr_add := f\<rparr>) trace (map field_step steps) mode stop w = execute_multi env trace (map field_step steps) mode stop w"
proof -
  have seq: "run_sequence (execute_step (env\<lparr>cr_add := f\<rparr>) trace) stop acc (map field_step ss) w =
      run_sequence (execute_step env trace) stop acc (map field_step ss) w" for acc ss w
    by (rule run_sequence_cong) (auto simp: untimed_step)
  have "execute_step (env\<lparr>cr_add := f\<rparr>) trace (map field_step steps ! i) = execute_step env trace (map field_step steps ! i)"
    if "i \<in> set (cr_completion env (length steps))" for i
    using that assms [of "length steps"] untimed_step by (auto simp: subset_iff)
  then have "run_parallel (env\<lparr>cr_add := f\<rparr>) (execute_step (env\<lparr>cr_add := f\<rparr>) trace) (map field_step steps) w =
      run_parallel env (execute_step env trace) (map field_step steps) w"
    using settledC_cong [of "cr_completion env (length steps)" "\<lambda>i. execute_step (env\<lparr>cr_add := f\<rparr>) trace (map field_step steps ! i)"
        "\<lambda>i. execute_step env trace (map field_step steps ! i)" w]
    by (simp add: run_parallel_def)
  then show ?thesis by (simp add: proxy_call_field execute_multi_def seq split: run_mode.split)
qed

section \<open>A concrete container\<close>

text \<open>The world is the list of the jobs performed, each id once; the clock stands still.\<close>

definition demo_routes :: "(string \<times> string list) list command_routes" where
  "demo_routes = \<lparr>cr_source = (\<lambda>d. None), cr_points = (\<lambda>d. []), cr_label = (\<lambda>d c. None), cr_now = (\<lambda>w. 7), cr_stamp = (\<lambda>w. []),
     cr_send = (\<lambda>job d w. (Inr \<lparr>qr_success = True, qr_validated = None, qr_reason = None\<rparr>,
       if js_has w (j_jobId job) then w else w @ [(j_jobId job, map t_name (j_telemetries job))])),
     cr_add = (\<lambda>job d w. (Inr (), w)), cr_writes = None, cr_log = None, cr_completion = (\<lambda>n. [0..<n])\<rparr>"

definition demo_raw :: "string \<Rightarrow> resolved_step" where
  "demo_raw name = \<lparr>r_deviceId = ''pcs'', r_command = None, r_telemetries = Some [\<lparr>ct_name = name, ct_value = JBool True, ct_unit = None\<rparr>],
     r_params = None, r_timer = None\<rparr>"

lemma demo_raw_ok: "name \<noteq> [] \<Longrightarrow> route_step_ok (demo_raw name)"
  by (simp add: route_step_ok_def demo_raw_def)

lemma demo_raw_job: "multi_job demo_routes None (demo_raw name) w = Inr (traced (raw_job (demo_raw name) 7 []) None, None)"
  by (simp add: multi_job_is_single demo_raw_def single_job_def named_def raw_of_def demo_routes_def)

lemma demo_raw_id [simp]: "j_jobId (traced (raw_job (demo_raw name) now stamp) tr) = ''pcs-raw-'' @ show_int now"
  "map t_name (j_telemetries (traced (raw_job (demo_raw name) now stamp) tr)) = [name]"
  by (simp_all add: traced_def raw_job_def demo_raw_def command_job.defs traced_job.defs)



end
