(* ===== verification/Definition_Store.thy ===== *)
theory Definition_Store
  imports Executor_Facts "HOL-Library.Sublist"
begin

text \<open>
  The maneuvers and operations that administrators define, and the runs that are kept (services/web-service):
  \<open>OperationDefinitionsUseCase\<close> over \<open>OperationDefStore\<close> with its routes, and \<open>OperationRunStore\<close>. A table is the
  list of its rows as inserted; which statement fails, and with which text, is an argument of a request. The
  registry of Command_Types reads the table as its source, so what a request changes is what a run finds.
\<close>

section \<open>The table of definitions\<close>

record def_row =
  df_name :: string
  df_kind :: run_kind
  df_definition :: run_record
  df_enabled :: bool
  df_updatedBy :: string
  df_updatedAt :: int
  df_createdAt :: int

definition is_row :: "run_kind \<Rightarrow> string \<Rightarrow> def_row \<Rightarrow> bool" where
  "is_row kind name d \<longleftrightarrow> df_kind d = kind \<and> df_name d = name"

definition findByKindAndName :: "run_kind \<Rightarrow> string \<Rightarrow> def_row list \<Rightarrow> def_row option" where
  "findByKindAndName kind name rows = find_first (is_row kind name) rows"

definition listByKind :: "run_kind \<Rightarrow> def_row list \<Rightarrow> def_row list" where
  "listByKind kind rows = sort_key df_createdAt (filter (\<lambda>d. df_kind d = kind) rows)"

text \<open>The errors of the lookup and of the statement that writes, if they fail.\<close>

record sql_faults =
  sf_find :: "string option"
  sf_write :: "string option"

definition new_def_row :: "run_kind \<Rightarrow> string \<Rightarrow> run_record \<Rightarrow> string \<Rightarrow> int \<Rightarrow> def_row" where
  "new_def_row kind name rec by now =
     \<lparr>df_name = name, df_kind = kind, df_definition = rec, df_enabled = True, df_updatedBy = by, df_updatedAt = now, df_createdAt = now\<rparr>"

definition store_create :: "sql_faults \<Rightarrow> int \<Rightarrow> run_kind \<Rightarrow> run_record \<Rightarrow> string \<Rightarrow> (def_row list, string, unit) comp" where
  "store_create ft now kind rec by rows =
     (if record_name rec = [] then (Inl ''Error: invalid_definition'', rows)
      else case sf_find ft of
        Some e \<Rightarrow> (Inl e, rows)
      | None \<Rightarrow>
          if findByKindAndName kind (record_name rec) rows \<noteq> None then (Inl ''Error: already_exists'', rows)
          else case sf_write ft of
            Some e \<Rightarrow> (Inl e, rows)
          | None \<Rightarrow> (Inr (), rows @ [new_def_row kind (record_name rec) rec by now]))"

definition store_update :: "sql_faults \<Rightarrow> int \<Rightarrow> run_kind \<Rightarrow> string \<Rightarrow> run_record \<Rightarrow> string \<Rightarrow> (def_row list, string, unit) comp" where
  "store_update ft now kind name rec by rows =
     (case sf_write ft of
        Some e \<Rightarrow> (Inl e, rows)
      | None \<Rightarrow>
          (Inr (),
           if list_ex (is_row kind name) rows
           then map (\<lambda>d. if is_row kind name d
                  then d\<lparr>df_definition := rec, df_enabled := True, df_updatedBy := by, df_updatedAt := now\<rparr> else d) rows
           else rows @ [new_def_row kind name rec by now]))"

definition setEnabled :: "sql_faults \<Rightarrow> int \<Rightarrow> run_kind \<Rightarrow> string \<Rightarrow> bool \<Rightarrow> string \<Rightarrow> (def_row list, string, unit) comp" where
  "setEnabled ft now kind name on by rows =
     (case sf_find ft of
        Some e \<Rightarrow> (Inl e, rows)
      | None \<Rightarrow>
          if findByKindAndName kind name rows = None then (Inl ''Error: not_found'', rows)
          else case sf_write ft of
            Some e \<Rightarrow> (Inl e, rows)
          | None \<Rightarrow> (Inr (), map (\<lambda>d. if is_row kind name d then d\<lparr>df_enabled := on, df_updatedBy := by, df_updatedAt := now\<rparr> else d) rows))"

section \<open>The use case\<close>

datatype def_outcome =
    Def_created string | Def_updated string | Def_deleted string
  | Def_invalid | Def_already_exists | Def_not_found | Def_unavailable | Def_persist_failed

record def_audit =
  da_code :: string
  da_kind :: run_kind
  da_name :: string
  da_by :: string

record def_state =
  ds_rows :: "def_row list option"    \<comment> \<open>none without a store\<close>
  ds_audits :: "def_audit list"

text \<open>The schema of a kind on a body that has the shape of a record; \<open>None\<close> is any other body.\<close>

definition schema_ok :: "run_kind \<Rightarrow> run_record \<Rightarrow> bool" where
  "schema_ok kind rec =
     (case (kind, rec) of
        (Maneuver, MRecord m) \<Rightarrow> maneuver_ok m
      | (Operation, ORecord r) \<Rightarrow> operation_ok r
      | _ \<Rightarrow> False)"

definition parsed :: "run_kind \<Rightarrow> run_record option \<Rightarrow> run_record option" where
  "parsed kind body = (case body of Some rec \<Rightarrow> if schema_ok kind rec then Some rec else None | None \<Rightarrow> None)"

text \<open>The audit record and, only after it, the statement; the error of either.\<close>

definition audited_write :: "string option \<Rightarrow> def_audit \<Rightarrow> (def_row list, string, unit) comp \<Rightarrow> def_row list \<Rightarrow> (def_state, string, unit) comp" where
  "audited_write auditFault a write rows s =
     (case auditFault of
        Some e \<Rightarrow> (Inl e, s)
      | None \<Rightarrow> (case write rows of (r, rows') \<Rightarrow> (r, s\<lparr>ds_rows := Some rows', ds_audits := ds_audits s @ [a]\<rparr>)))"

datatype def_request =
    Create_def run_kind "run_record option" string
  | Update_def run_kind string "run_record option" string
  | Disable_def run_kind string string

definition create_def :: "string option \<Rightarrow> sql_faults \<Rightarrow> int \<Rightarrow> run_kind \<Rightarrow> run_record option \<Rightarrow> string \<Rightarrow> def_state \<Rightarrow> def_outcome \<times> def_state" where
  "create_def auditFault ft now kind body by s =
     (case ds_rows s of
        None \<Rightarrow> (Def_unavailable, s)
      | Some rows \<Rightarrow>
          (case parsed kind body of
             None \<Rightarrow> (Def_invalid, s)
           | Some rec \<Rightarrow>
               let name = record_name rec in
               (case audited_write auditFault \<lparr>da_code = ''operation_definition_created'', da_kind = kind, da_name = name, da_by = by\<rparr>
                       (store_create ft now kind rec by) rows s of
                  (Inl e, s') \<Rightarrow> (if sublist ''already_exists'' e then Def_already_exists else Def_persist_failed, s')
                | (Inr u, s') \<Rightarrow> (Def_created name, s'))))"

definition update_def :: "string option \<Rightarrow> sql_faults \<Rightarrow> int \<Rightarrow> run_kind \<Rightarrow> string \<Rightarrow> run_record option \<Rightarrow> string \<Rightarrow> def_state \<Rightarrow> def_outcome \<times> def_state" where
  "update_def auditFault ft now kind name body by s =
     (case ds_rows s of
        None \<Rightarrow> (Def_unavailable, s)
      | Some rows \<Rightarrow>
          (case parsed kind body of
             None \<Rightarrow> (Def_invalid, s)
           | Some rec \<Rightarrow>
               if record_name rec \<noteq> name then (Def_invalid, s)
               else
                 (case audited_write auditFault \<lparr>da_code = ''operation_definition_updated'', da_kind = kind, da_name = name, da_by = by\<rparr>
                         (store_update ft now kind name rec by) rows s of
                    (Inl e, s') \<Rightarrow> (Def_persist_failed, s')
                  | (Inr u, s') \<Rightarrow> (Def_updated name, s'))))"

definition disable_def :: "string option \<Rightarrow> sql_faults \<Rightarrow> int \<Rightarrow> run_kind \<Rightarrow> string \<Rightarrow> string \<Rightarrow> def_state \<Rightarrow> def_outcome \<times> def_state" where
  "disable_def auditFault ft now kind name by s =
     (case ds_rows s of
        None \<Rightarrow> (Def_unavailable, s)
      | Some rows \<Rightarrow>
          (case audited_write auditFault \<lparr>da_code = ''operation_definition_deleted'', da_kind = kind, da_name = name, da_by = by\<rparr>
                  (setEnabled ft now kind name False by) rows s of
             (Inl e, s') \<Rightarrow> (if sublist ''not_found'' e then Def_not_found else Def_persist_failed, s')
           | (Inr u, s') \<Rightarrow> (Def_deleted name, s')))"

record def_call =
  dc_request :: def_request
  dc_now :: int
  dc_audit :: "string option"
  dc_sql :: sql_faults

definition def_step :: "def_call \<Rightarrow> def_state \<Rightarrow> def_outcome \<times> def_state" where
  "def_step c s =
     (case dc_request c of
        Create_def kind body by \<Rightarrow> create_def (dc_audit c) (dc_sql c) (dc_now c) kind body by s
      | Update_def kind name body by \<Rightarrow> update_def (dc_audit c) (dc_sql c) (dc_now c) kind name body by s
      | Disable_def kind name by \<Rightarrow> disable_def (dc_audit c) (dc_sql c) (dc_now c) kind name by s)"

definition def_run :: "def_call list \<Rightarrow> def_state \<Rightarrow> def_state" where
  "def_run cs s = fold (\<lambda>c s. snd (def_step c s)) cs s"

definition new_defs :: def_state where
  "new_defs = \<lparr>ds_rows = Some [], ds_audits = []\<rparr>"

text \<open>\<open>replyForDefinition\<close>: the status of an outcome.\<close>

fun definition_status :: "def_outcome \<Rightarrow> nat" where
  "definition_status (Def_created n) = 201"
| "definition_status (Def_updated n) = 200"
| "definition_status (Def_deleted n) = 200"
| "definition_status Def_invalid = 400"
| "definition_status Def_already_exists = 409"
| "definition_status Def_not_found = 404"
| "definition_status Def_unavailable = 503"
| "definition_status Def_persist_failed = 500"

text \<open>The table as the source of the registry.\<close>

definition with_definitions :: "def_row list \<Rightarrow> registry \<Rightarrow> registry" where
  "with_definitions rows reg =
     reg\<lparr>db_source := Some (\<lambda>kind. map (\<lambda>d. \<lparr>row_name = df_name d, row_definition = df_definition d, row_enabled = df_enabled d\<rparr>)
        (listByKind kind rows))\<rparr>"

section \<open>The table of runs\<close>

record run_row =
  rn_id :: string
  rn_draft :: run_draft
  rn_status :: "run_status option"    \<comment> \<open>none while running\<close>
  rn_finishedAt :: "string option"

definition begin_run :: "run_draft \<Rightarrow> (run_row list, string, unit) comp" where
  "begin_run d rows =
     (if list_ex (\<lambda>r. rn_id r = draft_id d) rows then (Inl ''error: duplicate key value violates unique constraint'', rows)
      else (Inr (), rows @ [\<lparr>rn_id = draft_id d, rn_draft = d, rn_status = None, rn_finishedAt = None\<rparr>]))"

definition finish_run :: "string \<Rightarrow> run_status \<Rightarrow> string \<Rightarrow> (run_row list, string, unit) comp" where
  "finish_run i status stamp rows =
     (if status = Rejected \<and> list_ex (\<lambda>r. rn_id r = i) rows then (Inl ''error: new row violates check constraint'', rows)
      else (Inr (), map (\<lambda>r. if rn_id r = i then r\<lparr>rn_status := Some status, rn_finishedAt := Some stamp\<rparr> else r) rows))"

definition find_run :: "string \<Rightarrow> run_row list \<Rightarrow> run_row option" where
  "find_run i rows = find_first (\<lambda>r. rn_id r = i) rows"

text \<open>The newest first by the ISO time of their start; runs of one time as they were stored.\<close>

definition listRecent :: "nat \<Rightarrow> (string \<Rightarrow> int) \<Rightarrow> run_row list \<Rightarrow> run_row list" where
  "listRecent limit time_of rows = take limit (sort_key (\<lambda>r. - time_of (draft_startedAt (rn_draft r))) rows)"

end
