(* ===== verification/Definition_Facts.thy ===== *)
theory Definition_Facts
  imports Definition_Store
begin

text \<open>
  The catalog that administrators edit stays consistent with what can be run: every stored definition satisfies
  its schema, names are unique within a kind, and the registry lists exactly what it resolves.
\<close>

section \<open>The invariant of the table\<close>

definition rows_ok :: "def_row list \<Rightarrow> bool" where
  "rows_ok rows \<longleftrightarrow>
     distinct (map (\<lambda>d. (df_kind d, df_name d)) rows) \<and>
     (\<forall>d \<in> set rows. schema_ok (df_kind d) (df_definition d) \<and> record_name (df_definition d) = df_name d)"

lemma find_row: "find_first (is_row kind name) rows = None \<longleftrightarrow> (kind, name) \<notin> (\<lambda>d. (df_kind d, df_name d)) ` set rows"
  by (auto simp: find_first_None is_row_def)

lemma rows_ok_add:
  assumes "rows_ok rows" "(kind, record_name rec) \<notin> (\<lambda>d. (df_kind d, df_name d)) ` set rows" "schema_ok kind rec"
  shows "rows_ok (rows @ [new_def_row kind (record_name rec) rec by now])"
  using assms by (auto simp: rows_ok_def new_def_row_def)

lemma rows_ok_map:
  assumes "rows_ok rows" "\<And>d. df_kind (f d) = df_kind d \<and> df_name (f d) = df_name d"
    and "\<And>d. d \<in> set rows \<Longrightarrow> schema_ok (df_kind d) (df_definition (f d)) \<and> record_name (df_definition (f d)) = df_name d"
  shows "rows_ok (map f rows)"
  using assms by (auto simp: rows_ok_def comp_def)

lemma rows_ok_create:
  assumes "rows_ok rows" "schema_ok kind rec"
  shows "rows_ok (snd (store_create ft now kind rec by rows))"
  using assms rows_ok_add [OF assms(1) _ assms(2)]
  by (auto simp: store_create_def findByKindAndName_def find_row split: option.splits)

lemma rows_ok_update:
  assumes "rows_ok rows" "schema_ok kind rec" "record_name rec = name"
  shows "rows_ok (snd (store_update ft now kind name rec by rows))"
proof -
  have "rows_ok (map (\<lambda>d. if is_row kind name d then d\<lparr>df_definition := rec, df_enabled := True, df_updatedBy := by, df_updatedAt := now\<rparr> else d) rows)"
    by (rule rows_ok_map [OF assms(1)]) (use assms in \<open>auto simp: is_row_def rows_ok_def\<close>)
  moreover have "rows_ok (rows @ [new_def_row kind name rec by now])" if "\<not> list_ex (is_row kind name) rows"
  proof -
    have "(kind, record_name rec) \<notin> (\<lambda>d. (df_kind d, df_name d)) ` set rows"
      using that assms(3) by (auto simp: list_ex_iff is_row_def)
    then show ?thesis using rows_ok_add [OF assms(1) _ assms(2)] assms(3) by simp
  qed
  ultimately show ?thesis using assms(1) by (auto simp: store_update_def split: option.splits)
qed

lemma rows_ok_enable:
  assumes "rows_ok rows"
  shows "rows_ok (snd (setEnabled ft now kind name on by rows))"
proof -
  have "rows_ok (map (\<lambda>d. if is_row kind name d then d\<lparr>df_enabled := on, df_updatedBy := by, df_updatedAt := now\<rparr> else d) rows)"
    by (rule rows_ok_map [OF assms]) (use assms in \<open>auto simp: rows_ok_def\<close>)
  then show ?thesis using assms by (auto simp: setEnabled_def split: option.splits)
qed

section \<open>One request\<close>

text \<open>What a request writes: nothing, or what its statement leaves after its audit record.\<close>

lemma audited_write_cases:
  "audited_write fault a w rows s = (r, s') \<Longrightarrow>
     (s' = s \<and> fault \<noteq> None \<and> r \<noteq> Inr ()) \<or>
     (fault = None \<and> r = fst (w rows) \<and> ds_rows s' = Some (snd (w rows)) \<and> ds_audits s' = ds_audits s @ [a])"
  by (auto simp: audited_write_def split: option.splits prod.splits)

lemma audited_rows:
  assumes "audited_write fault a w rows s = (r, s')" "ds_rows s = Some rows" "P rows" "P (snd (w rows))"
  shows "\<exists>rows'. ds_rows s' = Some rows' \<and> P rows'"
  using audited_write_cases [OF assms(1)] assms(2-4) by auto

lemma step_rows_ok:
  assumes "ds_rows s = Some rows" "rows_ok rows"
  shows "\<exists>rows'. ds_rows (snd (def_step c s)) = Some rows' \<and> rows_ok rows'"
proof (cases "dc_request c")
  case (Create_def kind body who)
  then show ?thesis using assms rows_ok_create
    by (auto simp: def_step_def create_def_def parsed_def Let_def split: option.splits sum.splits prod.splits if_splits
        dest!: audited_rows [where P = rows_ok])
next
  case (Update_def kind name body who)
  then show ?thesis using assms rows_ok_update
    by (auto simp: def_step_def update_def_def parsed_def split: option.splits sum.splits prod.splits if_splits
        dest!: audited_rows [where P = rows_ok])
next
  case (Disable_def kind name who)
  then show ?thesis using assms rows_ok_enable
    by (auto simp: def_step_def disable_def_def split: option.splits sum.splits prod.splits if_splits
        dest!: audited_rows [where P = rows_ok])
qed

lemma run_rows_ok: "\<exists>rows. ds_rows (def_run cs new_defs) = Some rows \<and> rows_ok rows"
proof (induction cs rule: rev_induct)
  case Nil
  show ?case by (simp add: def_run_def new_defs_def rows_ok_def)
next
  case (snoc c cs)
  then show ?case using step_rows_ok [of "def_run cs new_defs" _ c] by (auto simp: def_run_def)
qed

text \<open>Every change of the table is preceded by an audit record, also the attempts that fail.\<close>

lemma changes_are_audited:
  assumes "ds_rows (snd (def_step c s)) \<noteq> ds_rows s"
  shows "dc_audit c = None \<and> (\<exists>a. ds_audits (snd (def_step c s)) = ds_audits s @ [a])"
  using assms
  by (cases "dc_request c")
    (auto simp: def_step_def create_def_def update_def_def disable_def_def Let_def split: option.splits sum.splits prod.splits if_splits
      dest!: audited_write_cases)

section \<open>The catalog\<close>

lemma registry_with:
  assumes "new_registry ms os None = Inr reg"
  shows "new_registry ms os (db_source (with_definitions rows reg)) = Inr (with_definitions rows reg)"
  using assms by (auto simp: new_registry_def with_definitions_def split: sum.splits)

lemma listed_rows:
  assumes "rows_ok rows"
  shows "distinct (map df_name (listByKind kind rows)) \<and> (\<forall>d \<in> set (listByKind kind rows). schema_ok kind (df_definition d) \<and> record_name (df_definition d) = df_name d)"
proof -
  have d: "distinct (map (\<lambda>d. (df_kind d, df_name d)) rows)" using assms by (simp add: rows_ok_def)
  have "distinct rows" using d by (simp add: distinct_map)
  moreover have "inj_on df_name {d \<in> set rows. df_kind d = kind}"
    using d by (auto simp: distinct_map inj_on_def)
  ultimately have "distinct (map df_name (listByKind kind rows))" by (simp add: listByKind_def distinct_map)
  then show ?thesis using assms by (auto simp: listByKind_def rows_ok_def)
qed

lemma values_of_set: "snd ` set (js_set k v m) \<subseteq> insert v (snd ` set m)"
  by (induction m) (auto simp: js_set_def)

lemma register_all_records:
  "register_all nm rs index = Inr index' \<Longrightarrow> snd ` set index' \<subseteq> snd ` set index \<union> set rs"
proof (induction rs arbitrary: index)
  case (Cons x rs)
  have "snd ` set index' \<subseteq> snd ` set (js_set (nm x) x index) \<union> set rs"
    using Cons.prems by (intro Cons.IH) (simp split: if_splits)
  then show ?case using values_of_set [of "nm x" x index] by (auto simp: subset_iff)
qed simp

lemma file_records_ok:
  assumes "new_registry ms os None = Inr reg" "list_all maneuver_ok ms" "list_all operation_ok os"
    and "js_get (file_index reg kind) name = Some r"
  shows "record_name r = name \<and> schema_ok kind r"
proof -
  have r: "(name, r) \<in> set (file_index reg kind)" using assms(4) by (rule map_of_SomeD)
  obtain mi ri where i: "register_all record_name (map MRecord ms) [] = Inr mi" "register_all record_name (map ORecord os) [] = Inr ri"
    "reg = \<lparr>maneuvers = mi, operations = ri, db_source = None\<rparr>"
    using assms(1) by (auto simp: new_registry_def split: sum.splits)
  have "snd ` set mi \<subseteq> MRecord ` set ms" "snd ` set ri \<subseteq> ORecord ` set os"
    using register_all_records [OF i(1)] register_all_records [OF i(2)] by simp_all
  then have "r \<in> (case kind of Maneuver \<Rightarrow> MRecord ` set ms | Operation \<Rightarrow> ORecord ` set os)"
    using r by (cases kind) (force simp: i(3) file_index_def)+
  then have "schema_ok kind r" using assms(2,3) by (cases kind) (auto simp: schema_ok_def list_all_iff)
  then show ?thesis using r registry_index [OF assms(1), of kind] by auto
qed

text \<open>
  C30: The catalog is what can be run. After any sequence of requests, with whatever failures of the audit log and
  the database, the registry over the table lists a record exactly if resolving its name gives that record, and
  what a run resolves has the name that was asked for and satisfies the schema of its kind.
\<close>

theorem catalog_consistent:
  assumes "new_registry ms os None = Inr reg" "list_all maneuver_ok ms" "list_all operation_ok os"
    and "ds_rows (def_run cs new_defs) = Some rows"
  shows "(r \<in> set (list_records (with_definitions rows reg) kind) \<longleftrightarrow>
      resolve_record (with_definitions rows reg) kind (record_name r) = Inr r) \<and>
    (resolve_record (with_definitions rows reg) kind name = Inr r \<longrightarrow> record_name r = name \<and> schema_ok kind r)"
proof -
  have ok: "rows_ok rows" using run_rows_ok [of cs] assms(4) by auto
  have source: "db_source (with_definitions rows reg) = Some (\<lambda>kind. map (\<lambda>d. \<lparr>row_name = df_name d, row_definition = df_definition d, row_enabled = df_enabled d\<rparr>) (listByKind kind rows))"
    by (simp add: with_definitions_def)
  note listed = listed_rows [OF ok, of kind]
  have "r \<in> set (list_records (with_definitions rows reg) kind) \<longleftrightarrow>
      resolve_record (with_definitions rows reg) kind (record_name r) = Inr r"
    by (rule list_is_resolvable [OF registry_with [OF assms(1)]]) (use listed in \<open>auto simp: source comp_def\<close>)
  moreover have "record_name r = name \<and> schema_ok kind r" if res: "resolve_record (with_definitions rows reg) kind name = Inr r"
  proof (cases "find_first (\<lambda>x. row_name x = name) (map (\<lambda>d. \<lparr>row_name = df_name d, row_definition = df_definition d, row_enabled = df_enabled d\<rparr>) (listByKind kind rows))")
    case None
    then have "js_get (file_index reg kind) name = Some r" using res
      by (auto simp: resolve_record_def source file_index_def with_definitions_def split: option.splits run_kind.splits)
    then show ?thesis by (rule file_records_ok [OF assms(1-3)])
  next
    case (Some row)
    then show ?thesis using res listed find_first_Some [OF Some] by (auto simp: resolve_record_def source split: if_splits)
  qed
  ultimately show ?thesis by blast
qed

section \<open>A concrete catalog\<close>

definition no_faults :: sql_faults where
  "no_faults = \<lparr>sf_find = None, sf_write = None\<rparr>"

text \<open>A maneuver is defined, although a file has one of its name, and then disabled.\<close>

definition demo_def_calls :: "def_call list" where
  "demo_def_calls =
     [\<lparr>dc_request = Create_def Maneuver (Some (MRecord (sample_maneuver ''up''))) ''ada'', dc_now = 1, dc_audit = None, dc_sql = no_faults\<rparr>,
      \<lparr>dc_request = Disable_def Maneuver ''up'' ''ada'', dc_now = 2, dc_audit = None, dc_sql = no_faults\<rparr>]"

definition demo_def_rows :: "def_row list" where
  "demo_def_rows = [(new_def_row Maneuver ''up'' (MRecord (sample_maneuver ''up'')) ''ada'' 1)\<lparr>df_enabled := False, df_updatedAt := 2\<rparr>]"

lemma sample_maneuver_ok: "n \<noteq> [] \<Longrightarrow> maneuver_ok (sample_maneuver n)"
  by (simp add: maneuver_ok_def sample_maneuver_def sample_step_def command_step_ok_def selectors_def)

lemma demo_def_run: "ds_rows (def_run demo_def_calls new_defs) = Some demo_def_rows"
  by (simp add: def_run_def demo_def_calls_def def_step_def create_def_def disable_def_def parsed_def schema_ok_def sample_maneuver_ok Let_def
      audited_write_def store_create_def setEnabled_def findByKindAndName_def is_row_def new_def_row_def new_defs_def no_faults_def demo_def_rows_def)
   (simp add: sample_maneuver_def)

lemma catalog_consistent_witness:
  "MRecord (sample_maneuver ''up'') \<notin> set (list_records (with_definitions demo_def_rows sample_registry) Maneuver)"
proof -
  have reg: "new_registry [sample_maneuver ''up''] [] None = Inr sample_registry"
    by (simp add: new_registry_def sample_registry_def js_has_def js_set_def sample_maneuver_def)
  have "resolve_record (with_definitions demo_def_rows sample_registry) Maneuver (record_name (MRecord (sample_maneuver ''up''))) = Inl Disabled"
    by (simp add: resolve_record_def with_definitions_def demo_def_rows_def listByKind_def new_def_row_def sample_maneuver_def)
  then show ?thesis
    using catalog_consistent [OF reg _ _ demo_def_run, of "MRecord (sample_maneuver ''up'')" Maneuver] by (simp add: sample_maneuver_ok)
qed

end
