(* ===== verification/Run_Recording.thy ===== *)
theory Run_Recording
  imports Definition_Store
begin

text \<open>
  The executor over the table of runs: what \<open>OperationRunStore\<close> keeps of a run is what its caller was told. The
  world of the executor is the table beside the world of the plant.
\<close>

section \<open>The executor with its store\<close>

definition beside :: "('w, string, 'a) comp \<Rightarrow> (run_row list \<times> 'w, string, 'a) comp" where
  "beside m = (\<lambda>(rows, w). case m w of (r, w') \<Rightarrow> (r, (rows, w')))"

definition on_rows :: "(run_row list, string, 'a) comp \<Rightarrow> (run_row list \<times> 'w, string, 'a) comp" where
  "on_rows m = (\<lambda>(rows, w). case m rows of (r, rows') \<Rightarrow> (r, (rows', w)))"

definition with_run_store :: "'w exec_env \<Rightarrow> (run_row list \<times> 'w) exec_env" where
  "with_run_store env =
     \<lparr>e_registry = e_registry env, filterAvailable = (\<lambda>ids. beside (filterAvailable env ids)),
      resolveAvailable = (\<lambda>t. beside (resolveAvailable env t)), ch_execute = (\<lambda>r. beside (ch_execute env r)),
      ch_schedule = (\<lambda>r d. beside (ch_schedule env r d)), run_begin = (\<lambda>d. on_rows (begin_run d)),
      run_finish = (\<lambda>i st f. on_rows (finish_run i st f)),
      remote_execute = map_option (\<lambda>call s m ps t l. beside (call s m ps t l)) (remote_execute env),
      precondition = map_option (\<lambda>hook k n ps. beside (hook k n ps)) (precondition env), completion = completion env\<rparr>"

section \<open>What a run keeps\<close>

lemma on_world_in_world: "keepsC I m \<Longrightarrow> on_world I s \<Longrightarrow> in_world m s = (r, s') \<Longrightarrow> on_world I s'"
  using keepsC_result [OF keeps_in_world] by blast

text \<open>Every call of the environment between the begin and the end of a run keeps \<open>I\<close>; then the run does.\<close>

locale plant_invariant =
  fixes I :: "'w \<Rightarrow> bool" and env :: "'w exec_env"
  assumes filter_keeps: "keepsC I (filterAvailable env ids)"
    and resolve_keeps: "keepsC I (resolveAvailable env t)"
    and execute_keeps: "keepsC I (ch_execute env r)"
    and schedule_keeps: "keepsC I (ch_schedule env r d)"
    and remote_keeps: "remote_execute env = Some call \<Longrightarrow> keepsC I (call sys m ps tm l)"
begin

lemma step_resolution: "keepsC (on_world I) (resolveStep env ps g t step)"
  by (intro keeps_resolveStep filter_keeps resolve_keeps)

lemma timer: "on_world I s \<Longrightarrow> on_world I (scheduleTimer env st s)"
  by (auto simp: scheduleTimer_def Let_def split: option.splits prod.splits sum.splits dest: on_world_in_world [OF schedule_keeps])

lemma target: "keepsC (on_world I) (run_target env i r)"
  unfolding run_target_def
  by (rule keeps_bind [OF keeps_in_world [OF execute_keeps]]) (auto simp: keepsC_def Let_def timer split: prod.splits)

lemma command_step: "keepsC (on_world I) (executeStep env mode step rl i)"
proof (rule keepsCI)
  fix s assume s: "on_world I s"
  have "on_world I (snd (settledC (run_target env i) (in_order env rl) s))" by (rule keeps_settled [OF target s])
  moreover have "keepsC (on_world I) (mapresC (list_all (\<lambda>ok. ok)) (seqC (run_target env i) rl))"
    by (intro keeps target)
  ultimately show "on_world I (snd (executeStep env mode step rl i s))"
    using s by (cases mode) (auto simp: executeStep_def keepsC_def split: prod.splits)
qed

lemma chain: "on_world I s \<Longrightarrow> on_world I (snd (run_chain env stop i work s))"
proof (induction work arbitrary: i s)
  case (Cons x work)
  obtain step rl where x: "x = (step, rl)" by (cases x)
  obtain r s1 where r: "executeStep env Sequential step rl i s = (r, s1)" by fastforce
  then have "on_world I s1" using command_step Cons.prems by (metis keepsC_result)
  then show ?case using Cons.IH by (auto simp: x r split: sum.splits)
qed simp

lemma step_list: "keepsC (on_world I) (runStepList env steps mode f ps g t)"
  unfolding runStepList_def
proof (intro keeps step_resolution)
  fix rl :: "resolved_step list list"
  show "keepsC (on_world I) (\<lambda>s. let s0 = s\<lparr>outs := [], succeeded := []\<rparr>; work = zip steps rl;
      (r, s1) = (case mode of Sequential \<Rightarrow> run_chain env (f = Stop) 0 work s0 | Parallel \<Rightarrow> (Inr (), run_steps_parallel env work s0))
    in (case r of Inl e \<Rightarrow> (Inl e, s1) | Inr _ \<Rightarrow> (Inr (outs s1, list_all oc_success (outs s1), succeeded s1), s1)))"
  proof (rule keepsCI)
    fix s assume "on_world I s"
    then have s0: "on_world I (s\<lparr>outs := [], succeeded := []\<rparr>)" by simp
    have "on_world I (run_steps_parallel env work (s\<lparr>outs := [], succeeded := []\<rparr>))" for work
      unfolding run_steps_parallel_def by (rule keeps_settled [where I = "on_world I", OF _ s0]) (auto simp: command_step)
    moreover note chain [OF s0]
    ultimately show "on_world I (snd (let s0 = s\<lparr>outs := [], succeeded := []\<rparr>; work = zip steps rl;
      (r, s1) = (case mode of Sequential \<Rightarrow> run_chain env (f = Stop) 0 work s0 | Parallel \<Rightarrow> (Inr (), run_steps_parallel env work s0))
    in (case r of Inl e \<Rightarrow> (Inl e, s1) | Inr _ \<Rightarrow> (Inr (outs s1, list_all oc_success (outs s1), succeeded s1), s1))))"
      by (cases mode) (auto simp: Let_def split: prod.splits sum.splits, (metis snd_conv)+)
  qed
qed

lemma rollback_steps: "keepsC (on_world I) (runRollbackSteps env steps succ_ids mode)"
proof -
  have "keepsC (on_world I) (rollback_step env succ_ids st)" for st
    unfolding rollback_step_def by (intro keeps step_resolution keeps_rollback_target execute_keeps)
  then show ?thesis by (cases mode) (simp_all add: runRollbackSteps_def settled_keeps_state keeps_mapres keeps_seq)
qed

lemma maneuver: "keepsC (on_world I) (runManeuver env m ps g t)"
  unfolding runManeuver_def by (intro keeps step_list) (auto intro!: keeps rollback_steps split: prod.splits)

lemma remote: "runRemoteStep env sys m ps tm ov l s = (r, s') \<Longrightarrow> on_world I s \<Longrightarrow> on_world I s'"
  by (auto simp: runRemoteStep_def split: option.splits prod.splits sum.splits dest: on_world_in_world [OF remote_keeps])

lemma operation_step: "keepsC (on_world I) (runOperationStep env ps g t rs rt step idx)"
proof (cases step)
  case (RemoteStep sys m sp)
  then show ?thesis by (auto simp: keepsC_def runOperationStep_def split: prod.splits dest: remote)
next
  case (ManeuverStep m sp)
  then show ?thesis by (auto simp: runOperationStep_def intro!: keeps maneuver split: sum.splits run_record.splits)
next
  case (CommandsStep cs md f sp)
  then show ?thesis by (auto simp: runOperationStep_def intro!: keeps step_list)
qed

lemma operation_steps: "keepsC (on_world I) (operation_steps_run env r ps g t rs rt)"
proof -
  have chain: "on_world I (snd (operation_chain (runOperationStep env ps g t rs rt) stop idx acc steps s))" if "on_world I s" for stop idx acc steps s
    using that
  proof (induction steps arbitrary: idx acc s)
    case (Cons step steps)
    obtain r s1 where r: "runOperationStep env ps g t rs rt step idx s = (r, s1)" by fastforce
    then have "on_world I s1" using operation_step Cons.prems by (metis keepsC_result)
    then show ?case using Cons by (auto simp: r split: sum.splits)
  qed simp
  show ?thesis
  proof (rule keepsCI)
    fix s assume s: "on_world I s"
    have "on_world I (snd (settledC (\<lambda>(i, step). runOperationStep env ps g t rs rt step i) xs s))" for xs
      by (rule keeps_settled [where I = "on_world I", OF _ s]) (auto simp: operation_step)
    then show "on_world I (snd (operation_steps_run env r ps g t rs rt s))"
      using chain [OF s] by (cases "o_mode r") (auto simp: operation_steps_run_def Let_def split: prod.splits, metis snd_conv)
  qed
qed

lemma operation_rollback: "keepsC (on_world I) (runOperationRollback env r ocs rs rt)"
proof -
  have "keepsC (on_world I) (operation_rollback_one env rs rt p)" for p
  proof (cases p)
    case (Pair rb oc)
    show ?thesis
    proof (cases "oc = None \<or> \<not> oc_success (the oc)")
      case True
      then show ?thesis by (cases oc) (auto simp: operation_rollback_one_def Pair intro: keeps)
    next
      case False
      then show ?thesis
      proof (cases rb)
        case (RemoteStep sys m sp)
        then show ?thesis using False by (auto simp: keepsC_def operation_rollback_one_def Pair split: prod.splits dest: remote)
      next
        case (ManeuverStep m sp)
        then show ?thesis using False
          by (auto simp: operation_rollback_one_def Pair intro!: keeps maneuver split: sum.splits run_record.splits) (auto simp: keepsC_def)
      next
        case (CommandsStep cs md f sp)
        then show ?thesis using False by (auto simp: operation_rollback_one_def Pair intro!: keeps step_list)
      qed
    qed
  qed
  then show ?thesis unfolding runOperationRollback_def by (intro keeps) simp
qed

lemma whole_run: "keepsC (on_world I) (runRecord env rec ps g t rs rt)"
  by (auto simp: runRecord_def runOperation_def Let_def intro!: keeps maneuver operation_steps operation_rollback split: run_record.splits)

end

section \<open>The row of a run\<close>

lemma beside_keeps: "keepsC (\<lambda>(rows, w). rows = R) (beside m)"
  by (auto simp: keepsC_def beside_def split: prod.splits)

interpretation run_rows: plant_invariant "\<lambda>(rows, w). rows = R" "with_run_store env" for R env
  by unfold_locales (auto simp: with_run_store_def beside_keeps)

lemma rows_on_world [simp]: "on_world (\<lambda>(rows, w). rows = R) s \<longleftrightarrow> fst (world s) = R"
  by (simp add: on_world_def case_prod_beta)

lemma run_keeps_rows: "runRecord (with_run_store env) rec ps g t rs rt s = (r, s') \<Longrightarrow> fst (world s') = fst (world s)"
  using keepsC_result [OF run_rows.whole_run [where R = "fst (world s)" and env = env], of s rec ps g t rs rt r s'] by simp

lemma precondition_keeps_rows:
  assumes "check_precondition (with_run_store env) kind name ps s = (v, s')"
  shows "fst (world s') = fst (world s)"
proof -
  have "keepsC (\<lambda>(rows, w). rows = fst (world s)) (hook k n p)" if "precondition (with_run_store env) = Some hook" for hook k n p
    using that by (auto simp: with_run_store_def beside_keeps)
  then show ?thesis
    using check_precondition_keeps [where I = "\<lambda>(rows, w). rows = fst (world s)", OF _ _ assms] by (simp add: case_prod_beta)
qed

definition begun_row :: "run_draft \<Rightarrow> run_row" where
  "begun_row d = \<lparr>rn_id = draft_id d, rn_draft = d, rn_status = None, rn_finishedAt = None\<rparr>"

lemma begin_fresh:
  assumes "\<forall>x \<in> set (fst (world s)). rn_id x \<noteq> draft_id d"
  shows "in_world (run_begin (with_run_store env) d) s = (Inr (), s\<lparr>world := (fst (world s) @ [begun_row d], snd (world s))\<rparr>)"
  using assms by (auto simp: in_world_def with_run_store_def on_rows_def begin_run_def begun_row_def list_ex_iff case_prod_beta)

lemma finish_last:
  assumes "fst (world s) = rows @ [begun_row d]" "\<forall>x \<in> set rows. rn_id x \<noteq> draft_id d" "status \<noteq> Rejected"
  shows "fst (world (finishBestEffort (with_run_store env) (draft_id d) status t ocs s)) =
    rows @ [(begun_row d)\<lparr>rn_status := Some status, rn_finishedAt := Some t\<rparr>]"
proof -
  have "map (\<lambda>r. if rn_id r = draft_id d then r\<lparr>rn_status := Some status, rn_finishedAt := Some t\<rparr> else r) rows = rows"
    using assms(2) by (simp add: map_idI)
  then show ?thesis using assms(1,3)
    by (simp add: finishBestEffort_def in_world_def with_run_store_def on_rows_def finish_run_def begun_row_def case_prod_beta)
qed

lemma started_run_row:
  assumes "started_run (with_run_store env) (draft_id d) t kind name rec ps opts s = (res, s')"
    and "fst (world s) = rows @ [begun_row d]" "\<forall>x \<in> set rows. rn_id x \<noteq> draft_id d"
  shows "case res of
      Inl e \<Rightarrow> fst (world s') = rows @ [begun_row d]
    | Inr r \<Rightarrow> rr_status r \<noteq> Rejected \<and> fst (world s') = rows @ [(begun_row d)\<lparr>rn_status := Some (rr_status r), rn_finishedAt := Some t\<rparr>]"
proof -
  define s1 where "s1 = audit ''operation_started'' ''info'' [(''runId'', JStr (draft_id d)), (''kind'', JStr (kind_name kind)), (''name'', JStr name),
                   (''trigger'', JStr (or_else (x_trigger opts) ''manual'')), (''createdBy'', JStr (or_else (x_createdBy opts) ''system''))] s"
  have w1: "world s1 = world s" by (simp add: s1_def audit_def)
  obtain q s2 where q: "runRecord (with_run_store env) rec ps (x_deviceIds opts)
      (map_option (\<lambda>sec. \<lparr>durationMs = js_mul sec (js_int 1000), stopCommand = None\<rparr>) (x_timerSeconds opts))
      (x_remoteSystem opts) (x_remoteTimeoutMs opts) s1 = (q, s2)" by fastforce
  have w2: "fst (world s2) = rows @ [begun_row d]" using run_keeps_rows [OF q] w1 assms(2) by simp
  show ?thesis
  proof (cases q)
    case (Inl e)
    then show ?thesis using assms(1) q w2 by (auto simp: started_run_def s1_def Let_def)
  next
    case (Inr x)
    obtain ocs ok rb where x: "x = (ocs, ok, rb)" by (cases x)
    define status where "status = (if rb then Rolled_back else if ok then Completed else Failed)"
    define s3 where "s3 = audit (if rb then ''operation_rolled_back'' else if ok then ''operation_completed'' else ''operation_failed'')
       (if rb then ''warn'' else if ok then ''info'' else ''error'')
       [(''runId'', JStr (draft_id d)), (''kind'', JStr (kind_name kind)), (''name'', JStr name)] s2"
    have w3: "fst (world s3) = rows @ [begun_row d]" by (simp add: s3_def audit_def w2)
    have st: "status \<noteq> Rejected" by (simp add: status_def)
    have "res = Inr \<lparr>rr_runId = draft_id d, rr_kind = kind, rr_name = name, rr_status = status, rr_outcomes = ocs, rr_reason = None\<rparr>"
      "s' = finishBestEffort (with_run_store env) (draft_id d) status t ocs s3"
      using assms(1) q Inr x by (auto simp: started_run_def s1_def s3_def status_def Let_def)
    then show ?thesis using finish_last [OF w3 assms(3) st] st by simp
  qed
qed


section \<open>A concrete run\<close>

definition demo_kept_state :: "(run_row list \<times> string list) xstate" where
  "demo_kept_state = \<lparr>world = ([], []), audits = [], outs = [], succeeded = []\<rparr>"

lemma demo_kept_run:
  "\<exists>r s'. execute (with_run_store (sample_plant (returnC ()))) ''r1'' [] ''t'' Maneuver ''up'' [] sample_options demo_kept_state = (Inr r, s') \<and>
     rr_status r = Failed"
  by (simp add: execute_def sample_plant_def sample_registry_def resolve_record_def file_index_def validateDivideTotal_def divide_steps_def
      sample_maneuver_def check_precondition_def in_world_def Let_def demo_kept_state_def started_run_def runRecord_def runManeuver_def
      runStepList_def allC_def resolveStep_def target_ids_def mapresC_cases bindC_def sample_step_def executeStep_def run_target_def
      push_outcome_def scheduleTimer_def applyDivideTotal_def audit_def divide_params_ok_def finishBestEffort_def sample_options_def
      with_run_store_def beside_def on_rows_def begin_run_def finish_run_def)


end
